(* ===== verification/Prelude.thy ===== *)
theory Prelude
  imports Main "HOL-Library.Multiset" "HOL-Library.Word"
begin

section \<open>Prelude: Go integers, results and the generic lemmas the components share\<close>

text \<open>
  What every component of the development uses.

  \<^item> Go's fixed-width integers. A Go \<open>int64\<close> or \<open>uint64\<close> is an \<open>int\<close> that is wrapped where the
    code computes with it: \<open>wrap_s64\<close> and \<open>wrap_u64\<close> write the two's complement wrap-around out.
    A byte is an \<open>8 word\<close>.
  \<^item> Results. A Go function with an \<open>error\<close> result returns a value of \<open>'a result\<close>:
    \<open>Ok\<close> for a \<open>nil\<close> error, \<open>Err\<close> for an error value (by its message), \<open>Panic\<close> for a run-time panic
    that unwinds through the caller.
  \<^item> Generic lemmas on lists and arithmetic, collected in \<open>go_arith\<close> and \<open>go_list\<close>.
\<close>

named_theorems go_arith \<open>wrap-around arithmetic of Go's fixed-width integers\<close>
named_theorems go_list \<open>facts on slices modelled as lists\<close>
named_theorems go_defs \<open>definitions a component's proofs unfold together\<close>

type_synonym byte = "8 word"

subsection \<open>Fixed-width integers\<close>

definition wrap_s64 :: "int \<Rightarrow> int" where
  "wrap_s64 x = (x + 2 ^ 63) mod 2 ^ 64 - 2 ^ 63"

definition wrap_u64 :: "int \<Rightarrow> int" where
  "wrap_u64 x = x mod 2 ^ 64"

definition is_s64 :: "int \<Rightarrow> bool" where
  "is_s64 x \<longleftrightarrow> - (2 ^ 63) \<le> x \<and> x < 2 ^ 63"

definition is_u64 :: "int \<Rightarrow> bool" where
  "is_u64 x \<longleftrightarrow> 0 \<le> x \<and> x < 2 ^ 64"

lemma wrap_s64_id [simp, go_arith]: "is_s64 x \<Longrightarrow> wrap_s64 x = x"
  by (simp add: wrap_s64_def is_s64_def)

lemma wrap_u64_id [simp, go_arith]: "is_u64 x \<Longrightarrow> wrap_u64 x = x"
  by (simp add: wrap_u64_def is_u64_def)

lemma is_s64_wrap [simp, go_arith]: "is_s64 (wrap_s64 x)"
proof -
  have "0 \<le> (x + 2 ^ 63) mod 2 ^ 64" "(x + 2 ^ 63) mod 2 ^ 64 < 2 ^ 64"
    by simp_all
  then show ?thesis by (simp add: is_s64_def wrap_s64_def)
qed

lemma is_u64_wrap [simp, go_arith]: "is_u64 (wrap_u64 x)"
  by (simp add: is_u64_def wrap_u64_def)

lemma wrap_s64_idem [simp]: "wrap_s64 (wrap_s64 x) = wrap_s64 x"
  by simp

lemma unat_byte_lt: "unat (b :: byte) < 256"
  by (rule order_less_le_trans [OF unsigned_less]) simp

lemma mod_div_exp: "0 < a \<Longrightarrow> v mod (a * m) div a = v div a mod (m :: nat)"
  by (simp add: mod_mult2_eq)

lemma div_exp_mod:
  assumes "m + k \<le> n"
  shows "(x :: nat) mod 2 ^ n div 2 ^ m mod 2 ^ k = x div 2 ^ m mod 2 ^ k"
proof -
  have "take_bit k (drop_bit m (take_bit n x)) = take_bit k (drop_bit m x)"
    using assms by (simp add: drop_bit_take_bit min_absorb1)
  then show ?thesis by (simp only: take_bit_eq_mod drop_bit_eq_div)
qed

subsection \<open>Results\<close>

datatype 'a result = Ok 'a | Err string | Panic string

primrec result_bind :: "'a result \<Rightarrow> ('a \<Rightarrow> 'b result) \<Rightarrow> 'b result" where
  "result_bind (Ok x) f = f x"
| "result_bind (Err e) f = Err e"
| "result_bind (Panic e) f = Panic e"

primrec is_ok :: "'a result \<Rightarrow> bool" where
  "is_ok (Ok x) = True"
| "is_ok (Err e) = False"
| "is_ok (Panic e) = False"

lemma result_bind_Ok_iff:
  "result_bind r f = Ok y \<longleftrightarrow> (\<exists>x. r = Ok x \<and> f x = Ok y)"
  by (cases r) auto

subsection \<open>Outcomes\<close>

text \<open>What a computation with fuel comes to: a value, a run-time panic, or no fuel left.\<close>

datatype 'a outcome = Done 'a | Crash string | Timeout

primrec outcome_bind :: "'a outcome \<Rightarrow> ('a \<Rightarrow> 'b outcome) \<Rightarrow> 'b outcome" where
  "outcome_bind (Done x) f = f x"
| "outcome_bind (Crash e) f = Crash e"
| "outcome_bind Timeout f = Timeout"

lemma outcome_bind_Done_iff: "outcome_bind r f = Done y \<longleftrightarrow> (\<exists>x. r = Done x \<and> f x = Done y)"
  by (cases r) auto

lemma outcome_bind_Crash_iff: "outcome_bind r f = Crash e \<longleftrightarrow> r = Crash e \<or> (\<exists>x. r = Done x \<and> f x = Crash e)"
  by (cases r) auto

lemma outcome_bind_Timeout_iff: "outcome_bind r f = Timeout \<longleftrightarrow> r = Timeout \<or> (\<exists>x. r = Done x \<and> f x = Timeout)"
  by (cases r) auto

text \<open>A result where an error is as good as a panic.\<close>

primrec of_result :: "'a result \<Rightarrow> 'a outcome" where
  "of_result (Ok x) = Done x"
| "of_result (Err e) = Crash e"
| "of_result (Panic e) = Crash e"

lemma of_result_not_Timeout [simp]: "of_result r \<noteq> Timeout"
  by (cases r) simp_all

lemma of_result_Done_iff [simp]: "of_result r = Done x \<longleftrightarrow> r = Ok x"
  by (cases r) simp_all

subsection \<open>Lists\<close>

lemma nth_update_swap [go_list]:
  assumes "i < length xs" "j < length xs" "k < length xs"
  shows "xs[i := a, j := b] ! k = (if k = j then b else if k = i then a else xs ! k)"
  using assms by (auto simp: nth_list_update)

lemma mset_map_swap [go_list]:
  assumes "i < length xs" "j < length xs"
    and "f a = f (xs ! j)" "f b = f (xs ! i)"
  shows "mset (map f (xs[i := a, j := b])) = mset (map f xs)"
proof -
  have "map f (xs[i := a, j := b]) = (map f xs)[i := map f xs ! j, j := map f xs ! i]"
    using assms by (simp add: map_update)
  moreover have "mset ((map f xs)[i := map f xs ! j, j := map f xs ! i]) = mset (map f xs)"
    using assms(1,2) by (intro mset_swap) simp_all
  ultimately show ?thesis by simp
qed

lemma sorted_nth_le:
  "sorted xs \<Longrightarrow> i \<le> j \<Longrightarrow> j < length xs \<Longrightarrow> xs ! i \<le> xs ! j"
  by (rule sorted_nth_mono)

end
