(* ===== verification/Queues.thy ===== *)
theory Queues
  imports Prelude
begin

section \<open>Queues: the priority heap and the queues built on it (commons/queue)\<close>

text \<open>
  \<open>commons/queue\<close> keeps gossips, transactions and receipts in a binary heap ordered by time, the
  oldest first, beside a set of the hashes that are queued. The heap operations are those of Go's
  \<open>container/heap\<close> over the \<open>heap.Interface\<close> methods of \<open>PriorityQueue\<close>.

  \<^item> \<open>Item\<close> and the \<open>PriorityQueue_*\<close> operations: \<open>priority_queue.go\<close>. A slice of items is a list;
    the \<open>Index\<close> field the code maintains is part of the item.
  \<^item> \<open>heap_*\<close>: \<open>heap.Init\<close>, \<open>heap.Push\<close>, \<open>heap.Pop\<close>, \<open>heap.Fix\<close> and their loops \<open>up\<close> and \<open>down\<close>.
  \<^item> \<open>ExistsMap_*\<close>, \<open>GossipQueue_*\<close>, \<open>TransactionQueue_*\<close>, \<open>ReceiptQueue_*\<close>: the files of the same
    names.
  \<^item> \<open>WatchHeapOps\<close>: the goroutine that serialises the pushes and pops of all clients.

  The locale \<open>min_queue\<close> is the contract of a priority queue; \<open>heap_pq\<close> interprets it on the heap and
  the order in which queued work comes out rests on it. The locale \<open>keyed_queue\<close> is the contract of a
  queue with its set of keys, which the consensus service relies on when it asks whether a
  transaction is queued.
\<close>

subsection \<open>Items and the heap interface\<close>

record 'a Item =
  Data :: 'a
  Priority :: int
  Index :: int

type_synonym 'a PriorityQueue = "'a Item list"

definition PriorityQueue_Len :: "'a PriorityQueue \<Rightarrow> nat" where
  "PriorityQueue_Len pq = length pq"

definition PriorityQueue_Less :: "'a PriorityQueue \<Rightarrow> nat \<Rightarrow> nat \<Rightarrow> bool" where
  "PriorityQueue_Less pq i j \<longleftrightarrow> Priority (pq ! j) > Priority (pq ! i)"

definition PriorityQueue_Swap :: "'a PriorityQueue \<Rightarrow> nat \<Rightarrow> nat \<Rightarrow> 'a PriorityQueue" where
  "PriorityQueue_Swap pq i j =
     pq[i := (pq ! j)\<lparr>Index := int i\<rparr>, j := (pq ! i)\<lparr>Index := int j\<rparr>]"

definition PriorityQueue_Push :: "'a PriorityQueue \<Rightarrow> 'a Item \<Rightarrow> 'a PriorityQueue" where
  "PriorityQueue_Push pq x = pq @ [x\<lparr>Index := int (length pq)\<rparr>]"

text \<open>The interface's own \<open>Pop\<close> takes the last slot; on an empty slice it panics (\<open>None\<close>).\<close>

definition PriorityQueue_Pop :: "'a PriorityQueue \<Rightarrow> ('a Item \<times> 'a PriorityQueue) option" where
  "PriorityQueue_Pop pq =
     (if pq = [] then None else Some ((last pq)\<lparr>Index := -1\<rparr>, butlast pq))"

definition PriorityQueue_Dump :: "'a PriorityQueue \<Rightarrow> 'a Item list" where
  "PriorityQueue_Dump pq = pq"

definition PriorityQueue_Peek :: "'a PriorityQueue \<Rightarrow> int" where
  "PriorityQueue_Peek pq = (if length pq > 0 then Priority (pq ! (length pq - 1)) else -1)"

subsection \<open>container/heap\<close>

function heap_up :: "'a PriorityQueue \<Rightarrow> nat \<Rightarrow> 'a PriorityQueue" where
  "heap_up h j =
     (let i = (j - 1) div 2
      in if i = j \<or> \<not> PriorityQueue_Less h j i then h
         else heap_up (PriorityQueue_Swap h i j) i)"
  by pat_completeness auto
termination
  by (relation "measure snd") auto

text \<open>The loop \<open>down\<close> returns the position it stopped at beside the heap: \<open>heap.Fix\<close> asks for it.\<close>

function heap_down :: "'a PriorityQueue \<Rightarrow> nat \<Rightarrow> nat \<Rightarrow> 'a PriorityQueue \<times> nat" where
  "heap_down h i n =
     (let j1 = 2 * i + 1
      in if j1 \<ge> n then (h, i)
         else let j = (if j1 + 1 < n \<and> PriorityQueue_Less h (j1 + 1) j1 then j1 + 1 else j1)
              in if \<not> PriorityQueue_Less h j i then (h, i)
                 else heap_down (PriorityQueue_Swap h i j) j n)"
  by pat_completeness auto
termination
  by (relation "measure (\<lambda>(h, i, n). n - i)") (auto simp: Let_def split: if_splits)

declare heap_up.simps [simp del] heap_down.simps [simp del]

text \<open>\<open>heap.Init\<close>: \<open>for i := n/2 - 1; i >= 0; i--\<close>; the argument counts the iterations left.\<close>

primrec heap_Init_loop :: "nat \<Rightarrow> 'a PriorityQueue \<Rightarrow> 'a PriorityQueue" where
  "heap_Init_loop 0 h = h"
| "heap_Init_loop (Suc i) h = heap_Init_loop i (fst (heap_down h i (length h)))"

definition heap_Init :: "'a PriorityQueue \<Rightarrow> 'a PriorityQueue" where
  "heap_Init h = heap_Init_loop (length h div 2) h"

definition heap_Push :: "'a PriorityQueue \<Rightarrow> 'a Item \<Rightarrow> 'a PriorityQueue" where
  "heap_Push h x = (let h' = PriorityQueue_Push h x in heap_up h' (length h' - 1))"

definition heap_Pop :: "'a PriorityQueue \<Rightarrow> ('a Item \<times> 'a PriorityQueue) option" where
  "heap_Pop h =
     (if h = [] then None
      else let n = length h - 1
           in PriorityQueue_Pop (fst (heap_down (PriorityQueue_Swap h 0 n) 0 n)))"

definition heap_Fix :: "'a PriorityQueue \<Rightarrow> nat \<Rightarrow> 'a PriorityQueue" where
  "heap_Fix h i =
     (let (h', k) = heap_down h i (length h)
      in if k > i then h' else heap_up h' i)"

text \<open>\<open>Update\<close> writes the item at its recorded index and restores the heap there.\<close>

definition PriorityQueue_Update :: "'a PriorityQueue \<Rightarrow> nat \<Rightarrow> 'a \<Rightarrow> int \<Rightarrow> 'a PriorityQueue" where
  "PriorityQueue_Update pq i v p =
     heap_Fix (pq[i := (pq ! i)\<lparr>Data := v, Priority := p\<rparr>]) i"

subsection \<open>The set of queued keys and the queues\<close>

record ExistsMap =
  internal :: "string \<Rightarrow> bool option"

definition NewExistsMap :: ExistsMap where
  "NewExistsMap = \<lparr>internal = Map.empty\<rparr>"

definition ExistsMap_Exists :: "ExistsMap \<Rightarrow> string \<Rightarrow> bool" where
  "ExistsMap_Exists em key \<longleftrightarrow> (case internal em key of None \<Rightarrow> False | Some _ \<Rightarrow> True)"

definition ExistsMap_Delete :: "ExistsMap \<Rightarrow> string \<Rightarrow> ExistsMap" where
  "ExistsMap_Delete em key = em\<lparr>internal := (internal em)(key := None)\<rparr>"

definition ExistsMap_Put :: "ExistsMap \<Rightarrow> string \<Rightarrow> ExistsMap" where
  "ExistsMap_Put em key = em\<lparr>internal := (internal em)(key \<mapsto> True)\<rparr>"

text \<open>
  \<open>thread_safe_queue.go\<close>: \<open>HeapPush\<close> and \<open>HeapPop\<close> send a message to the goroutine of \<open>WatchHeapOps\<close>,
  which applies \<open>heap.Push\<close> and \<open>heap.Pop\<close> one message at a time. The model runs the messages in the
  order the goroutine receives them; a pop of an empty heap panics (\<open>None\<close>).
\<close>

datatype 'a heap_msg = heapPushChanMsg "'a Item" | heapPopChanMsg

fun WatchHeapOps :: "'a heap_msg list \<Rightarrow> 'a PriorityQueue \<Rightarrow>
    ('a Item list \<times> 'a PriorityQueue) option" where
  "WatchHeapOps [] h = Some ([], h)"
| "WatchHeapOps (heapPushChanMsg x # ms) h = WatchHeapOps ms (heap_Push h x)"
| "WatchHeapOps (heapPopChanMsg # ms) h =
     (case heap_Pop h of
        None \<Rightarrow> None
      | Some (x, h') \<Rightarrow> map_option (\<lambda>(xs, h''). (x # xs, h'')) (WatchHeapOps ms h'))"

definition HeapPush :: "'a PriorityQueue \<Rightarrow> 'a Item \<Rightarrow> 'a PriorityQueue" where
  "HeapPush h x = heap_Push h x"

definition HeapPop :: "'a PriorityQueue \<Rightarrow> ('a Item \<times> 'a PriorityQueue) option" where
  "HeapPop h = heap_Pop h"

text \<open>
  The queues hold pointers. \<open>'g\<close> is the type of the pointers; \<open>hash\<close> and \<open>time\<close> read
  \<open>Transaction.Hash\<close> and \<open>Transaction.Time\<close> of the gossip pointed to.
\<close>

record 'g GossipQueue =
  gq_Queue :: "'g PriorityQueue"
  gq_ExistsMap :: ExistsMap

definition NewGossipQueue :: "'g GossipQueue" where
  "NewGossipQueue = \<lparr>gq_Queue = heap_Init [], gq_ExistsMap = NewExistsMap\<rparr>"

definition GossipQueue_Push ::
    "('g \<Rightarrow> string) \<Rightarrow> ('g \<Rightarrow> int) \<Rightarrow> 'g \<Rightarrow> 'g GossipQueue \<Rightarrow> 'g GossipQueue" where
  "GossipQueue_Push hash time g gq =
     (let itm = \<lparr>Data = g, Priority = time g, Index = int (PriorityQueue_Len (gq_Queue gq)) + 1\<rparr>
      in gq\<lparr>gq_ExistsMap := ExistsMap_Put (gq_ExistsMap gq) (hash g),
            gq_Queue := HeapPush (gq_Queue gq) itm\<rparr>)"

definition GossipQueue_Pop ::
    "('g \<Rightarrow> string) \<Rightarrow> 'g GossipQueue \<Rightarrow> ('g \<times> 'g GossipQueue) option" where
  "GossipQueue_Pop hash gq =
     (case HeapPop (gq_Queue gq) of
        None \<Rightarrow> None
      | Some (itm, q) \<Rightarrow>
          Some (Data itm,
            gq\<lparr>gq_Queue := q, gq_ExistsMap := ExistsMap_Delete (gq_ExistsMap gq) (hash (Data itm))\<rparr>))"

definition GossipQueue_HasAvailable :: "'g GossipQueue \<Rightarrow> bool" where
  "GossipQueue_HasAvailable gq \<longleftrightarrow> PriorityQueue_Peek (gq_Queue gq) \<noteq> -1"

definition GossipQueue_Exists :: "'g GossipQueue \<Rightarrow> string \<Rightarrow> bool" where
  "GossipQueue_Exists gq key \<longleftrightarrow> ExistsMap_Exists (gq_ExistsMap gq) key"

definition GossipQueue_Dump :: "'g GossipQueue \<Rightarrow> 'g list" where
  "GossipQueue_Dump gq = map Data (gq_Queue gq)"

text \<open>
  \<open>transaction_queue.go\<close> also sorts the slice after a push. \<open>sort.Sort\<close> leaves the items in ascending
  order of priority, the \<open>Swap\<close> calls it makes keep the indices; the order of items of equal
  priority is the one choice the model makes.
\<close>

definition reindex :: "'a PriorityQueue \<Rightarrow> 'a PriorityQueue" where
  "reindex pq = map (\<lambda>(i, x). x\<lparr>Index := int i\<rparr>) (List.enumerate 0 pq)"

definition sort_Sort :: "'a PriorityQueue \<Rightarrow> 'a PriorityQueue" where
  "sort_Sort pq = reindex (sort_key Priority pq)"

record 't TransactionQueue =
  txq_Queue :: "'t PriorityQueue"
  txq_ExistsMap :: ExistsMap
  txq_LockTime :: int

definition NewTransactionQueue :: "int \<Rightarrow> 't TransactionQueue" where
  "NewTransactionQueue lockTimeInSeconds =
     \<lparr>txq_Queue = heap_Init [], txq_ExistsMap = NewExistsMap,
      txq_LockTime = wrap_s64 (lockTimeInSeconds * 1000)\<rparr>"

definition TransactionQueue_Push ::
    "('t \<Rightarrow> string) \<Rightarrow> ('t \<Rightarrow> int) \<Rightarrow> 't \<Rightarrow> 't TransactionQueue \<Rightarrow> 't TransactionQueue" where
  "TransactionQueue_Push hash time t txq =
     (let itm = \<lparr>Data = t, Priority = time t, Index = int (PriorityQueue_Len (txq_Queue txq)) + 1\<rparr>;
          q = HeapPush (txq_Queue txq) itm;
          q' = (if PriorityQueue_Len q > 0 then sort_Sort q else q)
      in txq\<lparr>txq_Queue := q', txq_ExistsMap := ExistsMap_Put (txq_ExistsMap txq) (hash t)\<rparr>)"

definition TransactionQueue_Pop ::
    "('t \<Rightarrow> string) \<Rightarrow> 't TransactionQueue \<Rightarrow> ('t \<times> 't TransactionQueue) option" where
  "TransactionQueue_Pop hash txq =
     (case HeapPop (txq_Queue txq) of
        None \<Rightarrow> None
      | Some (itm, q) \<Rightarrow>
          Some (Data itm,
            txq\<lparr>txq_Queue := q,
                txq_ExistsMap := ExistsMap_Delete (txq_ExistsMap txq) (hash (Data itm))\<rparr>))"

definition TransactionQueue_HasAvailable :: "int \<Rightarrow> 't TransactionQueue \<Rightarrow> bool" where
  "TransactionQueue_HasAvailable now txq \<longleftrightarrow>
     (let timestamp = PriorityQueue_Peek (txq_Queue txq)
      in timestamp \<noteq> -1 \<and> wrap_s64 (now - timestamp) > txq_LockTime txq)"

definition TransactionQueue_Exists :: "'t TransactionQueue \<Rightarrow> string \<Rightarrow> bool" where
  "TransactionQueue_Exists txq key \<longleftrightarrow> ExistsMap_Exists (txq_ExistsMap txq) key"

definition TransactionQueue_Dump :: "'t TransactionQueue \<Rightarrow> 't list" where
  "TransactionQueue_Dump txq = map Data (txq_Queue txq)"

text \<open>\<open>receipt_queue.go\<close>: the priority is the creation time in nanoseconds; \<open>Pop\<close> only reads the map.\<close>

record 'r ReceiptQueue =
  rtq_Queue :: "'r PriorityQueue"
  rtq_ExistsMap :: ExistsMap
  rtq_LockTime :: int

definition NewReceiptQueue :: "int \<Rightarrow> 'r ReceiptQueue" where
  "NewReceiptQueue lockTimeInSeconds =
     \<lparr>rtq_Queue = heap_Init [], rtq_ExistsMap = NewExistsMap,
      rtq_LockTime = wrap_s64 (lockTimeInSeconds * 1000)\<rparr>"

definition ReceiptQueue_Push ::
    "('r \<Rightarrow> string) \<Rightarrow> ('r \<Rightarrow> int) \<Rightarrow> 'r \<Rightarrow> 'r ReceiptQueue \<Rightarrow> 'r ReceiptQueue" where
  "ReceiptQueue_Push hash created r rtq =
     (let itm = \<lparr>Data = r, Priority = created r, Index = int (PriorityQueue_Len (rtq_Queue rtq)) + 1\<rparr>
      in rtq\<lparr>rtq_Queue := HeapPush (rtq_Queue rtq) itm,
             rtq_ExistsMap := ExistsMap_Put (rtq_ExistsMap rtq) (hash r)\<rparr>)"

definition ReceiptQueue_Pop :: "'r ReceiptQueue \<Rightarrow> ('r \<times> 'r ReceiptQueue) option" where
  "ReceiptQueue_Pop rtq =
     (case HeapPop (rtq_Queue rtq) of
        None \<Rightarrow> None
      | Some (itm, q) \<Rightarrow> Some (Data itm, rtq\<lparr>rtq_Queue := q\<rparr>))"

definition ReceiptQueue_HasAvailable :: "int \<Rightarrow> 'r ReceiptQueue \<Rightarrow> bool" where
  "ReceiptQueue_HasAvailable now rtq \<longleftrightarrow>
     (let timestamp = PriorityQueue_Peek (rtq_Queue rtq)
      in timestamp \<noteq> -1 \<and> wrap_s64 (now - timestamp) > rtq_LockTime rtq)"

definition ReceiptQueue_Exists :: "'r ReceiptQueue \<Rightarrow> string \<Rightarrow> bool" where
  "ReceiptQueue_Exists rtq key \<longleftrightarrow> ExistsMap_Exists (rtq_ExistsMap rtq) key"

definition ReceiptQueue_Dump :: "'r ReceiptQueue \<Rightarrow> 'r list" where
  "ReceiptQueue_Dump rtq = map Data (rtq_Queue rtq)"

text \<open>
  The operations a client of the gossip queue performs: the consensus service offers a gossip when
  the queue does not know its transaction (\<open>gossipWorker\<close>) and takes the oldest one when there is
  one (\<open>doWork\<close>).
\<close>

datatype 'g queue_op = Offer 'g | Take

fun queue_run :: "('g \<Rightarrow> string) \<Rightarrow> ('g \<Rightarrow> int) \<Rightarrow> 'g queue_op list \<Rightarrow> 'g GossipQueue \<Rightarrow> 'g GossipQueue" where
  "queue_run hash time [] q = q"
| "queue_run hash time (Offer g # ops) q =
     queue_run hash time ops
       (if GossipQueue_Exists q (hash g) then q else GossipQueue_Push hash time g q)"
| "queue_run hash time (Take # ops) q =
     queue_run hash time ops
       (case GossipQueue_Pop hash q of None \<Rightarrow> q | Some (_, q') \<Rightarrow> q')"

subsection \<open>Heap order\<close>

text \<open>
  \<open>heap_from m h n\<close>: among the first \<open>n\<close> slots every parent from slot \<open>m\<close> on is at most as large as its
  children. \<open>heap_ok\<close> is the heap order of the whole slice, \<open>index_ok\<close> that every item records its slot.
\<close>

definition parent :: "nat \<Rightarrow> nat" where
  "parent k = (k - 1) div 2"

abbreviation prio :: "'a PriorityQueue \<Rightarrow> nat \<Rightarrow> int" where
  "prio h k \<equiv> Priority (h ! k)"

definition heap_from :: "nat \<Rightarrow> 'a PriorityQueue \<Rightarrow> nat \<Rightarrow> bool" where
  "heap_from m h n \<longleftrightarrow> (\<forall>k. 0 < k \<and> k < n \<and> m \<le> parent k \<longrightarrow> prio h (parent k) \<le> prio h k)"

definition heap_ok :: "'a PriorityQueue \<Rightarrow> bool" where
  "heap_ok h \<longleftrightarrow> heap_from 0 h (length h)"

definition index_ok :: "'a PriorityQueue \<Rightarrow> bool" where
  "index_ok h \<longleftrightarrow> (\<forall>k < length h. Index (h ! k) = int k)"

definition core :: "'a Item \<Rightarrow> 'a \<times> int" where
  "core x = (Data x, Priority x)"

definition cores :: "'a PriorityQueue \<Rightarrow> ('a \<times> int) multiset" where
  "cores h = mset (map core h)"

text \<open>The order with one slot excused, as it stands between two iterations of \<open>up\<close> and \<open>down\<close>.\<close>

definition up_inv :: "'a PriorityQueue \<Rightarrow> nat \<Rightarrow> bool" where
  "up_inv h j \<longleftrightarrow> j < length h \<and>
     (\<forall>k. 0 < k \<and> k < length h \<and> k \<noteq> j \<longrightarrow> prio h (parent k) \<le> prio h k) \<and>
     (\<forall>k. 0 < k \<and> k < length h \<and> parent k = j \<and> 0 < j \<longrightarrow> prio h (parent j) \<le> prio h k)"

definition down_inv :: "nat \<Rightarrow> 'a PriorityQueue \<Rightarrow> nat \<Rightarrow> nat \<Rightarrow> bool" where
  "down_inv m h i n \<longleftrightarrow> m \<le> i \<and> n \<le> length h \<and>
     (\<forall>k. 0 < k \<and> k < n \<and> m \<le> parent k \<and> parent k \<noteq> i \<longrightarrow> prio h (parent k) \<le> prio h k) \<and>
     (\<forall>k. 0 < k \<and> k < n \<and> parent k = i \<and> 0 < i \<and> m \<le> parent i \<longrightarrow> prio h (parent i) \<le> prio h k)"

lemma length_Swap [simp]: "length (PriorityQueue_Swap h i j) = length h"
  by (simp add: PriorityQueue_Swap_def)

lemma nth_Swap:
  assumes "i < length h" "j < length h" "k < length h"
  shows "PriorityQueue_Swap h i j ! k =
     (if k = j then (h ! i)\<lparr>Index := int j\<rparr> else if k = i then (h ! j)\<lparr>Index := int i\<rparr> else h ! k)"
  using assms by (simp add: PriorityQueue_Swap_def nth_update_swap)

lemma prio_Swap:
  assumes "i < length h" "j < length h" "k < length h"
  shows "prio (PriorityQueue_Swap h i j) k =
     (if k = j then prio h i else if k = i then prio h j else prio h k)"
  using assms by (simp add: nth_Swap)

lemma cores_Swap [simp]:
  assumes "i < length h" "j < length h"
  shows "cores (PriorityQueue_Swap h i j) = cores h"
  unfolding cores_def PriorityQueue_Swap_def
  by (rule mset_map_swap [OF assms]) (simp_all add: core_def)

lemma index_ok_Swap:
  assumes "index_ok h" "i < length h" "j < length h"
  shows "index_ok (PriorityQueue_Swap h i j)"
  using assms by (auto simp: index_ok_def nth_Swap)

lemma parent_lt: "0 < k \<Longrightarrow> parent k < k"
  by (simp add: parent_def)

lemma parent_le: "parent k \<le> k"
  by (simp add: parent_def)

lemma parent_eq_self: "parent j = j \<longleftrightarrow> j = 0"
  using parent_lt [of j] by (cases j) (auto simp: parent_def)

lemma parent_eq_iff: "0 < k \<Longrightarrow> parent k = i \<longleftrightarrow> k = 2 * i + 1 \<or> k = 2 * i + 2"
  by (cases k) (auto simp: parent_def)

lemma heap_up_unfold:
  "heap_up h j =
     (if parent j = j \<or> \<not> PriorityQueue_Less h j (parent j) then h
      else heap_up (PriorityQueue_Swap h (parent j) j) (parent j))"
  by (subst heap_up.simps) (simp add: Let_def parent_def)

lemma heap_up_length [simp]: "length (heap_up h j) = length h"
proof (induction h j rule: heap_up.induct)
  case (1 h j)
  then show ?case by (subst heap_up_unfold) (auto simp: parent_def)
qed

lemma heap_up_frame:
  assumes "j < length h"
  shows "cores (heap_up h j) = cores h \<and> (index_ok h \<longrightarrow> index_ok (heap_up h j))"
  using assms
proof (induction h j rule: heap_up.induct)
  case (1 h j)
  have lt: "parent j < length h" using "1.prems" parent_le [of j] by linarith
  show ?case
  proof (cases "parent j = j \<or> \<not> PriorityQueue_Less h j (parent j)")
    case True
    then show ?thesis by (subst (1 2) heap_up_unfold) simp
  next
    case False
    then have "heap_up h j = heap_up (PriorityQueue_Swap h (parent j) j) (parent j)"
      by (subst heap_up_unfold) simp
    with "1.IH" [OF parent_def False] "1.prems" lt show ?thesis by (simp add: index_ok_Swap)
  qed
qed

lemma up_inv_step:
  assumes inv: "up_inv h j" and j: "0 < j" and less: "prio h j < prio h (parent j)"
  shows "up_inv (PriorityQueue_Swap h (parent j) j) (parent j)"
proof -
  let ?i = "parent j" and ?h = "PriorityQueue_Swap h (parent j) j"
  have ij: "?i < j" "?i < length h" "j < length h"
    using inv parent_lt [OF j] by (auto simp: up_inv_def)
  have edge: "prio h (parent k) \<le> prio h k" if "0 < k" "k < length h" "k \<noteq> j" for k
    using inv that by (simp add: up_inv_def)
  have child: "prio h ?i \<le> prio h k" if "0 < k" "k < length h" "parent k = j" for k
    using inv that j by (simp add: up_inv_def)
  have P: "prio ?h k = (if k = j then prio h ?i else if k = ?i then prio h j else prio h k)"
    if "k < length h" for k
    by (rule prio_Swap [OF ij(2,3) that])
  have "prio ?h (parent k) \<le> prio ?h k" if k: "0 < k" "k < length h" "k \<noteq> ?i" for k
  proof -
    have pk: "parent k < k" "parent k < length h" using parent_lt [OF k(1)] k by linarith+
    consider "k = j" | "k \<noteq> j" "parent k = j" | "k \<noteq> j" "parent k = ?i" |
      "k \<noteq> j" "parent k \<noteq> j" "parent k \<noteq> ?i" by blast
    then show ?thesis
    proof cases
      case 1
      then show ?thesis using P less ij by simp
    next
      case 2
      then show ?thesis using P [OF k(2)] P [OF pk(2)] child [OF k(1,2)] k(3) by simp
    next
      case 3
      then show ?thesis using P [OF k(2)] P [OF pk(2)] edge [OF k(1,2)] less k(3) ij by simp
    next
      case 4
      then show ?thesis using P [OF k(2)] P [OF pk(2)] edge [OF k(1,2)] k(3) by simp
    qed
  qed
  moreover have "prio ?h (parent ?i) \<le> prio ?h k"
    if k: "0 < k" "k < length h" "parent k = ?i" and i: "0 < ?i" for k
  proof -
    have pi: "parent ?i < ?i" "parent ?i < length h"
      using parent_lt [OF i] ij by linarith+
    have up: "prio h (parent ?i) \<le> prio h ?i" using edge [of ?i] i ij by simp
    have neq: "k \<noteq> ?i" "parent ?i \<noteq> j" "parent ?i \<noteq> ?i"
      using parent_lt [OF k(1)] k(3) pi ij by linarith+
    show ?thesis
    proof (cases "k = j")
      case True
      then show ?thesis using P [OF k(2)] P [OF pi(2)] neq up by simp
    next
      case False
      then have "prio h ?i \<le> prio h k" using edge [OF k(1,2)] k(3) by simp
      then show ?thesis using P [OF k(2)] P [OF pi(2)] neq up False by simp
    qed
  qed
  ultimately show ?thesis using ij by (simp add: up_inv_def)
qed

lemma heap_up_heap:
  assumes "up_inv h j"
  shows "heap_ok (heap_up h j)"
  using assms
proof (induction h j rule: heap_up.induct)
  case (1 h j)
  show ?case
  proof (cases "parent j = j \<or> \<not> PriorityQueue_Less h j (parent j)")
    case True
    have "prio h (parent k) \<le> prio h k" if "0 < k" "k < length h" for k
    proof (cases "k = j")
      case True
      with \<open>parent j = j \<or> \<not> PriorityQueue_Less h j (parent j)\<close> that show ?thesis
        by (auto simp: PriorityQueue_Less_def)
    next
      case False
      with "1.prems" that show ?thesis by (simp add: up_inv_def)
    qed
    with True show ?thesis
      by (subst heap_up_unfold) (auto simp: heap_ok_def heap_from_def)
  next
    case False
    then have "0 < j" "prio h j < prio h (parent j)"
      by (auto simp: PriorityQueue_Less_def parent_eq_self)
    then have "up_inv (PriorityQueue_Swap h (parent j) j) (parent j)"
      using "1.prems" by (intro up_inv_step)
    then have "heap_ok (heap_up (PriorityQueue_Swap h (parent j) j) (parent j))"
      using "1.IH" [OF parent_def False] by simp
    with False show ?thesis by (subst heap_up_unfold) simp
  qed
qed

text \<open>The same for \<open>down\<close>, for the part of the heap from slot \<open>m\<close> on.\<close>

lemma heap_down_length [simp]: "length (fst (heap_down h i n)) = length h"
proof (induction h i n rule: heap_down.induct)
  case (1 h i n)
  then show ?case by (subst heap_down.simps) (auto simp: Let_def)
qed

definition down_child :: "'a PriorityQueue \<Rightarrow> nat \<Rightarrow> nat \<Rightarrow> nat" where
  "down_child h i n =
     (if 2 * i + 2 < n \<and> PriorityQueue_Less h (2 * i + 2) (2 * i + 1) then 2 * i + 2 else 2 * i + 1)"

lemma heap_down_stop:
  "2 * i + 1 \<ge> n \<or> \<not> PriorityQueue_Less h (down_child h i n) i \<Longrightarrow> heap_down h i n = (h, i)"
  by (subst heap_down.simps) (auto simp: Let_def down_child_def)

lemma heap_down_go:
  "2 * i + 1 < n \<Longrightarrow> PriorityQueue_Less h (down_child h i n) i \<Longrightarrow>
     heap_down h i n = heap_down (PriorityQueue_Swap h i (down_child h i n)) (down_child h i n) n"
  by (subst heap_down.simps) (auto simp: Let_def down_child_def)

lemma down_child_bounds:
  assumes "2 * i + 1 < n"
  shows "down_child h i n < n" "i < down_child h i n" "parent (down_child h i n) = i"
  using assms by (auto simp: down_child_def parent_def)

lemma down_child_min:
  assumes "0 < k" "k < n" "parent k = i"
  shows "prio h (down_child h i n) \<le> prio h k"
proof -
  have "k = 2 * i + 1 \<or> k = 2 * i + 2"
    using assms(1,3) parent_eq_iff by blast
  then show ?thesis
    using assms(2) by (auto simp: down_child_def PriorityQueue_Less_def)
qed

text \<open>Induction over the iterations of \<open>down\<close>.\<close>

lemma heap_down_induct [case_names stop go]:
  assumes stop: "\<And>h i n. 2 * i + 1 \<ge> n \<or> \<not> PriorityQueue_Less h (down_child h i n) i \<Longrightarrow> P h i n"
    and go: "\<And>h i n. 2 * i + 1 < n \<Longrightarrow> PriorityQueue_Less h (down_child h i n) i \<Longrightarrow>
      P (PriorityQueue_Swap h i (down_child h i n)) (down_child h i n) n \<Longrightarrow> P h i n"
  shows "P h i n"
proof (induction "n - i" arbitrary: h i rule: less_induct)
  case less
  show ?case
  proof (cases "2 * i + 1 \<ge> n \<or> \<not> PriorityQueue_Less h (down_child h i n) i")
    case True
    then show ?thesis by (rule stop)
  next
    case False
    then have "n - down_child h i n < n - i"
      using down_child_bounds [of i n h] by linarith
    then have "P (PriorityQueue_Swap h i (down_child h i n)) (down_child h i n) n"
      by (rule less)
    with False show ?thesis using go [of i n h] by simp
  qed
qed

lemma heap_down_frame:
  assumes "n \<le> length h"
  shows "cores (fst (heap_down h i n)) = cores h \<and>
    (index_ok h \<longrightarrow> index_ok (fst (heap_down h i n))) \<and>
    (\<forall>k. n \<le> k \<and> k < length h \<longrightarrow> fst (heap_down h i n) ! k = h ! k)"
  using assms
proof (induction h i n rule: heap_down_induct)
  case (stop h i n)
  then show ?case by (simp add: heap_down_stop)
next
  case (go h i n)
  have b: "down_child h i n < length h" "i < length h" "down_child h i n < n" "i < n"
    using down_child_bounds [OF go(1), of h] go(4) by linarith+
  have "PriorityQueue_Swap h i (down_child h i n) ! k = h ! k" if "n \<le> k" "k < length h" for k
    using b that by (simp add: nth_Swap)
  with go b show ?case by (simp add: heap_down_go index_ok_Swap)
qed

lemma down_inv_step:
  assumes inv: "down_inv m h i n" and n: "2 * i + 1 < n"
    and less: "prio h (down_child h i n) < prio h i"
  shows "down_inv m (PriorityQueue_Swap h i (down_child h i n)) (down_child h i n) n"
proof -
  let ?j = "down_child h i n"
  let ?h = "PriorityQueue_Swap h i ?j"
  note jb = down_child_bounds [OF n, of h]
  have len: "n \<le> length h" "m \<le> i" using inv by (simp_all add: down_inv_def)
  have ij: "i < length h" "?j < length h" using jb len by linarith+
  have P: "prio ?h k = (if k = ?j then prio h i else if k = i then prio h ?j else prio h k)"
    if "k < n" for k
    using prio_Swap [OF ij, of k] that len by simp
  have edge: "prio h (parent k) \<le> prio h k"
    if "0 < k" "k < n" "m \<le> parent k" "parent k \<noteq> i" for k
    using inv that by (simp add: down_inv_def)
  have grand: "prio h (parent i) \<le> prio h ?j" if "0 < i" "m \<le> parent i"
    using inv that jb by (simp add: down_inv_def)
  have "prio ?h (parent k) \<le> prio ?h k"
    if k: "0 < k" "k < n" "m \<le> parent k" "parent k \<noteq> ?j" for k
  proof -
    have pk: "parent k < n" "parent k < k" using parent_lt [OF k(1)] k by linarith+
    consider "k = ?j" | "k \<noteq> ?j" "parent k = i" | "k = i" | "k \<noteq> ?j" "k \<noteq> i" "parent k \<noteq> i"
      by blast
    then show ?thesis
    proof cases
      case 1
      then show ?thesis using P [OF k(2)] P [OF pk(1)] jb less by simp
    next
      case 2
      then show ?thesis using P [OF k(2)] P [OF pk(1)] jb k down_child_min [OF k(1,2) 2(2)] pk
        by simp
    next
      case 3
      then show ?thesis using P [OF k(2)] P [OF pk(1)] jb k grand pk by simp
    next
      case 4
      then show ?thesis using P [OF k(2)] P [OF pk(1)] edge k by simp
    qed
  qed
  moreover have "prio ?h (parent ?j) \<le> prio ?h k"
    if k: "0 < k" "k < n" "parent k = ?j" for k
  proof -
    have "prio h ?j \<le> prio h k" using edge [OF k(1,2)] k(3) jb len by simp
    moreover have "k \<noteq> ?j" "k \<noteq> i" using k jb parent_lt [OF k(1)] by linarith+
    ultimately show ?thesis using P [OF k(2)] P [of i] jb by simp
  qed
  ultimately show ?thesis using len jb by (simp add: down_inv_def)
qed

lemma heap_down_heap:
  assumes "down_inv m h i n"
  shows "heap_from m (fst (heap_down h i n)) n"
  using assms
proof (induction h i n rule: heap_down_induct)
  case (stop h i n)
  have "prio h (parent k) \<le> prio h k" if k: "0 < k" "k < n" "m \<le> parent k" for k
  proof (cases "parent k = i")
    case True
    then have "k = 2 * i + 1 \<or> k = 2 * i + 2"
      using k(1) parent_eq_iff by blast
    then have "2 * i + 1 < n" using k(2) by auto
    then have "prio h i \<le> prio h (down_child h i n)"
      using stop(1) by (auto simp: PriorityQueue_Less_def)
    with down_child_min [OF k(1,2) True, of h] True show ?thesis by simp
  next
    case False
    with stop(2) k show ?thesis by (simp add: down_inv_def)
  qed
  with stop(1) show ?case by (simp add: heap_down_stop heap_from_def)
next
  case (go h i n)
  then show ?case
    by (simp add: heap_down_go) (simp add: down_inv_step PriorityQueue_Less_def)
qed

subsection \<open>Push and pop of the heap\<close>

definition pq_invar :: "'a PriorityQueue \<Rightarrow> bool" where
  "pq_invar h \<longleftrightarrow> heap_ok h \<and> index_ok h"

lemma heap_root_min:
  assumes "heap_ok h" "k < length h"
  shows "prio h 0 \<le> prio h k"
  using assms(2)
proof (induction k rule: less_induct)
  case (less k)
  show ?case
  proof (cases "k = 0")
    case False
    then have "parent k < k" by (simp add: parent_lt)
    with less have "prio h 0 \<le> prio h (parent k)" by simp
    also have "\<dots> \<le> prio h k"
      using assms(1) False less.prems by (simp add: heap_ok_def heap_from_def)
    finally show ?thesis .
  qed simp
qed

lemma heap_edge: "pq_invar h \<Longrightarrow> 0 < k \<Longrightarrow> k < length h \<Longrightarrow> prio h (parent k) \<le> prio h k"
  by (simp add: pq_invar_def heap_ok_def heap_from_def)

lemma heap_Push_correct:
  assumes "pq_invar h"
  shows "pq_invar (heap_Push h x) \<and> cores (heap_Push h x) = add_mset (core x) (cores h)"
proof -
  let ?h = "PriorityQueue_Push h x"
  have len: "length ?h = Suc (length h)" by (simp add: PriorityQueue_Push_def)
  have nth: "prio ?h k = prio h k" if "k < length h" for k
    using that by (simp add: PriorityQueue_Push_def nth_append)
  have "up_inv ?h (length h)"
    unfolding up_inv_def len
  proof (intro conjI allI impI)
    fix k assume k: "0 < k \<and> k < Suc (length h) \<and> k \<noteq> length h"
    then have "parent k < length h" using parent_lt [of k] by linarith
    with k assms show "prio ?h (parent k) \<le> prio ?h k"
      by (simp add: nth pq_invar_def heap_ok_def heap_from_def)
  next
    fix k assume k: "0 < k \<and> k < Suc (length h) \<and> parent k = length h \<and> 0 < length h"
    then show "prio ?h (parent (length h)) \<le> prio ?h k" using parent_lt [of k] by linarith
  qed simp
  then have "heap_ok (heap_up ?h (length h))" by (rule heap_up_heap)
  moreover have "index_ok ?h"
    using assms by (auto simp: pq_invar_def index_ok_def PriorityQueue_Push_def nth_append less_Suc_eq)
  moreover have "cores ?h = add_mset (core x) (cores h)"
    by (simp add: cores_def PriorityQueue_Push_def core_def)
  ultimately show ?thesis
    using heap_up_frame [of "length h" ?h] len by (simp add: heap_Push_def Let_def pq_invar_def)
qed

lemma heap_Pop_empty [simp]: "heap_Pop [] = None"
  by (simp add: heap_Pop_def)

lemma cores_butlast: "h \<noteq> [] \<Longrightarrow> cores h = add_mset (core (last h)) (cores (butlast h))"
proof -
  assume "h \<noteq> []"
  then have "cores h = cores (butlast h @ [last h])" by simp
  then show ?thesis by (simp add: cores_def del: append_butlast_last_id)
qed

lemma heap_Pop_correct:
  assumes inv: "pq_invar h" and ne: "h \<noteq> []"
  obtains x h' where "heap_Pop h = Some (x, h')" "pq_invar h'"
    "cores h = add_mset (core x) (cores h')" "core x = core (h ! 0)"
proof -
  let ?n = "length h - 1"
  let ?s = "PriorityQueue_Swap h 0 ?n"
  let ?d = "fst (heap_down ?s 0 ?n)"
  have n: "?n < length h" "0 < length h" using ne by simp_all
  have P: "prio ?s k = prio h k" if "0 < k" "k < ?n" for k
    using prio_Swap [OF n(2,1), of k] that by simp
  have "down_inv 0 ?s 0 ?n"
    unfolding down_inv_def
  proof (intro conjI allI impI)
    fix k assume k: "0 < k \<and> k < ?n \<and> 0 \<le> parent k \<and> parent k \<noteq> 0"
    then have "parent k < ?n" "k < length h" using parent_lt [of k] by linarith+
    with k inv show "prio ?s (parent k) \<le> prio ?s k"
      using P [of k] P [of "parent k"] heap_edge [OF inv, of k] by simp
  qed simp_all
  then have heap: "heap_from 0 ?d ?n" by (rule heap_down_heap)
  have frame: "cores ?d = cores h" "index_ok ?d" "?d ! ?n = ?s ! ?n"
    using heap_down_frame [of ?n ?s 0] inv n by (simp_all add: index_ok_Swap pq_invar_def)
  have dne: "?d \<noteq> []" using ne by (metis heap_down_length length_Swap length_0_conv)
  have lastd: "core (last ?d) = core (h ! 0)"
    using dne frame(3) nth_Swap [OF n(2,1,1)] by (simp add: last_conv_nth core_def)
  have pop: "heap_Pop h = Some ((last ?d)\<lparr>Index := -1\<rparr>, butlast ?d)"
    using ne dne by (simp add: heap_Pop_def PriorityQueue_Pop_def Let_def)
  have B: "prio (butlast ?d) k = prio ?d k" if "k < ?n" for k
    using that by (simp add: nth_butlast)
  have "prio (butlast ?d) (parent k) \<le> prio (butlast ?d) k" if k: "0 < k" "k < ?n" for k
  proof -
    have "parent k < ?n" using parent_lt [OF k(1)] k(2) by linarith
    then show ?thesis using B [of k] B [of "parent k"] heap k by (simp add: heap_from_def)
  qed
  then have heap': "heap_ok (butlast ?d)" by (simp add: heap_ok_def heap_from_def)
  have index': "index_ok (butlast ?d)"
    using frame(2) by (simp add: index_ok_def nth_butlast)
  have cores': "cores h = add_mset (core (last ?d)) (cores (butlast ?d))"
    using cores_butlast [OF dne] frame(1) by simp
  have core': "core ((last ?d)\<lparr>Index := -1\<rparr>) = core (last ?d)" by (simp add: core_def)
  show thesis
    by (rule that [OF pop]) (simp_all only: heap' index' cores' core' lastd pq_invar_def simp_thms)
qed

lemma heap_Init_loop_correct:
  assumes "heap_from i h (length h)"
  shows "heap_ok (heap_Init_loop i h) \<and> cores (heap_Init_loop i h) = cores h \<and>
    (index_ok h \<longrightarrow> index_ok (heap_Init_loop i h))"
  using assms
proof (induction i arbitrary: h)
  case 0
  then show ?case by (simp add: heap_ok_def)
next
  case (Suc i)
  let ?d = "fst (heap_down h i (length h))"
  have "down_inv i h i (length h)"
    unfolding down_inv_def
  proof (intro conjI allI impI)
    fix k assume k: "0 < k \<and> k < length h \<and> i \<le> parent k \<and> parent k \<noteq> i"
    then have "Suc i \<le> parent k" by linarith
    with k Suc.prems show "prio h (parent k) \<le> prio h k" by (simp add: heap_from_def)
  next
    fix k assume "0 < k \<and> k < length h \<and> parent k = i \<and> 0 < i \<and> i \<le> parent i"
    then show "prio h (parent i) \<le> prio h k" using parent_lt [of i] by linarith
  qed simp_all
  then have "heap_from i ?d (length ?d)" using heap_down_heap by force
  from Suc.IH [OF this] show ?case using heap_down_frame [of "length h" h i] by simp
qed

lemma heap_Init_correct:
  "heap_ok (heap_Init h)" "cores (heap_Init h) = cores h" "index_ok h \<Longrightarrow> index_ok (heap_Init h)"
proof -
  have "heap_from (length h div 2) h (length h)"
    by (auto simp: heap_from_def parent_def)
  from heap_Init_loop_correct [OF this]
  show "heap_ok (heap_Init h)" "cores (heap_Init h) = cores h" "index_ok h \<Longrightarrow> index_ok (heap_Init h)"
    by (simp_all add: heap_Init_def)
qed

subsection \<open>The contract of a priority queue\<close>

text \<open>
  \<open>drain\<close> pops up to \<open>n\<close> times: the order in which a client that only pops sees the elements.
\<close>

primrec drain :: "('q \<Rightarrow> ('e \<times> 'q) option) \<Rightarrow> nat \<Rightarrow> 'q \<Rightarrow> 'e list" where
  "drain pop 0 q = []"
| "drain pop (Suc n) q = (case pop q of None \<Rightarrow> [] | Some (x, q') \<Rightarrow> x # drain pop n q')"

locale min_queue =
  fixes push :: "'e \<Rightarrow> 'q \<Rightarrow> 'q"
    and pop :: "'q \<Rightarrow> ('e \<times> 'q) option"
    and invar :: "'q \<Rightarrow> bool"
    and elems :: "'q \<Rightarrow> 'e multiset"
    and rank :: "'e \<Rightarrow> int"
  assumes invar_push: "invar q \<Longrightarrow> invar (push x q)"
    and elems_push: "invar q \<Longrightarrow> elems (push x q) = add_mset x (elems q)"
    and pop_empty: "invar q \<Longrightarrow> elems q = {#} \<Longrightarrow> pop q = None"
    and pop_nonempty: "invar q \<Longrightarrow> elems q \<noteq> {#} \<Longrightarrow> \<exists>x q'. pop q = Some (x, q')"
    and pop_invar: "invar q \<Longrightarrow> pop q = Some (x, q') \<Longrightarrow> invar q'"
    and pop_elems: "invar q \<Longrightarrow> pop q = Some (x, q') \<Longrightarrow> elems q = add_mset x (elems q')"
    and pop_min: "invar q \<Longrightarrow> pop q = Some (x, q') \<Longrightarrow> y \<in># elems q \<Longrightarrow> rank x \<le> rank y"
begin

lemma drain_subset:
  assumes "invar q"
  shows "set (drain pop n q) \<subseteq> set_mset (elems q)"
  using assms
proof (induction n arbitrary: q)
  case (Suc n)
  show ?case
  proof (cases "pop q")
    case (Some p)
    then obtain x q' where p: "pop q = Some (x, q')" by (cases p) simp
    with Suc.IH [OF pop_invar [OF Suc.prems p]] pop_elems [OF Suc.prems p] show ?thesis by auto
  qed simp
qed simp

lemma drain_sorted:
  assumes "invar q"
  shows "sorted (map rank (drain pop n q))"
  using assms
proof (induction n arbitrary: q)
  case (Suc n)
  show ?case
  proof (cases "pop q")
    case (Some p)
    then obtain x q' where p: "pop q = Some (x, q')" by (cases p) simp
    note inv' = pop_invar [OF Suc.prems p]
    have "rank x \<le> rank y" if "y \<in> set (drain pop n q')" for y
      using that drain_subset [OF inv', of n] pop_elems [OF Suc.prems p]
      by (intro pop_min [OF Suc.prems p]) auto
    with Suc.IH [OF inv'] p show ?thesis by simp
  qed simp
qed simp

lemma drain_all:
  assumes "invar q" "size (elems q) \<le> n"
  shows "mset (drain pop n q) = elems q"
  using assms
proof (induction n arbitrary: q)
  case 0
  then show ?case by simp
next
  case (Suc n)
  show ?case
  proof (cases "elems q = {#}")
    case True
    then show ?thesis using pop_empty [OF Suc.prems(1)] by simp
  next
    case False
    then obtain x q' where p: "pop q = Some (x, q')" using pop_nonempty Suc.prems(1) by blast
    have "size (elems q') \<le> n" using pop_elems [OF Suc.prems(1) p] Suc.prems(2) by simp
    with Suc.IH [OF pop_invar [OF Suc.prems(1) p]] pop_elems [OF Suc.prems(1) p] p
    show ?thesis by simp
  qed
qed

end

text \<open>The heap keeps the contract: elements are items without their slot, ranked by priority.\<close>

definition pq_push :: "'a \<times> int \<Rightarrow> 'a PriorityQueue \<Rightarrow> 'a PriorityQueue" where
  "pq_push e h = heap_Push h \<lparr>Data = fst e, Priority = snd e, Index = int (length h) + 1\<rparr>"

definition pq_pop :: "'a PriorityQueue \<Rightarrow> (('a \<times> int) \<times> 'a PriorityQueue) option" where
  "pq_pop h = map_option (\<lambda>(x, h'). (core x, h')) (heap_Pop h)"

lemma cores_empty_iff [simp]: "cores h = {#} \<longleftrightarrow> h = []"
  by (simp add: cores_def)

lemma heap_Pop_Some:
  assumes "pq_invar h" "heap_Pop h = Some (x, h')"
  shows "pq_invar h'" "cores h = add_mset (core x) (cores h')"
    "y \<in># cores h \<Longrightarrow> Priority x \<le> snd y"
proof -
  have "h \<noteq> []" using assms(2) by auto
  from heap_Pop_correct [OF assms(1) this] obtain x0 h0
    where "heap_Pop h = Some (x0, h0)" "pq_invar h0"
      "cores h = add_mset (core x0) (cores h0)" "core x0 = core (h ! 0)" .
  with assms(2) have *: "pq_invar h'" "cores h = add_mset (core x) (cores h')"
    "core x = core (h ! 0)" by simp_all
  show "pq_invar h'" "cores h = add_mset (core x) (cores h')" by fact+
  assume "y \<in># cores h"
  then obtain k where k: "k < length h" "y = core (h ! k)"
    by (auto simp: cores_def in_set_conv_nth)
  have "prio h 0 \<le> prio h k"
    using assms(1) k(1) by (intro heap_root_min) (simp_all add: pq_invar_def)
  with k(2) *(3) show "Priority x \<le> snd y" by (simp add: core_def)
qed

interpretation heap_pq: min_queue pq_push pq_pop pq_invar cores snd
proof (standard, goal_cases)
  case (1 q x)
  then show ?case by (simp add: pq_push_def heap_Push_correct)
next
  case (2 q x)
  then show ?case by (simp add: pq_push_def heap_Push_correct core_def)
next
  case (3 q)
  then show ?case by (simp add: pq_pop_def)
next
  case (4 q)
  then have "q \<noteq> []" by simp
  from heap_Pop_correct [OF 4(1) this] obtain x h' where "heap_Pop q = Some (x, h')" by blast
  then show ?case by (simp add: pq_pop_def)
next
  case (5 q x q')
  then show ?case by (auto simp: pq_pop_def dest: heap_Pop_Some)
next
  case (6 q x q')
  then show ?case by (auto simp: pq_pop_def dest: heap_Pop_Some)
next
  case (7 q x q' y)
  then obtain it where it: "heap_Pop q = Some (it, q')" "x = core it" by (auto simp: pq_pop_def)
  from heap_Pop_Some(3) [OF 7(1) it(1) 7(3)] it(2) show ?case by (simp add: core_def)
qed

subsection \<open>The contract of a queue with its set of keys\<close>

text \<open>\<open>offer\<close> is how the consensus service uses such a queue: it asks \<open>Exists\<close> before it pushes.\<close>

definition offer :: "('q \<Rightarrow> string \<Rightarrow> bool) \<Rightarrow> ('e \<Rightarrow> 'q \<Rightarrow> 'q) \<Rightarrow> ('e \<Rightarrow> string) \<Rightarrow> 'e \<Rightarrow> 'q \<Rightarrow> 'q" where
  "offer exists push key e q = (if exists q (key e) then q else push e q)"

locale keyed_queue =
  fixes push :: "'e \<Rightarrow> 'q \<Rightarrow> 'q"
    and pop :: "'q \<Rightarrow> ('e \<times> 'q) option"
    and exists :: "'q \<Rightarrow> string \<Rightarrow> bool"
    and key :: "'e \<Rightarrow> string"
    and elems :: "'q \<Rightarrow> 'e multiset"
    and kinvar :: "'q \<Rightarrow> bool"
  assumes kinvar_push: "kinvar q \<Longrightarrow> \<not> exists q (key e) \<Longrightarrow> kinvar (push e q)"
    and elems_push: "kinvar q \<Longrightarrow> elems (push e q) = add_mset e (elems q)"
    and pop_Some: "kinvar q \<Longrightarrow> pop q = Some (e, q') \<Longrightarrow> kinvar q' \<and> elems q = add_mset e (elems q')"
    and exists_iff: "kinvar q \<Longrightarrow> exists q k \<longleftrightarrow> k \<in> key ` set_mset (elems q)"
    and keys_once: "kinvar q \<Longrightarrow> count (image_mset key (elems q)) k \<le> 1"
begin

lemma kinvar_offer: "kinvar q \<Longrightarrow> kinvar (offer exists push key e q)"
  by (simp add: offer_def kinvar_push)

lemma offer_exists: "kinvar q \<Longrightarrow> exists (offer exists push key e q) (key e)"
  by (simp add: offer_def kinvar_push exists_iff elems_push)

lemma pop_not_exists:
  assumes "kinvar q" "pop q = Some (e, q')"
  shows "\<not> exists q' (key e)"
proof
  assume "exists q' (key e)"
  then have "key e \<in># image_mset key (elems q')"
    using exists_iff pop_Some [OF assms] by auto
  then have "2 \<le> count (image_mset key (elems q)) (key e)"
    using pop_Some [OF assms] by (simp add: Suc_le_eq)
  with keys_once [OF assms(1), of "key e"] show False by linarith
qed

lemma pop_exists_other:
  assumes "kinvar q" "pop q = Some (e, q')" "k \<noteq> key e"
  shows "exists q' k \<longleftrightarrow> exists q k"
  using pop_Some [OF assms(1,2)] assms(1,3) by (auto simp: exists_iff)

end

lemma index_ok_reindex: "index_ok (reindex pq)"
  by (simp add: index_ok_def reindex_def nth_enumerate_eq)

lemma cores_reindex: "cores (reindex pq) = cores pq"
proof -
  have "map core (reindex pq) = map core pq"
    by (rule nth_equalityI) (simp_all add: reindex_def nth_enumerate_eq core_def)
  then show ?thesis by (simp add: cores_def)
qed

lemma map_Priority_reindex: "map Priority (reindex pq) = map Priority pq"
  by (rule nth_equalityI) (simp_all add: reindex_def nth_enumerate_eq)

lemma heap_ok_sorted: "sorted (map Priority h) \<Longrightarrow> heap_ok h"
  using parent_le by (auto simp: heap_ok_def heap_from_def sorted_iff_nth_mono)

lemma sort_Sort_correct: "pq_invar (sort_Sort pq)" "cores (sort_Sort pq) = cores pq"
proof -
  have "sorted (map Priority (sort_Sort pq))" by (simp add: sort_Sort_def map_Priority_reindex)
  then show "pq_invar (sort_Sort pq)"
    by (simp add: pq_invar_def heap_ok_sorted sort_Sort_def index_ok_reindex)
  show "cores (sort_Sort pq) = cores pq"
    by (simp add: sort_Sort_def cores_reindex) (simp add: cores_def)
qed

text \<open>The elements of a queue and its coherence with the set of keys.\<close>

definition pq_data :: "'a PriorityQueue \<Rightarrow> 'a multiset" where
  "pq_data h = image_mset fst (cores h)"

definition keys_ok :: "('a \<Rightarrow> string) \<Rightarrow> 'a PriorityQueue \<Rightarrow> ExistsMap \<Rightarrow> bool" where
  "keys_ok hash q em \<longleftrightarrow> pq_invar q \<and>
     (\<forall>k. ExistsMap_Exists em k \<longleftrightarrow> k \<in> hash ` set_mset (pq_data q)) \<and>
     (\<forall>k. count (image_mset hash (pq_data q)) k \<le> 1)"

lemma Exists_Put [simp]: "ExistsMap_Exists (ExistsMap_Put em k) k' \<longleftrightarrow> k = k' \<or> ExistsMap_Exists em k'"
  by (auto simp: ExistsMap_Exists_def ExistsMap_Put_def)

lemma Exists_Delete [simp]:
  "ExistsMap_Exists (ExistsMap_Delete em k) k' \<longleftrightarrow> k \<noteq> k' \<and> ExistsMap_Exists em k'"
  by (auto simp: ExistsMap_Exists_def ExistsMap_Delete_def)

lemma Exists_New [simp]: "\<not> ExistsMap_Exists NewExistsMap k"
  by (simp add: ExistsMap_Exists_def NewExistsMap_def)

lemma keys_ok_add:
  assumes "keys_ok hash q em" "\<not> ExistsMap_Exists em (hash g)"
    and "pq_invar q'" "pq_data q' = add_mset g (pq_data q)"
  shows "keys_ok hash q' (ExistsMap_Put em (hash g))"
proof -
  have "hash g \<notin># image_mset hash (pq_data q)"
    using assms(1,2) by (auto simp: keys_ok_def)
  then have "count (image_mset hash (pq_data q)) (hash g) = 0" by (simp only: count_eq_zero_iff not_False_eq_True)
  with assms show ?thesis by (auto simp: keys_ok_def)
qed

lemma keys_ok_remove:
  assumes "keys_ok hash q em" "pq_invar q'" "pq_data q = add_mset g (pq_data q')"
  shows "keys_ok hash q' (ExistsMap_Delete em (hash g))"
proof -
  have once: "count (image_mset hash (pq_data q)) k \<le> 1" for k
    using assms(1) by (simp add: keys_ok_def)
  have "count (image_mset hash (pq_data q')) (hash g) = 0"
    using once [of "hash g"] assms(3) by simp
  then have "hash g \<notin> hash ` set_mset (pq_data q')"
    by (simp only: count_eq_zero_iff set_image_mset not_False_eq_True)
  moreover have "count (image_mset hash (pq_data q')) k \<le> 1" for k
    using once [of k] assms(3) by (simp split: if_splits)
  ultimately show ?thesis using assms by (auto simp: keys_ok_def)
qed

lemma HeapPush_data:
  assumes "pq_invar q"
  shows "pq_invar (HeapPush q itm)" "pq_data (HeapPush q itm) = add_mset (Data itm) (pq_data q)"
  using heap_Push_correct [OF assms, of itm] by (simp_all add: HeapPush_def pq_data_def core_def)

lemma HeapPop_data:
  assumes "pq_invar q" "HeapPop q = Some (itm, q')"
  shows "pq_invar q'" "pq_data q = add_mset (Data itm) (pq_data q')"
  using heap_Pop_Some(1,2) [of q itm q'] assms by (simp_all add: HeapPop_def pq_data_def core_def)

lemma pq_data_sort_Sort: "pq_data (sort_Sort q) = pq_data q"
  by (simp add: pq_data_def sort_Sort_correct)

definition gq_invar :: "('g \<Rightarrow> string) \<Rightarrow> 'g GossipQueue \<Rightarrow> bool" where
  "gq_invar hash gq \<longleftrightarrow> keys_ok hash (gq_Queue gq) (gq_ExistsMap gq)"

definition gq_elems :: "'g GossipQueue \<Rightarrow> 'g multiset" where
  "gq_elems gq = pq_data (gq_Queue gq)"

definition txq_invar :: "('t \<Rightarrow> string) \<Rightarrow> 't TransactionQueue \<Rightarrow> bool" where
  "txq_invar hash txq \<longleftrightarrow> keys_ok hash (txq_Queue txq) (txq_ExistsMap txq)"

definition txq_elems :: "'t TransactionQueue \<Rightarrow> 't multiset" where
  "txq_elems txq = pq_data (txq_Queue txq)"

lemma keys_okD: "keys_ok hash q em \<Longrightarrow> pq_invar q"
  by (simp add: keys_ok_def)

lemma HeapPop_keys:
  assumes "keys_ok hash q em" "HeapPop q = Some (itm, q')"
  shows "keys_ok hash q' (ExistsMap_Delete em (hash (Data itm)))"
    "pq_data q = add_mset (Data itm) (pq_data q')"
  using HeapPop_data [OF keys_okD [OF assms(1)] assms(2)] keys_ok_remove [OF assms(1)] by simp_all

interpretation gq: keyed_queue "GossipQueue_Push hash time" "GossipQueue_Pop hash"
  GossipQueue_Exists hash gq_elems "gq_invar hash" for hash :: "'g \<Rightarrow> string" and time :: "'g \<Rightarrow> int"
proof (standard, goal_cases)
  case (1 q e)
  then show ?case
    by (auto simp: gq_invar_def GossipQueue_Push_def GossipQueue_Exists_def HeapPush_data Let_def
        dest: keys_okD intro!: keys_ok_add)
next
  case (2 q e)
  then show ?case
    by (auto simp: gq_invar_def gq_elems_def GossipQueue_Push_def HeapPush_data Let_def dest!: keys_okD)
next
  case (3 q e q')
  then show ?case
    by (auto simp: gq_invar_def gq_elems_def GossipQueue_Pop_def HeapPop_keys split: option.splits)
next
  case (4 q k)
  then show ?case by (simp add: gq_invar_def keys_ok_def GossipQueue_Exists_def gq_elems_def)
next
  case (5 q k)
  then show ?case by (simp add: gq_invar_def keys_ok_def gq_elems_def)
qed

interpretation txq: keyed_queue "TransactionQueue_Push hash time" "TransactionQueue_Pop hash"
  TransactionQueue_Exists hash txq_elems "txq_invar hash"
  for hash :: "'t \<Rightarrow> string" and time :: "'t \<Rightarrow> int"
proof (standard, goal_cases)
  case (1 q e)
  then show ?case
    by (auto simp: txq_invar_def TransactionQueue_Push_def TransactionQueue_Exists_def HeapPush_data
        sort_Sort_correct pq_data_sort_Sort Let_def dest: keys_okD intro!: keys_ok_add)
next
  case (2 q e)
  then show ?case
    by (auto simp: txq_invar_def txq_elems_def TransactionQueue_Push_def HeapPush_data
        pq_data_sort_Sort Let_def dest!: keys_okD)
next
  case (3 q e q')
  then show ?case
    by (auto simp: txq_invar_def txq_elems_def TransactionQueue_Pop_def HeapPop_keys split: option.splits)
next
  case (4 q k)
  then show ?case by (simp add: txq_invar_def keys_ok_def TransactionQueue_Exists_def txq_elems_def)
next
  case (5 q k)
  then show ?case by (simp add: txq_invar_def keys_ok_def txq_elems_def)
qed

lemma gq_invar_New: "gq_invar hash NewGossipQueue"
  by (simp add: gq_invar_def keys_ok_def NewGossipQueue_def pq_invar_def heap_Init_def pq_data_def
      heap_ok_def heap_from_def index_ok_def cores_def)

lemma HasAvailable_iff:
  assumes "\<forall>x \<in> set (gq_Queue gq). 0 \<le> Priority x"
  shows "GossipQueue_HasAvailable gq \<longleftrightarrow> gq_Queue gq \<noteq> []"
proof (cases "gq_Queue gq = []")
  case False
  then have "gq_Queue gq ! (length (gq_Queue gq) - 1) \<in> set (gq_Queue gq)" by simp
  with assms False show ?thesis
    by (fastforce simp: GossipQueue_HasAvailable_def PriorityQueue_Peek_def)
qed (simp add: GossipQueue_HasAvailable_def PriorityQueue_Peek_def)

text \<open>The gossip queue as a priority queue ranked by transaction time.\<close>

definition gq_timed :: "('g \<Rightarrow> int) \<Rightarrow> 'g GossipQueue \<Rightarrow> bool" where
  "gq_timed time gq \<longleftrightarrow> pq_invar (gq_Queue gq) \<and> (\<forall>x \<in># cores (gq_Queue gq). snd x = time (fst x))"

lemma gq_timed_New: "gq_timed time NewGossipQueue"
  by (simp add: gq_timed_def NewGossipQueue_def pq_invar_def heap_Init_def heap_ok_def heap_from_def
      index_ok_def cores_def)

lemma gq_elems_New: "gq_elems NewGossipQueue = {#}"
  by (simp add: gq_elems_def NewGossipQueue_def heap_Init_def pq_data_def cores_def)

lemma GossipQueue_Pop_Some:
  assumes "gq_timed time gq" "GossipQueue_Pop hash gq = Some (g, gq')"
  shows "gq_timed time gq'" "gq_elems gq = add_mset g (gq_elems gq')"
    "g' \<in># gq_elems gq \<Longrightarrow> time g \<le> time g'"
proof -
  from assms(2) obtain itm q where pop: "heap_Pop (gq_Queue gq) = Some (itm, q)"
    and g: "g = Data itm" and q: "gq_Queue gq' = q"
    by (auto simp: GossipQueue_Pop_def HeapPop_def split: option.splits)
  have inv: "pq_invar (gq_Queue gq)" using assms(1) by (simp add: gq_timed_def)
  note P = heap_Pop_Some [OF inv pop]
  have t: "snd x = time (fst x)" if "x \<in># cores (gq_Queue gq)" for x
    using assms(1) that by (simp add: gq_timed_def)
  show "gq_timed time gq'" using P(1,2) t q by (simp add: gq_timed_def)
  show "gq_elems gq = add_mset g (gq_elems gq')"
    using P(2) q g by (simp add: gq_elems_def pq_data_def core_def)
  assume "g' \<in># gq_elems gq"
  then obtain x where x: "x \<in># cores (gq_Queue gq)" "g' = fst x"
    by (auto simp: gq_elems_def pq_data_def)
  from P(3) [OF x(1)] t [OF x(1)] t [of "core itm"] P(2) x(2) g
  show "time g \<le> time g'" by (simp add: core_def)
qed

interpretation gq_min: min_queue "GossipQueue_Push hash time" "GossipQueue_Pop hash"
  "gq_timed time" gq_elems time for hash :: "'g \<Rightarrow> string" and time :: "'g \<Rightarrow> int"
proof (standard, goal_cases)
  case (1 q x)
  then show ?case
    by (simp add: gq_timed_def GossipQueue_Push_def HeapPush_def heap_Push_correct core_def Let_def)
next
  case (2 q x)
  then show ?case
    by (simp add: gq_timed_def gq_elems_def GossipQueue_Push_def HeapPush_data Let_def)
next
  case (3 q)
  then show ?case by (simp add: gq_elems_def pq_data_def GossipQueue_Pop_def HeapPop_def)
next
  case (4 q)
  then have "pq_invar (gq_Queue q)" "gq_Queue q \<noteq> []"
    by (auto simp: gq_timed_def gq_elems_def pq_data_def)
  from heap_Pop_correct [OF this] obtain x h' where "heap_Pop (gq_Queue q) = Some (x, h')" .
  then show ?case by (simp add: GossipQueue_Pop_def HeapPop_def)
next
  case (5 q x q')
  then show ?case by (rule GossipQueue_Pop_Some(1))
next
  case (6 q x q')
  then show ?case by (rule GossipQueue_Pop_Some(2))
next
  case (7 q x q' y)
  then show ?case by (rule GossipQueue_Pop_Some(3))
qed

lemma pushes_timed:
  "gq_timed time q \<Longrightarrow> gq_timed time (foldr (GossipQueue_Push hash time) gs q) \<and>
     gq_elems (foldr (GossipQueue_Push hash time) gs q) = mset gs + gq_elems q"
  by (induction gs) (simp_all add: gq_min.invar_push gq_min.elems_push)

lemma queue_run_invar: "gq_invar hash q \<Longrightarrow> gq_invar hash (queue_run hash time ops q)"
proof (induction hash time ops q rule: queue_run.induct)
  case (2 hash time g ops q)
  then show ?case using gq.kinvar_push [of hash q g] by auto
next
  case (3 hash time ops q)
  then show ?case using gq.pop_Some [OF "3.prems"] by (auto split: option.splits)
qed simp

lemma gq_elems_Dump: "gq_elems gq = mset (GossipQueue_Dump gq)"
  by (simp add: gq_elems_def pq_data_def cores_def GossipQueue_Dump_def core_def
      image_mset.compositionality comp_def)

subsection \<open>Properties\<close>

text \<open>
  C18. Gossips come out of the queue in the order of their transactions' time, whatever the order
  they were pushed in, each exactly as often as it was pushed.
\<close>

theorem gossip_queue_time_order:
  "let out = drain (GossipQueue_Pop hash) (length gs)
               (foldr (GossipQueue_Push hash time) gs NewGossipQueue)
   in sorted (map time out) \<and> mset out = mset gs"
proof -
  let ?q = "foldr (GossipQueue_Push hash time) gs NewGossipQueue"
  have q: "gq_timed time ?q" "gq_elems ?q = mset gs"
    using pushes_timed [OF gq_timed_New, of time hash gs] by (simp_all add: gq_elems_New)
  then show ?thesis
    using gq_min.drain_sorted [OF q(1)] gq_min.drain_all [OF q(1)] by (simp add: Let_def)
qed

text \<open>
  C19. In every state the consensus service can bring the queue to, \<open>Exists\<close> answers exactly whether a
  gossip for that transaction is queued, and no transaction is queued twice.
\<close>

theorem gossip_queue_exists_exact:
  "let q = queue_run hash time ops NewGossipQueue
   in (GossipQueue_Exists q k \<longleftrightarrow> k \<in> hash ` set (GossipQueue_Dump q)) \<and>
      distinct (map hash (GossipQueue_Dump q))"
proof -
  let ?q = "queue_run hash time ops NewGossipQueue"
  have inv: "gq_invar hash ?q" by (simp add: queue_run_invar gq_invar_New)
  have "count (mset (map hash (GossipQueue_Dump ?q))) x \<le> 1" for x
    using gq.keys_once [OF inv, of x] by (simp add: gq_elems_Dump)
  then have "distinct (map hash (GossipQueue_Dump ?q))"
    by (auto simp: distinct_count_atmost_1 count_eq_zero_iff le_Suc_eq)
  then show ?thesis using gq.exists_iff [OF inv] by (simp add: gq_elems_Dump Let_def)
qed

text \<open>
  \<open>ReceiptQueue.Pop\<close> takes a receipt out of the heap and leaves its hash in the set of keys: the
  queue is empty and \<open>Exists\<close> still answers that the receipt is queued.
\<close>

theorem receipt_queue_pop_keeps_key:
  "\<exists>q'. ReceiptQueue_Pop (ReceiptQueue_Push hash created r (NewReceiptQueue n)) = Some (r, q') \<and>
     ReceiptQueue_Dump q' = [] \<and> ReceiptQueue_Exists q' (hash r)"
  by (simp add: ReceiptQueue_Pop_def ReceiptQueue_Push_def NewReceiptQueue_def HeapPop_def HeapPush_def
      heap_Pop_def heap_Push_def heap_Init_def PriorityQueue_Push_def PriorityQueue_Pop_def
      PriorityQueue_Swap_def heap_up.simps [of _ 0] heap_down_stop ReceiptQueue_Dump_def
      ReceiptQueue_Exists_def Let_def)

end
