(* ===== verification/Big_Math.thy ===== *)
theory Big_Math
  imports Prelude
begin

section \<open>Integer and byte arithmetic of the virtual machine (dvm/ethereum/common)\<close>

text \<open>
  Go's \<open>big.Int\<close> is an unbounded integer, modelled as \<open>int\<close>; \<open>uint64\<close> values are integers kept in
  \<open>0 .. 2^64 - 1\<close>. A \<open>[]byte\<close> is a list of \<open>byte\<close>s.

  \<^item> \<open>big_*\<close>: the methods of \<open>math/big\<close> the code uses (\<open>BitLen\<close>, \<open>Uint64\<close>, \<open>Int64\<close>, \<open>Bits\<close>, \<open>Bytes\<close>,
    \<open>SetBytes\<close>, \<open>Bit\<close>). A machine word has 64 bits.
  \<^item> \<open>common/math/big.go\<close> and \<open>common/math/integer.go\<close>: two's complement of 256 bits (\<open>U256\<close>, \<open>S256\<close>),
    \<open>Exp\<close> by squaring, the byte readers \<open>Byte\<close>, \<open>ReadBits\<close>, \<open>PaddedBigBytes\<close>, and the overflow-checked
    \<open>SafeAdd\<close>, \<open>SafeSub\<close>, \<open>SafeMul\<close>.
  \<^item> \<open>common/bytes.go\<close>, \<open>common/types.go\<close> and \<open>commons/crypto/common.go\<close>: padding, addresses and hashes.
\<close>

subsection \<open>math/big\<close>

fun nat_bitlen :: "nat \<Rightarrow> nat" where
  "nat_bitlen n = (if n = 0 then 0 else Suc (nat_bitlen (n div 2)))"

declare nat_bitlen.simps [simp del]

definition big_BitLen :: "int \<Rightarrow> nat" where
  "big_BitLen x = nat_bitlen (nat \<bar>x\<bar>)"

definition big_Uint64 :: "int \<Rightarrow> int" where
  "big_Uint64 x = \<bar>x\<bar> mod 2 ^ 64"

definition big_Int64 :: "int \<Rightarrow> int" where
  "big_Int64 x = (let v = wrap_s64 \<bar>x\<bar> in if x < 0 then wrap_s64 (- v) else v)"

text \<open>The digits of \<open>n\<close> to base \<open>b\<close>, least significant first; none for 0.\<close>

function digits :: "nat \<Rightarrow> nat \<Rightarrow> nat list" where
  "digits b n = (if b \<le> 1 \<or> n = 0 then [] else n mod b # digits b (n div b))"
  by pat_completeness auto
termination
  by (relation "measure snd") auto

declare digits.simps [simp del]

definition big_Bits :: "int \<Rightarrow> nat list" where
  "big_Bits x = digits (2 ^ 64) (nat \<bar>x\<bar>)"

definition byte_of :: "nat \<Rightarrow> byte" where
  "byte_of n = word_of_nat n"

definition big_Bytes :: "int \<Rightarrow> byte list" where
  "big_Bytes x = rev (map byte_of (digits 256 (nat \<bar>x\<bar>)))"

primrec be_nat :: "nat \<Rightarrow> byte list \<Rightarrow> nat" where
  "be_nat acc [] = acc"
| "be_nat acc (b # bs) = be_nat (acc * 256 + unat b) bs"

definition big_SetBytes :: "byte list \<Rightarrow> int" where
  "big_SetBytes bs = int (be_nat 0 bs)"

subsection \<open>common/math/big.go\<close>

definition tt255 :: int where "tt255 = 2 ^ 255"
definition tt256 :: int where "tt256 = 2 ^ 256"
definition tt256m1 :: int where "tt256m1 = tt256 - 1"

definition BigPow :: "int \<Rightarrow> int \<Rightarrow> int" where
  "BigPow a b = (if b \<le> 0 then 1 else a ^ nat b)"

definition BigMax :: "int \<Rightarrow> int \<Rightarrow> int" where
  "BigMax x y = (if x < y then y else x)"

definition BigMin :: "int \<Rightarrow> int \<Rightarrow> int" where
  "BigMin x y = (if x > y then y else x)"

text \<open>The loop of \<open>FirstBitSet\<close>: \<open>i\<close> counts up to \<open>BitLen\<close>; the fuel is the number of bits left.\<close>

primrec FirstBitSet_loop :: "nat \<Rightarrow> int \<Rightarrow> nat \<Rightarrow> nat" where
  "FirstBitSet_loop 0 v i = i"
| "FirstBitSet_loop (Suc n) v i = (if bit v i then i else FirstBitSet_loop n v (Suc i))"

definition FirstBitSet :: "int \<Rightarrow> nat" where
  "FirstBitSet v = FirstBitSet_loop (big_BitLen v) v 0"

definition wordBytes :: nat where "wordBytes = 8"
definition wordBits :: nat where "wordBits = 64"

definition bigEndianByteAt :: "int \<Rightarrow> nat \<Rightarrow> byte" where
  "bigEndianByteAt v n =
     (let words = big_Bits v; i = n div wordBytes
      in if i \<ge> length words then 0
         else byte_of (words ! i div 2 ^ (8 * (n mod wordBytes))))"

definition Byte :: "int \<Rightarrow> nat \<Rightarrow> nat \<Rightarrow> byte" where
  "Byte v padlength n = (if n \<ge> padlength then 0 else bigEndianByteAt v (padlength - 1 - n))"

text \<open>
  \<open>ReadBits\<close> fills the buffer from its end, word by word and byte by byte; \<open>i\<close> is the number of slots
  still free, \<open>j\<close> the number of bytes of the word already written.
\<close>

function ReadBits_word :: "nat \<Rightarrow> nat \<Rightarrow> byte list \<Rightarrow> nat \<Rightarrow> byte list \<times> nat" where
  "ReadBits_word j d buf i =
     (if j < wordBytes \<and> i > 0
      then ReadBits_word (Suc j) (d div 256) (buf[i - 1 := byte_of d]) (i - 1)
      else (buf, i))"
  by pat_completeness auto
termination
  by (relation "measure (\<lambda>(j, d, buf, i). i)") auto

declare ReadBits_word.simps [simp del]

primrec ReadBits_loop :: "nat list \<Rightarrow> byte list \<Rightarrow> nat \<Rightarrow> byte list" where
  "ReadBits_loop [] buf i = buf"
| "ReadBits_loop (d # ds) buf i =
     (let (buf', i') = ReadBits_word 0 d buf i in ReadBits_loop ds buf' i')"

definition ReadBits :: "int \<Rightarrow> byte list \<Rightarrow> byte list" where
  "ReadBits v buf = ReadBits_loop (big_Bits v) buf (length buf)"

definition PaddedBigBytes :: "int \<Rightarrow> nat \<Rightarrow> byte list" where
  "PaddedBigBytes v n =
     (if big_BitLen v div 8 \<ge> n then big_Bytes v else ReadBits v (replicate n 0))"

definition U256 :: "int \<Rightarrow> int" where
  "U256 x = and x tt256m1"

definition S256 :: "int \<Rightarrow> int" where
  "S256 x = (if x < tt255 then x else x - tt256)"

text \<open>\<open>Exp\<close>: for each word of the exponent, 64 squarings.\<close>

primrec Exp_word :: "nat \<Rightarrow> nat \<Rightarrow> int \<times> int \<Rightarrow> int \<times> int" where
  "Exp_word 0 word rb = rb"
| "Exp_word (Suc i) word rb =
     (let (result, base) = rb;
          result' = (if word mod 2 = 1 then U256 (result * base) else result);
          base' = U256 (base * base)
      in Exp_word i (word div 2) (result', base'))"

primrec Exp_loop :: "nat list \<Rightarrow> int \<times> int \<Rightarrow> int \<times> int" where
  "Exp_loop [] rb = rb"
| "Exp_loop (word # ws) rb = Exp_loop ws (Exp_word wordBits word rb)"

definition Exp :: "int \<Rightarrow> int \<Rightarrow> int" where
  "Exp base exponent = fst (Exp_loop (big_Bits exponent) (1, base))"

subsection \<open>common/math/integer.go\<close>

definition MaxUint64 :: int where "MaxUint64 = 2 ^ 64 - 1"

definition SafeSub :: "int \<Rightarrow> int \<Rightarrow> int \<times> bool" where
  "SafeSub x y = (wrap_u64 (x - y), x < y)"

definition SafeAdd :: "int \<Rightarrow> int \<Rightarrow> int \<times> bool" where
  "SafeAdd x y = (wrap_u64 (x + y), y > wrap_u64 (MaxUint64 - x))"

definition SafeMul :: "int \<Rightarrow> int \<Rightarrow> int \<times> bool" where
  "SafeMul x y = (if x = 0 \<or> y = 0 then (0, False) else (wrap_u64 (x * y), y > MaxUint64 div x))"

subsection \<open>common/bytes.go, common/types.go, commons/crypto/common.go\<close>

type_synonym AddressBytes = "byte list"
type_synonym HashBytes = "byte list"

definition AddressLength :: nat where "AddressLength = 20"
definition HashLength :: nat where "HashLength = 32"

definition RightPadBytes :: "byte list \<Rightarrow> nat \<Rightarrow> byte list" where
  "RightPadBytes bs l = (if l \<le> length bs then bs else bs @ replicate (l - length bs) 0)"

definition LeftPadBytes :: "byte list \<Rightarrow> nat \<Rightarrow> byte list" where
  "LeftPadBytes bs l = (if l \<le> length bs then bs else replicate (l - length bs) 0 @ bs)"

text \<open>A fixed-size array filled from the right with the last bytes of the slice.\<close>

definition fill_right :: "nat \<Rightarrow> byte list \<Rightarrow> byte list" where
  "fill_right n bs =
     (let bs' = (if length bs > n then drop (length bs - n) bs else bs)
      in replicate (n - length bs') 0 @ bs')"

definition BytesToAddress :: "byte list \<Rightarrow> AddressBytes" where
  "BytesToAddress bs = fill_right AddressLength bs"

definition BigToAddress :: "int \<Rightarrow> AddressBytes" where
  "BigToAddress b = BytesToAddress (big_Bytes b)"

definition BytesToHash :: "byte list \<Rightarrow> HashBytes" where
  "BytesToHash bs = fill_right HashLength bs"

lemma BytesToHash_id: "length h = HashLength \<Longrightarrow> BytesToHash h = h"
  by (simp add: BytesToHash_def fill_right_def)

definition BigToHash :: "int \<Rightarrow> HashBytes" where
  "BigToHash b = BytesToHash (big_Bytes b)"

definition HashBytes_Big :: "HashBytes \<Rightarrow> int" where
  "HashBytes_Big h = big_SetBytes h"

definition AddressBytes_Big :: "AddressBytes \<Rightarrow> int" where
  "AddressBytes_Big a = big_SetBytes a"

definition EmptyHash :: "HashBytes \<Rightarrow> bool" where
  "EmptyHash h \<longleftrightarrow> h = replicate HashLength 0"

subsection \<open>Bit lengths and digits\<close>

lemma nat_bitlen_le_iff: "nat_bitlen n \<le> k \<longleftrightarrow> n < 2 ^ k"
proof (induction k arbitrary: n)
  case 0
  then show ?case by (subst nat_bitlen.simps) simp
next
  case (Suc k)
  have "n div 2 < 2 ^ k \<longleftrightarrow> n < 2 ^ Suc k" by auto
  with Suc [of "n div 2"] show ?case by (subst nat_bitlen.simps) auto
qed

lemma nat_bitlen_gt_iff: "k < nat_bitlen n \<longleftrightarrow> 2 ^ k \<le> n"
  using nat_bitlen_le_iff [of n k] by linarith

lemma big_BitLen_le_iff: "big_BitLen x \<le> k \<longleftrightarrow> \<bar>x\<bar> < 2 ^ k"
  by (simp add: big_BitLen_def nat_bitlen_le_iff nat_less_iff)

lemma big_BitLen_gt_iff: "k < big_BitLen x \<longleftrightarrow> 2 ^ k \<le> \<bar>x\<bar>"
  using big_BitLen_le_iff [of x k] by linarith

lemma big_BitLen_pos_iff: "0 < big_BitLen x \<longleftrightarrow> x \<noteq> 0"
  using big_BitLen_gt_iff [of 0 x] by auto

lemma digits_0 [simp]: "digits b 0 = []"
  by (subst digits.simps) simp

primrec undigits :: "nat \<Rightarrow> nat list \<Rightarrow> nat" where
  "undigits b [] = 0"
| "undigits b (d # ds) = d + b * undigits b ds"

lemma undigits_digits: "1 < b \<Longrightarrow> undigits b (digits b n) = n"
proof (induction b n rule: digits.induct)
  case (1 b n)
  then show ?case by (subst digits.simps) auto
qed

lemma digits_lt: "1 < b \<Longrightarrow> d \<in> set (digits b n) \<Longrightarrow> d < b"
proof (induction b n rule: digits.induct)
  case (1 b n)
  have "d \<in> set (if b \<le> 1 \<or> n = 0 then [] else n mod b # digits b (n div b))"
    using "1.prems"(2) by (subst (asm) digits.simps)
  with 1 show ?case by (auto split: if_splits)
qed

lemma undigits_lt: "(\<And>d. d \<in> set ds \<Longrightarrow> d < b) \<Longrightarrow> undigits b ds < b ^ length ds"
proof (induction ds)
  case (Cons d ds)
  have IH: "undigits b ds < b ^ length ds" using Cons by simp
  have "d + b * undigits b ds < b + b * undigits b ds" using Cons.prems [of d] by simp
  also have "\<dots> = b * Suc (undigits b ds)" by simp
  also have "\<dots> \<le> b * b ^ length ds" using IH by (intro mult_le_mono2) simp
  finally show ?case by simp
qed simp

lemma digits_nth:
  "1 < b \<Longrightarrow> i < length (digits b n) \<Longrightarrow> digits b n ! i = n div b ^ i mod b"
proof (induction b n arbitrary: i rule: digits.induct)
  case (1 b n)
  show ?case
  proof (cases "n = 0")
    case True
    then show ?thesis using "1.prems" by simp
  next
    case False
    then have eq: "digits b n = n mod b # digits b (n div b)"
      using "1.prems"(1) by (subst digits.simps) simp
    show ?thesis
    proof (cases i)
      case (Suc j)
      then have "digits b (n div b) ! j = n div b div b ^ j mod b"
        using 1 False eq by simp
      then show ?thesis using Suc eq by (simp add: div_mult2_eq)
    qed (simp add: eq)
  qed
qed

lemma digits_length_div:
  assumes "1 < b" "length (digits b n) \<le> i"
  shows "n div b ^ i = 0"
proof -
  have "n = undigits b (digits b n)" using assms(1) by (simp add: undigits_digits)
  also have "\<dots> < b ^ length (digits b n)" using assms(1) by (intro undigits_lt) (rule digits_lt)
  also have "\<dots> \<le> b ^ i" using assms by (intro power_increasing) simp_all
  finally show ?thesis by simp
qed

subsection \<open>Two's complement of 256 bits\<close>

text \<open>The values an EVM word can hold.\<close>

definition is_word :: "int \<Rightarrow> bool" where
  "is_word x \<longleftrightarrow> 0 \<le> x \<and> x < 2 ^ 256"

lemma U256_mod: "U256 x = x mod 2 ^ 256"
proof -
  have m: "tt256m1 = mask 256" by (simp add: tt256m1_def tt256_def mask_eq_exp_minus_1)
  have "U256 x = take_bit 256 x" by (simp only: U256_def m take_bit_eq_mask)
  then show ?thesis by (simp only: take_bit_eq_mod)
qed

lemma is_word_U256 [simp]: "is_word (U256 x)"
  by (simp add: is_word_def U256_mod)

lemma U256_id [simp]: "is_word x \<Longrightarrow> U256 x = x"
  by (simp add: is_word_def U256_mod)

lemma S256_U256:
  assumes "is_word x"
  shows "U256 (S256 x) = x"
proof (cases "x < tt255")
  case True
  with assms show ?thesis by (simp add: S256_def)
next
  case False
  then have "U256 (S256 x) = (x - 2 ^ 256) mod 2 ^ 256"
    by (simp add: S256_def U256_mod tt256_def)
  also have "\<dots> = x mod 2 ^ 256" by (simp add: mod_simps)
  finally show ?thesis using assms by (simp add: is_word_def)
qed

lemma S256_range:
  assumes "is_word x"
  shows "- (2 ^ 255) \<le> S256 x" "S256 x < 2 ^ 255"
  using assms by (auto simp: S256_def is_word_def tt255_def tt256_def)

subsection \<open>Exponentiation\<close>

lemma U256_cong: "U256 x mod 2 ^ 256 = x mod 2 ^ 256"
  by (simp add: U256_mod)

lemma power_mod_cong: "a mod m = b mod m \<Longrightarrow> a ^ n mod m = b ^ n mod (m :: int)"
  by (metis power_mod)

lemma Exp_word_correct:
  assumes "Exp_word i word (r, b) = (r', b')"
  shows "r' mod 2 ^ 256 = r * b ^ (word mod 2 ^ i) mod 2 ^ 256 \<and>
    b' mod 2 ^ 256 = b ^ (2 ^ i) mod 2 ^ 256"
  using assms
proof (induction i arbitrary: word r b)
  case (Suc i)
  define r1 where "r1 = (if word mod 2 = 1 then U256 (r * b) else r)"
  define b1 where "b1 = U256 (b * b)"
  have b1: "b1 ^ n mod 2 ^ 256 = (b ^ 2) ^ n mod 2 ^ 256" for n
    by (rule power_mod_cong) (simp only: b1_def U256_cong power2_eq_square)
  have r1: "r1 mod 2 ^ 256 = r * b ^ (word mod 2) mod 2 ^ 256"
    by (auto simp: r1_def U256_mod)
  have "Exp_word i (word div 2) (r1, b1) = (r', b')"
    using Suc.prems by (simp only: r1_def b1_def Exp_word.simps Let_def prod.case)
  from Suc.IH [OF this]
  have r': "r' mod 2 ^ 256 = r1 * b1 ^ (word div 2 mod 2 ^ i) mod 2 ^ 256"
    and b': "b' mod 2 ^ 256 = b1 ^ (2 ^ i) mod 2 ^ 256" by blast+
  have e: "word mod 2 ^ Suc i = word mod 2 + 2 * (word div 2 mod 2 ^ i)"
    by (simp add: mod_mult2_eq)
  note r'
  also have "r1 * b1 ^ (word div 2 mod 2 ^ i) mod 2 ^ 256 =
      (r * b ^ (word mod 2)) * (b ^ 2) ^ (word div 2 mod 2 ^ i) mod 2 ^ 256"
    by (rule mod_mult_cong [OF r1 b1])
  also have "\<dots> = r * b ^ (word mod 2 ^ Suc i) mod 2 ^ 256"
    by (simp only: e power_add power_mult mult.assoc)
  finally have 1: "r' mod 2 ^ 256 = r * b ^ (word mod 2 ^ Suc i) mod 2 ^ 256" .
  note b'
  also have "b1 ^ (2 ^ i) mod 2 ^ 256 = b ^ (2 ^ Suc i) mod 2 ^ 256"
    unfolding b1 by (simp only: power_Suc flip: power_mult)
  finally show ?case using 1 by blast
qed simp

lemma Exp_loop_correct:
  assumes "\<And>w. w \<in> set ws \<Longrightarrow> w < 2 ^ 64"
  shows "fst (Exp_loop ws (r, b)) mod 2 ^ 256 = r * b ^ undigits (2 ^ 64) ws mod 2 ^ 256"
  using assms
proof (induction ws arbitrary: r b)
  case (Cons w ws)
  obtain r' b' where rb: "Exp_word 64 w (r, b) = (r', b')" by fastforce
  have w: "w mod 2 ^ 64 = w" using Cons.prems [of w] by simp
  note E = Exp_word_correct [OF rb, unfolded w, THEN conjunct1]
    Exp_word_correct [OF rb, THEN conjunct2]
  have "fst (Exp_loop ws (r', b')) mod 2 ^ 256 = r' * b' ^ undigits (2 ^ 64) ws mod 2 ^ 256"
    using Cons by simp
  also have "\<dots> = (r * b ^ w) * (b ^ (2 ^ 64)) ^ undigits (2 ^ 64) ws mod 2 ^ 256"
    by (rule mod_mult_cong [OF E(1) power_mod_cong [OF E(2)]])
  also have "\<dots> = r * b ^ (w + 2 ^ 64 * undigits (2 ^ 64) ws) mod 2 ^ 256"
    by (simp only: power_add power_mult mult.assoc)
  finally show ?case by (simp add: rb wordBits_def)
qed simp

lemma Exp_word_range: "0 \<le> r \<Longrightarrow> r < 2 ^ 256 \<Longrightarrow> is_word (fst (Exp_word i w (r, b)))"
proof (induction i arbitrary: w r b)
  case (Suc i)
  then show ?case using is_word_U256 [of "r * b"] by (simp add: Let_def is_word_def)
qed (simp add: is_word_def)

lemma Exp_loop_range: "is_word r \<Longrightarrow> is_word (fst (Exp_loop ws (r, b)))"
proof (induction ws arbitrary: r b)
  case (Cons w ws)
  obtain r' b' where rb: "Exp_word wordBits w (r, b) = (r', b')" by fastforce
  with Cons.prems have "is_word r'" using Exp_word_range [of r wordBits w b] by (simp add: is_word_def)
  with Cons.IH show ?case by (simp add: rb)
qed simp

lemma Exp_mod:
  assumes "0 \<le> exponent"
  shows "Exp base exponent = base ^ nat exponent mod 2 ^ 256"
proof -
  have "Exp base exponent = Exp base exponent mod 2 ^ 256"
    using Exp_loop_range [of 1] by (simp add: Exp_def is_word_def)
  also have "\<dots> = 1 * base ^ undigits (2 ^ 64) (big_Bits exponent) mod 2 ^ 256"
    unfolding Exp_def by (rule Exp_loop_correct) (simp add: big_Bits_def digits_lt)
  also have "undigits (2 ^ 64) (big_Bits exponent) = nat exponent"
    using assms by (simp add: big_Bits_def undigits_digits)
  finally show ?thesis by simp
qed

subsection \<open>Reading bytes\<close>

lemma byte_of_cong: "m mod 256 = n mod 256 \<Longrightarrow> byte_of m = byte_of n"
  by (simp add: byte_of_def word_of_nat_eq_iff take_bit_eq_mod)

lemma unat_byte_of: "unat (byte_of n) = n mod 256"
  by (simp add: byte_of_def unat_of_nat)

lemma ReadBits_word_correct:
  assumes "i \<le> length buf" "j \<le> 8"
  shows "length (fst (ReadBits_word j d buf i)) = length buf \<and>
    snd (ReadBits_word j d buf i) = i - (8 - j) \<and>
    (\<forall>k < length buf. fst (ReadBits_word j d buf i) ! k =
       (if i - (8 - j) \<le> k \<and> k < i then byte_of (d div 256 ^ (i - 1 - k)) else buf ! k))"
  using assms
proof (induction j d buf i rule: ReadBits_word.induct)
  case (1 j d buf i)
  show ?case
  proof (cases "j < 8 \<and> i > 0")
    case True
    let ?r = "ReadBits_word (Suc j) (d div 256) (buf[i - 1 := byte_of d]) (i - 1)"
    have eq: "ReadBits_word j d buf i = ?r"
      using True by (subst ReadBits_word.simps) (simp add: wordBytes_def)
    have IH: "length (fst ?r) = length buf \<and> snd ?r = i - 1 - (8 - Suc j) \<and>
      (\<forall>k < length buf. fst ?r ! k =
        (if i - 1 - (8 - Suc j) \<le> k \<and> k < i - 1
         then byte_of (d div 256 div 256 ^ (i - 1 - 1 - k)) else buf[i - 1 := byte_of d] ! k))"
      using "1.IH" True "1.prems" by (simp add: wordBytes_def)
    have "d div 256 div 256 ^ (i - 1 - 1 - k) = d div 256 ^ (i - 1 - k)" if "k < i - 1" for k
    proof -
      have "i - 1 - k = Suc (i - 1 - 1 - k)" using that by linarith
      then show ?thesis by (simp add: div_mult2_eq)
    qed
    with IH True "1.prems" show ?thesis unfolding eq by (auto simp: nth_list_update)
  next
    case False
    then have "ReadBits_word j d buf i = (buf, i)"
      by (subst ReadBits_word.simps) (auto simp: wordBytes_def)
    with False "1.prems" show ?thesis by auto
  qed
qed

lemma ReadBits_loop_correct:
  assumes "i \<le> length buf" "\<And>d. d \<in> set ds \<Longrightarrow> d < 2 ^ 64"
  shows "length (ReadBits_loop ds buf i) = length buf \<and>
    (\<forall>k < length buf. ReadBits_loop ds buf i ! k =
       (if k < i \<and> i - 1 - k < 8 * length ds
        then byte_of (undigits (2 ^ 64) ds div 256 ^ (i - 1 - k)) else buf ! k))"
  using assms
proof (induction ds arbitrary: buf i)
  case (Cons d ds)
  obtain buf' i' where w: "ReadBits_word 0 d buf i = (buf', i')" by fastforce
  have W: "length buf' = length buf" "i' = i - 8"
    "\<And>k. k < length buf \<Longrightarrow> buf' ! k =
       (if i - 8 \<le> k \<and> k < i then byte_of (d div 256 ^ (i - 1 - k)) else buf ! k)"
    using ReadBits_word_correct [OF Cons.prems(1), of 0 d] w by simp_all
  let ?R = "undigits (2 ^ 64) ds"
  have low: "byte_of (d div 256 ^ t) = byte_of ((d + 2 ^ 64 * ?R) div 256 ^ t)" if "t < 8" for t
  proof (rule byte_of_cong)
    have P: "2 ^ 64 = (256 :: nat) * 256 ^ t * 256 ^ (7 - t)"
    proof -
      have "(256 :: nat) * 256 ^ t * 256 ^ (7 - t) = 256 ^ (1 + t + (7 - t))"
        by (simp only: power_add power_one_right)
      also have "1 + t + (7 - t) = 8" using that by simp
      finally show ?thesis by simp
    qed
    have "d + 2 ^ 64 * ?R = (256 * (256 ^ (7 - t) * ?R)) * 256 ^ t + d"
      by (simp only: P mult.assoc mult.left_commute mult.commute add.commute)
    then have "(d + 2 ^ 64 * ?R) div 256 ^ t = 256 * (256 ^ (7 - t) * ?R) + d div 256 ^ t"
      by (simp only: div_mult_self3 power_not_zero zero_neq_numeral not_False_eq_True)
    then show "d div 256 ^ t mod 256 = (d + 2 ^ 64 * ?R) div 256 ^ t mod 256"
      by (simp only: mod_mult_self4)
  qed
  have high: "(d + 2 ^ 64 * ?R) div 256 ^ t = ?R div 256 ^ (t - 8)" if "8 \<le> t" for t
  proof -
    have "(256 :: nat) ^ t = 2 ^ 64 * 256 ^ (t - 8)"
      using that power_add [of "256 :: nat" 8 "t - 8"] by simp
    then have "(d + 2 ^ 64 * ?R) div 256 ^ t = (d + 2 ^ 64 * ?R) div 2 ^ 64 div 256 ^ (t - 8)"
      by (simp only: div_mult2_eq)
    also have "(d + 2 ^ 64 * ?R) div 2 ^ 64 = ?R" using Cons.prems(2) [of d] by simp
    finally show ?thesis .
  qed
  have IH: "length (ReadBits_loop ds buf' i') = length buf"
    "\<And>k. k < length buf \<Longrightarrow> ReadBits_loop ds buf' i' ! k =
       (if k < i' \<and> i' - 1 - k < 8 * length ds then byte_of (?R div 256 ^ (i' - 1 - k)) else buf' ! k)"
    using Cons.IH [of i' buf'] Cons.prems W by simp_all
  have "ReadBits_loop ds buf' i' ! k =
      (if k < i \<and> i - 1 - k < 8 * Suc (length ds)
       then byte_of ((d + 2 ^ 64 * ?R) div 256 ^ (i - 1 - k)) else buf ! k)"
    if k: "k < length buf" for k
  proof (cases "k < i - 8")
    case True
    then have "i - 8 - 1 - k = i - 1 - k - 8" "8 \<le> i - 1 - k" by linarith+
    with True IH(2) [OF k] W(2) W(3) [OF k] high [of "i - 1 - k"] show ?thesis by auto
  next
    case False
    with IH(2) [OF k] W(2) W(3) [OF k] low [of "i - 1 - k"] show ?thesis by auto
  qed
  with IH(1) w show ?case by simp
qed simp

text \<open>The big-endian bytes of a natural number in a buffer of \<open>n\<close> bytes.\<close>

definition be_bytes :: "nat \<Rightarrow> nat \<Rightarrow> byte list" where
  "be_bytes n v = map (\<lambda>k. byte_of (v div 256 ^ (n - 1 - k))) [0..<n]"

lemma length_be_bytes [simp]: "length (be_bytes n v) = n"
  by (simp add: be_bytes_def)

lemma ReadBits_zero: "ReadBits v (replicate n 0) = be_bytes n (nat \<bar>v\<bar>)"
proof (rule nth_equalityI)
  let ?ds = "big_Bits v"
  have ds: "d < 2 ^ 64" if "d \<in> set ?ds" for d
    using that by (simp add: big_Bits_def digits_lt)
  have u: "undigits (2 ^ 64) ?ds = nat \<bar>v\<bar>" by (simp add: big_Bits_def undigits_digits)
  note R = ReadBits_loop_correct [of n "replicate n 0" ?ds, OF _ ds, unfolded u]
  show "length (ReadBits v (replicate n 0)) = length (be_bytes n (nat \<bar>v\<bar>))"
    using R by (simp add: ReadBits_def)
  fix k assume "k < length (ReadBits v (replicate n 0))"
  then have k: "k < n" using R by (simp add: ReadBits_def)
  have "byte_of (nat \<bar>v\<bar> div 256 ^ t) = 0" if "8 * length ?ds \<le> t" for t
  proof -
    have "(256 :: nat) ^ t = (2 ^ 64) ^ length ?ds * 256 ^ (t - 8 * length ?ds)"
      using that power_add [of "256 :: nat" "8 * length ?ds" "t - 8 * length ?ds"]
      by (simp add: power_mult)
    then have "nat \<bar>v\<bar> div 256 ^ t = 0"
      using digits_length_div [of "2 ^ 64" "nat \<bar>v\<bar>" "length ?ds"]
      by (simp add: div_mult2_eq big_Bits_def)
    then show ?thesis by (simp add: byte_of_def)
  qed
  with R k show "ReadBits v (replicate n 0) ! k = be_bytes n (nat \<bar>v\<bar>) ! k"
    by (auto simp: ReadBits_def be_bytes_def)
qed

lemma be_nat_acc: "be_nat acc bs = acc * 256 ^ length bs + be_nat 0 bs"
proof (induction bs arbitrary: acc)
  case (Cons b bs)
  show ?case using Cons [of "acc * 256 + unat b"] Cons [of "unat b"] by (simp add: algebra_simps)
qed simp

lemma be_nat_append: "be_nat acc (xs @ ys) = be_nat (be_nat acc xs) ys"
  by (induction xs arbitrary: acc) simp_all

lemma be_nat_lt: "be_nat 0 bs < 256 ^ length bs"
proof (induction bs)
  case (Cons b bs)
  have "be_nat 0 (b # bs) = unat b * 256 ^ length bs + be_nat 0 bs"
    using be_nat_acc [of "unat b" bs] by simp
  also have "\<dots> < unat b * 256 ^ length bs + 256 ^ length bs" using Cons by simp
  also have "\<dots> = Suc (unat b) * 256 ^ length bs" by simp
  also have "\<dots> \<le> 256 * 256 ^ length bs"
    using unat_byte_lt [of b] by (intro mult_le_mono1) simp
  finally show ?case by simp
qed simp

lemma be_bytes_Suc: "be_bytes (Suc n) v = byte_of (v div 256 ^ n) # be_bytes n v"
proof -
  have "[0..<Suc n] = 0 # map Suc [0..<n]" by (simp add: upt_conv_Cons map_Suc_upt)
  then show ?thesis by (simp add: be_bytes_def comp_def)
qed

lemma be_nat_be_bytes: "be_nat 0 (be_bytes n v) = v mod 256 ^ n"
proof (induction n)
  case (Suc n)
  have "be_nat 0 (be_bytes (Suc n) v) = (v div 256 ^ n mod 256) * 256 ^ n + v mod 256 ^ n"
    using be_nat_acc [of "v div 256 ^ n mod 256" "be_bytes n v"] Suc
    by (simp add: be_bytes_Suc unat_byte_of)
  also have "\<dots> = v mod (256 ^ n * 256)" by (subst mod_mult2_eq) (simp only: mult.commute)
  finally show ?case by (simp only: power_Suc mult.commute)
qed (simp add: be_bytes_def)

lemma be_bytes_mod: "be_bytes n (v mod 256 ^ n) = be_bytes n v"
proof (rule nth_equalityI)
  fix k assume "k < length (be_bytes n (v mod 256 ^ n))"
  then have k: "k < n" by simp
  let ?t = "n - 1 - k"
  have n: "256 ^ n = 256 ^ ?t * (256 * 256 ^ k :: nat)"
  proof -
    have "n = ?t + Suc k" using k by simp
    then have "(256 :: nat) ^ n = 256 ^ (?t + Suc k)" by (rule arg_cong)
    then show ?thesis by (simp only: power_add power_Suc)
  qed
  have "v mod 256 ^ n div 256 ^ ?t = v div 256 ^ ?t mod (256 * 256 ^ k)"
    unfolding n by (rule mod_div_exp) simp
  then have "v mod 256 ^ n div 256 ^ ?t mod 256 = v div 256 ^ ?t mod 256"
    by (simp only: mod_mod_cancel dvd_triv_left)
  then have "byte_of (v mod 256 ^ n div 256 ^ ?t) = byte_of (v div 256 ^ ?t)" by (rule byte_of_cong)
  with k show "be_bytes n (v mod 256 ^ n) ! k = be_bytes n v ! k" by (simp add: be_bytes_def)
qed simp

lemma byte_of_unat [simp]: "byte_of (unat b) = b"
  by (simp add: byte_of_def)

lemma be_bytes_be_nat: "be_bytes (length bs) (be_nat 0 bs) = bs"
proof (induction bs)
  case (Cons b bs)
  have v: "be_nat 0 (b # bs) = unat b * 256 ^ length bs + be_nat 0 bs"
    using be_nat_acc [of "unat b" bs] by simp
  have "be_nat 0 (b # bs) div 256 ^ length bs = unat b"
    unfolding v using be_nat_lt [of bs] by simp
  moreover have "be_nat 0 (b # bs) mod 256 ^ length bs = be_nat 0 bs"
    unfolding v using be_nat_lt [of bs] by simp
  then have "be_bytes (length bs) (be_nat 0 (b # bs)) = bs"
    using Cons be_bytes_mod [of "length bs" "be_nat 0 (b # bs)"] by simp
  ultimately show ?case by (simp add: be_bytes_Suc del: be_nat.simps)
qed (simp add: be_bytes_def)

lemma big_Bytes_be: "big_Bytes x = be_bytes (length (big_Bytes x)) (nat \<bar>x\<bar>)"
proof (rule nth_equalityI)
  fix k assume k: "k < length (big_Bytes x)"
  let ?ds = "digits 256 (nat \<bar>x\<bar>)"
  have "big_Bytes x ! k = byte_of (?ds ! (length ?ds - 1 - k))"
    using k by (simp add: big_Bytes_def rev_nth)
  also have "\<dots> = byte_of (nat \<bar>x\<bar> div 256 ^ (length ?ds - 1 - k))"
    using k by (intro byte_of_cong) (simp add: digits_nth big_Bytes_def)
  finally show "big_Bytes x ! k = be_bytes (length (big_Bytes x)) (nat \<bar>x\<bar>) ! k"
    using k by (simp add: be_bytes_def big_Bytes_def)
qed simp

lemma big_Bytes_bound: "nat \<bar>x\<bar> < 256 ^ length (big_Bytes x)"
  using digits_length_div [of 256 "nat \<bar>x\<bar>" "length (digits 256 (nat \<bar>x\<bar>))"]
  by (simp add: big_Bytes_def div_eq_0_iff)

lemma big_SetBytes_Bytes: "big_SetBytes (big_Bytes x) = \<bar>x\<bar>"
  using be_nat_be_bytes [of "length (big_Bytes x)" "nat \<bar>x\<bar>"] big_Bytes_bound [of x]
  by (simp add: big_SetBytes_def flip: big_Bytes_be)

lemma be_nat_replicate_0: "be_nat 0 (replicate n 0 @ bs) = be_nat 0 bs"
  by (induction n) simp_all

lemma be_nat_drop:
  assumes "n \<le> length bs"
  shows "be_nat 0 (drop (length bs - n) bs) = be_nat 0 bs mod 256 ^ n"
proof -
  let ?d = "drop (length bs - n) bs"
  have len: "length ?d = n" using assms by simp
  have lt: "be_nat 0 ?d < 256 ^ n" using be_nat_lt [of ?d] unfolding len .
  have "be_nat 0 bs = be_nat (be_nat 0 (take (length bs - n) bs)) ?d"
    using be_nat_append [of 0 "take (length bs - n) bs" ?d] by (simp only: append_take_drop_id)
  also have "\<dots> = be_nat 0 (take (length bs - n) bs) * 256 ^ n + be_nat 0 ?d"
    by (subst be_nat_acc) (simp only: len)
  finally show ?thesis using lt by (simp only: mod_mult_self3 mod_less)
qed

lemma length_fill_right [simp]: "length (fill_right n bs) = n"
  by (simp add: fill_right_def Let_def)

lemma be_nat_fill_right: "be_nat 0 (fill_right n bs) = be_nat 0 bs mod 256 ^ n"
proof (cases "length bs > n")
  case True
  then show ?thesis using be_nat_drop [of n bs] by (simp add: fill_right_def)
next
  case False
  have "be_nat 0 bs < 256 ^ length bs" by (rule be_nat_lt)
  also have "\<dots> \<le> 256 ^ n" using False by (intro power_increasing) simp_all
  finally have "be_nat 0 bs < 256 ^ n" .
  with False show ?thesis by (simp add: fill_right_def be_nat_replicate_0)
qed

lemma fill_right_big_Bytes: "fill_right n (big_Bytes x) = be_bytes n (nat \<bar>x\<bar>)"
proof -
  let ?f = "fill_right n (big_Bytes x)"
  have "int (be_nat 0 (big_Bytes x)) = \<bar>x\<bar>" using big_SetBytes_Bytes by (simp add: big_SetBytes_def)
  then have x: "be_nat 0 (big_Bytes x) = nat \<bar>x\<bar>" by simp
  have "?f = be_bytes n (be_nat 0 ?f)" using be_bytes_be_nat [of ?f] by simp
  also have "\<dots> = be_bytes n (nat \<bar>x\<bar>)" by (simp add: be_nat_fill_right be_bytes_mod x)
  finally show ?thesis .
qed

lemma pow_256: "(256 :: nat) ^ 32 = 2 ^ 256" "(256 :: nat) ^ 20 = 2 ^ 160"
  by simp_all

lemma BigToHash_be: "BigToHash x = be_bytes 32 (nat \<bar>x\<bar>)"
  by (simp add: BigToHash_def BytesToHash_def HashLength_def fill_right_big_Bytes)

lemma BigToAddress_be: "BigToAddress x = be_bytes 20 (nat \<bar>x\<bar>)"
  by (simp add: BigToAddress_def BytesToAddress_def AddressLength_def fill_right_big_Bytes)

lemma HashBytes_Big_BigToHash:
  assumes "is_word x"
  shows "HashBytes_Big (BigToHash x) = x"
  using assms by (simp add: HashBytes_Big_def big_SetBytes_def BigToHash_be be_nat_be_bytes is_word_def
      nat_less_iff)

lemma BigToHash_HashBytes_Big: "length h = 32 \<Longrightarrow> BigToHash (HashBytes_Big h) = h"
  using be_bytes_be_nat [of h] by (simp add: HashBytes_Big_def big_SetBytes_def BigToHash_be)

lemma AddressBytes_Big_BigToAddress:
  "0 \<le> x \<Longrightarrow> AddressBytes_Big (BigToAddress x) = x mod 2 ^ 160"
  by (simp add: AddressBytes_Big_def big_SetBytes_def BigToAddress_be be_nat_be_bytes zmod_int)

lemma BigToAddress_AddressBytes_Big: "length a = 20 \<Longrightarrow> BigToAddress (AddressBytes_Big a) = a"
  using be_bytes_be_nat [of a] by (simp add: AddressBytes_Big_def big_SetBytes_def BigToAddress_be)

lemma is_word_SetBytes: "length bs \<le> 32 \<Longrightarrow> is_word (big_SetBytes bs)"
proof -
  assume "length bs \<le> 32"
  then have "256 ^ length bs \<le> (256 :: nat) ^ 32" by (intro power_increasing) simp_all
  with be_nat_lt [of bs] have "be_nat 0 bs < 256 ^ 32" by (rule order_less_le_trans)
  then show ?thesis by (simp add: is_word_def big_SetBytes_def)
qed

lemma bigEndianByteAt_eq: "bigEndianByteAt v n = byte_of (nat \<bar>v\<bar> div 256 ^ n)"
proof -
  let ?ds = "big_Bits v" and ?i = "n div 8" and ?j = "n mod 8"
  have n: "(256 :: nat) ^ n = (2 ^ 64) ^ ?i * 2 ^ (8 * ?j)"
  proof -
    have "(256 :: nat) ^ n = 256 ^ (8 * ?i + ?j)" by simp
    also have "\<dots> = (256 ^ 8) ^ ?i * 256 ^ ?j" by (simp only: power_add power_mult)
    also have "(256 :: nat) ^ 8 = 2 ^ 64" by simp
    also have "(256 :: nat) ^ ?j = 2 ^ (8 * ?j)" by (simp add: power_mult)
    finally show ?thesis .
  qed
  show ?thesis
  proof (cases "?i \<ge> length ?ds")
    case True
    then have "nat \<bar>v\<bar> div (2 ^ 64) ^ ?i = 0"
      by (intro digits_length_div) (simp_all add: big_Bits_def)
    with n have "nat \<bar>v\<bar> div 256 ^ n = 0" by (simp only: div_mult2_eq div_0)
    with True show ?thesis by (simp add: bigEndianByteAt_def wordBytes_def byte_of_def)
  next
    case False
    let ?x = "nat \<bar>v\<bar> div (2 ^ 64) ^ ?i"
    have w: "?ds ! ?i = ?x mod 2 ^ 64"
      using False digits_nth [of "2 ^ 64" ?i "nat \<bar>v\<bar>"] by (simp add: big_Bits_def)
    have "8 * ?j + 8 \<le> 64" using mod_less_divisor [of 8 n] by linarith
    then have "?x mod 2 ^ 64 div 2 ^ (8 * ?j) mod 2 ^ 8 = ?x div 2 ^ (8 * ?j) mod 2 ^ 8"
      by (rule div_exp_mod)
    then have "?ds ! ?i div 2 ^ (8 * ?j) mod 256 = nat \<bar>v\<bar> div 256 ^ n mod 256"
      unfolding n w by (simp add: div_mult2_eq)
    then have "byte_of (?ds ! ?i div 2 ^ (8 * ?j)) = byte_of (nat \<bar>v\<bar> div 256 ^ n)"
      by (rule byte_of_cong)
    with False show ?thesis by (simp add: bigEndianByteAt_def wordBytes_def Let_def)
  qed
qed

end
