(* ===== verification/Go_Codec.thy ===== *)
theory Go_Codec
  imports Big_Math
begin

section \<open>Encodings the node uses: hex, decimal, binary, JSON, signatures\<close>

text \<open>
  Go strings are byte sequences, modelled as \<open>string\<close> (a \<open>char\<close> has 8 bits).

  \<^item> \<open>encoding/hex\<close>, \<open>fmt\<close>'s \<open>%d\<close> and \<open>encoding/binary\<close> for the values the code writes.
  \<^item> JSON documents. A JSON text is represented by the document it denotes (\<open>json\<close>). Number literals are
    integers, which is what \<open>encoding/json\<close> writes for the integer fields of this program; reading one
    into an \<open>interface{}\<close> gives a \<open>float64\<close>, so it is rounded to 53 bits (\<open>float64_of\<close>). A string
    that is an RFC 3339 time stamp is \<open>JTime\<close> of its instant (in nanoseconds), every other string is \<open>JStr\<close>.
  \<^item> \<open>payload\<close>: the bytes of a stored value or a message, either a JSON text or a raw string.
  \<^item> \<open>commons/crypto/secp256k1/secp256.go\<close> and \<open>commons/crypto/crypto.go\<close>: the length checks in Go around the C
    library and the hash function, which are parameters (a record of type \<open>crypto\<close>).
\<close>

subsection \<open>encoding/hex\<close>

definition hextable :: string where
  "hextable = ''0123456789abcdef''"

definition hex_EncodeToString :: "byte list \<Rightarrow> string" where
  "hex_EncodeToString bs = concat (map (\<lambda>b. [hextable ! (unat b div 16), hextable ! (unat b mod 16)]) bs)"

definition fromHexChar :: "char \<Rightarrow> nat option" where
  "fromHexChar c =
     (let n = of_char c :: nat
      in if 48 \<le> n \<and> n \<le> 57 then Some (n - 48)
         else if 97 \<le> n \<and> n \<le> 102 then Some (n - 97 + 10)
         else if 65 \<le> n \<and> n \<le> 70 then Some (n - 65 + 10)
         else None)"

fun hex_DecodeString :: "string \<Rightarrow> byte list option" where
  "hex_DecodeString [] = Some []"
| "hex_DecodeString [c] = None"
| "hex_DecodeString (c # d # s) =
     (case (fromHexChar c, fromHexChar d, hex_DecodeString s) of
        (Some h, Some l, Some bs) \<Rightarrow> Some (byte_of (h * 16 + l) # bs)
      | _ \<Rightarrow> None)"

subsection \<open>fmt and encoding/binary\<close>

definition digit_char :: "nat \<Rightarrow> char" where
  "digit_char d = char_of (48 + d)"

definition fmt_nat :: "nat \<Rightarrow> string" where
  "fmt_nat n = (if n = 0 then ''0'' else rev (map digit_char (digits 10 n)))"

definition fmt_d :: "int \<Rightarrow> string" where
  "fmt_d x = (if x < 0 then CHR ''-'' # fmt_nat (nat (- x)) else fmt_nat (nat x))"

text \<open>\<open>binary.Write\<close> of an \<open>int64\<close>: eight bytes of its two's complement.\<close>

definition int64_LittleEndian :: "int \<Rightarrow> byte list" where
  "int64_LittleEndian x = map (\<lambda>i. byte_of (nat (x mod 2 ^ 64) div 256 ^ i)) [0..<8]"

definition int64_BigEndian :: "int \<Rightarrow> byte list" where
  "int64_BigEndian x = rev (int64_LittleEndian x)"

definition string_bytes :: "string \<Rightarrow> byte list" where
  "string_bytes s = map of_char s"

definition bytes_string :: "byte list \<Rightarrow> string" where
  "bytes_string bs = map (\<lambda>b. char_of (unat b)) bs"

subsection \<open>float64\<close>

text \<open>An integer literal read as a \<open>float64\<close>: 53 significant bits, ties to even.\<close>

definition float64_of :: "int \<Rightarrow> int" where
  "float64_of x =
     (if \<bar>x\<bar> \<le> 2 ^ 53 then x
      else let e = big_BitLen x - 53;
               q = \<bar>x\<bar> div 2 ^ e; r = \<bar>x\<bar> mod 2 ^ e;
               q' = (if 2 * r > 2 ^ e \<or> 2 * r = 2 ^ e \<and> odd q then q + 1 else q)
           in sgn x * (q' * 2 ^ e))"

text \<open>The conversions of a \<open>float64\<close> to the integer types, on amd64 when it is out of range.\<close>

definition int64_of_float :: "int \<Rightarrow> int" where
  "int64_of_float f = (if is_s64 f then f else - (2 ^ 63))"

definition uint64_of_float :: "int \<Rightarrow> int" where
  "uint64_of_float f =
     (if f < 2 ^ 63 then wrap_u64 (int64_of_float f)
      else wrap_u64 (int64_of_float (f - 2 ^ 63) + 2 ^ 63))"

definition byte_of_float :: "int \<Rightarrow> int" where
  "byte_of_float f = (if - (2 ^ 31) \<le> f \<and> f < 2 ^ 31 then f mod 256 else 0)"

subsection \<open>JSON documents\<close>

datatype json = JNull | JBool bool | JNum int | JStr string | JTime int
  | JArr "json list" | JObj "(string \<times> json) list"

datatype payload = Doc json | Raw string

text \<open>
  RFC 3339 texts. \<open>civil\<close> turns a day count since 1970-01-01 into year, month and day of the
  proleptic Gregorian calendar.
\<close>

definition civil :: "int \<Rightarrow> int \<times> int \<times> int" where
  "civil z0 =
     (let z = z0 + 719468;
          era = z div 146097;
          doe = z - era * 146097;
          yoe = (doe - doe div 1460 + doe div 36524 - doe div 146096) div 365;
          doy = doe - (365 * yoe + yoe div 4 - yoe div 100);
          mp = (5 * doy + 2) div 153;
          d = doy - (153 * mp + 2) div 5 + 1;
          m = (if mp < 10 then mp + 3 else mp - 9)
      in (yoe + era * 400 + (if m \<le> 2 then 1 else 0), m, d))"

definition pad_d :: "nat \<Rightarrow> int \<Rightarrow> string" where
  "pad_d n x = (let s = fmt_d x in replicate (n - length s) (CHR ''0'') @ s)"

definition fmt_frac :: "int \<Rightarrow> string" where
  "fmt_frac ns = (if ns = 0 then []
                  else CHR ''.'' # rev (dropWhile (\<lambda>c. c = CHR ''0'') (rev (pad_d 9 ns))))"

definition rfc3339 :: "int \<Rightarrow> string" where
  "rfc3339 t =
     (let s = t div 1000000000; (y, m, d) = civil (s div 86400); sd = s mod 86400
      in pad_d 4 y @ ''-'' @ pad_d 2 m @ ''-'' @ pad_d 2 d @ ''T'' @ pad_d 2 (sd div 3600) @ '':'' @
         pad_d 2 (sd div 60 mod 60) @ '':'' @ pad_d 2 (sd mod 60) @ fmt_frac (t mod 1000000000) @ ''Z'')"

text \<open>\<open>time.Time\<close> is marshalled only when its year is in 0 .. 9999.\<close>

definition time_ok :: "int \<Rightarrow> bool" where
  "time_ok t \<longleftrightarrow> - 62167219200 * 1000000000 \<le> t \<and> t < 253402300800 * 1000000000"

definition zero_time :: int where
  "zero_time = - 62135596800 * 1000000000"

definition time_Marshal :: "int \<Rightarrow> json result" where
  "time_Marshal t = (if time_ok t then Ok (JTime t) else Err ''Time.MarshalJSON: year outside of range [0,9999]'')"

text \<open>Reading into \<open>interface{}\<close>: every number becomes a \<open>float64\<close>.\<close>

fun json_value :: "json \<Rightarrow> json" where
  "json_value (JNum x) = JNum (float64_of x)"
| "json_value (JArr xs) = JArr (map json_value xs)"
| "json_value (JObj kvs) = JObj (map (\<lambda>(k, v). (k, json_value v)) kvs)"
| "json_value JNull = JNull"
| "json_value (JBool b) = JBool b"
| "json_value (JStr s) = JStr s"
| "json_value (JTime t) = JTime t"

text \<open>\<open>json.Unmarshal(bytes, &jsonMap)\<close>: the map, whose later entries win; \<open>null\<close> leaves it empty.\<close>

type_synonym json_map = "(string \<times> json) list"

definition json_Unmarshal_map :: "json \<Rightarrow> json_map result" where
  "json_Unmarshal_map d =
     (case d of JNull \<Rightarrow> Ok []
      | JObj kvs \<Rightarrow> Ok (rev (map (\<lambda>(k, v). (k, json_value v)) kvs))
      | _ \<Rightarrow> Err ''json: cannot unmarshal into Go value of type map[string]interface {}'')"

text \<open>\<open>jsonMap[k]\<close>, with \<open>None\<close> for \<open>nil\<close>.\<close>

definition jget :: "json_map \<Rightarrow> string \<Rightarrow> json option" where
  "jget jm k = (case map_of jm k of None \<Rightarrow> None | Some JNull \<Rightarrow> None | Some v \<Rightarrow> Some v)"

definition as_string :: "json \<Rightarrow> string option" where
  "as_string v = (case v of JStr s \<Rightarrow> Some s | JTime t \<Rightarrow> Some (rfc3339 t) | _ \<Rightarrow> None)"

definition as_float :: "json \<Rightarrow> int option" where
  "as_float v = (case v of JNum f \<Rightarrow> Some f | _ \<Rightarrow> None)"

definition as_array :: "json \<Rightarrow> json list option" where
  "as_array v = (case v of JArr xs \<Rightarrow> Some xs | _ \<Rightarrow> None)"

text \<open>
  The two shapes of a field in the \<open>UnmarshalJSON\<close> methods. \<open>field_panic\<close>: \<open>this.F = jsonMap[k].(T)\<close>,
  which panics when the value has another type. \<open>field_check\<close>: the checked assertion that returns an error.
\<close>

definition field_panic :: "json_map \<Rightarrow> string \<Rightarrow> (json \<Rightarrow> 'v option) \<Rightarrow> ('v \<Rightarrow> 'r \<Rightarrow> 'r) \<Rightarrow> 'r \<Rightarrow> 'r result" where
  "field_panic jm k conv upd r =
     (case jget jm k of None \<Rightarrow> Ok r
      | Some v \<Rightarrow> (case conv v of None \<Rightarrow> Panic ''interface conversion'' | Some x \<Rightarrow> Ok (upd x r)))"

definition field_check :: "json_map \<Rightarrow> string \<Rightarrow> string \<Rightarrow> (json \<Rightarrow> 'v option) \<Rightarrow> ('v \<Rightarrow> 'r \<Rightarrow> 'r) \<Rightarrow> 'r \<Rightarrow> 'r result" where
  "field_check jm k msg conv upd r =
     (case jget jm k of None \<Rightarrow> Ok r
      | Some v \<Rightarrow> (case conv v of None \<Rightarrow> Err msg | Some x \<Rightarrow> Ok (upd x r)))"

text \<open>\<open>time.Parse(time.RFC3339, jsonMap[k].(string))\<close>\<close>

definition field_time :: "json_map \<Rightarrow> string \<Rightarrow> (int \<Rightarrow> 'r \<Rightarrow> 'r) \<Rightarrow> 'r \<Rightarrow> 'r result" where
  "field_time jm k upd r =
     (case jget jm k of None \<Rightarrow> Ok r
      | Some (JTime t) \<Rightarrow> Ok (upd t r)
      | Some (JStr s) \<Rightarrow> Err (''parsing time '' @ s)
      | Some _ \<Rightarrow> Panic ''interface conversion'')"

text \<open>\<open>omitempty\<close>\<close>

definition omit_str :: "string \<Rightarrow> string \<Rightarrow> (string \<times> json) list" where
  "omit_str k s = (if s = '''' then [] else [(k, JStr s)])"

definition omit_num :: "string \<Rightarrow> int \<Rightarrow> (string \<times> json) list" where
  "omit_num k n = (if n = 0 then [] else [(k, JNum n)])"

definition omit_arr :: "string \<Rightarrow> json list \<Rightarrow> (string \<times> json) list" where
  "omit_arr k xs = (if xs = [] then [] else [(k, JArr xs)])"

primrec result_map :: "('a \<Rightarrow> 'b result) \<Rightarrow> 'a list \<Rightarrow> 'b list result" where
  "result_map f [] = Ok []"
| "result_map f (x # xs) = result_bind (f x) (\<lambda>y. result_bind (result_map f xs) (\<lambda>ys. Ok (y # ys)))"

text \<open>\<open>String()\<close>: the JSON text, or the empty string when marshalling fails.\<close>

definition json_String :: "json result \<Rightarrow> payload" where
  "json_String r = (case r of Ok d \<Rightarrow> Doc d | _ \<Rightarrow> Raw '''')"

text \<open>\<open>json.Unmarshal(payload, x)\<close> for an \<open>x\<close> with its own \<open>UnmarshalJSON\<close>.\<close>

definition json_Unmarshal :: "(json \<Rightarrow> 'r result) \<Rightarrow> payload \<Rightarrow> 'r result" where
  "json_Unmarshal um p = (case p of Doc d \<Rightarrow> um d | Raw s \<Rightarrow> Err ''invalid character'')"

subsection \<open>commons/crypto: signatures\<close>

record crypto =
  keccak256 :: "byte list \<Rightarrow> byte list"
  ec_seckey_verify :: "byte list \<Rightarrow> bool"
  ecdsa_sign_recoverable :: "byte list \<Rightarrow> byte list \<Rightarrow> byte list option"
  ecdsa_recover :: "byte list \<Rightarrow> byte list \<Rightarrow> byte list option"
  ecdsa_verify :: "byte list \<Rightarrow> byte list \<Rightarrow> byte list \<Rightarrow> bool"

definition SignatureLength :: nat where "SignatureLength = 65"

definition checkSignature :: "byte list \<Rightarrow> string option" where
  "checkSignature sig =
     (if length sig \<noteq> 65 then Some ''invalid signature length''
      else if unat (sig ! 64) \<ge> 4 then Some ''invalid signature recovery id''
      else None)"

definition secp256k1_Sign :: "crypto \<Rightarrow> byte list \<Rightarrow> byte list \<Rightarrow> byte list result" where
  "secp256k1_Sign C msg seckey =
     (if length msg \<noteq> 32 then Err ''invalid message length, need 32 bytes''
      else if length seckey \<noteq> 32 then Err ''invalid private key''
      else if \<not> ec_seckey_verify C seckey then Err ''invalid private key''
      else case ecdsa_sign_recoverable C msg seckey of
             None \<Rightarrow> Err ''signing failed'' | Some sig \<Rightarrow> Ok sig)"

definition RecoverPubkey :: "crypto \<Rightarrow> byte list \<Rightarrow> byte list \<Rightarrow> byte list result" where
  "RecoverPubkey C msg sig =
     (if length msg \<noteq> 32 then Err ''invalid message length, need 32 bytes''
      else case checkSignature sig of
             Some e \<Rightarrow> Err e
           | None \<Rightarrow> (case ecdsa_recover C sig msg of
                        None \<Rightarrow> Err ''recovery failed'' | Some pubkey \<Rightarrow> Ok pubkey))"

definition secp256k1_VerifySignature :: "crypto \<Rightarrow> byte list \<Rightarrow> byte list \<Rightarrow> byte list \<Rightarrow> bool" where
  "secp256k1_VerifySignature C pubkey msg signature \<longleftrightarrow>
     (if length msg \<noteq> 32 \<or> length signature \<noteq> 64 \<or> length pubkey = 0 then False
      else ecdsa_verify C signature msg pubkey)"

definition crypto_NewHash :: "crypto \<Rightarrow> byte list \<Rightarrow> HashBytes" where
  "crypto_NewHash C bs = keccak256 C bs"

definition ToPublicKey :: "crypto \<Rightarrow> byte list \<Rightarrow> byte list \<Rightarrow> byte list result" where
  "ToPublicKey C hash signature = RecoverPubkey C hash signature"

definition ToAddress :: "crypto \<Rightarrow> byte list \<Rightarrow> byte list" where
  "ToAddress C publicKey = drop 12 (crypto_NewHash C (drop 1 publicKey))"

definition crypto_NewSignature :: "crypto \<Rightarrow> byte list \<Rightarrow> byte list \<Rightarrow> byte list result" where
  "crypto_NewSignature C privateKey hash = secp256k1_Sign C hash privateKey"

definition VerifySignature :: "crypto \<Rightarrow> byte list \<Rightarrow> byte list \<Rightarrow> byte list \<Rightarrow> bool" where
  "VerifySignature C publicKey hash signature =
     secp256k1_VerifySignature C publicKey hash (take (length signature - 1) signature)"

text \<open>
  What the code relies on of the hash function and of libsecp256k1, with \<open>pub\<close> the public key of a
  private key: the digest has 32 bytes, a recoverable signature has 65 bytes with a recovery id below 4,
  the signer's public key (65 bytes) is recovered from it, and the signature verifies under that key.
\<close>

definition crypto_laws :: "crypto \<Rightarrow> (byte list \<Rightarrow> byte list) \<Rightarrow> bool" where
  "crypto_laws C pub \<longleftrightarrow>
     (\<forall>bs. length (keccak256 C bs) = 32) \<and>
     (\<forall>k. length (pub k) = 65) \<and>
     (\<forall>m k sig. ecdsa_sign_recoverable C m k = Some sig \<longrightarrow>
        length sig = 65 \<and> unat (sig ! 64) < 4 \<and>
        ecdsa_recover C sig m = Some (pub k) \<and> ecdsa_verify C (take 64 sig) m (pub k))"

subsection \<open>Hexadecimal round trip\<close>

lemma hextable_fromHexChar:
  assumes "n < 16" shows "fromHexChar (hextable ! n) = Some n"
proof -
  have "\<forall>n < 16. fromHexChar (hextable ! n) = Some n"
    unfolding hextable_def fromHexChar_def by code_simp
  with assms show ?thesis by blast
qed

lemma hex_Encode_Nil [simp]: "hex_EncodeToString [] = []"
  by (simp add: hex_EncodeToString_def)

lemma hex_Encode_Cons [simp]:
  "hex_EncodeToString (b # bs) =
     hextable ! (unat b div 16) # hextable ! (unat b mod 16) # hex_EncodeToString bs"
  by (simp add: hex_EncodeToString_def)

lemma hex_Decode_Encode [simp]: "hex_DecodeString (hex_EncodeToString bs) = Some bs"
proof (induction bs)
  case (Cons b bs)
  have "unat b div 16 < 16" using unat_byte_lt [of b] by simp
  then show ?case using Cons by (simp add: hextable_fromHexChar)
qed simp

lemma hex_Encode_inj: "hex_EncodeToString a = hex_EncodeToString b \<longleftrightarrow> a = b"
  by (metis hex_Decode_Encode option.inject)

lemma length_hex_Encode [simp]: "length (hex_EncodeToString bs) = 2 * length bs"
  by (induction bs) simp_all

lemma length_hex_Decode: "hex_DecodeString s = Some bs \<Longrightarrow> length s = 2 * length bs"
  by (induction s arbitrary: bs rule: hex_DecodeString.induct) (auto split: option.splits)

subsection \<open>Decimal and binary encodings\<close>

lemma digit_char_inj: "a < 10 \<Longrightarrow> b < 10 \<Longrightarrow> digit_char a = digit_char b \<longleftrightarrow> a = b"
  by (simp add: digit_char_def char_of_eq_iff take_bit_eq_mod)

lemma digit_char_not_minus: "d < 10 \<Longrightarrow> digit_char d \<noteq> CHR ''-''"
  by (simp add: digit_char_def char_of_eq_iff take_bit_eq_mod)

lemma map_digit_char_inj:
  "\<forall>d \<in> set a. d < 10 \<Longrightarrow> \<forall>d \<in> set b. d < 10 \<Longrightarrow> map digit_char a = map digit_char b \<Longrightarrow> a = b"
  by (erule map_inj_on) (auto simp: inj_on_def digit_char_inj)

lemma digits10_lt: "\<forall>d \<in> set (digits 10 n). d < 10"
  using digits_lt [of 10] by simp

lemma digits10_eq_Nil: "digits 10 n = [] \<longleftrightarrow> n = 0"
  by (subst digits.simps) simp

lemma digits10_ne_0: "digits 10 n \<noteq> [0]"
proof
  assume "digits 10 n = [0]"
  then have "undigits 10 (digits 10 n) = 0" by simp
  then have "n = 0" by (simp add: undigits_digits)
  with \<open>digits 10 n = [0]\<close> show False by simp
qed

lemma fmt_nat_digits: "fmt_nat n = rev (map digit_char (if n = 0 then [0] else digits 10 n))"
proof -
  have "digit_char 0 = CHR ''0''" unfolding digit_char_def by code_simp
  then show ?thesis by (simp add: fmt_nat_def)
qed

lemma fmt_nat_inj: "fmt_nat a = fmt_nat b \<longleftrightarrow> a = b"
proof
  assume "fmt_nat a = fmt_nat b"
  then have eq: "(if a = 0 then [0] else digits 10 a) = (if b = 0 then [0] else digits 10 b)"
    unfolding fmt_nat_digits rev_is_rev_conv
    by (intro map_digit_char_inj) (auto simp: digits10_lt split: if_splits)
  have "a = 0 \<longleftrightarrow> b = 0" using eq digits10_ne_0 by (auto split: if_splits dest: sym)
  moreover have "a = b" if "a \<noteq> 0" "b \<noteq> 0"
  proof -
    have "digits 10 a = digits 10 b" using eq that by simp
    then have "undigits 10 (digits 10 a) = undigits 10 (digits 10 b)" by simp
    then show ?thesis by (simp add: undigits_digits)
  qed
  ultimately show "a = b" by blast
qed simp

lemma fmt_nat_no_minus: "CHR ''-'' \<notin> set (fmt_nat n)"
  using digits10_lt [of n] by (auto simp: fmt_nat_digits digit_char_not_minus [symmetric] dest!: digit_char_not_minus split: if_splits)

lemma fmt_d_inj: "fmt_d a = fmt_d b \<longleftrightarrow> a = b"
proof
  assume eq: "fmt_d a = fmt_d b"
  have mem: "CHR ''-'' \<in> set (fmt_d x) \<longleftrightarrow> x < 0" for x
    by (simp add: fmt_d_def fmt_nat_no_minus)
  have sgn: "a < 0 \<longleftrightarrow> b < 0" using mem [of a] mem [of b] eq by simp
  show "a = b" using eq sgn by (auto simp: fmt_d_def fmt_nat_inj split: if_splits)
qed simp

lemma length_int64_LittleEndian [simp]: "length (int64_LittleEndian x) = 8"
  by (simp add: int64_LittleEndian_def)

lemma wrap_u64_inj_s64: "is_s64 x \<Longrightarrow> is_s64 y \<Longrightarrow> x mod 2 ^ 64 = y mod 2 ^ 64 \<Longrightarrow> x = y"
proof -
  assume x: "is_s64 x" and y: "is_s64 y" and e: "x mod 2 ^ 64 = y mod 2 ^ 64"
  have "(x + 2 ^ 63) mod 2 ^ 64 = (y + 2 ^ 63) mod 2 ^ 64" by (rule mod_add_cong [OF e refl])
  then have "wrap_s64 x = wrap_s64 y" unfolding wrap_s64_def by simp
  then show "x = y" using x y by simp
qed

lemma nat_from_bytes:
  "(n :: nat) < 256 ^ k \<Longrightarrow> n = (\<Sum>i<k. n div 256 ^ i mod 256 * 256 ^ i)"
proof (induction k)
  case (Suc k)
  have "n mod 256 ^ Suc k = n mod 256 ^ k + n div 256 ^ k mod 256 * 256 ^ k" for n :: nat
    by (simp only: power_Suc2 mod_mult2_eq) simp
  moreover have "(\<Sum>i<k. n div 256 ^ i mod 256 * 256 ^ i) = n mod 256 ^ k"
  proof (induction k)
    case (Suc k)
    then show ?case by (simp only: power_Suc2 mod_mult2_eq sum.lessThan_Suc) simp
  qed simp
  ultimately have "(\<Sum>i<Suc k. n div 256 ^ i mod 256 * 256 ^ i) = n mod 256 ^ Suc k"
    by (simp only: sum.lessThan_Suc)
  then show ?case using Suc.prems by (simp only: mod_less)
qed simp

lemma int64_LittleEndian_inj:
  assumes "is_s64 x" "is_s64 y" "int64_LittleEndian x = int64_LittleEndian y"
  shows "x = y"
proof -
  let ?a = "nat (x mod 2 ^ 64)" and ?b = "nat (y mod 2 ^ 64)"
  have "?a div 256 ^ i mod 256 = ?b div 256 ^ i mod 256" if "i < 8" for i
  proof -
    have "int64_LittleEndian x ! i = int64_LittleEndian y ! i" using assms(3) by simp
    then have "unat (byte_of (?a div 256 ^ i)) = unat (byte_of (?b div 256 ^ i))"
      using that by (simp add: int64_LittleEndian_def)
    then show ?thesis by (simp only: unat_byte_of)
  qed
  then have "(\<Sum>i<8. ?a div 256 ^ i mod 256 * 256 ^ i) = (\<Sum>i<8. ?b div 256 ^ i mod 256 * 256 ^ i)"
    by (intro sum.cong) auto
  moreover have "?a < 256 ^ 8" "?b < 256 ^ 8"
    using pos_mod_bound [of "2 ^ 64" x] pos_mod_bound [of "2 ^ 64" y] by (simp_all add: nat_less_iff)
  ultimately have "?a = ?b" using nat_from_bytes [of ?a 8] nat_from_bytes [of ?b 8] by simp
  then have "x mod 2 ^ 64 = y mod 2 ^ 64" by (simp add: eq_nat_nat_iff)
  with assms(1,2) show ?thesis by (rule wrap_u64_inj_s64)
qed

subsection \<open>Numbers and fields\<close>

lemma float64_exact [simp]: "\<bar>x\<bar> \<le> 2 ^ 53 \<Longrightarrow> float64_of x = x"
  by (simp add: float64_of_def)

lemma int64_of_float64_exact: "\<bar>x\<bar> \<le> 2 ^ 53 \<Longrightarrow> int64_of_float (float64_of x) = x"
  by (auto simp: int64_of_float_def is_s64_def)

lemma map_of_rev_distinct:
  assumes "distinct (map fst kvs)"
  shows "map_of (rev kvs) = map_of kvs"
  by (rule map_of_inject_set [THEN iffD2]) (simp_all add: assms rev_map [symmetric])

lemma result_map_Ok: "(\<And>x. x \<in> set xs \<Longrightarrow> f x = Ok (g x)) \<Longrightarrow> result_map f xs = Ok (map g xs)"
  by (induction xs) simp_all

lemma float64_fix:
  assumes "2 ^ (big_BitLen x - 53) dvd x" shows "float64_of x = x"
proof -
  have "\<bar>x\<bar> mod 2 ^ (big_BitLen x - 53) = 0" using assms by (simp add: dvd_imp_mod_0)
  moreover have "\<bar>x\<bar> div 2 ^ (big_BitLen x - 53) * 2 ^ (big_BitLen x - 53) = \<bar>x\<bar>"
    using assms by (simp add: dvd_div_mult_self)
  ultimately show ?thesis by (simp add: float64_of_def Let_def sgn_mult_abs)
qed

lemma big_BitLen_le_mono: "\<bar>x\<bar> \<le> 2 ^ k \<Longrightarrow> big_BitLen x \<le> Suc k"
proof -
  assume "\<bar>x\<bar> \<le> 2 ^ k"
  moreover have "(2::int) ^ k < 2 ^ Suc k" by simp
  ultimately have "\<bar>x\<bar> < 2 ^ Suc k" by linarith
  then show ?thesis by (simp only: big_BitLen_le_iff)
qed

lemma float64_of_shape:
  assumes "\<bar>x\<bar> > 2 ^ 53"
  obtains e q where "float64_of x = sgn x * (q * 2 ^ e)" "0 \<le> q" "q \<le> 2 ^ 53"
proof -
  define e where "e = big_BitLen x - 53"
  define q where "q = \<bar>x\<bar> div 2 ^ e"
  define r where "r = \<bar>x\<bar> mod 2 ^ e"
  define q' where "q' = (if 2 * r > 2 ^ e \<or> 2 * r = 2 ^ e \<and> odd q then q + 1 else q)"
  have "53 < big_BitLen x" using assms by (simp add: big_BitLen_gt_iff)
  then have len: "big_BitLen x = 53 + e" by (simp add: e_def)
  then have "\<bar>x\<bar> < 2 ^ (53 + e)" by (simp flip: big_BitLen_le_iff)
  then have "\<bar>x\<bar> < 2 ^ 53 * 2 ^ e" by (simp only: power_add)
  moreover have "q * 2 ^ e \<le> \<bar>x\<bar>" unfolding q_def by (simp flip: minus_mod_eq_div_mult)
  ultimately have "q * 2 ^ e < 2 ^ 53 * 2 ^ e" by linarith
  then have "q < 2 ^ 53" by (simp only: mult_less_cancel_right) auto
  then have "q' \<le> 2 ^ 53" by (simp add: q'_def)
  moreover have "0 \<le> q'" by (simp add: q'_def q_def pos_imp_zdiv_nonneg_iff)
  moreover have "float64_of x = sgn x * (q' * 2 ^ e)"
    using assms by (simp add: float64_of_def Let_def e_def q_def r_def q'_def)
  ultimately show thesis using that by blast
qed

lemma float64_of_idem [simp]: "float64_of (float64_of x) = float64_of x"
proof (cases "\<bar>x\<bar> > 2 ^ 53")
  case True
  then obtain e q where f: "float64_of x = sgn x * (q * 2 ^ e)" and q: "0 \<le> q" "q \<le> 2 ^ 53"
    by (rule float64_of_shape)
  define y where "y = sgn x * (q * 2 ^ e)"
  have ay: "\<bar>y\<bar> = q * 2 ^ e" using True q by (auto simp: y_def abs_mult sgn_if)
  have "2 ^ (big_BitLen y - 53) dvd y"
  proof (cases "q = 2 ^ 53")
    case True
    have "\<bar>y\<bar> \<le> 2 ^ (53 + e)" by (simp only: ay True power_add)
    then have "big_BitLen y - 53 \<le> Suc e" using big_BitLen_le_mono [of y "53 + e"] by simp
    moreover have "(2::int) ^ Suc e dvd y" by (simp add: y_def True)
    ultimately show ?thesis using power_le_dvd by blast
  next
    case False
    then have "q < 2 ^ 53" using q by simp
    then have "\<bar>y\<bar> < 2 ^ 53 * 2 ^ e" unfolding ay by (intro mult_strict_right_mono) auto
    then have "\<bar>y\<bar> < 2 ^ (53 + e)" by (simp only: power_add)
    then have "big_BitLen y - 53 \<le> e" using big_BitLen_le_iff [of y "53 + e"] by simp
    moreover have "(2::int) ^ e dvd y" by (simp add: y_def)
    ultimately show ?thesis using power_le_dvd by blast
  qed
  then show ?thesis unfolding f y_def [symmetric] by (rule float64_fix)
qed simp

lemma json_value_idem [simp]: "json_value (json_value d) = json_value d"
  by (induction d rule: json_value.induct) auto

lemma json_Unmarshal_map_value [simp]: "json_Unmarshal_map (json_value d) = json_Unmarshal_map d"
  by (cases d) (simp_all add: json_Unmarshal_map_def split_def)

lemma int64_of_float_0 [simp]: "int64_of_float 0 = 0"
  by (simp add: int64_of_float_def is_s64_def)

lemma int64_of_float_small [simp]: "\<bar>x\<bar> \<le> 2 ^ 53 \<Longrightarrow> int64_of_float x = x"
  by (auto simp: int64_of_float_def is_s64_def)

lemma jget_Nil [simp]: "jget [] k = None" by (simp add: jget_def)

lemma map_of_omit_str [simp]:
  "map_of (rev (map (\<lambda>(k, v). (k, json_value v)) (omit_str k s))) k' =
     (if k' = k \<and> s \<noteq> [] then Some (JStr s) else None)"
  by (simp add: omit_str_def)

lemma map_of_omit_num [simp]:
  "map_of (rev (map (\<lambda>(k, v). (k, json_value v)) (omit_num k n))) k' =
     (if k' = k \<and> n \<noteq> 0 then Some (JNum (float64_of n)) else None)"
  by (simp add: omit_num_def)

lemma map_of_omit_arr [simp]:
  "map_of (rev (map (\<lambda>(k, v). (k, json_value v)) (omit_arr k xs))) k' =
     (if k' = k \<and> xs \<noteq> [] then Some (JArr (map json_value xs)) else None)"
  by (simp add: omit_arr_def)

lemmas json_read =
  json_Unmarshal_map_def json_Unmarshal_def json_String_def jget_def field_panic_def field_check_def field_time_def
  as_string_def as_float_def as_array_def map_add_def

text \<open>For the examples: the hash pads its argument.\<close>

definition flat_crypto :: crypto where
  "flat_crypto = \<lparr>keccak256 = BytesToHash, ec_seckey_verify = (\<lambda>_. False),
     ecdsa_sign_recoverable = (\<lambda>_ _. None), ecdsa_recover = (\<lambda>_ _. None), ecdsa_verify = (\<lambda>_ _ _. False)\<rparr>"

end
