(* ===== verification/Types.thy ===== *)
theory Types
  imports Go_Codec
begin

section \<open>The data of the node and its JSON form (commons/types)\<close>

text \<open>
  The structs of \<open>commons/types\<close> as records, their constructors, keys and JSON methods.

  \<^item> \<open>X_MarshalJSON\<close> is the method of \<open>X\<close>: the document it writes, or an error when a time stamp is out of range.
  \<^item> \<open>X_UnmarshalJSON r d\<close> reads document \<open>d\<close> over the receiver \<open>r\<close>; a failed type assertion is a \<open>Panic\<close>.
  \<^item> \<open>X_String\<close> and \<open>ToXFromJson\<close> are the functions the store and the network use.
  \<^item> \<open>now\<close> arguments stand for the calls of \<open>time.Now()\<close>, in nanoseconds.

  \<open>Gossip\<close> and \<open>Node\<close> have no JSON methods of their own: \<open>struct_fields\<close> models what \<open>encoding/json\<close> does
  with a struct (keys match without regard to case, unknown keys are skipped).
\<close>

subsection \<open>constants.go and time.go\<close>

definition TxReceiveTimeout :: int where "TxReceiveTimeout = 3000"
definition GossipTimeout :: int where "GossipTimeout = 1000"
definition Millisecond :: int where "Millisecond = 1000000"
definition Second :: int where "Second = 1000000000"
definition Minute :: int where "Minute = 60 * Second"
definition Hour :: int where "Hour = 60 * Minute"
definition TxFutureLimit :: int where "TxFutureLimit = Minute * 3"
definition UnavailableNodeTimeout :: int where "UnavailableNodeTimeout = Second * 5"
definition AccountTTL :: int where "AccountTTL = Hour * 24"
definition PageTTL :: int where "PageTTL = Hour * 24"
definition TransactionCacheTTL :: int where "TransactionCacheTTL = Hour * 48"
definition ReceiptCacheTTL :: int where "ReceiptCacheTTL = Hour * 48"
definition GossipCacheTTL :: int where "GossipCacheTTL = Minute * 5"
definition AuthenticationCacheTTL :: int where "AuthenticationCacheTTL = Minute"

definition StatusPending :: string where "StatusPending = ''Pending''"
definition StatusOk :: string where "StatusOk = ''Ok''"
definition StatusNotFound :: string where "StatusNotFound = ''NotFound''"
definition StatusReceiptNotFound :: string where "StatusReceiptNotFound = ''StatusReceiptNotFound''"
definition StatusTransactionTimeOut :: string where "StatusTransactionTimeOut = ''StatusTransactionTimeOut''"
definition StatusInvalidTransaction :: string where "StatusInvalidTransaction = ''InvalidTransaction''"
definition StatusInsufficientTokens :: string where "StatusInsufficientTokens = ''InsufficientTokens''"
definition StatusDuplicateTransaction :: string where "StatusDuplicateTransaction = ''DuplicateTransaction''"
definition StatusNotDelegate :: string where "StatusNotDelegate = ''StatusNotDelegate''"
definition StatusAlreadyProcessingTransaction :: string where
  "StatusAlreadyProcessingTransaction = ''StatusAlreadyProcessingTransaction''"
definition StatusGossipingTimedOut :: string where "StatusGossipingTimedOut = ''StatusGossipingTimedOut''"
definition StatusInternalError :: string where "StatusInternalError = ''InternalError''"
definition StatusUnavailableFeature :: string where "StatusUnavailableFeature = ''UnavailableFeature''"
definition StatusNodeUnavailable :: string where "StatusNodeUnavailable = ''NodeUnavailable''"
definition StatusCouldNotReachConsensus :: string where "StatusCouldNotReachConsensus = ''CouldNotReachConsensus''"
definition StatusNotDelegateAsHumanReadable :: string where
  "StatusNotDelegateAsHumanReadable = ''This node is not a delegate. Please select a delegate node.''"

definition TypeSeed :: string where "TypeSeed = ''Seed''"
definition TypeDelegate :: string where "TypeDelegate = ''Delegate''"
definition TypeNode :: string where "TypeNode = ''Node''"
definition TypeTransferTokens :: int where "TypeTransferTokens = 0"
definition TypeDeploySmartContract :: int where "TypeDeploySmartContract = 1"
definition TypeExecuteSmartContract :: int where "TypeExecuteSmartContract = 2"

definition ErrNotFound :: string where "ErrNotFound = ''not found''"
definition ErrInvalidRequest :: string where "ErrInvalidRequest = ''invalid request''"
definition ErrInvalidRequestPage :: string where "ErrInvalidRequestPage = ''invalid request Page''"
definition ErrInvalidRequestPageSize :: string where "ErrInvalidRequestPageSize = ''invalid request Page Size''"
definition ErrInvalidRequestStartingHash :: string where
  "ErrInvalidRequestStartingHash = ''invalid request Starting Hash''"
definition ErrInvalidRequestHash :: string where "ErrInvalidRequestHash = ''invalid request Hash''"

text \<open>Go's integer division truncates; \<open>UnixNano\<close> is an \<open>int64\<close>.\<close>

definition quot_trunc :: "int \<Rightarrow> int \<Rightarrow> int" where
  "quot_trunc a b = (if a < 0 then - ((- a) div b) else a div b)"

definition ToNanoSeconds :: "int \<Rightarrow> int" where
  "ToNanoSeconds t = wrap_s64 t"

definition ToMicroSeconds :: "int \<Rightarrow> int" where
  "ToMicroSeconds t = quot_trunc (wrap_s64 t) 1000"

definition ToMilliSeconds :: "int \<Rightarrow> int" where
  "ToMilliSeconds t = quot_trunc (wrap_s64 t) Millisecond"

subsection \<open>rumor.go\<close>

record Rumor =
  r_Hash :: string
  r_Address :: string
  r_TransactionHash :: string
  r_Time :: int
  r_Signature :: string

definition Rumor_zero :: Rumor where
  "Rumor_zero = \<lparr>r_Hash = [], r_Address = [], r_TransactionHash = [], r_Time = 0, r_Signature = []\<rparr>"

definition Rumor_UnmarshalJSON :: "Rumor \<Rightarrow> json \<Rightarrow> Rumor result" where
  "Rumor_UnmarshalJSON r d =
     result_bind (json_Unmarshal_map d) (\<lambda>jm.
     result_bind (field_panic jm ''hash'' as_string (\<lambda>x r. r\<lparr>r_Hash := x\<rparr>) r) (\<lambda>r.
     result_bind (field_panic jm ''address'' as_string (\<lambda>x r. r\<lparr>r_Address := x\<rparr>) r) (\<lambda>r.
     result_bind (field_panic jm ''transactionHash'' as_string (\<lambda>x r. r\<lparr>r_TransactionHash := x\<rparr>) r) (\<lambda>r.
     result_bind (field_panic jm ''time'' as_float (\<lambda>x r. r\<lparr>r_Time := int64_of_float x\<rparr>) r) (\<lambda>r.
     field_panic jm ''signature'' as_string (\<lambda>x r. r\<lparr>r_Signature := x\<rparr>) r)))))"

definition Rumor_MarshalJSON :: "Rumor \<Rightarrow> json result" where
  "Rumor_MarshalJSON r =
     Ok (JObj [(''hash'', JStr (r_Hash r)), (''address'', JStr (r_Address r)),
               (''transactionHash'', JStr (r_TransactionHash r)), (''time'', JNum (r_Time r)),
               (''signature'', JStr (r_Signature r))])"

definition Rumor_String :: "Rumor \<Rightarrow> payload" where
  "Rumor_String r = json_String (Rumor_MarshalJSON r)"

definition ToRumorFromJson :: "payload \<Rightarrow> Rumor result" where
  "ToRumorFromJson p = json_Unmarshal (Rumor_UnmarshalJSON Rumor_zero) p"

definition ToJsonByRumors :: "Rumor list \<Rightarrow> payload result" where
  "ToJsonByRumors rs = result_bind (result_map Rumor_MarshalJSON rs) (\<lambda>ds. Ok (Doc (JArr ds)))"

definition Rumors_Unmarshal :: "json \<Rightarrow> Rumor list result" where
  "Rumors_Unmarshal d =
     (case d of JNull \<Rightarrow> Ok []
      | JArr ds \<Rightarrow> result_map (Rumor_UnmarshalJSON Rumor_zero) ds
      | _ \<Rightarrow> Err ''json: cannot unmarshal into Go value of type []types.Rumor'')"

definition ToRumorsFromJson :: "payload \<Rightarrow> Rumor list result" where
  "ToRumorsFromJson p = json_Unmarshal Rumors_Unmarshal p"

subsection \<open>receipt.go\<close>

record Receipt =
  rc_TransactionHash :: string
  rc_Status :: string
  rc_HumanReadableStatus :: string
  rc_ContractAddress :: string
  rc_ContractResult :: "json list"
  rc_Created :: int

definition Receipt_zero :: Receipt where
  "Receipt_zero = \<lparr>rc_TransactionHash = [], rc_Status = [], rc_HumanReadableStatus = [],
     rc_ContractAddress = [], rc_ContractResult = [], rc_Created = zero_time\<rparr>"

definition Receipt_Key :: "Receipt \<Rightarrow> string" where
  "Receipt_Key r = ''table-receipt-'' @ rc_TransactionHash r"

definition NewReceipt :: "int \<Rightarrow> string \<Rightarrow> Receipt" where
  "NewReceipt now transactionHash =
     Receipt_zero\<lparr>rc_TransactionHash := transactionHash, rc_Status := StatusPending, rc_Created := now\<rparr>"

definition NewReceiptWithStatus :: "int \<Rightarrow> string \<Rightarrow> string \<Rightarrow> string \<Rightarrow> Receipt" where
  "NewReceiptWithStatus now transactionHash status humanReadableStatus =
     Receipt_zero\<lparr>rc_TransactionHash := transactionHash, rc_Status := status,
       rc_HumanReadableStatus := humanReadableStatus, rc_Created := now\<rparr>"

definition NewReceiptWithError :: "int \<Rightarrow> string \<Rightarrow> string \<Rightarrow> Receipt" where
  "NewReceiptWithError now transactionHash err =
     Receipt_zero\<lparr>rc_TransactionHash := transactionHash, rc_Status := StatusInternalError,
       rc_HumanReadableStatus := err, rc_Created := now\<rparr>"

text \<open>The comparison with the empty string skips a blank contract address, whose assertion would succeed anyway.\<close>

definition Receipt_UnmarshalJSON :: "Receipt \<Rightarrow> json \<Rightarrow> Receipt result" where
  "Receipt_UnmarshalJSON r d =
     result_bind (json_Unmarshal_map d) (\<lambda>jm.
     result_bind (field_panic jm ''transactionHash'' as_string (\<lambda>x r. r\<lparr>rc_TransactionHash := x\<rparr>) r) (\<lambda>r.
     result_bind (field_panic jm ''status'' as_string (\<lambda>x r. r\<lparr>rc_Status := x\<rparr>) r) (\<lambda>r.
     result_bind (field_panic jm ''humanReadableStatus'' as_string (\<lambda>x r. r\<lparr>rc_HumanReadableStatus := x\<rparr>) r) (\<lambda>r.
     result_bind (if jget jm ''contractAddress'' = Some (JStr '''') then Ok r
                  else field_panic jm ''contractAddress'' as_string (\<lambda>x r. r\<lparr>rc_ContractAddress := x\<rparr>) r) (\<lambda>r.
     result_bind (field_panic jm ''contractResult'' as_array (\<lambda>x r. r\<lparr>rc_ContractResult := x\<rparr>) r) (\<lambda>r.
     field_time jm ''created'' (\<lambda>t r. r\<lparr>rc_Created := t\<rparr>) r))))))"

definition Receipt_MarshalJSON :: "Receipt \<Rightarrow> json result" where
  "Receipt_MarshalJSON r =
     result_bind (time_Marshal (rc_Created r)) (\<lambda>created.
     Ok (JObj ([(''transactionHash'', JStr (rc_TransactionHash r)), (''status'', JStr (rc_Status r))] @
               omit_str ''humanReadableStatus'' (rc_HumanReadableStatus r) @
               omit_str ''contractAddress'' (rc_ContractAddress r) @
               omit_arr ''contractResult'' (rc_ContractResult r) @
               [(''created'', created)])))"

definition Receipt_String :: "Receipt \<Rightarrow> payload" where
  "Receipt_String r = json_String (Receipt_MarshalJSON r)"

definition ToReceiptFromJson :: "payload \<Rightarrow> Receipt result" where
  "ToReceiptFromJson p = json_Unmarshal (Receipt_UnmarshalJSON Receipt_zero) p"

subsection \<open>transaction.go: the struct and its JSON form\<close>

record Transaction =
  tx_Hash :: string
  tx_Type :: int
  tx_From :: string
  tx_To :: string
  tx_Value :: int
  tx_Code :: string
  tx_Abi :: string
  tx_Method :: string
  tx_Params :: "json list"
  tx_Time :: int
  tx_Signature :: string
  tx_Hertz :: int
  tx_Receipt :: Receipt
  tx_Gossip :: "Rumor list"
  tx_FromName :: string
  tx_ToName :: string

definition Transaction_zero :: Transaction where
  "Transaction_zero = \<lparr>tx_Hash = [], tx_Type = 0, tx_From = [], tx_To = [], tx_Value = 0, tx_Code = [],
     tx_Abi = [], tx_Method = [], tx_Params = [], tx_Time = 0, tx_Signature = [], tx_Hertz = 0,
     tx_Receipt = Receipt_zero, tx_Gossip = [], tx_FromName = [], tx_ToName = []\<rparr>"

definition Transaction_Key :: "Transaction \<Rightarrow> string" where
  "Transaction_Key t = ''table-transaction-'' @ tx_Hash t"

definition Transaction_TypeKey :: "Transaction \<Rightarrow> string" where
  "Transaction_TypeKey t =
     ''key-transaction-type-'' @ fmt_d (tx_Type t) @ ''-'' @ fmt_d (tx_Time t) @ ''-'' @ tx_Hash t"

definition Transaction_TimeKey :: "Transaction \<Rightarrow> string" where
  "Transaction_TimeKey t = ''key-transaction-time-'' @ fmt_d (tx_Time t) @ ''-'' @ tx_Hash t"

definition Transaction_FromKey :: "Transaction \<Rightarrow> string" where
  "Transaction_FromKey t = ''key-transaction-from-'' @ tx_From t @ ''-'' @ fmt_d (tx_Time t)"

definition Transaction_ToKey :: "Transaction \<Rightarrow> string" where
  "Transaction_ToKey t = ''key-transaction-to-'' @ tx_To t @ ''-'' @ fmt_d (tx_Time t)"

definition checkTime :: "int \<Rightarrow> int \<Rightarrow> int result" where
  "checkTime now txTime =
     (if ToMilliSeconds (now + TxFutureLimit) < txTime
      then Err ''transaction time cannot be this far in the future''
      else if txTime < 0 then Err ''transaction time cannot be negative''
      else Ok txTime)"

definition str_or_empty :: "json option \<Rightarrow> string" where
  "str_or_empty v = (case v of None \<Rightarrow> [] | Some v \<Rightarrow> (case as_string v of None \<Rightarrow> [] | Some s \<Rightarrow> s))"

definition Transaction_read_abi :: "json_map \<Rightarrow> Transaction \<Rightarrow> Transaction result" where
  "Transaction_read_abi jm t =
     (case jget jm ''abi'' of None \<Rightarrow> Ok t
      | Some v \<Rightarrow> (case as_string v of
          None \<Rightarrow> Err ''value for field 'abi' must be a string''
        | Some s \<Rightarrow>
            let to = str_or_empty (jget jm ''to''); method = str_or_empty (jget jm ''method'')
            in if length to > 0 \<and> length method > 0 \<and> s = '''' then Err ''value for field 'abi' is invalid''
               else Ok (t\<lparr>tx_Abi := s\<rparr>)))"

definition Transaction_read_time :: "int \<Rightarrow> json_map \<Rightarrow> Transaction \<Rightarrow> Transaction result" where
  "Transaction_read_time now jm t =
     (case jget jm ''time'' of None \<Rightarrow> Ok t
      | Some v \<Rightarrow> (case as_float v of
          None \<Rightarrow> Err ''value for field 'time' must be a number''
        | Some x \<Rightarrow> result_bind (checkTime now (int64_of_float x)) (\<lambda>txTime. Ok (t\<lparr>tx_Time := txTime\<rparr>))))"

text \<open>The check of \<open>hertz\<close> reads the field \<open>type\<close>.\<close>

definition Transaction_read_hertz :: "json_map \<Rightarrow> Transaction \<Rightarrow> Transaction result" where
  "Transaction_read_hertz jm t =
     (case jget jm ''hertz'' of None \<Rightarrow> Ok t
      | Some _ \<Rightarrow> (case jget jm ''type'' of
          None \<Rightarrow> Err ''value for field 'hertz' must be a number''
        | Some v \<Rightarrow> (case as_float v of
            None \<Rightarrow> Err ''value for field 'hertz' must be a number''
          | Some x \<Rightarrow> Ok (t\<lparr>tx_Hertz := int64_of_float x\<rparr>))))"

text \<open>The error of the nested receipt is dropped; what it had read until then is kept.\<close>

definition Receipt_Unmarshal_partial :: "json \<Rightarrow> Receipt result" where
  "Receipt_Unmarshal_partial d =
     (case Receipt_UnmarshalJSON Receipt_zero d of
        Ok r \<Rightarrow> Ok r
      | Panic e \<Rightarrow> Panic e
      | Err e \<Rightarrow>
          (case json_Unmarshal_map d of
             Ok jm \<Rightarrow> Receipt_UnmarshalJSON Receipt_zero (JObj (rev (filter (\<lambda>(k, v). k \<noteq> ''created'') jm)))
           | _ \<Rightarrow> Ok Receipt_zero))"

definition Transaction_read_receipt :: "json_map \<Rightarrow> Transaction \<Rightarrow> Transaction result" where
  "Transaction_read_receipt jm t =
     (case jget jm ''receipt'' of None \<Rightarrow> Ok t
      | Some v \<Rightarrow> result_bind (Receipt_Unmarshal_partial v) (\<lambda>r. Ok (t\<lparr>tx_Receipt := r\<rparr>)))"

definition Transaction_UnmarshalJSON :: "int \<Rightarrow> Transaction \<Rightarrow> json \<Rightarrow> Transaction result" where
  "Transaction_UnmarshalJSON now t d =
     result_bind (json_Unmarshal_map d) (\<lambda>jm.
     result_bind (field_check jm ''hash'' ''value for field 'hash' must be a string'' as_string (\<lambda>x t. t\<lparr>tx_Hash := x\<rparr>) t) (\<lambda>t.
     result_bind (field_check jm ''type'' ''value for field 'type' must be a number'' as_float (\<lambda>x t. t\<lparr>tx_Type := byte_of_float x\<rparr>) t) (\<lambda>t.
     result_bind (field_check jm ''from'' ''value for field 'from' must be a string'' as_string (\<lambda>x t. t\<lparr>tx_From := x\<rparr>) t) (\<lambda>t.
     result_bind (field_check jm ''to'' ''value for field 'to' must be a string'' as_string (\<lambda>x t. t\<lparr>tx_To := x\<rparr>) t) (\<lambda>t.
     result_bind (field_check jm ''value'' ''value for field 'value' must be a number'' as_float (\<lambda>x t. t\<lparr>tx_Value := int64_of_float x\<rparr>) t) (\<lambda>t.
     result_bind (field_check jm ''code'' ''value for field 'code' must be a string'' as_string (\<lambda>x t. t\<lparr>tx_Code := x\<rparr>) t) (\<lambda>t.
     result_bind (Transaction_read_abi jm t) (\<lambda>t.
     result_bind (field_check jm ''method'' ''value for field 'method' must be a string'' as_string (\<lambda>x t. t\<lparr>tx_Method := x\<rparr>) t) (\<lambda>t.
     result_bind (field_check jm ''params'' ''value for field 'params' must be an array'' as_array (\<lambda>x t. t\<lparr>tx_Params := x\<rparr>) t) (\<lambda>t.
     result_bind (Transaction_read_time now jm t) (\<lambda>t.
     result_bind (field_check jm ''signature'' ''value for field 'signature' must be a string'' as_string (\<lambda>x t. t\<lparr>tx_Signature := x\<rparr>) t) (\<lambda>t.
     result_bind (Transaction_read_hertz jm t) (\<lambda>t.
     Transaction_read_receipt jm t)))))))))))))"

definition Transaction_MarshalJSON :: "Transaction \<Rightarrow> json result" where
  "Transaction_MarshalJSON t =
     result_bind (Receipt_MarshalJSON (tx_Receipt t)) (\<lambda>receipt.
     result_bind (result_map Rumor_MarshalJSON (tx_Gossip t)) (\<lambda>gossip.
     Ok (JObj ([(''hash'', JStr (tx_Hash t)), (''type'', JNum (tx_Type t)), (''from'', JStr (tx_From t))] @
               omit_str ''to'' (tx_To t) @ omit_num ''value'' (tx_Value t) @ omit_str ''code'' (tx_Code t) @
               omit_str ''abi'' (tx_Abi t) @ omit_str ''method'' (tx_Method t) @ omit_arr ''params'' (tx_Params t) @
               [(''time'', JNum (tx_Time t)), (''signature'', JStr (tx_Signature t)), (''hertz'', JNum (tx_Hertz t)),
                (''receipt'', receipt)] @
               omit_arr ''gossip'' gossip @ omit_str ''fromName'' (tx_FromName t) @ omit_str ''toName'' (tx_ToName t)))))"

definition Transaction_String :: "Transaction \<Rightarrow> payload" where
  "Transaction_String t = json_String (Transaction_MarshalJSON t)"

definition ToTransactionFromJson :: "int \<Rightarrow> payload \<Rightarrow> Transaction result" where
  "ToTransactionFromJson now p = json_Unmarshal (Transaction_UnmarshalJSON now Transaction_zero) p"

definition Transaction_Equals :: "Transaction \<Rightarrow> string \<Rightarrow> bool" where
  "Transaction_Equals t other \<longleftrightarrow> tx_Hash t = other"

subsection \<open>account.go, endpoint.go, authentication.go, page.go, response.go\<close>

text \<open>The balance is a \<open>*big.Int\<close>, \<open>None\<close> when the pointer is nil.\<close>

record Account =
  a_Address :: string
  a_PrivateKey :: string
  a_Name :: string
  a_Balance :: "int option"
  a_TransactionHash :: string
  a_Updated :: int
  a_Created :: int
  a_Nonce :: int
  a_Root :: "byte list"
  a_CodeHash :: "byte list"

definition Account_zero :: Account where
  "Account_zero = \<lparr>a_Address = [], a_PrivateKey = [], a_Name = [], a_Balance = None, a_TransactionHash = [],
     a_Updated = zero_time, a_Created = zero_time, a_Nonce = 0, a_Root = replicate HashLength 0, a_CodeHash = []\<rparr>"

definition char_lower :: "char \<Rightarrow> char" where
  "char_lower c = (let n = of_char c :: nat in if 65 \<le> n \<and> n \<le> 90 then char_of (n + 32) else c)"

definition ToLower :: "string \<Rightarrow> string" where
  "ToLower s = map char_lower s"

definition Account_Key :: "Account \<Rightarrow> string" where
  "Account_Key a = ''table-account-'' @ a_Address a"

definition Account_NameKey :: "Account \<Rightarrow> string" where
  "Account_NameKey a = ''key-account-name-'' @ ToLower (a_Name a)"

definition Account_UnmarshalJSON :: "Account \<Rightarrow> json \<Rightarrow> Account result" where
  "Account_UnmarshalJSON a d =
     result_bind (json_Unmarshal_map d) (\<lambda>jm.
     result_bind (field_panic jm ''address'' as_string (\<lambda>x a. a\<lparr>a_Address := x\<rparr>) a) (\<lambda>a.
     result_bind (field_panic jm ''privateKey'' as_string (\<lambda>x a. a\<lparr>a_PrivateKey := x\<rparr>) a) (\<lambda>a.
     result_bind (field_panic jm ''name'' as_string (\<lambda>x a. a\<lparr>a_Name := x\<rparr>) a) (\<lambda>a.
     result_bind (field_panic jm ''balance'' as_float (\<lambda>x a. a\<lparr>a_Balance := Some (int64_of_float x)\<rparr>) a) (\<lambda>a.
     result_bind (field_panic jm ''transactionHash'' as_string (\<lambda>x a. a\<lparr>a_TransactionHash := x\<rparr>) a) (\<lambda>a.
     result_bind (field_time jm ''updated'' (\<lambda>x a. a\<lparr>a_Updated := x\<rparr>) a) (\<lambda>a.
     result_bind (field_time jm ''created'' (\<lambda>x a. a\<lparr>a_Created := x\<rparr>) a) (\<lambda>a.
     field_panic jm ''nonce'' as_float (\<lambda>x a. a\<lparr>a_Nonce := uint64_of_float x\<rparr>) a))))))))"

definition Account_MarshalJSON :: "Account \<Rightarrow> json result" where
  "Account_MarshalJSON a =
     (case a_Balance a of
        None \<Rightarrow> Panic ''nil pointer dereference''
      | Some b \<Rightarrow>
          result_bind (time_Marshal (a_Updated a)) (\<lambda>updated.
          result_bind (time_Marshal (a_Created a)) (\<lambda>created.
          Ok (JObj ([(''address'', JStr (a_Address a))] @ omit_str ''privateKey'' (a_PrivateKey a) @
                    [(''name'', JStr (a_Name a)), (''balance'', JNum (big_Int64 b))] @
                    omit_str ''transactionHash'' (a_TransactionHash a) @
                    [(''updated'', updated), (''created'', created), (''nonce'', JNum (a_Nonce a))])))))"

text \<open>A nil balance panics in \<open>MarshalJSON\<close>; \<open>json.Marshal\<close> does not catch run-time panics.\<close>

definition Account_String :: "Account \<Rightarrow> payload result" where
  "Account_String a =
     (case Account_MarshalJSON a of Panic e \<Rightarrow> Panic e | r \<Rightarrow> Ok (json_String r))"

definition ToAccountFromJson :: "payload \<Rightarrow> Account result" where
  "ToAccountFromJson p = json_Unmarshal (Account_UnmarshalJSON Account_zero) p"

record Endpoint =
  e_Host :: string
  e_Port :: int

definition Endpoint_UnmarshalJSON :: "Endpoint \<Rightarrow> json \<Rightarrow> Endpoint result" where
  "Endpoint_UnmarshalJSON e d =
     result_bind (json_Unmarshal_map d) (\<lambda>jm.
     result_bind (field_panic jm ''host'' as_string (\<lambda>x e. e\<lparr>e_Host := x\<rparr>) e) (\<lambda>e.
     field_panic jm ''port'' as_float (\<lambda>x e. e\<lparr>e_Port := int64_of_float x\<rparr>) e))"

definition Endpoint_MarshalJSON :: "Endpoint \<Rightarrow> json result" where
  "Endpoint_MarshalJSON e = Ok (JObj [(''host'', JStr (e_Host e)), (''port'', JNum (e_Port e))])"

definition Endpoint_String :: "Endpoint \<Rightarrow> payload" where
  "Endpoint_String e = json_String (Endpoint_MarshalJSON e)"

record Authentication =
  au_Address :: string
  au_Hash :: string
  au_Time :: int
  au_Signature :: string

definition Authentication_zero :: Authentication where
  "Authentication_zero = \<lparr>au_Address = [], au_Hash = [], au_Time = 0, au_Signature = []\<rparr>"

definition Authentication_UnmarshalJSON :: "Authentication \<Rightarrow> json \<Rightarrow> Authentication result" where
  "Authentication_UnmarshalJSON a d =
     result_bind (json_Unmarshal_map d) (\<lambda>jm.
     result_bind (field_check jm ''hash'' ''value for field 'hash' must be a string'' as_string (\<lambda>x a. a\<lparr>au_Hash := x\<rparr>) a) (\<lambda>a.
     result_bind (field_check jm ''time'' ''value for field 'time' must be a number'' as_float (\<lambda>x a. a\<lparr>au_Time := int64_of_float x\<rparr>) a) (\<lambda>a.
     field_check jm ''signature'' ''value for field 'signature' must be a string'' as_string (\<lambda>x a. a\<lparr>au_Signature := x\<rparr>) a)))"

definition Authentication_MarshalJSON :: "Authentication \<Rightarrow> json result" where
  "Authentication_MarshalJSON a =
     Ok (JObj [(''address'', JStr (au_Address a)), (''hash'', JStr (au_Hash a)), (''time'', JNum (au_Time a)),
               (''signature'', JStr (au_Signature a))])"

definition Authentication_String :: "Authentication \<Rightarrow> payload" where
  "Authentication_String a = json_String (Authentication_MarshalJSON a)"

definition Authentication_Key :: "Authentication \<Rightarrow> string" where
  "Authentication_Key a = ''table-authentication-'' @ au_Hash a"

record Page =
  p_Hash :: string
  p_Number :: int
  p_TransactionsHash :: string
  p_ReceiptsHash :: string
  p_StateHash :: string
  p_BWused :: int
  p_Created :: int

definition Page_zero :: Page where
  "Page_zero = \<lparr>p_Hash = [], p_Number = 0, p_TransactionsHash = [], p_ReceiptsHash = [], p_StateHash = [],
     p_BWused = 0, p_Created = zero_time\<rparr>"

definition Page_Key :: "Page \<Rightarrow> string" where
  "Page_Key p = ''Page-'' @ fmt_d (p_Number p)"

definition Page_UnmarshalJSON :: "Page \<Rightarrow> json \<Rightarrow> Page result" where
  "Page_UnmarshalJSON p d =
     result_bind (json_Unmarshal_map d) (\<lambda>jm.
     result_bind (field_panic jm ''hash'' as_string (\<lambda>x p. p\<lparr>p_Hash := x\<rparr>) p) (\<lambda>p.
     result_bind (field_panic jm ''number'' as_float (\<lambda>x p. p\<lparr>p_Number := int64_of_float x\<rparr>) p) (\<lambda>p.
     result_bind (field_panic jm ''transactionsHash'' as_string (\<lambda>x p. p\<lparr>p_TransactionsHash := x\<rparr>) p) (\<lambda>p.
     result_bind (field_panic jm ''receiptsHash'' as_string (\<lambda>x p. p\<lparr>p_ReceiptsHash := x\<rparr>) p) (\<lambda>p.
     result_bind (field_panic jm ''stateHash'' as_string (\<lambda>x p. p\<lparr>p_StateHash := x\<rparr>) p) (\<lambda>p.
     result_bind (field_panic jm ''bwUsed'' as_float (\<lambda>x p. p\<lparr>p_BWused := int64_of_float x\<rparr>) p) (\<lambda>p.
     field_time jm ''created'' (\<lambda>x p. p\<lparr>p_Created := x\<rparr>) p)))))))"

definition Page_MarshalJSON :: "Page \<Rightarrow> json result" where
  "Page_MarshalJSON p =
     result_bind (time_Marshal (p_Created p)) (\<lambda>created.
     Ok (JObj [(''hash'', JStr (p_Hash p)), (''number'', JNum (p_Number p)),
               (''transactionsHash'', JStr (p_TransactionsHash p)), (''receiptsHash'', JStr (p_ReceiptsHash p)),
               (''stateHash'', JStr (p_StateHash p)), (''bwUsed'', JNum (p_BWused p)), (''created'', created)]))"

definition Page_String :: "Page \<Rightarrow> payload" where
  "Page_String p = json_String (Page_MarshalJSON p)"

definition ToPageFromJson :: "payload \<Rightarrow> Page result" where
  "ToPageFromJson p = json_Unmarshal (Page_UnmarshalJSON Page_zero) p"

text \<open>The \<open>Data\<close> of a response is an \<open>interface{}\<close>: the type parameter says what a handler puts there.\<close>

record PagingResult =
  Count :: int
  PageStart :: string

record 'd Response =
  rs_Status :: string
  rs_HumanReadableStatus :: string
  rs_Data :: "'d option"
  rs_Created :: int
  rs_Paging :: "PagingResult option"

definition NewResponse :: "int \<Rightarrow> 'd Response" where
  "NewResponse now = \<lparr>rs_Status = StatusOk, rs_HumanReadableStatus = ''Ok'', rs_Data = None,
     rs_Created = now, rs_Paging = None\<rparr>"

definition NewResponseWithError :: "int \<Rightarrow> string \<Rightarrow> 'd Response" where
  "NewResponseWithError now err = \<lparr>rs_Status = StatusInternalError, rs_HumanReadableStatus = err,
     rs_Data = None, rs_Created = now, rs_Paging = None\<rparr>"

definition NewResponseWithStatus :: "int \<Rightarrow> string \<Rightarrow> string \<Rightarrow> 'd Response" where
  "NewResponseWithStatus now status humanReadableStatus = \<lparr>rs_Status = status,
     rs_HumanReadableStatus = humanReadableStatus, rs_Data = None, rs_Created = now, rs_Paging = None\<rparr>"

subsection \<open>gossip.go and node.go: structs without JSON methods\<close>

fun struct_fields :: "(string \<Rightarrow> json \<Rightarrow> 'r \<Rightarrow> 'r result) \<Rightarrow> (string \<times> json) list \<Rightarrow> 'r \<Rightarrow> 'r result" where
  "struct_fields h [] r = Ok r"
| "struct_fields h ((k, v) # kvs) r =
     (case h (ToLower k) v r of
        Ok r' \<Rightarrow> struct_fields h kvs r'
      | Panic e \<Rightarrow> Panic e
      | Err e \<Rightarrow> (case struct_fields h kvs r of Panic e' \<Rightarrow> Panic e' | _ \<Rightarrow> Err e))"

definition json_struct :: "(string \<Rightarrow> json \<Rightarrow> 'r \<Rightarrow> 'r result) \<Rightarrow> 'r \<Rightarrow> json \<Rightarrow> 'r result" where
  "json_struct h r d =
     (case d of JNull \<Rightarrow> Ok r | JObj kvs \<Rightarrow> struct_fields h kvs r
      | _ \<Rightarrow> Err ''json: cannot unmarshal into Go value'')"

definition json_str_field :: "(string \<Rightarrow> 'r \<Rightarrow> 'r) \<Rightarrow> json \<Rightarrow> 'r \<Rightarrow> 'r result" where
  "json_str_field upd v r =
     (if v = JNull then Ok r
      else case as_string v of Some s \<Rightarrow> Ok (upd s r) | None \<Rightarrow> Err ''json: cannot unmarshal into Go struct field'')"

record Gossip =
  g_Transaction :: Transaction
  g_Rumors :: "Rumor list"

definition Gossip_zero :: Gossip where
  "Gossip_zero = \<lparr>g_Transaction = Transaction_zero, g_Rumors = []\<rparr>"

definition Gossip_Key :: "Gossip \<Rightarrow> string" where
  "Gossip_Key g = ''table-gossip-'' @ tx_Hash (g_Transaction g)"

definition Gossip_RumorKey :: "string \<Rightarrow> string" where
  "Gossip_RumorKey txHash = ''cache-rumor-'' @ txHash"

definition Gossip_field :: "int \<Rightarrow> string \<Rightarrow> json \<Rightarrow> Gossip \<Rightarrow> Gossip result" where
  "Gossip_field now k v g =
     (if k = ''transaction'' then
        result_bind (Transaction_UnmarshalJSON now (g_Transaction g) v) (\<lambda>t. Ok (g\<lparr>g_Transaction := t\<rparr>))
      else if k = ''rumors'' then result_bind (Rumors_Unmarshal v) (\<lambda>rs. Ok (g\<lparr>g_Rumors := rs\<rparr>))
      else Ok g)"

definition Gossip_Marshal :: "Gossip \<Rightarrow> json result" where
  "Gossip_Marshal g =
     result_bind (Transaction_MarshalJSON (g_Transaction g)) (\<lambda>t.
     result_bind (result_map Rumor_MarshalJSON (g_Rumors g)) (\<lambda>rs.
     Ok (JObj [(''Transaction'', t), (''Rumors'', JArr rs)])))"

definition Gossip_String :: "Gossip \<Rightarrow> payload" where
  "Gossip_String g = json_String (Gossip_Marshal g)"

definition ToJsonByGossip :: "Gossip \<Rightarrow> payload result" where
  "ToJsonByGossip g = result_bind (Gossip_Marshal g) (\<lambda>d. Ok (Doc d))"

definition ToGossipFromJson :: "int \<Rightarrow> payload \<Rightarrow> Gossip result" where
  "ToGossipFromJson now p = json_Unmarshal (json_struct (Gossip_field now) Gossip_zero) p"

definition NewGossip :: "Transaction \<Rightarrow> Gossip" where
  "NewGossip t = \<lparr>g_Transaction = t, g_Rumors = []\<rparr>"

definition Gossip_ContainsRumor :: "Gossip \<Rightarrow> string \<Rightarrow> bool" where
  "Gossip_ContainsRumor g address \<longleftrightarrow> list_ex (\<lambda>r. r_Address r = address) (g_Rumors g)"

record Node =
  n_Address :: string
  n_GrpcEndpoint :: "Endpoint option"
  n_HttpEndpoint :: "Endpoint option"
  n_Type :: string
  n_Status :: string
  n_StatusTime :: int

definition Node_zero :: Node where
  "Node_zero = \<lparr>n_Address = [], n_GrpcEndpoint = None, n_HttpEndpoint = None, n_Type = [], n_Status = [],
     n_StatusTime = zero_time\<rparr>"

text \<open>
  \<open>time.Now().Sub(t)\<close> saturates at the \<open>int64\<close> range; \<open>delta.Seconds() < 5e9\<close> compares the quotient by
  \<open>1e9\<close>, so it holds when \<open>delta < 5e9 * 1e9\<close>.
\<close>

definition time_Sub :: "int \<Rightarrow> int \<Rightarrow> int" where
  "time_Sub t u = max (- (2 ^ 63)) (min (2 ^ 63 - 1) (t - u))"

definition Node_IsAvailable :: "int \<Rightarrow> Node \<Rightarrow> bool" where
  "Node_IsAvailable now n \<longleftrightarrow>
     \<not> (n_Status n = StatusNodeUnavailable \<and>
        time_Sub now (n_StatusTime n) < UnavailableNodeTimeout * Second)"

definition Node_Key :: "Node \<Rightarrow> string" where
  "Node_Key n = ''table-node-'' @ n_Address n"

definition Node_TypeKey :: "Node \<Rightarrow> string" where
  "Node_TypeKey n = ''key-node-type-'' @ n_Type n @ ''-'' @ n_Address n"

definition json_endpoint :: "Endpoint option \<Rightarrow> json \<Rightarrow> Endpoint option result" where
  "json_endpoint e v =
     (if v = JNull then Ok None
      else result_bind (Endpoint_UnmarshalJSON (case e of Some e \<Rightarrow> e | None \<Rightarrow> \<lparr>e_Host = [], e_Port = 0\<rparr>) v)
             (\<lambda>e. Ok (Some e)))"

definition Node_field :: "string \<Rightarrow> json \<Rightarrow> Node \<Rightarrow> Node result" where
  "Node_field k v n =
     (if k = ''address'' then json_str_field (\<lambda>x n. n\<lparr>n_Address := x\<rparr>) v n
      else if k = ''grpcendpoint'' then
        result_bind (json_endpoint (n_GrpcEndpoint n) v) (\<lambda>e. Ok (n\<lparr>n_GrpcEndpoint := e\<rparr>))
      else if k = ''httpendpoint'' then
        result_bind (json_endpoint (n_HttpEndpoint n) v) (\<lambda>e. Ok (n\<lparr>n_HttpEndpoint := e\<rparr>))
      else if k = ''type'' then json_str_field (\<lambda>x n. n\<lparr>n_Type := x\<rparr>) v n
      else if k = ''status'' then json_str_field (\<lambda>x n. n\<lparr>n_Status := x\<rparr>) v n
      else if k = ''statustime'' then
        (case v of JNull \<Rightarrow> Ok n | JTime t \<Rightarrow> Ok (n\<lparr>n_StatusTime := t\<rparr>) | _ \<Rightarrow> Err ''parsing time'')
      else Ok n)"

definition endpoint_Marshal :: "Endpoint option \<Rightarrow> json result" where
  "endpoint_Marshal e = (case e of None \<Rightarrow> Ok JNull | Some e \<Rightarrow> Endpoint_MarshalJSON e)"

definition Node_Marshal :: "Node \<Rightarrow> json result" where
  "Node_Marshal n =
     result_bind (endpoint_Marshal (n_GrpcEndpoint n)) (\<lambda>ge.
     result_bind (endpoint_Marshal (n_HttpEndpoint n)) (\<lambda>he.
     result_bind (time_Marshal (n_StatusTime n)) (\<lambda>st.
     Ok (JObj ([(''address'', JStr (n_Address n)), (''grpcEndpoint'', ge), (''httpEndpoint'', he)] @
               omit_str ''type'' (n_Type n) @ omit_str ''status'' (n_Status n) @ [(''statusTime'', st)])))))"

definition Node_String :: "Node \<Rightarrow> payload" where
  "Node_String n = json_String (Node_Marshal n)"

definition ToNodeFromJson :: "payload \<Rightarrow> Node result" where
  "ToNodeFromJson p = json_Unmarshal (json_struct Node_field Node_zero) p"

subsection \<open>Round trips through JSON\<close>

text \<open>
  \<open>tx_storable\<close>: the numbers of the transaction fit a \<open>float64\<close>, its time passes \<open>checkTime\<close> when it is read,
  and its receipt can be marshalled. \<open>tx_read_back\<close> is what the reader makes of it: \<open>hertz\<close> is read from the
  field \<open>type\<close>, and the transient fields are not read.
\<close>

definition tx_storable :: "int \<Rightarrow> Transaction \<Rightarrow> bool" where
  "tx_storable now t \<longleftrightarrow>
     0 \<le> tx_Type t \<and> tx_Type t < 256 \<and> \<bar>tx_Value t\<bar> \<le> 2 ^ 53 \<and> tx_Time t \<le> 2 ^ 53 \<and>
     0 \<le> tx_Time t \<and> tx_Time t \<le> ToMilliSeconds (now + TxFutureLimit) \<and>
     map json_value (tx_Params t) = tx_Params t \<and> time_ok (rc_Created (tx_Receipt t)) \<and>
     map json_value (rc_ContractResult (tx_Receipt t)) = rc_ContractResult (tx_Receipt t)"

definition tx_read_back :: "Transaction \<Rightarrow> Transaction" where
  "tx_read_back t = t\<lparr>tx_Hertz := tx_Type t, tx_Gossip := [], tx_FromName := [], tx_ToName := []\<rparr>"

lemma Rumor_roundtrip:
  "ToRumorFromJson (Rumor_String r) = Ok (r\<lparr>r_Time := int64_of_float (float64_of (r_Time r))\<rparr>)"
  by (cases r) (simp add: ToRumorFromJson_def Rumor_String_def Rumor_MarshalJSON_def Rumor_UnmarshalJSON_def
      Rumor_zero_def json_read)

lemma Receipt_roundtrip:
  "time_ok (rc_Created r) \<Longrightarrow> ToReceiptFromJson (Receipt_String r) =
     Ok (r\<lparr>rc_ContractResult := map json_value (rc_ContractResult r)\<rparr>)"
  by (cases r) (simp add: ToReceiptFromJson_def Receipt_String_def Receipt_MarshalJSON_def Receipt_UnmarshalJSON_def
      Receipt_zero_def json_read time_Marshal_def)

lemma Account_roundtrip:
  "a_Balance a = Some b \<Longrightarrow> time_ok (a_Updated a) \<Longrightarrow> time_ok (a_Created a) \<Longrightarrow>
   result_bind (Account_String a) ToAccountFromJson =
     Ok (a\<lparr>a_Balance := Some (int64_of_float (float64_of (big_Int64 b))),
           a_Nonce := uint64_of_float (float64_of (a_Nonce a)),
           a_Root := replicate HashLength 0, a_CodeHash := []\<rparr>)"
  by (cases a) (simp add: ToAccountFromJson_def Account_String_def Account_MarshalJSON_def Account_UnmarshalJSON_def
      Account_zero_def json_read time_Marshal_def)

lemma Page_roundtrip:
  "time_ok (p_Created p) \<Longrightarrow> ToPageFromJson (Page_String p) =
     Ok (p\<lparr>p_Number := int64_of_float (float64_of (p_Number p)), p_BWused := int64_of_float (float64_of (p_BWused p))\<rparr>)"
  by (cases p) (simp add: ToPageFromJson_def Page_String_def Page_MarshalJSON_def Page_UnmarshalJSON_def
      Page_zero_def json_read time_Marshal_def)

lemma Receipt_partial_marshalled:
  assumes "Receipt_MarshalJSON r = Ok d"
  shows "Receipt_Unmarshal_partial (json_value d) = Ok (r\<lparr>rc_ContractResult := map json_value (rc_ContractResult r)\<rparr>)"
proof -
  have "time_ok (rc_Created r)" using assms by (simp add: Receipt_MarshalJSON_def time_Marshal_def split: if_splits)
  then have "Receipt_UnmarshalJSON Receipt_zero d = Ok (r\<lparr>rc_ContractResult := map json_value (rc_ContractResult r)\<rparr>)"
    using Receipt_roundtrip [of r] assms
    by (simp add: ToReceiptFromJson_def Receipt_String_def json_String_def json_Unmarshal_def)
  moreover have "Receipt_UnmarshalJSON r0 (json_value d') = Receipt_UnmarshalJSON r0 d'" for r0 d'
    by (simp add: Receipt_UnmarshalJSON_def)
  ultimately show ?thesis by (simp add: Receipt_Unmarshal_partial_def)
qed

lemma Rumor_MarshalJSON_Ok: "\<exists>ds. result_map Rumor_MarshalJSON rs = Ok ds \<and> length ds = length rs"
  by (induction rs) (auto simp: Rumor_MarshalJSON_def)

lemma Transaction_Unmarshal_Marshal:
  assumes "time_ok (rc_Created (tx_Receipt t))" "0 \<le> tx_Type t" "tx_Type t < 256"
    and "checkTime now (int64_of_float (float64_of (tx_Time t))) = Ok (int64_of_float (float64_of (tx_Time t)))"
  shows "\<exists>d. Transaction_MarshalJSON t = Ok d \<and> Transaction_UnmarshalJSON now Transaction_zero d =
    Ok (t\<lparr>tx_Value := int64_of_float (float64_of (tx_Value t)), tx_Params := map json_value (tx_Params t),
          tx_Time := int64_of_float (float64_of (tx_Time t)), tx_Hertz := tx_Type t,
          tx_Receipt := (tx_Receipt t)\<lparr>rc_ContractResult := map json_value (rc_ContractResult (tx_Receipt t))\<rparr>,
          tx_Gossip := [], tx_FromName := [], tx_ToName := []\<rparr>)"
proof (cases t)
  case (fields ha ty fr to v co ab me pa ti si he rc go fn tn)
  obtain rd where rd: "Receipt_MarshalJSON rc = Ok rd"
    using assms(1) fields by (simp add: Receipt_MarshalJSON_def time_Marshal_def)
  obtain kvs where kvs: "rd = JObj kvs"
    using rd by (auto simp: Receipt_MarshalJSON_def time_Marshal_def split: if_splits)
  obtain gs where gs: "result_map Rumor_MarshalJSON go = Ok gs"
    using Rumor_MarshalJSON_Ok by blast
  note rp = Receipt_partial_marshalled [OF rd, unfolded kvs, simplified]
  have ty: "float64_of ty = ty" "byte_of_float ty = ty" "int64_of_float ty = ty"
    using assms(2,3) fields by (simp_all add: byte_of_float_def int64_of_float_def is_s64_def)
  have ti: "checkTime now (int64_of_float (float64_of ti)) = Ok (int64_of_float (float64_of ti))"
    using assms(4) fields by simp
  show ?thesis
    by (simp add: fields Transaction_MarshalJSON_def rd gs Transaction_UnmarshalJSON_def Transaction_read_abi_def
      Transaction_read_time_def Transaction_read_hertz_def Transaction_read_receipt_def json_read
      Transaction_zero_def ty ti rp kvs str_or_empty_def)
qed

lemma Rumors_Unmarshal_Marshal:
  assumes "\<forall>r \<in> set rs. \<bar>r_Time r\<bar> \<le> 2 ^ 53"
  shows "\<exists>ds. result_map Rumor_MarshalJSON rs = Ok ds \<and> Rumors_Unmarshal (JArr ds) = Ok rs"
proof -
  define doc where "doc r = (case Rumor_MarshalJSON r of Ok d \<Rightarrow> d | _ \<Rightarrow> JNull)" for r
  have m: "Rumor_MarshalJSON r = Ok (doc r)" for r by (simp add: doc_def Rumor_MarshalJSON_def)
  have u: "Rumor_UnmarshalJSON Rumor_zero (doc r) = Ok r" if "r \<in> set rs" for r
    using Rumor_roundtrip [of r] m [of r] assms that
    by (simp add: ToRumorFromJson_def Rumor_String_def json_String_def json_Unmarshal_def int64_of_float64_exact)
  have "result_map Rumor_MarshalJSON rs = Ok (map doc rs)" by (rule result_map_Ok) (simp add: m)
  moreover have "result_map (Rumor_UnmarshalJSON Rumor_zero) (map doc rs) = Ok rs"
    using u by (induction rs) simp_all
  ultimately show ?thesis by (simp add: Rumors_Unmarshal_def)
qed

lemma Transaction_Marshal_storable:
  assumes "tx_storable now t"
  shows "\<exists>d. Transaction_MarshalJSON t = Ok d \<and>
             Transaction_UnmarshalJSON now Transaction_zero d = Ok (tx_read_back t)"
proof -
  have n: "int64_of_float (float64_of (tx_Value t)) = tx_Value t"
          "int64_of_float (float64_of (tx_Time t)) = tx_Time t"
    using assms by (simp_all add: tx_storable_def int64_of_float64_exact)
  have "checkTime now (tx_Time t) = Ok (tx_Time t)"
    using assms by (simp add: tx_storable_def checkTime_def)
  then show ?thesis
    using Transaction_Unmarshal_Marshal [of t now] assms unfolding n
    by (simp add: tx_storable_def tx_read_back_def)
qed

lemma Transaction_roundtrip:
  assumes "tx_storable now t"
  shows "ToTransactionFromJson now (Transaction_String t) = Ok (tx_read_back t)"
  using Transaction_Marshal_storable [OF assms]
  by (auto simp: ToTransactionFromJson_def Transaction_String_def json_String_def json_Unmarshal_def)

lemma Gossip_roundtrip:
  assumes "tx_storable now (g_Transaction g)" "\<forall>r \<in> set (g_Rumors g). \<bar>r_Time r\<bar> \<le> 2 ^ 53"
  shows "ToGossipFromJson now (Gossip_String g) = Ok (g\<lparr>g_Transaction := tx_read_back (g_Transaction g)\<rparr>)"
proof -
  obtain d where d: "Transaction_MarshalJSON (g_Transaction g) = Ok d"
      "Transaction_UnmarshalJSON now Transaction_zero d = Ok (tx_read_back (g_Transaction g))"
    using Transaction_Marshal_storable [OF assms(1)] by blast
  obtain ds where ds: "result_map Rumor_MarshalJSON (g_Rumors g) = Ok ds" "Rumors_Unmarshal (JArr ds) = Ok (g_Rumors g)"
    using Rumors_Unmarshal_Marshal [OF assms(2)] by blast
  have lower: "ToLower ''Transaction'' = ''transaction''" "ToLower ''Rumors'' = ''rumors''"
    by code_simp+
  show ?thesis
    by (simp add: ToGossipFromJson_def Gossip_String_def Gossip_Marshal_def json_String_def json_Unmarshal_def
        json_struct_def d ds lower Gossip_field_def Gossip_zero_def)
qed

lemma Node_roundtrip:
  assumes "time_ok (n_StatusTime n)"
    and "\<forall>e. n_GrpcEndpoint n = Some e \<longrightarrow> \<bar>e_Port e\<bar> \<le> 2 ^ 53"
    and "\<forall>e. n_HttpEndpoint n = Some e \<longrightarrow> \<bar>e_Port e\<bar> \<le> 2 ^ 53"
  shows "ToNodeFromJson (Node_String n) = Ok n"
proof (cases n)
  case (fields ad ge he ty st ti)
  have ep: "\<exists>d. endpoint_Marshal x = Ok d \<and> json_endpoint None d = Ok x"
    if "\<forall>e. x = Some e \<longrightarrow> \<bar>e_Port e\<bar> \<le> 2 ^ 53" for x
    using that by (cases x; cases "the x")
      (auto simp: endpoint_Marshal_def json_endpoint_def Endpoint_MarshalJSON_def Endpoint_UnmarshalJSON_def
        json_read int64_of_float64_exact)
  obtain d1 where d1: "endpoint_Marshal ge = Ok d1" "json_endpoint None d1 = Ok ge"
    using ep [of ge] assms(2) fields by auto
  obtain d2 where d2: "endpoint_Marshal he = Ok d2" "json_endpoint None d2 = Ok he"
    using ep [of he] assms(3) fields by auto
  have lower: "ToLower ''address'' = ''address''" "ToLower ''grpcEndpoint'' = ''grpcendpoint''"
    "ToLower ''httpEndpoint'' = ''httpendpoint''" "ToLower ''type'' = ''type''" "ToLower ''status'' = ''status''"
    "ToLower ''statusTime'' = ''statustime''"
    by code_simp+
  show ?thesis
    using assms(1)
    by (simp add: fields ToNodeFromJson_def Node_String_def Node_Marshal_def json_String_def json_Unmarshal_def
        time_Marshal_def json_struct_def d1 d2 lower Node_field_def Node_zero_def omit_str_def
        json_str_field_def as_string_def)
qed

subsection \<open>What storing and reading back does\<close>

definition stored_tx :: Transaction where
  "stored_tx = Transaction_zero\<lparr>tx_Hash := ''ab'', tx_Type := 1, tx_Value := 7, tx_Hertz := 9, tx_Time := 5,
     tx_Params := [JStr ''x'']\<rparr>"

text \<open>
  A gossip whose numbers fit 53 bits is read back from the database exactly, rumors included, except that the
  hertz of its transaction is read from the field \<open>type\<close> and its transient fields are empty.
\<close>
theorem gossip_stored_and_read:
  assumes "tx_storable now (g_Transaction g)" and "list_all (\<lambda>r. \<bar>r_Time r\<bar> \<le> 2 ^ 53) (g_Rumors g)"
  shows "ToGossipFromJson now (Gossip_String g) = Ok (g\<lparr>g_Transaction := (g_Transaction g)
           \<lparr>tx_Hertz := tx_Type (g_Transaction g), tx_Gossip := [], tx_FromName := [], tx_ToName := []\<rparr>\<rparr>)"
  using Gossip_roundtrip [OF assms(1)] assms(2) by (simp add: list_all_iff tx_read_back_def)

theorem gossip_stored_and_read_witness:
  "ToGossipFromJson 0 (Gossip_String \<lparr>g_Transaction = stored_tx, g_Rumors = [\<lparr>r_Hash = ''r'', r_Address = ''d'',
       r_TransactionHash = ''ab'', r_Time = 3, r_Signature = ''s''\<rparr>]\<rparr>) =
     Ok \<lparr>g_Transaction = stored_tx\<lparr>tx_Hertz := 1\<rparr>, g_Rumors = [\<lparr>r_Hash = ''r'', r_Address = ''d'',
       r_TransactionHash = ''ab'', r_Time = 3, r_Signature = ''s''\<rparr>]\<rparr>"
proof -
  let ?g = "\<lparr>g_Transaction = stored_tx, g_Rumors = [\<lparr>r_Hash = ''r'', r_Address = ''d'',
       r_TransactionHash = ''ab'', r_Time = 3, r_Signature = ''s''\<rparr>]\<rparr>"
  have "tx_storable 0 (g_Transaction ?g)" by code_simp
  from gossip_stored_and_read [OF this] show ?thesis by (simp add: stored_tx_def Transaction_zero_def)
qed

text \<open>
  A stored account comes back with its balance and nonce passed through a \<open>float64\<close>, so a balance above
  \<open>2^53\<close> may change; up to \<open>2^53\<close> it is exact. Root and code hash are not stored.
\<close>
theorem account_stored_and_read:
  "case a_Balance a of
     None \<Rightarrow> Account_String a = Panic ''nil pointer dereference''
   | Some b \<Rightarrow> (if time_ok (a_Updated a) \<and> time_ok (a_Created a)
       then result_bind (Account_String a) ToAccountFromJson =
         Ok (a\<lparr>a_Balance := Some (if 0 \<le> b \<and> b \<le> 2 ^ 53 then b else int64_of_float (float64_of (big_Int64 b))),
               a_Nonce := uint64_of_float (float64_of (a_Nonce a)),
               a_Root := replicate HashLength 0, a_CodeHash := []\<rparr>)
       else True)"
proof (cases "a_Balance a")
  case (Some b)
  have "int64_of_float (float64_of (big_Int64 b)) = b" if "0 \<le> b" "b \<le> 2 ^ 53"
    using that by (simp add: big_Int64_def is_s64_def int64_of_float64_exact)
  with Some show ?thesis by (simp add: Account_roundtrip)
qed (simp add: Account_String_def Account_MarshalJSON_def)

end
