(* ===== verification/Signing.thy ===== *)
theory Signing
  imports Types
begin

section \<open>Hashes and signatures of transactions, rumors and authentications\<close>

text \<open>
  The methods of \<open>transaction.go\<close>, \<open>rumor.go\<close> and \<open>authentication.go\<close> that hash, sign and verify. The hash
  function and the C library are the parameter \<open>C\<close> of type \<open>crypto\<close>; \<open>now\<close> is the time of a \<open>time.Now()\<close>.
  A Go \<open>error\<close> result with no other value is \<open>unit result\<close>; a nil pointer is \<open>None\<close>.
\<close>

subsection \<open>transaction.go\<close>

definition Transaction_NewHash :: "crypto \<Rightarrow> Transaction \<Rightarrow> string result" where
  "Transaction_NewHash C t =
     (case hex_DecodeString (tx_From t) of None \<Rightarrow> Err ''encoding/hex''
      | Some fromBytes \<Rightarrow> (case hex_DecodeString (tx_To t) of None \<Rightarrow> Err ''encoding/hex''
      | Some toBytes \<Rightarrow> (case hex_DecodeString (tx_Code t) of None \<Rightarrow> Err ''encoding/hex''
      | Some codeBytes \<Rightarrow>
          let buffer = [byte_of (nat (tx_Type t))] @ fromBytes @ toBytes @ int64_LittleEndian (tx_Value t) @
                       codeBytes @ string_bytes (tx_Method t) @ int64_LittleEndian (tx_Time t)
          in Ok (hex_EncodeToString (crypto_NewHash C buffer)))))"

definition Transaction_NewSignature :: "crypto \<Rightarrow> Transaction \<Rightarrow> string \<Rightarrow> string result" where
  "Transaction_NewSignature C t privateKey =
     (case hex_DecodeString (tx_Hash t) of None \<Rightarrow> Err ''encoding/hex''
      | Some hashBytes \<Rightarrow> (case hex_DecodeString privateKey of None \<Rightarrow> Err ''encoding/hex''
      | Some privateKeyBytes \<Rightarrow>
          result_bind (crypto_NewSignature C privateKeyBytes hashBytes) (\<lambda>signatureBytes.
          Ok (hex_EncodeToString signatureBytes))))"

definition Transaction_Verify_type :: "Transaction \<Rightarrow> unit result" where
  "Transaction_Verify_type t =
     (if tx_Type t = TypeTransferTokens then
        (if length (tx_To t) \<noteq> AddressLength * 2 then Err ''invalid to address''
         else if tx_Value t \<le> 0 then Err ''value cannot be less than or equal to zero''
         else Ok ())
      else if tx_Type t = TypeDeploySmartContract then
        (if length (tx_To t) \<noteq> 0 then Err ''to address must be blank for a deployment of a smart contract''
         else if length (tx_Code t) = 0 then Err ''invalid code''
         else if length (tx_Abi t) = 0 then Err ''invalid abi''
         else Ok ())
      else if tx_Type t = TypeExecuteSmartContract then
        (if length (tx_To t) \<noteq> AddressLength * 2 then Err ''invalid to address'' else Ok ())
      else Ok ())"

definition Transaction_Verify :: "crypto \<Rightarrow> Transaction \<Rightarrow> unit result" where
  "Transaction_Verify C t =
     (if length (tx_Hash t) \<noteq> HashLength * 2 then Err ''invalid hash''
      else if length (tx_From t) \<noteq> AddressLength * 2 then Err ''invalid from address''
      else if length (tx_Signature t) \<noteq> SignatureLength * 2 then Err ''invalid signature''
      else if tx_From t = tx_To t then Err ''from address cannot equal to address''
      else result_bind (Transaction_Verify_type t) (\<lambda>_.
        case Transaction_NewHash C t of
          Ok hash \<Rightarrow>
            (if tx_Hash t \<noteq> hash then Err ''invalid hash''
             else case hex_DecodeString (tx_Hash t) of None \<Rightarrow> Err ''unable to decode hash''
             | Some hashBytes \<Rightarrow> (case hex_DecodeString (tx_Signature t) of None \<Rightarrow> Err ''unable to decode signature''
             | Some signatureBytes \<Rightarrow> (case ToPublicKey C hashBytes signatureBytes of
                 Ok publicKeyBytes \<Rightarrow>
                   (if hex_EncodeToString (ToAddress C publicKeyBytes) \<noteq> tx_From t
                    then Err ''from address does not match the computed address from hash and signature''
                    else if \<not> VerifySignature C publicKeyBytes hashBytes signatureBytes
                    then Err ''invalid signature''
                    else Ok ())
               | _ \<Rightarrow> Err ''unable to generate public key from hash and signature'')))
        | _ \<Rightarrow> Err ''unable to compute hash''))"

text \<open>The last steps the three constructors share: time, hash, signature.\<close>

definition Transaction_seal :: "crypto \<Rightarrow> int \<Rightarrow> string \<Rightarrow> int \<Rightarrow> Transaction \<Rightarrow> Transaction result" where
  "Transaction_seal C now privateKey timeInMiliseconds t =
     result_bind (checkTime now timeInMiliseconds) (\<lambda>time.
     result_bind (Transaction_NewHash C (t\<lparr>tx_Time := time\<rparr>)) (\<lambda>hash.
     result_bind (Transaction_NewSignature C (t\<lparr>tx_Time := time, tx_Hash := hash\<rparr>) privateKey) (\<lambda>signature.
     Ok (t\<lparr>tx_Time := time, tx_Hash := hash, tx_Signature := signature\<rparr>))))"

definition NewTransferTokensTransaction ::
    "crypto \<Rightarrow> int \<Rightarrow> string \<Rightarrow> string \<Rightarrow> string \<Rightarrow> int \<Rightarrow> int \<Rightarrow> int \<Rightarrow> Transaction result" where
  "NewTransferTokensTransaction C now privateKey from to amount hertz timeInMiliseconds =
     Transaction_seal C now privateKey timeInMiliseconds
       (Transaction_zero\<lparr>tx_Type := TypeTransferTokens, tx_From := from, tx_To := to, tx_Value := amount\<rparr>)"

definition NewDeployContractTransaction ::
    "crypto \<Rightarrow> int \<Rightarrow> string \<Rightarrow> string \<Rightarrow> string \<Rightarrow> string \<Rightarrow> int \<Rightarrow> Transaction result" where
  "NewDeployContractTransaction C now privateKey from code abi timeInMiliseconds =
     (if abi = '''' then Err ''cannot have empty abi''
      else if code = '''' then Err ''cannot have empty code''
      else Transaction_seal C now privateKey timeInMiliseconds
        (Transaction_zero\<lparr>tx_Type := TypeDeploySmartContract, tx_From := from, tx_To := '''', tx_Code := code, tx_Abi := abi\<rparr>))"

definition NewExecuteContractTransaction ::
    "crypto \<Rightarrow> int \<Rightarrow> string \<Rightarrow> string \<Rightarrow> string \<Rightarrow> string \<Rightarrow> json list \<Rightarrow> int \<Rightarrow> Transaction result" where
  "NewExecuteContractTransaction C now privateKey from to method params timeInMiliseconds =
     (if method = '''' then Err ''cannot have empty method''
      else Transaction_seal C now privateKey timeInMiliseconds
        (Transaction_zero\<lparr>tx_Type := TypeExecuteSmartContract, tx_From := from, tx_To := to, tx_Method := method,
           tx_Params := params\<rparr>))"

text \<open>\<open>CalculateHash\<close> panics when a field is not hexadecimal.\<close>

definition Transaction_CalculateHash :: "crypto \<Rightarrow> Transaction \<Rightarrow> byte list result" where
  "Transaction_CalculateHash C t =
     (case hex_DecodeString (tx_From t) of None \<Rightarrow> Panic ''unable to decode from''
      | Some from \<Rightarrow> (case hex_DecodeString (tx_To t) of None \<Rightarrow> Panic ''unable to decode to''
      | Some to \<Rightarrow> (case hex_DecodeString (tx_Signature t) of None \<Rightarrow> Panic ''unable to decode signature''
      | Some signature \<Rightarrow>
          Ok (crypto_NewHash C ([byte_of (nat (tx_Type t))] @ from @ to @ int64_BigEndian (tx_Value t) @
                                int64_BigEndian (tx_Time t) @ signature)))))"

subsection \<open>rumor.go\<close>

definition Rumor_NewHash :: "crypto \<Rightarrow> Rumor \<Rightarrow> string" where
  "Rumor_NewHash C r =
     (case hex_DecodeString (r_Address r) of None \<Rightarrow> ''''
      | Some addressBytes \<Rightarrow> (case hex_DecodeString (r_TransactionHash r) of None \<Rightarrow> ''''
      | Some transactionHashBytes \<Rightarrow>
          hex_EncodeToString (crypto_NewHash C
            (addressBytes @ transactionHashBytes @ int64_LittleEndian (r_Time r)))))"

definition Rumor_Verify :: "crypto \<Rightarrow> Rumor \<Rightarrow> bool" where
  "Rumor_Verify C r =
     (if length (r_Hash r) \<noteq> HashLength * 2 then False
      else if length (r_Address r) \<noteq> AddressLength * 2 then False
      else if length (r_TransactionHash r) \<noteq> HashLength * 2 then False
      else if length (r_Signature r) \<noteq> SignatureLength * 2 then False
      else if r_Hash r \<noteq> Rumor_NewHash C r then False
      else case hex_DecodeString (r_Hash r) of None \<Rightarrow> False
      | Some hashBytes \<Rightarrow> (case hex_DecodeString (r_Signature r) of None \<Rightarrow> False
      | Some signatureBytes \<Rightarrow> (case ToPublicKey C hashBytes signatureBytes of
          Ok publicKeyBytes \<Rightarrow>
            (if hex_EncodeToString (ToAddress C publicKeyBytes) \<noteq> r_Address r then False
             else VerifySignature C publicKeyBytes hashBytes signatureBytes)
        | _ \<Rightarrow> False)))"

definition NewRumor :: "crypto \<Rightarrow> int \<Rightarrow> string \<Rightarrow> string \<Rightarrow> string \<Rightarrow> Rumor option" where
  "NewRumor C now privateKey address transactionHash =
     (let r0 = Rumor_zero\<lparr>r_Address := address, r_TransactionHash := transactionHash, r_Time := ToMilliSeconds now\<rparr>;
          r = r0\<lparr>r_Hash := Rumor_NewHash C r0\<rparr>
      in case hex_DecodeString privateKey of None \<Rightarrow> None
         | Some privateKeyBytes \<Rightarrow> (case hex_DecodeString (r_Hash r) of None \<Rightarrow> None
         | Some hashBytes \<Rightarrow> (case crypto_NewSignature C privateKeyBytes hashBytes of
             Ok signature \<Rightarrow> Some (r\<lparr>r_Signature := hex_EncodeToString signature\<rparr>)
           | _ \<Rightarrow> None)))"

definition Gossip_ValidRumors :: "crypto \<Rightarrow> Gossip \<Rightarrow> nat" where
  "Gossip_ValidRumors C g = length (filter (Rumor_Verify C) (g_Rumors g))"

text \<open>
  \<open>ValidateTimeDelta\<close> sorts the slice in place (\<open>sort.Sort\<close> by time; the sort is not stable in Go, here it is)
  and returns whether all gaps are within the timeout. The sorted slice is part of the result, since the
  caller's slice is the one sorted. \<open>len-1\<close> indexes out of range on an empty slice.
\<close>

definition RumorsSorter_Less :: "Rumor list \<Rightarrow> nat \<Rightarrow> nat \<Rightarrow> bool" where
  "RumorsSorter_Less rs i j \<longleftrightarrow> r_Time (rs ! i) < r_Time (rs ! j)"

definition RumorsSorter_Sort :: "Rumor list \<Rightarrow> Rumor list" where
  "RumorsSorter_Sort rs = sort_key r_Time rs"

fun gaps_ok :: "Rumor list \<Rightarrow> bool" where
  "gaps_ok (a # b # rs) \<longleftrightarrow> \<not> (wrap_s64 (r_Time b - r_Time a) > GossipTimeout) \<and> gaps_ok (b # rs)"
| "gaps_ok _ \<longleftrightarrow> True"

definition ValidateTimeDelta :: "int \<Rightarrow> Rumor list \<Rightarrow> (bool \<times> Rumor list) result" where
  "ValidateTimeDelta now rumors =
     (let rs = RumorsSorter_Sort rumors
      in if rs = [] then Panic ''index out of range''
         else Ok (\<not> (wrap_s64 (ToMilliSeconds now - r_Time (last rs)) > GossipTimeout) \<and> gaps_ok rs, rs))"

subsection \<open>authentication.go\<close>

definition Authentication_NewHash :: "crypto \<Rightarrow> Authentication \<Rightarrow> string result" where
  "Authentication_NewHash C a = Ok (hex_EncodeToString (crypto_NewHash C (int64_LittleEndian (au_Time a))))"

definition Authentication_NewSignature :: "crypto \<Rightarrow> Authentication \<Rightarrow> string \<Rightarrow> string result" where
  "Authentication_NewSignature C a privateKey =
     (case hex_DecodeString (au_Hash a) of None \<Rightarrow> Err ''encoding/hex''
      | Some hashBytes \<Rightarrow> (case hex_DecodeString privateKey of None \<Rightarrow> Err ''encoding/hex''
      | Some privateKeyBytes \<Rightarrow>
          result_bind (crypto_NewSignature C privateKeyBytes hashBytes) (\<lambda>signatureBytes.
          Ok (hex_EncodeToString signatureBytes))))"

definition Authentication_GetDerivedAddress :: "crypto \<Rightarrow> Authentication \<Rightarrow> string result" where
  "Authentication_GetDerivedAddress C a =
     (case hex_DecodeString (au_Hash a) of None \<Rightarrow> Err ''unable to decode hash''
      | Some hashBytes \<Rightarrow> (case hex_DecodeString (au_Signature a) of None \<Rightarrow> Err ''unable to decode signature''
      | Some signatureBytes \<Rightarrow> (case ToPublicKey C hashBytes signatureBytes of
          Ok publicKeyBytes \<Rightarrow> Ok (hex_EncodeToString (ToAddress C publicKeyBytes))
        | _ \<Rightarrow> Err ''unable to generate public key from hash and signature'')))"

definition NewAuthentication :: "crypto \<Rightarrow> int \<Rightarrow> Account \<Rightarrow> Authentication result" where
  "NewAuthentication C now account =
     (let a0 = Authentication_zero\<lparr>au_Time := ToMilliSeconds now\<rparr>
      in result_bind (Authentication_NewHash C a0) (\<lambda>hash.
         let a1 = a0\<lparr>au_Hash := hash\<rparr>
         in result_bind (Authentication_NewSignature C a1 (a_PrivateKey account)) (\<lambda>signature.
            let a2 = a1\<lparr>au_Signature := signature\<rparr>
            in result_bind (Authentication_GetDerivedAddress C a2) (\<lambda>address.
               if address \<noteq> a_Address account then Err ''node address does not match derived address''
               else Ok a2))))"

text \<open>A private key the library accepts and signs 32-byte digests with.\<close>

definition signing_key :: "crypto \<Rightarrow> byte list \<Rightarrow> bool" where
  "signing_key C k \<longleftrightarrow> length k = 32 \<and> ec_seckey_verify C k \<and>
     (\<forall>m. length m = 32 \<longrightarrow> ecdsa_sign_recoverable C m k \<noteq> None)"

text \<open>
  A sample instance of the cryptographic parameters, for witnesses: the digest is the last 32 bytes of the
  message, a signature carries the key and the digest.
\<close>

definition sample_pub :: "byte list \<Rightarrow> byte list" where
  "sample_pub k = 4 # take 64 (k @ replicate 64 0)"

definition sample_crypto :: crypto where
  "sample_crypto = \<lparr>
     keccak256 = (\<lambda>bs. take 32 (rev bs @ replicate 32 0)),
     ec_seckey_verify = (\<lambda>k. True),
     ecdsa_sign_recoverable = (\<lambda>m k. if length k = 32 \<and> length m = 32 then Some (k @ m @ [0]) else None),
     ecdsa_recover = (\<lambda>sig m. if take 32 (drop 32 sig) = m then Some (sample_pub (take 32 sig)) else None),
     ecdsa_verify = (\<lambda>sig m pk. sample_pub (take 32 sig) = pk \<and> drop 32 sig = m)\<rparr>"

definition sample_key :: "byte list" where
  "sample_key = replicate 32 1"

definition sample_from :: string where
  "sample_from = hex_EncodeToString (ToAddress sample_crypto (sample_pub sample_key))"

definition sample_to :: string where
  "sample_to = hex_EncodeToString (replicate 20 2)"

subsection \<open>Acceptance of transactions and rumors\<close>

lemma Transaction_Verify_iff:
  "Transaction_Verify C t = Ok () \<longleftrightarrow>
     length (tx_From t) = 40 \<and> length (tx_Signature t) = 130 \<and> length (tx_Hash t) = 64 \<and> tx_From t \<noteq> tx_To t \<and>
     Transaction_Verify_type t = Ok () \<and> Transaction_NewHash C t = Ok (tx_Hash t) \<and>
     (\<exists>h s pk. hex_DecodeString (tx_Hash t) = Some h \<and> hex_DecodeString (tx_Signature t) = Some s \<and>
        ToPublicKey C h s = Ok pk \<and> tx_From t = hex_EncodeToString (ToAddress C pk) \<and> VerifySignature C pk h s)"
  by (auto simp: Transaction_Verify_def HashLength_def AddressLength_def SignatureLength_def result_bind_Ok_iff
      split: result.splits option.splits if_splits)

lemma Transaction_NewHash_cong:
  assumes "tx_Type t = tx_Type t'" "tx_From t = tx_From t'" "tx_To t = tx_To t'" "tx_Value t = tx_Value t'"
    "tx_Code t = tx_Code t'" "tx_Method t = tx_Method t'" "tx_Time t = tx_Time t'"
  shows "Transaction_NewHash C t = Transaction_NewHash C t'"
  unfolding Transaction_NewHash_def assms ..

lemma Transaction_Verify_type_cong:
  assumes "tx_Type t = tx_Type t'" "tx_To t = tx_To t'" "tx_Value t = tx_Value t'" "tx_Code t = tx_Code t'"
    "tx_Abi t = tx_Abi t'"
  shows "Transaction_Verify_type t = Transaction_Verify_type t'"
  unfolding Transaction_Verify_type_def assms ..

lemma Transaction_Verify_cong:
  assumes "tx_Hash t = tx_Hash t'" "tx_From t = tx_From t'" "tx_To t = tx_To t'" "tx_Signature t = tx_Signature t'"
    "Transaction_NewHash C t = Transaction_NewHash C t'" "Transaction_Verify_type t = Transaction_Verify_type t'"
  shows "Transaction_Verify C t = Transaction_Verify C t'"
  unfolding Transaction_Verify_def assms ..

lemma NewHash_length:
  assumes "\<forall>bs. length (keccak256 C bs) = 32" "Transaction_NewHash C t = Ok h"
  shows "length h = 64 \<and> (\<exists>d. hex_DecodeString h = Some d \<and> length d = 32)"
  using assms by (auto simp: Transaction_NewHash_def crypto_NewHash_def Let_def split: option.splits)

lemma hex_bytes_40:
  assumes "hex_DecodeString s = Some bs" "length bs = 20" shows "length s = 40"
  using length_hex_Decode [OF assms(1)] assms(2) by simp

lemma Sign_recover:
  assumes laws: "crypto_laws C pub" and sig: "crypto_NewSignature C k h = Ok sig"
  shows "length sig = 65" "ToPublicKey C h sig = Ok (pub k)" "VerifySignature C (pub k) h sig"
proof -
  have s: "length h = 32" "ecdsa_sign_recoverable C h k = Some sig"
    using sig by (auto simp: crypto_NewSignature_def secp256k1_Sign_def split: if_splits option.splits)
  then have r: "length sig = 65" "unat (sig ! 64) < 4" "ecdsa_recover C sig h = Some (pub k)"
      "ecdsa_verify C (take 64 sig) h (pub k)" "length (pub k) = 65"
    using laws by (auto simp: crypto_laws_def)
  show "length sig = 65" by (rule r)
  show "ToPublicKey C h sig = Ok (pub k)" "VerifySignature C (pub k) h sig"
    using r s by (simp_all add: ToPublicKey_def RecoverPubkey_def checkSignature_def VerifySignature_def
        secp256k1_VerifySignature_def flip: length_0_conv)
qed

lemma Transaction_seal_Verify:
  assumes laws: "crypto_laws C pub"
    and seal: "Transaction_seal C now (hex_EncodeToString k) time t = Ok t'"
    and frm: "tx_From t = hex_EncodeToString (ToAddress C (pub k))"
    and ne: "tx_From t \<noteq> tx_To t" and ty: "Transaction_Verify_type t = Ok ()"
  shows "Transaction_Verify C t' = Ok ()"
proof -
  obtain h s where nh: "Transaction_NewHash C (t\<lparr>tx_Time := time\<rparr>) = Ok h"
    and sg: "Transaction_NewSignature C (t\<lparr>tx_Time := time, tx_Hash := h\<rparr>) (hex_EncodeToString k) = Ok s"
    and t': "t' = t\<lparr>tx_Time := time, tx_Hash := h, tx_Signature := s\<rparr>"
    using seal by (auto simp: Transaction_seal_def result_bind_Ok_iff checkTime_def split: if_splits)
  have keccak: "\<forall>bs. length (keccak256 C bs) = 32" using laws by (simp add: crypto_laws_def)
  obtain d where hd: "length h = 64" "hex_DecodeString h = Some d"
    using NewHash_length [OF keccak nh] by blast
  obtain sb where sb: "crypto_NewSignature C k d = Ok sb" "s = hex_EncodeToString sb"
    using sg hd by (auto simp: Transaction_NewSignature_def result_bind_Ok_iff)
  note sr = Sign_recover [OF laws sb(1)]
  have "length (ToAddress C (pub k)) = 20" using keccak by (simp add: ToAddress_def crypto_NewHash_def)
  moreover have "Transaction_NewHash C t' = Ok h" using nh unfolding t' by (subst Transaction_NewHash_cong) simp_all
  moreover have "Transaction_Verify_type t' = Ok ()" using ty unfolding t' by (subst Transaction_Verify_type_cong) simp_all
  ultimately show ?thesis
    using frm ne hd sb sr by (auto simp: Transaction_Verify_iff t')
qed

lemma signing_key_signs:
  assumes "signing_key C k" "length m = 32" shows "\<exists>sig. crypto_NewSignature C k m = Ok sig"
  using assms by (auto simp: signing_key_def crypto_NewSignature_def secp256k1_Sign_def)

lemma Transaction_seal_total:
  assumes laws: "crypto_laws C pub" and key: "signing_key C k"
    and time: "checkTime now time = Ok time"
    and hexes: "hex_DecodeString (tx_From t) \<noteq> None" "hex_DecodeString (tx_To t) \<noteq> None"
      "hex_DecodeString (tx_Code t) \<noteq> None"
  shows "\<exists>h s. Transaction_seal C now (hex_EncodeToString k) time t =
           Ok (t\<lparr>tx_Time := time, tx_Hash := h, tx_Signature := s\<rparr>)"
proof -
  have keccak: "\<forall>bs. length (keccak256 C bs) = 32" using laws by (simp add: crypto_laws_def)
  obtain h where nh: "Transaction_NewHash C (t\<lparr>tx_Time := time\<rparr>) = Ok h"
    using hexes by (auto simp: Transaction_NewHash_def Let_def)
  obtain d where d: "hex_DecodeString h = Some d" "length d = 32"
    using NewHash_length [OF keccak nh] by blast
  obtain sig where "crypto_NewSignature C k d = Ok sig"
    using signing_key_signs [OF key d(2)] by blast
  then have "Transaction_seal C now (hex_EncodeToString k) time t =
      Ok (t\<lparr>tx_Time := time, tx_Hash := h, tx_Signature := hex_EncodeToString sig\<rparr>)"
    using time nh d by (simp add: Transaction_seal_def Transaction_NewSignature_def)
  then show ?thesis by blast
qed

lemma RumorsSorter_sorted: "sorted (map r_Time (RumorsSorter_Sort rs))" "mset (RumorsSorter_Sort rs) = mset rs"
  by (simp_all add: RumorsSorter_Sort_def)

lemma gaps_ok_iff:
  "gaps_ok rs \<longleftrightarrow> (\<forall>i. Suc i < length rs \<longrightarrow> wrap_s64 (r_Time (rs ! Suc i) - r_Time (rs ! i)) \<le> GossipTimeout)"
proof (induction rs rule: gaps_ok.induct)
  case (1 a b rs)
  show ?case
  proof (safe)
    fix i assume "gaps_ok (a # b # rs)" "Suc i < length (a # b # rs)"
    then show "wrap_s64 (r_Time ((a # b # rs) ! Suc i) - r_Time ((a # b # rs) ! i)) \<le> GossipTimeout"
      using 1 by (cases i) (auto simp: not_less)
  next
    assume h: "\<forall>i. Suc i < length (a # b # rs) \<longrightarrow> wrap_s64 (r_Time ((a # b # rs) ! Suc i) - r_Time ((a # b # rs) ! i)) \<le> GossipTimeout"
    have "wrap_s64 (r_Time b - r_Time a) \<le> GossipTimeout" using h [rule_format, of 0] by simp
    moreover have "gaps_ok (b # rs)" using h [rule_format, of "Suc _"] by (subst 1) force
    ultimately show "gaps_ok (a # b # rs)" by simp
  qed
qed simp_all

lemma NewRumor_Verify:
  assumes laws: "crypto_laws C pub"
    and new: "NewRumor C now (hex_EncodeToString k) address txHash = Some r"
    and addr: "address = hex_EncodeToString (ToAddress C (pub k))" and h: "length txHash = 64"
  shows "Rumor_Verify C r"
proof -
  have keccak: "\<forall>bs. length (keccak256 C bs) = 32" using laws by (simp add: crypto_laws_def)
  define r0 where "r0 = Rumor_zero\<lparr>r_Address := address, r_TransactionHash := txHash, r_Time := ToMilliSeconds now\<rparr>"
  define rh where "rh = Rumor_NewHash C r0"
  obtain d sb where d: "hex_DecodeString rh = Some d" and sb: "crypto_NewSignature C k d = Ok sb"
    and r: "r = r0\<lparr>r_Hash := rh, r_Signature := hex_EncodeToString sb\<rparr>"
    using new by (auto simp: NewRumor_def Let_def r0_def rh_def split: option.splits result.splits)
  have "length d = 32" using sb by (auto simp: crypto_NewSignature_def secp256k1_Sign_def split: if_splits)
  then have "length rh = 64" using length_hex_Decode [OF d] by simp
  moreover have "length (ToAddress C (pub k)) = 20" using keccak by (simp add: ToAddress_def crypto_NewHash_def)
  moreover have "Rumor_NewHash C r = rh" by (simp add: r rh_def Rumor_NewHash_def cong: option.case_cong)
  ultimately show ?thesis
    using d h addr Sign_recover [OF laws sb]
    by (simp add: Rumor_Verify_def r r0_def HashLength_def AddressLength_def SignatureLength_def)
qed

lemma sample_crypto_laws: "crypto_laws sample_crypto sample_pub"
  by (auto simp: crypto_laws_def sample_crypto_def sample_pub_def nth_append split: if_splits)

lemma sample_key_signs: "signing_key sample_crypto sample_key"
  by (simp add: signing_key_def sample_crypto_def sample_key_def)

text \<open>
  C28. A transfer that \<open>NewTransferTokensTransaction\<close> builds with a usable private key, from that key's own
  address to another address, with a positive value and a time that is not too far in the future, is built
  without an error, carries those values and passes \<open>Verify\<close>.
\<close>
theorem new_transfer_verifies:
  assumes "crypto_laws C pub" and "signing_key C k"
    and "from_addr = hex_EncodeToString (ToAddress C (pub k))" and "to_addr = hex_EncodeToString tb"
    and "length tb = 20" and "to_addr \<noteq> from_addr" and "0 < amount"
    and "0 \<le> time" and "time \<le> ToMilliSeconds (now + TxFutureLimit)"
  shows "\<exists>t. NewTransferTokensTransaction C now (hex_EncodeToString k) from_addr to_addr amount hertz time = Ok t \<and>
             Transaction_Verify C t = Ok () \<and> tx_From t = from_addr \<and> tx_To t = to_addr \<and> tx_Value t = amount \<and>
             tx_Time t = time"
proof -
  define t0 where "t0 = Transaction_zero\<lparr>tx_Type := TypeTransferTokens, tx_From := from_addr, tx_To := to_addr,
    tx_Value := amount\<rparr>"
  obtain h s where sealed: "Transaction_seal C now (hex_EncodeToString k) time t0 =
      Ok (t0\<lparr>tx_Time := time, tx_Hash := h, tx_Signature := s\<rparr>)"
    using Transaction_seal_total [OF assms(1,2), of now time t0] assms
    by (auto simp: checkTime_def t0_def Transaction_zero_def)
  have "Transaction_Verify C (t0\<lparr>tx_Time := time, tx_Hash := h, tx_Signature := s\<rparr>) = Ok ()"
    using assms by (intro Transaction_seal_Verify [OF assms(1) sealed])
      (auto simp: t0_def Transaction_Verify_type_def AddressLength_def)
  then show ?thesis using sealed by (simp add: NewTransferTokensTransaction_def t0_def)
qed

lemma sample_from_ne_to: "sample_to \<noteq> sample_from"
  by (simp add: sample_to_def sample_from_def hex_Encode_inj ToAddress_def crypto_NewHash_def sample_crypto_def
      sample_pub_def sample_key_def)

theorem new_transfer_verifies_witness:
  "\<exists>t. NewTransferTokensTransaction sample_crypto 0 (hex_EncodeToString sample_key) sample_from sample_to 5 0 7 = Ok t \<and>
       Transaction_Verify sample_crypto t = Ok () \<and> tx_From t = sample_from \<and> tx_To t = sample_to \<and> tx_Value t = 5 \<and>
       tx_Time t = 7"
  by (rule new_transfer_verifies [OF sample_crypto_laws sample_key_signs sample_from_def sample_to_def])
    (simp_all add: sample_from_ne_to ToMilliSeconds_def TxFutureLimit_def Minute_def Second_def Millisecond_def
      quot_trunc_def is_s64_def)

text \<open>
  The signature covers neither the parameters nor the ABI nor the hertz of a transaction: two
  transactions that differ only there (with both ABIs non-empty) are accepted alike, whatever the signature.
  The comment on the field \<open>Hash\<close> lists ABI and parameters among the hashed fields.
\<close>
theorem verify_ignores_params_and_abi:
  "Transaction_Verify C (t\<lparr>tx_Params := p, tx_Abi := x # a, tx_Hertz := h\<rparr>) =
   Transaction_Verify C (t\<lparr>tx_Params := q, tx_Abi := y # b, tx_Hertz := g\<rparr>)"
  by (rule Transaction_Verify_cong)
    (auto simp: Transaction_Verify_type_def intro: Transaction_NewHash_cong)

text \<open>
  The hashed fields are concatenated without their lengths: bytes may move from the end of the code to the
  front of the method without changing the hash, so one signature serves calls of different methods.
\<close>
theorem hash_code_method_boundary:
  "Transaction_NewHash C (t\<lparr>tx_Code := hex_EncodeToString (a @ string_bytes b), tx_Method := m\<rparr>) =
   Transaction_NewHash C (t\<lparr>tx_Code := hex_EncodeToString a, tx_Method := b @ m\<rparr>)"
  by (simp add: Transaction_NewHash_def string_bytes_def Let_def cong: option.case_cong)

text \<open>
  The rumor a delegate makes about a 32-byte transaction hash with its own usable key is made, names that
  transaction and passes \<open>Rumor.Verify\<close> at every other delegate.
\<close>
theorem new_rumor_verifies:
  assumes "crypto_laws C pub" and "signing_key C k" and "address = hex_EncodeToString (ToAddress C (pub k))"
    and "txHash = hex_EncodeToString hb" and "length hb = 32"
  shows "\<exists>r. NewRumor C now (hex_EncodeToString k) address txHash = Some r \<and> Rumor_Verify C r \<and>
             r_Address r = address \<and> r_TransactionHash r = txHash"
proof -
  have keccak: "\<forall>bs. length (keccak256 C bs) = 32" using assms(1) by (simp add: crypto_laws_def)
  define d where "d = crypto_NewHash C (ToAddress C (pub k) @ hb @ int64_LittleEndian (ToMilliSeconds now))"
  have "length d = 32" using keccak by (simp add: d_def crypto_NewHash_def)
  then obtain sig where "crypto_NewSignature C k d = Ok sig" using signing_key_signs [OF assms(2)] by blast
  then obtain r where r: "NewRumor C now (hex_EncodeToString k) address txHash = Some r"
      "r_Address r = address" "r_TransactionHash r = txHash"
    using assms(3,4) by (auto simp: NewRumor_def Rumor_NewHash_def Let_def d_def)
  have "Rumor_Verify C r" using assms by (intro NewRumor_Verify [OF assms(1) r(1)]) simp_all
  with r show ?thesis by blast
qed

theorem new_rumor_verifies_witness:
  "\<exists>r. NewRumor sample_crypto 0 (hex_EncodeToString sample_key) sample_from (hex_EncodeToString (replicate 32 7)) = Some r \<and>
       Rumor_Verify sample_crypto r \<and> r_Address r = sample_from \<and>
       r_TransactionHash r = hex_EncodeToString (replicate 32 7)"
  by (rule new_rumor_verifies [OF sample_crypto_laws sample_key_signs sample_from_def refl]) simp

text \<open>
  \<open>ValidateTimeDelta\<close> leaves the caller's rumors sorted by time, and answers true exactly when the newest
  rumor is at most the gossip timeout old and no two neighbouring rumors lie further apart than it.
\<close>
theorem validate_time_delta_exact:
  "case ValidateTimeDelta now (r # rs) of
     Ok (b, rs') \<Rightarrow> mset rs' = mset (r # rs) \<and> sorted (map r_Time rs') \<and>
       (b \<longleftrightarrow> wrap_s64 (ToMilliSeconds now - r_Time (last rs')) \<le> GossipTimeout \<and>
             list_all (\<lambda>i. wrap_s64 (r_Time (rs' ! Suc i) - r_Time (rs' ! i)) \<le> GossipTimeout) [0..<length rs])
   | _ \<Rightarrow> False"
proof -
  define rs' where "rs' = RumorsSorter_Sort (r # rs)"
  have m: "mset rs' = mset (r # rs)" unfolding rs'_def by (rule RumorsSorter_sorted)
  then have "length rs' = Suc (length rs)" by (metis length_Cons size_mset)
  then have "rs' \<noteq> []" "gaps_ok rs' \<longleftrightarrow> (\<forall>i < length rs. wrap_s64 (r_Time (rs' ! Suc i) - r_Time (rs' ! i)) \<le> GossipTimeout)"
    by (auto simp: gaps_ok_iff)
  then show ?thesis using m RumorsSorter_sorted(1) [of "r # rs"]
    by (simp add: ValidateTimeDelta_def Let_def not_less list_all_iff Ball_def flip: rs'_def)
qed

end
