(* ===== verification/Store.thy ===== *)
theory Store
  imports Signing "HOL-Library.Char_ord" "HOL-Library.List_Lexorder"
begin

section \<open>The database and the cache (commons/types over badger and go-cache)\<close>

text \<open>
  \<^item> The key-value database is a list of entries in the byte order of their keys (\<open>kv\<close>). An entry has a value
    and, when written with a TTL, that TTL; the later disappearance of such an entry is a step of the
    environment, not of these functions.
  \<^item> A badger transaction (\<open>txn\<close>) is the view it reads, which includes its own writes, and the list of its
    writes, which \<open>Commit\<close> applies. What the database may answer beside a result is the parameter \<open>F\<close> of type
    \<open>faults\<close>: an error per key read or written, and an error of the commit (\<open>ErrConflict\<close> among them).
  \<^item> The cache holds pointers. Gossips, receipts and transactions are shared and changed in place, so they live
    in a \<open>heap\<close> and the cache holds their addresses; nodes, accounts, pages and authentications are never
    changed in place once cached and are held as values.
  \<^item> Go iterates over \<open>cache.Items()\<close> in any order; here it is the order of the keys.
\<close>

subsection \<open>Sorted key-value lists\<close>

type_synonym 'v kv = "(string \<times> 'v) list"

fun kv_put :: "string \<Rightarrow> 'v \<Rightarrow> 'v kv \<Rightarrow> 'v kv" where
  "kv_put k v [] = [(k, v)]"
| "kv_put k v ((k', v') # m) =
     (if k = k' then (k, v) # m
      else if k < k' then (k, v) # (k', v') # m
      else (k', v') # kv_put k v m)"

definition kv_del :: "string \<Rightarrow> 'v kv \<Rightarrow> 'v kv" where
  "kv_del k m = filter (\<lambda>(k', v). k' \<noteq> k) m"

definition kv_sorted :: "'v kv \<Rightarrow> bool" where
  "kv_sorted m \<longleftrightarrow> sorted_wrt (<) (map fst m)"

subsection \<open>badger transactions\<close>

type_synonym entry = "payload \<times> int option"
type_synonym db = "entry kv"

record faults =
  f_get :: "string \<Rightarrow> string option"
  f_set :: "string \<Rightarrow> string option"
  f_commit :: "string option"

definition no_faults :: faults where
  "no_faults = \<lparr>f_get = (\<lambda>k. None), f_set = (\<lambda>k. None), f_commit = None\<rparr>"

definition ErrKeyNotFound :: string where "ErrKeyNotFound = ''Key not found''"
definition ErrConflict :: string where "ErrConflict = ''Transaction Conflict. Please retry''"
definition ErrReadOnlyTxn :: string where
  "ErrReadOnlyTxn = ''No sets or deletes are allowed in a read-only transaction''"

record txn =
  t_view :: db
  t_writes :: "(string \<times> entry option) list"
  t_update :: bool

definition NewTransaction :: "bool \<Rightarrow> db \<Rightarrow> txn" where
  "NewTransaction update d = \<lparr>t_view = d, t_writes = [], t_update = update\<rparr>"

definition txn_Get :: "faults \<Rightarrow> txn \<Rightarrow> string \<Rightarrow> payload result" where
  "txn_Get F tx k =
     (case f_get F k of Some e \<Rightarrow> Err e
      | None \<Rightarrow> (case map_of (t_view tx) k of None \<Rightarrow> Err ErrKeyNotFound | Some (v, ttl) \<Rightarrow> Ok v))"

definition txn_write :: "string \<Rightarrow> entry option \<Rightarrow> db \<Rightarrow> db" where
  "txn_write k e d = (case e of Some e \<Rightarrow> kv_put k e d | None \<Rightarrow> kv_del k d)"

definition txn_Put :: "faults \<Rightarrow> string \<Rightarrow> entry option \<Rightarrow> txn \<Rightarrow> unit result \<times> txn" where
  "txn_Put F k e tx =
     (if \<not> t_update tx then (Err ErrReadOnlyTxn, tx)
      else case f_set F k of
             Some err \<Rightarrow> (Err err, tx)
           | None \<Rightarrow> (Ok (), tx\<lparr>t_view := txn_write k e (t_view tx), t_writes := t_writes tx @ [(k, e)]\<rparr>))"

definition txn_Set :: "faults \<Rightarrow> string \<Rightarrow> payload \<Rightarrow> txn \<Rightarrow> unit result \<times> txn" where
  "txn_Set F k v tx = txn_Put F k (Some (v, None)) tx"

definition txn_SetWithTTL :: "faults \<Rightarrow> string \<Rightarrow> payload \<Rightarrow> int \<Rightarrow> txn \<Rightarrow> unit result \<times> txn" where
  "txn_SetWithTTL F k v ttl tx = txn_Put F k (Some (v, Some ttl)) tx"

definition txn_Delete :: "faults \<Rightarrow> string \<Rightarrow> txn \<Rightarrow> unit result \<times> txn" where
  "txn_Delete F k tx = txn_Put F k None tx"

text \<open>A sequence of \<open>Set\<close> calls, each followed by a return on error.\<close>

fun txn_Sets :: "faults \<Rightarrow> (string \<times> payload) list \<Rightarrow> txn \<Rightarrow> unit result \<times> txn" where
  "txn_Sets F [] tx = (Ok (), tx)"
| "txn_Sets F ((k, v) # kvs) tx =
     (case txn_Set F k v tx of
        (Ok _, tx') \<Rightarrow> txn_Sets F kvs tx'
      | (Err e, tx') \<Rightarrow> (Err e, tx')
      | (Panic e, tx') \<Rightarrow> (Panic e, tx'))"

definition txn_Commit :: "faults \<Rightarrow> txn \<Rightarrow> db \<Rightarrow> unit result \<times> db" where
  "txn_Commit F tx d =
     (case f_commit F of Some e \<Rightarrow> (Err e, d)
      | None \<Rightarrow> (Ok (), fold (\<lambda>(k, e). txn_write k e) (t_writes tx) d))"

definition HasPrefix :: "string \<Rightarrow> string \<Rightarrow> bool" where
  "HasPrefix s p \<longleftrightarrow> take (length p) s = p"

text \<open>\<open>for it.Seek(item); it.ValidForPrefix(prefix); it.Next()\<close>: the entries it visits.\<close>

definition txn_Iterate :: "txn \<Rightarrow> string \<Rightarrow> string \<Rightarrow> (string \<times> payload) list" where
  "txn_Iterate tx seek prefix =
     map (\<lambda>(k, e). (k, fst e))
       (takeWhile (\<lambda>(k, e). HasPrefix k prefix) (dropWhile (\<lambda>(k, e). k < seek) (t_view tx)))"

text \<open>\<open>item.Value()\<close> of an item of an iterator.\<close>

definition item_Value :: "faults \<Rightarrow> string \<times> payload \<Rightarrow> payload result" where
  "item_Value F kv = (case f_get F (fst kv) of Some e \<Rightarrow> Err e | None \<Rightarrow> Ok (snd kv))"

subsection \<open>The cache and the objects it points to\<close>

datatype tx_ref = TxOfGossip nat | TxOwn nat

datatype cached = CReceipt nat | CTransaction tx_ref | CGossip nat | CSent "string list" | CNode Node
  | CKey string | CAuthentication Authentication | CAccount Account | CPage Page

text \<open>Objects with the time they are kept for; \<open>None\<close> is \<open>cache.NoExpiration\<close>.\<close>

type_synonym cache = "(cached \<times> int option) kv"

record heap =
  h_gossips :: "Gossip list"
  h_receipts :: "Receipt list"
  h_txs :: "Transaction list"

definition cache_Set :: "string \<Rightarrow> cached \<Rightarrow> int \<Rightarrow> cache \<Rightarrow> cache" where
  "cache_Set k x ttl c = kv_put k (x, Some ttl) c"

definition cache_SetForever :: "string \<Rightarrow> cached \<Rightarrow> cache \<Rightarrow> cache" where
  "cache_SetForever k x c = kv_put k (x, None) c"

definition cache_Delete :: "string \<Rightarrow> cache \<Rightarrow> cache" where
  "cache_Delete k c = kv_del k c"

definition cache_Get :: "string \<Rightarrow> cache \<Rightarrow> cached option" where
  "cache_Get k c = map_option fst (map_of c k)"

definition new_gossip :: "Gossip \<Rightarrow> heap \<Rightarrow> nat \<times> heap" where
  "new_gossip g h = (length (h_gossips h), h\<lparr>h_gossips := h_gossips h @ [g]\<rparr>)"

definition new_receipt :: "Receipt \<Rightarrow> heap \<Rightarrow> nat \<times> heap" where
  "new_receipt r h = (length (h_receipts h), h\<lparr>h_receipts := h_receipts h @ [r]\<rparr>)"

definition new_tx :: "Transaction \<Rightarrow> heap \<Rightarrow> nat \<times> heap" where
  "new_tx t h = (length (h_txs h), h\<lparr>h_txs := h_txs h @ [t]\<rparr>)"

definition gossip_at :: "heap \<Rightarrow> nat \<Rightarrow> Gossip" where
  "gossip_at h p = h_gossips h ! p"

definition receipt_at :: "heap \<Rightarrow> nat \<Rightarrow> Receipt" where
  "receipt_at h p = h_receipts h ! p"

definition set_gossip :: "nat \<Rightarrow> Gossip \<Rightarrow> heap \<Rightarrow> heap" where
  "set_gossip p g h = h\<lparr>h_gossips := (h_gossips h)[p := g]\<rparr>"

definition set_receipt :: "nat \<Rightarrow> Receipt \<Rightarrow> heap \<Rightarrow> heap" where
  "set_receipt p r h = h\<lparr>h_receipts := (h_receipts h)[p := r]\<rparr>"

definition tx_at :: "heap \<Rightarrow> tx_ref \<Rightarrow> Transaction" where
  "tx_at h p = (case p of TxOfGossip i \<Rightarrow> g_Transaction (gossip_at h i) | TxOwn i \<Rightarrow> h_txs h ! i)"

definition set_tx :: "tx_ref \<Rightarrow> Transaction \<Rightarrow> heap \<Rightarrow> heap" where
  "set_tx p t h =
     (case p of TxOfGossip i \<Rightarrow> set_gossip i ((gossip_at h i)\<lparr>g_Transaction := t\<rparr>) h
      | TxOwn i \<Rightarrow> h\<lparr>h_txs := (h_txs h)[i := t]\<rparr>)"

subsection \<open>receipt.go\<close>

definition Receipt_Cache :: "heap \<Rightarrow> nat \<Rightarrow> cache \<Rightarrow> cache" where
  "Receipt_Cache h p c = cache_Set (Receipt_Key (receipt_at h p)) (CReceipt p) ReceiptCacheTTL c"

definition Receipt_Persist :: "faults \<Rightarrow> Receipt \<Rightarrow> txn \<Rightarrow> unit result \<times> txn" where
  "Receipt_Persist F r tx = txn_Sets F [(Receipt_Key r, Receipt_String r)] tx"

definition Receipt_Set :: "faults \<Rightarrow> heap \<Rightarrow> nat \<Rightarrow> txn \<Rightarrow> cache \<Rightarrow> unit result \<times> txn \<times> cache" where
  "Receipt_Set F h p tx c =
     (let c' = Receipt_Cache h p c; (r, tx') = Receipt_Persist F (receipt_at h p) tx in (r, tx', c'))"

definition Receipt_Unset :: "faults \<Rightarrow> Receipt \<Rightarrow> txn \<Rightarrow> cache \<Rightarrow> unit result \<times> txn \<times> cache" where
  "Receipt_Unset F r tx c =
     (let (res, tx') = txn_Delete F (Receipt_Key r) tx in (res, tx', cache_Delete (Receipt_Key r) c))"

text \<open>Both commit a transaction of their own, and only log its errors.\<close>

definition SetInternalErrorWithNewTransaction :: "faults \<Rightarrow> string \<Rightarrow> nat \<Rightarrow> heap \<Rightarrow> db \<Rightarrow> heap \<times> db" where
  "SetInternalErrorWithNewTransaction F err p h d =
     (let r = (receipt_at h p)\<lparr>rc_Status := StatusInternalError, rc_HumanReadableStatus := err\<rparr>;
          (res, tx) = txn_SetWithTTL F (Receipt_Key r) (Receipt_String r) ReceiptCacheTTL (NewTransaction True d);
          (res', d') = txn_Commit F tx d
      in (set_receipt p r h, d'))"

definition SetStatusWithNewTransaction :: "faults \<Rightarrow> string \<Rightarrow> nat \<Rightarrow> heap \<Rightarrow> db \<Rightarrow> heap \<times> db" where
  "SetStatusWithNewTransaction F status p h d =
     (let r = (receipt_at h p)\<lparr>rc_Status := status\<rparr>;
          (res, tx) = txn_SetWithTTL F (Receipt_Key r) (Receipt_String r) ReceiptCacheTTL (NewTransaction True d);
          (res', d') = txn_Commit F tx d
      in (set_receipt p r h, d'))"

definition ToReceiptFromCache :: "cache \<Rightarrow> string \<Rightarrow> nat result" where
  "ToReceiptFromCache c transactionHash =
     (case cache_Get (''table-receipt-'' @ transactionHash) c of
        None \<Rightarrow> Err ErrNotFound
      | Some (CReceipt p) \<Rightarrow> Ok p
      | Some _ \<Rightarrow> Panic ''interface conversion'')"

definition ToReceiptFromKey :: "faults \<Rightarrow> txn \<Rightarrow> string \<Rightarrow> Receipt result" where
  "ToReceiptFromKey F tx k = result_bind (txn_Get F tx k) ToReceiptFromJson"

subsection \<open>account.go\<close>

definition Account_Cache :: "Account \<Rightarrow> cache \<Rightarrow> cache" where
  "Account_Cache a c = cache_Set (Account_Key a) (CAccount a) AccountTTL c"

definition Account_Persist :: "faults \<Rightarrow> Account \<Rightarrow> txn \<Rightarrow> unit result \<times> txn" where
  "Account_Persist F a tx =
     (case Account_String a of
        Ok s \<Rightarrow> txn_Sets F [(Account_Key a, s), (Account_NameKey a, Raw (Account_Key a))] tx
      | Err e \<Rightarrow> (Err e, tx)
      | Panic e \<Rightarrow> (Panic e, tx))"

definition Account_Set :: "faults \<Rightarrow> Account \<Rightarrow> txn \<Rightarrow> cache \<Rightarrow> unit result \<times> txn \<times> cache" where
  "Account_Set F a tx c = (let (r, tx') = Account_Persist F a tx in (r, tx', Account_Cache a c))"

definition ToAccountFromCache :: "cache \<Rightarrow> string \<Rightarrow> Account result" where
  "ToAccountFromCache c address =
     (case cache_Get (''table-account-'' @ address) c of
        None \<Rightarrow> Err ErrNotFound
      | Some (CAccount a) \<Rightarrow> Ok a
      | Some _ \<Rightarrow> Panic ''interface conversion'')"

definition ToAccountByAddress :: "faults \<Rightarrow> txn \<Rightarrow> string \<Rightarrow> Account result" where
  "ToAccountByAddress F tx address = result_bind (txn_Get F tx (''table-account-'' @ address)) ToAccountFromJson"

text \<open>The text of a value used as a key: \<open>string(value)\<close>. A JSON document never is the text of a key.\<close>

definition payload_text :: "payload \<Rightarrow> string" where
  "payload_text p = (case p of Raw s \<Rightarrow> s | Doc d \<Rightarrow> CHR ''{'' # [])"

definition ToAccountByName :: "faults \<Rightarrow> txn \<Rightarrow> string \<Rightarrow> Account result" where
  "ToAccountByName F tx name =
     result_bind (txn_Get F tx (''key-account-name-'' @ name)) (\<lambda>v. ToAccountByAddress F tx (payload_text v))"

text \<open>Errors are logged and the item skipped.\<close>

fun collect_ok :: "('a \<Rightarrow> 'b result) \<Rightarrow> 'a list \<Rightarrow> 'b list result" where
  "collect_ok f [] = Ok []"
| "collect_ok f (x # xs) =
     (case f x of
        Ok y \<Rightarrow> result_bind (collect_ok f xs) (\<lambda>ys. Ok (y # ys))
      | Err e \<Rightarrow> collect_ok f xs
      | Panic e \<Rightarrow> Panic e)"

definition ToAccountsByName :: "faults \<Rightarrow> string \<Rightarrow> txn \<Rightarrow> Account list result" where
  "ToAccountsByName F name tx =
     (let prefix = ''key-account-name-'' @ name
      in collect_ok (\<lambda>it. result_bind (item_Value F it) (\<lambda>v. ToAccountByAddress F tx (payload_text v)))
           (txn_Iterate tx prefix prefix))"

text \<open>
  The items a paging loop takes: \<open>iteratorCount\<close> counts from 1, those in \<open>first .. limit - 1\<close> are taken. (The
  loops stop one or two items after the last one taken, and read nothing there.)
\<close>

definition page_first :: "int \<Rightarrow> int \<Rightarrow> int" where
  "page_first page pageSize = wrap_s64 (wrap_s64 (page * pageSize) - (pageSize - 1))"

definition page_items :: "int \<Rightarrow> int \<Rightarrow> 'a list \<Rightarrow> 'a list" where
  "page_items first limit xs =
     map snd (filter (\<lambda>(i, x). first \<le> int i \<and> int i < limit) (List.enumerate 1 xs))"

definition AccountPaging :: "faults \<Rightarrow> txn \<Rightarrow> string \<Rightarrow> int \<Rightarrow> int \<Rightarrow> Account list result" where
  "AccountPaging F tx startingHash page pageSize =
     (if pageSize \<le> 0 \<or> pageSize > 100 then Err ErrInvalidRequestPageSize
      else if page \<le> 0 then Err ErrInvalidRequestPage
      else
        let prefix = ''table-account-'';
            item = (if startingHash = '''' then Ok prefix
                    else case ToAccountByAddress F tx startingHash of
                           Ok a \<Rightarrow> Ok (Account_Key a) | Panic e \<Rightarrow> Panic e | Err e \<Rightarrow> Err ErrInvalidRequestHash)
        in result_bind item (\<lambda>item.
             collect_ok (\<lambda>it. result_bind (item_Value F it) ToAccountFromJson)
               (page_items (page_first page pageSize) (wrap_s64 (page_first page pageSize + pageSize))
                 (txn_Iterate tx item prefix))))"

subsection \<open>gossip.go\<close>

definition Gossip_HaveSent :: "cache \<Rightarrow> string \<Rightarrow> string \<Rightarrow> bool result" where
  "Gossip_HaveSent c txHash delegateAddress =
     (case cache_Get (Gossip_RumorKey txHash) c of
        None \<Rightarrow> Ok False
      | Some (CSent addresses) \<Rightarrow> Ok (list_ex (\<lambda>a. a = delegateAddress) addresses)
      | Some _ \<Rightarrow> Panic ''interface conversion'')"

definition Gossip_CacheSentDelegate :: "string \<Rightarrow> string \<Rightarrow> cache \<Rightarrow> cache result" where
  "Gossip_CacheSentDelegate txHash nodeAddress c =
     (case cache_Get (Gossip_RumorKey txHash) c of
        None \<Rightarrow> Ok (cache_Set (Gossip_RumorKey txHash) (CSent [nodeAddress]) GossipCacheTTL c)
      | Some (CSent addresses) \<Rightarrow>
          Ok (cache_Set (Gossip_RumorKey txHash) (CSent (addresses @ [nodeAddress])) GossipCacheTTL c)
      | Some _ \<Rightarrow> Panic ''interface conversion'')"

definition Gossip_Cache :: "heap \<Rightarrow> nat \<Rightarrow> cache \<Rightarrow> cache" where
  "Gossip_Cache h p c = cache_Set (Gossip_Key (gossip_at h p)) (CGossip p) GossipCacheTTL c"

definition Gossip_Persist :: "faults \<Rightarrow> Gossip \<Rightarrow> txn \<Rightarrow> unit result \<times> txn" where
  "Gossip_Persist F g tx = txn_Sets F [(Gossip_Key g, Gossip_String g)] tx"

definition Gossip_Set :: "faults \<Rightarrow> heap \<Rightarrow> nat \<Rightarrow> txn \<Rightarrow> cache \<Rightarrow> unit result \<times> txn \<times> cache" where
  "Gossip_Set F h p tx c =
     (let c' = Gossip_Cache h p c; (r, tx') = Gossip_Persist F (gossip_at h p) tx in (r, tx', c'))"

definition Gossip_Unset :: "faults \<Rightarrow> Gossip \<Rightarrow> txn \<Rightarrow> cache \<Rightarrow> unit result \<times> txn \<times> cache" where
  "Gossip_Unset F g tx c =
     (let (res, tx') = txn_Delete F (Gossip_Key g) tx in (res, tx', cache_Delete (Gossip_Key g) c))"

definition ToGossipFromCache :: "cache \<Rightarrow> string \<Rightarrow> nat result" where
  "ToGossipFromCache c txHash =
     (case cache_Get (''table-gossip-'' @ txHash) c of
        None \<Rightarrow> Err ErrNotFound
      | Some (CGossip p) \<Rightarrow> Ok p
      | Some _ \<Rightarrow> Panic ''interface conversion'')"

definition ToGossipByKey :: "faults \<Rightarrow> int \<Rightarrow> txn \<Rightarrow> string \<Rightarrow> Gossip result" where
  "ToGossipByKey F now tx k = result_bind (txn_Get F tx k) (ToGossipFromJson now)"

definition ToGossipByTransactionHash :: "faults \<Rightarrow> int \<Rightarrow> txn \<Rightarrow> string \<Rightarrow> Gossip result" where
  "ToGossipByTransactionHash F now tx transactionHash = ToGossipByKey F now tx (''table-gossip-'' @ transactionHash)"

text \<open>\<open>Refresh\<close> assigns the local variable \<open>this\<close>; the gossip it was called on is not changed.\<close>

definition Gossip_Refresh :: "faults \<Rightarrow> int \<Rightarrow> txn \<Rightarrow> Gossip \<Rightarrow> unit result \<times> Gossip" where
  "Gossip_Refresh F now tx g =
     (case result_bind (txn_Get F tx (Gossip_Key g)) (ToGossipFromJson now) of
        Ok _ \<Rightarrow> (Ok (), g) | Err e \<Rightarrow> (Err e, g) | Panic e \<Rightarrow> (Panic e, g))"

definition GossipPaging :: "faults \<Rightarrow> int \<Rightarrow> int \<Rightarrow> txn \<Rightarrow> Gossip list result" where
  "GossipPaging F now page tx =
     (if page \<le> 0 then Err ErrInvalidRequest
      else let prefix = ''table-gossip-''
           in collect_ok (\<lambda>it. result_bind (item_Value F it) (ToGossipFromJson now))
                (page_items (page_first page 10) (wrap_s64 (page_first page 10 + 9) + 1) (txn_Iterate tx prefix prefix)))"

subsection \<open>transaction.go\<close>

definition Transaction_Cache :: "heap \<Rightarrow> tx_ref \<Rightarrow> cache \<Rightarrow> cache" where
  "Transaction_Cache h p c = cache_Set (Transaction_Key (tx_at h p)) (CTransaction p) TransactionCacheTTL c"

definition Transaction_Persist :: "faults \<Rightarrow> Transaction \<Rightarrow> txn \<Rightarrow> unit result \<times> txn" where
  "Transaction_Persist F t tx =
     txn_Sets F [(Transaction_Key t, Transaction_String t),
                 (Transaction_TypeKey t, Raw (Transaction_Key t)),
                 (Transaction_TimeKey t, Raw (Transaction_Key t)),
                 (Transaction_FromKey t, Raw (Transaction_Key t)),
                 (Transaction_ToKey t, Raw (Transaction_Key t))] tx"

definition Transaction_Set :: "faults \<Rightarrow> heap \<Rightarrow> tx_ref \<Rightarrow> txn \<Rightarrow> cache \<Rightarrow> unit result \<times> txn \<times> cache" where
  "Transaction_Set F h p tx c =
     (let c' = Transaction_Cache h p c; (r, tx') = Transaction_Persist F (tx_at h p) tx in (r, tx', c'))"

text \<open>The transaction found in the cache is given the cached receipt, in place.\<close>

definition ToTransactionFromCache :: "cache \<Rightarrow> string \<Rightarrow> heap \<Rightarrow> tx_ref result \<times> heap" where
  "ToTransactionFromCache c hash h =
     (case cache_Get (''table-transaction-'' @ hash) c of
        None \<Rightarrow> (Err ErrNotFound, h)
      | Some (CTransaction p) \<Rightarrow>
          (case ToReceiptFromCache c (tx_Hash (tx_at h p)) of
             Err _ \<Rightarrow> (Ok p, h)
           | Ok q \<Rightarrow> (Ok p, set_tx p ((tx_at h p)\<lparr>tx_Receipt := receipt_at h q\<rparr>) h)
           | Panic e \<Rightarrow> (Panic e, h))
      | Some _ \<Rightarrow> (Panic ''interface conversion'', h))"

text \<open>\<open>if err == nil\<close>: an error leaves the record as it is, a panic unwinds.\<close>

definition on_ok :: "'a result \<Rightarrow> ('a \<Rightarrow> 'b \<Rightarrow> 'b) \<Rightarrow> 'b \<Rightarrow> 'b result" where
  "on_ok r upd x = (case r of Ok y \<Rightarrow> Ok (upd y x) | Err e \<Rightarrow> Ok x | Panic e \<Rightarrow> Panic e)"

definition setTransients :: "faults \<Rightarrow> int \<Rightarrow> txn \<Rightarrow> Transaction \<Rightarrow> Transaction result" where
  "setTransients F now tx t =
     result_bind (on_ok (ToAccountByAddress F tx (tx_From t)) (\<lambda>a t. t\<lparr>tx_FromName := a_Name a\<rparr>) t) (\<lambda>t.
     result_bind (on_ok (ToAccountByAddress F tx (tx_To t)) (\<lambda>a t. t\<lparr>tx_ToName := a_Name a\<rparr>) t) (\<lambda>t.
     result_bind (on_ok (ToReceiptFromKey F tx (''table-receipt-'' @ tx_Hash t)) (\<lambda>r t. t\<lparr>tx_Receipt := r\<rparr>) t) (\<lambda>t.
     result_bind (on_ok (ToGossipByTransactionHash F now tx (tx_Hash t)) (\<lambda>g t. t\<lparr>tx_Gossip := g_Rumors g\<rparr>) t) (\<lambda>t.
     Ok (case hex_DecodeString (tx_Abi t) of None \<Rightarrow> t | Some abi \<Rightarrow> t\<lparr>tx_Abi := bytes_string abi\<rparr>)))))"

definition ToTransactionByKey :: "faults \<Rightarrow> int \<Rightarrow> txn \<Rightarrow> string \<Rightarrow> Transaction result" where
  "ToTransactionByKey F now tx k =
     result_bind (txn_Get F tx k) (\<lambda>v.
     result_bind (ToTransactionFromJson now v) (setTransients F now tx))"

definition ToTransactionByHash :: "faults \<Rightarrow> int \<Rightarrow> txn \<Rightarrow> string \<Rightarrow> Transaction result" where
  "ToTransactionByHash F now tx hash = ToTransactionByKey F now tx (''table-transaction-'' @ hash)"

definition ToTransactionByAddress :: "faults \<Rightarrow> int \<Rightarrow> txn \<Rightarrow> string \<Rightarrow> Transaction result" where
  "ToTransactionByAddress F now tx address =
     result_bind (ToAccountByAddress F tx address) (\<lambda>a.
     if a_TransactionHash a = '''' then Err ErrNotFound
     else result_bind (txn_Get F tx (''table-transaction-'' @ a_TransactionHash a)) (ToTransactionFromJson now))"

text \<open>\<open>transaction_sorter.go\<close>: \<open>sort.Sort\<close> by a comparison (here a stable insertion sort).\<close>

definition TransactionSorter_less :: "bool \<Rightarrow> Transaction \<Rightarrow> Transaction \<Rightarrow> bool" where
  "TransactionSorter_less ascending t1 t2 \<longleftrightarrow>
     (if ascending then tx_Time t1 < tx_Time t2 else tx_Time t2 < tx_Time t1)"

definition TransactionSorter_lessHash :: "bool \<Rightarrow> Transaction \<Rightarrow> Transaction \<Rightarrow> bool" where
  "TransactionSorter_lessHash ascending t1 t2 \<longleftrightarrow>
     (if ascending then (if tx_Time t1 = tx_Time t2 then tx_Hash t1 < tx_Hash t2 else tx_Time t1 < tx_Time t2)
      else (if tx_Time t2 = tx_Time t1 then tx_Hash t2 < tx_Hash t1 else tx_Time t2 < tx_Time t1))"

fun sort_insert :: "('a \<Rightarrow> 'a \<Rightarrow> bool) \<Rightarrow> 'a \<Rightarrow> 'a list \<Rightarrow> 'a list" where
  "sort_insert lt x [] = [x]"
| "sort_insert lt x (y # ys) = (if lt y x then y # sort_insert lt x ys else x # y # ys)"

definition sort_by :: "('a \<Rightarrow> 'a \<Rightarrow> bool) \<Rightarrow> 'a list \<Rightarrow> 'a list" where
  "sort_by lt xs = foldr (sort_insert lt) xs []"

definition SortByTime :: "bool \<Rightarrow> Transaction list \<Rightarrow> Transaction list" where
  "SortByTime ascending txs = sort_by (TransactionSorter_less ascending) txs"

definition SortByTimeHash :: "bool \<Rightarrow> Transaction list \<Rightarrow> Transaction list" where
  "SortByTimeHash ascending txs = sort_by (TransactionSorter_lessHash ascending) txs"

definition ToTransactions :: "faults \<Rightarrow> int \<Rightarrow> txn \<Rightarrow> Transaction list result" where
  "ToTransactions F now tx =
     result_bind (result_map (\<lambda>it. result_bind (item_Value F it) (\<lambda>v.
         result_bind (ToTransactionFromJson now v) (setTransients F now tx)))
       (txn_Iterate tx ''table-transaction-'' ''table-transaction-'')) (\<lambda>ts.
     Ok (SortByTime False ts))"

text \<open>\<open>ToTransactionByKey\<close> sets the transient fields; the callers below set them once more.\<close>

definition load_item :: "faults \<Rightarrow> int \<Rightarrow> txn \<Rightarrow> string \<times> payload \<Rightarrow> Transaction result" where
  "load_item F now tx it =
     result_bind (item_Value F it) (\<lambda>v.
     result_bind (ToTransactionByKey F now tx (payload_text v)) (setTransients F now tx))"

definition transactions_page :: "(Transaction \<Rightarrow> string) \<Rightarrow> string \<Rightarrow> faults \<Rightarrow> int \<Rightarrow> txn \<Rightarrow> string \<Rightarrow> int \<Rightarrow> int \<Rightarrow>
    Transaction list result" where
  "transactions_page indexKey prefix F now tx startingHash page pageSize =
     (if pageSize \<le> 0 \<or> pageSize > 100 then Err ErrInvalidRequestPageSize
      else if page \<le> 0 then Err ErrInvalidRequestPage
      else
        let item = (if startingHash = '''' then Ok prefix
                    else case ToTransactionByKey F now tx (''table-transaction-'' @ startingHash) of
                           Ok thing \<Rightarrow> Ok (indexKey thing) | Panic e \<Rightarrow> Panic e | Err e \<Rightarrow> Err ErrInvalidRequestHash)
        in result_bind item (\<lambda>item.
           result_bind (result_map (load_item F now tx)
             (page_items (page_first page pageSize) (wrap_s64 (page_first page pageSize + pageSize))
               (txn_Iterate tx item prefix))) (\<lambda>ts.
           Ok (SortByTime False ts))))"

definition ToTransactionsByFromAddress ::
    "faults \<Rightarrow> int \<Rightarrow> txn \<Rightarrow> string \<Rightarrow> string \<Rightarrow> int \<Rightarrow> int \<Rightarrow> Transaction list result" where
  "ToTransactionsByFromAddress F now tx address startingHash page pageSize =
     transactions_page Transaction_FromKey (''key-transaction-from-'' @ address) F now tx startingHash page pageSize"

definition ToTransactionsByToAddress ::
    "faults \<Rightarrow> int \<Rightarrow> txn \<Rightarrow> string \<Rightarrow> string \<Rightarrow> int \<Rightarrow> int \<Rightarrow> Transaction list result" where
  "ToTransactionsByToAddress F now tx address startingHash page pageSize =
     transactions_page Transaction_ToKey (''key-transaction-to-'' @ address) F now tx startingHash page pageSize"

definition ToTransactionsByFromAddressOld :: "faults \<Rightarrow> int \<Rightarrow> txn \<Rightarrow> string \<Rightarrow> Transaction list result" where
  "ToTransactionsByFromAddressOld F now tx address =
     (let prefix = ''key-transaction-from-'' @ address
      in result_bind (result_map (load_item F now tx) (txn_Iterate tx prefix prefix)) (\<lambda>ts. Ok (SortByTime False ts)))"

definition ToTransactionsByToAddressOld :: "faults \<Rightarrow> int \<Rightarrow> txn \<Rightarrow> string \<Rightarrow> Transaction list result" where
  "ToTransactionsByToAddressOld F now tx address =
     (let prefix = ''key-transaction-to-'' @ address
      in result_bind (result_map (load_item F now tx) (txn_Iterate tx prefix prefix)) (\<lambda>ts. Ok (SortByTime False ts)))"

definition ToTransactionsByType :: "faults \<Rightarrow> int \<Rightarrow> txn \<Rightarrow> int \<Rightarrow> Transaction list result" where
  "ToTransactionsByType F now tx tipe =
     (let prefix = ''key-transaction-type-'' @ fmt_d tipe
      in result_map (load_item F now tx) (txn_Iterate tx prefix prefix))"

text \<open>
  \<open>TransactionPaging\<close>: the keys of the time index in descending order; \<open>strings.Split(key, ''-'')[4]\<close> is the
  hash. A record that cannot be read gives a nil entry (\<open>None\<close>). The loop runs \<open>pageSize\<close> times; \<open>idx\<close> stops
  when it reaches \<open>totalCount\<close>, and a negative \<open>idx\<close> (an overflow of \<open>page * pageSize\<close>) is out of range.
\<close>

fun split_on :: "char \<Rightarrow> string \<Rightarrow> string list" where
  "split_on c [] = [[]]"
| "split_on c (x # xs) =
     (if x = c then [] # split_on c xs
      else case split_on c xs of [] \<Rightarrow> [[x]] | w # ws \<Rightarrow> (x # w) # ws)"

definition key_hash :: "string \<Rightarrow> string result" where
  "key_hash key = (let k = split_on (CHR ''-'') key
                   in if length k \<le> 4 then Panic ''index out of range'' else Ok (k ! 4))"

fun find_start :: "string \<Rightarrow> string list \<Rightarrow> nat \<Rightarrow> (nat \<times> string) result" where
  "find_start startingHash [] idx = Err ErrInvalidRequestStartingHash"
| "find_start startingHash (key # ks) idx =
     result_bind (key_hash key) (\<lambda>hash.
       let s = (if startingHash = '''' then hash else startingHash)
       in if s = hash then Ok (idx, s) else find_start s ks (Suc idx))"

fun paging_loop :: "faults \<Rightarrow> int \<Rightarrow> txn \<Rightarrow> string list \<Rightarrow> int \<Rightarrow> nat \<Rightarrow> int \<Rightarrow> Transaction option list result" where
  "paging_loop F now tx timestamps totalCount 0 idx = Ok []"
| "paging_loop F now tx timestamps totalCount (Suc n) idx =
     (if totalCount > idx then
        (if idx < 0 \<or> nat idx \<ge> length timestamps then Panic ''index out of range''
         else result_bind (key_hash (timestamps ! nat idx)) (\<lambda>hash.
              case ToTransactionByKey F now tx (''table-transaction-'' @ hash) of
                Panic e \<Rightarrow> Panic e
              | r \<Rightarrow> result_bind (paging_loop F now tx timestamps totalCount n (idx + 1)) (\<lambda>ts.
                       Ok ((case r of Ok t \<Rightarrow> Some t | _ \<Rightarrow> None) # ts))))
      else paging_loop F now tx timestamps totalCount n idx)"

definition TransactionPaging :: "faults \<Rightarrow> int \<Rightarrow> txn \<Rightarrow> string \<Rightarrow> int \<Rightarrow> int \<Rightarrow>
    (Transaction option list \<times> PagingResult) result" where
  "TransactionPaging F now tx startingHash page pageSize =
     (if pageSize \<le> 0 \<or> pageSize > 100 then Err ErrInvalidRequestPageSize
      else if page \<le> 0 then Err ErrInvalidRequestPage
      else
        let timestamps = rev (map fst (txn_Iterate tx ''key-transaction-time-'' ''key-transaction-time-''));
            totalCount = int (length timestamps)
        in if totalCount = 0 then Ok ([], \<lparr>Count = 0, PageStart = ''''\<rparr>)
           else result_bind (find_start startingHash timestamps 0) (\<lambda>(idx, start).
             let count = totalCount - int idx;
                 idx' = wrap_s64 (wrap_s64 (int idx + wrap_s64 (page * pageSize)) - pageSize)
             in result_bind (paging_loop F now tx timestamps count (nat pageSize) idx') (\<lambda>ts.
                Ok (ts, \<lparr>Count = count, PageStart = start\<rparr>))))"

subsection \<open>node.go\<close>

definition Node_Cache :: "Node \<Rightarrow> cache \<Rightarrow> cache" where
  "Node_Cache n c = cache_SetForever (Node_TypeKey n) (CKey (Node_Key n)) (cache_SetForever (Node_Key n) (CNode n) c)"

definition Node_Persist :: "faults \<Rightarrow> Node \<Rightarrow> txn \<Rightarrow> unit result \<times> txn" where
  "Node_Persist F n tx = txn_Sets F [(Node_Key n, Node_String n), (Node_TypeKey n, Raw (Node_Key n))] tx"

definition Node_Set :: "faults \<Rightarrow> Node \<Rightarrow> txn \<Rightarrow> cache \<Rightarrow> unit result \<times> txn \<times> cache" where
  "Node_Set F n tx c = (let (r, tx') = Node_Persist F n tx in (r, tx', Node_Cache n c))"

definition Node_Unset :: "faults \<Rightarrow> Node \<Rightarrow> txn \<Rightarrow> cache \<Rightarrow> unit result \<times> txn \<times> cache" where
  "Node_Unset F n tx c =
     (let (res, tx') = txn_Delete F (Node_Key n) tx in (res, tx', cache_Delete (Node_Key n) c))"

definition ToNodeFromCache :: "cache \<Rightarrow> string \<Rightarrow> Node result" where
  "ToNodeFromCache c address =
     (case cache_Get (''table-node-'' @ address) c of
        None \<Rightarrow> Err ErrNotFound | Some (CNode n) \<Rightarrow> Ok n | Some _ \<Rightarrow> Panic ''interface conversion'')"

definition ToNodeByKey :: "faults \<Rightarrow> txn \<Rightarrow> string \<Rightarrow> Node result" where
  "ToNodeByKey F tx k = result_bind (txn_Get F tx k) ToNodeFromJson"

definition ToNodeByAddress :: "faults \<Rightarrow> txn \<Rightarrow> string \<Rightarrow> Node result" where
  "ToNodeByAddress F tx address = ToNodeByKey F tx (''table-node-'' @ address)"

definition ToNodesByType :: "faults \<Rightarrow> txn \<Rightarrow> string \<Rightarrow> Node list result" where
  "ToNodesByType F tx tipe =
     (let prefix = ''key-node-type-'' @ tipe
      in collect_ok (\<lambda>it. result_bind (item_Value F it) (\<lambda>v. ToNodeByKey F tx (payload_text v)))
           (txn_Iterate tx prefix prefix))"

fun type_keys :: "string \<Rightarrow> cache \<Rightarrow> string list result" where
  "type_keys p [] = Ok []"
| "type_keys p ((k, x, ttl) # c) =
     (if HasPrefix k p then
        (case x of CKey key \<Rightarrow> result_bind (type_keys p c) (\<lambda>ks. Ok (key # ks))
         | _ \<Rightarrow> Panic ''interface conversion'')
      else type_keys p c)"

fun nodes_of_keys :: "string list \<Rightarrow> cache \<Rightarrow> Node list result" where
  "nodes_of_keys keys [] = Ok []"
| "nodes_of_keys keys ((k, x, ttl) # c) =
     (if k \<in> set keys then
        (case x of CNode n \<Rightarrow> result_bind (nodes_of_keys keys c) (\<lambda>ns. Ok (replicate (count_list keys k) n @ ns))
         | _ \<Rightarrow> Panic ''interface conversion'')
      else nodes_of_keys keys c)"

definition ToNodesByTypeFromCache :: "cache \<Rightarrow> string \<Rightarrow> Node list result" where
  "ToNodesByTypeFromCache c tipe =
     result_bind (type_keys (''key-node-type-'' @ tipe) c) (\<lambda>keys. nodes_of_keys keys c)"

subsection \<open>authentication.go and page.go\<close>

definition Authentication_Cache :: "Authentication \<Rightarrow> cache \<Rightarrow> cache" where
  "Authentication_Cache a c = cache_Set (Authentication_Key a) (CAuthentication a) AuthenticationCacheTTL c"

definition ToAuthenticationFromCache :: "cache \<Rightarrow> string \<Rightarrow> Authentication result" where
  "ToAuthenticationFromCache c hash =
     (case cache_Get (''table-authentication-'' @ hash) c of
        None \<Rightarrow> Err ErrNotFound
      | Some (CAuthentication a) \<Rightarrow> Ok a
      | Some _ \<Rightarrow> Panic ''interface conversion'')"

text \<open>\<open>Verify\<close> looks the address up among authentications that are cached by their hash.\<close>

definition Authentication_Verify :: "crypto \<Rightarrow> int \<Rightarrow> Authentication \<Rightarrow> string \<Rightarrow> cache \<Rightarrow> unit result \<times> cache" where
  "Authentication_Verify C now a address c =
     (case ToAuthenticationFromCache c address of
        Panic e \<Rightarrow> (Panic e, c)
      | Ok _ \<Rightarrow> (Err ''duplicate authentication'', c)
      | Err e \<Rightarrow>
         (if e \<noteq> ErrNotFound then (Err ''duplicate authentication'', c)
          else if wrap_s64 (ToMilliSeconds now - au_Time a) > 5000 then (Err ''authentication timed out'', c)
          else case Authentication_NewHash C a of
            Ok hash \<Rightarrow>
              (if au_Hash a \<noteq> hash then (Err ''invalid hash'', c)
               else case hex_DecodeString (au_Hash a) of None \<Rightarrow> (Err ''unable to decode hash'', c)
               | Some hashBytes \<Rightarrow> (case hex_DecodeString (au_Signature a) of None \<Rightarrow> (Err ''unable to decode signature'', c)
               | Some signatureBytes \<Rightarrow> (case ToPublicKey C hashBytes signatureBytes of
                   Ok publicKeyBytes \<Rightarrow>
                     (if hex_EncodeToString (ToAddress C publicKeyBytes) \<noteq> address
                      then (Err ''node address does not match the computed address from hash and signature'', c)
                      else if \<not> VerifySignature C publicKeyBytes hashBytes signatureBytes
                      then (Err ''invalid signature'', c)
                      else (Ok (), Authentication_Cache a c))
                 | _ \<Rightarrow> (Err ''unable to generate public key from hash and signature'', c))))
          | _ \<Rightarrow> (Err ''unable to compute hash'', c)))"

definition Page_Cache :: "Page \<Rightarrow> cache \<Rightarrow> cache" where
  "Page_Cache p c = cache_Set (Page_Key p) (CPage p) PageTTL c"

definition Page_Persist :: "faults \<Rightarrow> Page \<Rightarrow> txn \<Rightarrow> unit result \<times> txn" where
  "Page_Persist F p tx = txn_Sets F [(Page_Key p, Page_String p)] tx"

definition Page_Set :: "faults \<Rightarrow> Page \<Rightarrow> txn \<Rightarrow> cache \<Rightarrow> unit result \<times> txn \<times> cache" where
  "Page_Set F p tx c = (let (r, tx') = Page_Persist F p tx in (r, tx', Page_Cache p c))"

definition Page_Unset :: "faults \<Rightarrow> Page \<Rightarrow> txn \<Rightarrow> cache \<Rightarrow> unit result \<times> txn \<times> cache" where
  "Page_Unset F p tx c =
     (let (res, tx') = txn_Delete F (Page_Key p) tx in (res, tx', cache_Delete (Page_Key p) c))"

definition ToPageFromCache :: "cache \<Rightarrow> string \<Rightarrow> Page result" where
  "ToPageFromCache c number =
     (case cache_Get number c of
        None \<Rightarrow> Err ErrNotFound | Some (CPage p) \<Rightarrow> Ok p | Some _ \<Rightarrow> Panic ''interface conversion'')"

definition ToPageByKey :: "faults \<Rightarrow> txn \<Rightarrow> string \<Rightarrow> Page result" where
  "ToPageByKey F tx k = result_bind (txn_Get F tx k) ToPageFromJson"

subsection \<open>The key-value store as an interface\<close>

lemma map_of_kv_put [simp]: "map_of (kv_put k v m) = (map_of m)(k \<mapsto> v)"
  by (induction k v m rule: kv_put.induct) (auto simp: fun_eq_iff)

lemma map_of_kv_del [simp]: "map_of (kv_del k m) = (map_of m)(k := None)"
  unfolding kv_del_def by (induction m) (auto simp: fun_eq_iff)

lemma keys_kv_put: "set (map fst (kv_put k v m)) = insert k (set (map fst m))"
  by (induction k v m rule: kv_put.induct) auto

lemma kv_sorted_put: "kv_sorted m \<Longrightarrow> kv_sorted (kv_put k v m)"
  unfolding kv_sorted_def
proof (induction k v m rule: kv_put.induct)
  case (2 k v k' v' m)
  then show ?case
    using keys_kv_put [of k v m] by (auto simp: not_less_iff_gr_or_eq intro: less_trans)
qed simp

lemma kv_sorted_del: "kv_sorted m \<Longrightarrow> kv_sorted (kv_del k m)"
  unfolding kv_sorted_def kv_del_def sorted_wrt_map by (rule sorted_wrt_filter)

lemma kv_sorted_Nil [simp]: "kv_sorted []" by (simp add: kv_sorted_def)

text \<open>
  The interface the database and the cache are used through: a lookup after a write, and the invariant of the
  representation. The sorted lists implement it.
\<close>

locale key_store =
  fixes get :: "'m \<Rightarrow> 'k \<Rightarrow> 'v option"
    and put :: "'k \<Rightarrow> 'v \<Rightarrow> 'm \<Rightarrow> 'm"
    and del :: "'k \<Rightarrow> 'm \<Rightarrow> 'm"
    and invar :: "'m \<Rightarrow> bool"
  assumes get_put: "get (put k v m) k' = (if k' = k then Some v else get m k')"
    and get_del: "get (del k m) k' = (if k' = k then None else get m k')"
    and invar_put: "invar m \<Longrightarrow> invar (put k v m)"
    and invar_del: "invar m \<Longrightarrow> invar (del k m)"
begin

definition wr :: "'k \<Rightarrow> 'v option \<Rightarrow> 'm \<Rightarrow> 'm" where
  "wr k e m = (case e of Some v \<Rightarrow> put k v m | None \<Rightarrow> del k m)"

definition wrs :: "('k \<times> 'v option) list \<Rightarrow> 'm \<Rightarrow> 'm" where
  "wrs ws m = fold (\<lambda>(k, e). wr k e) ws m"

lemma get_wr: "get (wr k e m) k' = (if k' = k then e else get m k')"
  by (cases e) (simp_all add: wr_def get_put get_del)

lemma get_wrs_other: "k \<notin> fst ` set ws \<Longrightarrow> get (wrs ws m) k = get m k"
  unfolding wrs_def by (induction ws arbitrary: m) (auto simp: get_wr)

lemma get_wrs:
  "get (wrs ws m) k = (case map_of (rev ws) k of Some e \<Rightarrow> e | None \<Rightarrow> get m k)"
proof (induction ws rule: rev_induct)
  case (snoc w ws)
  have "wrs (ws @ [w]) m = wr (fst w) (snd w) (wrs ws m)" by (simp add: wrs_def case_prod_beta)
  with snoc show ?case by (cases w) (simp add: get_wr)
qed (simp add: wrs_def)

lemma get_wrs_ext:
  assumes "\<And>k. get m k = get m' k" shows "get (wrs ws m) k = get (wrs ws m') k"
  using assms by (simp add: get_wrs split: option.split)

lemma invar_wr: "invar m \<Longrightarrow> invar (wr k e m)"
  by (cases e) (simp_all add: wr_def invar_put invar_del)

lemma invar_wrs: "invar m \<Longrightarrow> invar (wrs ws m)"
  unfolding wrs_def by (induction ws arbitrary: m) (auto simp: invar_wr)

end

interpretation kv: key_store map_of kv_put kv_del kv_sorted
  by unfold_locales (auto simp: kv_sorted_put kv_sorted_del)

lemma kv_wr_eq: "kv.wr = txn_write"
  by (simp add: fun_eq_iff kv.wr_def txn_write_def)

lemma txn_Commit_writes:
  "f_commit F = None \<Longrightarrow> txn_Commit F tx d = (Ok (), kv.wrs (t_writes tx) d)"
  by (simp add: txn_Commit_def kv.wrs_def kv_wr_eq)

lemma cache_Get_Set [simp]: "cache_Get k (cache_Set k' x ttl c) = (if k = k' then Some x else cache_Get k c)"
  by (simp add: cache_Get_def cache_Set_def)

lemma cache_Get_SetForever [simp]:
  "cache_Get k (cache_SetForever k' x c) = (if k = k' then Some x else cache_Get k c)"
  by (simp add: cache_Get_def cache_SetForever_def)

lemma cache_Get_Delete [simp]: "cache_Get k (cache_Delete k' c) = (if k = k' then None else cache_Get k c)"
  by (simp add: cache_Get_def cache_Delete_def)

definition txn_ok :: "db \<Rightarrow> txn \<Rightarrow> bool" where
  "txn_ok d tx \<longleftrightarrow> (\<forall>k. map_of (t_view tx) k = map_of (kv.wrs (t_writes tx) d) k)"

lemma txn_ok_New [simp]: "txn_ok d (NewTransaction u d)"
  by (simp add: txn_ok_def NewTransaction_def kv.wrs_def)

lemma kv_writes_snoc: "kv.wrs (ws @ [(k, e)]) m = txn_write k e (kv.wrs ws m)"
  by (simp add: kv.wrs_def kv_wr_eq)

lemma map_of_txn_write: "map_of (txn_write k e m) k' = (if k' = k then e else map_of m k')"
  using kv.get_wr [of k e m k'] by (simp add: kv_wr_eq)

lemma txn_ok_Put: "txn_ok d tx \<Longrightarrow> txn_ok d (snd (txn_Put F k e tx))"
  by (auto simp: txn_ok_def txn_Put_def kv_writes_snoc map_of_txn_write split: option.splits)

lemma txn_Sets_no_faults:
  "t_update tx \<Longrightarrow> \<forall>k. f_set F k = None \<Longrightarrow>
   txn_Sets F kvs tx = (Ok (), tx\<lparr>t_view := kv.wrs (map (\<lambda>(k, v). (k, Some (v, None))) kvs) (t_view tx),
                                t_writes := t_writes tx @ map (\<lambda>(k, v). (k, Some (v, None))) kvs\<rparr>)"
proof (induction kvs arbitrary: tx)
  case (Cons kv kvs)
  show ?case
  proof (cases kv)
    case (Pair k v)
    with Cons show ?thesis
      by (simp add: txn_Set_def txn_Put_def kv.wrs_def kv_wr_eq)
  qed
qed (simp add: kv.wrs_def)

lemma txn_ok_Sets: "txn_ok d tx \<Longrightarrow> txn_ok d (snd (txn_Sets F kvs tx))"
proof (induction F kvs tx rule: txn_Sets.induct)
  case (2 F k v kvs tx)
  then show ?case
    using txn_ok_Put [of d tx F k "Some (v, None)"]
    by (auto simp: txn_Set_def split: prod.splits result.splits)
qed simp

lemma enumerate_filter:
  "map snd (filter (\<lambda>(i, x). a \<le> int i \<and> int i < b) (List.enumerate n xs)) =
   take (nat (b - max a (int n))) (drop (nat (a - int n)) xs)"
proof (induction xs arbitrary: n)
  case (Cons x xs)
  show ?case
  proof (cases "a \<le> int n")
    case True
    then have "max a (int n) = int n" "max a (int (Suc n)) = int (Suc n)" "nat (a - int n) = 0" "nat (a - int (Suc n)) = 0"
      by auto
    moreover have "nat (b - int n) = (if int n < b then Suc (nat (b - int (Suc n))) else 0)" by auto
    ultimately show ?thesis using Cons [of "Suc n"] True by simp
  next
    case False
    then have "nat (a - int n) = Suc (nat (a - int (Suc n)))" "max a (int n) = a" "max a (int (Suc n)) = a" by auto
    then show ?thesis using Cons [of "Suc n"] False by simp
  qed
qed simp

lemma page_items_take_drop:
  assumes "1 \<le> page" "1 \<le> s" "page * s < 2 ^ 62"
  shows "page_items (page_first page s) (wrap_s64 (page_first page s + s)) xs =
         take (nat s) (drop (nat ((page - 1) * s)) xs)"
proof -
  have s: "s \<le> page * s" using assms by (simp add: mult_le_cancel_right1)
  have b: "0 \<le> page * s" "s - 1 \<le> page * s" using assms s by linarith+
  have e: "(page - 1) * s + 1 = page * s - (s - 1)" by (simp add: algebra_simps)
  have "is_s64 (page * s)" "is_s64 (page * s - (s - 1))" "is_s64 (page * s - (s - 1) + s)"
    using assms s b by (simp_all add: is_s64_def)
  then have f: "page_first page s = (page - 1) * s + 1"
    and l: "wrap_s64 (page_first page s + s) = (page - 1) * s + 1 + s"
    unfolding e page_first_def by (simp_all only: wrap_s64_id)
  have "0 \<le> (page - 1) * s" using assms by simp
  then have "max ((page - 1) * s + 1) (int 1) = (page - 1) * s + 1" by simp
  then show ?thesis unfolding page_items_def l unfolding f enumerate_filter by simp
qed

lemma HasPrefix_append [simp]: "HasPrefix (p @ s) p"
  by (simp add: HasPrefix_def)

lemma HasPrefix_iff: "HasPrefix k p \<longleftrightarrow> (\<exists>s. k = p @ s)"
proof
  assume "HasPrefix k p"
  then have "k = p @ drop (length p) k" by (metis HasPrefix_def append_take_drop_id)
  then show "\<exists>s. k = p @ s" by blast
qed auto

lemma prefix_le: "p \<le> p @ (s :: string)"
  by (induction p) simp_all

lemma past_prefix: "(p :: string) \<le> k \<Longrightarrow> \<nexists>s. k = p @ s \<Longrightarrow> p @ t < k"
proof (induction p arbitrary: k)
  case (Cons a p)
  from Cons.prems(1) obtain b k' where k: "k = b # k'" by (cases k) auto
  show ?case
  proof (cases "a = b")
    case True
    then show ?thesis using Cons k by auto
  next
    case False
    then show ?thesis using Cons.prems(1) k by auto
  qed
qed simp

lemma takeWhile_prefix_sorted:
  "sorted_wrt (<) (map fst m) \<Longrightarrow> \<forall>x \<in> set m. p \<le> fst x \<Longrightarrow>
   takeWhile (\<lambda>(k, e). HasPrefix k p) m = filter (\<lambda>(k, e). HasPrefix k p) (m :: 'v kv)"
proof (induction m)
  case (Cons x m)
  obtain k e where x: "x = (k, e)" by (cases x)
  show ?case
  proof (cases "HasPrefix k p")
    case True
    then show ?thesis using Cons x by simp
  next
    case False
    have "\<not> HasPrefix (fst y) p" if "y \<in> set m" for y
    proof
      assume "HasPrefix (fst y) p"
      then obtain t where t: "fst y = p @ t" by (auto simp: HasPrefix_iff)
      have "p @ t < k" using False Cons.prems(2) x by (intro past_prefix) (auto simp: HasPrefix_iff)
      moreover have "k < fst y" using Cons.prems(1) that x by auto
      ultimately show False using t by simp
    qed
    then have "filter (\<lambda>(k, e). HasPrefix k p) m = []" by (auto simp: filter_empty_conv)
    then show ?thesis using False x by simp
  qed
qed simp

lemma dropWhile_less_sorted:
  "sorted_wrt (<) (map fst m) \<Longrightarrow> dropWhile (\<lambda>(k, e). k < p) m = filter (\<lambda>(k, e). p \<le> k) (m :: 'v kv)"
proof (induction m)
  case (Cons x m)
  obtain k e where x: "x = (k, e)" by (cases x)
  show ?case
  proof (cases "k < p")
    case False
    have "\<forall>y \<in> set m. p \<le> fst y" using Cons.prems False x by force
    then have "filter (\<lambda>(k, e). p \<le> k) m = m" by (auto simp: filter_id_conv)
    then show ?thesis using False x by simp
  qed (use Cons x in simp)
qed simp

lemma txn_Iterate_filter:
  assumes "kv_sorted (t_view tx)"
  shows "txn_Iterate tx p p = map (\<lambda>(k, e). (k, fst e)) (filter (\<lambda>(k, e). HasPrefix k p) (t_view tx))"
proof -
  have s: "sorted_wrt (<) (map fst (t_view tx))" using assms by (simp add: kv_sorted_def)
  have "sorted_wrt (<) (map fst (filter (\<lambda>(k, e). p \<le> k) (t_view tx)))"
    using s unfolding sorted_wrt_map by (rule sorted_wrt_filter)
  then have "takeWhile (\<lambda>(k, e). HasPrefix k p) (filter (\<lambda>(k, e). p \<le> k) (t_view tx)) =
      filter (\<lambda>(k, e). HasPrefix k p) (filter (\<lambda>(k, e). p \<le> k) (t_view tx))"
    by (rule takeWhile_prefix_sorted) auto
  also have "\<dots> = filter (\<lambda>(k, e). HasPrefix k p) (t_view tx)"
    by (auto simp: HasPrefix_iff prefix_le intro!: filter_cong)
  finally show ?thesis unfolding txn_Iterate_def dropWhile_less_sorted [OF s] by simp
qed

definition puts :: "(string \<times> payload) list \<Rightarrow> (string \<times> entry option) list" where
  "puts kvs = map (\<lambda>(k, v). (k, Some (v, None))) kvs"

lemma txn_Sets_nf:
  "t_update tx \<Longrightarrow> txn_Sets no_faults kvs tx =
     (Ok (), tx\<lparr>t_view := kv.wrs (puts kvs) (t_view tx), t_writes := t_writes tx @ puts kvs\<rparr>)"
  unfolding puts_def by (rule txn_Sets_no_faults) (simp_all add: no_faults_def)

lemma txn_Get_nf:
  "txn_Get no_faults tx k = (case map_of (t_view tx) k of None \<Rightarrow> Err ErrKeyNotFound | Some (v, ttl) \<Rightarrow> Ok v)"
  by (simp add: txn_Get_def no_faults_def)

lemma get_puts:
  "map_of (kv.wrs (puts kvs) m) k = (case map_of (rev kvs) k of Some v \<Rightarrow> Some (v, None) | None \<Rightarrow> map_of m k)"
proof (induction kvs rule: rev_induct)
  case (snoc kv kvs)
  then show ?case by (cases kv) (simp add: puts_def kv_writes_snoc map_of_txn_write)
qed (simp add: puts_def kv.wrs_def)

lemmas tx_keys = Transaction_Key_def Transaction_TypeKey_def Transaction_TimeKey_def Transaction_FromKey_def
  Transaction_ToKey_def

lemma item_Value_no_faults [simp]: "item_Value no_faults it = Ok (snd it)"
  by (simp add: item_Value_def no_faults_def)

lemma append_ne_self: "xs \<noteq> [] \<Longrightarrow> a \<noteq> xs @ (a :: string)"
  by (metis append_self_conv2)

lemma Authentication_Verify_fresh:
  assumes "ToAuthenticationFromCache c address = Err ErrNotFound"
    and "wrap_s64 (ToMilliSeconds now - au_Time a) \<le> 5000"
    and "Authentication_NewHash C a = Ok (au_Hash a)"
    and "hex_DecodeString (au_Hash a) = Some h" and "hex_DecodeString (au_Signature a) = Some s"
    and "ToPublicKey C h s = Ok pk" and "address = hex_EncodeToString (ToAddress C pk)" and "VerifySignature C pk h s"
  shows "Authentication_Verify C now a address c = (Ok (), Authentication_Cache a c)"
  using assms by (simp add: Authentication_Verify_def)

lemma NewAuthentication_Ok:
  assumes laws: "crypto_laws C pub" and key: "signing_key C k"
    and acc: "a_PrivateKey account = hex_EncodeToString k" "a_Address account = hex_EncodeToString (ToAddress C (pub k))"
  obtains a h s where "NewAuthentication C now account = Ok a" "au_Time a = ToMilliSeconds now"
    "Authentication_NewHash C a = Ok (au_Hash a)" "au_Hash a = hex_EncodeToString h" "length h = 32"
    "au_Signature a = hex_EncodeToString s" "ToPublicKey C h s = Ok (pub k)" "VerifySignature C (pub k) h s"
proof -
  define h where "h = crypto_NewHash C (int64_LittleEndian (ToMilliSeconds now))"
  have h: "length h = 32" using laws by (simp add: crypto_laws_def h_def crypto_NewHash_def)
  obtain s where s: "crypto_NewSignature C k h = Ok s" using signing_key_signs [OF key h] by blast
  note sr = Sign_recover [OF laws s]
  define a where "a = Authentication_zero\<lparr>au_Time := ToMilliSeconds now, au_Hash := hex_EncodeToString h,
      au_Signature := hex_EncodeToString s\<rparr>"
  have "NewAuthentication C now account = Ok a"
    using acc s sr by (simp add: NewAuthentication_def Authentication_NewHash_def Authentication_NewSignature_def
        Authentication_GetDerivedAddress_def Authentication_zero_def a_def h_def)
  with that [of a h s] h sr show thesis by (simp add: a_def Authentication_NewHash_def h_def)
qed

subsection \<open>What the store promises\<close>

text \<open>
  \<open>AccountPaging\<close> without a start returns, for page \<open>p\<close> of size \<open>s\<close>, the accounts stored at positions
  \<open>(p-1)*s .. p*s-1\<close> of the account table in key order, so the pages partition the table.
\<close>
theorem account_page_contents:
  assumes "kv_sorted (t_view tx)" and "1 \<le> page" and "1 \<le> pageSize" and "pageSize \<le> 100" and "page * pageSize < 2 ^ 62"
  shows "AccountPaging no_faults tx '''' page pageSize =
    collect_ok (\<lambda>(k, v, ttl). ToAccountFromJson v)
      (take (nat pageSize) (drop (nat ((page - 1) * pageSize))
        (filter (\<lambda>(k, e). HasPrefix k ''table-account-'') (t_view tx))))"
proof -
  have map_collect: "collect_ok (\<lambda>it. ToAccountFromJson (snd it)) (map (\<lambda>(k, e). (k, fst e)) xs) =
      collect_ok (\<lambda>(k, v, ttl). ToAccountFromJson v) xs" for xs :: db
    by (induction xs) (auto split: result.splits)
  show ?thesis
    using assms by (simp add: AccountPaging_def page_items_take_drop txn_Iterate_filter drop_map take_map map_collect)
qed

theorem account_page_contents_witness:
  "AccountPaging no_faults (NewTransaction True [(''Page-1'', (Raw '''', None)), (''table-account-a'', (Doc (JObj []), None)),
       (''table-account-b'', (Doc (JObj [(''name'', JStr ''B'')]), None))]) '''' 2 1 = Ok [Account_zero\<lparr>a_Name := ''B''\<rparr>]"
proof -
  let ?tx = "NewTransaction True [(''Page-1'', (Raw '''', None)), (''table-account-a'', (Doc (JObj []), None)),
       (''table-account-b'', (Doc (JObj [(''name'', JStr ''B'')]), None))]"
  have "kv_sorted (t_view ?tx)" by code_simp
  from account_page_contents [OF this, of 2 1] show ?thesis
    by (simp add: NewTransaction_def HasPrefix_def ToAccountFromJson_def Account_UnmarshalJSON_def json_read)
qed

text \<open>
  C29. Persisting a transaction stores its document under its key, and the key under each of the four index
  keys (type, time, sender, receiver).
\<close>
theorem transaction_persist_indexed:
  "let (res, tx) = Transaction_Persist no_faults t (NewTransaction True d)
   in res = Ok () \<and> txn_Get no_faults tx (Transaction_Key t) = Ok (Transaction_String t) \<and>
      list_all (\<lambda>k. txn_Get no_faults tx k = Ok (Raw (Transaction_Key t)))
        [Transaction_TypeKey t, Transaction_TimeKey t, Transaction_FromKey t, Transaction_ToKey t]"
  by (simp add: Transaction_Persist_def NewTransaction_def txn_Sets_nf txn_Get_nf get_puts tx_keys del: txn_Sets.simps)

text \<open>
  The sender index holds one transaction per sender and millisecond: persisting a second transaction of
  the same sender and time makes the first one's index entry point to the second.
\<close>
theorem from_index_collision:
  "let tx1 = snd (Transaction_Persist no_faults t1 (NewTransaction True d));
       t2' = t2\<lparr>tx_From := tx_From t1, tx_Time := tx_Time t1\<rparr>;
       tx2 = snd (Transaction_Persist no_faults t2' tx1)
   in txn_Get no_faults tx2 (Transaction_FromKey t1) = Ok (Raw (Transaction_Key t2'))"
  by (simp add: Transaction_Persist_def NewTransaction_def txn_Sets_nf txn_Get_nf get_puts tx_keys del: txn_Sets.simps)

text \<open>
  \<open>ToAccountByName\<close> does not find an account that was persisted under that name: the index holds the
  account's key, and the lookup prefixes it once more.
\<close>
theorem account_by_name_never_found:
  assumes "t_update tx" and "a_Balance a \<noteq> None"
    and "map_of (t_view tx) (''table-account-table-account-'' @ a_Address a) = None"
  shows "\<exists>tx'. Account_Persist no_faults a tx = (Ok (), tx') \<and>
               txn_Get no_faults tx' (''key-account-name-'' @ ToLower (a_Name a)) = Ok (Raw (Account_Key a)) \<and>
               ToAccountByName no_faults tx' (ToLower (a_Name a)) = Err ErrKeyNotFound"
proof -
  obtain v where v: "Account_String a = Ok v"
    using assms(2) by (cases "time_ok (a_Updated a)"; cases "time_ok (a_Created a)")
      (auto simp: Account_String_def Account_MarshalJSON_def time_Marshal_def)
  have "a_Address a \<noteq> ''table-account-'' @ a_Address a" by (rule append_ne_self) simp
  then show ?thesis
    using assms v
    by (auto simp: Account_Persist_def txn_Sets_nf txn_Get_nf get_puts ToAccountByName_def ToAccountByAddress_def
      Account_Key_def Account_NameKey_def payload_text_def simp del: txn_Sets.simps)
qed

theorem account_by_name_never_found_witness:
  "\<exists>tx'. Account_Persist no_faults (Account_zero\<lparr>a_Name := ''Bob'', a_Balance := Some 5\<rparr>) (NewTransaction True []) = (Ok (), tx') \<and>
     txn_Get no_faults tx' (''key-account-name-'' @ ToLower ''Bob'') =
       Ok (Raw (Account_Key (Account_zero\<lparr>a_Name := ''Bob'', a_Balance := Some 5\<rparr>))) \<and>
     ToAccountByName no_faults tx' (ToLower ''Bob'') = Err ErrKeyNotFound"
  using account_by_name_never_found
    [of "NewTransaction True []" "Account_zero\<lparr>a_Name := ''Bob'', a_Balance := Some 5\<rparr>"]
  by (simp add: NewTransaction_def)

text \<open>
  An authentication a node makes with its own account is accepted by \<open>Verify\<close> and cached, and the very
  same authentication is accepted again: the check for duplicates looks the address up, the cache is keyed by hash.
\<close>
theorem authentication_replay_accepted:
  assumes "crypto_laws C pub" and "signing_key C k" and "a_PrivateKey account = hex_EncodeToString k"
    and "a_Address account = hex_EncodeToString (ToAddress C (pub k))"
    and "cache_Get (''table-authentication-'' @ a_Address account) c = None"
  shows "\<exists>a c'. NewAuthentication C now account = Ok a \<and>
           Authentication_Verify C now a (a_Address account) c = (Ok (), c') \<and>
           cache_Get (Authentication_Key a) c' = Some (CAuthentication a) \<and>
           fst (Authentication_Verify C now a (a_Address account) c') = Ok ()"
proof -
  from NewAuthentication_Ok [OF assms(1-4), of now] obtain a h s where
    new: "NewAuthentication C now account = Ok a" and t: "au_Time a = ToMilliSeconds now"
    and nh: "Authentication_NewHash C a = Ok (au_Hash a)" and h: "au_Hash a = hex_EncodeToString h" "length h = 32"
    and s: "au_Signature a = hex_EncodeToString s" and pk: "ToPublicKey C h s = Ok (pub k)"
    and ver: "VerifySignature C (pub k) h s" by blast
  have v: "Authentication_Verify C now a (a_Address account) c0 = (Ok (), Authentication_Cache a c0)"
    if "ToAuthenticationFromCache c0 (a_Address account) = Err ErrNotFound" for c0
    using that t nh h s pk ver assms(4) by (intro Authentication_Verify_fresh) (auto simp: is_s64_def)
  have "length (ToAddress C (pub k)) = 20" using assms(1) by (simp add: ToAddress_def crypto_NewHash_def crypto_laws_def)
  then have "length (a_Address account) \<noteq> length (au_Hash a)" using assms(4) h by simp
  then have "a_Address account \<noteq> au_Hash a" by auto
  moreover have "ToAuthenticationFromCache c (a_Address account) = Err ErrNotFound"
    using assms(5) by (simp add: ToAuthenticationFromCache_def)
  ultimately show ?thesis
    using new v by (auto simp: Authentication_Cache_def ToAuthenticationFromCache_def Authentication_Key_def)
qed

theorem authentication_replay_accepted_witness:
  "\<exists>a c'. NewAuthentication sample_crypto 0
             (Account_zero\<lparr>a_PrivateKey := hex_EncodeToString sample_key, a_Address := sample_from\<rparr>) = Ok a \<and>
     Authentication_Verify sample_crypto 0 a sample_from [] = (Ok (), c') \<and>
     cache_Get (Authentication_Key a) c' = Some (CAuthentication a) \<and>
     fst (Authentication_Verify sample_crypto 0 a sample_from c') = Ok ()"
  using authentication_replay_accepted [OF sample_crypto_laws sample_key_signs,
      of "Account_zero\<lparr>a_PrivateKey := hex_EncodeToString sample_key, a_Address := sample_from\<rparr>" "[]" 0]
  by (simp add: sample_from_def cache_Get_def)

text \<open>
  \<open>TransactionPaging\<close> with a start in the middle: of the two transactions left from \<open>b\<close> on it reports the
  count 2 but lists one, because the index, which counts from the first entry, is compared with a count that
  was reduced by the start. From the first entry all three are listed. (The records are absent here, so each
  listed entry is nil.)
\<close>
theorem paging_loses_items:
  "let tx = NewTransaction True
        [(''key-transaction-time-1-a'', (Raw ''table-transaction-a'', None)),
         (''key-transaction-time-2-b'', (Raw ''table-transaction-b'', None)),
         (''key-transaction-time-3-c'', (Raw ''table-transaction-c'', None))]
   in TransactionPaging no_faults now tx '''' 1 10 = Ok ([None, None, None], \<lparr>Count = 3, PageStart = ''c''\<rparr>) \<and>
      TransactionPaging no_faults now tx ''b'' 1 10 = Ok ([None], \<lparr>Count = 2, PageStart = ''b''\<rparr>)"
  by code_simp

end
