(* ===== verification/Consensus.thy ===== *)
theory Consensus
  imports Store Queues
begin

section \<open>Gossip and consensus (dapos/dapos_handshake.go, dapos_transport_grpc.go)\<close>

text \<open>
  One delegate: its database, cache and heap of shared objects, the gossip channel (addresses of gossips, in
  the order they were sent), the pending timers and time-out tokens, the gossip queue, and the messages it has
  put on the network.

  Each handler (an API call, an incoming gossip, one round of \<open>gossipWorker\<close>, one round of
  \<open>transactionWorker\<close>) is a function on this state that runs to its end at one reading \<open>now\<close> of the clock;
  a \<open>Panic\<close> result is the run-time panic that ends the process. The environment of a run is explicit: the
  database errors \<open>F\<close>, the answers \<open>peer\<close> of the other delegates by address, and the random number \<open>rnd\<close>.
  Channels are unbounded here (their capacity is 1000 in the code; a full channel blocks the sender).
\<close>

subsection \<open>State and environment\<close>

datatype peer_outcome = DialError string | RpcError string | Reply payload

record env =
  e_crypto :: crypto
  e_account :: Account
  e_thisNode :: Node
  e_isBookkeeper :: bool

record dapos =
  s_db :: db
  s_cache :: cache
  s_heap :: heap
  s_gossipChan :: "nat list"
  s_timers :: "int list"
  s_timoutChan :: nat
  s_gossipQueue :: "nat GossipQueue"
  s_delegateMap :: "Node kv"
  s_sent :: "(string \<times> payload) list"

type_synonym peers = "string \<Rightarrow> peer_outcome"

definition heap_empty :: heap where
  "heap_empty = \<lparr>h_gossips = [], h_receipts = [], h_txs = []\<rparr>"

definition dapos_init :: "db \<Rightarrow> cache \<Rightarrow> dapos" where
  "dapos_init d c = \<lparr>s_db = d, s_cache = c, s_heap = heap_empty, s_gossipChan = [], s_timers = [],
     s_timoutChan = 0, s_gossipQueue = NewGossipQueue, s_delegateMap = [], s_sent = []\<rparr>"

definition s_gossip :: "dapos \<Rightarrow> nat \<Rightarrow> Gossip" where
  "s_gossip st p = gossip_at (s_heap st) p"

definition gossip_hash :: "dapos \<Rightarrow> nat \<Rightarrow> string" where
  "gossip_hash st p = tx_Hash (g_Transaction (s_gossip st p))"

definition gossip_time :: "dapos \<Rightarrow> nat \<Rightarrow> int" where
  "gossip_time st p = tx_Time (g_Transaction (s_gossip st p))"

definition put_gossip :: "nat \<Rightarrow> Gossip \<Rightarrow> dapos \<Rightarrow> dapos" where
  "put_gossip p g st = st\<lparr>s_heap := set_gossip p g (s_heap st)\<rparr>"

definition alloc_gossip :: "Gossip \<Rightarrow> dapos \<Rightarrow> nat \<times> dapos" where
  "alloc_gossip g st = (let (p, h) = new_gossip g (s_heap st) in (p, st\<lparr>s_heap := h\<rparr>))"

definition alloc_receipt :: "Receipt \<Rightarrow> dapos \<Rightarrow> nat \<times> dapos" where
  "alloc_receipt r st = (let (p, h) = new_receipt r (s_heap st) in (p, st\<lparr>s_heap := h\<rparr>))"

definition cache_receipt :: "nat \<Rightarrow> dapos \<Rightarrow> dapos" where
  "cache_receipt p st = st\<lparr>s_cache := Receipt_Cache (s_heap st) p (s_cache st)\<rparr>"

definition cache_gossip :: "nat \<Rightarrow> dapos \<Rightarrow> dapos" where
  "cache_gossip p st = st\<lparr>s_cache := Gossip_Cache (s_heap st) p (s_cache st)\<rparr>"

definition append_rumor :: "nat \<Rightarrow> Rumor \<Rightarrow> dapos \<Rightarrow> dapos" where
  "append_rumor p r st = (let g = s_gossip st p in put_gossip p (g\<lparr>g_Rumors := g_Rumors g @ [r]\<rparr>) st)"

definition send_chan :: "nat \<Rightarrow> dapos \<Rightarrow> dapos" where
  "send_chan p st = st\<lparr>s_gossipChan := s_gossipChan st @ [p]\<rparr>"

text \<open>\<open>types.NewRumor\<close> with the node's own account.\<close>

definition own_rumor :: "env \<Rightarrow> int \<Rightarrow> string \<Rightarrow> Rumor option" where
  "own_rumor E now hash = NewRumor (e_crypto E) now (a_PrivateKey (e_account E)) (a_Address (e_account E)) hash"

subsection \<open>peerGossipGrpc and cacheOnFirstReceive\<close>

text \<open>
  A failed call marks a copy of the node as unavailable in the cache (and in a database transaction that is
  discarded). The answer is only parsed and the delegate remembered as served. Nil endpoints are dereferenced.
\<close>

definition peerGossipGrpc :: "env \<Rightarrow> faults \<Rightarrow> int \<Rightarrow> peers \<Rightarrow> Node \<Rightarrow> nat \<Rightarrow> dapos \<Rightarrow> Gossip result \<times> dapos" where
  "peerGossipGrpc E F now peer node p st =
     (if n_GrpcEndpoint node = None then (Panic ''nil pointer dereference'', st)
      else case peer (n_Address node) of
        DialError e \<Rightarrow> (Err e, st)
      | RpcError e \<Rightarrow>
          (let node' = node\<lparr>n_Status := StatusNodeUnavailable, n_StatusTime := now\<rparr>;
               (res, tx, c) = Node_Set F node' (NewTransaction True (s_db st)) (s_cache st)
           in (Err e, st\<lparr>s_cache := c, s_sent := s_sent st @ [(n_Address node, Gossip_String (s_gossip st p))]\<rparr>))
      | Reply payload \<Rightarrow>
          (let st1 = st\<lparr>s_sent := s_sent st @ [(n_Address node, Gossip_String (s_gossip st p))]\<rparr>
           in case ToGossipFromJson now payload of
                Err e \<Rightarrow> (Err e, st1)
              | Panic e \<Rightarrow> (Panic e, st1)
              | Ok remoteGossip \<Rightarrow>
                  (if n_HttpEndpoint node = None then (Panic ''nil pointer dereference'', st1)
                   else case Gossip_CacheSentDelegate (gossip_hash st p) (n_Address node) (s_cache st1) of
                          Ok c \<Rightarrow> (Ok remoteGossip, st1\<lparr>s_cache := c\<rparr>)
                        | Err e \<Rightarrow> (Err e, st1)
                        | Panic e \<Rightarrow> (Panic e, st1))))"

fun send_first :: "env \<Rightarrow> faults \<Rightarrow> int \<Rightarrow> peers \<Rightarrow> nat \<Rightarrow> Node list \<Rightarrow> dapos \<Rightarrow> unit result \<times> dapos" where
  "send_first E F now peer p [] st = (Ok (), st)"
| "send_first E F now peer p (node # nodes) st =
     (case Gossip_HaveSent (s_cache st) (gossip_hash st p) (n_Address node) of
        Ok haveSent \<Rightarrow>
          (if \<not> haveSent \<and> n_Address node \<noteq> n_Address (e_thisNode E)
           then (case peerGossipGrpc E F now peer node p st of
                   (Panic e, st') \<Rightarrow> (Panic e, st')
                 | (_, st') \<Rightarrow> send_first E F now peer p nodes st')
           else send_first E F now peer p nodes st)
      | Err e \<Rightarrow> (Err e, st)
      | Panic e \<Rightarrow> (Panic e, st))"

definition cacheOnFirstReceive :: "env \<Rightarrow> faults \<Rightarrow> int \<Rightarrow> peers \<Rightarrow> nat \<Rightarrow> dapos \<Rightarrow> unit result \<times> dapos" where
  "cacheOnFirstReceive E F now peer p st =
     (let (q, st1) = alloc_receipt (NewReceipt now (gossip_hash st p)) st;
          st2 = cache_gossip p (cache_receipt q st1);
          st3 = st2\<lparr>s_cache := Transaction_Cache (s_heap st2) (TxOfGossip p) (s_cache st2)\<rparr>
      in case ToNodesByTypeFromCache (s_cache st3) TypeDelegate of
           Err e \<Rightarrow> (Ok (), st3)
         | Panic e \<Rightarrow> (Panic e, st3)
         | Ok nodes \<Rightarrow> send_first E F now peer p nodes st3)"

subsection \<open>startGossiping\<close>

definition startGossiping :: "env \<Rightarrow> faults \<Rightarrow> int \<Rightarrow> peers \<Rightarrow> Transaction \<Rightarrow> dapos \<Rightarrow> 'd Response result \<times> dapos" where
  "startGossiping E F now peer t st =
     (case Transaction_Verify (e_crypto E) t of
        Err e \<Rightarrow> (Ok (NewResponseWithStatus now StatusInvalidTransaction e), st)
      | Panic e \<Rightarrow> (Panic e, st)
      | Ok _ \<Rightarrow>
       (if wrap_s64 (ToMilliSeconds now - tx_Time t) > TxReceiveTimeout
        then (Ok (NewResponseWithStatus now StatusTransactionTimeOut
                    ''Transaction was received later than 3 second limit''), st)
        else case txn_Get F (NewTransaction False (s_db st)) (Transaction_Key t) of
          Ok _ \<Rightarrow> (Ok (NewResponseWithStatus now StatusDuplicateTransaction ''Duplicate transaction''), st)
        | Panic e \<Rightarrow> (Panic e, st)
        | Err e \<Rightarrow>
         (if e \<noteq> ErrKeyNotFound then (Ok (NewResponseWithError now e), st)
          else case ToTransactionFromCache (s_cache st) (tx_Hash t) (s_heap st) of
            (Ok _, h) \<Rightarrow>
              (Ok (NewResponseWithStatus now StatusAlreadyProcessingTransaction
                     ''Transaction is already being processed''), st\<lparr>s_heap := h\<rparr>)
          | (Panic e, h) \<Rightarrow> (Panic e, st)
          | (Err e, h) \<Rightarrow>
            (case own_rumor E now (tx_Hash t) of
               None \<Rightarrow> (Panic ''nil pointer dereference'', st)
             | Some rumor \<Rightarrow>
                 let (p, st1) = alloc_gossip (NewGossip t) st;
                     st2 = append_rumor p rumor st1
                 in case cacheOnFirstReceive E F now peer p st2 of
                      (Panic e, st3) \<Rightarrow> (Panic e, st3)
                    | (_, st3) \<Rightarrow> (Ok (NewResponseWithStatus now StatusPending ''Pending''), send_chan p st3)))))"

definition Temp_ProcessTransaction :: "env \<Rightarrow> int \<Rightarrow> Transaction \<Rightarrow> dapos \<Rightarrow> 'd Response result \<times> dapos" where
  "Temp_ProcessTransaction E now t st =
     (let (q, st1) = alloc_receipt (NewReceipt now (tx_Hash t)) st;
          st2 = cache_receipt q st1;
          (p, st3) = alloc_gossip (NewGossip t) st2
      in case own_rumor E now (tx_Hash t) of
           None \<Rightarrow> (Panic ''nil pointer dereference'', st3)
         | Some rumor \<Rightarrow>
             (Ok (NewResponseWithStatus now StatusPending ''Pending''),
              send_chan p (cache_gossip p (append_rumor p rumor st3))))"

subsection \<open>synchronizeGossip and GossipGrpc\<close>

text \<open>
  The loop over the rumors of the received gossip when one is cached at \<open>op\<close>: \<open>hasAll\<close> is set again for every
  rumor, so it says whether the last one was known.
\<close>

fun merge_rumors :: "crypto \<Rightarrow> nat \<Rightarrow> Rumor list \<Rightarrow> bool \<Rightarrow> dapos \<Rightarrow> bool \<times> dapos" where
  "merge_rumors C op [] hasAll st = (hasAll, st)"
| "merge_rumors C op (rumor # rumors) hasAll st =
     (let known = Gossip_ContainsRumor (s_gossip st op) (r_Address rumor);
          st' = (if \<not> known \<and> Rumor_Verify C rumor then append_rumor op rumor st else st)
      in merge_rumors C op rumors known st')"

text \<open>The result: the synchronized gossip, the error if any, and whether the gossip is to be put on the channel.\<close>

definition synchronizeGossip :: "env \<Rightarrow> faults \<Rightarrow> int \<Rightarrow> peers \<Rightarrow> nat \<Rightarrow> dapos \<Rightarrow>
    (nat \<times> unit result \<times> bool) result \<times> dapos" where
  "synchronizeGossip E F now peer p st =
     (let gossip = s_gossip st p; hash = tx_Hash (g_Transaction gossip);
          first = (case ToGossipFromCache (s_cache st) hash of
                     Ok op \<Rightarrow> (let (hasAll, st') = merge_rumors (e_crypto E) op (g_Rumors gossip) False st
                               in Ok (op, hasAll, st'))
                   | Err e \<Rightarrow> Ok (p, False, st)
                   | Panic e \<Rightarrow> Panic e)
      in case first of
           Panic e \<Rightarrow> (Panic e, st)
         | Err e \<Rightarrow> (Err e, st)
         | Ok (sp, hasAll, st1) \<Rightarrow>
            (if Gossip_ContainsRumor (s_gossip st1 sp) (a_Address (e_account E))
             then (Ok (sp, Ok (), \<not> hasAll), st1)
             else case Transaction_Verify (e_crypto E) (g_Transaction gossip) of
               Ok _ \<Rightarrow>
                (case own_rumor E now hash of
                   None \<Rightarrow> (Panic ''nil pointer dereference'', st1)
                 | Some rumor \<Rightarrow>
                    (case cacheOnFirstReceive E F now peer sp (append_rumor sp rumor st1) of
                       (Panic e, st2) \<Rightarrow> (Panic e, st2)
                     | (_, st2) \<Rightarrow> (Ok (sp, Ok (), \<not> hasAll), st2)))
             | Err e \<Rightarrow> (Ok (sp, Err e, True), st1)
             | Panic e \<Rightarrow> (Panic e, st1)))"

text \<open>What goes on the channel is the received gossip, not the synchronized one.\<close>

definition GossipGrpc :: "env \<Rightarrow> faults \<Rightarrow> int \<Rightarrow> peers \<Rightarrow> payload \<Rightarrow> dapos \<Rightarrow> payload result \<times> dapos" where
  "GossipGrpc E F now peer payload st =
     (case ToGossipFromJson now payload of
        Err e \<Rightarrow> (Err e, st)
      | Panic e \<Rightarrow> (Panic e, st)
      | Ok gossip \<Rightarrow>
          (let (p, st1) = alloc_gossip gossip st
           in case synchronizeGossip E F now peer p st1 of
                (Ok (sp, Ok _, addToChan), st2) \<Rightarrow>
                  (let st3 = (if addToChan then send_chan p st2 else st2)
                   in (Ok (Gossip_String (s_gossip st3 sp)), st3))
              | (Ok (sp, Err e, addToChan), st2) \<Rightarrow> (Err e, st2)
              | (Ok (sp, Panic e, addToChan), st2) \<Rightarrow> (Panic e, st2)
              | (Err e, st2) \<Rightarrow> (Err e, st2)
              | (Panic e, st2) \<Rightarrow> (Panic e, st2)))"

subsection \<open>gossipWorker\<close>

text \<open>
  \<open>float32(len(rumors)) >= float32(len(delegates))*2/3\<close>: the product is exact below \<open>2^23\<close>; the quotient is
  rounded to 24 significant bits. \<open>float32_third m\<close> is the quotient as \<open>(mantissa, e)\<close>, standing for
  \<open>mantissa / 2^e\<close>.
\<close>

definition float32_third :: "nat \<Rightarrow> nat \<times> nat" where
  "float32_third m =
     (let b = nat_bitlen m;
          e = (if m * 2 ^ (26 - b) < 3 * 2 ^ 24 then 26 - b else 25 - b)
      in ((2 * (m * 2 ^ e) + 3) div 6, e))"

definition have_quorum :: "nat \<Rightarrow> nat \<Rightarrow> bool" where
  "have_quorum rumors delegates \<longleftrightarrow>
     (let (mant, e) = float32_third (delegates * 2) in mant \<le> rumors * 2 ^ e)"

definition updateReceiptStatus :: "string \<Rightarrow> string \<Rightarrow> dapos \<Rightarrow> unit result \<times> dapos" where
  "updateReceiptStatus txHash status st =
     (case ToReceiptFromCache (s_cache st) txHash of
        Err e \<Rightarrow> (Ok (), st)
      | Panic e \<Rightarrow> (Panic e, st)
      | Ok q \<Rightarrow>
          (let st1 = st\<lparr>s_heap := set_receipt q ((receipt_at (s_heap st) q)\<lparr>rc_Status := status\<rparr>) (s_heap st)\<rparr>
           in (Ok (), cache_receipt q st1)))"

text \<open>The candidates of \<open>getRandomDelegate\<close>; the log lines dereference the HTTP endpoint.\<close>

definition delegate_eligible :: "env \<Rightarrow> int \<Rightarrow> dapos \<Rightarrow> nat \<Rightarrow> Node \<Rightarrow> bool result" where
  "delegate_eligible E now st p node =
     result_bind (Gossip_HaveSent (s_cache st) (gossip_hash st p) (n_Address node)) (\<lambda>haveSent.
       let containsRumor = Gossip_ContainsRumor (s_gossip st p) (n_Address node);
           isThisAddress = (n_Address node = n_Address (e_thisNode E));
           available = Node_IsAvailable now node
       in if (\<not> available \<or> haveSent \<or> \<not> containsRumor) \<and> n_HttpEndpoint node = None
          then Panic ''nil pointer dereference''
          else Ok (\<not> (isThisAddress \<or> haveSent \<or> \<not> available)))"

fun delegates_not_rumored :: "env \<Rightarrow> int \<Rightarrow> dapos \<Rightarrow> nat \<Rightarrow> Node list \<Rightarrow> Node list result" where
  "delegates_not_rumored E now st p [] = Ok []"
| "delegates_not_rumored E now st p (node # nodes) =
     result_bind (delegate_eligible E now st p node) (\<lambda>eligible.
     result_bind (delegates_not_rumored E now st p nodes) (\<lambda>ns.
     Ok (if eligible then node # ns else ns)))"

definition getRandomDelegate :: "env \<Rightarrow> int \<Rightarrow> nat \<Rightarrow> nat \<Rightarrow> Node list \<Rightarrow> dapos \<Rightarrow> Node option result" where
  "getRandomDelegate E now rnd p delegateNodes st =
     (if delegateNodes = [] then Ok None
      else result_bind (delegates_not_rumored E now st p delegateNodes) (\<lambda>ns.
        if ns = [] then Ok None else Ok (Some (ns ! (rnd mod length ns)))))"

text \<open>The time the goroutine sleeps before it sends to the time-out channel.\<close>

definition gossip_timeout :: "int \<Rightarrow> int \<Rightarrow> nat \<Rightarrow> int" where
  "gossip_timeout now txTime delegates =
     (let delta = wrap_s64 (txTime - ToMilliSeconds now);
          totalMilliseconds = wrap_s64 (wrap_s64 (GossipTimeout * int delegates) + TxReceiveTimeout);
          timeout = wrap_s64 (totalMilliseconds * Millisecond)
      in if delta > 0 then wrap_s64 (wrap_s64 (Millisecond * delta) + timeout) else timeout)"

definition queue_push :: "nat \<Rightarrow> dapos \<Rightarrow> dapos" where
  "queue_push p st =
     st\<lparr>s_gossipQueue := GossipQueue_Push (gossip_hash st) (gossip_time st) p (s_gossipQueue st)\<rparr>"

text \<open>The goroutine that \<open>gossipWorker\<close> starts for the gossip at \<open>p\<close>.\<close>

definition gossip_round :: "env \<Rightarrow> faults \<Rightarrow> int \<Rightarrow> peers \<Rightarrow> nat \<Rightarrow> nat \<Rightarrow> Node list \<Rightarrow> dapos \<Rightarrow> unit result \<times> dapos" where
  "gossip_round E F now peer rnd p delegateNodes st =
     (let rumors = g_Rumors (s_gossip st p); hash = gossip_hash st p
      in if have_quorum (length rumors) (length delegateNodes) then
           (if GossipQueue_Exists (s_gossipQueue st) hash then (Ok (), st)
            else (Ok (), (queue_push p st)
                    \<lparr>s_timers := s_timers st @ [now + gossip_timeout now (gossip_time st p) (length delegateNodes)]\<rparr>))
         else if length rumors = length delegateNodes then (Ok (), st)
         else case getRandomDelegate E now rnd p delegateNodes st of
                Panic e \<Rightarrow> (Panic e, st)
              | Err e \<Rightarrow> (Err e, st)
              | Ok None \<Rightarrow> updateReceiptStatus hash StatusCouldNotReachConsensus (cache_gossip p st)
              | Ok (Some node) \<Rightarrow>
                 (if n_HttpEndpoint node = None then (Panic ''nil pointer dereference'', st)
                  else case peerGossipGrpc E F now peer node p st of
                    (Ok _, st') \<Rightarrow> (Ok (), st')
                  | (Err e, st') \<Rightarrow> (Ok (), send_chan p st')
                  | (Panic e, st') \<Rightarrow> (Panic e, st')))"

definition gossipWorker_go :: "env \<Rightarrow> faults \<Rightarrow> int \<Rightarrow> peers \<Rightarrow> nat \<Rightarrow> nat \<Rightarrow> dapos \<Rightarrow> unit result \<times> dapos" where
  "gossipWorker_go E F now peer rnd p st =
     (case ToNodesByTypeFromCache (s_cache st) TypeDelegate of
        Err e \<Rightarrow> (Ok (), st)
      | Panic e \<Rightarrow> (Panic e, st)
      | Ok delegateNodes \<Rightarrow>
          (let st1 = (if s_delegateMap st = []
                      then st\<lparr>s_delegateMap := fold (\<lambda>d. kv_put (n_Address d) d) delegateNodes []\<rparr> else st);
               rumors = g_Rumors (s_gossip st1 p)
           in if length rumors > 1 then
                (case ValidateTimeDelta now rumors of
                   Ok (valid, rs') \<Rightarrow>
                     (let st2 = put_gossip p ((s_gossip st1 p)\<lparr>g_Rumors := rs'\<rparr>) st1
                      in if \<not> valid then updateReceiptStatus (gossip_hash st2 p) StatusGossipingTimedOut st2
                         else gossip_round E F now peer rnd p delegateNodes st2)
                 | Err e \<Rightarrow> (Err e, st1)
                 | Panic e \<Rightarrow> (Panic e, st1))
              else gossip_round E F now peer rnd p delegateNodes st1))"

text \<open>One round of the loop: \<open>None\<close> when the channel is empty and the worker waits.\<close>

definition gossipWorker :: "env \<Rightarrow> faults \<Rightarrow> int \<Rightarrow> peers \<Rightarrow> nat \<Rightarrow> dapos \<Rightarrow> (unit result \<times> dapos) option" where
  "gossipWorker E F now peer rnd st =
     (case s_gossipChan st of
        [] \<Rightarrow> None
      | p # ps \<Rightarrow> Some (gossipWorker_go E F now peer rnd p (st\<lparr>s_gossipChan := ps\<rparr>)))"

text \<open>A timer that has run out sends its token.\<close>

definition timer_fires :: "int \<Rightarrow> nat \<Rightarrow> dapos \<Rightarrow> dapos option" where
  "timer_fires now i st =
     (if i < length (s_timers st) \<and> s_timers st ! i \<le> now
      then Some (st\<lparr>s_timers := take i (s_timers st) @ drop (Suc i) (s_timers st),
                    s_timoutChan := Suc (s_timoutChan st)\<rparr>)
      else None)"

text \<open>What \<open>startGossiping\<close> asks of a transaction, and the part of the state that sending gossip leaves alone.\<close>

definition admitted :: "env \<Rightarrow> faults \<Rightarrow> int \<Rightarrow> Transaction \<Rightarrow> dapos \<Rightarrow> bool" where
  "admitted E F now t st \<longleftrightarrow>
     Transaction_Verify (e_crypto E) t = Ok () \<and>
     wrap_s64 (ToMilliSeconds now - tx_Time t) \<le> TxReceiveTimeout \<and>
     txn_Get F (NewTransaction False (s_db st)) (Transaction_Key t) = Err ErrKeyNotFound \<and>
     cache_Get (Transaction_Key t) (s_cache st) = None"

definition same_core :: "dapos \<Rightarrow> dapos \<Rightarrow> bool" where
  "same_core st st' \<longleftrightarrow> h_gossips (s_heap st') = h_gossips (s_heap st) \<and> s_db st' = s_db st \<and>
     s_gossipChan st' = s_gossipChan st \<and> s_gossipQueue st' = s_gossipQueue st \<and> s_timers st' = s_timers st \<and>
     s_timoutChan st' = s_timoutChan st"

subsection \<open>Quorum, synchronization and admission\<close>

lemma float32_third_shift:
  assumes "m < 2 ^ 23"
  shows "1 \<le> snd (float32_third m)" "fst (float32_third m) = (2 * (m * 2 ^ snd (float32_third m)) + 3) div 6"
proof -
  have "nat_bitlen m \<le> 23" using assms by (simp add: nat_bitlen_le_iff)
  then have "1 \<le> 25 - nat_bitlen m" "1 \<le> 26 - nat_bitlen m" by linarith+
  then show "1 \<le> snd (float32_third m)" unfolding float32_third_def Let_def snd_conv by presburger
  show "fst (float32_third m) = (2 * (m * 2 ^ snd (float32_third m)) + 3) div 6"
    by (simp add: float32_third_def Let_def)
qed

lemma round_third_le_iff:
  assumes "2 \<le> (s :: nat)"
  shows "(2 * (m * s) + 3) div 6 \<le> r * s \<longleftrightarrow> m \<le> 3 * r"
proof
  assume "m \<le> 3 * r"
  then have "m * s \<le> 3 * r * s" by simp
  then have "2 * (m * s) + 3 \<le> 6 * (r * s) + 3" by simp
  then have "(2 * (m * s) + 3) div 6 \<le> (6 * (r * s) + 3) div 6" by (rule div_le_mono)
  also have "(6 * (r * s) + 3) div 6 = r * s" by simp
  finally show "(2 * (m * s) + 3) div 6 \<le> r * s" .
next
  assume le: "(2 * (m * s) + 3) div 6 \<le> r * s"
  show "m \<le> 3 * r"
  proof (rule ccontr)
    assume "\<not> m \<le> 3 * r"
    then have "(3 * r + 1) * s \<le> m * s" by (intro mult_le_mono1) simp
    then have "6 * (r * s) + 2 * s \<le> 2 * (m * s)" by (simp add: algebra_simps)
    moreover have "6 * (r * s + 1) = 6 * (r * s) + 6" by simp
    ultimately have "6 * (r * s + 1) \<le> 2 * (m * s) + 3" using assms by linarith
    then have "(6 * (r * s + 1)) div 6 \<le> (2 * (m * s) + 3) div 6" by (rule div_le_mono)
    with le show False by simp
  qed
qed

text \<open>
  C24. The floating point comparison \<open>float32(rumors) >= float32(delegates)*2/3\<close> decides exactly
  \<open>3 * rumors >= 2 * delegates\<close>, for fewer than \<open>2^22\<close> delegates.
\<close>
theorem quorum_two_thirds:
  assumes "n < 2 ^ 22"
  shows "have_quorum r n \<longleftrightarrow> 2 * n \<le> 3 * r"
proof -
  obtain mant e where f: "float32_third (n * 2) = (mant, e)" by (cases "float32_third (n * 2)")
  have m: "n * 2 < 2 ^ 23" using assms by simp
  have "1 \<le> e" "mant = (2 * (n * 2 * 2 ^ e) + 3) div 6"
    using float32_third_shift [OF m] f by simp_all
  moreover have "2 \<le> (2 :: nat) ^ e" using \<open>1 \<le> e\<close> power_increasing [of 1 e "2 :: nat"] by simp
  ultimately show ?thesis
    using round_third_le_iff [of "2 ^ e" "n * 2" r] by (simp add: have_quorum_def f mult.commute)
qed

theorem quorum_two_thirds_witness:
  "have_quorum 3 4 \<and> \<not> have_quorum 2 4"
  using quorum_two_thirds [of 4 3] quorum_two_thirds [of 4 2] by simp

lemma s_gossip_append_rumor:
  "s_gossip (append_rumor op r st) q =
     (if q = op \<and> op < length (h_gossips (s_heap st))
      then (s_gossip st op)\<lparr>g_Rumors := g_Rumors (s_gossip st op) @ [r]\<rparr> else s_gossip st q)"
  by (cases "op < length (h_gossips (s_heap st))")
    (auto simp: s_gossip_def append_rumor_def Let_def put_gossip_def set_gossip_def gossip_at_def list_update_beyond)

lemma length_gossips_append_rumor [simp]:
  "length (h_gossips (s_heap (append_rumor op r st))) = length (h_gossips (s_heap st))"
  by (simp add: append_rumor_def Let_def put_gossip_def set_gossip_def)

lemma append_rumor_other [simp]:
  "s_db (append_rumor op r st) = s_db st" "s_cache (append_rumor op r st) = s_cache st"
  "s_gossipChan (append_rumor op r st) = s_gossipChan st" "s_gossipQueue (append_rumor op r st) = s_gossipQueue st"
  "s_timers (append_rumor op r st) = s_timers st" "s_timoutChan (append_rumor op r st) = s_timoutChan st"
  by (simp_all add: append_rumor_def Let_def put_gossip_def)

lemma ContainsRumor_iff: "Gossip_ContainsRumor g a \<longleftrightarrow> a \<in> r_Address ` set (g_Rumors g)"
  by (auto simp: Gossip_ContainsRumor_def list_ex_iff)

lemma merge_rumors_spec:
  assumes "op < length (h_gossips (s_heap st))" "distinct (map r_Address (g_Rumors (s_gossip st op)))"
    and "merge_rumors C op rs h st = (b, st')"
  shows "op < length (h_gossips (s_heap st')) \<and> distinct (map r_Address (g_Rumors (s_gossip st' op))) \<and>
    g_Transaction (s_gossip st' op) = g_Transaction (s_gossip st op) \<and>
    (\<exists>new. g_Rumors (s_gossip st' op) = g_Rumors (s_gossip st op) @ new \<and> set new \<subseteq> {r \<in> set rs. Rumor_Verify C r}) \<and>
    (\<forall>r \<in> set rs. Rumor_Verify C r \<longrightarrow> Gossip_ContainsRumor (s_gossip st' op) (r_Address r))"
  using assms
proof (induction C op rs h st arbitrary: b st' rule: merge_rumors.induct)
  case (2 C op r rs h st)
  define st1 where "st1 = (if \<not> Gossip_ContainsRumor (s_gossip st op) (r_Address r) \<and> Rumor_Verify C r
      then append_rumor op r st else st)"
  have len: "op < length (h_gossips (s_heap st1))" using "2.prems" by (simp add: st1_def)
  have dist: "distinct (map r_Address (g_Rumors (s_gossip st1 op)))"
    using "2.prems" by (auto simp: st1_def s_gossip_append_rumor ContainsRumor_iff)
  have run: "merge_rumors C op rs (Gossip_ContainsRumor (s_gossip st op) (r_Address r)) st1 = (b, st')"
    using "2.prems" by (simp add: st1_def Let_def)
  note IH = "2.IH" [OF refl st1_def len dist run]
  have g1: "g_Transaction (s_gossip st1 op) = g_Transaction (s_gossip st op)"
    "\<exists>n. g_Rumors (s_gossip st1 op) = g_Rumors (s_gossip st op) @ n \<and> set n \<subseteq> {x. x = r \<and> Rumor_Verify C x}"
    using "2.prems" by (auto simp: st1_def s_gossip_append_rumor)
  have c1: "Gossip_ContainsRumor (s_gossip st1 op) (r_Address r)" if "Rumor_Verify C r"
    using that "2.prems" by (auto simp: st1_def s_gossip_append_rumor ContainsRumor_iff)
  from IH obtain new where new: "g_Rumors (s_gossip st' op) = g_Rumors (s_gossip st1 op) @ new"
      "set new \<subseteq> {x \<in> set rs. Rumor_Verify C x}" by blast
  from g1(2) obtain n where n: "g_Rumors (s_gossip st1 op) = g_Rumors (s_gossip st op) @ n"
      "set n \<subseteq> {x. x = r \<and> Rumor_Verify C x}" by blast
  have "\<exists>m. g_Rumors (s_gossip st' op) = g_Rumors (s_gossip st op) @ m \<and> set m \<subseteq> {x \<in> set (r # rs). Rumor_Verify C x}"
    using new n by (intro exI [of _ "n @ new"]) auto
  moreover have "Gossip_ContainsRumor (s_gossip st' op) (r_Address r)" if "Rumor_Verify C r"
    using c1 [OF that] unfolding ContainsRumor_iff new(1) by (simp add: image_Un)
  then have "\<forall>x \<in> set (r # rs). Rumor_Verify C x \<longrightarrow> Gossip_ContainsRumor (s_gossip st' op) (r_Address x)"
    using IH by simp
  moreover have "g_Transaction (s_gossip st' op) = g_Transaction (s_gossip st op)" using IH g1(1) by simp
  ultimately show ?case using IH by blast
qed simp

text \<open>
  \<open>synchronizeGossip\<close> resets \<open>hasAll\<close> for every rumor of the received gossip: after the loop it says only
  whether the last rumor was already known, so a gossip whose last rumor is known is not put on the channel,
  however many new rumors it brought.
\<close>
theorem hasAll_is_last_known:
  "fst (merge_rumors C op (rs @ [r]) h st) =
     Gossip_ContainsRumor (s_gossip (snd (merge_rumors C op rs h st)) op) (r_Address r)"
  by (induction C op rs h st rule: merge_rumors.induct) (simp_all add: Let_def)

lemma same_core_refl [simp]: "same_core st st"
  by (simp add: same_core_def)

lemma same_core_trans: "same_core st st1 \<Longrightarrow> same_core st1 st2 \<Longrightarrow> same_core st st2"
  by (simp add: same_core_def)

lemma same_core_gossip: "same_core st st' \<Longrightarrow> s_gossip st' p = s_gossip st p"
  by (simp add: same_core_def s_gossip_def gossip_at_def)

lemma peerGossipGrpc_core: "same_core st (snd (peerGossipGrpc E F now peer node p st))"
  by (auto simp: peerGossipGrpc_def Let_def same_core_def split: peer_outcome.splits prod.splits result.splits)

lemma send_first_core: "same_core st (snd (send_first E F now peer p nodes st))"
proof (induction nodes arbitrary: st)
  case (Cons node nodes)
  obtain r st1 where g: "peerGossipGrpc E F now peer node p st = (r, st1)" by fastforce
  have "same_core st st1" using peerGossipGrpc_core [of st E F now peer node p] g by simp
  then show ?case using Cons [of st] Cons [of st1] g
    by (auto split: result.splits intro: same_core_trans)
qed simp

lemma cacheOnFirstReceive_core: "same_core st (snd (cacheOnFirstReceive E F now peer p st))"
proof -
  obtain q st1 where a: "alloc_receipt (NewReceipt now (gossip_hash st p)) st = (q, st1)" by fastforce
  define st2 where "st2 = cache_gossip p (cache_receipt q st1)"
  define st3 where "st3 = st2\<lparr>s_cache := Transaction_Cache (s_heap st2) (TxOfGossip p) (s_cache st2)\<rparr>"
  have s3: "same_core st st3"
    using a by (auto simp: st3_def st2_def same_core_def alloc_receipt_def new_receipt_def cache_gossip_def cache_receipt_def)
  have "snd (cacheOnFirstReceive E F now peer p st) = st3 \<or>
        (\<exists>nodes. snd (cacheOnFirstReceive E F now peer p st) = snd (send_first E F now peer p nodes st3))"
    by (auto simp: cacheOnFirstReceive_def a st3_def st2_def Let_def split: result.splits)
  then show ?thesis using s3 send_first_core same_core_trans by metis
qed

lemma alloc_gossip_simps:
  assumes "alloc_gossip g st = (p, st1)"
  shows "p = length (h_gossips (s_heap st))" "h_gossips (s_heap st1) = h_gossips (s_heap st) @ [g]"
    "s_gossip st1 p = g" "s_db st1 = s_db st" "s_cache st1 = s_cache st" "s_gossipChan st1 = s_gossipChan st"
    "s_gossipQueue st1 = s_gossipQueue st" "s_timers st1 = s_timers st" "s_timoutChan st1 = s_timoutChan st"
  using assms by (auto simp: alloc_gossip_def new_gossip_def s_gossip_def gossip_at_def)

lemma ToTransactionFromCache_Err:
  assumes "ToTransactionFromCache c hash h = (Err e, h')"
  shows "cache_Get (''table-transaction-'' @ hash) c = None"
  using assms by (auto simp: ToTransactionFromCache_def split: option.splits cached.splits result.splits)

text \<open>
  C25. \<open>startGossiping\<close> answers \<open>Pending\<close> exactly for the transactions it admits: verified, received in time, not
  stored and not in the cache. Then one gossip with this transaction and the node's own rumor is put on the
  channel; otherwise nothing is. Neither the database nor the gossip queue changes in any case.
\<close>
theorem startGossiping_admits:
  "case startGossiping E F now peer t st of
     (Ok resp, st') \<Rightarrow>
       s_db st' = s_db st \<and> s_gossipQueue st' = s_gossipQueue st \<and>
       (if rs_Status resp = StatusPending
        then admitted E F now t st \<and>
             (\<exists>rumor. own_rumor E now (tx_Hash t) = Some rumor \<and>
                s_gossipChan st' = s_gossipChan st @ [length (h_gossips (s_heap st))] \<and>
                s_gossip st' (length (h_gossips (s_heap st))) = \<lparr>g_Transaction = t, g_Rumors = [rumor]\<rparr>)
        else \<not> admitted E F now t st \<and> s_gossipChan st' = s_gossipChan st)
   | _ \<Rightarrow> True"
proof (cases "admitted E F now t st")
  case False
  then show ?thesis
    by (auto simp: startGossiping_def admitted_def NewResponseWithStatus_def NewResponseWithError_def
      StatusPending_def StatusInvalidTransaction_def StatusTransactionTimeOut_def StatusDuplicateTransaction_def
      StatusInternalError_def StatusAlreadyProcessingTransaction_def Transaction_Key_def Let_def not_less
      split: result.splits prod.splits option.splits dest!: ToTransactionFromCache_Err)
next
  case True
  have cache: "ToTransactionFromCache (s_cache st) (tx_Hash t) (s_heap st) = (Err ErrNotFound, s_heap st)"
    using True by (simp add: admitted_def ToTransactionFromCache_def Transaction_Key_def)
  show ?thesis
  proof (cases "own_rumor E now (tx_Hash t)")
    case None
    then show ?thesis using True cache by (simp add: startGossiping_def admitted_def)
  next
    case (Some rumor)
    obtain p st1 where a: "alloc_gossip (NewGossip t) st = (p, st1)" by fastforce
    note as = alloc_gossip_simps [OF a]
    obtain r st3 where c: "cacheOnFirstReceive E F now peer p (append_rumor p rumor st1) = (r, st3)" by fastforce
    have core: "same_core (append_rumor p rumor st1) st3"
      using cacheOnFirstReceive_core [of "append_rumor p rumor st1" E F now peer p] c by simp
    then have g: "s_gossip st3 p = \<lparr>g_Transaction = t, g_Rumors = [rumor]\<rparr>"
      using as by (simp add: same_core_gossip s_gossip_append_rumor NewGossip_def)
    have eq: "startGossiping E F now peer t st = (case (r, st3) of
        (Panic e, st3) \<Rightarrow> (Panic e, st3)
      | (_, st3) \<Rightarrow> (Ok (NewResponseWithStatus now StatusPending ''Pending''), send_chan p st3))"
      using True cache Some a c by (simp add: startGossiping_def admitted_def)
    show ?thesis
      unfolding eq using True Some as core g
      by (auto simp: same_core_def send_chan_def NewResponseWithStatus_def s_gossip_def split: result.splits)
  qed
qed

lemma delegates_not_rumored_sound:
  "delegates_not_rumored E now st p nodes = Ok ns \<Longrightarrow> node \<in> set ns \<Longrightarrow>
   node \<in> set nodes \<and> n_Address node \<noteq> n_Address (e_thisNode E) \<and> Node_IsAvailable now node \<and>
   Gossip_HaveSent (s_cache st) (gossip_hash st p) (n_Address node) = Ok False"
proof (induction nodes arbitrary: ns)
  case (Cons n nodes)
  then show ?case
    by (auto simp: result_bind_Ok_iff delegate_eligible_def Let_def split: if_splits)
qed simp

text \<open>
  The delegate \<open>getRandomDelegate\<close> picks is one of the given delegates, not this node, available, and has not
  been sent this transaction's gossip before, whatever the random number.
\<close>
theorem getRandomDelegate_picks:
  "case getRandomDelegate E now rnd p delegateNodes st of
     Ok (Some node) \<Rightarrow> node \<in> set delegateNodes \<and> n_Address node \<noteq> n_Address (e_thisNode E) \<and>
        Node_IsAvailable now node \<and> Gossip_HaveSent (s_cache st) (gossip_hash st p) (n_Address node) = Ok False
   | _ \<Rightarrow> True"
proof (cases "delegates_not_rumored E now st p delegateNodes")
  case (Ok ns)
  show ?thesis
  proof (cases "ns = []")
    case False
    then have "ns ! (rnd mod length ns) \<in> set ns" by simp
    from delegates_not_rumored_sound [OF Ok this] show ?thesis
      using Ok False by (simp add: getRandomDelegate_def)
  qed (simp add: getRandomDelegate_def Ok)
qed (simp_all add: getRandomDelegate_def)






end
