(* ===== verification/Execution.thy ===== *)
theory Execution
  imports Consensus
begin

section \<open>Execution of transactions (dapos/dapos_handshake.go: doWork, executeTransaction, processDVMResult)\<close>

text \<open>
  What \<open>transactionWorker\<close> does with a gossip it takes from the queue: checks, the transfer of tokens or the call
  of the virtual machine, and the writes of one database transaction.

  The virtual machine service and the conversions by ABI are the parameter \<open>V\<close>: deploying or executing a
  contract gives a result and an error, or a panic (\<open>None\<close>), and a new database (its own commits). Everything around them is
  the code of \<open>executeTransaction\<close>. The receipt is the shared object at \<open>rp\<close>, the gossip at \<open>gp\<close>; the transaction
  is the one inside that gossip, and \<open>Abi\<close> and \<open>Params\<close> are changed in place.
\<close>

subsection \<open>Interfaces of the virtual machine\<close>

record DVMResult =
  d_ContractAddress :: "byte list"
  d_ABI :: string
  d_ContractMethod :: string
  d_ContractMethodExecError :: "string option"
  d_ContractMethodExecResult :: "byte list"
  d_StateObjects :: "Account list option"

record dvm =
  v_DeploySmartContract :: "Transaction \<Rightarrow> db \<Rightarrow> (DVMResult \<times> string option) option \<times> db"
  v_ExecuteSmartContract :: "Transaction \<Rightarrow> db \<Rightarrow> (DVMResult \<times> string option) option \<times> db"
  v_abi_JSON :: "byte list \<Rightarrow> (string \<Rightarrow> (byte list \<Rightarrow> json list result) option) result"
  v_GetConvertedParams :: "Transaction \<Rightarrow> json list result"

subsection \<open>processDVMResult\<close>

definition is_space :: "char \<Rightarrow> bool" where
  "is_space c \<longleftrightarrow> (let n = of_char c :: nat in n = 32 \<or> 9 \<le> n \<and> n \<le> 13)"

text \<open>What \<open>hex.DecodeString\<close> has decoded when its error is ignored.\<close>

fun hex_DecodePrefix :: "string \<Rightarrow> byte list" where
  "hex_DecodePrefix (c # d # s) =
     (case (fromHexChar c, fromHexChar d) of
        (Some h, Some l) \<Rightarrow> byte_of (h * 16 + l) # hex_DecodePrefix s
      | _ \<Rightarrow> [])"
| "hex_DecodePrefix _ = []"

definition processDVMResult :: "dvm \<Rightarrow> DVMResult \<Rightarrow> Receipt \<Rightarrow> unit result \<times> Receipt" where
  "processDVMResult V res receipt =
     (case d_ContractMethodExecError res of
        Some e \<Rightarrow> (Err e, receipt)
      | None \<Rightarrow>
         (if list_all is_space (d_ABI res) then (Ok (), receipt)
          else case v_abi_JSON V (hex_DecodePrefix (d_ABI res)) of
                 Err e \<Rightarrow> (Err e, receipt)
               | Panic e \<Rightarrow> (Panic e, receipt)
               | Ok methods \<Rightarrow>
                  (case methods (d_ContractMethod res) of
                     None \<Rightarrow> (Ok (), receipt)
                   | Some unpack \<Rightarrow>
                      (if d_ContractMethodExecResult res = [] then (Ok (), receipt)
                       else case unpack (d_ContractMethodExecResult res) of
                              Ok vs \<Rightarrow> (Ok (), receipt\<lparr>rc_ContractResult := vs\<rparr>)
                            | Err e \<Rightarrow> (Err e, receipt)
                            | Panic e \<Rightarrow> (Panic e, receipt)))))"

subsection \<open>executeTransaction\<close>

definition s_receipt :: "dapos \<Rightarrow> nat \<Rightarrow> Receipt" where
  "s_receipt st p = receipt_at (s_heap st) p"

definition put_receipt :: "nat \<Rightarrow> Receipt \<Rightarrow> dapos \<Rightarrow> dapos" where
  "put_receipt p r st = st\<lparr>s_heap := set_receipt p r (s_heap st)\<rparr>"

definition s_transaction :: "dapos \<Rightarrow> nat \<Rightarrow> Transaction" where
  "s_transaction st gp = g_Transaction (s_gossip st gp)"

definition put_transaction :: "nat \<Rightarrow> Transaction \<Rightarrow> dapos \<Rightarrow> dapos" where
  "put_transaction gp t st = put_gossip gp ((s_gossip st gp)\<lparr>g_Transaction := t\<rparr>) st"

text \<open>\<open>receipt.Status = StatusInternalError; receipt.HumanReadableStatus = ...; receipt.Cache(...)\<close>\<close>

definition internal_error :: "nat \<Rightarrow> string \<Rightarrow> dapos \<Rightarrow> dapos" where
  "internal_error rp e st =
     cache_receipt rp (put_receipt rp ((s_receipt st rp)\<lparr>rc_Status := StatusInternalError, rc_HumanReadableStatus := e\<rparr>) st)"

definition set_status_new_txn :: "faults \<Rightarrow> string \<Rightarrow> nat \<Rightarrow> dapos \<Rightarrow> dapos" where
  "set_status_new_txn F status rp st =
     (let (h, d) = SetStatusWithNewTransaction F status rp (s_heap st) (s_db st) in st\<lparr>s_heap := h, s_db := d\<rparr>)"

definition set_internal_error_new_txn :: "faults \<Rightarrow> string \<Rightarrow> nat \<Rightarrow> dapos \<Rightarrow> dapos" where
  "set_internal_error_new_txn F e rp st =
     (let (h, d) = SetInternalErrorWithNewTransaction F e rp (s_heap st) (s_db st) in st\<lparr>s_heap := h, s_db := d\<rparr>)"

text \<open>Find or create an account.\<close>

definition find_account :: "faults \<Rightarrow> int \<Rightarrow> txn \<Rightarrow> string \<Rightarrow> Account result" where
  "find_account F now tx address =
     (case ToAccountByAddress F tx address of
        Err e \<Rightarrow> (if e = ErrKeyNotFound
                  then Ok (Account_zero\<lparr>a_Address := address, a_Balance := Some 0, a_Created := now\<rparr>)
                  else Err e)
      | r \<Rightarrow> r)"

text \<open>
  The cases of the switch. \<open>Ok (Some (from, to, txn))\<close> goes on to the writes, \<open>Ok None\<close> is a return.
\<close>

type_synonym switch_result = "(Account \<times> Account \<times> txn) option result \<times> dapos"

definition exec_transfer :: "faults \<Rightarrow> nat \<Rightarrow> nat \<Rightarrow> Account \<Rightarrow> Account \<Rightarrow> txn \<Rightarrow> dapos \<Rightarrow> switch_result" where
  "exec_transfer F gp rp fromAccount toAccount tx st =
     (let t = s_transaction st gp
      in case a_Balance fromAccount of
           None \<Rightarrow> (Panic ''nil pointer dereference'', st)
         | Some fb \<Rightarrow>
            (if big_Int64 fb < tx_Value t
             then (Ok None, set_status_new_txn F StatusInsufficientTokens rp st)
             else case a_Balance toAccount of
                    None \<Rightarrow> (Panic ''nil pointer dereference'', st)
                  | Some tb \<Rightarrow>
                      (Ok (Some (fromAccount\<lparr>a_Balance := Some (wrap_s64 (big_Int64 fb - tx_Value t))\<rparr>,
                                 toAccount\<lparr>a_Balance := Some (wrap_s64 (big_Int64 tb + tx_Value t))\<rparr>, tx)), st)))"

definition exec_deploy :: "dvm \<Rightarrow> faults \<Rightarrow> nat \<Rightarrow> nat \<Rightarrow> Account \<Rightarrow> Account \<Rightarrow> txn \<Rightarrow> dapos \<Rightarrow> switch_result" where
  "exec_deploy V F gp rp fromAccount toAccount tx st =
     (let t = s_transaction st gp;
          t1 = t\<lparr>tx_Abi := hex_EncodeToString (string_bytes (tx_Abi t))\<rparr>;
          st1 = put_transaction gp t1 st;
          (res, d) = v_DeploySmartContract V t1 (s_db st1);
          st2 = st1\<lparr>s_db := d\<rparr>
      in case res of
           None \<Rightarrow> (Panic ''DeploySmartContract'', st2)
         | Some (dvmResult, Some e) \<Rightarrow> (Ok None, internal_error rp e st2)
         | Some (dvmResult, None) \<Rightarrow>
             (let (r, receipt) = processDVMResult V dvmResult (s_receipt st2 rp);
                  st3 = put_receipt rp receipt st2
              in case r of
                   Err e \<Rightarrow> (Ok None, internal_error rp e st3)
                 | Panic e \<Rightarrow> (Panic e, st3)
                 | Ok _ \<Rightarrow>
                    (case d_StateObjects dvmResult of
                       None \<Rightarrow> (Panic ''nil pointer dereference'', st3)
                     | Some accounts \<Rightarrow>
                        (let smartContractAddress = hex_EncodeToString (d_ContractAddress dvmResult);
                             st4 = put_receipt rp (receipt\<lparr>rc_ContractAddress := smartContractAddress\<rparr>) st3
                         in case List.find (\<lambda>a. a_Address a = smartContractAddress) accounts of
                              None \<Rightarrow> (Ok (Some (fromAccount, toAccount, tx)), st4)
                            | Some a \<Rightarrow>
                               (case Account_Persist F (a\<lparr>a_TransactionHash := tx_Hash t1\<rparr>) tx of
                                  (Panic e, tx') \<Rightarrow> (Panic e, st3)
                                | (_, tx') \<Rightarrow> (Ok (Some (fromAccount, toAccount, tx')), st4))))))"

text \<open>The error \<open>err1\<close> of \<open>ExecuteSmartContract\<close> is only logged; an error of the conversion leaves nil parameters.\<close>

definition exec_contract :: "dvm \<Rightarrow> faults \<Rightarrow> int \<Rightarrow> nat \<Rightarrow> nat \<Rightarrow> Account \<Rightarrow> Account \<Rightarrow> txn \<Rightarrow> dapos \<Rightarrow> switch_result" where
  "exec_contract V F now gp rp fromAccount toAccount tx st =
     (let t = s_transaction st gp
      in case ToTransactionByAddress F now tx (tx_To t) of
           Panic e \<Rightarrow> (Panic e, st)
         | Err e \<Rightarrow> (Ok None, internal_error rp e st)
         | Ok contractTx \<Rightarrow>
            (let t1 = t\<lparr>tx_Abi := tx_Abi contractTx\<rparr>
             in case v_GetConvertedParams V t1 of
                  Panic e \<Rightarrow> (Panic e, put_transaction gp t1 st)
                | Err e \<Rightarrow> (Ok None, internal_error rp e (put_transaction gp (t1\<lparr>tx_Params := []\<rparr>) st))
                | Ok params \<Rightarrow>
                   (let t2 = t1\<lparr>tx_Params := params\<rparr>;
                        st1 = put_transaction gp t2 st;
                        (res, d) = v_ExecuteSmartContract V t2 (s_db st1);
                        st2 = st1\<lparr>s_db := d\<rparr>
                    in case res of
                         None \<Rightarrow> (Panic ''ExecuteSmartContract'', st2)
                       | Some (dvmResult, err1) \<Rightarrow>
                          (let (r, receipt) = processDVMResult V dvmResult (s_receipt st2 rp);
                               st3 = put_receipt rp receipt st2
                           in case r of
                                Err e \<Rightarrow> (Ok None, internal_error rp e st3)
                              | Panic e \<Rightarrow> (Panic e, st3)
                              | Ok _ \<Rightarrow>
                                 (Ok (Some (fromAccount, toAccount, tx)),
                                  put_receipt rp (receipt\<lparr>rc_ContractAddress := tx_To t2\<rparr>) st3)))))"

definition exec_switch :: "dvm \<Rightarrow> faults \<Rightarrow> int \<Rightarrow> nat \<Rightarrow> nat \<Rightarrow> Account \<Rightarrow> Account \<Rightarrow> txn \<Rightarrow> dapos \<Rightarrow> switch_result" where
  "exec_switch V F now gp rp fromAccount toAccount tx st =
     (let ty = tx_Type (s_transaction st gp)
      in if ty = TypeTransferTokens then exec_transfer F gp rp fromAccount toAccount tx st
         else if ty = TypeDeploySmartContract then exec_deploy V F gp rp fromAccount toAccount tx st
         else if ty = TypeExecuteSmartContract then exec_contract V F now gp rp fromAccount toAccount tx st
         else (Ok None, set_status_new_txn F StatusInvalidTransaction rp st))"

text \<open>
  The writes: transaction, both accounts, receipt, gossip, then the commit. An error at any point is put into
  the receipt, except a conflict of the commit, which is dropped.
\<close>

definition exec_save_tail :: "faults \<Rightarrow> nat \<Rightarrow> nat \<Rightarrow> txn \<Rightarrow> dapos \<Rightarrow> unit result \<times> dapos" where
  "exec_save_tail F gp rp tx st =
     (let st1 = put_receipt rp ((s_receipt st rp)\<lparr>rc_Status := StatusOk\<rparr>) st;
          (r1, tx1, c1) = Receipt_Set F (s_heap st1) rp tx (s_cache st1);
          st2 = st1\<lparr>s_cache := c1\<rparr>
      in case r1 of
           Panic e \<Rightarrow> (Panic e, st2)
         | Err e \<Rightarrow> (Ok (), internal_error rp e st2)
         | Ok _ \<Rightarrow>
            (let (r2, tx2, c2) = Gossip_Set F (s_heap st2) gp tx1 (s_cache st2);
                 st3 = st2\<lparr>s_cache := c2\<rparr>
             in case r2 of
                  Panic e \<Rightarrow> (Panic e, st3)
                | Err e \<Rightarrow> (Ok (), internal_error rp e st3)
                | Ok _ \<Rightarrow>
                   (case txn_Commit F tx2 (s_db st3) of
                      (Ok _, d) \<Rightarrow> (Ok (), st3\<lparr>s_db := d\<rparr>)
                    | (Err e, d) \<Rightarrow> (Ok (), if e = ErrConflict then st3 else internal_error rp e st3)
                    | (Panic e, d) \<Rightarrow> (Panic e, st3))))"

definition exec_save :: "faults \<Rightarrow> int \<Rightarrow> nat \<Rightarrow> nat \<Rightarrow> Account \<Rightarrow> Account \<Rightarrow> txn \<Rightarrow> dapos \<Rightarrow> unit result \<times> dapos" where
  "exec_save F now gp rp fromAccount toAccount tx st =
     (case Transaction_Persist F (s_transaction st gp) tx of
        (Panic e, _) \<Rightarrow> (Panic e, st)
      | (Err e, _) \<Rightarrow> (Ok (), internal_error rp e st)
      | (Ok _, tx1) \<Rightarrow>
         (case Account_Persist F (fromAccount\<lparr>a_Updated := now\<rparr>) tx1 of
            (Panic e, _) \<Rightarrow> (Panic e, st)
          | (Err e, _) \<Rightarrow> (Ok (), internal_error rp e st)
          | (Ok _, tx2) \<Rightarrow>
             (case Account_Persist F (toAccount\<lparr>a_Updated := now\<rparr>) tx2 of
                (Panic e, _) \<Rightarrow> (Panic e, st)
              | (Err e, _) \<Rightarrow> (Ok (), internal_error rp e st)
              | (Ok _, tx3) \<Rightarrow> exec_save_tail F gp rp tx3 st)))"

text \<open>Any error of the first lookup, not only a missing key, lets the execution go on.\<close>

definition executeTransaction :: "dvm \<Rightarrow> faults \<Rightarrow> int \<Rightarrow> nat \<Rightarrow> nat \<Rightarrow> dapos \<Rightarrow> unit result \<times> dapos" where
  "executeTransaction V F now gp rp st =
     (let t = s_transaction st gp; tx = NewTransaction True (s_db st)
      in case txn_Get F tx (Transaction_Key t) of
           Ok _ \<Rightarrow> (Ok (), st)
         | _ \<Rightarrow>
          (case find_account F now tx (tx_From t) of
             Panic e \<Rightarrow> (Panic e, st)
           | Err e \<Rightarrow> (Ok (), internal_error rp e st)
           | Ok fromAccount \<Rightarrow>
              (case find_account F now tx (tx_To t) of
                 Panic e \<Rightarrow> (Panic e, st)
               | Err e \<Rightarrow> (Ok (), set_internal_error_new_txn F e rp st)
               | Ok toAccount \<Rightarrow>
                  (case exec_switch V F now gp rp fromAccount toAccount tx st of
                     (Panic e, st1) \<Rightarrow> (Panic e, st1)
                   | (Err e, st1) \<Rightarrow> (Err e, st1)
                   | (Ok None, st1) \<Rightarrow> (Ok (), st1)
                   | (Ok (Some (fa, ta, tx1)), st1) \<Rightarrow> exec_save F now gp rp fa ta tx1 st1))))"

subsection \<open>doWork and transactionWorker\<close>

definition doWork :: "env \<Rightarrow> dvm \<Rightarrow> faults \<Rightarrow> int \<Rightarrow> dapos \<Rightarrow> unit result \<times> dapos" where
  "doWork E V F now st =
     (if \<not> GossipQueue_HasAvailable (s_gossipQueue st) then (Ok (), st)
      else case GossipQueue_Pop (gossip_hash st) (s_gossipQueue st) of
        None \<Rightarrow> (Panic ''index out of range'', st)
      | Some (gp, q) \<Rightarrow>
         (let st1 = st\<lparr>s_gossipQueue := q\<rparr>; hash = gossip_hash st1 gp
          in case ToReceiptFromCache (s_cache st1) hash of
               Panic e \<Rightarrow> (Panic e, st1)
             | Err e \<Rightarrow>
                (let (rp, st2) = alloc_receipt ((NewReceipt now hash)\<lparr>rc_Status := StatusReceiptNotFound\<rparr>) st1
                 in (Ok (), cache_receipt rp st2))
             | Ok rp \<Rightarrow>
                (case g_Rumors (s_gossip st1 gp) of
                   [] \<Rightarrow> (Panic ''index out of range'', st1)
                 | rumor # _ \<Rightarrow>
                    (if wrap_s64 (r_Time rumor - gossip_time st1 gp) \<ge> TxReceiveTimeout then
                       (let (rp', st2) = alloc_receipt ((NewReceipt now hash)\<lparr>rc_Status := StatusTransactionTimeOut\<rparr>) st1
                        in (Ok (), cache_receipt rp' st2))
                     else
                       (let st2 = put_receipt rp ((s_receipt st1 rp)\<lparr>rc_Created := now\<rparr>) st1
                        in if e_isBookkeeper E then executeTransaction V F now gp rp st2 else (Ok (), st2))))))"

text \<open>One round of \<open>transactionWorker\<close>; \<open>None\<close> while no token is waiting.\<close>

definition transactionWorker :: "env \<Rightarrow> dvm \<Rightarrow> faults \<Rightarrow> int \<Rightarrow> dapos \<Rightarrow> (unit result \<times> dapos) option" where
  "transactionWorker E V F now st =
     (case s_timoutChan st of
        0 \<Rightarrow> None
      | Suc n \<Rightarrow> Some (doWork E V F now (st\<lparr>s_timoutChan := n\<rparr>)))"

definition getAccountFromBadgerByAddress :: "faults \<Rightarrow> string \<Rightarrow> dapos \<Rightarrow> Account result" where
  "getAccountFromBadgerByAddress F address st = ToAccountByAddress F (NewTransaction True (s_db st)) address"

subsection \<open>Balances\<close>

text \<open>The account of an address as the committed database holds it, and its balance (0 without an account).\<close>

definition db_account :: "db \<Rightarrow> string \<Rightarrow> Account result" where
  "db_account d a = ToAccountByAddress no_faults (NewTransaction False d) a"

definition balance_of :: "db \<Rightarrow> string \<Rightarrow> int" where
  "balance_of d a = (case db_account d a of Ok acc \<Rightarrow> (case a_Balance acc of Some b \<Rightarrow> b | None \<Rightarrow> 0) | _ \<Rightarrow> 0)"

text \<open>Accounts of the given address whose numbers a JSON document can carry unchanged.\<close>

definition account_ok :: "string \<Rightarrow> Account \<Rightarrow> bool" where
  "account_ok a acc \<longleftrightarrow> a_Address acc = a \<and>
     (case a_Balance acc of Some b \<Rightarrow> 0 \<le> b \<and> b \<le> 2 ^ 53 | None \<Rightarrow> False) \<and>
     time_ok (a_Updated acc) \<and> time_ok (a_Created acc) \<and> 0 \<le> a_Nonce acc \<and> a_Nonce acc \<le> 2 ^ 53"

definition accounts_ok :: "db \<Rightarrow> bool" where
  "accounts_ok d \<longleftrightarrow> (\<forall>a. case db_account d a of
     Ok acc \<Rightarrow> account_ok a acc | Err e \<Rightarrow> e = ErrKeyNotFound | Panic e \<Rightarrow> False)"

text \<open>No fault hits a write, the commit or the read of an account; the read of a transaction may fail.\<close>

definition silent :: "faults \<Rightarrow> bool" where
  "silent F \<longleftrightarrow> (\<forall>k. f_set F k = None) \<and> f_commit F = None \<and> (\<forall>a. f_get F (''table-account-'' @ a) = None)"

text \<open>The entries one executed transaction writes.\<close>

definition saved :: "Transaction \<Rightarrow> Account \<Rightarrow> payload \<Rightarrow> Account \<Rightarrow> payload \<Rightarrow> Receipt \<Rightarrow> Gossip \<Rightarrow> (string \<times> payload) list" where
  "saved t fa fs ta ts r g =
     [(Transaction_Key t, Transaction_String t), (Transaction_TypeKey t, Raw (Transaction_Key t)),
      (Transaction_TimeKey t, Raw (Transaction_Key t)), (Transaction_FromKey t, Raw (Transaction_Key t)),
      (Transaction_ToKey t, Raw (Transaction_Key t)),
      (Account_Key fa, fs), (Account_NameKey fa, Raw (Account_Key fa)),
      (Account_Key ta, ts), (Account_NameKey ta, Raw (Account_Key ta)),
      (Receipt_Key r, Receipt_String r), (Gossip_Key g, Gossip_String g)]"

text \<open>Two databases that differ in receipts only.\<close>

definition only_receipt :: "db \<Rightarrow> db \<Rightarrow> bool" where
  "only_receipt d d' \<longleftrightarrow> (\<forall>k. \<not> HasPrefix k ''table-receipt-'' \<longrightarrow> map_of d' k = map_of d k)"

text \<open>A small ledger: alice has 10 tokens.\<close>

definition sample_tx :: "string \<Rightarrow> string \<Rightarrow> int \<Rightarrow> Transaction" where
  "sample_tx a b v = Transaction_zero\<lparr>tx_Hash := ''h'', tx_Type := TypeTransferTokens, tx_From := a, tx_To := b, tx_Value := v\<rparr>"

text \<open>The state whose gossip 0 carries the given transaction.\<close>

definition sample_state :: "Transaction \<Rightarrow> dapos" where
  "sample_state t = \<lparr>s_db = (case Account_String (Account_zero\<lparr>a_Address := ''alice'', a_Balance := Some 10\<rparr>) of
         Ok v \<Rightarrow> [(''table-account-alice'', (v, None))] | _ \<Rightarrow> []),
     s_cache = [], s_heap = \<lparr>h_gossips = [\<lparr>g_Transaction = t, g_Rumors = []\<rparr>], h_receipts = [NewReceipt 0 ''h''], h_txs = []\<rparr>,
     s_gossipChan = [], s_timers = [], s_timoutChan = 0, s_gossipQueue = NewGossipQueue, s_delegateMap = [], s_sent = []\<rparr>"

text \<open>A virtual machine for states that never call it.\<close>

definition no_vm :: dvm where
  "no_vm = \<lparr>v_DeploySmartContract = (\<lambda>t d. (None, d)), v_ExecuteSmartContract = (\<lambda>t d. (None, d)),
     v_abi_JSON = (\<lambda>bs. Err ''no abi''), v_GetConvertedParams = (\<lambda>t. Err ''no abi'')\<rparr>"

text \<open>The read of one key fails.\<close>

definition lost_read :: "string \<Rightarrow> faults" where
  "lost_read k = no_faults\<lparr>f_get := (\<lambda>k'. if k' = k then Some ''I/O error'' else None)\<rparr>"

subsection \<open>Execution of a transfer\<close>

lemma db_account_lookup:
  "db_account d a = (case map_of d (''table-account-'' @ a) of
     None \<Rightarrow> Err ErrKeyNotFound | Some (v, ttl) \<Rightarrow> ToAccountFromJson v)"
  by (simp add: db_account_def ToAccountByAddress_def NewTransaction_def txn_Get_nf split: option.split)

lemma uint64_of_float_small: "0 \<le> n \<Longrightarrow> n \<le> 2 ^ 53 \<Longrightarrow> uint64_of_float n = n"
  by (simp add: uint64_of_float_def is_u64_def)

lemma big_Int64_small: "0 \<le> b \<Longrightarrow> b \<le> 2 ^ 53 \<Longrightarrow> big_Int64 b = b"
  by (simp add: big_Int64_def is_s64_def)

lemma account_ok_stored:
  assumes "account_ok a acc"
  obtains v where "Account_String acc = Ok v"
    "ToAccountFromJson v = Ok (acc\<lparr>a_Root := replicate HashLength 0, a_CodeHash := []\<rparr>)"
proof -
  obtain b where b: "a_Balance acc = Some b" "0 \<le> b" "b \<le> 2 ^ 53"
    using assms by (auto simp: account_ok_def split: option.splits)
  have t: "time_ok (a_Updated acc)" "time_ok (a_Created acc)" and n: "0 \<le> a_Nonce acc" "a_Nonce acc \<le> 2 ^ 53"
    using assms by (auto simp: account_ok_def)
  have "result_bind (Account_String acc) ToAccountFromJson =
      Ok (acc\<lparr>a_Balance := Some b, a_Nonce := a_Nonce acc, a_Root := replicate HashLength 0, a_CodeHash := []\<rparr>)"
    unfolding Account_roundtrip [OF b(1) t] using b n
    by (simp add: big_Int64_small uint64_of_float_small)
  moreover have "acc\<lparr>a_Balance := Some b, a_Nonce := a_Nonce acc\<rparr> = acc" using b(1) by (cases acc) simp
  ultimately show thesis using that by (auto simp: result_bind_Ok_iff)
qed

lemma txn_Sets_silent:
  "silent F \<Longrightarrow> t_update tx \<Longrightarrow> txn_Sets F kvs tx =
     (Ok (), tx\<lparr>t_view := kv.wrs (puts kvs) (t_view tx), t_writes := t_writes tx @ puts kvs\<rparr>)"
  unfolding puts_def by (rule txn_Sets_no_faults) (simp_all add: silent_def)

lemma puts_append: "puts (a @ b) = puts a @ puts b"
  by (simp add: puts_def)

lemma exec_save_silent:
  assumes F: "silent F" and tx: "t_update tx"
    and fs: "Account_String (fa\<lparr>a_Updated := now\<rparr>) = Ok fs" and ts: "Account_String (ta\<lparr>a_Updated := now\<rparr>) = Ok ts"
  shows "\<exists>st' r. exec_save F now gp rp fa ta tx st = (Ok (), st') \<and>
     s_db st' = kv.wrs (t_writes tx @ puts (saved (s_transaction st gp) (fa\<lparr>a_Updated := now\<rparr>) fs
                  (ta\<lparr>a_Updated := now\<rparr>) ts r (s_gossip st gp))) (s_db st) \<and>
     s_gossip st' = s_gossip st"
proof -
  define st1 where "st1 = put_receipt rp ((s_receipt st rp)\<lparr>rc_Status := StatusOk\<rparr>) st"
  have g: "gossip_at (s_heap st1) gp = s_gossip st gp"
    by (simp add: st1_def put_receipt_def set_receipt_def s_gossip_def gossip_at_def)
  have c: "f_commit F = None" using F by (simp add: silent_def)
  show ?thesis
    unfolding exec_save_def Transaction_Persist_def Account_Persist_def fs ts
      exec_save_tail_def Receipt_Set_def Gossip_Set_def Receipt_Persist_def Gossip_Persist_def
    apply (simp add: txn_Sets_silent F tx txn_Commit_writes c saved_def puts_append [symmetric] Let_def g [unfolded st1_def]
        put_receipt_def set_receipt_def s_gossip_def gossip_at_def fun_eq_iff del: txn_Sets.simps)
    apply (rule exI, rule refl)
    done
qed

lemma saved_account_lookup:
  "map_of (kv.wrs (puts (saved t fa fs ta ts r g)) d) (''table-account-'' @ a) =
     (if a = a_Address ta then Some (ts, None) else if a = a_Address fa then Some (fs, None)
      else map_of d (''table-account-'' @ a))"
  by (simp add: get_puts saved_def tx_keys Account_Key_def Account_NameKey_def Receipt_Key_def Gossip_Key_def)

lemma saved_transaction_lookup:
  "map_of (kv.wrs (puts (saved t fa fs ta ts r g)) d) (Transaction_Key t) = Some (Transaction_String t, None)"
  by (simp add: get_puts saved_def tx_keys Account_Key_def Account_NameKey_def Receipt_Key_def Gossip_Key_def)

lemma find_account_ok:
  assumes "silent F" "accounts_ok d" "time_ok now"
  obtains acc where "find_account F now (NewTransaction True d) a = Ok acc" "account_ok a acc"
    "a_Balance acc = Some (balance_of d a)"
proof -
  have eq: "ToAccountByAddress F (NewTransaction True d) a = db_account d a"
    using assms(1) by (simp add: ToAccountByAddress_def txn_Get_def silent_def db_account_lookup NewTransaction_def split: option.split)
  have ok: "case db_account d a of Ok acc \<Rightarrow> account_ok a acc | Err e \<Rightarrow> e = ErrKeyNotFound | Panic e \<Rightarrow> False"
    using assms(2) by (simp add: accounts_ok_def)
  show thesis
  proof (cases "db_account d a")
    case (Ok acc)
    then have k: "account_ok a acc" using ok by simp
    then obtain b where "a_Balance acc = Some b" by (auto simp: account_ok_def split: option.splits)
    with Ok k show thesis by (intro that [of acc]) (auto simp: find_account_def eq balance_of_def)
  next
    case (Err e)
    then have "e = ErrKeyNotFound" using ok by simp
    with Err assms(3) show thesis
      by (intro that [of "Account_zero\<lparr>a_Address := a, a_Balance := Some 0, a_Created := now\<rparr>"])
        (auto simp: find_account_def eq balance_of_def account_ok_def Account_zero_def time_ok_def zero_time_def)
  next
    case (Panic e)
    then show thesis using ok by simp
  qed
qed

lemma balance_bounds:
  assumes "accounts_ok d" shows "0 \<le> balance_of d a" "balance_of d a \<le> 2 ^ 53"
proof -
  have "case db_account d a of Ok acc \<Rightarrow> account_ok a acc | Err e \<Rightarrow> e = ErrKeyNotFound | Panic e \<Rightarrow> False"
    using assms by (simp add: accounts_ok_def)
  then have "0 \<le> balance_of d a \<and> balance_of d a \<le> 2 ^ 53"
    by (auto simp: balance_of_def account_ok_def split: result.splits option.splits)
  then show "0 \<le> balance_of d a" "balance_of d a \<le> 2 ^ 53" by auto
qed

lemma executeTransaction_goes_on:
  assumes "\<forall>p. txn_Get F (NewTransaction True (s_db st)) (Transaction_Key (s_transaction st gp)) \<noteq> Ok p"
    and "find_account F now (NewTransaction True (s_db st)) (tx_From (s_transaction st gp)) = Ok fa"
    and "find_account F now (NewTransaction True (s_db st)) (tx_To (s_transaction st gp)) = Ok ta"
  shows "executeTransaction V F now gp rp st =
    (case exec_switch V F now gp rp fa ta (NewTransaction True (s_db st)) st of
       (Panic e, st1) \<Rightarrow> (Panic e, st1)
     | (Err e, st1) \<Rightarrow> (Err e, st1)
     | (Ok None, st1) \<Rightarrow> (Ok (), st1)
     | (Ok (Some (fa, ta, tx1)), st1) \<Rightarrow> exec_save F now gp rp fa ta tx1 st1)"
  using assms by (cases "txn_Get F (NewTransaction True (s_db st)) (Transaction_Key (s_transaction st gp))")
    (simp_all add: executeTransaction_def Let_def)

lemma transfer_result:
  assumes F: "silent F" and acc: "accounts_ok (s_db st)" and now: "time_ok now"
    and t: "s_transaction st gp = t" "tx_Type t = TypeTransferTokens" "0 \<le> tx_Value t"
    and fresh: "\<forall>p. txn_Get F (NewTransaction True (s_db st)) (Transaction_Key t) \<noteq> Ok p"
    and enough: "tx_Value t \<le> balance_of (s_db st) (tx_From t)"
    and bound: "balance_of (s_db st) (tx_To t) + tx_Value t \<le> 2 ^ 53"
  shows "\<exists>st'. executeTransaction V F now gp rp st = (Ok (), st') \<and> accounts_ok (s_db st') \<and>
    (\<forall>a. balance_of (s_db st') a =
       (if a = tx_To t then balance_of (s_db st) a + tx_Value t
        else if a = tx_From t then balance_of (s_db st) a - tx_Value t
        else balance_of (s_db st) a)) \<and>
    map_of (s_db st') (Transaction_Key t) = Some (Transaction_String t, None) \<and> s_gossip st' = s_gossip st"
proof -
  let ?d = "s_db st"
  define fb where "fb = balance_of ?d (tx_From t)"
  define tb where "tb = balance_of ?d (tx_To t)"
  obtain fa where fa: "find_account F now (NewTransaction True ?d) (tx_From t) = Ok fa" "account_ok (tx_From t) fa"
      "a_Balance fa = Some fb"
    using find_account_ok [OF F acc now] unfolding fb_def by blast
  obtain ta where ta: "find_account F now (NewTransaction True ?d) (tx_To t) = Ok ta" "account_ok (tx_To t) ta"
      "a_Balance ta = Some tb"
    using find_account_ok [OF F acc now] unfolding tb_def by blast
  have fbr: "0 \<le> fb" "fb \<le> 2 ^ 53" and tbr: "0 \<le> tb" "tb \<le> 2 ^ 53"
    using balance_bounds [OF acc] by (auto simp: fb_def tb_def)
  have vb: "tx_Value t \<le> fb" "tb + tx_Value t \<le> 2 ^ 53" using enough bound by (auto simp: fb_def tb_def)
  define fa' where "fa' = fa\<lparr>a_Balance := Some (fb - tx_Value t)\<rparr>"
  define ta' where "ta' = ta\<lparr>a_Balance := Some (tb + tx_Value t)\<rparr>"
  have "is_s64 (fb - tx_Value t)" "is_s64 (tb + tx_Value t)"
    using fbr tbr vb t(3) by (auto simp: is_s64_def)
  then have switch: "exec_switch V F now gp rp fa ta (NewTransaction True ?d) st =
      (Ok (Some (fa', ta', NewTransaction True ?d)), st)"
    using t fa(3) ta(3) fbr tbr vb
    by (simp add: exec_switch_def exec_transfer_def Let_def big_Int64_small fa'_def ta'_def)
  have ok: "account_ok (tx_From t) (fa'\<lparr>a_Updated := now\<rparr>)" "account_ok (tx_To t) (ta'\<lparr>a_Updated := now\<rparr>)"
    using fa(2) ta(2) fbr tbr vb t(3) now by (auto simp: account_ok_def fa'_def ta'_def)
  obtain fs where fs: "Account_String (fa'\<lparr>a_Updated := now\<rparr>) = Ok fs" "ToAccountFromJson fs =
      Ok (fa'\<lparr>a_Updated := now, a_Root := replicate HashLength 0, a_CodeHash := []\<rparr>)"
    using account_ok_stored [OF ok(1)] by auto
  obtain ts where ts: "Account_String (ta'\<lparr>a_Updated := now\<rparr>) = Ok ts" "ToAccountFromJson ts =
      Ok (ta'\<lparr>a_Updated := now, a_Root := replicate HashLength 0, a_CodeHash := []\<rparr>)"
    using account_ok_stored [OF ok(2)] by auto
  obtain st' r where save: "exec_save F now gp rp fa' ta' (NewTransaction True ?d) st = (Ok (), st')"
      "s_db st' = kv.wrs (t_writes (NewTransaction True ?d) @ puts (saved (s_transaction st gp) (fa'\<lparr>a_Updated := now\<rparr>) fs
                  (ta'\<lparr>a_Updated := now\<rparr>) ts r (s_gossip st gp))) ?d" "s_gossip st' = s_gossip st"
    using exec_save_silent [OF F _ fs(1) ts(1), of "NewTransaction True ?d" gp rp st] by (auto simp: NewTransaction_def)
  have db': "s_db st' = kv.wrs (puts (saved t (fa'\<lparr>a_Updated := now\<rparr>) fs (ta'\<lparr>a_Updated := now\<rparr>) ts r (s_gossip st gp))) ?d"
    using save(2) t(1) by (simp add: NewTransaction_def)
  have addr: "a_Address fa = tx_From t" "a_Address ta = tx_To t" using fa(2) ta(2) by (simp_all add: account_ok_def)
  have look: "db_account (s_db st') a =
      (if a = tx_To t then Ok (ta'\<lparr>a_Updated := now, a_Root := replicate HashLength 0, a_CodeHash := []\<rparr>)
       else if a = tx_From t then Ok (fa'\<lparr>a_Updated := now, a_Root := replicate HashLength 0, a_CodeHash := []\<rparr>)
       else db_account ?d a)" for a
    unfolding db_account_lookup db' saved_account_lookup using fs(2) ts(2) addr by (simp add: fa'_def ta'_def)
  have "accounts_ok (s_db st')"
    using acc ok unfolding accounts_ok_def by (auto simp: look account_ok_def)
  moreover have "balance_of (s_db st') a = (if a = tx_To t then balance_of ?d a + tx_Value t
        else if a = tx_From t then balance_of ?d a - tx_Value t else balance_of ?d a)" for a
    by (simp add: balance_of_def look fa'_def ta'_def) (simp flip: balance_of_def add: fb_def tb_def)
  moreover have "map_of (s_db st') (Transaction_Key t) = Some (Transaction_String t, None)"
    unfolding db' by (rule saved_transaction_lookup)
  moreover have "executeTransaction V F now gp rp st = (Ok (), st')"
    using executeTransaction_goes_on [OF _ fa(1) [folded t(1)] ta(1) [folded t(1)], where V = V and rp = rp] fresh t(1) switch save(1)
    by simp
  ultimately show ?thesis using save(3) by blast
qed

lemma txn_Sets_Ok: "txn_Sets F kvs tx = (Ok u, tx') \<Longrightarrow> t_writes tx' = t_writes tx @ puts kvs"
proof (induction F kvs tx rule: txn_Sets.induct)
  case (2 F k v kvs tx)
  then show ?case by (auto simp: txn_Set_def txn_Put_def puts_def split: if_splits option.splits)
qed (simp add: puts_def)

lemma Account_Persist_Ok: "Account_Persist F a tx = (Ok u, tx') \<Longrightarrow> \<exists>kvs. t_writes tx' = t_writes tx @ puts kvs"
  by (auto simp: Account_Persist_def simp del: txn_Sets.simps dest!: txn_Sets_Ok split: result.splits)

lemma puts_found: "k \<in> fst ` set kvs \<Longrightarrow> map_of (kv.wrs (puts kvs) d) k \<noteq> None"
  by (auto simp: get_puts split: option.split) (metis fst_conv imageI map_of_eq_None_iff option.distinct(1) set_rev image_eqI)

lemma s_db_updates [simp]: "s_db (internal_error rp e st) = s_db st" "s_db (put_receipt rp r st) = s_db st"
  "s_db (put_transaction gp t st) = s_db st"
  by (simp_all add: internal_error_def cache_receipt_def put_receipt_def put_transaction_def put_gossip_def)

lemma txn_Commit_cases: "txn_Commit F tx d = (r, d') \<Longrightarrow> d' = d \<or> d' = kv.wrs (t_writes tx) d"
  by (auto simp: txn_Commit_def kv.wrs_def kv_wr_eq split: option.splits)

lemma exec_save_tail_db:
  "s_db (snd (exec_save_tail F gp rp tx st)) = s_db st \<or>
   (\<exists>kvs. s_db (snd (exec_save_tail F gp rp tx st)) = kv.wrs (t_writes tx @ puts kvs) (s_db st))"
  unfolding exec_save_tail_def Receipt_Set_def Gossip_Set_def Receipt_Persist_def Gossip_Persist_def
  by (auto simp: Let_def puts_append [symmetric] simp del: txn_Sets.simps
      split: prod.splits result.splits dest!: txn_Sets_Ok txn_Commit_cases intro: exI)

lemma exec_save_db:
  assumes "t_writes tx = []"
  shows "s_db (snd (exec_save F now gp rp fa ta tx st)) = s_db st \<or>
   (\<exists>kvs. Transaction_Key (s_transaction st gp) \<in> fst ` set kvs \<and>
      s_db (snd (exec_save F now gp rp fa ta tx st)) = kv.wrs (puts kvs) (s_db st))"
proof -
  obtain r1 tx1 where 1: "Transaction_Persist F (s_transaction st gp) tx = (r1, tx1)" by force
  obtain r2 tx2 where 2: "Account_Persist F (fa\<lparr>a_Updated := now\<rparr>) tx1 = (r2, tx2)" by force
  obtain r3 tx3 where 3: "Account_Persist F (ta\<lparr>a_Updated := now\<rparr>) tx2 = (r3, tx3)" by force
  show ?thesis
  proof (cases "r1 = Ok () \<and> r2 = Ok () \<and> r3 = Ok ()")
    case True
    obtain k1 where k1: "t_writes tx1 = puts k1" "Transaction_Key (s_transaction st gp) \<in> fst ` set k1"
      using 1 True assms txn_Sets_Ok unfolding Transaction_Persist_def by fastforce
    obtain k2 where k2: "t_writes tx2 = t_writes tx1 @ puts k2" using 2 True Account_Persist_Ok by blast
    obtain k3 where k3: "t_writes tx3 = t_writes tx2 @ puts k3" using 3 True Account_Persist_Ok by blast
    have "exec_save F now gp rp fa ta tx st = exec_save_tail F gp rp tx3 st"
      using 1 2 3 True by (simp add: exec_save_def)
    moreover have "s_db (snd (exec_save_tail F gp rp tx3 st)) = s_db st \<or>
       (\<exists>kvs. s_db (snd (exec_save_tail F gp rp tx3 st)) = kv.wrs (puts (k1 @ k2 @ k3 @ kvs)) (s_db st))"
      using exec_save_tail_db [of F gp rp tx3 st] by (simp add: k1 k2 k3 puts_append)
    moreover have "Transaction_Key (s_transaction st gp) \<in> fst ` set (k1 @ k2 @ k3 @ kvs)" for kvs
      using k1(2) by (simp add: image_Un)
    ultimately show ?thesis by metis
  next
    case False
    then have "s_db (snd (exec_save F now gp rp fa ta tx st)) = s_db st"
      using 1 2 3 by (auto simp: exec_save_def split: result.splits)
    then show ?thesis by blast
  qed
qed

lemma only_receipt_refl [simp]: "only_receipt d d"
  by (simp add: only_receipt_def)

lemma set_status_only_receipt: "only_receipt (s_db st) (s_db (set_status_new_txn F s rp st))"
  by (auto simp: set_status_new_txn_def SetStatusWithNewTransaction_def only_receipt_def txn_SetWithTTL_def txn_Put_def
      NewTransaction_def txn_Commit_def map_of_txn_write Receipt_Key_def HasPrefix_def Let_def split: option.splits prod.splits)

lemma set_internal_only_receipt: "only_receipt (s_db st) (s_db (set_internal_error_new_txn F s rp st))"
  by (auto simp: set_internal_error_new_txn_def SetInternalErrorWithNewTransaction_def only_receipt_def txn_SetWithTTL_def txn_Put_def
      NewTransaction_def txn_Commit_def map_of_txn_write Receipt_Key_def HasPrefix_def Let_def split: option.splits prod.splits)

lemma exec_switch_keeps:
  assumes "tx_Type (s_transaction st gp) \<notin> {TypeDeploySmartContract, TypeExecuteSmartContract}"
    and "exec_switch V F now gp rp fa ta tx st = (r, st1)"
  shows "only_receipt (s_db st) (s_db st1)" "r = Ok (Some (fa', ta', tx')) \<Longrightarrow> st1 = st \<and> tx' = tx"
  using assms set_status_only_receipt
  by (auto simp: exec_switch_def exec_transfer_def Let_def split: if_splits option.splits)

lemma executeTransaction_atomic:
  assumes ty: "tx_Type (s_transaction st gp) \<notin> {TypeDeploySmartContract, TypeExecuteSmartContract}"
    and d'_def: "d' = s_db (snd (executeTransaction V F now gp rp st))"
  shows "only_receipt (s_db st) d' \<or> map_of d' (Transaction_Key (s_transaction st gp)) \<noteq> None"
proof -
  let ?tx = "NewTransaction True (s_db st)"
  let ?from = "find_account F now ?tx (tx_From (s_transaction st gp))"
  let ?to = "find_account F now ?tx (tx_To (s_transaction st gp))"
  consider "d' = s_db st" | e where "d' = s_db (set_internal_error_new_txn F e rp st)"
    | fa ta where "\<forall>p. txn_Get F ?tx (Transaction_Key (s_transaction st gp)) \<noteq> Ok p" "?from = Ok fa" "?to = Ok ta"
    unfolding d'_def executeTransaction_def Let_def
    by (cases "txn_Get F ?tx (Transaction_Key (s_transaction st gp))"; cases ?from; cases ?to) auto
  then show ?thesis
  proof cases
    case (3 fa ta)
    note run = executeTransaction_goes_on [OF 3, where V = V and rp = rp]
    obtain r st1 where sw: "exec_switch V F now gp rp fa ta ?tx st = (r, st1)" by force
    note keeps = exec_switch_keeps [OF ty sw]
    show ?thesis
    proof (cases "\<exists>fa' ta' tx'. r = Ok (Some (fa', ta', tx'))")
      case True
      then obtain fa' ta' tx' where r: "r = Ok (Some (fa', ta', tx'))" by blast
      have "d' = s_db (snd (exec_save F now gp rp fa' ta' ?tx st))"
        using run sw r keeps(2) [OF r] by (simp add: d'_def)
      moreover have "t_writes ?tx = []" by (simp add: NewTransaction_def)
      ultimately show ?thesis using exec_save_db puts_found by (metis only_receipt_refl)
    next
      case False
      then have "d' = s_db st1" using run sw by (auto simp: d'_def split: result.splits option.splits)
      with keeps(1) show ?thesis by simp
    qed
  qed (simp_all add: set_internal_only_receipt)
qed

lemma sample_ledger: "db_account (s_db (sample_state t)) a =
   (if a = ''alice'' then Ok (Account_zero\<lparr>a_Address := ''alice'', a_Balance := Some 10\<rparr>) else Err ErrKeyNotFound)"
proof -
  have "(case Account_String (Account_zero\<lparr>a_Address := ''alice'', a_Balance := Some 10\<rparr>) of
         Ok v \<Rightarrow> ToAccountFromJson v | _ \<Rightarrow> Err '''') = Ok (Account_zero\<lparr>a_Address := ''alice'', a_Balance := Some 10\<rparr>)"
    by code_simp
  then show ?thesis by (auto simp: db_account_lookup sample_state_def split: result.splits)
qed

lemma sample_accounts_ok: "accounts_ok (s_db (sample_state t))"
  by (auto simp: accounts_ok_def sample_ledger account_ok_def Account_zero_def time_ok_def zero_time_def)

lemma sample_balance: "balance_of (s_db (sample_state t)) a = (if a = ''alice'' then 10 else 0)"
  by (simp add: balance_of_def sample_ledger)

lemma sample_transaction [simp]: "s_transaction (sample_state t) 0 = t"
  by (simp add: s_transaction_def s_gossip_def gossip_at_def sample_state_def)

lemma sample_fresh: "txn_Get F (NewTransaction True (s_db (sample_state t))) (Transaction_Key t') \<noteq> Ok p"
  by (auto simp: txn_Get_def NewTransaction_def sample_state_def Transaction_Key_def split: result.splits option.splits)

lemma silent_no_faults [simp]: "silent no_faults"
  by (simp add: silent_def no_faults_def)

lemma time_ok_0 [simp]: "time_ok 0"
  by (simp add: time_ok_def)

lemma sample_tx_simps [simp]: "tx_Type (sample_tx a b v) = TypeTransferTokens" "tx_From (sample_tx a b v) = a"
  "tx_To (sample_tx a b v) = b" "tx_Value (sample_tx a b v) = v" "Transaction_Key (sample_tx a b v) = ''table-transaction-h''"
  by (simp_all add: sample_tx_def Transaction_Key_def)

lemma lost_read_record [simp]: "silent (lost_read ''table-transaction-h'')" "f_get (lost_read k) k = Some ''I/O error''"
  by (simp_all add: lost_read_def silent_def no_faults_def)

text \<open>
  C1. A transfer that has not been recorded moves exactly its value, when the sender has enough and no write fails:
  the record is stored, every other balance is unchanged, the ledger keeps its invariant. The recipient is written
  last, so a transfer of an account to itself is not neutral: the balance grows by the value.
\<close>
theorem execute_transfer:
  assumes "silent F" and "accounts_ok (s_db st)" and "time_ok now"
    and "s_transaction st gp = t" and "tx_Type t = TypeTransferTokens" and "0 \<le> tx_Value t"
    and "\<forall>p. txn_Get F (NewTransaction True (s_db st)) (Transaction_Key t) \<noteq> Ok p"
    and "tx_Value t \<le> balance_of (s_db st) (tx_From t)"
    and "balance_of (s_db st) (tx_To t) + tx_Value t \<le> 2 ^ 53"
  shows "\<exists>st'. executeTransaction V F now gp rp st = (Ok (), st') \<and> accounts_ok (s_db st') \<and>
    (\<forall>a. balance_of (s_db st') a =
       (if a = tx_To t then balance_of (s_db st) a + tx_Value t
        else if a = tx_From t then balance_of (s_db st) a - tx_Value t
        else balance_of (s_db st) a)) \<and>
    map_of (s_db st') (Transaction_Key t) = Some (Transaction_String t, None)"
  using transfer_result [OF assms] by blast

theorem execute_transfer_witness:
  "\<exists>st'. executeTransaction no_vm no_faults 0 0 0 (sample_state (sample_tx ''alice'' ''bob'' 4)) = (Ok (), st') \<and>
    balance_of (s_db st') ''alice'' = 6 \<and> balance_of (s_db st') ''bob'' = 4 \<and> balance_of (s_db st') ''carol'' = 0"
  using execute_transfer [of no_faults "sample_state (sample_tx ''alice'' ''bob'' 4)" 0 0, OF _ _ _ sample_transaction]
  by (force simp: sample_accounts_ok sample_fresh [where t' = "sample_tx a b v" for a b v, simplified] sample_balance)

text \<open>
  C4. No transfer between two different accounts creates or destroys tokens: over any finite set of addresses that
  holds both, the sum of the balances is the same before and after.
\<close>
theorem transfer_conserves_tokens:
  assumes "silent F" and "accounts_ok (s_db st)" and "time_ok now"
    and "s_transaction st gp = t" and "tx_Type t = TypeTransferTokens" and "0 \<le> tx_Value t"
    and "\<forall>p. txn_Get F (NewTransaction True (s_db st)) (Transaction_Key t) \<noteq> Ok p"
    and "tx_Value t \<le> balance_of (s_db st) (tx_From t)"
    and "balance_of (s_db st) (tx_To t) + tx_Value t \<le> 2 ^ 53"
    and A: "finite A" "tx_From t \<in> A" "tx_To t \<in> A" "tx_From t \<noteq> tx_To t"
  shows "(\<Sum>a \<in> A. balance_of (s_db (snd (executeTransaction V F now gp rp st))) a) = (\<Sum>a \<in> A. balance_of (s_db st) a)"
proof -
  obtain st' where st': "executeTransaction V F now gp rp st = (Ok (), st')"
    "\<forall>a. balance_of (s_db st') a = (if a = tx_To t then balance_of (s_db st) a + tx_Value t
        else if a = tx_From t then balance_of (s_db st) a - tx_Value t else balance_of (s_db st) a)"
    using transfer_result [OF assms(1-9)] by blast
  have "(\<Sum>a \<in> A. balance_of (s_db st') a) =
      (\<Sum>a \<in> A. balance_of (s_db st) a + (if a = tx_To t then tx_Value t else 0) - (if a = tx_From t then tx_Value t else 0))"
    using A st'(2) by (intro sum.cong) auto
  also have "\<dots> = (\<Sum>a \<in> A. balance_of (s_db st) a)"
    using A by (simp add: sum.distrib sum_subtractf)
  finally show ?thesis by (simp add: st'(1))
qed

theorem transfer_conserves_tokens_witness:
  "(\<Sum>a \<in> {''alice'', ''bob''}. balance_of (s_db (snd (executeTransaction no_vm no_faults 0 0 0 (sample_state (sample_tx ''alice'' ''bob'' 4))))) a) = 10"
  using transfer_conserves_tokens [of no_faults "sample_state (sample_tx ''alice'' ''bob'' 4)" 0 0 "sample_tx ''alice'' ''bob'' 4" "{''alice'', ''bob''}"]
  by (simp add: sample_accounts_ok sample_fresh [where t' = "sample_tx a b v" for a b v, simplified] sample_balance)

text \<open>
  C21. Executing the same transfer again does nothing when the record can be read, but when the read of the
  record fails with any error the transfer is executed a second time and the tokens move twice.
\<close>
theorem execute_transfer_twice:
  assumes "silent F" and "silent F'" and "accounts_ok (s_db st)" and "time_ok now"
    and "s_transaction st gp = t" and "tx_Type t = TypeTransferTokens" and "0 \<le> tx_Value t" and "tx_From t \<noteq> tx_To t"
    and "\<forall>p. txn_Get F (NewTransaction True (s_db st)) (Transaction_Key t) \<noteq> Ok p"
    and "2 * tx_Value t \<le> balance_of (s_db st) (tx_From t)"
    and "balance_of (s_db st) (tx_To t) + 2 * tx_Value t \<le> 2 ^ 53"
  shows "let st1 = snd (executeTransaction V F now gp rp st); (r, st2) = executeTransaction V F' now gp rp' st1
         in r = Ok () \<and>
            (case f_get F' (Transaction_Key t) of
               None \<Rightarrow> st2 = st1
             | Some e \<Rightarrow> balance_of (s_db st2) (tx_From t) = balance_of (s_db st) (tx_From t) - 2 * tx_Value t \<and>
                         balance_of (s_db st2) (tx_To t) = balance_of (s_db st) (tx_To t) + 2 * tx_Value t)"
proof -
  obtain st1 where 1: "executeTransaction V F now gp rp st = (Ok (), st1)" "accounts_ok (s_db st1)"
    "\<forall>a. balance_of (s_db st1) a = (if a = tx_To t then balance_of (s_db st) a + tx_Value t
        else if a = tx_From t then balance_of (s_db st) a - tx_Value t else balance_of (s_db st) a)"
    "map_of (s_db st1) (Transaction_Key t) = Some (Transaction_String t, None)" "s_gossip st1 = s_gossip st"
    using transfer_result [OF assms(1,3-7,9), where V = V and rp = rp] assms(7,10,11) by auto
  have t1: "s_transaction st1 gp = t" using 1(5) assms(5) by (simp add: s_transaction_def)
  show ?thesis
  proof (cases "f_get F' (Transaction_Key t)")
    case None
    then have "executeTransaction V F' now gp rp' st1 = (Ok (), st1)"
      using 1(4) by (simp add: executeTransaction_def t1 txn_Get_def NewTransaction_def)
    with None 1(1) show ?thesis by simp
  next
    case (Some e)
    then have "\<forall>p. txn_Get F' (NewTransaction True (s_db st1)) (Transaction_Key t) \<noteq> Ok p"
      by (simp add: txn_Get_def)
    from transfer_result [OF assms(2) 1(2) assms(4) t1 assms(6,7) this, where V = V and rp = rp'] Some 1(1,3) assms(7,8,10,11)
    show ?thesis by auto
  qed
qed

theorem execute_transfer_twice_witness:
  "let st1 = snd (executeTransaction no_vm no_faults 0 0 0 (sample_state (sample_tx ''alice'' ''bob'' 4)));
       st2 = snd (executeTransaction no_vm (lost_read ''table-transaction-h'') 0 0 0 st1)
   in balance_of (s_db st2) ''alice'' = 2 \<and> balance_of (s_db st2) ''bob'' = 8"
  using execute_transfer_twice [of no_faults "lost_read ''table-transaction-h''" "sample_state (sample_tx ''alice'' ''bob'' 4)" 0 0,
      OF _ _ _ _ sample_transaction, of no_vm 0 0]
  by (simp add: sample_accounts_ok sample_fresh [where t' = "sample_tx a b v" for a b v, simplified] sample_balance case_prod_beta Let_def)

text \<open>
  C22. A transfer of more than the sender has changes no balance and is not recorded: the only thing stored is the
  receipt with the status InsufficientTokens.
\<close>
theorem transfer_insufficient:
  assumes "silent F" and "accounts_ok (s_db st)" and "time_ok now"
    and "s_transaction st gp = t" and "tx_Type t = TypeTransferTokens"
    and "\<forall>p. txn_Get F (NewTransaction True (s_db st)) (Transaction_Key t) \<noteq> Ok p"
    and "balance_of (s_db st) (tx_From t) < tx_Value t" and "rp < length (h_receipts (s_heap st))"
  shows "\<exists>st'. executeTransaction V F now gp rp st = (Ok (), st') \<and>
    (let r = (s_receipt st rp)\<lparr>rc_Status := StatusInsufficientTokens\<rparr>
     in s_receipt st' rp = r \<and>
        map_of (s_db st') = (map_of (s_db st))(Receipt_Key r \<mapsto> (Receipt_String r, Some ReceiptCacheTTL)))"
proof -
  let ?tx = "NewTransaction True (s_db st)"
  obtain fa where fa: "find_account F now ?tx (tx_From t) = Ok fa" "a_Balance fa = Some (balance_of (s_db st) (tx_From t))"
    using find_account_ok [OF assms(1-3)] by blast
  obtain ta where ta: "find_account F now ?tx (tx_To t) = Ok ta"
    using find_account_ok [OF assms(1-3)] by blast
  have "exec_switch V F now gp rp fa ta ?tx st = (Ok None, set_status_new_txn F StatusInsufficientTokens rp st)"
    using assms(4,5,7) fa(2) balance_bounds [OF assms(2)]
    by (simp add: exec_switch_def exec_transfer_def Let_def big_Int64_small)
  then have "executeTransaction V F now gp rp st = (Ok (), set_status_new_txn F StatusInsufficientTokens rp st)"
    using executeTransaction_goes_on [of F st gp now fa ta V rp] assms(4,6) fa(1) ta by simp
  moreover have "f_set F k = None" "f_commit F = None" for k using assms(1) by (simp_all add: silent_def)
  ultimately show ?thesis using assms(8)
    by (auto simp: set_status_new_txn_def SetStatusWithNewTransaction_def txn_SetWithTTL_def txn_Put_def NewTransaction_def
        txn_Commit_def txn_write_def s_receipt_def receipt_at_def set_receipt_def Let_def)
qed

theorem transfer_insufficient_witness:
  "\<exists>st'. executeTransaction no_vm no_faults 0 0 0 (sample_state (sample_tx ''alice'' ''bob'' 11)) = (Ok (), st') \<and>
    rc_Status (s_receipt st' 0) = StatusInsufficientTokens \<and> map_of (s_db st') ''table-transaction-h'' = None"
proof -
  let ?st = "sample_state (sample_tx ''alice'' ''bob'' 11)"
  have "0 < length (h_receipts (s_heap ?st))" "map_of (s_db ?st) ''table-transaction-h'' = None"
    by (auto simp: sample_state_def split: result.splits)
  moreover have "Receipt_Key r \<noteq> ''table-transaction-h''" for r by (simp add: Receipt_Key_def)
  ultimately show ?thesis
    using transfer_insufficient [of no_faults ?st 0 0, OF _ _ _ sample_transaction, of 0 no_vm]
    by (force simp: sample_accounts_ok sample_fresh [where t' = "sample_tx a b v" for a b v, simplified] sample_balance Let_def)
qed


text \<open>
  C23. A round of \<open>doWork\<close> changes the database only on a bookkeeper, for a gossip it popped whose receipt is cached
  and whose first rumor came within the receive timeout of the transaction.
\<close>
theorem doWork_guards:
  "s_db (snd (doWork E V F now st)) = s_db st \<or>
   (e_isBookkeeper E \<and>
    (case GossipQueue_Pop (gossip_hash st) (s_gossipQueue st) of
       None \<Rightarrow> False
     | Some (gp, q) \<Rightarrow> (\<exists>rp. ToReceiptFromCache (s_cache st) (gossip_hash st gp) = Ok rp) \<and>
         (case g_Rumors (s_gossip st gp) of
            [] \<Rightarrow> False | rumor # _ \<Rightarrow> wrap_s64 (r_Time rumor - gossip_time st gp) < TxReceiveTimeout)))"
proof -
  have [simp]: "gossip_hash (st\<lparr>s_gossipQueue := q\<rparr>) gp = gossip_hash st gp" "s_gossip (st\<lparr>s_gossipQueue := q\<rparr>) gp = s_gossip st gp"
    "gossip_time (st\<lparr>s_gossipQueue := q\<rparr>) gp = gossip_time st gp" for q gp
    by (simp_all add: gossip_hash_def s_gossip_def gossip_time_def)
  show ?thesis
    by (auto simp: doWork_def Let_def alloc_receipt_def new_receipt_def cache_receipt_def put_receipt_def
        split: prod.splits result.splits option.splits list.splits if_splits)
qed

end
