(* ===== verification/Evm_Machine.thy ===== *)
theory Evm_Machine
  imports Big_Math
begin

section \<open>Stack, memory, code analysis and gas arithmetic of the virtual machine (dvm/ethereum/vm)\<close>

text \<open>
  The parts of the machine that hold no account state.

  \<^item> \<open>stack.go\<close>, \<open>stack_table.go\<close>: the stack is the slice \<open>data\<close> reversed, so its head is the top. Values
    are integers; the pool of integers (\<open>intpool.go\<close>) only recycles allocations and has no counterpart here. An
    access below the bottom is the run-time panic of the slice.
  \<^item> \<open>memory.go\<close>, \<open>memory_table.go\<close>: the store is a list of bytes. A slice that ends behind the store is a
    panic (Go allows it up to the capacity of the slice; the interpreter resizes the memory first and never does it).
  \<^item> \<open>analysis.go\<close>: the bit vector of the positions of \<open>code\<close> that are data of a PUSH.
  \<^item> \<open>common.go\<close>, \<open>gas.go\<close>, \<open>params\<close>: sizes in \<open>uint64\<close> with their overflow checks, gas prices.
\<close>

subsection \<open>stack.go and stack_table.go\<close>

type_synonym Stack = "int list"

definition stack_panic :: string where "stack_panic = ''index out of range''"

definition st_push :: "int \<Rightarrow> Stack \<Rightarrow> Stack" where
  "st_push d st = d # st"

definition st_pop :: "Stack \<Rightarrow> (int \<times> Stack) result" where
  "st_pop st = (case st of [] \<Rightarrow> Panic stack_panic | d # st' \<Rightarrow> Ok (d, st'))"

definition st_Back :: "Stack \<Rightarrow> nat \<Rightarrow> int result" where
  "st_Back st n = (if n < length st then Ok (st ! n) else Panic stack_panic)"

definition st_peek :: "Stack \<Rightarrow> int result" where
  "st_peek st = st_Back st 0"

text \<open>\<open>swap(n)\<close> exchanges the top with the \<open>n\<close>-th item, \<open>dup(n)\<close> pushes a copy of the \<open>n\<close>-th, both counted from 1.\<close>

definition st_swap :: "nat \<Rightarrow> Stack \<Rightarrow> Stack result" where
  "st_swap n st =
     (if n = 0 \<or> length st < n then Panic stack_panic
      else Ok (st[n - 1 := st ! 0, 0 := st ! (n - 1)]))"

definition st_dup :: "nat \<Rightarrow> Stack \<Rightarrow> Stack result" where
  "st_dup n st = (if n = 0 \<or> length st < n then Panic stack_panic else Ok (st_push (st ! (n - 1)) st))"

definition StackLimit :: nat where "StackLimit = 1024"

definition stack_require :: "Stack \<Rightarrow> nat \<Rightarrow> unit result" where
  "stack_require st n = (if length st < n then Err ''stack underflow'' else Ok ())"

definition makeStackFunc :: "nat \<Rightarrow> nat \<Rightarrow> Stack \<Rightarrow> unit result" where
  "makeStackFunc pop push st =
     result_bind (stack_require st pop) (\<lambda>_.
       if int (length st) + int push - int pop > int StackLimit then Err ''stack limit reached'' else Ok ())"

definition makeDupStackFunc :: "nat \<Rightarrow> Stack \<Rightarrow> unit result" where
  "makeDupStackFunc n = makeStackFunc n (n + 1)"

definition makeSwapStackFunc :: "nat \<Rightarrow> Stack \<Rightarrow> unit result" where
  "makeSwapStackFunc n = makeStackFunc n n"

subsection \<open>memory.go\<close>

record Memory =
  m_store :: "byte list"
  m_lastGasCost :: int

definition NewMemory :: Memory where
  "NewMemory = \<lparr>m_store = [], m_lastGasCost = 0\<rparr>"

definition memory_Len :: "Memory \<Rightarrow> int" where
  "memory_Len m = int (length (m_store m))"

text \<open>\<open>copy(m.store[offset:end], value)\<close> for a region inside the store.\<close>

definition overwrite :: "nat \<Rightarrow> nat \<Rightarrow> byte list \<Rightarrow> byte list \<Rightarrow> byte list" where
  "overwrite offset sz value store =
     (let n = min sz (length value) in take offset store @ take n value @ drop (offset + n) store)"

definition memory_Set :: "int \<Rightarrow> int \<Rightarrow> byte list \<Rightarrow> Memory \<Rightarrow> Memory result" where
  "memory_Set offset sz value m =
     (if sz > 0 then
        (let e = wrap_u64 (offset + sz)
         in if e > memory_Len m then Panic ''invalid memory: store empty''
            else if offset > e then Panic ''slice bounds out of range''
            else Ok (m\<lparr>m_store := overwrite (nat offset) (nat sz) value (m_store m)\<rparr>))
      else Ok m)"

definition memory_Set32 :: "int \<Rightarrow> int \<Rightarrow> Memory \<Rightarrow> Memory result" where
  "memory_Set32 offset val m =
     (let e = wrap_u64 (offset + 32)
      in if e > memory_Len m then Panic ''invalid memory: store empty''
         else if offset > e then Panic ''slice bounds out of range''
         else Ok (m\<lparr>m_store := overwrite (nat offset) 32 (ReadBits val (replicate 32 0)) (m_store m)\<rparr>))"

definition memory_Resize :: "int \<Rightarrow> Memory \<Rightarrow> Memory" where
  "memory_Resize sz m =
     (if memory_Len m < sz
      then m\<lparr>m_store := m_store m @ replicate (nat (sz - memory_Len m)) 0\<rparr> else m)"

definition memory_GetPtr :: "int \<Rightarrow> int \<Rightarrow> Memory \<Rightarrow> byte list result" where
  "memory_GetPtr offset sz m =
     (if sz = 0 then Ok []
      else if memory_Len m > offset then
        (let e = wrap_s64 (offset + sz)
         in if offset < 0 \<or> e < offset \<or> e > memory_Len m then Panic ''slice bounds out of range''
            else Ok (take (nat sz) (drop (nat offset) (m_store m))))
      else Ok [])"

text \<open>\<open>Get\<close> allocates the copy first: a negative sz panics there.\<close>

definition memory_Get :: "int \<Rightarrow> int \<Rightarrow> Memory \<Rightarrow> byte list result" where
  "memory_Get offset sz m =
     (if sz < 0 \<and> memory_Len m > offset then Panic ''makeslice: len out of range''
      else memory_GetPtr offset sz m)"

subsection \<open>common.go\<close>

definition calcMemSize :: "int \<Rightarrow> int \<Rightarrow> int" where
  "calcMemSize off l = (if l = 0 then 0 else off + l)"

definition getData :: "byte list \<Rightarrow> int \<Rightarrow> int \<Rightarrow> byte list result" where
  "getData data start sz =
     (let len = int (length data);
          start' = (if start > len then len else start);
          e = wrap_u64 (start' + sz);
          e' = (if e > len then len else e)
      in if start' > e' then Panic ''slice bounds out of range''
         else Ok (RightPadBytes (take (nat (e' - start')) (drop (nat start') data)) (nat (wrap_s64 sz))))"

definition getDataBig :: "byte list \<Rightarrow> int \<Rightarrow> int \<Rightarrow> byte list" where
  "getDataBig data start sz =
     (let dlen = int (length data);
          s = BigMin start dlen;
          e = BigMin (s + sz) dlen
      in RightPadBytes (take (nat (big_Uint64 e - big_Uint64 s)) (drop (nat (big_Uint64 s)) data))
           (nat (wrap_s64 (big_Uint64 sz))))"

definition bigUint64 :: "int \<Rightarrow> int \<times> bool" where
  "bigUint64 v = (big_Uint64 v, big_BitLen v > 64)"

definition toWordSize :: "int \<Rightarrow> int" where
  "toWordSize sz = (if sz > MaxUint64 - 31 then MaxUint64 div 32 + 1 else (sz + 31) div 32)"

definition allZero :: "byte list \<Rightarrow> bool" where
  "allZero b \<longleftrightarrow> list_all (\<lambda>x. x = 0) b"

subsection \<open>memory_table.go\<close>

definition mem_region :: "nat \<Rightarrow> nat \<Rightarrow> Stack \<Rightarrow> int result" where
  "mem_region off len st =
     result_bind (st_Back st off) (\<lambda>o1. result_bind (st_Back st len) (\<lambda>l. Ok (calcMemSize o1 l)))"

definition mem_fixed :: "nat \<Rightarrow> int \<Rightarrow> Stack \<Rightarrow> int result" where
  "mem_fixed off len st = result_bind (st_Back st off) (\<lambda>o1. Ok (calcMemSize o1 len))"

definition mem_max :: "(Stack \<Rightarrow> int result) \<Rightarrow> (Stack \<Rightarrow> int result) \<Rightarrow> Stack \<Rightarrow> int result" where
  "mem_max f g st = result_bind (f st) (\<lambda>x. result_bind (g st) (\<lambda>y. Ok (BigMax x y)))"

definition memorySha3 :: "Stack \<Rightarrow> int result" where "memorySha3 = mem_region 0 1"
definition memoryCallDataCopy :: "Stack \<Rightarrow> int result" where "memoryCallDataCopy = mem_region 0 2"
definition memoryReturnDataCopy :: "Stack \<Rightarrow> int result" where "memoryReturnDataCopy = mem_region 0 2"
definition memoryCodeCopy :: "Stack \<Rightarrow> int result" where "memoryCodeCopy = mem_region 0 2"
definition memoryExtCodeCopy :: "Stack \<Rightarrow> int result" where "memoryExtCodeCopy = mem_region 1 3"
definition memoryMLoad :: "Stack \<Rightarrow> int result" where "memoryMLoad = mem_fixed 0 32"
definition memoryMStore8 :: "Stack \<Rightarrow> int result" where "memoryMStore8 = mem_fixed 0 1"
definition memoryMStore :: "Stack \<Rightarrow> int result" where "memoryMStore = mem_fixed 0 32"
definition memoryCreate :: "Stack \<Rightarrow> int result" where "memoryCreate = mem_region 1 2"
definition memoryCreate2 :: "Stack \<Rightarrow> int result" where "memoryCreate2 = mem_region 1 2"
definition memoryCall :: "Stack \<Rightarrow> int result" where
  "memoryCall = mem_max (mem_region 5 6) (mem_region 3 4)"
definition memoryDelegateCall :: "Stack \<Rightarrow> int result" where
  "memoryDelegateCall = mem_max (mem_region 4 5) (mem_region 2 3)"
definition memoryStaticCall :: "Stack \<Rightarrow> int result" where
  "memoryStaticCall = mem_max (mem_region 4 5) (mem_region 2 3)"
definition memoryReturn :: "Stack \<Rightarrow> int result" where "memoryReturn = mem_region 0 1"
definition memoryRevert :: "Stack \<Rightarrow> int result" where "memoryRevert = mem_region 0 1"
definition memoryLog :: "Stack \<Rightarrow> int result" where "memoryLog = mem_region 0 1"

subsection \<open>params: gas prices\<close>

record GasTable =
  gt_ExtcodeSize :: int
  gt_ExtcodeCopy :: int
  gt_ExtcodeHash :: int
  gt_Balance :: int
  gt_SLoad :: int
  gt_Calls :: int
  gt_Suicide :: int
  gt_ExpByte :: int
  gt_CreateBySuicide :: int

definition GasTableHomestead :: GasTable where
  "GasTableHomestead = \<lparr>gt_ExtcodeSize = 20, gt_ExtcodeCopy = 20, gt_ExtcodeHash = 0, gt_Balance = 20, gt_SLoad = 50,
     gt_Calls = 40, gt_Suicide = 0, gt_ExpByte = 10, gt_CreateBySuicide = 0\<rparr>"

definition GasTableEIP150 :: GasTable where
  "GasTableEIP150 = \<lparr>gt_ExtcodeSize = 700, gt_ExtcodeCopy = 700, gt_ExtcodeHash = 0, gt_Balance = 400, gt_SLoad = 200,
     gt_Calls = 700, gt_Suicide = 5000, gt_ExpByte = 10, gt_CreateBySuicide = 25000\<rparr>"

definition GasTableEIP158 :: GasTable where
  "GasTableEIP158 = \<lparr>gt_ExtcodeSize = 700, gt_ExtcodeCopy = 700, gt_ExtcodeHash = 0, gt_Balance = 400, gt_SLoad = 200,
     gt_Calls = 700, gt_Suicide = 5000, gt_ExpByte = 50, gt_CreateBySuicide = 25000\<rparr>"

definition GasTableConstantinople :: GasTable where
  "GasTableConstantinople = \<lparr>gt_ExtcodeSize = 700, gt_ExtcodeCopy = 700, gt_ExtcodeHash = 400, gt_Balance = 400,
     gt_SLoad = 200, gt_Calls = 700, gt_Suicide = 5000, gt_ExpByte = 50, gt_CreateBySuicide = 25000\<rparr>"

definition CallValueTransferGas :: int where "CallValueTransferGas = 9000"
definition CallNewAccountGas :: int where "CallNewAccountGas = 25000"
definition QuadCoeffDiv :: int where "QuadCoeffDiv = 512"
definition SstoreSetGas :: int where "SstoreSetGas = 20000"
definition LogDataGas :: int where "LogDataGas = 8"
definition CallStipend :: int where "CallStipend = 2300"
definition Sha3Gas :: int where "Sha3Gas = 30"
definition Sha3WordGas :: int where "Sha3WordGas = 6"
definition SstoreResetGas :: int where "SstoreResetGas = 5000"
definition SstoreClearGas :: int where "SstoreClearGas = 5000"
definition SstoreRefundGas :: int where "SstoreRefundGas = 15000"
definition JumpdestGas :: int where "JumpdestGas = 1"
definition CreateDataGas :: int where "CreateDataGas = 200"
definition CallCreateDepth :: nat where "CallCreateDepth = 1024"
definition LogGas :: int where "LogGas = 375"
definition CopyGas :: int where "CopyGas = 3"
definition LogTopicGas :: int where "LogTopicGas = 375"
definition CreateGas :: int where "CreateGas = 32000"
definition Create2Gas :: int where "Create2Gas = 32000"
definition SuicideRefundGas :: int where "SuicideRefundGas = 24000"
definition MemoryGas :: int where "MemoryGas = 3"
definition MaxCodeSize :: nat where "MaxCodeSize = 24576"

subsection \<open>gas.go and memory gas\<close>

definition GasQuickStep :: int where "GasQuickStep = 2"
definition GasFastestStep :: int where "GasFastestStep = 3"
definition GasFastStep :: int where "GasFastStep = 5"
definition GasMidStep :: int where "GasMidStep = 8"
definition GasSlowStep :: int where "GasSlowStep = 10"
definition GasExtStep :: int where "GasExtStep = 20"

definition errGasUintOverflow :: string where "errGasUintOverflow = ''gas uint64 overflow''"

definition callGas :: "GasTable \<Rightarrow> int \<Rightarrow> int \<Rightarrow> int \<Rightarrow> int result" where
  "callGas gasTable availableGas base callCost =
     (let avail = wrap_u64 (availableGas - base);
          gas = avail - avail div 64
      in if gt_CreateBySuicide gasTable > 0 \<and> (big_BitLen callCost > 64 \<or> gas < big_Uint64 callCost) then Ok gas
         else if big_BitLen callCost > 64 then Err errGasUintOverflow
         else Ok (big_Uint64 callCost))"

definition memoryGasCost :: "Memory \<Rightarrow> int \<Rightarrow> int result \<times> Memory" where
  "memoryGasCost mem newMemSize =
     (if newMemSize = 0 then (Ok 0, mem)
      else if newMemSize > 0xffffffffe0 then (Err errGasUintOverflow, mem)
      else
        let newMemSizeWords = toWordSize newMemSize; newMemSize' = wrap_u64 (newMemSizeWords * 32)
        in if newMemSize' > memory_Len mem then
             (let square = wrap_u64 (newMemSizeWords * newMemSizeWords);
                  linCoef = wrap_u64 (newMemSizeWords * MemoryGas);
                  quadCoef = square div QuadCoeffDiv;
                  newTotalFee = wrap_u64 (linCoef + quadCoef)
              in (Ok (wrap_u64 (newTotalFee - m_lastGasCost mem)), mem\<lparr>m_lastGasCost := newTotalFee\<rparr>))
           else (Ok 0, mem))"

subsection \<open>analysis.go\<close>

type_synonym bitvec = "byte list"

definition bits_set :: "nat \<Rightarrow> bitvec \<Rightarrow> bitvec" where
  "bits_set pos bits = bits[pos div 8 := or (bits ! (pos div 8)) (drop_bit (pos mod 8) 0x80)]"

definition bits_set8 :: "nat \<Rightarrow> bitvec \<Rightarrow> bitvec" where
  "bits_set8 pos bits =
     (let bits' = bits[pos div 8 := or (bits ! (pos div 8)) (drop_bit (pos mod 8) 0xFF)]
      in bits'[pos div 8 + 1 := or (bits' ! (pos div 8 + 1)) (not (drop_bit (pos mod 8) 0xFF))])"

definition codeSegment :: "bitvec \<Rightarrow> nat \<Rightarrow> bool" where
  "codeSegment bits pos \<longleftrightarrow> and (bits ! (pos div 8)) (drop_bit (pos mod 8) 0x80) = 0"

text \<open>The two inner loops of \<open>codeBitmap\<close>: whole bytes, then single bits.\<close>

fun mark_data :: "nat \<Rightarrow> nat \<Rightarrow> bitvec \<Rightarrow> bitvec" where
  "mark_data numbits pc bits =
     (if numbits \<ge> 8 then mark_data (numbits - 8) (pc + 8) (bits_set8 pc bits)
      else if numbits > 0 then mark_data (numbits - 1) (pc + 1) (bits_set pc bits)
      else bits)"

declare mark_data.simps [simp del]

definition push_size :: "byte \<Rightarrow> nat" where
  "push_size op = (let n = unat op in if 0x60 \<le> n \<and> n \<le> 0x7f then n - 0x60 + 1 else 0)"

function codeBitmap_loop :: "byte list \<Rightarrow> nat \<Rightarrow> bitvec \<Rightarrow> bitvec" where
  "codeBitmap_loop code pc bits =
     (if pc < length code
      then let numbits = push_size (code ! pc)
           in codeBitmap_loop code (pc + 1 + numbits) (mark_data numbits (pc + 1) bits)
      else bits)"
  by pat_completeness auto
termination
  by (relation "measure (\<lambda>(code, pc, bits). length code - pc)") (auto simp: Let_def)

declare codeBitmap_loop.simps [simp del]

definition codeBitmap :: "byte list \<Rightarrow> bitvec" where
  "codeBitmap code = codeBitmap_loop code 0 (replicate (length code div 8 + 1 + 4) 0)"

definition destinations_has :: "byte list \<Rightarrow> int \<Rightarrow> bool" where
  "destinations_has code dest \<longleftrightarrow>
     (let udest = big_Uint64 dest
      in \<not> (big_BitLen dest \<ge> 63 \<or> udest \<ge> int (length code)) \<and>
         code ! nat udest = 0x5b \<and> codeSegment (codeBitmap code) (nat udest))"

text \<open>The reference: the positions where an instruction starts when the code is read from the beginning.\<close>

function instr_starts :: "byte list \<Rightarrow> nat \<Rightarrow> nat list" where
  "instr_starts code pc =
     (if pc < length code then pc # instr_starts code (pc + 1 + push_size (code ! pc)) else [])"
  by pat_completeness auto
termination
  by (relation "measure (\<lambda>(code, pc). length code - pc)") auto

declare instr_starts.simps [simp del]

text \<open>The bit of position \<open>p\<close>.\<close>

definition is_data :: "bitvec \<Rightarrow> nat \<Rightarrow> bool" where
  "is_data bits p \<longleftrightarrow> bit (bits ! (p div 8)) (7 - p mod 8)"

text \<open>The fee of a memory of \<open>w\<close> words, and the memories the interpreter holds: whole words, paid for.\<close>

definition memory_fee :: "int \<Rightarrow> int" where
  "memory_fee w = w * MemoryGas + w * w div QuadCoeffDiv"

definition memory_paid :: "Memory \<Rightarrow> bool" where
  "memory_paid m \<longleftrightarrow> 32 dvd length (m_store m) \<and> m_lastGasCost m = memory_fee (memory_Len m div 32) \<and> memory_Len m \<le> 0x1FFFFFFFE0"

subsection \<open>The analysis agrees with the reference\<close>

lemma bit_0x80: "bit (0x80 :: byte) n \<longleftrightarrow> n = 7"
proof (cases "n < 8")
  case True
  then consider "n = 0" | "n = 1" | "n = 2" | "n = 3" | "n = 4" | "n = 5" | "n = 6" | "n = 7" by linarith
  then show ?thesis by cases simp_all
qed (auto simp: bit_simps dest: bit_imp_le_length)

lemma bit_0xFF: "bit (0xFF :: byte) n \<longleftrightarrow> n < 8"
proof (cases "n < 8")
  case True
  then consider "n = 0" | "n = 1" | "n = 2" | "n = 3" | "n = 4" | "n = 5" | "n = 6" | "n = 7" by linarith
  then show ?thesis by cases simp_all
qed (auto simp: bit_simps dest: bit_imp_le_length)

lemma top_bit: "k < 8 \<Longrightarrow> drop_bit k (0x80 :: byte) = push_bit (7 - k) 1"
  by (rule bit_word_eqI) (auto simp: bit_drop_bit_eq bit_exp_iff bit_0x80 simp del: bit_numeral_word_iff)

lemma and_top_bit: "k < 8 \<Longrightarrow> and (b :: byte) (drop_bit k 0x80) = 0 \<longleftrightarrow> \<not> bit b (7 - k)"
  by (simp only: top_bit bit_iff_and_push_bit_not_eq_0 not_not)

lemma codeSegment_iff: "codeSegment bits p \<longleftrightarrow> \<not> is_data bits p"
  by (simp add: codeSegment_def is_data_def and_top_bit)

lemma length_bits_set [simp]: "length (bits_set p bits) = length bits"
  by (simp add: bits_set_def)

lemma length_bits_set8 [simp]: "length (bits_set8 p bits) = length bits"
  by (simp add: bits_set8_def)

lemma pos_eq_iff: "p div 8 = q div 8 \<Longrightarrow> p mod 8 = q mod 8 \<Longrightarrow> p = (q :: nat)"
  by (metis div_mult_mod_eq)

lemma is_data_set:
  assumes "pos div 8 < length bits"
  shows "is_data (bits_set pos bits) p \<longleftrightarrow> is_data bits p \<or> p = pos"
proof (cases "p div 8 = pos div 8")
  case True
  have "p = pos \<longleftrightarrow> p mod 8 = pos mod 8" using True pos_eq_iff by blast
  moreover have "p mod 8 < 8" "pos mod 8 < 8" by simp_all
  ultimately show ?thesis using True assms
    by (auto simp: is_data_def bits_set_def top_bit bit_or_iff bit_exp_iff)
next
  case False
  then show ?thesis by (auto simp: is_data_def bits_set_def)
qed

lemma ff_bit: "bit (drop_bit k (0xFF :: byte)) n \<longleftrightarrow> n + k < 8"
  by (simp add: bit_drop_bit_eq bit_0xFF add.commute del: bit_numeral_word_iff)

lemma is_data_set8:
  assumes "pos div 8 + 1 < length bits"
  shows "is_data (bits_set8 pos bits) p \<longleftrightarrow> is_data bits p \<or> (pos \<le> p \<and> p < pos + 8)"
proof -
  have m: "p mod 8 < 8" "pos mod 8 < 8" by simp_all
  have e: "p = p div 8 * 8 + p mod 8" "pos = pos div 8 * 8 + pos mod 8" by simp_all
  consider "p div 8 = pos div 8" | "p div 8 = pos div 8 + 1" | "p div 8 < pos div 8" | "p div 8 > pos div 8 + 1" by linarith
  then show ?thesis
  proof cases
    case 1
    then have "pos \<le> p \<longleftrightarrow> pos mod 8 \<le> p mod 8" "p < pos + 8" using e m by linarith+
    with 1 assms m show ?thesis by (auto simp: is_data_def bits_set8_def Let_def bit_or_iff bit_not_iff ff_bit)
  next
    case 2
    then have "pos \<le> p" "p < pos + 8 \<longleftrightarrow> p mod 8 < pos mod 8" using e m by linarith+
    with 2 assms m show ?thesis by (auto simp: is_data_def bits_set8_def Let_def bit_or_iff bit_not_iff ff_bit)
  next
    case 3
    then have "\<not> pos \<le> p" using e m by linarith
    with 3 show ?thesis by (auto simp: is_data_def bits_set8_def Let_def)
  next
    case 4
    then have "\<not> p < pos + 8" using e m by linarith
    with 4 show ?thesis by (auto simp: is_data_def bits_set8_def Let_def)
  qed
qed

lemma mark_data_correct:
  assumes "pc + n < 8 * length bits"
  shows "length (mark_data n pc bits) = length bits \<and>
         (is_data (mark_data n pc bits) p \<longleftrightarrow> is_data bits p \<or> (pc \<le> p \<and> p < pc + n))"
  using assms
proof (induction n pc bits rule: mark_data.induct)
  case (1 n pc bits)
  consider "8 \<le> n" | "0 < n" "n < 8" | "n = 0" by linarith
  then show ?case
  proof cases
    case 1
    then have "mark_data n pc bits = mark_data (n - 8) (pc + 8) (bits_set8 pc bits)" by (subst mark_data.simps) simp
    moreover have "pc div 8 + 1 < length bits" using 1 "1.prems" by linarith
    ultimately show ?thesis using "1.IH"(1) 1 "1.prems" by (auto simp: is_data_set8)
  next
    case 2
    then have "mark_data n pc bits = mark_data (n - 1) (pc + 1) (bits_set pc bits)" by (subst mark_data.simps) simp
    moreover have "pc div 8 < length bits" using 2 "1.prems" by linarith
    ultimately show ?thesis using "1.IH"(2) 2 "1.prems" by (auto simp: is_data_set)
  next
    case 3
    then show ?thesis by (subst (1 2) mark_data.simps) auto
  qed
qed

lemma push_size_le: "push_size op \<le> 32"
  by (auto simp: push_size_def Let_def)

lemma instr_starts_ge: "p \<in> set (instr_starts code pc) \<Longrightarrow> pc \<le> p"
proof (induction code pc rule: instr_starts.induct)
  case (1 code pc)
  have "p \<in> set (if pc < length code then pc # instr_starts code (pc + 1 + push_size (code ! pc)) else [])"
    using "1.prems" by (subst (asm) instr_starts.simps)
  then show ?case using "1.IH" by (force split: if_splits)
qed

lemma codeBitmap_loop_correct:
  assumes "length code + 32 < 8 * length bits" "\<forall>p. pc \<le> p \<and> p < length code \<longrightarrow> \<not> is_data bits p" "p < length code"
  shows "is_data (codeBitmap_loop code pc bits) p \<longleftrightarrow>
         (if p < pc then is_data bits p else p \<notin> set (instr_starts code pc))"
  using assms
proof (induction code pc bits rule: codeBitmap_loop.induct)
  case (1 code pc bits)
  show ?case
  proof (cases "pc < length code")
    case False
    then show ?thesis using "1.prems" by (subst codeBitmap_loop.simps) auto
  next
    case True
    define n where "n = push_size (code ! pc)"
    have n: "n \<le> 32" by (simp add: n_def push_size_le)
    have step: "codeBitmap_loop code pc bits = codeBitmap_loop code (pc + 1 + n) (mark_data n (pc + 1) bits)"
      using True by (subst codeBitmap_loop.simps) (simp add: n_def Let_def)
    have starts: "set (instr_starts code pc) = insert pc (set (instr_starts code (pc + 1 + n)))"
      using True by (subst instr_starts.simps) (simp add: n_def)
    have b: "pc + 1 + n < 8 * length bits" using True n "1.prems"(1) by linarith
    have m: "length (mark_data n (pc + 1) bits) = length bits"
      "is_data (mark_data n (pc + 1) bits) q \<longleftrightarrow> is_data bits q \<or> (pc + 1 \<le> q \<and> q < pc + 1 + n)" for q
      using mark_data_correct [OF b] by auto
    have "is_data (codeBitmap_loop code (pc + 1 + n) (mark_data n (pc + 1) bits)) p \<longleftrightarrow>
       (if p < pc + 1 + n then is_data (mark_data n (pc + 1) bits) p else p \<notin> set (instr_starts code (pc + 1 + n)))"
      using "1.IH" [OF True n_def] "1.prems" m by simp
    moreover have "p < pc + 1 + n \<Longrightarrow> p \<notin> set (instr_starts code (pc + 1 + n))"
      using instr_starts_ge by fastforce
    ultimately show ?thesis using "1.prems"(2,3) unfolding step starts m(2)
      by (cases "p < pc"; cases "p = pc"; cases "p < pc + 1 + n") simp_all
  qed
qed

lemma codeBitmap_correct:
  assumes "p < length code"
  shows "codeSegment (codeBitmap code) p \<longleftrightarrow> p \<in> set (instr_starts code 0)"
proof -
  have "\<forall>p. 0 \<le> p \<and> p < length code \<longrightarrow> \<not> is_data (replicate (length code div 8 + 1 + 4) 0) p"
    by (auto simp: is_data_def)
  then have "is_data (codeBitmap code) p \<longleftrightarrow> p \<notin> set (instr_starts code 0)"
    unfolding codeBitmap_def using assms by (subst codeBitmap_loop_correct) simp_all
  then show ?thesis by (simp add: codeSegment_iff)
qed

subsection \<open>Jump targets and memory gas\<close>

text \<open>
  C30. The bit vector analysis accepts a jump target exactly when it is the position of a JUMPDEST instruction in a
  reading of the code from its start, never a data byte of a PUSH: the table built once per contract agrees with
  the reference that walks the code.
\<close>
theorem jumpdest_analysis_exact:
  assumes "0 \<le> dest" and "length code < 2 ^ 62"
  shows "destinations_has code dest \<longleftrightarrow>
    list_ex (\<lambda>p. int p = dest \<and> code ! p = 0x5b) (instr_starts code 0)"
proof -
  have in_code: "p \<in> set (instr_starts code pc) \<Longrightarrow> p < length code" for p pc
  proof (induction code pc rule: instr_starts.induct)
    case (1 code pc)
    have "p \<in> set (if pc < length code then pc # instr_starts code (pc + 1 + push_size (code ! pc)) else [])"
      using "1.prems" by (subst (asm) instr_starts.simps)
    then show ?case using "1.IH" by (auto split: if_splits)
  qed
  show ?thesis
  proof (cases "dest < int (length code)")
    case True
    then have "\<bar>dest\<bar> < 2 ^ 62" using assms by simp
    then have bl: "big_BitLen dest \<le> 62" by (simp add: big_BitLen_le_iff)
    have ud: "big_Uint64 dest = dest" using assms True by (simp add: big_Uint64_def)
    have n: "nat dest < length code" using assms True by simp
    have "destinations_has code dest \<longleftrightarrow> code ! nat dest = 0x5b \<and> nat dest \<in> set (instr_starts code 0)"
      using True bl ud codeBitmap_correct [OF n] by (auto simp: destinations_has_def Let_def)
    also have "\<dots> \<longleftrightarrow> list_ex (\<lambda>p. int p = dest \<and> code ! p = 0x5b) (instr_starts code 0)"
      using assms(1) by (auto simp: list_ex_iff intro!: bexI [of _ "nat dest"])
    finally show ?thesis .
  next
    case False
    have "\<not> destinations_has code dest"
    proof (cases "big_BitLen dest \<ge> 63")
      case True
      then show ?thesis by (simp add: destinations_has_def Let_def)
    next
      case f: False
      then have "\<bar>dest\<bar> < 2 ^ 62" using big_BitLen_le_iff [of dest 62] by simp
      then have "big_Uint64 dest = dest" using assms(1) by (simp add: big_Uint64_def)
      with False show ?thesis by (simp add: destinations_has_def Let_def)
    qed
    moreover have "\<not> list_ex (\<lambda>p. int p = dest \<and> code ! p = 0x5b) (instr_starts code 0)"
      using False in_code by (auto simp: list_ex_iff)
    ultimately show ?thesis by simp
  qed
qed

theorem jumpdest_analysis_exact_witness:
  "\<not> destinations_has [0x60, 0x5b, 0x5b] 1 \<and> destinations_has [0x60, 0x5b, 0x5b] 2"
proof -
  have "instr_starts [0x60, 0x5b, 0x5b] 0 = [0, 2]" by code_simp
  then show ?thesis
    using jumpdest_analysis_exact [of 1 "[0x60, 0x5b, 0x5b]"] jumpdest_analysis_exact [of 2 "[0x60, 0x5b, 0x5b]"] by simp
qed

lemma memory_fee_mono: "0 \<le> v \<Longrightarrow> v \<le> w \<Longrightarrow> memory_fee v \<le> memory_fee w"
  unfolding memory_fee_def QuadCoeffDiv_def MemoryGas_def
  by (intro add_mono zdiv_mono1 mult_mono) simp_all

lemma memory_fee_bounds: "0 \<le> w \<Longrightarrow> w < 2 ^ 32 \<Longrightarrow> 0 \<le> memory_fee w \<and> memory_fee w < 2 ^ 63"
proof -
  assume w: "0 \<le> w" "w < 2 ^ 32"
  then have "w * w \<le> 2 ^ 32 * 2 ^ 32" by (intro mult_mono) simp_all
  then have "w * w div 512 \<le> 2 ^ 64 div 512" by (intro zdiv_mono1) simp_all
  moreover have "0 \<le> w * w div 512" by (simp add: pos_imp_zdiv_nonneg_iff)
  ultimately show ?thesis using w by (simp add: memory_fee_def QuadCoeffDiv_def MemoryGas_def)
qed

lemma toWordSize_small: "0 \<le> s \<Longrightarrow> s \<le> 0x1FFFFFFFE0 \<Longrightarrow> toWordSize s = (s + 31) div 32"
  by (simp add: toWordSize_def MaxUint64_def)

text \<open>
  C34. For a memory that has been paid for and a request of at most \<open>0x1FFFFFFFE0\<close> bytes nothing wraps: the
  charge is the difference of the fees of the new and the old size (nothing when the memory is large enough), and
  after the resize the memory is paid for again. Growing in steps costs the same as growing at once.
\<close>
theorem memory_gas_exact:
  assumes "memory_paid m" and "0 < s" and "s \<le> 0x1FFFFFFFE0"
  shows "let w = (s + 31) div 32; v = memory_Len m div 32; (r, m') = memoryGasCost m s; m'' = memory_Resize (w * 32) m'
         in r = Ok (memory_fee (BigMax v w) - memory_fee v) \<and> memory_paid m'' \<and> memory_Len m'' = 32 * BigMax v w"
proof -
  define w where "w = (s + 31) div 32"
  define v where "v = memory_Len m div 32"
  have w: "1 \<le> w" "w < 2 ^ 32" "w * 32 \<le> 0x1FFFFFFFE0" using assms by (auto simp: w_def)
  have "32 dvd memory_Len m" using assms(1) int_dvd_int_iff [of 32 "length (m_store m)"] by (simp add: memory_paid_def memory_Len_def)
  then have len: "memory_Len m = 32 * v" by (simp add: v_def)
  have v: "0 \<le> v" "v < 2 ^ 32" using assms(1) len by (auto simp: memory_paid_def memory_Len_def v_def)
  have last: "m_lastGasCost m = memory_fee v" using assms(1) by (simp add: memory_paid_def v_def)
  have ww: "0 \<le> w * w" "w * w < 2 ^ 64"
  proof -
    have "w * w \<le> (2 ^ 32 - 1) * (2 ^ 32 - 1)" using w by (intro mult_mono) simp_all
    then show "w * w < 2 ^ 64" by simp
  qed simp
  have tw: "toWordSize s = w" using assms by (simp add: toWordSize_small w_def)
  have fee: "0 \<le> memory_fee w" "memory_fee w < 2 ^ 63" "0 \<le> memory_fee v" "memory_fee v < 2 ^ 63"
    using memory_fee_bounds [of w] memory_fee_bounds [of v] w v by auto
  have total: "wrap_u64 (wrap_u64 (w * MemoryGas) + wrap_u64 (w * w) div QuadCoeffDiv) = memory_fee w"
    using w ww fee by (simp add: is_u64_def memory_fee_def MemoryGas_def)
  have w32: "wrap_u64 (w * 32) = w * 32" using w by (intro wrap_u64_id) (simp add: is_u64_def)
  have s: "s \<noteq> 0" "\<not> s > 0xffffffffe0" using assms(2,3) by simp_all
  show ?thesis
  proof (cases "w * 32 > memory_Len m")
    case True
    then have vw: "v < w" using len by simp
    have "memory_fee v \<le> memory_fee w" using vw v by (intro memory_fee_mono) simp_all
    then have diff: "wrap_u64 (memory_fee w - memory_fee v) = memory_fee w - memory_fee v"
      using fee by (simp add: is_u64_def)
    have cost: "memoryGasCost m s = (Ok (memory_fee w - memory_fee v), m\<lparr>m_lastGasCost := memory_fee w\<rparr>)"
      using s True by (simp only: memoryGasCost_def tw Let_def w32 total last diff if_True if_False simp_thms)
    have "int (length (m_store m)) = 32 * v" using len by (simp add: memory_Len_def)
    then have "32 dvd int (length (m_store m) + nat (w * 32 - 32 * v))" using vw by simp
    then have dvd: "32 dvd length (m_store m) + nat (w * 32 - 32 * v)"
      using int_dvd_int_iff [of 32 "length (m_store m) + nat (w * 32 - 32 * v)"] by simp
    have len': "memory_Len (memory_Resize (w * 32) (m\<lparr>m_lastGasCost := memory_fee w\<rparr>)) = 32 * w"
      using True len by (simp add: memory_Resize_def memory_Len_def)
    have "memory_paid (memory_Resize (w * 32) (m\<lparr>m_lastGasCost := memory_fee w\<rparr>))"
      unfolding memory_paid_def len' using True len dvd w by (simp add: memory_Resize_def memory_Len_def)
    with cost vw len' show ?thesis by (simp add: Let_def BigMax_def flip: w_def v_def)
  next
    case False
    then have wv: "w \<le> v" using len by simp
    have "memoryGasCost m s = (Ok 0, m)"
      using s False by (simp only: memoryGasCost_def tw Let_def w32 if_True if_False simp_thms)
    moreover have "memory_Resize (w * 32) m = m" using False by (simp add: memory_Resize_def)
    ultimately show ?thesis using wv assms(1) len by (auto simp: Let_def BigMax_def simp flip: w_def v_def)
  qed
qed

theorem memory_gas_exact_witness:
  "fst (memoryGasCost NewMemory 1000) = Ok 98"
  using memory_gas_exact [of NewMemory 1000]
  by (simp add: memory_paid_def NewMemory_def memory_Len_def memory_fee_def BigMax_def MemoryGas_def QuadCoeffDiv_def
      Let_def case_prod_beta)

text \<open>
  The constant \<open>0xffffffffe0\<close> does not keep the square of the word count inside 64 bits: a memory of \<open>2^37\<close>
  bytes is charged less than one of \<open>2^37 - 32\<close> bytes, because its quadratic part wraps to 0.
\<close>
theorem memory_gas_square_wraps:
  "fst (memoryGasCost NewMemory (2 ^ 37)) = Ok 12884901888 \<and>
   fst (memoryGasCost NewMemory (2 ^ 37 - 32)) = Ok 36028809887088637"
  by (simp add: memoryGasCost_def NewMemory_def toWordSize_def MaxUint64_def memory_Len_def wrap_u64_def MemoryGas_def
      QuadCoeffDiv_def Let_def)

end
