(* ===== verification/Rlp_Encode.thy ===== *)
theory Rlp_Encode
  imports Prelude Big_Math Go_Codec
begin

section \<open>RLP encoding: dvm/ethereum/rlp/encode.go\<close>

text \<open>
  The encoder of the recursive length prefix format, in which accounts, trie nodes and receipts are
  stored. The Go encoder walks a value by reflection and fills an \<open>encbuf\<close>: the bytes of all
  strings in \<open>str\<close>, and for every list a \<open>listhead\<close> with the position of its header in \<open>str\<close> and the
  size of its content, so that the headers, whose length depends on the content, are spliced in only
  at the end (\<open>toBytes\<close>).

  \<^item> \<open>rval\<close>: the Go values the writers distinguish, one constructor for each kind of \<open>makeWriter\<close>;
    a pointer that is not nil and a value with its own \<open>EncodeRLP\<close> (which call \<open>Encode\<close> again) are
    the value they stand for. A \<open>uint\<close> is a \<open>nat\<close> below \<open>2 ^ 64\<close>.
  \<^item> \<open>encbuf\<close>, \<open>encode\<close> and \<open>toBytes\<close>: the buffer, the writers and the splicing.
  \<^item> \<open>rlp\<close>: the encoding as the format defines it, by recursion on the value. The last
    theorem shows that the buffered encoder computes it.
\<close>

subsection \<open>Headers\<close>

definition byte_at :: "nat \<Rightarrow> nat \<Rightarrow> byte" where
  "byte_at i k = word_of_nat (i div 2 ^ k)"

definition putint :: "nat \<Rightarrow> byte list" where
  "putint i =
     (if i < 2 ^ 8 then [byte_at i 0]
      else if i < 2 ^ 16 then [byte_at i 8, byte_at i 0]
      else if i < 2 ^ 24 then [byte_at i 16, byte_at i 8, byte_at i 0]
      else if i < 2 ^ 32 then [byte_at i 24, byte_at i 16, byte_at i 8, byte_at i 0]
      else if i < 2 ^ 40 then [byte_at i 32, byte_at i 24, byte_at i 16, byte_at i 8, byte_at i 0]
      else if i < 2 ^ 48 then
        [byte_at i 40, byte_at i 32, byte_at i 24, byte_at i 16, byte_at i 8, byte_at i 0]
      else if i < 2 ^ 56 then
        [byte_at i 48, byte_at i 40, byte_at i 32, byte_at i 24, byte_at i 16, byte_at i 8, byte_at i 0]
      else
        [byte_at i 56, byte_at i 48, byte_at i 40, byte_at i 32, byte_at i 24, byte_at i 16, byte_at i 8,
         byte_at i 0])"

fun intsize :: "nat \<Rightarrow> nat" where
  "intsize i = (if i div 2 ^ 8 = 0 then 1 else Suc (intsize (i div 2 ^ 8)))"

declare intsize.simps [simp del]

definition headsize :: "nat \<Rightarrow> nat" where
  "headsize sz = (if sz < 56 then 1 else 1 + intsize sz)"

definition puthead :: "byte \<Rightarrow> byte \<Rightarrow> nat \<Rightarrow> byte list" where
  "puthead smalltag largetag sz =
     (if sz < 56 then [smalltag + word_of_nat sz]
      else (largetag + word_of_nat (length (putint sz))) # putint sz)"

definition listhead_encode :: "nat \<Rightarrow> byte list" where
  "listhead_encode sz = puthead 0xC0 0xF7 sz"

definition ListSize :: "nat \<Rightarrow> nat" where
  "ListSize contentSize = headsize contentSize + contentSize"

subsection \<open>The buffer\<close>

record encbuf =
  eb_str :: "byte list"
  eb_lheads :: "(nat \<times> nat) list"
  eb_lhsize :: nat

definition encbuf_reset :: encbuf where
  "encbuf_reset = \<lparr>eb_str = [], eb_lheads = [], eb_lhsize = 0\<rparr>"

definition encbuf_Write :: "byte list \<Rightarrow> encbuf \<Rightarrow> encbuf" where
  "encbuf_Write b w = w\<lparr>eb_str := eb_str w @ b\<rparr>"

definition encbuf_size :: "encbuf \<Rightarrow> nat" where
  "encbuf_size w = length (eb_str w) + eb_lhsize w"

definition encodeStringHeader :: "nat \<Rightarrow> encbuf \<Rightarrow> encbuf" where
  "encodeStringHeader sz w =
     (if sz < 56 then encbuf_Write [0x80 + word_of_nat sz] w
      else encbuf_Write ((0xB7 + word_of_nat (length (putint sz))) # putint sz) w)"

definition encodeString :: "byte list \<Rightarrow> encbuf \<Rightarrow> encbuf" where
  "encodeString b w =
     (if length b = 1 \<and> b ! 0 \<le> 0x7F then encbuf_Write [b ! 0] w
      else encbuf_Write b (encodeStringHeader (length b) w))"

text \<open>\<open>list\<close> returns the header it has pushed; a header is named by its index in \<open>lheads\<close>.\<close>

definition encbuf_list :: "encbuf \<Rightarrow> nat \<times> encbuf" where
  "encbuf_list w =
     (length (eb_lheads w), w\<lparr>eb_lheads := eb_lheads w @ [(length (eb_str w), eb_lhsize w)]\<rparr>)"

definition encbuf_listEnd :: "nat \<Rightarrow> encbuf \<Rightarrow> encbuf" where
  "encbuf_listEnd lh w =
     (let (off, old) = eb_lheads w ! lh;
          sz = encbuf_size w - off - old in
      w\<lparr>eb_lheads := (eb_lheads w)[lh := (off, sz)],
        eb_lhsize := eb_lhsize w + (if sz < 56 then 1 else 1 + intsize sz)\<rparr>)"

text \<open>
  \<open>toBytes\<close> fills \<open>out\<close>, an array of \<open>size()\<close> bytes: \<open>copy\<close> stops at its end, a header that does not
  fit is a run-time panic, what is not written stays 0.
\<close>

primrec toBytes_heads :: "nat \<Rightarrow> byte list \<Rightarrow> nat \<Rightarrow> (nat \<times> nat) list \<Rightarrow> byte list \<Rightarrow> (nat \<times> byte list) result" where
  "toBytes_heads n str strpos [] acc = Ok (strpos, acc)"
| "toBytes_heads n str strpos (h # hs) acc =
     (let piece = take (n - length acc) (take (fst h - strpos) (drop strpos str));
          acc1 = acc @ piece;
          enc = listhead_encode (snd h) in
      if n < length acc1 + length enc then Panic ''index out of range''
      else toBytes_heads n str (strpos + length piece) hs (acc1 @ enc))"

definition toBytes :: "encbuf \<Rightarrow> byte list result" where
  "toBytes w =
     (let n = encbuf_size w in
      result_bind (toBytes_heads n (eb_str w) 0 (eb_lheads w) []) (\<lambda>(strpos, acc).
        Ok (take n (acc @ drop strpos (eb_str w) @ replicate n 0))))"

subsection \<open>The writers\<close>

datatype nil_kind = NilByteArray | NilStruct

datatype rval =
    RRaw "byte list"
  | RUint nat
  | RBool bool
  | RBig "int option"
  | RBytes "byte list"
  | RString string
  | RSlice "rval list"
  | RTail "rval list"
  | RStruct "rval list"
  | RNilPtr nil_kind
  | RNilIface

definition writeUint :: "nat \<Rightarrow> encbuf \<Rightarrow> encbuf" where
  "writeUint i w =
     (if i = 0 then encbuf_Write [0x80] w
      else if i < 128 then encbuf_Write [word_of_nat i] w
      else encbuf_Write ((0x80 + word_of_nat (length (putint i))) # putint i) w)"

definition writeBool :: "bool \<Rightarrow> encbuf \<Rightarrow> encbuf" where
  "writeBool b w = encbuf_Write [if b then 0x01 else 0x80] w"

definition writeBigInt :: "int \<Rightarrow> encbuf \<Rightarrow> encbuf result" where
  "writeBigInt i w =
     (if i < 0 then Err ''rlp: cannot encode negative *big.Int''
      else if i = 0 then Ok (encbuf_Write [0x80] w)
      else Ok (encodeString (big_Bytes i) w))"

definition writeBigIntPtr :: "int option \<Rightarrow> encbuf \<Rightarrow> encbuf result" where
  "writeBigIntPtr p w = (case p of None \<Rightarrow> Ok (encbuf_Write [0x80] w) | Some i \<Rightarrow> writeBigInt i w)"

definition writeString :: "string \<Rightarrow> encbuf \<Rightarrow> encbuf" where
  "writeString s w =
     (let b = string_bytes s in
      if length b = 1 \<and> b ! 0 \<le> 0x7F then encbuf_Write [b ! 0] w
      else encbuf_Write b (encodeStringHeader (length b) w))"

definition ptr_nilfunc :: "nil_kind \<Rightarrow> encbuf \<Rightarrow> encbuf" where
  "ptr_nilfunc k w =
     (case k of
        NilByteArray \<Rightarrow> encbuf_Write [0x80] w
      | NilStruct \<Rightarrow> (let (lh, w1) = encbuf_list w in encbuf_listEnd lh w1))"

fun encode :: "rval \<Rightarrow> encbuf \<Rightarrow> encbuf result"
  and encode_elems :: "rval list \<Rightarrow> encbuf \<Rightarrow> encbuf result" where
  "encode (RRaw b) w = Ok (encbuf_Write b w)"
| "encode (RUint i) w = Ok (writeUint i w)"
| "encode (RBool b) w = Ok (writeBool b w)"
| "encode (RBig p) w = writeBigIntPtr p w"
| "encode (RBytes b) w = Ok (encodeString b w)"
| "encode (RString s) w = Ok (writeString s w)"
| "encode (RSlice vs) w =
     (let (lh, w1) = encbuf_list w in
      result_bind (encode_elems vs w1) (\<lambda>w2. Ok (encbuf_listEnd lh w2)))"
| "encode (RTail vs) w = encode_elems vs w"
| "encode (RStruct vs) w =
     (let (lh, w1) = encbuf_list w in
      result_bind (encode_elems vs w1) (\<lambda>w2. Ok (encbuf_listEnd lh w2)))"
| "encode (RNilPtr k) w = Ok (ptr_nilfunc k w)"
| "encode RNilIface w = Ok (encbuf_Write [0xC0] w)"
| "encode_elems [] w = Ok w"
| "encode_elems (v # vs) w = result_bind (encode v w) (encode_elems vs)"

definition EncodeToBytes :: "rval \<Rightarrow> byte list result" where
  "EncodeToBytes v = result_bind (encode v encbuf_reset) toBytes"

subsection \<open>The format\<close>

definition rlp_string :: "byte list \<Rightarrow> byte list" where
  "rlp_string b =
     (case b of
        [x] \<Rightarrow> (if unat x < 128 then [x] else puthead 0x80 0xB7 1 @ b)
      | _ \<Rightarrow> puthead 0x80 0xB7 (length b) @ b)"

definition rlp_list :: "byte list \<Rightarrow> byte list" where
  "rlp_list payload = puthead 0xC0 0xF7 (length payload) @ payload"

text \<open>An unsigned number is the string of its big-endian bytes without leading zeros.\<close>

fun rlp :: "rval \<Rightarrow> byte list" where
  "rlp (RRaw b) = b"
| "rlp (RUint i) = rlp_string (big_Bytes (int i))"
| "rlp (RBool b) = rlp_string (if b then [1] else [])"
| "rlp (RBig p) = rlp_string (case p of None \<Rightarrow> [] | Some i \<Rightarrow> big_Bytes i)"
| "rlp (RBytes b) = rlp_string b"
| "rlp (RString s) = rlp_string (string_bytes s)"
| "rlp (RSlice vs) = rlp_list (concat (map rlp vs))"
| "rlp (RTail vs) = concat (map rlp vs)"
| "rlp (RStruct vs) = rlp_list (concat (map rlp vs))"
| "rlp (RNilPtr k) = (case k of NilByteArray \<Rightarrow> rlp_string [] | NilStruct \<Rightarrow> rlp_list [])"
| "rlp RNilIface = rlp_list []"

text \<open>The values the writers accept: every integer at its width, no negative big integer.\<close>

fun encodable :: "rval \<Rightarrow> bool" where
  "encodable (RUint i) = (i < 2 ^ 64)"
| "encodable (RBig (Some i)) = (0 \<le> i)"
| "encodable (RSlice vs) = list_all encodable vs"
| "encodable (RTail vs) = list_all encodable vs"
| "encodable (RStruct vs) = list_all encodable vs"
| "encodable _ = True"

subsection \<open>Numbers and headers\<close>

lemma byte_of_mod [simp]: "byte_of (n mod 256) = byte_of n"
  by (rule word_unat_eq_iff [THEN iffD2]) (simp add: byte_of_def unat_of_nat)

lemma big_Bytes_0 [simp]: "big_Bytes 0 = []"
  by (simp add: big_Bytes_def)

lemma big_Bytes_snoc: "0 < n \<Longrightarrow> big_Bytes (int n) = big_Bytes (int (n div 256)) @ [byte_of n]"
  by (simp add: big_Bytes_def digits.simps [of 256 n])

lemma byte_at_eq: "byte_at i k = byte_of (i div 2 ^ k)"
  by (simp add: byte_at_def byte_of_def)

lemma putint_big_Bytes:
  assumes "0 < n" "n < 2 ^ 64" shows "putint n = big_Bytes (int n)"
proof -
  have s: "big_Bytes (int n) = big_Bytes (int (n div 2 ^ 8)) @ [byte_at n 0]"
    if "0 < n" for n :: nat
    using big_Bytes_snoc [OF that] by (simp add: byte_at_eq)
  have t: "big_Bytes (int (n div 2 ^ k)) = big_Bytes (int (n div 2 ^ (k + 8))) @ [byte_at n k]"
    if "2 ^ k \<le> n" for k
  proof -
    have "0 < n div 2 ^ k" using that by (simp add: div_greater_zero_iff)
    from s [OF this] show ?thesis
      by (simp add: byte_at_eq div_mult2_eq [symmetric] power_add)
  qed
  have z: "big_Bytes (int (n div 2 ^ k)) = []" if "n < 2 ^ k" for k
    using that by simp
  consider "n < 2 ^ 8" | "2 ^ 8 \<le> n" "n < 2 ^ 16" | "2 ^ 16 \<le> n" "n < 2 ^ 24"
    | "2 ^ 24 \<le> n" "n < 2 ^ 32" | "2 ^ 32 \<le> n" "n < 2 ^ 40" | "2 ^ 40 \<le> n" "n < 2 ^ 48"
    | "2 ^ 48 \<le> n" "n < 2 ^ 56" | "2 ^ 56 \<le> n" by linarith
  then show ?thesis
    apply cases
    using assms t [of 8] t [of 16] t [of 24] t [of 32] t [of 40] t [of 48] t [of 56] s [of n]
    apply (simp_all add: putint_def)
    done
qed

lemma intsize_putint: "n < 2 ^ 64 \<Longrightarrow> intsize n = length (putint n)"
proof -
  assume n: "n < 2 ^ 64"
  have a: "intsize n = (if n < 2 ^ 8 then 1 else Suc (intsize (n div 2 ^ 8)))" for n
    by (subst intsize.simps) (auto simp: div_eq_0_iff)
  have b: "intsize (n div 2 ^ k) = (if n < 2 ^ (k + 8) then 1 else Suc (intsize (n div 2 ^ (k + 8))))" for k
    by (subst a) (simp add: div_mult2_eq [symmetric] power_add div_less_iff_less_mult mult.commute)
  show ?thesis
    using n by (simp add: putint_def a [of n] b [of 8, simplified] b [of 16, simplified] b [of 24, simplified]
        b [of 32, simplified] b [of 40, simplified] b [of 48, simplified] b [of 56, simplified])
qed

lemma length_puthead: "n < 2 ^ 64 \<Longrightarrow> length (puthead s l n) = headsize n"
  by (simp add: puthead_def headsize_def intsize_putint)

subsection \<open>Strings\<close>

lemma rlp_string_Nil [simp]: "rlp_string [] = [0x80]"
  by (simp add: rlp_string_def puthead_def)

lemma byte_small: "b \<le> (0x7F :: byte) \<longleftrightarrow> unat b < 128"
  by (simp add: word_le_nat_alt) linarith

lemma rlp_string_long:
  "\<not> (length b = 1 \<and> unat (b ! 0) < 128) \<Longrightarrow> rlp_string b = puthead 0x80 0xB7 (length b) @ b"
  by (auto simp: rlp_string_def split: list.splits)

lemma rlp_string_short: "length b = 1 \<Longrightarrow> unat (b ! 0) < 128 \<Longrightarrow> rlp_string b = [b ! 0]"
  by (auto simp: rlp_string_def split: list.splits)

lemma encbuf_Write_Write: "encbuf_Write c (encbuf_Write b w) = encbuf_Write (b @ c) w"
  by (simp add: encbuf_Write_def)

lemma encodeStringHeader_eq: "encodeStringHeader n w = encbuf_Write (puthead 0x80 0xB7 n) w"
  by (simp add: encodeStringHeader_def puthead_def)

lemma encodeString_eq: "encodeString b w = encbuf_Write (rlp_string b) w"
proof (cases "length b = 1 \<and> unat (b ! 0) < 128")
  case True
  then show ?thesis by (simp add: encodeString_def byte_small rlp_string_short)
next
  case False
  then show ?thesis unfolding encodeString_def byte_small rlp_string_long [OF False]
    by (simp only: if_False encodeStringHeader_eq encbuf_Write_Write)
qed

lemma writeString_eq: "writeString s w = encbuf_Write (rlp_string (string_bytes s)) w"
  using encodeString_eq [of "string_bytes s" w] by (simp add: writeString_def encodeString_def Let_def)

lemma big_Bytes_small: "0 < n \<Longrightarrow> n < 256 \<Longrightarrow> big_Bytes (int n) = [byte_of n]"
  by (simp add: big_Bytes_snoc)

lemma length_putint_le: "length (putint i) \<le> 8"
  by (simp add: putint_def)

lemma writeUint_eq:
  assumes "i < 2 ^ 64" shows "writeUint i w = encbuf_Write (rlp_string (big_Bytes (int i))) w"
proof -
  consider "i = 0" | "0 < i" "i < 128" | "128 \<le> i" by linarith
  then show ?thesis
  proof cases
    case 1
    then show ?thesis by (simp add: writeUint_def)
  next
    case 2
    have "unat (byte_of i) = i" using 2 by (simp add: byte_of_def unat_of_nat)
    with 2 show ?thesis
      by (simp add: writeUint_def big_Bytes_small rlp_string_def byte_of_def)
  next
    case 3
    have p: "putint i = big_Bytes (int i)" using 3 assms by (intro putint_big_Bytes) simp_all
    have "\<not> (length (putint i) = 1 \<and> unat (putint i ! 0) < 128)"
      using 3 by (simp add: putint_def byte_at_def unat_of_nat)
    then have "rlp_string (putint i) = puthead 0x80 0xB7 (length (putint i)) @ putint i"
      by (rule rlp_string_long)
    moreover have "puthead 0x80 0xB7 (length (putint i)) = [0x80 + word_of_nat (length (putint i))]"
      using length_putint_le [of i] by (simp add: puthead_def)
    ultimately show ?thesis using 3 by (simp add: writeUint_def p)
  qed
qed

lemma writeBigIntPtr_eq:
  assumes "encodable (RBig p)"
  shows "writeBigIntPtr p w = Ok (encbuf_Write (rlp (RBig p)) w)"
  using assms by (auto simp: writeBigIntPtr_def writeBigInt_def encodeString_eq split: option.splits)

subsection \<open>The buffer holds the encoding\<close>

text \<open>The strings and the list headers of a value, the headers placed from the start of its strings.\<close>

definition shift :: "nat \<Rightarrow> (nat \<times> nat) list \<Rightarrow> (nat \<times> nat) list" where
  "shift k hs = map (\<lambda>(off, n). (k + off, n)) hs"

definition heads_size :: "(nat \<times> nat) list \<Rightarrow> nat" where
  "heads_size hs = sum_list (map (headsize \<circ> snd) hs)"

definition flat_list :: "byte list \<times> (nat \<times> nat) list \<Rightarrow> byte list \<times> (nat \<times> nat) list" where
  "flat_list p = (fst p, (0, length (fst p) + heads_size (snd p)) # snd p)"

fun flat :: "rval \<Rightarrow> byte list \<times> (nat \<times> nat) list"
  and flats :: "rval list \<Rightarrow> byte list \<times> (nat \<times> nat) list" where
  "flat (RSlice vs) = flat_list (flats vs)"
| "flat (RStruct vs) = flat_list (flats vs)"
| "flat (RTail vs) = flats vs"
| "flat (RNilPtr NilStruct) = flat_list ([], [])"
| "flat v = (rlp v, [])"
| "flats [] = ([], [])"
| "flats (v # vs) = (fst (flat v) @ fst (flats vs),
     snd (flat v) @ shift (length (fst (flat v))) (snd (flats vs)))"

definition extend :: "encbuf \<Rightarrow> byte list \<times> (nat \<times> nat) list \<Rightarrow> encbuf" where
  "extend w p = \<lparr>eb_str = eb_str w @ fst p,
     eb_lheads = eb_lheads w @ shift (length (eb_str w)) (snd p),
     eb_lhsize = eb_lhsize w + heads_size (snd p)\<rparr>"

lemma shift_simps [simp]: "shift k [] = []" "shift 0 hs = hs" "shift k (shift m hs) = shift (k + m) hs"
  "shift k (xs @ ys) = shift k xs @ shift k ys" "shift k ((off, n) # hs) = (k + off, n) # shift k hs"
  by (auto simp: shift_def add.assoc)

lemma heads_size_simps [simp]: "heads_size [] = 0" "heads_size (shift k hs) = heads_size hs"
  "heads_size (xs @ ys) = heads_size xs + heads_size ys"
  "heads_size ((off, n) # hs) = headsize n + heads_size hs"
  by (auto simp: heads_size_def shift_def case_prod_unfold comp_def)

lemma extend_Write [simp]: "encbuf_Write b w = extend w (b, [])"
  by (simp add: encbuf_Write_def extend_def)

lemma extend_extend: "extend (extend w p) q = extend w (fst p @ fst q, snd p @ shift (length (fst p)) (snd q))"
  by (simp add: extend_def add.assoc)

lemma extend_Nil [simp]: "extend w ([], []) = w"
  by (simp add: extend_def)

lemma listEnd_extend:
  assumes "encbuf_list w = (lh, w1)"
  shows "encbuf_listEnd lh (extend w1 p) = extend w (flat_list p)"
proof -
  have lh: "lh = length (eb_lheads w)"
    and w1: "w1 = w\<lparr>eb_lheads := eb_lheads w @ [(length (eb_str w), eb_lhsize w)]\<rparr>"
    using assms by (simp_all add: encbuf_list_def)
  show ?thesis
    by (simp add: encbuf_listEnd_def lh w1 extend_def flat_list_def encbuf_size_def Let_def
        nth_append headsize_def)
qed

lemma encode_flat:
  "encodable v \<Longrightarrow> encode v w = Ok (extend w (flat v))"
  "list_all encodable vs \<Longrightarrow> encode_elems vs w = Ok (extend w (flats vs))"
proof (induction v and vs arbitrary: w and w rule: flat_flats.induct)
  case (1 vs)
  then show ?case by (simp add: listEnd_extend split: prod.splits)
next
  case (2 vs)
  then show ?case by (simp add: listEnd_extend split: prod.splits)
next
  case 4
  then show ?case
    using listEnd_extend [of w _ _ "([], [])"] by (simp add: ptr_nilfunc_def split: prod.splits)
qed ((simp only: encode.simps writeBigIntPtr_eq extend_Write flat.simps; fail)
  | (simp add: writeUint_eq del: extend_Write, simp; fail)
  | (simp add: writeBool_def rlp_string_def writeBigIntPtr_eq encodeString_eq writeString_eq ptr_nilfunc_def
       rlp_list_def puthead_def extend_extend del: encode.simps(4); fail))+

subsection \<open>Splicing the headers in\<close>

primrec render :: "byte list \<Rightarrow> nat \<Rightarrow> (nat \<times> nat) list \<Rightarrow> byte list" where
  "render s p [] = drop p s"
| "render s p (h # hs) = take (fst h - p) (drop p s) @ listhead_encode (snd h) @ render s (fst h) hs"

primrec heads_ok :: "byte list \<Rightarrow> nat \<Rightarrow> (nat \<times> nat) list \<Rightarrow> bool" where
  "heads_ok s p [] = (p \<le> length s)"
| "heads_ok s p (h # hs) = (p \<le> fst h \<and> heads_ok s (fst h) hs)"

lemma heads_ok_le: "heads_ok s p hs \<Longrightarrow> p \<le> length s"
  by (induction hs arbitrary: p) (auto dest: le_trans)

lemma toBytes_heads_render:
  "heads_ok s p hs \<Longrightarrow> length (acc @ render s p hs) \<le> n \<Longrightarrow>
   \<exists>p' acc'. toBytes_heads n s p hs acc = Ok (p', acc') \<and> acc' @ drop p' s = acc @ render s p hs"
proof (induction hs arbitrary: p acc)
  case (Cons h hs)
  let ?piece = "take (fst h - p) (drop p s)"
  have le: "p \<le> fst h" "fst h \<le> length s" using Cons.prems heads_ok_le by auto
  then have lp: "length ?piece = fst h - p" by simp
  have t: "take (n - length acc) ?piece = ?piece" using Cons.prems(2) by (intro take_all) simp
  have "\<exists>p' acc'. toBytes_heads n s (fst h) hs ((acc @ ?piece) @ listhead_encode (snd h)) = Ok (p', acc') \<and>
      acc' @ drop p' s = ((acc @ ?piece) @ listhead_encode (snd h)) @ render s (fst h) hs"
    using Cons.prems by (intro Cons.IH) simp_all
  moreover have "\<not> n < length (acc @ ?piece) + length (listhead_encode (snd h))"
    using Cons.prems(2) by simp
  ultimately show ?case using le lp by (simp add: t Let_def)
qed simp

lemma length_render:
  "heads_ok s p hs \<Longrightarrow> list_all (\<lambda>h. snd h < 2 ^ 64) hs \<Longrightarrow>
   length (render s p hs) = length s - p + heads_size hs"
proof (induction hs arbitrary: p)
  case (Cons h hs)
  have "p \<le> fst h" "fst h \<le> length s" using Cons.prems heads_ok_le by auto
  with Cons show ?case
    by (cases h) (simp add: listhead_encode_def length_puthead)
qed simp

lemma render_shift:
  "render (s1 @ s2) (length s1 + p) (shift (length s1) hs) = render s2 p hs"
  by (induction hs arbitrary: p) (auto simp: add.commute)

lemma render_append:
  "heads_ok s1 p h1 \<Longrightarrow> heads_ok s2 0 h2 \<Longrightarrow>
   render (s1 @ s2) p (h1 @ shift (length s1) h2) = render s1 p h1 @ render s2 0 h2"
proof (induction h1 arbitrary: p)
  case Nil
  show ?case
  proof (cases h2)
    case (Cons h hs)
    have "render (s1 @ s2) (length s1 + fst h) (shift (length s1) hs) = render s2 (fst h) hs"
      by (rule render_shift)
    with Cons Nil show ?thesis by (cases h) simp
  qed (use Nil in simp)
next
  case (Cons h h1)
  then have "p \<le> fst h" "fst h \<le> length s1" by (auto dest: heads_ok_le)
  with Cons show ?case by simp
qed

lemma heads_ok_shift:
  "heads_ok s2 p hs \<Longrightarrow> heads_ok (s1 @ s2) (length s1 + p) (shift (length s1) hs)"
  by (induction hs arbitrary: p) auto

lemma heads_ok_append:
  "heads_ok s1 p h1 \<Longrightarrow> heads_ok s2 0 h2 \<Longrightarrow> heads_ok (s1 @ s2) p (h1 @ shift (length s1) h2)"
proof (induction h1 arbitrary: p)
  case Nil
  show ?case
  proof (cases h2)
    case (Cons h hs)
    then have "heads_ok s2 (fst h) hs" using Nil by simp
    then have "heads_ok (s1 @ s2) (length s1 + fst h) (shift (length s1) hs)" by (rule heads_ok_shift)
    with Cons Nil show ?thesis by (cases h) simp
  qed (use Nil in simp)
qed simp

lemma flat_ok: "heads_ok (fst (flat v)) 0 (snd (flat v))" "heads_ok (fst (flats vs)) 0 (snd (flats vs))"
  by (induction v and vs rule: flat_flats.induct) (simp_all add: flat_list_def heads_ok_append)

definition bounded :: "byte list \<times> (nat \<times> nat) list \<Rightarrow> byte list \<Rightarrow> bool" where
  "bounded p out \<longleftrightarrow> render (fst p) 0 (snd p) = out \<and> list_all (\<lambda>h. snd h < 2 ^ 64) (snd p)"

lemma bounded_list:
  assumes "bounded p out" "heads_ok (fst p) 0 (snd p)" "length (rlp_list out) < 2 ^ 64"
  shows "bounded (flat_list p) (rlp_list out)"
proof -
  have l: "length out = length (fst p) + heads_size (snd p)"
    using assms(1,2) length_render [of "fst p" 0 "snd p"] by (simp add: bounded_def)
  with assms show ?thesis
    by (simp add: bounded_def flat_list_def rlp_list_def listhead_encode_def)
qed

lemma list_all_shift: "list_all (\<lambda>h. P (snd h)) (shift k hs) = list_all (\<lambda>h. P (snd h)) hs"
  by (induction hs) auto

lemma flat_render:
  "length (rlp v) < 2 ^ 64 \<Longrightarrow> bounded (flat v) (rlp v)"
  "length (concat (map rlp vs)) < 2 ^ 64 \<Longrightarrow> bounded (flats vs) (concat (map rlp vs))"
proof (induction v and vs rule: flat_flats.induct)
  case (1 vs)
  then have "length (concat (map rlp vs)) < 2 ^ 64" by (simp add: rlp_list_def)
  with 1 show ?case by (auto intro!: bounded_list flat_ok)
next
  case (2 vs)
  then have "length (concat (map rlp vs)) < 2 ^ 64" by (simp add: rlp_list_def)
  with 2 show ?case by (auto intro!: bounded_list flat_ok)
next
  case 4
  then show ?case by (simp add: bounded_def flat_list_def rlp_list_def listhead_encode_def)
next
  case (7 v vs)
  then show ?case
    using render_append [OF flat_ok(1) [of v] flat_ok(2) [of vs]] by (simp add: bounded_def list_all_shift [of "\<lambda>n. n < 2 ^ 64", simplified])
qed (simp_all add: bounded_def)

lemma EncodeToBytes_rlp:
  assumes "encodable v" "length (rlp v) < 2 ^ 64"
  shows "EncodeToBytes v = Ok (rlp v)"
proof -
  let ?p = "flat v"
  let ?w = "extend encbuf_reset ?p"
  have b: "bounded ?p (rlp v)" using assms(2) by (rule flat_render)
  have w: "eb_str ?w = fst ?p" "eb_lheads ?w = snd ?p" "encbuf_size ?w = length (rlp v)"
    using b length_render [OF flat_ok(1) [of v]]
    by (simp_all add: extend_def encbuf_reset_def encbuf_size_def bounded_def)
  obtain p' acc' where "toBytes_heads (length (rlp v)) (fst ?p) 0 (snd ?p) [] = Ok (p', acc')"
    and "acc' @ drop p' (fst ?p) = rlp v"
    using toBytes_heads_render [OF flat_ok(1), of "[]" v "length (rlp v)"] b by (auto simp: bounded_def)
  moreover from this(2) have "take (length (rlp v)) (acc' @ drop p' (fst ?p) @ z) = rlp v" for z
    by (metis append.assoc append_eq_conv_conj)
  ultimately have "toBytes ?w = Ok (rlp v)" by (simp only: toBytes_def w Let_def result_bind.simps prod.case)
  then show ?thesis using encode_flat(1) [OF assms(1)] by (simp add: EncodeToBytes_def)
qed

text \<open>C31. The buffered encoder computes the encoding of the format: for every encodable Go value whose
  encoding has fewer than \<open>2 ^ 64\<close> bytes, filling the \<open>encbuf\<close> and splicing the list headers in gives
  exactly the recursive length prefix encoding, and does not panic.\<close>

theorem EncodeToBytes_correct:
  assumes "encodable v" "length (rlp v) < 2 ^ 64"
  shows "EncodeToBytes v = Ok (rlp v)"
  using assms by (rule EncodeToBytes_rlp)

theorem EncodeToBytes_correct_witness:
  "EncodeToBytes (RStruct [RString ''dog'', RSlice [RUint 1024, RSlice []], RBig (Some 300)]) =
     Ok [0xCC, 0x83, 0x64, 0x6F, 0x67, 0xC4, 0x82, 0x04, 0x00, 0xC0, 0x82, 0x01, 0x2C]"
proof -
  let ?v = "RStruct [RString ''dog'', RSlice [RUint 1024, RSlice []], RBig (Some 300)]"
  have r: "rlp ?v = [0xCC, 0x83, 0x64, 0x6F, 0x67, 0xC4, 0x82, 0x04, 0x00, 0xC0, 0x82, 0x01, 0x2C]"
    by (simp add: rlp_list_def rlp_string_def puthead_def string_bytes_def big_Bytes_def digits.simps byte_of_def)
  then show ?thesis using EncodeToBytes_correct [of ?v] by simp
qed

end
