(* ===== verification/Rlp_Decode.thy ===== *)
theory Rlp_Decode
  imports Rlp_Encode
begin

section \<open>RLP decoding: dvm/ethereum/rlp/decode.go and raw.go\<close>

text \<open>
  The two readers of the recursive length prefix format.

  \<^item> \<open>raw.go\<close>: \<open>Split\<close>, \<open>SplitString\<close>, \<open>SplitList\<close> and \<open>CountValues\<close> cut one value off a byte slice; the
    trie decodes its nodes with them.
  \<^item> \<open>decode.go\<close>: the \<open>Stream\<close> with its input limit, its cached kind of the value ahead and its stack of
    open lists, and the decoders that \<open>makeDecoder\<close> chooses by the Go type; \<open>rtyp\<close> has one
    constructor for each of them. The reader is always a \<open>bytes.Reader\<close>: \<open>s_r\<close> is the input it has left.
  \<^item> A decoder of a slice loops until the stream reports the end of the list, so \<open>decode\<close> takes fuel, one
    unit for an element of a list; \<open>Spent\<close> is a run that has not returned. It is shown that
    twice the length of the input is enough, except for types with an array of one byte, whose decoder does
    not consume a zero byte.
\<close>

subsection \<open>raw.go\<close>

datatype Kind = KByte | KString | KList

datatype rlp_error =
    EOL | ErrExpectedString | ErrExpectedList | ErrCanonInt | ErrCanonSize | ErrElemTooLarge
  | ErrValueTooLarge | ErrMoreThanOneValue | errNotInList | errNotAtEOL | errUintOverflow
  | IoEOF | IoUnexpectedEOF | InvalidBool nat | DecodeError string

type_synonym 'a rres = "rlp_error + 'a"

definition readSize :: "byte list \<Rightarrow> nat \<Rightarrow> nat rres" where
  "readSize b slen =
     (if slen > length b then Inl IoUnexpectedEOF
      else let s = be_nat 0 (take slen b) in
        if s < 56 \<or> b ! 0 = 0 then Inl ErrCanonSize else Inr s)"

definition raw_readKind :: "byte list \<Rightarrow> (Kind \<times> nat \<times> nat) rres" where
  "raw_readKind buf =
     (if length buf = 0 then Inl IoUnexpectedEOF
      else let b = unat (buf ! 0);
          found =
           (if b < 0x80 then Inr (KByte, 0, 1)
            else if b < 0xB8 then
              (if b - 0x80 = 1 \<and> length buf > 1 \<and> unat (buf ! 1) < 128 then Inl ErrCanonSize
               else Inr (KString, 1, b - 0x80))
            else if b < 0xC0 then
              (case readSize (drop 1 buf) (b - 0xB7) of
                 Inl e \<Rightarrow> Inl e | Inr n \<Rightarrow> Inr (KString, b - 0xB7 + 1, n))
            else if b < 0xF8 then Inr (KList, 1, b - 0xC0)
            else
              (case readSize (drop 1 buf) (b - 0xF7) of
                 Inl e \<Rightarrow> Inl e | Inr n \<Rightarrow> Inr (KList, b - 0xF7 + 1, n)))
        in case found of
             Inl e \<Rightarrow> Inl e
           | Inr (k, tagsize, contentsize) \<Rightarrow>
               if contentsize > length buf - tagsize then Inl ErrValueTooLarge
               else Inr (k, tagsize, contentsize))"

definition Split :: "byte list \<Rightarrow> (Kind \<times> byte list \<times> byte list) rres" where
  "Split b =
     (case raw_readKind b of
        Inl e \<Rightarrow> Inl e
      | Inr (k, ts, cs) \<Rightarrow> Inr (k, take cs (drop ts b), drop (ts + cs) b))"

definition SplitString :: "byte list \<Rightarrow> (byte list \<times> byte list) rres" where
  "SplitString b =
     (case Split b of
        Inl e \<Rightarrow> Inl e
      | Inr (k, content, rest) \<Rightarrow> if k = KList then Inl ErrExpectedString else Inr (content, rest))"

definition SplitList :: "byte list \<Rightarrow> (byte list \<times> byte list) rres" where
  "SplitList b =
     (case Split b of
        Inl e \<Rightarrow> Inl e
      | Inr (k, content, rest) \<Rightarrow> if k \<noteq> KList then Inl ErrExpectedList else Inr (content, rest))"

lemma raw_readKind_pos:
  "raw_readKind b = Inr (k, ts, cs) \<Longrightarrow> 0 < ts + cs \<and> ts + cs \<le> length b"
  by (cases b) (auto simp: raw_readKind_def readSize_def Let_def split: if_splits sum.splits)

function CountValues :: "byte list \<Rightarrow> nat rres" where
  "CountValues b =
     (if b = [] then Inr 0
      else case raw_readKind b of
             Inl e \<Rightarrow> Inl e
           | Inr (k, ts, cs) \<Rightarrow>
               (case CountValues (drop (ts + cs) b) of Inl e \<Rightarrow> Inl e | Inr n \<Rightarrow> Inr (Suc n)))"
  by pat_completeness auto
termination
  by (relation "measure length") (auto dest!: raw_readKind_pos)

declare CountValues.simps [simp del]

subsection \<open>The stream\<close>

text \<open>\<open>s_kind\<close> is \<open>None\<close> where the code has \<open>-1\<close>; the top of the stack is the head of \<open>s_stack\<close>, which holds
  the position in and the size of each open list.\<close>

record Stream =
  s_r :: "byte list"
  s_remaining :: nat
  s_limited :: bool
  s_kind :: "Kind option"
  s_size :: nat
  s_byteval :: byte
  s_kinderr :: "rlp_error option"
  s_stack :: "(nat \<times> nat) list"

datatype 'a dres = Val 'a | Fail rlp_error | Spent

type_synonym 'a reader = "Stream \<Rightarrow> 'a dres \<times> Stream"

definition dbind :: "'a dres \<times> Stream \<Rightarrow> ('a \<Rightarrow> 'b reader) \<Rightarrow> 'b dres \<times> Stream" where
  "dbind p f = (case p of (Val x, s) \<Rightarrow> f x s | (Fail e, s) \<Rightarrow> (Fail e, s) | (Spent, s) \<Rightarrow> (Spent, s))"

definition map_err :: "(rlp_error \<Rightarrow> rlp_error) \<Rightarrow> 'a dres \<times> Stream \<Rightarrow> 'a dres \<times> Stream" where
  "map_err g p = (case p of (Fail e, s) \<Rightarrow> (Fail (g e), s) | _ \<Rightarrow> p)"

definition NewStream :: "byte list \<Rightarrow> nat \<Rightarrow> Stream" where
  "NewStream r inputLimit =
     \<lparr>s_r = r, s_remaining = (if inputLimit > 0 then inputLimit else length r), s_limited = True,
      s_kind = None, s_size = 0, s_byteval = 0, s_kinderr = None, s_stack = []\<rparr>"

definition NewListStream :: "byte list \<Rightarrow> nat \<Rightarrow> Stream" where
  "NewListStream r len = (NewStream r len)\<lparr>s_kind := Some KList, s_size := len\<rparr>"

definition willRead :: "nat \<Rightarrow> unit reader" where
  "willRead n s0 =
     (let s = s0\<lparr>s_kind := None\<rparr> in
      case (case s_stack s of
              [] \<Rightarrow> Inr s
            | (pos, sz) # ps \<Rightarrow>
                if n > sz - pos then Inl ErrElemTooLarge else Inr (s\<lparr>s_stack := (pos + n, sz) # ps\<rparr>)) of
        Inl e \<Rightarrow> (Fail e, s)
      | Inr s1 \<Rightarrow>
          if s_limited s1 then
            (if n > s_remaining s1 then (Fail ErrValueTooLarge, s1)
             else (Val (), s1\<lparr>s_remaining := s_remaining s1 - n\<rparr>))
          else (Val (), s1))"

definition readByte :: "byte reader" where
  "readByte s =
     dbind (willRead 1 s) (\<lambda>_ s1.
       case s_r s1 of [] \<Rightarrow> (Fail IoUnexpectedEOF, s1) | b # r \<Rightarrow> (Val b, s1\<lparr>s_r := r\<rparr>))"

definition readFull :: "nat \<Rightarrow> byte list reader" where
  "readFull n s =
     dbind (willRead n s) (\<lambda>_ s1.
       if length (s_r s1) < n then (Fail IoUnexpectedEOF, s1\<lparr>s_r := []\<rparr>)
       else (Val (take n (s_r s1)), s1\<lparr>s_r := drop n (s_r s1)\<rparr>))"

definition readUint :: "nat \<Rightarrow> nat reader" where
  "readUint sz s =
     (if sz = 0 then (Val 0, s\<lparr>s_kind := None\<rparr>)
      else if sz = 1 then dbind (readByte s) (\<lambda>b s1. (Val (unat b), s1))
      else dbind (readFull sz s) (\<lambda>bs s1.
             if bs ! 0 = 0 then (Fail ErrCanonSize, s1) else (Val (be_nat 0 bs), s1)))"

text \<open>\<open>readKind\<close> returns the kind and the size with the error, as the code does: \<open>Kind\<close> keeps all three.\<close>

definition big_kind :: "Kind \<Rightarrow> nat dres \<times> Stream \<Rightarrow> (Kind \<times> nat \<times> rlp_error option) dres \<times> Stream" where
  "big_kind k p =
     (case p of
        (Val n, s) \<Rightarrow> (Val (k, n, if n < 56 then Some ErrCanonSize else None), s)
      | (Fail e, s) \<Rightarrow> (Val (k, 0, Some e), s)
      | (Spent, s) \<Rightarrow> (Spent, s))"

definition readKind :: "(Kind \<times> nat \<times> rlp_error option) reader" where
  "readKind s =
     (case readByte s of
        (Fail e, s1) \<Rightarrow>
          (Val (KByte, 0, Some (if s_stack s1 = [] \<and> (e = IoUnexpectedEOF \<or> e = ErrValueTooLarge) then IoEOF
                                else e)), s1)
      | (Spent, s1) \<Rightarrow> (Spent, s1)
      | (Val b, s1) \<Rightarrow>
          (let s2 = s1\<lparr>s_byteval := 0\<rparr>; n = unat b in
           if n < 0x80 then (Val (KByte, 0, None), s2\<lparr>s_byteval := b\<rparr>)
           else if n < 0xB8 then (Val (KString, n - 0x80, None), s2)
           else if n < 0xC0 then big_kind KString (readUint (n - 0xB7) s2)
           else if n < 0xF8 then (Val (KList, n - 0xC0, None), s2)
           else big_kind KList (readUint (n - 0xF7) s2)))"

definition size_error :: "Stream \<Rightarrow> rlp_error option" where
  "size_error s =
     (case s_stack s of
        [] \<Rightarrow> if s_limited s \<and> s_size s > s_remaining s then Some ErrValueTooLarge else None
      | (pos, sz) # _ \<Rightarrow> if s_size s > sz - pos then Some ErrElemTooLarge else None)"

definition kind_ahead :: "(Kind \<times> nat) reader" where
  "kind_ahead s =
     (case (s_kinderr s, s_kind s) of
        (Some e, _) \<Rightarrow> (Fail e, s) | (None, Some k) \<Rightarrow> (Val (k, s_size s), s) | (None, None) \<Rightarrow> (Spent, s))"

definition Stream_Kind :: "(Kind \<times> nat) reader" where
  "Stream_Kind s =
     (if s_kind s = None then
        (let s0 = s\<lparr>s_kinderr := None\<rparr> in
         case s_stack s0 of
           (pos, sz) # _ \<Rightarrow>
             if pos = sz then (Fail EOL, s0)
             else dbind (readKind s0) (\<lambda>(k, n, err) s1.
                    let s2 = s1\<lparr>s_kind := Some k, s_size := n, s_kinderr := err\<rparr> in
                    kind_ahead (if err = None then s2\<lparr>s_kinderr := size_error s2\<rparr> else s2))
         | [] \<Rightarrow> dbind (readKind s0) (\<lambda>(k, n, err) s1.
                    let s2 = s1\<lparr>s_kind := Some k, s_size := n, s_kinderr := err\<rparr> in
                    kind_ahead (if err = None then s2\<lparr>s_kinderr := size_error s2\<rparr> else s2)))
      else kind_ahead s)"

definition Stream_Bytes :: "byte list reader" where
  "Stream_Bytes s =
     dbind (Stream_Kind s) (\<lambda>(k, n) s1.
       case k of
         KByte \<Rightarrow> (Val [s_byteval s1], s1\<lparr>s_kind := None\<rparr>)
       | KString \<Rightarrow> dbind (readFull n s1) (\<lambda>b s2.
           if n = 1 \<and> unat (b ! 0) < 128 then (Fail ErrCanonSize, s2) else (Val b, s2))
       | KList \<Rightarrow> (Fail ErrExpectedString, s1))"

definition Stream_Raw :: "byte list reader" where
  "Stream_Raw s =
     dbind (Stream_Kind s) (\<lambda>(k, n) s1.
       if k = KByte then (Val [s_byteval s1], s1\<lparr>s_kind := None\<rparr>)
       else dbind (readFull n s1) (\<lambda>b s2.
         (Val ((if k = KString then puthead 0x80 0xB7 n else puthead 0xC0 0xF7 n) @ b), s2)))"

definition Stream_uint :: "nat \<Rightarrow> nat reader" where
  "Stream_uint maxbits s =
     dbind (Stream_Kind s) (\<lambda>(k, n) s1.
       case k of
         KByte \<Rightarrow> if s_byteval s1 = 0 then (Fail ErrCanonInt, s1)
                  else (Val (unat (s_byteval s1)), s1\<lparr>s_kind := None\<rparr>)
       | KString \<Rightarrow>
           if n > maxbits div 8 then (Fail errUintOverflow, s1)
           else dbind (map_err (\<lambda>e. if e = ErrCanonSize then ErrCanonInt else e) (readUint n s1)) (\<lambda>v s2.
                  if n > 0 \<and> v < 128 then (Fail ErrCanonSize, s2) else (Val v, s2))
       | KList \<Rightarrow> (Fail ErrExpectedString, s1))"

definition Stream_Bool :: "bool reader" where
  "Stream_Bool s =
     dbind (Stream_uint 8 s) (\<lambda>v s1.
       if v = 0 then (Val False, s1) else if v = 1 then (Val True, s1) else (Fail (InvalidBool v), s1))"

definition Stream_List :: "nat reader" where
  "Stream_List s =
     dbind (Stream_Kind s) (\<lambda>(k, n) s1.
       if k \<noteq> KList then (Fail ErrExpectedList, s1)
       else (Val n, s1\<lparr>s_stack := (0, n) # s_stack s1, s_kind := None, s_size := 0\<rparr>))"

definition Stream_ListEnd :: "unit reader" where
  "Stream_ListEnd s =
     (case s_stack s of
        [] \<Rightarrow> (Fail errNotInList, s)
      | (pos, sz) # ps \<Rightarrow>
          if pos \<noteq> sz then (Fail errNotAtEOL, s)
          else (Val (), s\<lparr>s_stack := (case ps of [] \<Rightarrow> [] | (pos', sz') # qs \<Rightarrow> (pos' + sz, sz') # qs),
                          s_kind := None, s_size := 0\<rparr>))"

subsection \<open>The decoders\<close>

definition wrapStreamError :: "rlp_error \<Rightarrow> rlp_error" where
  "wrapStreamError e =
     (case e of
        ErrCanonInt \<Rightarrow> DecodeError ''non-canonical integer (leading zero bytes)''
      | ErrCanonSize \<Rightarrow> DecodeError ''non-canonical size information''
      | ErrExpectedList \<Rightarrow> DecodeError ''expected input list''
      | ErrExpectedString \<Rightarrow> DecodeError ''expected input string or byte''
      | errUintOverflow \<Rightarrow> DecodeError ''input string too long''
      | errNotAtEOL \<Rightarrow> DecodeError ''input list has too many elements''
      | _ \<Rightarrow> e)"

datatype rtyp =
    TRaw
  | TUint nat
  | TBool
  | TBig
  | TBytes
  | TByteArray nat
  | TString
  | TSlice rtyp
  | TArray nat rtyp
  | TTail rtyp
  | TStruct "rtyp list"
  | TPtr rtyp
  | TOptPtr nil_kind rtyp
  | TIface

definition decodeUint :: "nat \<Rightarrow> rval reader" where
  "decodeUint bits s = dbind (map_err wrapStreamError (Stream_uint bits s)) (\<lambda>v s1. (Val (RUint v), s1))"

definition decodeBool :: "rval reader" where
  "decodeBool s = dbind (map_err wrapStreamError (Stream_Bool s)) (\<lambda>v s1. (Val (RBool v), s1))"

definition decodeString :: "rval reader" where
  "decodeString s =
     dbind (map_err wrapStreamError (Stream_Bytes s)) (\<lambda>b s1. (Val (RString (bytes_string b)), s1))"

definition decodeByteSlice :: "rval reader" where
  "decodeByteSlice s = dbind (map_err wrapStreamError (Stream_Bytes s)) (\<lambda>b s1. (Val (RBytes b), s1))"

definition decodeBigInt :: "rval reader" where
  "decodeBigInt s =
     dbind (map_err wrapStreamError (Stream_Bytes s)) (\<lambda>b s1.
       if length b > 0 \<and> b ! 0 = 0 then (Fail (wrapStreamError ErrCanonInt), s1)
       else (Val (RBig (Some (big_SetBytes b))), s1))"

definition decodeRawValue :: "rval reader" where
  "decodeRawValue s = dbind (Stream_Raw s) (\<lambda>b s1. (Val (RRaw b), s1))"

definition decodeByteArray :: "nat \<Rightarrow> rval reader" where
  "decodeByteArray vlen s =
     dbind (Stream_Kind s) (\<lambda>(k, n) s1.
       case k of
         KByte \<Rightarrow>
           if vlen = 0 then (Fail (DecodeError ''input string too long''), s1)
           else if vlen > 1 then (Fail (DecodeError ''input string too short''), s1)
           else (case Stream_uint 64 s1 of
                   (Val bv, s2) \<Rightarrow> (Val (RBytes [word_of_nat bv]), s2)
                 | (_, s2) \<Rightarrow> (Val (RBytes [0]), s2))
       | KString \<Rightarrow>
           if vlen < n then (Fail (DecodeError ''input string too long''), s1)
           else if vlen > n then (Fail (DecodeError ''input string too short''), s1)
           else dbind (readFull vlen s1) (\<lambda>b s2.
                  if n = 1 \<and> unat (b ! 0) < 128 then (Fail (wrapStreamError ErrCanonSize), s2)
                  else (Val (RBytes b), s2))
       | KList \<Rightarrow> (Fail (wrapStreamError ErrExpectedString), s1))"

function (sequential) decode :: "nat \<Rightarrow> rtyp \<Rightarrow> rval reader"
  and decode_fields :: "nat \<Rightarrow> rtyp list \<Rightarrow> rval list reader"
  and decodeSliceElems :: "nat \<Rightarrow> rtyp \<Rightarrow> rval list reader"
  and decode_array :: "nat \<Rightarrow> nat \<Rightarrow> rtyp \<Rightarrow> rval list reader" where
  "decode f TRaw s = decodeRawValue s"
| "decode f (TUint bits) s = decodeUint bits s"
| "decode f TBool s = decodeBool s"
| "decode f TBig s = decodeBigInt s"
| "decode f TBytes s = decodeByteSlice s"
| "decode f (TByteArray n) s = decodeByteArray n s"
| "decode f TString s = decodeString s"
| "decode f (TSlice t) s =
     dbind (map_err wrapStreamError (Stream_List s)) (\<lambda>n s1.
       if n = 0 then dbind (Stream_ListEnd s1) (\<lambda>_ s2. (Val (RSlice []), s2))
       else dbind (decodeSliceElems f t s1) (\<lambda>vs s2.
              dbind (Stream_ListEnd s2) (\<lambda>_ s3. (Val (RSlice vs), s3))))"
| "decode f (TArray n t) s =
     dbind (map_err wrapStreamError (Stream_List s)) (\<lambda>_ s1.
       dbind (decode_array f n t s1) (\<lambda>vs s2.
         dbind (map_err wrapStreamError (Stream_ListEnd s2)) (\<lambda>_ s3. (Val (RSlice vs), s3))))"
| "decode f (TTail t) s = dbind (decodeSliceElems f t s) (\<lambda>vs s1. (Val (RTail vs), s1))"
| "decode f (TStruct ts) s =
     dbind (map_err wrapStreamError (Stream_List s)) (\<lambda>_ s1.
       dbind (decode_fields f ts s1) (\<lambda>vs s2.
         dbind (map_err wrapStreamError (Stream_ListEnd s2)) (\<lambda>_ s3. (Val (RStruct vs), s3))))"
| "decode f (TPtr t) s = decode f t s"
| "decode f (TOptPtr k t) s =
     (case Stream_Kind s of
        (Val (kd, n), s1) \<Rightarrow>
          if n = 0 \<and> kd \<noteq> KByte then (Val (RNilPtr k), s1\<lparr>s_kind := None\<rparr>) else decode f t s1
      | (Fail e, s1) \<Rightarrow> (Fail e, s1\<lparr>s_kind := None\<rparr>)
      | (Spent, s1) \<Rightarrow> (Spent, s1))"
| "decode f TIface s =
     dbind (Stream_Kind s) (\<lambda>(kd, _) s1.
       if kd = KList then
         dbind (map_err wrapStreamError (Stream_List s1)) (\<lambda>n s2.
           if n = 0 then dbind (Stream_ListEnd s2) (\<lambda>_ s3. (Val (RSlice []), s3))
           else dbind (decodeSliceElems f TIface s2) (\<lambda>vs s3.
                  dbind (Stream_ListEnd s3) (\<lambda>_ s4. (Val (RSlice vs), s4))))
       else dbind (Stream_Bytes s1) (\<lambda>b s2. (Val (RBytes b), s2)))"
| "decode_fields f [] s = (Val [], s)"
| "decode_fields f (t # ts) s =
     dbind (map_err (\<lambda>e. if e = EOL then DecodeError ''too few elements'' else e) (decode f t s)) (\<lambda>v s1.
       dbind (decode_fields f ts s1) (\<lambda>vs s2. (Val (v # vs), s2)))"
| "decodeSliceElems 0 t s = (Spent, s)"
| "decodeSliceElems (Suc f) t s =
     (case decode f t s of
        (Val v, s1) \<Rightarrow> dbind (decodeSliceElems f t s1) (\<lambda>vs s2. (Val (v # vs), s2))
      | (Fail e, s1) \<Rightarrow> if e = EOL then (Val [], s1) else (Fail e, s1)
      | (Spent, s1) \<Rightarrow> (Spent, s1))"
| "decode_array f 0 t s = (Val [], s)"
| "decode_array 0 (Suc n) t s = (Spent, s)"
| "decode_array (Suc f) (Suc n) t s =
     (case decode f t s of
        (Val v, s1) \<Rightarrow> dbind (decode_array f n t s1) (\<lambda>vs s2. (Val (v # vs), s2))
      | (Fail e, s1) \<Rightarrow>
          (Fail (if e = EOL then DecodeError ''input list has too few elements'' else e), s1)
      | (Spent, s1) \<Rightarrow> (Spent, s1))"
  by pat_completeness auto
termination
  by (relation "inv_image (less_than <*lex*> less_than) (\<lambda>x. case x of
        Inl (Inl (f, t, s)) \<Rightarrow> (f, 2 * size t + 1)
      | Inl (Inr (f, ts, s)) \<Rightarrow> (f, 2 * size_list size ts)
      | Inr (Inl (f, t, s)) \<Rightarrow> (f, 2 * size t)
      | Inr (Inr (f, n, t, s)) \<Rightarrow> (f, 2 * size t))") auto

text \<open>\<open>DecodeBytes\<close>: the whole input must be one value. The fuel is two units for a byte of input.\<close>

definition DecodeBytes :: "rtyp \<Rightarrow> byte list \<Rightarrow> rval dres" where
  "DecodeBytes t b =
     (case decode (2 * length b + 2) t (NewStream b (length b)) of
        (Val v, s) \<Rightarrow> if length (s_r s) > 0 then Fail ErrMoreThanOneValue else Val v
      | (Fail e, s) \<Rightarrow> Fail e
      | (Spent, s) \<Rightarrow> Spent)"

subsection \<open>Decoding returns\<close>

definition ahead :: "Stream \<Rightarrow> nat" where
  "ahead s = 2 * length (s_r s) + (if s_kind s = None then 0 else 1)"

text \<open>A run has returned and has not moved back; it has consumed when it also leaves no cached kind.\<close>

definition returns :: "'a dres \<times> Stream \<Rightarrow> Stream \<Rightarrow> bool" where
  "returns p s \<longleftrightarrow> fst p \<noteq> Spent \<and> length (s_r (snd p)) \<le> length (s_r s)"

definition consumes :: "'a dres \<times> Stream \<Rightarrow> Stream \<Rightarrow> bool" where
  "consumes p s \<longleftrightarrow> returns p s \<and>
     (case fst p of Val _ \<Rightarrow> s_kind (snd p) = None \<and> ahead (snd p) < ahead s | _ \<Rightarrow> True)"

lemma dbind_simps [simp]: "dbind (Val x, s) g = g x s" "dbind (Fail e, s) g = (Fail e, s)"
  "dbind (Spent, s) g = (Spent, s)"
  by (simp_all add: dbind_def)

lemma map_err_simps [simp]: "map_err g (Val x, s) = (Val x, s)" "map_err g (Fail e, s) = (Fail (g e), s)"
  "map_err g (Spent, s) = (Spent, s)"
  by (simp_all add: map_err_def)

lemma returns_simps [simp]:
  "returns (Val x, s1) s \<longleftrightarrow> length (s_r s1) \<le> length (s_r s)"
  "returns (Fail e, s1) s \<longleftrightarrow> length (s_r s1) \<le> length (s_r s)"
  "\<not> returns (Spent, s1) s"
  by (auto simp: returns_def)

lemma consumes_simps [simp]:
  "consumes (Val x, s1) s \<longleftrightarrow> length (s_r s1) \<le> length (s_r s) \<and> s_kind s1 = None \<and> ahead s1 < ahead s"
  "consumes (Fail e, s1) s \<longleftrightarrow> length (s_r s1) \<le> length (s_r s)"
  "\<not> consumes (Spent, s1) s"
  by (auto simp: consumes_def)

lemma returns_map_err [simp]: "returns (map_err g p) s = returns p s"
  by (cases p; cases "fst p") (auto simp: map_err_def)

lemma consumes_map_err [simp]: "consumes (map_err g p) s = consumes p s"
  by (cases p; cases "fst p") (auto simp: map_err_def)

lemma consumes_returns: "consumes p s \<Longrightarrow> returns p s"
  by (simp add: consumes_def)

lemma returns_bind:
  assumes "returns p s" "\<And>x s1. p = (Val x, s1) \<Longrightarrow> length (s_r s1) \<le> length (s_r s) \<Longrightarrow> returns (g x s1) s1"
  shows "returns (dbind p g) s"
proof (cases p)
  case (Pair r s1)
  with assms show ?thesis by (cases r) (auto simp: returns_def intro: le_trans)
qed

lemma consumes_bind:
  assumes "consumes p s"
    "\<And>x s1. p = (Val x, s1) \<Longrightarrow> ahead s1 < ahead s \<Longrightarrow> s_kind s1 = None \<Longrightarrow>
       returns (h x s1) s1 \<and> (\<forall>y s2. h x s1 = (Val y, s2) \<longrightarrow> s_kind s2 = None)"
  shows "consumes (dbind p h) s"
proof (cases p)
  case (Pair r s1)
  show ?thesis
  proof (cases r)
    case (Val x)
    with Pair assms(1) have a: "ahead s1 < ahead s" "s_kind s1 = None" "length (s_r s1) \<le> length (s_r s)"
      by auto
    obtain r2 s2 where h: "h x s1 = (r2, s2)" by (cases "h x s1")
    with assms(2) [of x s1] Pair Val a
    have k: "returns (r2, s2) s1" "\<And>y. r2 = Val y \<Longrightarrow> s_kind s2 = None" by auto
    then show ?thesis using a Pair Val h by (cases r2) (auto simp: ahead_def)
  qed (use Pair assms(1) in auto)
qed

lemma willRead_cases:
  obtains e s1 where "willRead n s = (Fail e, s1)" "s_r s1 = s_r s" "s_kind s1 = None"
  | s1 where "willRead n s = (Val (), s1)" "s_r s1 = s_r s" "s_kind s1 = None"
  by (cases "willRead n s"; cases "fst (willRead n s)")
    (auto simp: willRead_def Let_def split: list.splits prod.splits if_splits sum.splits)

text \<open>What a read may do: fail, or return a value with \<open>Q\<close> of it.\<close>

definition reads :: "'a dres \<times> Stream \<Rightarrow> ('a \<Rightarrow> Stream \<Rightarrow> bool) \<Rightarrow> Stream \<Rightarrow> bool" where
  "reads p Q s \<longleftrightarrow> (case p of (Val x, s1) \<Rightarrow> Q x s1 | (Fail e, s1) \<Rightarrow> True | (Spent, s1) \<Rightarrow> False) \<and>
     length (s_r (snd p)) \<le> length (s_r s) \<and> s_kind (snd p) = None"

lemma reads_cases:
  assumes "reads p Q s"
  obtains e s1 where "p = (Fail e, s1)" "length (s_r s1) \<le> length (s_r s)" "s_kind s1 = None"
  | x s1 where "p = (Val x, s1)" "length (s_r s1) \<le> length (s_r s)" "s_kind s1 = None" "Q x s1"
  using assms by (cases p; cases "fst p") (auto simp: reads_def)

lemma willRead_reads: "reads (willRead n s) (\<lambda>_ s1. s_r s1 = s_r s) s"
  by (rule willRead_cases [of n s]) (auto simp: reads_def)

lemma readByte_reads: "reads (readByte s) (\<lambda>b s1. s_r s = b # s_r s1) s"
  by (rule willRead_cases [of 1 s]) (auto simp: reads_def readByte_def split: list.splits)

lemma readFull_reads: "reads (readFull n s) (\<lambda>b s1. True) s"
  by (rule willRead_cases [of n s]) (auto simp: reads_def readFull_def)

lemma readUint_reads: "reads (readUint n s) (\<lambda>v s1. True) s"
proof -
  consider "n = 0" | "n = 1" | "n > 1" by linarith
  then show ?thesis
  proof cases
    case 2
    then show ?thesis by (cases rule: reads_cases [OF readByte_reads [of s]]) (auto simp: readUint_def reads_def)
  next
    case 3
    then show ?thesis
      by (cases rule: reads_cases [OF readFull_reads [of n s]]) (auto simp: readUint_def reads_def)
  qed (auto simp: readUint_def reads_def)
qed

lemma big_kind_cases:
  assumes "reads p (\<lambda>v s1. True) s"
  obtains n err s1 where "big_kind k p = (Val (k, n, err), s1)" "length (s_r s1) \<le> length (s_r s)"
  using assms by (cases rule: reads_cases) (auto simp: big_kind_def)

lemma readKind_cases:
  obtains k n err s1 where "readKind s = (Val (k, n, err), s1)" "length (s_r s1) \<le> length (s_r s)"
    "err = None \<longrightarrow> length (s_r s1) < length (s_r s)"
proof (cases rule: reads_cases [OF readByte_reads [of s]])
  case (1 e s1)
  then show ?thesis using that by (auto simp: readKind_def)
next
  case (2 b s1)
  let ?s = "s1\<lparr>s_byteval := 0\<rparr>"
  have "\<exists>k n err s2. readKind s = (Val (k, n, err), s2) \<and> length (s_r s2) \<le> length (s_r s1)"
  proof -
    have "\<exists>n err s2. big_kind k (readUint m ?s) = (Val (k, n, err), s2) \<and> length (s_r s2) \<le> length (s_r s1)"
      for k m using big_kind_cases [OF readUint_reads [of m ?s], of k] by (metis Stream.ext_inject Stream.surjective Stream.update_convs(6))
    note big = this
    show ?thesis using 2(1) big [of KString "unat b - 183"] big [of KList "unat b - 247"]
      by (auto simp: readKind_def Let_def)
  qed
  then show ?thesis using 2(4) by (elim exE conjE) (rule that, auto)
qed

lemma Kind_cases:
  obtains e s1 where "Stream_Kind s = (Fail e, s1)" "length (s_r s1) \<le> length (s_r s)"
  | k n s1 where "Stream_Kind s = (Val (k, n), s1)" "length (s_r s1) \<le> length (s_r s)"
      "s_kind s1 = Some k" "ahead s1 \<le> ahead s" "s_kinderr s1 = None" "s_size s1 = n"
proof (cases "s_kind s")
  case (Some k)
  then show ?thesis using that by (cases "s_kinderr s") (auto simp: Stream_Kind_def kind_ahead_def)
next
  case None
  let ?s0 = "s\<lparr>s_kinderr := None\<rparr>"
  obtain k n err s1 where R: "readKind ?s0 = (Val (k, n, err), s1)" "length (s_r s1) \<le> length (s_r ?s0)"
    "err = None \<longrightarrow> length (s_r s1) < length (s_r ?s0)" by (rule readKind_cases)
  let ?s2 = "s1\<lparr>s_kind := Some k, s_size := n, s_kinderr := err\<rparr>"
  let ?s3 = "if err = None then ?s2\<lparr>s_kinderr := size_error ?s2\<rparr> else ?s2"
  have "Stream_Kind s = (Fail EOL, ?s0) \<or> Stream_Kind s = kind_ahead ?s3"
    using None R(1) by (auto simp: Stream_Kind_def Let_def split: list.splits prod.splits)
  then show ?thesis
  proof
    assume "Stream_Kind s = (Fail EOL, ?s0)"
    then show ?thesis by (rule that(1)) simp
  next
    assume K: "Stream_Kind s = kind_ahead ?s3"
    show ?thesis
    proof (cases "s_kinderr ?s3")
      case (Some e)
      then show ?thesis using that(1) [of e ?s3] K R(2) by (auto simp: kind_ahead_def)
    next
      case None': None
      then have "err = None" by (cases err) auto
      with None' K R None show ?thesis using that(2) [of k n ?s3] by (auto simp: kind_ahead_def ahead_def)
    qed
  qed
qed

lemma Kind_consumes_bind:
  assumes "\<And>k n s1. Stream_Kind s = (Val (k, n), s1) \<Longrightarrow> s_kind s1 = Some k \<Longrightarrow> ahead s1 \<le> ahead s \<Longrightarrow> consumes (g (k, n) s1) s1"
  shows "consumes (dbind (Stream_Kind s) g) s"
proof (cases rule: Kind_cases [of s])
  case (2 k n s1)
  with assms [of k n s1] show ?thesis
    by (cases "g (k, n) s1"; cases "fst (g (k, n) s1)") (auto simp: consumes_def returns_def)
qed simp

lemma readFull_consumes:
  assumes "s_kind s \<noteq> None"
    "\<And>b s1. readFull n s = (Val b, s1) \<Longrightarrow> s_kind s1 = None \<Longrightarrow> snd (h b s1) = s1 \<and> fst (h b s1) \<noteq> Spent"
  shows "consumes (dbind (readFull n s) h) s"
proof (cases rule: reads_cases [OF readFull_reads [of n s]])
  case (2 b s1)
  with assms(2) [of b s1] assms(1) show ?thesis
    by (cases "h b s1"; cases "fst (h b s1)") (auto simp: ahead_def)
qed simp

lemma Bytes_consumes: "consumes (Stream_Bytes s) s"
  unfolding Stream_Bytes_def
proof (rule Kind_consumes_bind, goal_cases)
  case (1 k n s1)
  then show ?case by (cases k) (auto simp: ahead_def intro!: readFull_consumes split: if_splits)
qed

lemma Raw_consumes: "consumes (Stream_Raw s) s"
  unfolding Stream_Raw_def
proof (rule Kind_consumes_bind, goal_cases)
  case (1 k n s1)
  then show ?case by (auto simp: ahead_def intro!: readFull_consumes)
qed

lemma uint_consumes: "consumes (Stream_uint bits s) s"
  unfolding Stream_uint_def
proof (rule Kind_consumes_bind, goal_cases)
  case (1 k n s1)
  have "consumes (dbind (map_err g (readUint n s1)) (\<lambda>v s2.
      if n > 0 \<and> v < 128 then (Fail ErrCanonSize, s2) else (Val v, s2))) s1" for g
    using 1 by (cases rule: reads_cases [OF readUint_reads [of n s1]]) (auto simp: ahead_def)
  with 1 show ?case by (cases k) (auto simp: ahead_def)
qed

lemma consumes_then:
  assumes "consumes p s" "\<And>x s1. p = (Val x, s1) \<Longrightarrow> snd (h x s1) = s1 \<and> fst (h x s1) \<noteq> Spent"
  shows "consumes (dbind p h) s"
proof (rule consumes_bind [OF assms(1)])
  fix x s1 assume "p = (Val x, s1)" "s_kind s1 = None"
  with assms(2) [of x s1] show "returns (h x s1) s1 \<and> (\<forall>y s2. h x s1 = (Val y, s2) \<longrightarrow> s_kind s2 = None)"
    by (cases "h x s1"; cases "fst (h x s1)") auto
qed

lemma Bool_consumes: "consumes (Stream_Bool s) s"
  unfolding Stream_Bool_def by (rule consumes_then [OF uint_consumes]) auto

lemma List_consumes: "consumes (Stream_List s) s"
  unfolding Stream_List_def by (rule Kind_consumes_bind) (auto simp: ahead_def)

lemma ListEnd_reads: "fst (Stream_ListEnd s) \<noteq> Spent" "s_r (snd (Stream_ListEnd s)) = s_r s"
  "fst (Stream_ListEnd s) = Val x \<Longrightarrow> s_kind (snd (Stream_ListEnd s)) = None"
  by (auto simp: Stream_ListEnd_def split: list.splits)

lemma ListEnd_cases:
  obtains e s1 where "Stream_ListEnd s = (Fail e, s1)" "s_r s1 = s_r s"
  | s1 where "Stream_ListEnd s = (Val (), s1)" "s_r s1 = s_r s" "s_kind s1 = None"
  using ListEnd_reads [of s] by (cases "Stream_ListEnd s"; cases "fst (Stream_ListEnd s)") auto

lemma byteArray_consumes: "n \<noteq> 1 \<Longrightarrow> consumes (decodeByteArray n s) s"
  unfolding decodeByteArray_def
proof (rule Kind_consumes_bind, goal_cases)
  case (1 k m s1)
  then show ?case by (cases k) (auto simp: ahead_def intro!: readFull_consumes split: if_splits)
qed

lemma leaf_consumes:
  "consumes (decodeRawValue s) s" "consumes (decodeUint bits s) s" "consumes (decodeBool s) s"
  "consumes (decodeBigInt s) s" "consumes (decodeByteSlice s) s" "consumes (decodeString s) s"
  unfolding decodeRawValue_def decodeUint_def decodeBool_def decodeBigInt_def decodeByteSlice_def decodeString_def
  by (rule consumes_then; auto simp: Raw_consumes uint_consumes Bool_consumes Bytes_consumes)+

text \<open>The types a Go value can have: a tail is the last field of a struct. The array of one byte is left out.\<close>

fun decodable :: "rtyp \<Rightarrow> bool" and fields_decodable :: "rtyp list \<Rightarrow> bool" where
  "decodable (TByteArray n) = (n \<noteq> 1)"
| "decodable (TSlice t) = decodable t"
| "decodable (TArray n t) = decodable t"
| "decodable (TTail t) = False"
| "decodable (TStruct ts) = fields_decodable ts"
| "decodable (TPtr t) = decodable t"
| "decodable (TOptPtr k t) = decodable t"
| "decodable _ = True"
| "fields_decodable [] = True"
| "fields_decodable [TTail t] = decodable t"
| "fields_decodable (t # ts) = (decodable t \<and> fields_decodable ts)"

lemma ahead_le: "length (s_r s1) \<le> length (s_r s) \<Longrightarrow> s_kind s1 = None \<Longrightarrow> ahead s1 \<le> ahead s"
  by (simp add: ahead_def)

lemma list_then:
  assumes "\<And>n s1. ahead s1 < ahead s \<Longrightarrow> s_kind s1 = None \<Longrightarrow> returns (g n s1) s1"
    and "\<And>n s1 y s2. g n s1 = (Val y, s2) \<Longrightarrow> s_kind s2 = None"
  shows "consumes (dbind (map_err wrapStreamError (Stream_List s)) g) s"
  by (rule consumes_bind) (use assms in \<open>auto simp: List_consumes\<close>)

text \<open>After the elements comes \<open>ListEnd\<close>, which leaves no cached kind.\<close>

definition closes :: "(nat \<Rightarrow> rval reader) \<Rightarrow> bool" where
  "closes g \<longleftrightarrow> (\<forall>n s1 y s2. g n s1 = (Val y, s2) \<longrightarrow> s_kind s2 = None)"

lemma dbind_Val: "dbind p g = (Val y, s2) \<longleftrightarrow> (\<exists>x s1. p = (Val x, s1) \<and> g x s1 = (Val y, s2))"
  by (cases p; cases "fst p") auto

lemma map_err_Val: "map_err g p = (Val y, s2) \<longleftrightarrow> p = (Val y, s2)"
  by (cases p; cases "fst p") auto

lemma ListEnd_kind: "Stream_ListEnd s = (Val x, s1) \<Longrightarrow> s_kind s1 = None"
  by (auto simp: Stream_ListEnd_def split: list.splits if_splits)

lemma ListEnd_returns:
  "returns (dbind (Stream_ListEnd s) (\<lambda>_ s1. (Val v, s1))) s"
  "returns (dbind (map_err g (Stream_ListEnd s)) (\<lambda>_ s1. (Val v, s1))) s"
  by (cases rule: ListEnd_cases [of s]; simp)+

lemma returns_refl [simp]: "returns (Val x, s) s"
  by simp

lemma returns_trans: "returns p s1 \<Longrightarrow> length (s_r s1) \<le> length (s_r s) \<Longrightarrow> returns p s"
  by (simp add: returns_def)

lemma decode_returns:
  shows "(decodable t \<longrightarrow> ahead s \<le> f \<longrightarrow> consumes (decode f t s) s) \<and>
     (\<forall>u. t = TTail u \<longrightarrow> decodable u \<longrightarrow> ahead s < f \<longrightarrow> returns (decode f t s) s)"
    and "fields_decodable ts \<longrightarrow> ahead s < f \<longrightarrow> returns (decode_fields f ts s) s"
    and "decodable t \<longrightarrow> ahead s < f \<longrightarrow> returns (decodeSliceElems f t s) s"
    and "decodable t \<longrightarrow> ahead s < f \<longrightarrow> returns (decode_array f n t s) s"
proof (induction f t s and f ts s and f t s and f n t s rule: decode_decode_fields_decodeSliceElems_decode_array.induct)
  case (8 f t s)
  show ?case
    using 8 by (auto intro!: list_then returns_bind ListEnd_returns simp: dbind_Val ListEnd_kind split: if_splits)
next
  case (9 f n t s)
  show ?case
    using 9 by (auto intro!: list_then returns_bind ListEnd_returns simp: dbind_Val map_err_Val ListEnd_kind split: if_splits)
next
  case (10 f t s)
  then show ?case by (auto intro!: returns_bind)
next
  case (11 f ts s)
  show ?case
    using 11 by (auto intro!: list_then returns_bind ListEnd_returns simp: dbind_Val map_err_Val ListEnd_kind split: if_splits)
next
  case (13 f k t s)
  show ?case
  proof (cases rule: Kind_cases [of s])
    case (2 kd n s1)
    show ?thesis
    proof (cases "n = 0 \<and> kd \<noteq> KByte")
      case True
      with 2 show ?thesis by (simp add: ahead_def)
    next
      case False
      with 2 13 [OF 2(1) [symmetric] refl refl False]
      show ?thesis by (auto simp: consumes_def returns_def split: dres.splits)
    qed
  qed simp
next
  case (14 f s)
  have "consumes (decode f TIface s) s" if f: "ahead s \<le> f"
    unfolding decode.simps
  proof (rule Kind_consumes_bind, goal_cases)
    case (1 k n s1)
    have "returns (decodeSliceElems f TIface s2) s2" if "ahead s2 < ahead s1" "k = KList" "m \<noteq> 0" for s2 m
      by (rule 14 [THEN mp, THEN mp, OF refl]) (use that 1 f in auto)
    then show ?case
      by (auto intro!: list_then returns_bind ListEnd_returns simp: dbind_Val ListEnd_kind split: if_splits)
        (auto intro!: consumes_then Bytes_consumes)
  qed
  then show ?case by simp
next
  case (16 f t ts s)
  show ?case
  proof (intro impI)
    assume f: "fields_decodable (t # ts)" "ahead s < f"
    consider u where "t = TTail u" "ts = []" "decodable u" | "decodable t" "fields_decodable ts"
      using f(1) by (cases t; cases ts) auto
    then show "returns (decode_fields f (t # ts) s) s"
    proof cases
      case 1
      with 16(1) f(2) show ?thesis by (auto intro!: returns_bind)
    next
      case 2
      have c: "consumes (decode f t s) s" using 16(1) 2(1) f(2) by simp
      show ?thesis
        unfolding decode_fields.simps
      proof (rule returns_bind)
        fix v s1 assume v: "map_err (\<lambda>e. if e = EOL then DecodeError ''too few elements'' else e) (decode f t s) = (Val v, s1)"
        then have "ahead s1 < f" using c f(2) by (simp add: map_err_Val)
        then show "returns (dbind (decode_fields f ts s1) (\<lambda>vs s2. (Val (v # vs), s2))) s1"
          using 16(2) [of s1] 2(2) by (intro returns_bind) auto
      qed (use c in \<open>simp add: consumes_returns\<close>)
    qed
  qed
next
  case (18 f t s)
  show ?case
  proof (intro impI)
    assume f: "decodable t" "ahead s < Suc f"
    then have c: "consumes (decode f t s) s" using 18(1) by simp
    show "returns (decodeSliceElems (Suc f) t s) s"
    proof (cases "decode f t s")
      case (Pair r s1)
      show ?thesis
      proof (cases r)
        case (Val v)
        with c Pair f(2) have "ahead s1 < f" "length (s_r s1) \<le> length (s_r s)" by auto
        with 18(2) [OF Pair [symmetric] Val] f(1) Pair Val show ?thesis
          by (auto intro!: returns_bind returns_trans [of _ s1 s])
      qed (use c Pair in auto)
    qed
  qed
next
  case (21 f n t s)
  show ?case
  proof (intro impI)
    assume f: "decodable t" "ahead s < Suc f"
    then have c: "consumes (decode f t s) s" using 21(1) by simp
    show "returns (decode_array (Suc f) (Suc n) t s) s"
    proof (cases "decode f t s")
      case (Pair r s1)
      show ?thesis
      proof (cases r)
        case (Val v)
        with c Pair f(2) have "ahead s1 < f" "length (s_r s1) \<le> length (s_r s)" by auto
        with 21(2) [OF Pair [symmetric] Val] f(1) Pair Val show ?thesis
          by (auto intro!: returns_bind returns_trans [of _ s1 s])
      qed (use c Pair in auto)
    qed
  qed
qed (auto simp: leaf_consumes byteArray_consumes ahead_def)



text \<open>C33. A slice of one-byte arrays is decoded in an endless loop: the decoder of a byte array reads a zero
  byte with \<open>Uint\<close>, which rejects it and leaves it cached as the value ahead, and drops the error, so the
  stream never reaches the end of the list; no fuel is enough for the two bytes \<open>C1 00\<close>.\<close>

theorem one_byte_array_hangs:
  "fst (decode f (TSlice (TByteArray 1)) (NewStream [0xC1, 0x00] 2)) = Spent"
proof -
  define s where "s = \<lparr>s_r = [], s_remaining = 0, s_limited = True, s_kind = Some KByte, s_size = 0,
    s_byteval = 0, s_kinderr = None, s_stack = [(1, 1)]\<rparr>"
  define s0 where "s0 = \<lparr>s_r = [0], s_remaining = 1, s_limited = True, s_kind = None, s_size = 0,
    s_byteval = 0, s_kinderr = None, s_stack = [(0, 1)]\<rparr>"
  have L: "Stream_List (NewStream [0xC1, 0x00] 2) = (Val 1, s0)"
    by (simp add: Stream_List_def Stream_Kind_def NewStream_def readKind_def readByte_def willRead_def
        kind_ahead_def size_error_def s0_def)
  have A: "decodeByteArray 1 s0 = (Val (RBytes [0]), s)" "decodeByteArray 1 s = (Val (RBytes [0]), s)"
    by (simp_all add: decodeByteArray_def Stream_uint_def Stream_Kind_def readKind_def readByte_def willRead_def
        kind_ahead_def size_error_def s0_def s_def)
  have "fst (decodeSliceElems f (TByteArray 1) s) = Spent" for f
    by (induction f) (auto simp: A [unfolded One_nat_def] dbind_def split: prod.splits)
  then have "fst (decodeSliceElems f (TByteArray 1) s0) = Spent"
    by (cases f) (simp_all add: A [unfolded One_nat_def] dbind_def case_prod_unfold)
  then show ?thesis
    by (cases "decodeSliceElems f (TByteArray 1) s0") (simp add: L)
qed

end
