(* ===== verification/Rlp_Round_Trip.thy ===== *)
theory Rlp_Round_Trip
  imports Rlp_Decode
begin

section \<open>RLP: what is written is read back\<close>

text \<open>
  The round trip of \<open>EncodeToBytes\<close> and \<open>DecodeBytes\<close>. \<open>has_type\<close> says which Go values (\<open>rval\<close>) a Go
  type (\<open>rtyp\<close>) has. The proof follows the stream: \<open>feed\<close> is the stream after a number of bytes has been
  read, \<open>recognised\<close> what \<open>Kind\<close> finds in front of a string or a list, \<open>opened\<close> the stream inside a list,
  \<open>at_end\<close> the stream at its end. \<open>reads_back\<close> is the induction hypothesis: at every place of every
  stream that has the room, the decoder of the type reads the value and consumes its encoding.
\<close>

subsection \<open>Values and types\<close>

fun iface :: "rval \<Rightarrow> bool" where
  "iface (RBytes b) = True"
| "iface (RSlice vs) = list_all iface vs"
| "iface _ = False"

fun has_type :: "rtyp \<Rightarrow> rval \<Rightarrow> bool" and fields_typed :: "rtyp list \<Rightarrow> rval list \<Rightarrow> bool" where
  "has_type TRaw v = False"
| "has_type (TUint bits) v = (case v of RUint i \<Rightarrow> bits \<in> {8, 16, 32, 64} \<and> i < 2 ^ bits | _ \<Rightarrow> False)"
| "has_type TBool v = (case v of RBool b \<Rightarrow> True | _ \<Rightarrow> False)"
| "has_type TBig v = (case v of RBig (Some i) \<Rightarrow> 0 \<le> i | _ \<Rightarrow> False)"
| "has_type TBytes v = (case v of RBytes b \<Rightarrow> True | _ \<Rightarrow> False)"
| "has_type (TByteArray n) v = (case v of RBytes b \<Rightarrow> length b = n | _ \<Rightarrow> False)"
| "has_type TString v = (case v of RString s \<Rightarrow> True | _ \<Rightarrow> False)"
| "has_type (TSlice t) v = (case v of RSlice vs \<Rightarrow> list_all (has_type t) vs | _ \<Rightarrow> False)"
| "has_type (TArray n t) v = (case v of RSlice vs \<Rightarrow> length vs = n \<and> list_all (has_type t) vs | _ \<Rightarrow> False)"
| "has_type (TTail t) v = (case v of RTail vs \<Rightarrow> list_all (has_type t) vs | _ \<Rightarrow> False)"
| "has_type (TStruct ts) v = (case v of RStruct vs \<Rightarrow> fields_typed ts vs | _ \<Rightarrow> False)"
| "has_type (TPtr t) v = has_type t v"
| "has_type (TOptPtr k t) v = (v = RNilPtr k \<or> has_type t v \<and> rlp v \<notin> {[0x80], [0xC0]})"
| "has_type TIface v = iface v"
| "fields_typed [] vs = (vs = [])"
| "fields_typed (t # ts) vs = (case vs of [] \<Rightarrow> False | v # ws \<Rightarrow> has_type t v \<and> fields_typed ts ws)"

text \<open>The stream after reading \<open>n\<close> bytes, and the room it needs to read them.\<close>

definition bump :: "nat \<Rightarrow> (nat \<times> nat) list \<Rightarrow> (nat \<times> nat) list" where
  "bump n st = (case st of [] \<Rightarrow> [] | (pos, sz) # ps \<Rightarrow> (pos + n, sz) # ps)"

definition room :: "nat \<Rightarrow> Stream \<Rightarrow> bool" where
  "room n s \<longleftrightarrow> n \<le> s_remaining s \<and> s_limited s \<and> n \<le> length (s_r s) \<and>
     (case s_stack s of [] \<Rightarrow> True | (pos, sz) # ps \<Rightarrow> pos + n \<le> sz)"

definition feed :: "nat \<Rightarrow> Stream \<Rightarrow> Stream" where
  "feed n s = s\<lparr>s_r := drop n (s_r s), s_remaining := s_remaining s - n, s_kind := None,
     s_stack := bump n (s_stack s)\<rparr>"

definition same :: "Stream \<Rightarrow> Stream \<Rightarrow> bool" where
  "same s s' \<longleftrightarrow> s_r s = s_r s' \<and> s_remaining s = s_remaining s' \<and> s_limited s = s_limited s' \<and>
     s_stack s = s_stack s'"

definition fed :: "nat \<Rightarrow> Stream \<Rightarrow> Stream \<Rightarrow> bool" where
  "fed n s s' \<longleftrightarrow> same s' (feed n s) \<and> s_kind s' = None"

lemma bump_simps [simp]: "bump a (bump b st) = bump (a + b) st" "bump 0 st = st" "bump n [] = []"
  "bump n ((pos, sz) # ps) = (pos + n, sz) # ps"
  by (auto simp: bump_def split: list.splits)

lemma feed_sel [simp]: "s_r (feed n s) = drop n (s_r s)" "s_remaining (feed n s) = s_remaining s - n"
  "s_kind (feed n s) = None" "s_stack (feed n s) = bump n (s_stack s)" "s_limited (feed n s) = s_limited s"
  by (simp_all add: feed_def)

lemma same_feed: "same s s' \<Longrightarrow> same (feed n s) (feed n s')"
  by (simp add: same_def)

lemma same_trans: "same a b \<Longrightarrow> same b c \<Longrightarrow> same a c"
  by (simp add: same_def)

lemma same_sym: "same a b \<Longrightarrow> same b a"
  by (simp add: same_def)

lemma same_room: "same s s' \<Longrightarrow> room n s = room n s'"
  by (auto simp: same_def room_def)

lemma room_feed: "room (m + n) s \<Longrightarrow> room n (feed m s)"
  by (auto simp: room_def bump_def split: list.splits)

lemma room_less: "room (m + n) s \<Longrightarrow> room m s"
  by (auto simp: room_def split: list.splits)

lemma fed_fed: "fed m s s1 \<Longrightarrow> fed n s1 s2 \<Longrightarrow> fed (m + n) s s2"
  by (auto simp: fed_def same_def add.commute)

lemma room_fed: "fed m s s1 \<Longrightarrow> room (m + n) s \<Longrightarrow> room n s1"
  using room_feed same_room by (auto simp: fed_def)

lemma willRead_feed: "room n s \<Longrightarrow> \<exists>s1. willRead n s = (Val (), s1) \<and> s_r s1 = s_r s \<and> s1\<lparr>s_r := drop n (s_r s)\<rparr> = feed n s"
  by (cases s) (auto simp: room_def willRead_def Let_def feed_def bump_def split: list.splits)

lemma readByte_feed: "room 1 s \<Longrightarrow> readByte s = (Val (hd (s_r s)), feed 1 s)"
  using willRead_feed [of 1 s] by (cases "s_r s") (auto simp: readByte_def room_def)

lemma readFull_feed: "room n s \<Longrightarrow> readFull n s = (Val (take n (s_r s)), feed n s)"
  using willRead_feed [of n s] by (auto simp: readFull_def room_def)

lemma putint_pos: "0 < length (putint n)"
  by (simp add: putint_def)

lemma be_nat_big_Bytes: "be_nat 0 (big_Bytes (int n)) = n"
  using big_SetBytes_Bytes [of "int n"] by (simp add: big_SetBytes_def)

lemma be_nat_putint: "0 < n \<Longrightarrow> n < 2 ^ 64 \<Longrightarrow> be_nat 0 (putint n) = n"
  by (simp only: putint_big_Bytes be_nat_big_Bytes)

lemma big_Bytes_first:
  assumes "0 < n" shows "big_Bytes (int n) \<noteq> [] \<and> big_Bytes (int n) ! 0 \<noteq> 0"
  using assms
proof (induction n rule: less_induct)
  case (less n)
  show ?case
  proof (cases "n < 256")
    case True
    then have "unat (byte_of n) = n" by (simp add: byte_of_def unat_of_nat)
    with less.prems True show ?thesis by (auto simp: big_Bytes_small)
  next
    case False
    with less.IH [of "n div 256"] show ?thesis
      unfolding big_Bytes_snoc [OF less.prems] by (simp add: nth_append)
  qed
qed

lemma length_big_Bytes_le: "n < 256 ^ k \<Longrightarrow> length (big_Bytes (int n)) \<le> k"
proof (induction k arbitrary: n)
  case (Suc k)
  show ?case
  proof (cases "n = 0")
    case False
    then have "length (big_Bytes (int n)) = Suc (length (big_Bytes (int (n div 256))))"
      using big_Bytes_snoc [of n] by simp
    moreover have "n div 256 < 256 ^ k" using Suc.prems by (simp add: div_less_iff_less_mult mult.commute)
    ultimately show ?thesis using Suc.IH by simp
  qed simp
qed simp

lemma readUint_feed:
  assumes "room (length (putint n)) s" "s_r s = putint n @ rest" "0 < n" "n < 2 ^ 64"
  shows "readUint (length (putint n)) s = (Val n, feed (length (putint n)) s)"
proof (cases "length (putint n) = 1")
  case True
  then obtain b where b: "putint n = [b]" by (cases "putint n") auto
  have "unat b = n" using be_nat_putint [OF assms(3,4)] b by simp
  with assms b True show ?thesis by (simp add: readUint_def readByte_feed)
next
  case False
  have "putint n ! 0 \<noteq> 0" using assms(3,4) big_Bytes_first by (simp add: putint_big_Bytes)
  moreover have "length (putint n) > 1" using False putint_pos [of n] by linarith
  ultimately show ?thesis
    using assms be_nat_putint [OF assms(3,4)] by (auto simp: readUint_def readFull_feed)
qed

text \<open>The header of a string or of a list is recognised.\<close>

definition tag_of :: "Kind \<Rightarrow> byte \<times> byte" where
  "tag_of k = (if k = KList then (0xC0, 0xF7) else (0x80, 0xB7))"

definition recognised :: "Kind \<Rightarrow> nat \<Rightarrow> nat \<Rightarrow> Stream \<Rightarrow> Stream \<Rightarrow> bool" where
  "recognised k n h s s1 \<longleftrightarrow> Stream_Kind s = (Val (k, n), s1) \<and> same s1 (feed h s) \<and> s_kind s1 = Some k \<and>
     s_kinderr s1 = None \<and> s_size s1 = n"

lemma readKind_header:
  assumes "k \<noteq> KByte" "s_r s = puthead (fst (tag_of k)) (snd (tag_of k)) n @ rest"
    "room (length (puthead (fst (tag_of k)) (snd (tag_of k)) n)) s" "n < 2 ^ 64"
  shows "\<exists>s1. readKind s = (Val (k, n, None), s1) \<and> same s1 (feed (length (puthead (fst (tag_of k)) (snd (tag_of k)) n)) s)"
proof (cases "n < 56")
  case True
  have u: "unat (0x80 + word_of_nat n :: byte) = 128 + n" "unat (0xC0 + word_of_nat n :: byte) = 192 + n"
    using True by (simp_all add: unat_word_ariths unat_of_nat)
  show ?thesis
    using assms True u
    by (cases k) (simp_all add: readKind_def puthead_def tag_of_def readByte_feed same_def)
next
  case False
  let ?m = "length (putint n)"
  have m: "0 < ?m" "?m \<le> 8" by (rule putint_pos, rule length_putint_le)
  then have u: "unat (0xB7 + word_of_nat ?m :: byte) = 183 + ?m" "unat (0xF7 + word_of_nat ?m :: byte) = 247 + ?m"
    by (simp_all add: unat_word_ariths unat_of_nat)
  have r: "room 1 s" "room ?m (feed 1 s)"
    using assms(3) False room_less [of 1 ?m s] room_feed [of 1 ?m s] by (simp_all add: puthead_def)
  let ?s = "(feed 1 s)\<lparr>s_byteval := 0\<rparr>"
  have r': "room ?m ?s" using r(2) by (simp add: room_def)
  have "readUint ?m ?s = (Val n, feed ?m ?s)"
    using assms(2,4) False r' by (intro readUint_feed) (simp_all add: puthead_def)
  then show ?thesis
    using assms False u m r(1)
    by (cases k) (simp_all add: readKind_def puthead_def tag_of_def readByte_feed big_kind_def same_def)
qed

lemma Kind_recognises:
  assumes "k \<noteq> KByte" "s_r s = puthead (fst (tag_of k)) (snd (tag_of k)) n @ rest"
    "h = length (puthead (fst (tag_of k)) (snd (tag_of k)) n)" "room (h + n) s" "n < 2 ^ 64" "s_kind s = None"
  shows "\<exists>s1. recognised k n h s s1"
proof -
  let ?s0 = "s\<lparr>s_kinderr := None\<rparr>"
  have h: "0 < h" using assms(3) by (simp add: puthead_def)
  have r: "room h ?s0" using assms(4) room_less [of h n s] by (simp add: room_def)
  obtain s1 where K: "readKind ?s0 = (Val (k, n, None), s1)" "same s1 (feed h ?s0)"
    using readKind_header [of k ?s0 n rest] assms r by auto
  have z: "size_error (s1\<lparr>s_kind := Some k, s_size := n, s_kinderr := None\<rparr>) = None"
    using K(2) assms(4) by (auto simp: size_error_def same_def room_def bump_def split: list.splits)
  have e: "s_stack s \<noteq> [] \<longrightarrow> fst (hd (s_stack s)) \<noteq> snd (hd (s_stack s))"
    using assms(4) h by (auto simp: room_def split: list.splits)
  show ?thesis
    using K z e assms(6)
    by (intro exI [of _ "s1\<lparr>s_kind := Some k, s_size := n, s_kinderr := None\<rparr>"])
      (auto simp: recognised_def Stream_Kind_def Let_def kind_ahead_def same_def split: list.splits)
qed

lemma Kind_byte:
  assumes "s_r s = b # rest" "unat b < 128" "room 1 s" "s_kind s = None"
  shows "\<exists>s1. recognised KByte 0 1 s s1 \<and> s_byteval s1 = b"
proof -
  let ?s0 = "s\<lparr>s_kinderr := None\<rparr>"
  have r: "room 1 ?s0" using assms(3) by (simp add: room_def)
  have K: "readKind ?s0 = (Val (KByte, 0, None), (feed 1 ?s0)\<lparr>s_byteval := 0, s_byteval := b\<rparr>)"
    using assms r by (simp add: readKind_def readByte_feed)
  have e: "s_stack s \<noteq> [] \<longrightarrow> fst (hd (s_stack s)) \<noteq> snd (hd (s_stack s))"
    using assms(3) by (auto simp: room_def split: list.splits)
  show ?thesis
    using K e assms(4)
    by (auto simp: recognised_def Stream_Kind_def Let_def kind_ahead_def same_def size_error_def split: list.splits)
qed

lemma rlp_string_tag: "\<not> (length b = 1 \<and> unat (b ! 0) < 128) \<Longrightarrow>
   rlp_string b = puthead (fst (tag_of KString)) (snd (tag_of KString)) (length b) @ b"
  by (drule rlp_string_long) (simp add: tag_of_def)

lemma rlp_list_tag: "rlp_list p = puthead (fst (tag_of KList)) (snd (tag_of KList)) (length p) @ p"
  by (simp add: rlp_list_def tag_of_def)

lemma recognised_room: "recognised k n h s s1 \<Longrightarrow> room (h + m) s \<Longrightarrow> room m s1"
  using room_feed same_room by (auto simp: recognised_def)

lemma recognised_feed: "recognised k n h s s1 \<Longrightarrow> same (feed m s1) (feed (h + m) s)"
  by (auto simp: recognised_def same_def add.commute)

lemma recognised_r: "recognised k n h s s1 \<Longrightarrow> s_r s1 = drop h (s_r s)"
  by (simp add: recognised_def same_def)

lemma recognised_Kind: "recognised k n h s s1 \<Longrightarrow> Stream_Kind s = (Val (k, n), s1)"
  by (simp add: recognised_def)

lemma feed_fed: "recognised k n h s s1 \<Longrightarrow> fed (h + m) s (feed m s1)"
  using recognised_feed by (simp add: fed_def)

lemma kind_fed: "recognised k n h s s1 \<Longrightarrow> fed h s (s1\<lparr>s_kind := None\<rparr>)"
  by (simp add: recognised_def fed_def same_def)

lemma string_ahead:
  assumes "s_r s = rlp_string b @ rest" "room (length (rlp_string b)) s" "s_kind s = None" "length b < 2 ^ 64"
    "\<not> (length b = 1 \<and> unat (b ! 0) < 128)"
  obtains h s1 where "recognised KString (length b) h s s1" "length (rlp_string b) = h + length b"
    "s_r s1 = b @ rest" "room (length b) s1"
proof -
  let ?h = "length (puthead (fst (tag_of KString)) (snd (tag_of KString)) (length b))"
  have l: "length (rlp_string b) = ?h + length b" by (simp only: rlp_string_tag [OF assms(5)] length_append)
  have "s_r s = puthead (fst (tag_of KString)) (snd (tag_of KString)) (length b) @ (b @ rest)"
    using assms(1) by (simp only: rlp_string_tag [OF assms(5)] append_assoc)
  moreover from this obtain s1 where r: "recognised KString (length b) ?h s s1"
    using Kind_recognises [of KString s "length b" "b @ rest" ?h] assms(2-4) l by auto
  ultimately show thesis using that [OF r l] recognised_r [OF r] recognised_room [OF r, of "length b"] assms(2) l
    by simp
qed

lemma byte_ahead:
  assumes "s_r s = rlp_string b @ rest" "room (length (rlp_string b)) s" "s_kind s = None"
    "length b = 1" "unat (b ! 0) < 128"
  obtains s1 where "recognised KByte 0 1 s s1" "s_byteval s1 = b ! 0" "length (rlp_string b) = 1"
proof -
  have "rlp_string b = [b ! 0]" using assms by (intro rlp_string_short)
  then show thesis using Kind_byte [of s "b ! 0" rest] assms that by auto
qed

lemma Bytes_ok:
  assumes "s_r s = rlp_string b @ rest" "room (length (rlp_string b)) s" "s_kind s = None" "length b < 2 ^ 64"
  shows "\<exists>s1. Stream_Bytes s = (Val b, s1) \<and> fed (length (rlp_string b)) s s1"
proof (cases "length b = 1 \<and> unat (b ! 0) < 128")
  case True
  then obtain s1 where s1: "recognised KByte 0 1 s s1" "s_byteval s1 = b ! 0" "length (rlp_string b) = 1"
    using byte_ahead [OF assms(1-3)] by auto
  have "[b ! 0] = b" using True by (cases b) auto
  then show ?thesis using s1 kind_fed [OF s1(1)] by (auto simp: Stream_Bytes_def recognised_Kind [OF s1(1)])
next
  case False
  from string_ahead [OF assms False] obtain h s1 where s1: "recognised KString (length b) h s s1"
    "length (rlp_string b) = h + length b" "s_r s1 = b @ rest" "room (length b) s1" .
  have "\<not> (length b = 1 \<and> unat (b ! 0) < 128)" by (rule False)
  then show ?thesis using s1 feed_fed [OF s1(1)]
    by (auto simp: Stream_Bytes_def recognised_Kind [OF s1(1)] readFull_feed)
qed

lemma uint_ok:
  assumes "s_r s = rlp_string (big_Bytes (int i)) @ rest" "room (length (rlp_string (big_Bytes (int i)))) s"
    "s_kind s = None" "i < 2 ^ bits" "bits \<in> {8, 16, 32, 64}"
  shows "\<exists>s1. Stream_uint bits s = (Val i, s1) \<and> fed (length (rlp_string (big_Bytes (int i)))) s s1"
proof -
  let ?b = "big_Bytes (int i)"
  have i64: "i < 2 ^ 64"
    using assms(4,5) power_increasing [of bits 64 "2 :: nat"] by (auto elim: less_le_trans)
  have len: "length ?b \<le> bits div 8"
  proof -
    have "i < 256 ^ (bits div 8)" using assms(4,5) by auto
    then show ?thesis by (rule length_big_Bytes_le)
  qed
  then have l64: "length ?b < 2 ^ 64" using assms(5) by auto
  consider "i = 0" | "0 < i" "i < 128" | "128 \<le> i" by linarith
  then show ?thesis
  proof cases
    case 1
    then have b: "?b = []" by simp
    then have n: "\<not> (length ?b = 1 \<and> unat (?b ! 0) < 128)" by simp
    from string_ahead [OF assms(1-3) l64 n] obtain h s1 where s1: "recognised KString (length ?b) h s s1"
      "length (rlp_string ?b) = h + length ?b" "s_r s1 = ?b @ rest" "room (length ?b) s1" .
    then show ?thesis using kind_fed [OF s1(1)] b 1
      by (auto simp: Stream_uint_def recognised_Kind [OF s1(1)] readUint_def)
  next
    case 2
    have u: "unat (byte_of i) = i" using 2 by (simp add: byte_of_def unat_of_nat)
    have b: "?b = [byte_of i]" using 2 by (simp add: big_Bytes_small)
    have z: "byte_of i \<noteq> 0" using u 2 by auto
    from byte_ahead [OF assms(1-3)] u b 2 obtain s1 where s1: "recognised KByte 0 1 s s1" "s_byteval s1 = byte_of i"
      "length (rlp_string ?b) = 1" by auto
    then show ?thesis using kind_fed [OF s1(1)] u z
      by (auto simp: Stream_uint_def recognised_Kind [OF s1(1)])
  next
    case 3
    have p: "?b = putint i" using 3 i64 by (simp add: putint_big_Bytes)
    have n: "\<not> (length ?b = 1 \<and> unat (?b ! 0) < 128)"
      using 3 i64 unfolding p by (simp add: putint_def byte_at_def unat_of_nat)
    from string_ahead [OF assms(1-3) l64 n] obtain h s1 where s1: "recognised KString (length ?b) h s s1"
      "length (rlp_string ?b) = h + length ?b" "s_r s1 = ?b @ rest" "room (length ?b) s1" .
    have "readUint (length ?b) s1 = (Val i, feed (length ?b) s1)"
      using s1 3 i64 unfolding p by (intro readUint_feed) auto
    then show ?thesis using s1 feed_fed [OF s1(1)] len 3
      by (auto simp: Stream_uint_def recognised_Kind [OF s1(1)])
  qed
qed

text \<open>Opening a list, and closing it once its content is read.\<close>

definition opened :: "nat \<Rightarrow> nat \<Rightarrow> Stream \<Rightarrow> Stream \<Rightarrow> bool" where
  "opened h n s s1 \<longleftrightarrow> s_r s1 = drop h (s_r s) \<and> s_remaining s1 = s_remaining s - h \<and> s_limited s1 = s_limited s \<and>
     s_stack s1 = (0, n) # bump h (s_stack s) \<and> s_kind s1 = None"

lemma List_ok:
  assumes "s_r s = rlp_list p @ rest" "room (length (rlp_list p)) s" "s_kind s = None" "length p < 2 ^ 64"
  shows "\<exists>h s1. Stream_List s = (Val (length p), s1) \<and> opened h (length p) s s1 \<and>
     length (rlp_list p) = h + length p \<and> s_r s1 = p @ rest \<and> room (length p) s1 \<and> 0 < h"
proof -
  let ?h = "length (puthead (fst (tag_of KList)) (snd (tag_of KList)) (length p))"
  have l: "length (rlp_list p) = ?h + length p" by (simp only: rlp_list_tag length_append)
  have r: "s_r s = puthead (fst (tag_of KList)) (snd (tag_of KList)) (length p) @ (p @ rest)"
    using assms(1) by (simp only: rlp_list_tag append_assoc)
  obtain s1 where s1: "recognised KList (length p) ?h s s1"
    using Kind_recognises [of KList s "length p" "p @ rest" ?h] r assms(2-4) l by auto
  have rm: "room (length p) s1" using recognised_room [OF s1, of "length p"] assms(2) l by simp
  show ?thesis
    using s1 rm r l recognised_r [OF s1]
    by (intro exI [of _ ?h] exI [of _ "s1\<lparr>s_stack := (0, length p) # s_stack s1, s_kind := None, s_size := 0\<rparr>"])
      (auto simp: Stream_List_def recognised_Kind [OF s1] opened_def recognised_def same_def room_def puthead_def
        split: list.splits)
qed

lemma ListEnd_ok:
  assumes "opened h n s s1" "fed n s1 s2"
  shows "\<exists>s3. Stream_ListEnd s2 = (Val (), s3) \<and> fed (h + n) s s3"
proof -
  let ?s3 = "s2\<lparr>s_stack := bump n (bump h (s_stack s)), s_kind := None, s_size := 0\<rparr>"
  have st: "s_stack s2 = (n, n) # bump h (s_stack s)" using assms by (simp add: opened_def fed_def same_def)
  then have "Stream_ListEnd s2 = (Val (), ?s3)" by (simp add: Stream_ListEnd_def bump_def)
  moreover have "fed (h + n) s ?s3" using assms by (simp add: opened_def fed_def same_def add.commute)
  ultimately show ?thesis by (intro exI conjI)
qed

text \<open>At the end of the innermost list every decoder stops with \<open>EOL\<close>.\<close>

definition at_end :: "Stream \<Rightarrow> bool" where
  "at_end s \<longleftrightarrow> s_kind s = None \<and> (\<exists>pos ps. s_stack s = (pos, pos) # ps)"

lemma Kind_at_end: "at_end s \<Longrightarrow> Stream_Kind s = (Fail EOL, s\<lparr>s_kinderr := None\<rparr>)"
  by (auto simp: at_end_def Stream_Kind_def Let_def)

lemma map_err_eq: "map_err g p = (case p of (Fail e, s) \<Rightarrow> (Fail (g e), s) | _ \<Rightarrow> p)"
  by (simp add: map_err_def)

lemma decode_at_end: "decodable t \<Longrightarrow> at_end s \<Longrightarrow> \<exists>s1. decode f t s = (Fail EOL, s1) \<and> same s1 s \<and> s_kind s1 = None"
  by (induction t)
    (simp_all add: decodeRawValue_def decodeUint_def decodeBool_def decodeBigInt_def decodeByteSlice_def
      decodeByteArray_def decodeString_def Stream_Raw_def Stream_uint_def Stream_Bool_def Stream_Bytes_def
      Stream_List_def Kind_at_end wrapStreamError_def same_def at_end_def)

text \<open>The kind ahead is cached: a decoder that starts after \<open>Kind\<close> was asked runs as before.\<close>

lemma Kind_again: "Stream_Kind s = (Val x, s1) \<Longrightarrow> Stream_Kind s1 = (Val x, s1)"
  by (cases x; cases rule: Kind_cases [of s]) (auto simp: Stream_Kind_def kind_ahead_def)

lemma decode_after_Kind:
  assumes "Stream_Kind s = (Val x, s1)" "decodable t" shows "decode f t s1 = decode f t s"
  using assms(2) Kind_again [OF assms(1)] assms(1)
  by (induction t)
    (simp_all add: decodeRawValue_def decodeUint_def decodeBool_def decodeBigInt_def decodeByteSlice_def
      decodeByteArray_def decodeString_def Stream_Raw_def Stream_uint_def Stream_Bool_def Stream_Bytes_def
      Stream_List_def)

definition ready :: "byte list \<Rightarrow> byte list \<Rightarrow> Stream \<Rightarrow> bool" where
  "ready b rest s \<longleftrightarrow> s_r s = b @ rest \<and> room (length b) s \<and> s_kind s = None"

definition reads_back :: "nat \<Rightarrow> rtyp \<Rightarrow> rval \<Rightarrow> bool" where
  "reads_back f t v \<longleftrightarrow> (\<forall>s rest. ready (rlp v) rest s \<longrightarrow> 2 * length (rlp v) \<le> f \<longrightarrow>
     (\<exists>s1. decode f t s = (Val v, s1) \<and> fed (length (rlp v)) s s1))"

lemma reads_backD:
  "reads_back f t v \<Longrightarrow> ready (rlp v) rest s \<Longrightarrow> 2 * length (rlp v) \<le> f \<Longrightarrow>
     \<exists>s1. decode f t s = (Val v, s1) \<and> fed (length (rlp v)) s s1"
  by (auto simp: reads_back_def)

lemma ready_append: "ready (a @ b) rest s \<Longrightarrow> ready a (b @ rest) s"
  by (auto simp: ready_def intro: room_less)

lemma ready_after: "ready (a @ b) rest s \<Longrightarrow> fed (length a) s s1 \<Longrightarrow> ready b rest s1"
  using room_fed [of "length a" s s1 "length b"] by (auto simp: ready_def fed_def same_def)

lemma fed_0 [simp]: "fed 0 s s' \<longleftrightarrow> same s' s \<and> s_kind s' = None"
  by (auto simp: fed_def same_def)

lemma same_refl [simp]: "same s s"
  by (simp add: same_def)

lemma fuel_left: "2 * (a + b) < Suc c \<Longrightarrow> 0 < a \<Longrightarrow> 2 * b < (c :: nat)"
  by presburger

lemma elems_ok:
  assumes "decodable t"
  shows "\<lbrakk>\<forall>v \<in> set vs. (\<forall>f. reads_back f t v) \<and> rlp v \<noteq> []; ready (concat (map rlp vs)) rest s;
     s_stack s = (pos, pos + length (concat (map rlp vs))) # ps; 2 * length (concat (map rlp vs)) < f\<rbrakk> \<Longrightarrow>
     \<exists>s1. decodeSliceElems f t s = (Val vs, s1) \<and> fed (length (concat (map rlp vs))) s s1"
proof (induction vs arbitrary: f s pos)
  case Nil
  then obtain f' where f': "f = Suc f'" by (cases f) auto
  have "at_end s" using Nil by (simp add: at_end_def ready_def)
  from decode_at_end [OF assms this, of f'] show ?case by (auto simp: f')
next
  case (Cons v vs)
  then obtain f' where f': "f = Suc f'" by (cases f) auto
  have r: "ready (rlp v @ concat (map rlp vs)) rest s" using Cons.prems(2) by simp
  obtain s1 where s1: "decode f' t s = (Val v, s1)" "fed (length (rlp v)) s s1"
    using reads_backD [of f' t v, OF _ ready_append [OF r]] Cons.prems(1,4) f' by auto
  have "\<exists>s2. decodeSliceElems f' t s1 = (Val vs, s2) \<and> fed (length (concat (map rlp vs))) s1 s2"
  proof (rule Cons.IH)
    show "ready (concat (map rlp vs)) rest s1" by (rule ready_after [OF r s1(2)])
    show "s_stack s1 = (pos + length (rlp v), pos + length (rlp v) + length (concat (map rlp vs))) # ps"
      using s1(2) Cons.prems(3) by (simp add: fed_def same_def)
    have "0 < length (rlp v)" using Cons.prems(1) by simp
    then show "2 * length (concat (map rlp vs)) < f'"
      using Cons.prems(4) unfolding f' list.map concat.simps length_append by (rule fuel_left [rotated])
  qed (use Cons.prems(1) in simp)
  then show ?case using s1 fed_fed [OF s1(2)] by (auto simp: f')
qed

lemma array_ok:
  shows "\<lbrakk>\<forall>v \<in> set vs. (\<forall>f. reads_back f t v) \<and> rlp v \<noteq> []; ready (concat (map rlp vs)) rest s;
     2 * length (concat (map rlp vs)) < f\<rbrakk> \<Longrightarrow>
     \<exists>s1. decode_array f (length vs) t s = (Val vs, s1) \<and> fed (length (concat (map rlp vs))) s s1"
proof (induction vs arbitrary: f s)
  case Nil
  then show ?case by (auto simp: ready_def)
next
  case (Cons v vs)
  then obtain f' where f': "f = Suc f'" by (cases f) auto
  have r: "ready (rlp v @ concat (map rlp vs)) rest s" using Cons.prems(2) by simp
  obtain s1 where s1: "decode f' t s = (Val v, s1)" "fed (length (rlp v)) s s1"
    using reads_backD [of f' t v, OF _ ready_append [OF r]] Cons.prems(1,3) f' by auto
  have "0 < length (rlp v)" using Cons.prems(1) by simp
  then have "2 * length (concat (map rlp vs)) < f'"
    using Cons.prems(3) unfolding f' list.map concat.simps length_append by (rule fuel_left [rotated])
  then have "\<exists>s2. decode_array f' (length vs) t s1 = (Val vs, s2) \<and> fed (length (concat (map rlp vs))) s1 s2"
    using Cons.prems(1) by (intro Cons.IH ready_after [OF r s1(2)]) simp_all
  then show ?case using s1 fed_fed [OF s1(2)] by (auto simp: f')
qed

text \<open>A list is read back when its content is.\<close>

lemma list_ok:
  assumes "ready (rlp_list p) rest s" "length p < 2 ^ 64"
    and "\<And>h s1. Stream_List s = (Val (length p), s1) \<Longrightarrow> ready p rest s1 \<Longrightarrow> s_stack s1 = (0, length p) # bump h (s_stack s) \<Longrightarrow>
       length (rlp_list p) = h + length p \<Longrightarrow> 0 < h \<Longrightarrow> \<exists>s2. body (length p) s1 = (Val xs, s2) \<and> fed (length p) s1 s2"
  shows "\<exists>s3. dbind (map_err wrapStreamError (Stream_List s)) (\<lambda>n s1. dbind (body n s1) (\<lambda>vs s2.
      dbind (Stream_ListEnd s2) (\<lambda>_ s3. (Val (c vs), s3)))) = (Val (c xs), s3) \<and> fed (length (rlp_list p)) s s3"
    and "\<exists>s3. dbind (map_err wrapStreamError (Stream_List s)) (\<lambda>n s1. dbind (body n s1) (\<lambda>vs s2.
      dbind (map_err wrapStreamError (Stream_ListEnd s2)) (\<lambda>_ s3. (Val (c vs), s3)))) = (Val (c xs), s3) \<and>
      fed (length (rlp_list p)) s s3"
proof -
  obtain h s1 where s1: "Stream_List s = (Val (length p), s1)" "opened h (length p) s s1"
    "length (rlp_list p) = h + length p" "s_r s1 = p @ rest" "room (length p) s1" "0 < h"
    using List_ok [of s p rest] assms(1,2) by (auto simp: ready_def)
  obtain s2 where s2: "body (length p) s1 = (Val xs, s2)" "fed (length p) s1 s2"
    using assms(3) [of s1 h] s1 by (auto simp: ready_def opened_def)
  obtain s3 where s3: "Stream_ListEnd s2 = (Val (), s3)" "fed (h + length p) s s3"
    using ListEnd_ok [OF s1(2) s2(2)] by auto
  show "\<exists>s3. dbind (map_err wrapStreamError (Stream_List s)) (\<lambda>n s1. dbind (body n s1) (\<lambda>vs s2.
      dbind (Stream_ListEnd s2) (\<lambda>_ s3. (Val (c vs), s3)))) = (Val (c xs), s3) \<and> fed (length (rlp_list p)) s s3"
    and "\<exists>s3. dbind (map_err wrapStreamError (Stream_List s)) (\<lambda>n s1. dbind (body n s1) (\<lambda>vs s2.
      dbind (map_err wrapStreamError (Stream_ListEnd s2)) (\<lambda>_ s3. (Val (c vs), s3)))) = (Val (c xs), s3) \<and>
      fed (length (rlp_list p)) s s3"
    using s1 s2 s3 by simp_all
qed

lemma rlp_nonempty: "has_type t v \<Longrightarrow> decodable t \<Longrightarrow> rlp v \<noteq> []"
proof (induction t arbitrary: v)
  case (TOptPtr k t)
  then show ?case by (cases k) (auto simp: rlp_list_def puthead_def)
next
  case TIface
  then show ?case by (cases v) (auto simp: rlp_list_def puthead_def rlp_string_def split: list.splits)
qed (auto simp: rlp_list_def rlp_string_def puthead_def split: rval.splits list.splits option.splits)

lemma slice_ok:
  assumes "decodable t" "\<forall>v \<in> set vs. (\<forall>f. reads_back f t v) \<and> rlp v \<noteq> []" "length (rlp (RSlice vs)) < 2 ^ 64"
    "ready (rlp (RSlice vs)) rest s" "2 * length (rlp (RSlice vs)) \<le> f"
  shows "\<exists>s3. dbind (map_err wrapStreamError (Stream_List s)) (\<lambda>n s1.
       if n = 0 then dbind (Stream_ListEnd s1) (\<lambda>_ s2. (Val (RSlice []), s2))
       else dbind (decodeSliceElems f t s1) (\<lambda>vs s2. dbind (Stream_ListEnd s2) (\<lambda>_ s3. (Val (RSlice vs), s3)))) =
     (Val (RSlice vs), s3) \<and> fed (length (rlp (RSlice vs))) s s3"
proof -
  let ?p = "concat (map rlp vs)"
  define body where "body n s1 = (if n = 0 then (Val [], s1) else decodeSliceElems f t s1)" for n :: nat and s1
  have "\<exists>s3. dbind (map_err wrapStreamError (Stream_List s)) (\<lambda>n s1. dbind (body n s1) (\<lambda>vs s2.
      dbind (Stream_ListEnd s2) (\<lambda>_ s3. (Val (RSlice vs), s3)))) = (Val (RSlice vs), s3) \<and> fed (length (rlp_list ?p)) s s3"
  proof (rule list_ok(1))
    show "ready (rlp_list ?p) rest s" "length ?p < 2 ^ 64" using assms(3,4) by (simp_all add: rlp_list_def)
    fix h s1 assume s1: "ready ?p rest s1" "s_stack s1 = (0, length ?p) # bump h (s_stack s)"
      "length (rlp_list ?p) = h + length ?p" "0 < h"
    show "\<exists>s2. body (length ?p) s1 = (Val vs, s2) \<and> fed (length ?p) s1 s2"
    proof (cases "length ?p = 0")
      case True
      then have "vs = []" using assms(2) by (cases vs) auto
      with s1(1) show ?thesis by (simp add: body_def ready_def)
    next
      case False
      have "2 * length ?p < f" using s1(3,4) assms(5) by simp
      with False elems_ok [OF assms(1,2) s1(1), of 0] s1(2) show ?thesis by (auto simp: body_def)
    qed
  qed
  then show ?thesis by (simp add: body_def if_distrib [of "\<lambda>p. dbind p _"] cong: if_cong)
qed

lemma Bytes_Kind: "Stream_Bytes s = (Val b, s1) \<Longrightarrow> \<exists>k n s'. Stream_Kind s = (Val (k, n), s') \<and> k \<noteq> KList \<and> Stream_Bytes s' = (Val b, s1)"
  using Kind_again [of s] by (cases rule: Kind_cases [of s]) (auto simp: Stream_Bytes_def split: Kind.splits)

lemma List_Kind: "Stream_List s = (Val m, s1) \<Longrightarrow> \<exists>n s'. Stream_Kind s = (Val (KList, n), s') \<and> Stream_List s' = (Val m, s1)"
  using Kind_again [of s] by (cases rule: Kind_cases [of s]) (auto simp: Stream_List_def split: if_splits)

lemma length_string_le: "length b \<le> length (rlp_string b)"
  by (cases "length b = 1 \<and> unat (b ! 0) < 128") (simp_all add: rlp_string_short rlp_string_long)

lemma iface_reads_back: "iface v \<Longrightarrow> length (rlp v) < 2 ^ 64 \<Longrightarrow> reads_back f TIface v"
proof (induction v arbitrary: f rule: iface.induct)
  case (1 b)
  show ?case
    unfolding reads_back_def
  proof (intro allI impI)
    fix s rest assume s: "ready (rlp (RBytes b)) rest s"
    have "length b < 2 ^ 64" using "1.prems"(2) length_string_le [of b] by simp
    then obtain s1 where s1: "Stream_Bytes s = (Val b, s1)" "fed (length (rlp (RBytes b))) s s1"
      using Bytes_ok [of s b rest] s by (auto simp: ready_def)
    obtain k n s' where "Stream_Kind s = (Val (k, n), s')" "k \<noteq> KList" "Stream_Bytes s' = (Val b, s1)"
      using Bytes_Kind [OF s1(1)] by auto
    with s1 show "\<exists>s1. decode f TIface s = (Val (RBytes b), s1) \<and> fed (length (rlp (RBytes b))) s s1" by simp
  qed
next
  case (2 vs)
  have e: "\<forall>v \<in> set vs. (\<forall>f. reads_back f TIface v) \<and> rlp v \<noteq> []"
  proof (intro ballI conjI allI)
    fix v f assume v: "v \<in> set vs"
    then have i: "iface v" using "2.prems"(1) by (simp add: list_all_iff)
    have "length (rlp v) \<le> length (rlp (RSlice vs))"
      using v by (auto simp: rlp_list_def length_concat intro!: member_le_sum_list trans_le_add2)
    with "2.IH" v i "2.prems"(2) show "reads_back f TIface v" by auto
    show "rlp v \<noteq> []" using rlp_nonempty [of TIface v] i by simp
  qed
  show ?case
    unfolding reads_back_def
  proof (intro allI impI)
    fix s rest assume s: "ready (rlp (RSlice vs)) rest s" "2 * length (rlp (RSlice vs)) \<le> f"
    have "length (concat (map rlp vs)) < 2 ^ 64" using "2.prems"(2) by (simp add: rlp_list_def)
    then obtain m s1 where "Stream_List s = (Val m, s1)"
      using List_ok [of s "concat (map rlp vs)" rest] s by (auto simp: ready_def)
    then obtain n s' where k: "Stream_Kind s = (Val (KList, n), s')" "Stream_List s' = Stream_List s"
      using List_Kind by fastforce
    show "\<exists>s1. decode f TIface s = (Val (RSlice vs), s1) \<and> fed (length (rlp (RSlice vs))) s s1"
      using slice_ok [OF _ e "2.prems"(2) s] k by simp
  qed
qed simp_all

lemma unat_of_char: "unat (of_char c :: byte) = (of_char c :: nat)"
proof -
  have "unat (of_nat (of_char c) :: byte) = of_char c"
    using nat_of_char_less_256 [of c] by (simp add: unat_of_nat)
  then show ?thesis by (simp only: of_nat_of_char)
qed

lemma string_bytes_back: "bytes_string (string_bytes b) = b"
  by (simp add: bytes_string_def string_bytes_def comp_def unat_of_char)

lemma uint_reads_back:
  assumes "has_type (TUint bits) v" shows "reads_back f (TUint bits) v"
  unfolding reads_back_def
proof (intro allI impI)
  fix s rest assume s: "ready (rlp v) rest s"
  obtain i where v: "v = RUint i" "bits \<in> {8, 16, 32, 64}" "i < 2 ^ bits" using assms by (cases v) auto
  with uint_ok [of s i rest bits] s show "\<exists>s1. decode f (TUint bits) s = (Val v, s1) \<and> fed (length (rlp v)) s s1"
    by (auto simp: decodeUint_def ready_def)
qed

lemma bool_reads_back: "reads_back f TBool (RBool b)"
  unfolding reads_back_def
proof (intro allI impI)
  fix s rest assume s: "ready (rlp (RBool b)) rest s"
  have b: "big_Bytes (int (of_bool b)) = (if b then [1] else [])"
    by (simp add: big_Bytes_def digits.simps byte_of_def)
  obtain s1 where "Stream_uint 8 s = (Val (of_bool b), s1)" "fed (length (rlp (RBool b))) s s1"
    using uint_ok [of s "of_bool b" rest 8] s b by (cases b) (auto simp: ready_def)
  then show "\<exists>s1. decode f TBool s = (Val (RBool b), s1) \<and> fed (length (rlp (RBool b))) s s1"
    by (cases b) (simp_all add: decodeBool_def Stream_Bool_def)
qed

lemma string_reads_back:
  assumes "\<And>s s1. Stream_Bytes s = (Val b, s1) \<Longrightarrow> decode f t s = (Val v, s1)" "rlp v = rlp_string b"
    "length (rlp v) < 2 ^ 64"
  shows "reads_back f t v"
  unfolding reads_back_def
proof (intro allI impI)
  fix s rest assume s: "ready (rlp v) rest s"
  have "length b < 2 ^ 64" using assms(2,3) length_string_le [of b] by simp
  then show "\<exists>s1. decode f t s = (Val v, s1) \<and> fed (length (rlp v)) s s1"
    using Bytes_ok [of s b rest] s assms(1) [of s] assms(2) by (auto simp: ready_def)
qed

lemma big_reads_back:
  assumes "0 \<le> i" "length (rlp (RBig (Some i))) < 2 ^ 64" shows "reads_back f TBig (RBig (Some i))"
proof (rule string_reads_back [of "big_Bytes i"])
  have z: "\<not> (length (big_Bytes i) > 0 \<and> big_Bytes i ! 0 = 0)"
    using big_Bytes_first [of "nat i"] assms(1) by (cases "i = 0") auto
  have "big_SetBytes (big_Bytes i) = i" using assms(1) by (simp add: big_SetBytes_Bytes)
  then show "Stream_Bytes s = (Val (big_Bytes i), s1) \<Longrightarrow> decode f TBig s = (Val (RBig (Some i)), s1)" for s s1
    using z by (simp add: decodeBigInt_def)
qed (use assms in simp_all)

lemma byteArray_reads_back:
  assumes "length b = n" "n \<noteq> 1" "length (rlp (RBytes b)) < 2 ^ 64"
  shows "reads_back f (TByteArray n) (RBytes b)"
  unfolding reads_back_def
proof (intro allI impI)
  fix s rest assume s: "ready (rlp (RBytes b)) rest s"
  have l: "length b < 2 ^ 64" using assms(3) length_string_le [of b] by simp
  have n: "\<not> (length b = 1 \<and> unat (b ! 0) < 128)" using assms by simp
  obtain h s1 where s1: "recognised KString (length b) h s s1" "length (rlp_string b) = h + length b"
    "s_r s1 = b @ rest" "room (length b) s1"
    using string_ahead [OF _ _ _ l n, of s rest] s by (auto simp: ready_def)
  then show "\<exists>s1. decode f (TByteArray n) s = (Val (RBytes b), s1) \<and> fed (length (rlp (RBytes b))) s s1"
    using feed_fed [OF s1(1), of "length b"] assms
    by (auto simp: decodeByteArray_def recognised_Kind [OF s1(1)] readFull_feed)
qed

lemma optPtr_nil:
  assumes "rlp (RNilPtr k) @ rest = s_r s" "ready (rlp (RNilPtr k)) rest s"
  shows "\<exists>s1. decode f (TOptPtr k t) s = (Val (RNilPtr k), s1) \<and> fed (length (rlp (RNilPtr k))) s s1"
proof -
  let ?kd = "case k of NilByteArray \<Rightarrow> KString | NilStruct \<Rightarrow> KList"
  have "s_r s = puthead (fst (tag_of ?kd)) (snd (tag_of ?kd)) 0 @ rest"
    using assms by (cases k) (auto simp: tag_of_def puthead_def rlp_list_def)
  moreover have "length (puthead (fst (tag_of ?kd)) (snd (tag_of ?kd)) 0) = 1" by (simp add: puthead_def)
  moreover have "length (rlp (RNilPtr k)) = 1" by (cases k) (simp_all add: rlp_list_def puthead_def)
  ultimately obtain s1 where s1: "recognised ?kd 0 1 s s1"
    using Kind_recognises [of ?kd s 0 rest 1] assms(2) by (auto simp: ready_def split: nil_kind.splits)
  have kd: "?kd \<noteq> KByte" by (cases k) simp_all
  show ?thesis using kind_fed [OF s1] kd \<open>length (rlp (RNilPtr k)) = 1\<close>
    by (auto simp: recognised_Kind [OF s1])
qed

text \<open>A value whose encoding is not empty is not taken for a nil pointer.\<close>

lemma string_kind:
  assumes "s_r s = rlp_string b @ rest" "room (length (rlp_string b)) s" "s_kind s = None" "length b < 2 ^ 64"
    "b \<noteq> []"
  shows "\<exists>k n s1. Stream_Kind s = (Val (k, n), s1) \<and> \<not> (n = 0 \<and> k \<noteq> KByte)"
proof (cases "length b = 1 \<and> unat (b ! 0) < 128")
  case True
  then show ?thesis using byte_ahead [OF assms(1-3)] by (metis recognised_Kind)
next
  case False
  then show ?thesis using string_ahead [OF assms(1-4) False] assms(5) by (metis recognised_Kind length_0_conv)
qed

lemma list_kind:
  assumes "s_r s = rlp_list p @ rest" "room (length (rlp_list p)) s" "s_kind s = None" "length p < 2 ^ 64" "p \<noteq> []"
  shows "\<exists>k n s1. Stream_Kind s = (Val (k, n), s1) \<and> \<not> (n = 0 \<and> k \<noteq> KByte)"
proof -
  let ?h = "length (puthead (fst (tag_of KList)) (snd (tag_of KList)) (length p))"
  have "s_r s = puthead (fst (tag_of KList)) (snd (tag_of KList)) (length p) @ (p @ rest)"
    using assms(1) by (simp only: rlp_list_tag append_assoc)
  moreover have "length (rlp_list p) = ?h + length p" by (simp only: rlp_list_tag length_append)
  ultimately obtain s1 where "recognised KList (length p) ?h s s1"
    using Kind_recognises [of KList s "length p" "p @ rest" ?h] assms(2-4) by auto
  then show ?thesis using assms(5) recognised_Kind by fastforce
qed

text \<open>The encoding of a value that has a type is one string or one list.\<close>

lemma rlp_shape: "has_type t v \<Longrightarrow> decodable t \<Longrightarrow> (\<exists>b. rlp v = rlp_string b) \<or> (\<exists>p. rlp v = rlp_list p)"
proof (induction t arbitrary: v)
  case TBool
  have "\<exists>b. [0x80] = rlp_string b" by (rule exI [of _ "[]"]) simp
  with TBool show ?case by (auto split: rval.splits)
next
  case (TOptPtr k t)
  have "\<exists>b. [0x80] = rlp_string b" by (rule exI [of _ "[]"]) simp
  with TOptPtr show ?case by (cases k) auto
next
  case TIface
  then show ?case by (cases v) auto
qed (auto split: rval.splits option.splits)

lemma not_nil_kind:
  assumes "has_type t v" "decodable t" "rlp v \<notin> {[0x80], [0xC0]}" "ready (rlp v) rest s" "length (rlp v) < 2 ^ 64"
  obtains k n s1 where "Stream_Kind s = (Val (k, n), s1)" "\<not> (n = 0 \<and> k \<noteq> KByte)"
proof -
  have "\<exists>k n s1. Stream_Kind s = (Val (k, n), s1) \<and> \<not> (n = 0 \<and> k \<noteq> KByte)"
    using rlp_shape [OF assms(1,2)]
  proof (elim disjE exE)
    fix b assume b: "rlp v = rlp_string b"
    then have "b \<noteq> []" "length b < 2 ^ 64" using assms(3,5) length_string_le [of b] by auto
    with b show ?thesis using string_kind [of s b rest] assms(4) by (simp add: ready_def)
  next
    fix p assume p: "rlp v = rlp_list p"
    then have "p \<noteq> []" "length p < 2 ^ 64" using assms(3,5) by (auto simp: rlp_list_def puthead_def)
    with p show ?thesis using list_kind [of s p rest] assms(4) by (simp add: ready_def)
  qed
  then show thesis using that by auto
qed

text \<open>The list of values, each of which is read back.\<close>

lemma read_back_all:
  assumes "\<And>v. v \<in> set vs \<Longrightarrow> length (rlp v) < 2 ^ 64 \<Longrightarrow> (\<forall>f. reads_back f t v)" "list_all (has_type t) vs"
    "decodable t" "length (concat (map rlp vs)) < 2 ^ 64"
  shows "\<forall>v \<in> set vs. (\<forall>f. reads_back f t v) \<and> rlp v \<noteq> []"
proof
  fix v assume v: "v \<in> set vs"
  have "length (rlp v) \<le> length (concat (map rlp vs))"
    using v by (auto simp: length_concat intro!: member_le_sum_list)
  then show "(\<forall>f. reads_back f t v) \<and> rlp v \<noteq> []"
    using assms v rlp_nonempty [of t v] by (auto simp: list_all_iff)
qed

definition tail_reads_back :: "nat \<Rightarrow> rtyp \<Rightarrow> rval \<Rightarrow> bool" where
  "tail_reads_back f t v \<longleftrightarrow> (\<forall>s rest pos ps. ready (rlp v) rest s \<longrightarrow>
     s_stack s = (pos, pos + length (rlp v)) # ps \<longrightarrow> 2 * length (rlp v) < f \<longrightarrow>
     (\<exists>s1. decode f t s = (Val v, s1) \<and> fed (length (rlp v)) s s1))"

definition fields_read_back :: "nat \<Rightarrow> rtyp list \<Rightarrow> rval list \<Rightarrow> bool" where
  "fields_read_back f ts vs \<longleftrightarrow> (\<forall>s rest pos ps. ready (concat (map rlp vs)) rest s \<longrightarrow>
     s_stack s = (pos, pos + length (concat (map rlp vs))) # ps \<longrightarrow> 2 * length (concat (map rlp vs)) < f \<longrightarrow>
     (\<exists>s1. decode_fields f ts s = (Val vs, s1) \<and> fed (length (concat (map rlp vs))) s s1))"

lemma struct_reads_back:
  assumes "fields_read_back f ts vs" "length (rlp (RStruct vs)) < 2 ^ 64"
  shows "reads_back f (TStruct ts) (RStruct vs)"
  unfolding reads_back_def
proof (intro allI impI)
  let ?p = "concat (map rlp vs)"
  fix s rest assume s: "ready (rlp (RStruct vs)) rest s" "2 * length (rlp (RStruct vs)) \<le> f"
  have "\<exists>s3. dbind (map_err wrapStreamError (Stream_List s)) (\<lambda>n s1. dbind (decode_fields f ts s1) (\<lambda>vs s2.
      dbind (map_err wrapStreamError (Stream_ListEnd s2)) (\<lambda>_ s3. (Val (RStruct vs), s3)))) = (Val (RStruct vs), s3) \<and>
      fed (length (rlp_list ?p)) s s3"
  proof (rule list_ok(2))
    show "ready (rlp_list ?p) rest s" "length ?p < 2 ^ 64" using assms(2) s by (simp_all add: rlp_list_def)
    fix h s1 assume s1: "ready ?p rest s1" "s_stack s1 = (0, length ?p) # bump h (s_stack s)"
      "length (rlp_list ?p) = h + length ?p" "0 < h"
    then have "2 * length ?p < f" using s(2) by simp
    then show "\<exists>s2. decode_fields f ts s1 = (Val vs, s2) \<and> fed (length ?p) s1 s2"
      using assms(1) s1(1,2) by (auto simp: fields_read_back_def)
  qed
  then show "\<exists>s1. decode f (TStruct ts) s = (Val (RStruct vs), s1) \<and> fed (length (rlp (RStruct vs))) s s1" by simp
qed

lemma array_reads_back:
  assumes "\<forall>v \<in> set vs. (\<forall>f. reads_back f t v) \<and> rlp v \<noteq> []" "length (rlp (RSlice vs)) < 2 ^ 64"
  shows "reads_back f (TArray (length vs) t) (RSlice vs)"
  unfolding reads_back_def
proof (intro allI impI)
  let ?p = "concat (map rlp vs)" and ?n = "length vs"
  fix s rest assume s: "ready (rlp (RSlice vs)) rest s" "2 * length (rlp (RSlice vs)) \<le> f"
  have "\<exists>s3. dbind (map_err wrapStreamError (Stream_List s)) (\<lambda>n s1. dbind (decode_array f ?n t s1) (\<lambda>vs s2.
      dbind (map_err wrapStreamError (Stream_ListEnd s2)) (\<lambda>_ s3. (Val (RSlice vs), s3)))) = (Val (RSlice vs), s3) \<and>
      fed (length (rlp_list ?p)) s s3"
  proof (rule list_ok(2))
    show "ready (rlp_list ?p) rest s" "length ?p < 2 ^ 64" using assms(2) s by (simp_all add: rlp_list_def)
    fix h s1 assume s1: "ready ?p rest s1" "length (rlp_list ?p) = h + length ?p" "0 < h"
    then have "2 * length ?p < f" using s(2) by simp
    then show "\<exists>s2. decode_array f ?n t s1 = (Val vs, s2) \<and> fed (length ?p) s1 s2"
      by (rule array_ok [OF assms(1) s1(1)])
  qed
  then show "\<exists>s1. decode f (TArray ?n t) s = (Val (RSlice vs), s1) \<and> fed (length (rlp (RSlice vs))) s s1" by simp
qed

lemma fields_Cons_reads_back:
  assumes "reads_back f t v" "fields_read_back f ts vs"
  shows "fields_read_back f (t # ts) (v # vs)"
  unfolding fields_read_back_def
proof (intro allI impI)
  fix s rest pos ps assume s: "ready (concat (map rlp (v # vs))) rest s"
    "s_stack s = (pos, pos + length (concat (map rlp (v # vs)))) # ps" "2 * length (concat (map rlp (v # vs))) < f"
  have r: "ready (rlp v @ concat (map rlp vs)) rest s" using s(1) by simp
  obtain s1 where s1: "decode f t s = (Val v, s1)" "fed (length (rlp v)) s s1"
    using reads_backD [OF assms(1) ready_append [OF r]] s(3) by auto
  have "s_stack s1 = (pos + length (rlp v), pos + length (rlp v) + length (concat (map rlp vs))) # ps"
    using s1(2) s(2) by (simp add: fed_def same_def)
  then obtain s2 where "decode_fields f ts s1 = (Val vs, s2)" "fed (length (concat (map rlp vs))) s1 s2"
    using assms(2) ready_after [OF r s1(2)] s(3) by (fastforce simp: fields_read_back_def)
  then show "\<exists>s1. decode_fields f (t # ts) s = (Val (v # vs), s1) \<and> fed (length (concat (map rlp (v # vs)))) s s1"
    using s1 fed_fed [OF s1(2)] by auto
qed

lemma decode_rlp:
  shows "(decodable t \<longrightarrow> has_type t v \<longrightarrow> length (rlp v) < 2 ^ 64 \<longrightarrow> (\<forall>f. reads_back f t v)) \<and>
      (\<forall>u. t = TTail u \<longrightarrow> decodable u \<longrightarrow> has_type t v \<longrightarrow> length (rlp v) < 2 ^ 64 \<longrightarrow> (\<forall>f. tail_reads_back f t v))"
    and "fields_decodable ts \<longrightarrow> fields_typed ts vs \<longrightarrow> length (concat (map rlp vs)) < 2 ^ 64 \<longrightarrow>
      (\<forall>f. fields_read_back f ts vs)"
proof (induction t v and ts vs rule: has_type_fields_typed.induct)
  case (2 bits v)
  then show ?case by (simp add: uint_reads_back)
next
  case (3 v)
  then show ?case by (cases v) (simp_all add: bool_reads_back)
next
  case (4 v)
  then show ?case by (cases v) (auto simp: big_reads_back split: option.splits)
next
  case (5 v)
  show ?case by (cases v) (auto intro!: string_reads_back simp: decodeByteSlice_def)
next
  case (6 n v)
  then show ?case by (cases v) (auto intro!: byteArray_reads_back)
next
  case (7 v)
  show ?case by (cases v) (auto intro!: string_reads_back simp: decodeString_def string_bytes_back)
next
  case (8 t v)
  show ?case
  proof (cases v)
    case (RSlice vs)
    { assume t: "decodable t" "has_type (TSlice t) v" "length (rlp v) < 2 ^ 64"
      then have "\<forall>v \<in> set vs. (\<forall>f. reads_back f t v) \<and> rlp v \<noteq> []"
        using 8 RSlice by (intro read_back_all) (auto simp: rlp_list_def list_all_iff)
      then have "reads_back f (TSlice t) v" for f
        using slice_ok [OF t(1)] t(3) RSlice by (auto simp: reads_back_def) }
    then show ?thesis by simp
  qed simp_all
next
  case (9 n t v)
  show ?case
  proof (cases v)
    case (RSlice vs)
    { assume t: "decodable t" "has_type (TArray n t) v" "length (rlp v) < 2 ^ 64"
      then have "\<forall>v \<in> set vs. (\<forall>f. reads_back f t v) \<and> rlp v \<noteq> []"
        using 9 RSlice by (intro read_back_all) (auto simp: rlp_list_def list_all_iff)
      then have "reads_back f (TArray n t) v" for f
        using array_reads_back [of vs t f] t RSlice by simp }
    then show ?thesis by simp
  qed simp_all
next
  case (10 t v)
  show ?case
  proof (cases v)
    case (RTail vs)
    { assume t: "decodable t" "has_type (TTail t) v" "length (rlp v) < 2 ^ 64"
      then have "\<forall>v \<in> set vs. (\<forall>f. reads_back f t v) \<and> rlp v \<noteq> []"
        using 10 RTail by (intro read_back_all) (auto simp: list_all_iff)
      then have "tail_reads_back f (TTail t) v" for f
        using elems_ok [OF t(1)] RTail by (fastforce simp: tail_reads_back_def) }
    then show ?thesis by simp
  qed simp_all
next
  case (11 ts v)
  then show ?case by (cases v) (auto intro!: struct_reads_back simp: rlp_list_def)
next
  case (12 t v)
  then show ?case by (simp add: reads_back_def)
next
  case (13 k t v)
  { fix f s rest
    assume t: "decodable t" "has_type (TOptPtr k t) v" "length (rlp v) < 2 ^ 64"
      and s: "ready (rlp v) rest s" "2 * length (rlp v) \<le> f"
    have "\<exists>s1. decode f (TOptPtr k t) s = (Val v, s1) \<and> fed (length (rlp v)) s s1"
    proof (cases "v = RNilPtr k")
      case True
      with optPtr_nil [of k rest s f t] s(1) show ?thesis by (simp add: ready_def)
    next
      case False
      with t have v: "has_type t v" "rlp v \<notin> {[0x80], [0xC0]}" by simp_all
      obtain kd n s1 where K: "Stream_Kind s = (Val (kd, n), s1)" "\<not> (n = 0 \<and> kd \<noteq> KByte)"
        using not_nil_kind [OF v(1) t(1) v(2) s(1) t(3)] .
      have "decode f (TOptPtr k t) s = decode f t s"
        using K decode_after_Kind [OF K(1) t(1)] by auto
      with 13 t v s show ?thesis by (auto simp: reads_back_def)
    qed }
  then show ?case by (auto simp: reads_back_def)
next
  case (14 v)
  then show ?case by (simp add: iface_reads_back)
next
  case (15 vs)
  then show ?case by (auto simp: fields_read_back_def ready_def)
next
  case (16 t ts vs)
  show ?case
  proof (cases vs)
    case (Cons v ws)
    { fix f
      assume a: "fields_decodable (t # ts)" "fields_typed (t # ts) vs" "length (concat (map rlp vs)) < 2 ^ 64"
      have ty: "has_type t v" "fields_typed ts ws" "length (rlp v) < 2 ^ 64" "length (concat (map rlp ws)) < 2 ^ 64"
        using a(2,3) Cons by simp_all
      consider u where "t = TTail u" "ts = []" "decodable u" | "decodable t" "fields_decodable ts"
        using a(1) by (cases t; cases ts) auto
      then have "fields_read_back f (t # ts) vs"
      proof cases
        case 1
        then have "tail_reads_back f t v" using 16(1) [OF Cons] ty by simp
        with 1 ty(2) Cons show ?thesis by (fastforce simp: tail_reads_back_def fields_read_back_def)
      next
        case 2
        then show ?thesis
          using 16 [OF Cons] ty Cons by (simp add: fields_Cons_reads_back)
      qed }
    then show ?thesis by simp
  qed simp
qed simp

lemma iface_encodable: "iface v \<Longrightarrow> encodable v"
  by (induction v rule: iface.induct) (auto simp: list_all_iff)

lemma has_type_encodable: "has_type t v \<Longrightarrow> encodable v" "fields_typed ts vs \<Longrightarrow> list_all encodable vs"
proof (induction t v and ts vs rule: has_type_fields_typed.induct)
  case (2 bits v)
  then show ?case by (cases v) (auto elim: less_le_trans)
qed (auto simp: list_all_iff iface_encodable split: rval.splits option.splits list.splits)

lemma DecodeBytes_back:
  assumes "decodable t" "has_type t v" "length (rlp v) < 2 ^ 64"
  shows "EncodeToBytes v = Ok (rlp v)" "DecodeBytes t (rlp v) = Val v"
proof -
  let ?b = "rlp v"
  let ?s = "NewStream ?b (length ?b)"
  have "ready ?b [] ?s" by (auto simp: ready_def NewStream_def room_def)
  then obtain s1 where "decode (2 * length ?b + 2) t ?s = (Val v, s1)" "fed (length ?b) ?s s1"
    using reads_backD [of "2 * length ?b + 2" t v "[]" ?s] decode_rlp(1) [of t v] assms by auto
  then show "DecodeBytes t ?b = Val v" by (simp add: DecodeBytes_def fed_def same_def NewStream_def)
  show "EncodeToBytes v = Ok ?b"
    by (rule EncodeToBytes_rlp) (use assms has_type_encodable(1) in auto)
qed



end
