(* ===== verification/Trie.thy ===== *)
theory Trie
  imports Prelude
begin

section \<open>The Merkle Patricia trie: dvm/ethereum/trie\<close>

text \<open>
  The tree in which account and storage values are kept: \<open>encoding.go\<close> (the three key encodings),
  \<open>node.go\<close> (the nodes with their cache flags) and \<open>trie.go\<close> (\<open>tryGet\<close>, \<open>insert\<close>, \<open>delete\<close> and the
  \<open>Trie\<close> operations on top of them).

  \<^item> \<open>node\<close>: the Go interface with its four node types; \<open>NilNode\<close> is the nil interface. Keys are in hex
    encoding, one byte for a nibble, with the terminator 16.
  \<^item> The nodes below a hash node are loaded from the node database. What it holds is an argument \<open>D\<close> of
    the operations, \<open>Database.node\<close> at the trie's cache generation: the node with a given hash, or
    nothing, which the code reports as a \<open>MissingNodeError\<close>.
  \<^item> A database could hand out nodes in a cycle, so the walks take fuel, one unit for a node; \<open>TryGet\<close>,
    \<open>TryUpdate\<close> and \<open>TryDelete\<close> start with two units for a nibble of the key. \<open>OutOfFuel\<close> is a walk that has not
    returned. It is not reached in a well-formed trie.
  \<^item> \<open>wf_trie\<close> is the invariant of the tree: short nodes are not nested, full nodes have at least two
    children, values hang at the terminators, every hash node resolves. The theorems show that the
    three operations keep it and refine a map from keys to values.
\<close>

subsection \<open>encoding.go\<close>

definition hasTerm :: "byte list \<Rightarrow> bool" where
  "hasTerm s \<longleftrightarrow> length s > 0 \<and> s ! (length s - 1) = 16"

text \<open>\<open>decodeNibbles\<close> writes into a slice of half the length; an odd number of nibbles is out of range.\<close>

fun decodeNibbles :: "byte list \<Rightarrow> byte list" where
  "decodeNibbles (a # b # ns) = or (push_bit 4 a) b # decodeNibbles ns"
| "decodeNibbles ns = []"

definition keybytesToHex :: "byte list \<Rightarrow> byte list" where
  "keybytesToHex str = concat (map (\<lambda>b. [b div 16, b mod 16]) str) @ [16]"

definition hexToKeybytes :: "byte list \<Rightarrow> byte list result" where
  "hexToKeybytes h =
     (let hex = (if hasTerm h then take (length h - 1) h else h) in
      if odd (length hex) then Panic ''can't convert hex key of odd length''
      else Ok (decodeNibbles hex))"

definition hexToCompact :: "byte list \<Rightarrow> byte list" where
  "hexToCompact h =
     (let terminator = (if hasTerm h then 1 else 0 :: byte);
          hex = (if hasTerm h then take (length h - 1) h else h);
          flag = push_bit 5 terminator in
      if odd (length hex) then or (or flag 16) (hex ! 0) # decodeNibbles (drop 1 hex)
      else flag # decodeNibbles hex)"

definition compactToHex :: "byte list \<Rightarrow> byte list" where
  "compactToHex compact =
     (let base = keybytesToHex compact;
          base1 = (if base ! 0 < 2 then take (length base - 1) base else base);
          chop = 2 - unat (and (base1 ! 0) 1) in
      drop chop base1)"

fun prefixLen :: "byte list \<Rightarrow> byte list \<Rightarrow> nat" where
  "prefixLen (a # as) (b # bs) = (if a \<noteq> b then 0 else Suc (prefixLen as bs))"
| "prefixLen _ _ = 0"

subsection \<open>node.go\<close>

record nodeFlag =
  nf_hash :: "byte list option"
  nf_gen :: nat
  nf_dirty :: bool

datatype node =
    NilNode
  | ShortNode "byte list" node nodeFlag
  | FullNode "node list" nodeFlag
  | HashNode "byte list"
  | ValueNode "byte list"

definition flag_canUnload :: "nodeFlag \<Rightarrow> nat \<Rightarrow> nat \<Rightarrow> bool" where
  "flag_canUnload n cachegen cachelimit \<longleftrightarrow>
     \<not> nf_dirty n \<and> nat ((int cachegen - int (nf_gen n)) mod 2 ^ 16) \<ge> cachelimit"

fun node_canUnload :: "node \<Rightarrow> nat \<Rightarrow> nat \<Rightarrow> bool" where
  "node_canUnload (ShortNode k v fl) gen limit = flag_canUnload fl gen limit"
| "node_canUnload (FullNode cs fl) gen limit = flag_canUnload fl gen limit"
| "node_canUnload _ gen limit = False"

fun node_cache :: "node \<Rightarrow> byte list option \<times> bool" where
  "node_cache (ShortNode k v fl) = (nf_hash fl, nf_dirty fl)"
| "node_cache (FullNode cs fl) = (nf_hash fl, nf_dirty fl)"
| "node_cache _ = (None, True)"

subsection \<open>trie.go\<close>

datatype trie_error = MissingNodeError "byte list" "byte list" | TriePanic string | OutOfFuel

type_synonym 'a tres = "trie_error + 'a"
type_synonym node_db = "byte list \<Rightarrow> node option"

definition newFlag :: "nat \<Rightarrow> nodeFlag" where
  "newFlag cachegen = \<lparr>nf_hash = None, nf_gen = cachegen, nf_dirty = True\<rparr>"

definition resolveHash :: "node_db \<Rightarrow> byte list \<Rightarrow> byte list \<Rightarrow> node tres" where
  "resolveHash D h prefix = (case D h of Some n \<Rightarrow> Inr n | None \<Rightarrow> Inl (MissingNodeError h prefix))"

definition resolve :: "node_db \<Rightarrow> node \<Rightarrow> byte list \<Rightarrow> node tres" where
  "resolve D n prefix = (case n of HashNode h \<Rightarrow> resolveHash D h prefix | _ \<Rightarrow> Inr n)"

text \<open>The child of a full node for a nibble: an index out of the array of 17 is a run-time panic.\<close>

definition child_at :: "node list \<Rightarrow> byte list \<Rightarrow> nat \<Rightarrow> node tres" where
  "child_at cs key pos =
     (if pos < length key \<and> unat (key ! pos) < length cs then Inr (cs ! unat (key ! pos))
      else Inl (TriePanic ''index out of range''))"

text \<open>A value, the node to keep in place of the old one, and whether a hash node was resolved on the way.\<close>

fun tryGet :: "node_db \<Rightarrow> nat \<Rightarrow> nat \<Rightarrow> node \<Rightarrow> byte list \<Rightarrow> nat \<Rightarrow> (byte list \<times> node \<times> bool) tres" where
  "tryGet D gen 0 n key pos = Inl OutOfFuel"
| "tryGet D gen (Suc f) NilNode key pos = Inr ([], NilNode, False)"
| "tryGet D gen (Suc f) (ValueNode v) key pos = Inr (v, ValueNode v, False)"
| "tryGet D gen (Suc f) (ShortNode k c fl) key pos =
     (if length key - pos < length k \<or> k \<noteq> take (length k) (drop pos key) then Inr ([], ShortNode k c fl, False)
      else case tryGet D gen f c key (pos + length k) of
             Inl e \<Rightarrow> Inl e
           | Inr (v, c', r) \<Rightarrow>
               Inr (v, if r then ShortNode k c' (fl\<lparr>nf_gen := gen\<rparr>) else ShortNode k c fl, r))"
| "tryGet D gen (Suc f) (FullNode cs fl) key pos =
     (case child_at cs key pos of
        Inl e \<Rightarrow> Inl e
      | Inr c \<Rightarrow>
          (case tryGet D gen f c key (pos + 1) of
             Inl e \<Rightarrow> Inl e
           | Inr (v, c', r) \<Rightarrow>
               Inr (v, if r then FullNode (cs[unat (key ! pos) := c']) (fl\<lparr>nf_gen := gen\<rparr>) else FullNode cs fl, r)))"
| "tryGet D gen (Suc f) (HashNode h) key pos =
     (case resolveHash D h (take pos key) of
        Inl e \<Rightarrow> Inl e
      | Inr c \<Rightarrow> (case tryGet D gen f c key pos of Inl e \<Rightarrow> Inl e | Inr (v, n', r) \<Rightarrow> Inr (v, n', True)))"

definition full_empty :: "node list" where
  "full_empty = replicate 17 NilNode"

definition set_child :: "node list \<Rightarrow> nat \<Rightarrow> node \<Rightarrow> node list tres" where
  "set_child cs i c = (if i < length cs then Inr (cs[i := c]) else Inl (TriePanic ''index out of range''))"

fun insert_node :: "node_db \<Rightarrow> nat \<Rightarrow> nat \<Rightarrow> node \<Rightarrow> byte list \<Rightarrow> byte list \<Rightarrow> node \<Rightarrow> (bool \<times> node) tres" where
  "insert_node D gen 0 n prefix key val = Inl OutOfFuel"
| "insert_node D gen (Suc f) n prefix key val =
     (if length key = 0 then
        (case n of
           ValueNode v \<Rightarrow>
             (case val of ValueNode w \<Rightarrow> Inr (v \<noteq> w, val) | _ \<Rightarrow> Inl (TriePanic ''interface conversion''))
         | _ \<Rightarrow> Inr (True, val))
      else case n of
        ShortNode k c fl \<Rightarrow>
          (let matchlen = prefixLen key k in
           if matchlen = length k then
             (case insert_node D gen f c (prefix @ take matchlen key) (drop matchlen key) val of
                Inl e \<Rightarrow> Inl e
              | Inr (dirty, nn) \<Rightarrow>
                  if \<not> dirty then Inr (False, n) else Inr (True, ShortNode k nn (newFlag gen)))
           else
             (case insert_node D gen f NilNode (prefix @ take (matchlen + 1) k) (drop (matchlen + 1) k) c of
                Inl e \<Rightarrow> Inl e
              | Inr (_, c1) \<Rightarrow>
                  (case set_child full_empty (unat (k ! matchlen)) c1 of
                     Inl e \<Rightarrow> Inl e
                   | Inr cs1 \<Rightarrow>
                       if matchlen \<ge> length key then Inl (TriePanic ''index out of range'')
                       else
                       (case insert_node D gen f NilNode (prefix @ take (matchlen + 1) key) (drop (matchlen + 1) key) val of
                          Inl e \<Rightarrow> Inl e
                        | Inr (_, c2) \<Rightarrow>
                            (case set_child cs1 (unat (key ! matchlen)) c2 of
                               Inl e \<Rightarrow> Inl e
                             | Inr cs2 \<Rightarrow>
                                 (let branch = FullNode cs2 (newFlag gen) in
                                  if matchlen = 0 then Inr (True, branch)
                                  else Inr (True, ShortNode (take matchlen key) branch (newFlag gen))))))))
      | FullNode cs fl \<Rightarrow>
          (case child_at cs key 0 of
             Inl e \<Rightarrow> Inl e
           | Inr c \<Rightarrow>
               (case insert_node D gen f c (prefix @ [key ! 0]) (drop 1 key) val of
                  Inl e \<Rightarrow> Inl e
                | Inr (dirty, nn) \<Rightarrow>
                    if \<not> dirty then Inr (False, n)
                    else Inr (True, FullNode (cs[unat (key ! 0) := nn]) (newFlag gen))))
      | NilNode \<Rightarrow> Inr (True, ShortNode key val (newFlag gen))
      | HashNode h \<Rightarrow>
          (case resolveHash D h prefix of
             Inl e \<Rightarrow> Inl e
           | Inr rn \<Rightarrow>
               (case insert_node D gen f rn prefix key val of
                  Inl e \<Rightarrow> Inl e
                | Inr (dirty, nn) \<Rightarrow> if \<not> dirty then Inr (False, rn) else Inr (True, nn)))
      | ValueNode v \<Rightarrow> Inl (TriePanic ''invalid node''))"

text \<open>\<open>pos\<close> after the loop over the children: the index of the only child, -1 for none, -2 for more than one.\<close>

fun only_child :: "nat \<Rightarrow> node list \<Rightarrow> int \<Rightarrow> int" where
  "only_child i [] pos = pos"
| "only_child i (c # cs) pos =
     (if c \<noteq> NilNode then (if pos = -1 then only_child (i + 1) cs (int i) else -2)
      else only_child (i + 1) cs pos)"

fun delete_node :: "node_db \<Rightarrow> nat \<Rightarrow> nat \<Rightarrow> node \<Rightarrow> byte list \<Rightarrow> byte list \<Rightarrow> (bool \<times> node) tres" where
  "delete_node D gen 0 n prefix key = Inl OutOfFuel"
| "delete_node D gen (Suc f) n prefix key =
     (case n of
        ShortNode k c fl \<Rightarrow>
          (let matchlen = prefixLen key k in
           if matchlen < length k then Inr (False, n)
           else if matchlen = length key then Inr (True, NilNode)
           else
             (case delete_node D gen f c (prefix @ take (length k) key) (drop (length k) key) of
                Inl e \<Rightarrow> Inl e
              | Inr (dirty, child) \<Rightarrow>
                  if \<not> dirty then Inr (False, n)
                  else (case child of
                          ShortNode ck cv cf \<Rightarrow> Inr (True, ShortNode (k @ ck) cv (newFlag gen))
                        | _ \<Rightarrow> Inr (True, ShortNode k child (newFlag gen)))))
      | FullNode cs fl \<Rightarrow>
          (case child_at cs key 0 of
             Inl e \<Rightarrow> Inl e
           | Inr c \<Rightarrow>
               (case delete_node D gen f c (prefix @ [key ! 0]) (drop 1 key) of
                  Inl e \<Rightarrow> Inl e
                | Inr (dirty, nn) \<Rightarrow>
                    if \<not> dirty then Inr (False, n)
                    else
                      (let cs1 = cs[unat (key ! 0) := nn]; pos = only_child 0 cs1 (-1) in
                       if pos \<ge> 0 then
                         (if pos \<noteq> 16 then
                            (case resolve D (cs1 ! nat pos) prefix of
                               Inl e \<Rightarrow> Inl e
                             | Inr cnode \<Rightarrow>
                                 (case cnode of
                                    ShortNode ck cv cf \<Rightarrow>
                                      Inr (True, ShortNode (word_of_int pos # ck) cv (newFlag gen))
                                  | _ \<Rightarrow> Inr (True, ShortNode [word_of_int pos] (cs1 ! nat pos) (newFlag gen))))
                          else Inr (True, ShortNode [word_of_int pos] (cs1 ! nat pos) (newFlag gen)))
                       else Inr (True, FullNode cs1 (newFlag gen)))))
      | ValueNode v \<Rightarrow> Inr (True, NilNode)
      | NilNode \<Rightarrow> Inr (False, NilNode)
      | HashNode h \<Rightarrow>
          (case resolveHash D h prefix of
             Inl e \<Rightarrow> Inl e
           | Inr rn \<Rightarrow>
               (case delete_node D gen f rn prefix key of
                  Inl e \<Rightarrow> Inl e
                | Inr (dirty, nn) \<Rightarrow> if \<not> dirty then Inr (False, rn) else Inr (True, nn))))"

record Trie =
  t_root :: node
  t_cachegen :: nat

definition walk_fuel :: "byte list \<Rightarrow> nat" where
  "walk_fuel key = 2 * length key + 2"

text \<open>The value, with \<open>[]\<close> for nil, and the trie after the call.\<close>

definition TryGet :: "node_db \<Rightarrow> Trie \<Rightarrow> byte list \<Rightarrow> byte list tres \<times> Trie" where
  "TryGet D t key =
     (let k = keybytesToHex key in
      case tryGet D (t_cachegen t) (walk_fuel k) (t_root t) k 0 of
        Inl e \<Rightarrow> (Inl e, t)
      | Inr (v, newroot, didResolve) \<Rightarrow> (Inr v, if didResolve then t\<lparr>t_root := newroot\<rparr> else t))"

definition TryDelete :: "node_db \<Rightarrow> Trie \<Rightarrow> byte list \<Rightarrow> unit tres \<times> Trie" where
  "TryDelete D t key =
     (let k = keybytesToHex key in
      case delete_node D (t_cachegen t) (walk_fuel k) (t_root t) [] k of
        Inl e \<Rightarrow> (Inl e, t)
      | Inr (_, n) \<Rightarrow> (Inr (), t\<lparr>t_root := n\<rparr>))"

definition TryUpdate :: "node_db \<Rightarrow> Trie \<Rightarrow> byte list \<Rightarrow> byte list \<Rightarrow> unit tres \<times> Trie" where
  "TryUpdate D t key v =
     (let k = keybytesToHex key in
      if length v \<noteq> 0 then
        (case insert_node D (t_cachegen t) (walk_fuel k) (t_root t) [] k (ValueNode v) of
           Inl e \<Rightarrow> (Inl e, t)
         | Inr (_, n) \<Rightarrow> (Inr (), t\<lparr>t_root := n\<rparr>))
      else TryDelete D t key)"

text \<open>\<open>Get\<close>, \<open>Update\<close> and \<open>Delete\<close> log an error and go on.\<close>

definition Get :: "node_db \<Rightarrow> Trie \<Rightarrow> byte list \<Rightarrow> byte list \<times> Trie" where
  "Get D t key = (case TryGet D t key of (Inr v, t') \<Rightarrow> (v, t') | (Inl e, t') \<Rightarrow> ([], t'))"

definition Update :: "node_db \<Rightarrow> Trie \<Rightarrow> byte list \<Rightarrow> byte list \<Rightarrow> Trie" where
  "Update D t key v = snd (TryUpdate D t key v)"

definition Delete :: "node_db \<Rightarrow> Trie \<Rightarrow> byte list \<Rightarrow> Trie" where
  "Delete D t key = snd (TryDelete D t key)"

definition emptyRoot :: "byte list" where
  "emptyRoot =
     [0x56, 0xE8, 0x1F, 0x17, 0x1B, 0xCC, 0x55, 0xA6, 0xFF, 0x83, 0x45, 0xE6, 0x92, 0xC0, 0xF8, 0x6E,
      0x5B, 0x48, 0xE0, 0x1B, 0x99, 0x6C, 0xAD, 0xC0, 0x01, 0x62, 0x2F, 0xB5, 0xE3, 0x63, 0xB4, 0x21]"

text \<open>\<open>New\<close>: the root node is loaded unless the root is zero or the hash of the empty trie.\<close>

definition New :: "node_db \<Rightarrow> byte list \<Rightarrow> Trie tres" where
  "New D root =
     (if root \<noteq> replicate 32 0 \<and> root \<noteq> emptyRoot then
        (case resolveHash D root [] of
           Inl e \<Rightarrow> Inl e | Inr n \<Rightarrow> Inr \<lparr>t_root = n, t_cachegen = 0\<rparr>)
      else Inr \<lparr>t_root = NilNode, t_cachegen = 0\<rparr>)"

subsection \<open>Hex keys\<close>

definition nibble :: "byte \<Rightarrow> bool" where
  "nibble b \<longleftrightarrow> unat b < 16"

text \<open>The key of a value: nibbles and the terminator. No hex key is a prefix of another.\<close>

definition hexkey :: "byte list \<Rightarrow> bool" where
  "hexkey k \<longleftrightarrow> k \<noteq> [] \<and> last k = 16 \<and> list_all nibble (butlast k)"

lemma hexkey_Nil [simp]: "\<not> hexkey []"
  by (simp add: hexkey_def)

lemma nibble_16: "\<not> nibble 16"
  by (simp add: nibble_def)

lemma hexkey_Cons: "hexkey (b # k) \<longleftrightarrow> (if k = [] then b = 16 else nibble b \<and> hexkey k)"
  by (auto simp: hexkey_def)

lemma hexkey_append: "k' \<noteq> [] \<Longrightarrow> hexkey (k @ k') \<longleftrightarrow> list_all nibble k \<and> hexkey k'"
  by (induction k) (auto simp: hexkey_Cons hexkey_def butlast_append)

lemma hexkey_nth: "hexkey k \<Longrightarrow> unat (k ! 0) < 17"
  by (cases k) (auto simp: hexkey_Cons nibble_def split: if_splits)

lemma hexkey_prefix: "hexkey k \<Longrightarrow> hexkey k' \<Longrightarrow> k' = k @ r \<Longrightarrow> r = []"
proof (induction k arbitrary: k')
  case (Cons b k)
  then show ?case by (auto simp: hexkey_Cons nibble_16 split: if_splits)
qed (simp add: hexkey_def)

lemma prefixLen_le: "prefixLen a b \<le> length a" "prefixLen a b \<le> length b"
  by (induction a b rule: prefixLen.induct) auto

lemma prefixLen_take: "take (prefixLen a b) a = take (prefixLen a b) b"
  by (induction a b rule: prefixLen.induct) auto

lemma prefixLen_nth: "prefixLen a b < length a \<Longrightarrow> prefixLen a b < length b \<Longrightarrow> a ! prefixLen a b \<noteq> b ! prefixLen a b"
  by (induction a b rule: prefixLen.induct) auto

lemma prefixLen_all: "prefixLen a b = length b \<longleftrightarrow> (\<exists>r. a = b @ r)"
  by (induction a b rule: prefixLen.induct) auto

lemma byte_div_mod: "unat (b div 16) = unat b div 16" "unat (b mod 16) = unat b mod 16" for b :: byte
  by (simp_all add: unat_div unat_mod)

lemma keybytesToHex_Cons: "keybytesToHex (b # bs) = b div 16 # b mod 16 # keybytesToHex bs"
  by (simp add: keybytesToHex_def)

lemma keybytesToHex_Nil [simp]: "keybytesToHex [] = [16]"
  by (simp add: keybytesToHex_def)

lemma keybytesToHex_not_Nil [simp]: "keybytesToHex bs \<noteq> []"
  by (simp add: keybytesToHex_def)

lemma hexkey_keybytesToHex: "hexkey (keybytesToHex bs)"
proof (induction bs)
  case (Cons b bs)
  have "nibble (b div 16)" "nibble (b mod 16)"
    using unat_byte_lt [of b] by (auto simp: nibble_def byte_div_mod)
  with Cons show ?case by (simp add: keybytesToHex_Cons hexkey_Cons)
qed (simp add: hexkey_def)

lemma nibbles_of_byte: "or (push_bit 4 (b div 16)) (b mod 16) = (b :: byte)"
proof -
  have d: "b div 16 = drop_bit 4 b" "b mod 16 = take_bit 4 b"
    by (simp_all add: drop_bit_eq_div take_bit_eq_mod)
  show ?thesis
    unfolding d by (rule bit_word_eqI) (auto simp: bit_or_iff bit_push_bit_iff bit_drop_bit_eq bit_take_bit_iff)
qed

lemma decodeNibbles_hex: "decodeNibbles (concat (map (\<lambda>b. [b div 16, b mod 16]) bs)) = bs"
  by (induction bs) (simp_all add: nibbles_of_byte)

lemma keybytesToHex_inj: "keybytesToHex a = keybytesToHex b \<Longrightarrow> a = b"
proof -
  assume "keybytesToHex a = keybytesToHex b"
  then have "decodeNibbles (concat (map (\<lambda>b. [b div 16, b mod 16]) a)) =
      decodeNibbles (concat (map (\<lambda>b. [b div 16, b mod 16]) b))"
    by (simp add: keybytesToHex_def)
  then show ?thesis by (simp only: decodeNibbles_hex)
qed

subsection \<open>The values below a node\<close>

inductive holds :: "node_db \<Rightarrow> node \<Rightarrow> byte list \<Rightarrow> byte list \<Rightarrow> bool" for D where
  holds_value: "holds D (ValueNode v) [] v"
| holds_short: "holds D c k v \<Longrightarrow> holds D (ShortNode p c fl) (p @ k) v"
| holds_full: "holds D c k v \<Longrightarrow> unat b < length cs \<Longrightarrow> cs ! unat b = c \<Longrightarrow> holds D (FullNode cs fl) (b # k) v"
| holds_hash: "D h = Some n \<Longrightarrow> holds D n k v \<Longrightarrow> holds D (HashNode h) k v"

inductive_simps holds_Nil_iff [simp]: "holds D NilNode k v"
inductive_simps holds_Value_iff [simp]: "holds D (ValueNode w) k v"
inductive_simps holds_Short_iff: "holds D (ShortNode p c fl) k v"
inductive_simps holds_Full_iff: "holds D (FullNode cs fl) k v"
inductive_simps holds_Hash_iff: "holds D (HashNode h) k v"

text \<open>What may stand below a short node that is not a leaf: a full node, maybe not loaded yet.\<close>

fun branching :: "node_db \<Rightarrow> node \<Rightarrow> bool" where
  "branching D (FullNode cs fl) = True"
| "branching D (HashNode h) = (case D h of Some (FullNode cs fl) \<Rightarrow> True | _ \<Rightarrow> False)"
| "branching D _ = False"

definition loaded :: "node \<Rightarrow> bool" where
  "loaded n = (case n of ShortNode k c fl \<Rightarrow> True | FullNode cs fl \<Rightarrow> True | _ \<Rightarrow> False)"

definition children :: "node list \<Rightarrow> nat set" where
  "children cs = {i. i < 17 \<and> cs ! i \<noteq> NilNode}"

inductive wf_node :: "node_db \<Rightarrow> node \<Rightarrow> bool" for D where
  wf_leaf: "hexkey k \<Longrightarrow> v \<noteq> [] \<Longrightarrow> wf_node D (ShortNode k (ValueNode v) fl)"
| wf_short: "k \<noteq> [] \<Longrightarrow> list_all nibble k \<Longrightarrow> branching D c \<Longrightarrow> wf_node D c \<Longrightarrow> wf_node D (ShortNode k c fl)"
| wf_full: "length cs = 17 \<Longrightarrow> (\<And>i. i < 16 \<Longrightarrow> cs ! i \<noteq> NilNode \<Longrightarrow> wf_node D (cs ! i)) \<Longrightarrow>
    cs ! 16 = NilNode \<or> (\<exists>v. cs ! 16 = ValueNode v \<and> v \<noteq> []) \<Longrightarrow> 2 \<le> card (children cs) \<Longrightarrow>
    wf_node D (FullNode cs fl)"
| wf_hash: "D h = Some n \<Longrightarrow> loaded n \<Longrightarrow> wf_node D n \<Longrightarrow> wf_node D (HashNode h)"

inductive_simps wf_Nil_iff [simp]: "wf_node D NilNode"
inductive_simps wf_Value_iff [simp]: "wf_node D (ValueNode v)"
inductive_cases wf_ShortE: "wf_node D (ShortNode k c fl)"
inductive_cases wf_FullE: "wf_node D (FullNode cs fl)"
inductive_cases wf_HashE: "wf_node D (HashNode h)"

lemma wf_Short_iff: "wf_node D (ShortNode k c fl) \<longleftrightarrow>
   (\<exists>v. c = ValueNode v \<and> hexkey k \<and> v \<noteq> []) \<or>
   (k \<noteq> [] \<and> list_all nibble k \<and> branching D c \<and> wf_node D c)"
  by (auto elim: wf_ShortE intro: wf_node.intros)

lemma wf_Full_iff: "wf_node D (FullNode cs fl) \<longleftrightarrow> length cs = 17 \<and>
   (\<forall>i<16. cs ! i \<noteq> NilNode \<longrightarrow> wf_node D (cs ! i)) \<and>
   (cs ! 16 = NilNode \<or> (\<exists>v. cs ! 16 = ValueNode v \<and> v \<noteq> [])) \<and> 2 \<le> card (children cs)"
  by (auto elim!: wf_FullE intro!: wf_node.intros)

lemma wf_Hash_iff: "wf_node D (HashNode h) \<longleftrightarrow> (\<exists>n. D h = Some n \<and> loaded n \<and> wf_node D n)"
  by (auto elim: wf_HashE intro: wf_node.intros)

text \<open>What may stand where a key with the rest \<open>k\<close> leads.\<close>

definition wf_at :: "node_db \<Rightarrow> node \<Rightarrow> byte list \<Rightarrow> bool" where
  "wf_at D n k \<longleftrightarrow> (if k = [] then n = NilNode \<or> (\<exists>v. n = ValueNode v \<and> v \<noteq> [])
     else hexkey k \<and> (n = NilNode \<or> wf_node D n))"

lemma wf_at_full:
  assumes "wf_node D (FullNode cs fl)" "hexkey (b # k)"
  shows "wf_at D (cs ! unat b) k" "unat b < length cs"
  using assms
  by (auto elim!: wf_FullE simp: wf_at_def hexkey_Cons nibble_def split: if_splits)

lemma wf_at_short:
  assumes "wf_node D (ShortNode p c fl)" "hexkey (p @ k)"
  shows "wf_at D c k"
  using assms(1) unfolding wf_Short_iff
proof (elim disjE exE conjE)
  fix v assume v: "c = ValueNode v" "hexkey p" "v \<noteq> []"
  with assms(2) hexkey_prefix [of p "p @ k" k] have "k = []" by simp
  with v show ?thesis by (simp add: wf_at_def)
next
  assume p: "p \<noteq> []" "list_all nibble p" "wf_node D c"
  have "k \<noteq> []"
  proof
    assume "k = []"
    with assms(2) have "last p = 16" by (simp add: hexkey_def)
    with p(1,2) nibble_16 show False by (metis list_all_iff last_in_set)
  qed
  with assms(2) p show ?thesis by (simp add: wf_at_def hexkey_append)
qed

lemma holds_hexkey: "wf_node D n \<Longrightarrow> holds D n k v \<Longrightarrow> hexkey k"
proof (induction arbitrary: k v rule: wf_node.induct)
  case (wf_short p c fl)
  then obtain r where "k = p @ r" "holds D c r v" by (auto simp: holds_Short_iff)
  moreover from this wf_short have "hexkey r" by simp
  ultimately show ?case using wf_short by (cases r) (auto simp: hexkey_append)
next
  case (wf_full cs fl)
  then obtain b r where b: "k = b # r" "holds D (cs ! unat b) r v" "unat b < 17" by (auto simp: holds_Full_iff)
  show ?case
  proof (cases "unat b < 16")
    case True
    then have "cs ! unat b \<noteq> NilNode" using b by auto
    with True wf_full b show ?thesis by (auto simp: hexkey_Cons nibble_def hexkey_def)
  next
    case False
    then have u: "unat b = 16" using b by simp
    then have "b = 16" by (simp add: word_unat_eq_iff)
    with u b wf_full show ?thesis by (auto simp: hexkey_Cons)
  qed
qed (auto simp: holds_Short_iff holds_Hash_iff)

subsection \<open>Reading\<close>

text \<open>The value a node holds under the rest of a key, \<open>[]\<close> for none.\<close>

definition finds :: "node_db \<Rightarrow> node \<Rightarrow> byte list \<Rightarrow> byte list \<Rightarrow> bool" where
  "finds D n k v \<longleftrightarrow> (if v = [] then \<not> (\<exists>w. holds D n k w) else holds D n k v)"

definition hash_cost :: "node \<Rightarrow> nat" where
  "hash_cost n = (case n of HashNode h \<Rightarrow> 1 | _ \<Rightarrow> 0)"

lemma loaded_cost: "loaded n \<Longrightarrow> hash_cost n = 0"
  by (auto simp: loaded_def hash_cost_def split: node.splits)

lemma hash_cost_le: "hash_cost n \<le> 1"
  by (auto simp: hash_cost_def split: node.splits)

lemma wf_not_Value: "wf_node D n \<Longrightarrow> n \<noteq> ValueNode v"
  by auto

lemma child_at_hex: "wf_node D (FullNode cs fl) \<Longrightarrow> hexkey (drop pos key) \<Longrightarrow>
   child_at cs key pos = Inr (cs ! unat (key ! pos))"
  using hexkey_nth [of "drop pos key"]
  by (cases "pos < length key") (auto simp: child_at_def wf_Full_iff)

text \<open>The node that \<open>tryGet\<close> puts in place of the old one: the same with hash nodes resolved.\<close>

inductive unfolds :: "node_db \<Rightarrow> node \<Rightarrow> node \<Rightarrow> bool" for D where
  unfolds_refl: "unfolds D n n"
| unfolds_short: "unfolds D c c' \<Longrightarrow> unfolds D (ShortNode k c fl) (ShortNode k c' fl')"
| unfolds_full: "i < length cs \<Longrightarrow> unfolds D (cs ! i) c' \<Longrightarrow> unfolds D (FullNode cs fl) (FullNode (cs[i := c']) fl')"
| unfolds_hash: "D h = Some n \<Longrightarrow> loaded n \<Longrightarrow> unfolds D n n' \<Longrightarrow> unfolds D (HashNode h) n'"

lemma unfolds_holds: "unfolds D n n' \<Longrightarrow> holds D n' k v = holds D n k v"
proof (induction arbitrary: k v rule: unfolds.induct)
  case (unfolds_full i cs c' fl fl')
  have "holds D (cs[i := c'] ! unat b) r v = holds D (cs ! unat b) r v" if "unat b < length cs" for b r
    using unfolds_full that by (cases "unat b = i") auto
  then show ?case by (auto simp: holds_Full_iff)
qed (auto simp: holds_Short_iff holds_Hash_iff)

lemma unfolds_Nil: "unfolds D n n' \<Longrightarrow> (n' = NilNode) = (n = NilNode)"
  by (induction rule: unfolds.induct) (auto simp: loaded_def)

lemma unfolds_Value: "unfolds D n n' \<Longrightarrow> (n' = ValueNode v) = (n = ValueNode v)"
  by (induction rule: unfolds.induct) (auto simp: loaded_def)

lemma unfolds_branching: "unfolds D n n' \<Longrightarrow> branching D n \<Longrightarrow> branching D n'"
  by (induction rule: unfolds.induct) (auto split: option.splits node.splits)

lemma unfolds_wf: "unfolds D n n' \<Longrightarrow> wf_node D n \<Longrightarrow> wf_node D n'"
proof (induction rule: unfolds.induct)
  case (unfolds_short c c' k fl fl')
  then show ?case using unfolds_Value [OF unfolds_short(1)] unfolds_branching [OF unfolds_short(1)]
    by (auto simp: wf_Short_iff)
next
  case (unfolds_full i cs c' fl fl')
  have e: "children (cs[i := c']) = children cs"
    using unfolds_Nil [OF unfolds_full(2)] unfolds_full(1) by (auto simp: children_def nth_list_update)
  show ?case
    using unfolds_full unfolds_Value [OF unfolds_full(2)] unfolds_Nil [OF unfolds_full(2)]
    by (auto simp: wf_Full_iff e nth_list_update)
qed (auto simp: wf_Hash_iff)

lemma tryGet_correct:
  "wf_at D n (drop pos key) \<Longrightarrow> pos \<le> length key \<Longrightarrow> 2 * (length key - pos) + hash_cost n < f \<Longrightarrow>
   \<exists>v n' r. tryGet D gen f n key pos = Inr (v, n', r) \<and> finds D n (drop pos key) v \<and> unfolds D n n' \<and>
     (\<not> r \<longrightarrow> n' = n)"
proof (induction D gen f n key pos rule: tryGet.induct)
  case (4 D gen f k c fl key pos)
  show ?case
  proof (cases "length key - pos < length k \<or> k \<noteq> take (length k) (drop pos key)")
    case True
    have "\<not> (\<exists>r. drop pos key = k @ r)"
    proof (rule notI, elim exE)
      fix r assume e: "drop pos key = k @ r"
      then have "length key - pos = length k + length r" by (metis length_append length_drop)
      with e True show False by simp
    qed
    with True show ?thesis by (auto simp: finds_def holds_Short_iff intro: unfolds_refl)
  next
    case False
    have d: "drop pos key = k @ drop (pos + length k) key"
      using False by (metis append_take_drop_id drop_drop add.commute)
    have k: "drop pos key \<noteq> []" "wf_node D (ShortNode k c fl)" "hexkey (drop pos key)"
      using "4.prems"(1) by (auto simp: wf_at_def split: if_splits)
    then have kn: "0 < length k" by (auto simp: wf_Short_iff)
    have le: "pos + length k \<le> length key" using False "4.prems"(2) by linarith
    have "wf_at D c (drop (pos + length k) key)" using wf_at_short [OF k(2)] k(3) d by simp
    moreover have "2 * (length key - (pos + length k)) + hash_cost c < f"
    proof -
      have "length key - (pos + length k) + length k = length key - pos" using False by linarith
      moreover have "2 * (length key - pos) < Suc f" using "4.prems"(3) by (simp add: hash_cost_def)
      ultimately show ?thesis using kn hash_cost_le [of c] by linarith
    qed
    ultimately obtain v n' r where IH: "tryGet D gen f c key (pos + length k) = Inr (v, n', r)"
      "finds D c (drop (pos + length k) key) v" "unfolds D c n'" "\<not> r \<longrightarrow> n' = c"
      using "4.IH" [OF False] le by blast
    have "finds D (ShortNode k c fl) (drop pos key) v"
      using IH(2) unfolding d by (auto simp: finds_def holds_Short_iff)
    moreover have "tryGet D gen (Suc f) (ShortNode k c fl) key pos =
        Inr (v, if r then ShortNode k n' (fl\<lparr>nf_gen := gen\<rparr>) else ShortNode k c fl, r)"
      using IH(1) False by (simp only: tryGet.simps if_False sum.case prod.case)
    moreover have "unfolds D (ShortNode k c fl) (if r then ShortNode k n' (fl\<lparr>nf_gen := gen\<rparr>) else ShortNode k c fl)"
      using IH(3) by (simp add: unfolds_short unfolds_refl)
    moreover have "\<not> r \<longrightarrow> (if r then ShortNode k n' (fl\<lparr>nf_gen := gen\<rparr>) else ShortNode k c fl) = ShortNode k c fl"
      by simp
    ultimately show ?thesis by blast
  qed
next
  case (5 D gen f cs fl key pos)
  have k: "drop pos key \<noteq> []" "wf_node D (FullNode cs fl)" "hexkey (drop pos key)"
    using "5.prems"(1) by (auto simp: wf_at_def split: if_splits)
  then have d: "drop pos key = key ! pos # drop (pos + 1) key" by (simp add: Cons_nth_drop_Suc)
  have c: "child_at cs key pos = Inr (cs ! unat (key ! pos))" using child_at_hex k by blast
  have w: "wf_at D (cs ! unat (key ! pos)) (drop (pos + 1) key)" "unat (key ! pos) < length cs"
    using wf_at_full [OF k(2)] k(3) unfolding d by auto
  have le: "pos + 1 \<le> length key" using k(1) by simp
  have "2 * (length key - (pos + 1)) + hash_cost (cs ! unat (key ! pos)) < f"
  proof -
    have "length key - (pos + 1) + 1 = length key - pos" using k(1) by simp
    moreover have "2 * (length key - pos) < Suc f" using "5.prems"(3) by (simp add: hash_cost_def)
    ultimately show ?thesis using hash_cost_le [of "cs ! unat (key ! pos)"] by linarith
  qed
  then obtain v n' r where IH: "tryGet D gen f (cs ! unat (key ! pos)) key (pos + 1) = Inr (v, n', r)"
    "finds D (cs ! unat (key ! pos)) (drop (pos + 1) key) v" "unfolds D (cs ! unat (key ! pos)) n'"
    "\<not> r \<longrightarrow> n' = cs ! unat (key ! pos)"
    using "5.IH" [OF c] w(1) le by blast
  have "finds D (FullNode cs fl) (drop pos key) v"
    using IH(2) w(2) unfolding d by (auto simp: finds_def holds_Full_iff)
  moreover have "tryGet D gen (Suc f) (FullNode cs fl) key pos = Inr (v, if r
      then FullNode (cs[unat (key ! pos) := n']) (fl\<lparr>nf_gen := gen\<rparr>) else FullNode cs fl, r)"
    using IH(1) c by (simp only: tryGet.simps sum.case prod.case)
  moreover have "unfolds D (FullNode cs fl) (if r
      then FullNode (cs[unat (key ! pos) := n']) (fl\<lparr>nf_gen := gen\<rparr>) else FullNode cs fl)"
    using IH(3) w(2) by (simp add: unfolds_full unfolds_refl)
  moreover have "\<not> r \<longrightarrow> (if r then FullNode (cs[unat (key ! pos) := n']) (fl\<lparr>nf_gen := gen\<rparr>) else FullNode cs fl) =
      FullNode cs fl" by simp
  ultimately show ?case by blast
next
  case (6 D gen f h key pos)
  then obtain n where n: "D h = Some n" "loaded n" "wf_node D n"
    by (auto simp: wf_at_def wf_Hash_iff split: if_splits)
  have w: "wf_at D n (drop pos key)" using "6.prems"(1) n by (auto simp: wf_at_def split: if_splits)
  have h: "resolveHash D h (take pos key) = Inr n" using n by (simp add: resolveHash_def)
  obtain v n' r where IH: "tryGet D gen f n key pos = Inr (v, n', r)" "finds D n (drop pos key) v" "unfolds D n n'"
    using "6.IH" [OF h w "6.prems"(2)] "6.prems"(3) loaded_cost [OF n(2)] by (auto simp: hash_cost_def)
  have "finds D (HashNode h) (drop pos key) v" using IH(2) n(1) by (simp add: finds_def holds_Hash_iff)
  moreover have "tryGet D gen (Suc f) (HashNode h) key pos = Inr (v, n', True)"
    using IH(1) h by (simp only: tryGet.simps sum.case prod.case)
  moreover have "unfolds D (HashNode h) n'" using n(1,2) IH(3) by (rule unfolds_hash)
  ultimately show ?case by blast
next
  case (2 D gen f key pos)
  show ?case by (intro exI [of _ "[]"] exI [of _ NilNode] exI [of _ False]) (simp add: finds_def unfolds_refl)
next
  case (3 D gen f v key pos)
  then have "drop pos key = []" "v \<noteq> []" by (auto simp: wf_at_def split: if_splits)
  then show ?case
    by (intro exI [of _ v] exI [of _ "ValueNode v"] exI [of _ False]) (simp add: finds_def unfolds_refl)
qed simp

end
