(* ===== verification/Trie_Map.thy ===== *)
theory Trie_Map
  imports Trie
begin

section \<open>The trie refines a map: dvm/ethereum/trie/trie.go\<close>

text \<open>
  Insertion and deletion in the Merkle Patricia trie, and what the trie is: \<open>contents\<close> is the map from keys
  to values it stands for. It is shown that the operations, with all
  their splitting and merging of nodes and the loading of nodes from the database, are the operations of
  that map, that they keep \<open>wf_trie\<close> and that the fuel of the walks is enough. The locale \<open>value_map\<close> states
  what the users of a trie rely on and is interpreted on it. Last, the encodings of keys are inverse.
\<close>

subsection \<open>Inserting\<close>

definition ok_child :: "node_db \<Rightarrow> nat \<Rightarrow> node \<Rightarrow> bool" where
  "ok_child D i c \<longleftrightarrow> c = NilNode \<or> (if i < 16 then wf_node D c else \<exists>v. c = ValueNode v \<and> v \<noteq> [])"

lemma wf_Full_children: "wf_node D (FullNode cs fl) \<longleftrightarrow> length cs = 17 \<and> (\<forall>i<17. ok_child D i (cs ! i)) \<and> 2 \<le> card (children cs)"
proof -
  have "(\<forall>i<17. P i) \<longleftrightarrow> (\<forall>i<16. P i) \<and> P 16" for P :: "nat \<Rightarrow> bool"
    using All_less_Suc [of 16 P] by (simp add: conj_commute)
  from this [of "\<lambda>i. ok_child D i (cs ! i)"] show ?thesis by (auto simp: wf_Full_iff ok_child_def)
qed

lemma unat_16: "unat b = 16 \<longleftrightarrow> b = (16 :: byte)"
  by (simp add: word_unat_eq_iff)

lemma wf_at_child: "hexkey (b # r) \<Longrightarrow> wf_at D c r \<longleftrightarrow> ok_child D (unat b) c"
  by (auto simp: wf_at_def ok_child_def hexkey_Cons nibble_def)

lemma children_update:
  "length cs = 17 \<Longrightarrow> i < 17 \<Longrightarrow> c \<noteq> NilNode \<Longrightarrow> children (cs[i := c]) = insert i (children cs)"
  by (auto simp: children_def nth_list_update)

lemma finite_children [simp]: "finite (children cs)"
  by (simp add: children_def)

lemma wf_Full_update:
  assumes "wf_node D (FullNode cs fl)" "i < 17" "ok_child D i c" "c \<noteq> NilNode"
  shows "wf_node D (FullNode (cs[i := c]) fl')"
proof -
  have "card (children cs) \<le> card (insert i (children cs))" by (rule card_mono) auto
  then show ?thesis
    using assms children_update [of cs i c] by (auto simp: wf_Full_children nth_list_update)
qed

lemma insert_Nil: "insert_node D gen (Suc f) NilNode prefix key val =
   Inr (True, if key = [] then val else ShortNode key val (newFlag gen))"
  by simp

text \<open>The rest of a short node below a new branch.\<close>

definition rest_node :: "byte list \<Rightarrow> node \<Rightarrow> nodeFlag \<Rightarrow> node" where
  "rest_node r c fl = (if r = [] then c else ShortNode r c fl)"

lemma holds_rest: "holds D (rest_node r c fl) x w \<longleftrightarrow> (\<exists>y. x = r @ y \<and> holds D c y w)"
  by (auto simp: rest_node_def holds_Short_iff)

lemma rest_ok:
  assumes "wf_node D (ShortNode k c fl)" "m < length k"
  shows "ok_child D (unat (k ! m)) (rest_node (drop (Suc m) k) c fl')" "unat (k ! m) < 17"
    "rest_node (drop (Suc m) k) c fl' \<noteq> NilNode"
proof -
  have k: "k = take m k @ k ! m # drop (Suc m) k" using assms(2) by (simp add: id_take_nth_drop)
  have "ok_child D (unat (k ! m)) (rest_node (drop (Suc m) k) c fl') \<and> unat (k ! m) < 17 \<and>
    rest_node (drop (Suc m) k) c fl' \<noteq> NilNode"
    using assms(1) unfolding wf_Short_iff
  proof (elim disjE exE conjE)
    fix v assume v: "c = ValueNode v" "hexkey k" "v \<noteq> []"
    have h: "hexkey (k ! m # drop (Suc m) k)" using v(2) k hexkey_append [of "k ! m # drop (Suc m) k" "take m k"] by simp
    have "wf_at D (rest_node (drop (Suc m) k) c fl') (drop (Suc m) k)"
      using v h by (auto simp: wf_at_def rest_node_def wf_Short_iff hexkey_Cons split: if_splits)
    then show ?thesis using wf_at_child [OF h] hexkey_nth [OF h] v by (auto simp: rest_node_def)
  next
    assume p: "k \<noteq> []" "list_all nibble k" "branching D c" "wf_node D c"
    have "list_all nibble (take m k @ k ! m # drop (Suc m) k)" using p(2) k by simp
    then have "nibble (k ! m)" "list_all nibble (drop (Suc m) k)" by simp_all
    then show ?thesis using p by (auto simp: ok_child_def nibble_def rest_node_def wf_Short_iff)
  qed
  then show "ok_child D (unat (k ! m)) (rest_node (drop (Suc m) k) c fl')" "unat (k ! m) < 17"
    "rest_node (drop (Suc m) k) c fl' \<noteq> NilNode" by auto
qed

lemma short_no_prefix:
  assumes "wf_node D (ShortNode k c fl)" "hexkey key" "prefixLen key k < length k"
  shows "prefixLen key k < length key"
proof (rule ccontr)
  assume "\<not> ?thesis"
  then have m: "prefixLen key k = length key" using prefixLen_le(1) [of key k] by simp
  have t: "take (prefixLen key k) key = take (prefixLen key k) k" by (rule prefixLen_take)
  have k: "k = key @ drop (length key) k" using t m by (metis append_take_drop_id take_all order_refl)
  show False using assms(1) unfolding wf_Short_iff
  proof (elim disjE exE conjE)
    assume "hexkey k"
    with hexkey_prefix [OF assms(2) this k] show False using assms(3) m by simp
  next
    assume "list_all nibble k"
    then have "list_all nibble (key @ drop (length key) k)" using k by simp
    then have "list_all nibble key" by simp
    with assms(2) nibble_16 show False by (metis hexkey_def last_in_set list_all_iff)
  qed
qed

text \<open>The new full node where the keys part.\<close>

lemma branch_wf:
  assumes "i < 17" "j < 17" "i \<noteq> j" "ok_child D i c1" "ok_child D j c2" "c1 \<noteq> NilNode" "c2 \<noteq> NilNode"
  shows "wf_node D (FullNode (full_empty[i := c1, j := c2]) fl)"
proof -
  have "children (full_empty[i := c1, j := c2]) = {i, j}"
    using assms by (auto simp: children_def full_empty_def nth_list_update)
  then show ?thesis using assms
    by (auto simp: wf_Full_children full_empty_def nth_list_update ok_child_def)
qed

lemma length_full_empty [simp]: "length full_empty = 17"
  by (simp add: full_empty_def)

lemma branch_holds:
  assumes "unat a \<noteq> unat b" "unat a < 17" "unat b < 17"
  shows "holds D (FullNode (full_empty[unat a := c1, unat b := c2]) fl) x w \<longleftrightarrow>
     (\<exists>y. x = a # y \<and> holds D c1 y w) \<or> (\<exists>y. x = b # y \<and> holds D c2 y w)"
proof -
  have n: "full_empty[unat a := c1, unat b := c2] ! unat d =
      (if d = b then c2 else if d = a then c1 else NilNode)" if "unat d < 17" for d
    using that assms by (auto simp: full_empty_def nth_list_update word_unat_eq_iff)
  show ?thesis
    using assms by (auto simp: holds_Full_iff n length_full_empty split: if_splits)
qed

definition inserted :: "node_db \<Rightarrow> node \<Rightarrow> node \<Rightarrow> byte list \<Rightarrow> byte list \<Rightarrow> bool" where
  "inserted D n n' key v \<longleftrightarrow> wf_at D n' key \<and> n' \<noteq> NilNode \<and> (branching D n \<longrightarrow> branching D n') \<and>
     (\<forall>k w. holds D n' k w \<longleftrightarrow> (if k = key then w = v else holds D n k w))"

lemma short_wf_branch:
  "list_all nibble p \<Longrightarrow> wf_node D (FullNode cs fl) \<Longrightarrow> p \<noteq> [] \<Longrightarrow> wf_node D (ShortNode p (FullNode cs fl) fl')"
  by (simp add: wf_Short_iff)

lemma insert_short_split:
  assumes "wf_node D (ShortNode k c fl)" "hexkey key" "prefixLen key k < length k" "v \<noteq> []"
  shows "\<exists>n'. insert_node D gen (Suc (Suc f)) (ShortNode k c fl) prefix key (ValueNode v) = Inr (True, n') \<and>
     inserted D (ShortNode k c fl) n' key v"
proof -
  let ?m = "prefixLen key k" and ?fl = "newFlag gen"
  have m: "?m < length key" using short_no_prefix [OF assms(1-3)] .
  have kk: "k = take ?m key @ k ! ?m # drop (Suc ?m) k"
    using assms(3) prefixLen_take [of key k] by (simp add: id_take_nth_drop)
  have ke: "key = take ?m key @ key ! ?m # drop (Suc ?m) key" using m by (simp add: id_take_nth_drop)
  define c1 where "c1 = rest_node (drop (Suc ?m) k) c ?fl"
  define c2 where "c2 = rest_node (drop (Suc ?m) key) (ValueNode v) ?fl"
  have l: "wf_node D (ShortNode key (ValueNode v) ?fl)" using assms(2,4) by (simp add: wf_Short_iff)
  have o1: "ok_child D (unat (k ! ?m)) c1" "unat (k ! ?m) < 17" "c1 \<noteq> NilNode"
    using rest_ok [OF assms(1,3)] by (auto simp: c1_def)
  have o2: "ok_child D (unat (key ! ?m)) c2" "unat (key ! ?m) < 17" "c2 \<noteq> NilNode"
    using rest_ok [OF l m] by (auto simp: c2_def)
  have ne: "unat (k ! ?m) \<noteq> unat (key ! ?m)"
    using prefixLen_nth [OF m assms(3)] by (simp add: word_unat_eq_iff)
  define branch where "branch = FullNode (full_empty[unat (k ! ?m) := c1, unat (key ! ?m) := c2]) ?fl"
  define n' where "n' = (if ?m = 0 then branch else ShortNode (take ?m key) branch ?fl)"
  have i1: "insert_node D gen (Suc f) NilNode (prefix @ take (Suc ?m) k) (drop (Suc ?m) k) c = Inr (True, c1)"
    by (simp add: insert_Nil c1_def rest_node_def del: insert_node.simps)
  have i2: "insert_node D gen (Suc f) NilNode (prefix @ take (Suc ?m) key) (drop (Suc ?m) key) (ValueNode v) = Inr (True, c2)"
    by (simp add: insert_Nil c2_def rest_node_def del: insert_node.simps)
  have "insert_node D gen (Suc (Suc f)) (ShortNode k c fl) prefix key (ValueNode v) = Inr (True, n')"
    using m assms(3) i1 i2 o1(2) o2(2)
    by (subst insert_node.simps(2)) (auto simp: Let_def set_child_def full_empty_def n'_def branch_def simp del: insert_node.simps)
  moreover have "wf_node D branch" unfolding branch_def using o1 o2 ne by (intro branch_wf)
  moreover have "list_all nibble (take ?m key)"
  proof -
    have "hexkey (take ?m key @ key ! ?m # drop (Suc ?m) key)" using assms(2) ke by simp
    then show ?thesis by (subst (asm) hexkey_append) simp_all
  qed
  moreover have "holds D n' x w \<longleftrightarrow> (if x = key then w = v else holds D (ShortNode k c fl) x w)" for x w
  proof -
    have b: "holds D branch y w \<longleftrightarrow> (\<exists>z. y = k ! ?m # drop (Suc ?m) k @ z \<and> holds D c z w) \<or>
        y = key ! ?m # drop (Suc ?m) key \<and> w = v" for y
      unfolding branch_def branch_holds [OF ne o1(2) o2(2)] c1_def c2_def holds_rest by auto
    have "holds D n' x w \<longleftrightarrow> (\<exists>y. x = take ?m key @ y \<and> holds D branch y w)"
      by (auto simp: n'_def holds_Short_iff)
    also have "\<dots> \<longleftrightarrow> (\<exists>z. x = k @ z \<and> holds D c z w) \<or> x = key \<and> w = v"
      unfolding b using kk ke by (metis append.assoc append_Cons)
    also have "\<dots> \<longleftrightarrow> (if x = key then w = v else holds D (ShortNode k c fl) x w)"
    proof -
      have "key \<noteq> k @ z" for z using assms(3) prefixLen_all [of key k] by auto
      then show ?thesis by (auto simp: holds_Short_iff)
    qed
    finally show ?thesis .
  qed
  ultimately show ?thesis using assms(2)
    by (intro exI [of _ n']) (auto simp: inserted_def wf_at_def n'_def branch_def intro!: short_wf_branch)
qed

declare insert_node.simps(2) [simp del] delete_node.simps(2) [simp del]

lemma inserted_short:
  assumes "wf_node D (ShortNode k c fl)" "hexkey (k @ r)" "inserted D c c' r v"
  shows "inserted D (ShortNode k c fl) (ShortNode k c' fl') (k @ r) v"
proof -
  have "wf_node D (ShortNode k c' fl')"
    using assms(1) unfolding wf_Short_iff
  proof (elim disjE exE conjE)
    fix u assume u: "c = ValueNode u" "hexkey k" "u \<noteq> []"
    with assms(2) hexkey_prefix [of k "k @ r" r] have "r = []" by simp
    with assms(3) u show "(\<exists>v. c' = ValueNode v \<and> hexkey k \<and> v \<noteq> []) \<or>
        k \<noteq> [] \<and> list_all nibble k \<and> branching D c' \<and> wf_node D c'"
      by (auto simp: inserted_def wf_at_def)
  next
    assume p: "k \<noteq> []" "list_all nibble k" "branching D c" "wf_node D c"
    have "wf_at D c r" by (rule wf_at_short [OF assms(1,2)])
    then have "r \<noteq> []" using p by (auto simp: wf_at_def)
    with assms(3) p show "(\<exists>v. c' = ValueNode v \<and> hexkey k \<and> v \<noteq> []) \<or>
        k \<noteq> [] \<and> list_all nibble k \<and> branching D c' \<and> wf_node D c'"
      by (auto simp: inserted_def wf_at_def)
  qed
  with assms show ?thesis by (auto simp: inserted_def wf_at_def holds_Short_iff)
qed

lemma inserted_full:
  assumes "wf_node D (FullNode cs fl)" "hexkey (b # r)" "inserted D (cs ! unat b) c' r v"
  shows "inserted D (FullNode cs fl) (FullNode (cs[unat b := c']) fl') (b # r) v"
proof -
  have u: "unat b < 17" using hexkey_nth [OF assms(2)] by simp
  have l: "length cs = 17" using assms(1) by (simp add: wf_Full_iff)
  have "wf_node D (FullNode (cs[unat b := c']) fl')"
    using assms wf_at_child [OF assms(2)] u by (intro wf_Full_update) (auto simp: inserted_def)
  moreover have "holds D (FullNode (cs[unat b := c']) fl') x w \<longleftrightarrow>
      (if x = b # r then w = v else holds D (FullNode cs fl) x w)" for x w
  proof (cases x)
    case (Cons d y)
    have "holds D (cs[unat b := c'] ! unat d) y w \<longleftrightarrow>
        (if d = b \<and> y = r then w = v else holds D (cs ! unat d) y w)" if "unat d < 17"
      using assms(3) u l that by (auto simp: inserted_def nth_list_update word_unat_eq_iff)
    then show ?thesis using u l Cons by (auto simp: holds_Full_iff)
  qed (auto simp: holds_Full_iff)
  ultimately show ?thesis using assms(2) by (auto simp: inserted_def wf_at_def)
qed

lemma inserted_hash:
  assumes "D h = Some n" "loaded n" "inserted D n n' key v"
  shows "inserted D (HashNode h) n' key v"
  using assms by (auto simp: inserted_def holds_Hash_iff split: node.splits)

lemma inserted_hash_self:
  assumes "D h = Some n" "loaded n" "wf_node D n" "hexkey key" "inserted D n n key v"
  shows "inserted D (HashNode h) (HashNode h) key v"
proof -
  have "holds D n key w \<longleftrightarrow> w = v" for w using assms(5) by (metis inserted_def)
  then show ?thesis using assms by (auto simp: inserted_def holds_Hash_iff wf_at_def wf_Hash_iff)
qed

lemma insert_correct:
  "wf_at D n key \<Longrightarrow> v \<noteq> [] \<Longrightarrow> 2 * length key + hash_cost n < f \<Longrightarrow>
   \<exists>dirty n'. insert_node D gen f n prefix key (ValueNode v) = Inr (dirty, n') \<and> inserted D n n' key v \<and>
     (\<not> dirty \<longrightarrow> inserted D n n key v)"
proof (induction f arbitrary: n prefix key)
  case (Suc f)
  show ?case
  proof (cases "key = []")
    case True
    then have "n = NilNode \<or> (\<exists>w. n = ValueNode w \<and> w \<noteq> [])" using Suc.prems(1) by (simp add: wf_at_def)
    with True Suc.prems(2) show ?thesis by (auto simp: inserted_def wf_at_def insert_node.simps(2))
  next
    case False
    then have h: "hexkey key" and w: "n = NilNode \<or> wf_node D n" using Suc.prems(1) by (auto simp: wf_at_def)
    show ?thesis
    proof (cases n)
      case NilNode
      with False h Suc.prems(2) show ?thesis
        by (auto simp: inserted_def wf_at_def wf_Short_iff holds_Short_iff insert_node.simps(2))
    next
      case (ShortNode k c fl)
      then have wn: "wf_node D (ShortNode k c fl)" using w by simp
      show ?thesis
      proof (cases "prefixLen key k = length k")
        case True
        then obtain r where r: "key = k @ r" using prefixLen_all by blast
        have kn: "0 < length k" using wn by (auto simp: wf_Short_iff)
        have "wf_at D c r" using wf_at_short [OF wn] h r by simp
        moreover have "2 * length r + hash_cost c < f"
        proof -
          have "2 * length key < Suc f" using Suc.prems(3) by simp
          then have "2 * length k + 2 * length r < Suc f" using r by simp
          then show ?thesis using kn hash_cost_le [of c] by linarith
        qed
        ultimately obtain dirty c' where IH: "insert_node D gen f c (prefix @ k) r (ValueNode v) = Inr (dirty, c')"
          "inserted D c c' r v" "\<not> dirty \<longrightarrow> inserted D c c r v"
          using Suc.IH [of c r] Suc.prems(2) by blast
        have s: "insert_node D gen (Suc f) n prefix key (ValueNode v) =
            Inr (if dirty then (True, ShortNode k c' (newFlag gen)) else (False, n))"
          using False IH(1) True r ShortNode by (simp add: Let_def insert_node.simps(2))
        have h': "hexkey (k @ r)" using h r by simp
        show ?thesis
          using inserted_short [OF wn h' IH(2), of "newFlag gen"] inserted_short [OF wn h', of c v fl] IH(3) s
          by (cases dirty) (simp add: r ShortNode, blast)+
      next
        case m: False
        then have m': "prefixLen key k < length k" using prefixLen_le(2) [of key k] by simp
        have "0 < length key" using False by simp
        then obtain f' where "f = Suc f'" using Suc.prems(3) by (cases f) auto
        with insert_short_split [OF wn h m' Suc.prems(2)] ShortNode show ?thesis by blast
      qed
    next
      case (FullNode cs fl)
      then have wn: "wf_node D (FullNode cs fl)" using w by simp
      obtain b r where r: "key = b # r" using False by (cases key) auto
      let ?c = "cs ! unat b"
      have "wf_at D ?c r" using wf_at_full [OF wn] h r by simp
      moreover have "2 * length r + hash_cost ?c < f"
        using Suc.prems(3) hash_cost_le [of ?c] r FullNode by (simp add: hash_cost_def)
      ultimately obtain dirty c' where IH: "insert_node D gen f ?c (prefix @ [b]) r (ValueNode v) = Inr (dirty, c')"
        "inserted D ?c c' r v" "\<not> dirty \<longrightarrow> inserted D ?c ?c r v"
        using Suc.IH [of ?c r] Suc.prems(2) by blast
      have c: "child_at cs key 0 = Inr ?c" using child_at_hex [OF wn, of 0 key] h r by simp
      have s: "insert_node D gen (Suc f) n prefix key (ValueNode v) =
          Inr (if dirty then (True, FullNode (cs[unat b := c']) (newFlag gen)) else (False, n))"
        using False IH(1) c r FullNode by (simp add: insert_node.simps(2))
      have h': "hexkey (b # r)" using h r by simp
      show ?thesis
        using inserted_full [OF wn h' IH(2), of "newFlag gen"] inserted_full [OF wn h', of ?c v fl] IH(3) s
        by (cases dirty) (simp add: r FullNode, blast)+
    next
      case (HashNode hh)
      then obtain rn where rn: "D hh = Some rn" "loaded rn" "wf_node D rn" using w by (auto simp: wf_Hash_iff)
      have "wf_at D rn key" using rn h False by (simp add: wf_at_def)
      moreover have "2 * length key + hash_cost rn < f"
        using Suc.prems(3) loaded_cost [OF rn(2)] HashNode by (simp add: hash_cost_def)
      ultimately obtain dirty c' where IH: "insert_node D gen f rn prefix key (ValueNode v) = Inr (dirty, c')"
        "inserted D rn c' key v" "\<not> dirty \<longrightarrow> inserted D rn rn key v"
        using Suc.IH [of rn key] Suc.prems(2) by blast
      have s: "insert_node D gen (Suc f) n prefix key (ValueNode v) =
          Inr (if dirty then (True, c') else (False, rn))"
        using False IH(1) rn HashNode by (simp add: resolveHash_def insert_node.simps(2))
      show ?thesis
        using inserted_hash [where D = D, OF rn(1,2)] inserted_hash_self [where D = D, OF rn h] IH(2,3) s
        by (cases dirty) (simp add: HashNode, blast)+
    qed (use w in auto)
  qed
qed simp

subsection \<open>Deleting\<close>

definition deleted :: "node_db \<Rightarrow> node \<Rightarrow> node \<Rightarrow> byte list \<Rightarrow> bool" where
  "deleted D n n' key \<longleftrightarrow> wf_at D n' key \<and> (branching D n \<longrightarrow> n' \<noteq> NilNode) \<and>
     (\<forall>k w. holds D n' k w \<longleftrightarrow> k \<noteq> key \<and> holds D n k w)"

lemma only_child_more: "p \<noteq> -1 \<Longrightarrow> only_child i cs p = (if \<exists>c \<in> set cs. c \<noteq> NilNode then -2 else p)"
  by (induction cs arbitrary: i) auto

lemma only_child_cases:
  "(only_child i cs (-1) = -1 \<and> (\<forall>j<length cs. cs ! j = NilNode)) \<or>
   (\<exists>j<length cs. only_child i cs (-1) = int (i + j) \<and> cs ! j \<noteq> NilNode \<and> (\<forall>l<length cs. l \<noteq> j \<longrightarrow> cs ! l = NilNode)) \<or>
   (only_child i cs (-1) = -2 \<and> (\<exists>j l. j < l \<and> l < length cs \<and> cs ! j \<noteq> NilNode \<and> cs ! l \<noteq> NilNode))"
proof (induction cs arbitrary: i)
  case (Cons c cs)
  show ?case
  proof (cases "c = NilNode")
    case True
    from Cons [of "Suc i"] show ?thesis
    proof (elim disjE exE conjE)
      fix j assume j: "j < length cs" "only_child (Suc i) cs (-1) = int (Suc i + j)" "cs ! j \<noteq> NilNode"
        "\<forall>l<length cs. l \<noteq> j \<longrightarrow> cs ! l = NilNode"
      then have "\<exists>j'<length (c # cs). only_child i (c # cs) (-1) = int (i + j') \<and> (c # cs) ! j' \<noteq> NilNode \<and>
          (\<forall>l<length (c # cs). l \<noteq> j' \<longrightarrow> (c # cs) ! l = NilNode)"
        using True by (intro exI [of _ "Suc j"]) (auto simp: nth_Cons split: nat.splits)
      then show ?thesis by blast
    next
      fix j l assume "only_child (Suc i) cs (-1) = -2" "j < l" "l < length cs" "cs ! j \<noteq> NilNode" "cs ! l \<noteq> NilNode"
      then have "only_child i (c # cs) (-1) = -2 \<and>
          (\<exists>j l. j < l \<and> l < length (c # cs) \<and> (c # cs) ! j \<noteq> NilNode \<and> (c # cs) ! l \<noteq> NilNode)"
        using True by (intro conjI exI [of _ "Suc j"] exI [of _ "Suc l"]) simp_all
      then show ?thesis by blast
    qed (use True in \<open>auto simp: nth_Cons split: nat.splits\<close>)
  next
    case False
    show ?thesis
    proof (cases "\<exists>d \<in> set cs. d \<noteq> NilNode")
      case True
      then obtain l where "l < length cs" "cs ! l \<noteq> NilNode" by (auto simp: in_set_conv_nth)
      then have "only_child i (c # cs) (-1) = -2 \<and>
          (\<exists>j l. j < l \<and> l < length (c # cs) \<and> (c # cs) ! j \<noteq> NilNode \<and> (c # cs) ! l \<noteq> NilNode)"
        using False True by (intro conjI exI [of _ 0] exI [of _ "Suc l"]) (simp_all add: only_child_more)
      then show ?thesis by blast
    next
      case none: False
      then have "\<forall>l<length cs. cs ! l = NilNode" using nth_mem by blast
      then have "\<exists>j'<length (c # cs). only_child i (c # cs) (-1) = int (i + j') \<and> (c # cs) ! j' \<noteq> NilNode \<and>
          (\<forall>l<length (c # cs). l \<noteq> j' \<longrightarrow> (c # cs) ! l = NilNode)"
        using False none by (intro exI [of _ 0]) (auto simp: nth_Cons only_child_more split: nat.splits)
      then show ?thesis by blast
    qed
  qed
qed simp

lemma deleted_short_none:
  assumes "wf_node D (ShortNode k c fl)" "hexkey key" "prefixLen key k < length k"
  shows "deleted D (ShortNode k c fl) (ShortNode k c fl) key"
proof -
  have "key \<noteq> k @ z" for z using assms(3) prefixLen_all [of key k] by auto
  then show ?thesis using assms by (auto simp: deleted_def wf_at_def holds_Short_iff)
qed

lemma wf_short_join:
  assumes "wf_node D (ShortNode ck cv cf)" "list_all nibble k"
  shows "wf_node D (ShortNode (k @ ck) cv fl)"
proof -
  have "ck \<noteq> []" using assms(1) by (auto simp: wf_Short_iff)
  then show ?thesis using assms by (auto simp: wf_Short_iff hexkey_append)
qed

text \<open>A short node over \<open>c\<close>, merged with it when it is a short node itself.\<close>

definition join :: "byte list \<Rightarrow> node \<Rightarrow> nodeFlag \<Rightarrow> node" where
  "join k c fl = (case c of ShortNode ck cv cf \<Rightarrow> ShortNode (k @ ck) cv fl | _ \<Rightarrow> ShortNode k c fl)"

lemma holds_join: "holds D (join k c fl) x w \<longleftrightarrow> (\<exists>y. x = k @ y \<and> holds D c y w)"
  by (auto simp: join_def holds_Short_iff append.assoc split: node.splits)

lemma join_wf:
  assumes "wf_node D c" "loaded c" "k \<noteq> []" "list_all nibble k"
  shows "wf_node D (join k c fl)"
  using assms wf_short_join [of D _ _ _ k fl]
  by (cases c) (auto simp: join_def loaded_def wf_Short_iff)

lemma loaded_join [simp]: "loaded (join k c fl)" "join k c fl \<noteq> NilNode"
  by (auto simp: join_def loaded_def split: node.splits)

lemma deleted_short:
  assumes "wf_node D (ShortNode k c fl)" "hexkey (k @ r)" "r \<noteq> []" "deleted D c c' r" "loaded c'"
  shows "deleted D (ShortNode k c fl) (join k c' fl') (k @ r)"
proof -
  have "list_all nibble k" using assms(2,3) by (simp add: hexkey_append)
  moreover have "k \<noteq> []" using assms(1) by (auto simp: wf_Short_iff)
  moreover have "wf_node D c'" using assms(3-5) by (auto simp: deleted_def wf_at_def loaded_def)
  ultimately have "wf_node D (join k c' fl')" using assms(5) by (intro join_wf)
  then show ?thesis
    using assms by (auto simp: deleted_def wf_at_def holds_join holds_Short_iff)
qed

lemma deleted_leaf:
  assumes "wf_node D (ShortNode k c fl)" "hexkey k"
  shows "deleted D (ShortNode k c fl) NilNode k" "\<exists>v. c = ValueNode v"
proof -
  show "\<exists>v. c = ValueNode v"
    using assms by (auto simp: wf_Short_iff) (metis hexkey_def last_in_set list_all_iff nibble_16)
  then show "deleted D (ShortNode k c fl) NilNode k"
    using assms(2) by (auto simp: deleted_def wf_at_def holds_Short_iff)
qed

lemma full_holds_update:
  assumes "length cs = 17" "unat b < 17" "deleted D (cs ! unat b) c' r"
  shows "holds D (FullNode (cs[unat b := c']) fl') x w \<longleftrightarrow> x \<noteq> b # r \<and> holds D (FullNode cs fl) x w"
proof (cases x)
  case (Cons d y)
  have "holds D (cs[unat b := c'] ! unat d) y w \<longleftrightarrow>
      \<not> (d = b \<and> y = r) \<and> holds D (cs ! unat d) y w" if "unat d < 17"
    using assms that by (auto simp: deleted_def nth_list_update word_unat_eq_iff)
  then show ?thesis using assms(1,2) Cons by (auto simp: holds_Full_iff)
qed (auto simp: holds_Full_iff)

lemma single_child_holds:
  assumes "length cs = 17" "j < 17" "\<forall>l<17. l \<noteq> j \<longrightarrow> cs ! l = NilNode"
  shows "holds D (FullNode cs fl) x w \<longleftrightarrow> (\<exists>y. x = word_of_nat j # y \<and> holds D (cs ! j) y w)"
proof -
  have u: "unat (word_of_nat j :: byte) = j" using assms(2) by (simp add: unat_of_nat)
  have "holds D (cs ! unat b) y w \<longleftrightarrow> b = word_of_nat j \<and> holds D (cs ! j) y w" if "unat b < 17" for b :: byte and y
  proof -
    have "unat b = j \<longleftrightarrow> b = word_of_nat j" using u by auto
    then show ?thesis using assms(3) that u by (cases "unat b = j") simp_all
  qed
  then show ?thesis using assms(1,2) u by (auto simp: holds_Full_iff)
qed

lemma children_after:
  assumes "wf_node D (FullNode cs fl)" "i < 17"
  shows "children (cs[i := c]) \<noteq> {}" "c \<noteq> NilNode \<Longrightarrow> 2 \<le> card (children (cs[i := c]))"
proof -
  have l: "length cs = 17" "2 \<le> card (children cs)" using assms(1) by (auto simp: wf_Full_iff)
  have "children cs - {i} \<subseteq> children (cs[i := c])"
    using l by (auto simp: children_def nth_list_update)
  then have "card (children cs - {i}) \<le> card (children (cs[i := c]))" by (intro card_mono) auto
  moreover have "1 \<le> card (children cs - {i})" using l(2) by (auto simp: card_Diff_singleton_if)
  ultimately have "1 \<le> card (children (cs[i := c]))" by (rule le_trans [rotated])
  then show "children (cs[i := c]) \<noteq> {}" by (intro notI) simp
  assume "c \<noteq> NilNode"
  then have "children (cs[i := c]) = insert i (children cs)" using children_update l assms(2) by blast
  moreover have "card (children cs) \<le> card (insert i (children cs))" by (rule card_mono) auto
  ultimately show "2 \<le> card (children (cs[i := c]))" using l(2) by simp
qed

text \<open>What \<open>delete\<close> leaves of a full node whose child has been replaced.\<close>

definition collapse :: "node_db \<Rightarrow> nat \<Rightarrow> node list \<Rightarrow> byte list \<Rightarrow> (bool \<times> node) tres" where
  "collapse D gen cs1 prefix =
     (let pos = only_child 0 cs1 (-1) in
      if pos \<ge> 0 then
        (if pos \<noteq> 16 then
           (case resolve D (cs1 ! nat pos) prefix of
              Inl e \<Rightarrow> Inl e
            | Inr cnode \<Rightarrow>
                (case cnode of
                   ShortNode ck cv cf \<Rightarrow> Inr (True, ShortNode (word_of_int pos # ck) cv (newFlag gen))
                 | _ \<Rightarrow> Inr (True, ShortNode [word_of_int pos] (cs1 ! nat pos) (newFlag gen))))
         else Inr (True, ShortNode [word_of_int pos] (cs1 ! nat pos) (newFlag gen)))
      else Inr (True, FullNode cs1 (newFlag gen)))"

lemma collapse_correct:
  assumes "length cs = 17" "\<forall>i<17. ok_child D i (cs ! i)" "children cs \<noteq> {}"
  shows "\<exists>n'. collapse D gen cs prefix = Inr (True, n') \<and> wf_node D n' \<and> loaded n' \<and>
     (\<forall>x w. holds D n' x w \<longleftrightarrow> holds D (FullNode cs fl) x w)"
  using only_child_cases [of 0 cs] unfolding assms(1)
proof (elim disjE exE conjE)
  assume "\<forall>j<17. cs ! j = NilNode"
  then show ?thesis using assms(3) by (auto simp: children_def)
next
  fix j l assume j: "only_child 0 cs (-1) = -2" "j < l" "l < 17" "cs ! j \<noteq> NilNode" "cs ! l \<noteq> NilNode"
  have "{j, l} \<subseteq> children cs" using j by (auto simp: children_def)
  then have "card {j, l} \<le> card (children cs)" by (intro card_mono) auto
  then have "2 \<le> card (children cs)" using j(2) by simp
  then have "wf_node D (FullNode cs (newFlag gen))" using assms by (simp add: wf_Full_children)
  then show ?thesis using j(1) by (auto simp: collapse_def loaded_def holds_Full_iff)
next
  fix j assume j: "j < 17" "only_child 0 cs (-1) = int (0 + j)" "cs ! j \<noteq> NilNode" "\<forall>l<17. l \<noteq> j \<longrightarrow> cs ! l = NilNode"
  let ?b = "word_of_nat j :: byte" and ?c = "cs ! j"
  note H = single_child_holds [OF assms(1) j(1,4), of D fl]
  have ok: "ok_child D j ?c" using assms(2) j(1) by simp
  show ?thesis
  proof (cases "j = 16")
    case True
    then obtain v where v: "?c = ValueNode v" "v \<noteq> []" using ok j(3) by (auto simp: ok_child_def)
    have "wf_node D (ShortNode [?b] ?c (newFlag gen))" using v True by (simp add: wf_Short_iff hexkey_def)
    then show ?thesis using j(2) True H by (auto simp: collapse_def loaded_def holds_Short_iff)
  next
    case False
    then have w: "wf_node D ?c" "j < 16" using ok j(1,3) by (auto simp: ok_child_def)
    have nb: "nibble ?b" using w(2) by (simp add: nibble_def unat_of_nat)
    obtain cn where cn: "resolve D ?c prefix = Inr cn" "wf_node D cn" "loaded cn"
      "\<forall>x w. holds D ?c x w \<longleftrightarrow> holds D cn x w" "\<not> (\<exists>ck cv cf. cn = ShortNode ck cv cf) \<longrightarrow> branching D ?c"
    proof (cases ?c)
      case (HashNode h)
      then obtain n where "D h = Some n" "loaded n" "wf_node D n" using w(1) by (auto simp: wf_Hash_iff)
      then show ?thesis using that [of n] HashNode
        by (auto simp: resolve_def resolveHash_def holds_Hash_iff loaded_def split: node.splits)
    qed (use that [of ?c] w(1) in \<open>auto simp: resolve_def loaded_def\<close>)
    show ?thesis
    proof (cases "\<exists>ck cv cf. cn = ShortNode ck cv cf")
      case True
      then obtain ck cv cf where s: "cn = ShortNode ck cv cf" by blast
      have "wf_node D (ShortNode ([?b] @ ck) cv (newFlag gen))" using cn(2) nb s by (intro wf_short_join) simp_all
      then show ?thesis using j(2) False cn s H by (auto simp: collapse_def loaded_def holds_Short_iff)
    next
      case nos: False
      then have "wf_node D (ShortNode [?b] ?c (newFlag gen))" using cn(5) nb w(1) by (simp add: wf_Short_iff)
      moreover have "collapse D gen cs prefix = Inr (True, ShortNode [?b] ?c (newFlag gen))"
        using j(2) False cn(1) nos by (cases cn) (auto simp: collapse_def Let_def)
      ultimately show ?thesis using H by (auto simp: loaded_def holds_Short_iff)
    qed
  qed
qed

lemma deleted_full:
  assumes "wf_node D (FullNode cs fl)" "hexkey (b # r)" "deleted D (cs ! unat b) c' r"
  shows "\<exists>n'. collapse D gen (cs[unat b := c']) prefix = Inr (True, n') \<and> loaded n' \<and>
     deleted D (FullNode cs fl) n' (b # r)"
proof -
  have u: "unat b < 17" using hexkey_nth [OF assms(2)] by simp
  have l: "length cs = 17" "\<forall>i<17. ok_child D i (cs ! i)" using assms(1) by (auto simp: wf_Full_children)
  have "ok_child D (unat b) c'" using assms(3) wf_at_child [OF assms(2)] by (simp add: deleted_def)
  then have "\<forall>i<17. ok_child D i (cs[unat b := c'] ! i)" using l u by (auto simp: nth_list_update)
  then obtain n' where n': "collapse D gen (cs[unat b := c']) prefix = Inr (True, n')" "wf_node D n'" "loaded n'"
    "\<forall>x w. holds D n' x w \<longleftrightarrow> holds D (FullNode (cs[unat b := c']) fl) x w"
    using collapse_correct [of "cs[unat b := c']" D gen prefix fl] l(1) children_after(1) [OF assms(1) u] by auto
  have "n' \<noteq> NilNode" using n'(3) by (auto simp: loaded_def)
  then have "deleted D (FullNode cs fl) n' (b # r)"
    using n'(2,4) full_holds_update [OF l(1) u assms(3)] assms(2) by (simp add: deleted_def wf_at_def)
  with n' show ?thesis by blast
qed

lemma deleted_hash:
  assumes "D h = Some n" "loaded n" "deleted D n n' key"
  shows "deleted D (HashNode h) n' key"
  using assms by (auto simp: deleted_def holds_Hash_iff split: node.splits)

lemma deleted_self_lift:
  "deleted D c c r \<Longrightarrow> wf_node D (ShortNode k c fl) \<Longrightarrow> hexkey (k @ r) \<Longrightarrow>
     deleted D (ShortNode k c fl) (ShortNode k c fl) (k @ r)"
  by (auto simp: deleted_def wf_at_def holds_Short_iff)

lemma deleted_self_full:
  assumes "wf_node D (FullNode cs fl)" "hexkey (b # r)" "deleted D (cs ! unat b) (cs ! unat b) r"
  shows "deleted D (FullNode cs fl) (FullNode cs fl) (b # r)"
  using assms by (auto simp: deleted_def wf_at_def holds_Full_iff)

lemma deleted_self_hash:
  assumes "D h = Some n" "loaded n" "wf_node D n" "hexkey key" "deleted D n n key"
  shows "deleted D (HashNode h) (HashNode h) key"
  using assms by (auto simp: deleted_def holds_Hash_iff wf_at_def wf_Hash_iff)

lemma delete_correct:
  "wf_at D n key \<Longrightarrow> 2 * length key + hash_cost n < f \<Longrightarrow>
   \<exists>dirty n'. delete_node D gen f n prefix key = Inr (dirty, n') \<and> deleted D n n' key \<and>
     (dirty \<longrightarrow> n' = NilNode \<or> loaded n') \<and> (\<not> dirty \<longrightarrow> deleted D n n key)"
proof (induction f arbitrary: n prefix key)
  case (Suc f)
  show ?case
  proof (cases n)
    case NilNode
    then show ?thesis using Suc.prems(1) by (auto simp: delete_node.simps(2) deleted_def)
  next
    case (ValueNode v)
    then have "key = []" using Suc.prems(1) by (auto simp: wf_at_def split: if_splits)
    then show ?thesis using ValueNode by (auto simp: delete_node.simps(2) deleted_def wf_at_def)
  next
    case (ShortNode k c fl)
    then have h: "hexkey key" and wn: "wf_node D (ShortNode k c fl)"
      using Suc.prems(1) by (auto simp: wf_at_def split: if_splits)
    show ?thesis
    proof (cases "prefixLen key k = length k")
      case True
      then obtain r where r: "key = k @ r" using prefixLen_all by blast
      show ?thesis
      proof (cases "r = []")
        case rNil: True
        then have "deleted D (ShortNode k c fl) NilNode key" using deleted_leaf(1) [OF wn] h r by simp
        moreover have "delete_node D gen (Suc f) n prefix key = Inr (True, NilNode)"
          using True rNil r ShortNode by (simp add: delete_node.simps(2))
        ultimately show ?thesis using ShortNode by blast
      next
        case False
        have kn: "0 < length k" using wn by (auto simp: wf_Short_iff)
        have h': "hexkey (k @ r)" using h r by simp
        have br: "branching D c" using wn False hexkey_prefix [OF _ h', of k r] by (auto simp: wf_Short_iff)
        have "wf_at D c r" using wf_at_short [OF wn h'] .
        moreover have "2 * length r + hash_cost c < f"
        proof -
          have "2 * length key < Suc f" using Suc.prems(2) by simp
          then have "2 * length k + 2 * length r < Suc f" using r by simp
          then show ?thesis using kn hash_cost_le [of c] by linarith
        qed
        ultimately obtain dirty c' where IH: "delete_node D gen f c (prefix @ k) r = Inr (dirty, c')"
          "deleted D c c' r" "dirty \<longrightarrow> c' = NilNode \<or> loaded c'" "\<not> dirty \<longrightarrow> deleted D c c r"
          using Suc.IH [of c r "prefix @ k"] by blast
        have nn: "c' \<noteq> NilNode" using IH(2) br by (simp add: deleted_def)
        have s: "delete_node D gen (Suc f) n prefix key =
            Inr (if dirty then (True, join k c' (newFlag gen)) else (False, n))"
          using True r False IH(1) ShortNode by (auto simp: delete_node.simps(2) Let_def join_def split: node.splits)
        show ?thesis
        proof (cases dirty)
          case True
          then have "loaded c'" using IH(3) nn by simp
          with s True deleted_short [OF wn h' False IH(2), of "newFlag gen"] r ShortNode show ?thesis by auto
        next
          case nd: False
          with s deleted_self_lift [OF _ wn h'] IH(4) r ShortNode show ?thesis by auto
        qed
      qed
    next
      case False
      then have m: "prefixLen key k < length k" using prefixLen_le(2) [of key k] by simp
      then have "delete_node D gen (Suc f) n prefix key = Inr (False, n)"
        using ShortNode by (simp add: delete_node.simps(2))
      then show ?thesis using deleted_short_none [OF wn h m] ShortNode by auto
    qed
  next
    case (FullNode cs fl)
    then have h: "hexkey key" and wn: "wf_node D (FullNode cs fl)"
      using Suc.prems(1) by (auto simp: wf_at_def split: if_splits)
    then obtain b r where r: "key = b # r" by (cases key) auto
    have h': "hexkey (b # r)" using h r by simp
    let ?c = "cs ! unat b"
    have "wf_at D ?c r" using wf_at_full [OF wn h'] by simp
    moreover have "2 * length r + hash_cost ?c < f"
      using Suc.prems(2) hash_cost_le [of ?c] r FullNode by (simp add: hash_cost_def)
    ultimately obtain dirty c' where IH: "delete_node D gen f ?c (prefix @ [b]) r = Inr (dirty, c')"
      "deleted D ?c c' r" "\<not> dirty \<longrightarrow> deleted D ?c ?c r"
      using Suc.IH [of ?c r "prefix @ [b]"] by blast
    have c: "child_at cs key 0 = Inr ?c" using child_at_hex [OF wn, of 0 key] h r by simp
    obtain n' where n': "collapse D gen (cs[unat b := c']) prefix = Inr (True, n')" "loaded n'"
      "deleted D (FullNode cs fl) n' (b # r)" using deleted_full [OF wn h' IH(2)] by blast
    have s: "delete_node D gen (Suc f) n prefix key =
        (if dirty then collapse D gen (cs[unat b := c']) prefix else Inr (False, n))"
      using IH(1) c r FullNode by (simp add: delete_node.simps(2) collapse_def Let_def)
    show ?thesis
    proof (cases dirty)
      case True
      with s n' r FullNode show ?thesis by auto
    next
      case False
      with s deleted_self_full [OF wn h'] IH(3) r FullNode show ?thesis by auto
    qed
  next
    case (HashNode hh)
    then have h: "hexkey key" using Suc.prems(1) by (auto simp: wf_at_def split: if_splits)
    obtain rn where rn: "D hh = Some rn" "loaded rn" "wf_node D rn"
      using Suc.prems(1) HashNode by (auto simp: wf_Hash_iff wf_at_def split: if_splits)
    have "wf_at D rn key" using rn h by (auto simp: wf_at_def)
    moreover have "2 * length key + hash_cost rn < f"
      using Suc.prems(2) loaded_cost [OF rn(2)] HashNode by (simp add: hash_cost_def)
    ultimately obtain dirty c' where IH: "delete_node D gen f rn prefix key = Inr (dirty, c')"
      "deleted D rn c' key" "dirty \<longrightarrow> c' = NilNode \<or> loaded c'" "\<not> dirty \<longrightarrow> deleted D rn rn key"
      using Suc.IH [of rn key prefix] by blast
    have s: "delete_node D gen (Suc f) n prefix key = Inr (if dirty then (True, c') else (False, rn))"
      using IH(1) rn HashNode by (simp add: resolveHash_def delete_node.simps(2))
    show ?thesis
    proof (cases dirty)
      case True
      with s IH(2,3) deleted_hash [where D = D, OF rn(1,2)] HashNode show ?thesis by auto
    next
      case False
      with s IH(4) deleted_hash [where D = D, OF rn(1,2)] deleted_self_hash [where D = D, OF rn h] HashNode
      show ?thesis by auto
    qed
  qed
qed simp

subsection \<open>The trie is a map\<close>

lemma holds_unique: "holds D n k v \<Longrightarrow> holds D n k v' \<Longrightarrow> v' = v"
  by (induction arbitrary: v' rule: holds.induct) (auto simp: holds_Short_iff holds_Full_iff holds_Hash_iff)

lemma finds_unique: "finds D n k v \<Longrightarrow> finds D n k v' \<Longrightarrow> v' = v"
  using holds_unique by (fastforce simp: finds_def split: if_splits)

definition wf_trie :: "node_db \<Rightarrow> Trie \<Rightarrow> bool" where
  "wf_trie D t \<longleftrightarrow> t_root t = NilNode \<or> wf_node D (t_root t)"

text \<open>The map a trie stands for: the value \<open>Get\<close> returns, \<open>[]\<close> (nil) for a key without a value.\<close>

definition contents :: "node_db \<Rightarrow> Trie \<Rightarrow> byte list \<Rightarrow> byte list" where
  "contents D t key = fst (Get D t key)"

lemma wf_trie_at: "wf_trie D t \<Longrightarrow> wf_at D (t_root t) (keybytesToHex key)"
  by (simp add: wf_trie_def wf_at_def hexkey_keybytesToHex)

lemma wf_trie_node: "wf_at D n (keybytesToHex key) \<Longrightarrow> wf_trie D (t\<lparr>t_root := n\<rparr>)"
  by (simp add: wf_trie_def wf_at_def)

lemma fuel_enough: "2 * length k + hash_cost n < walk_fuel k"
  using hash_cost_le [of n] by (simp add: walk_fuel_def)

lemma TryGet_finds:
  assumes "wf_trie D t"
  shows "\<exists>v t'. TryGet D t key = (Inr v, t') \<and> finds D (t_root t) (keybytesToHex key) v \<and>
     unfolds D (t_root t) (t_root t') \<and> wf_trie D t' \<and> contents D t key = v"
proof -
  let ?k = "keybytesToHex key" and ?n = "t_root t"
  obtain v n' r where g: "tryGet D (t_cachegen t) (walk_fuel ?k) ?n ?k 0 = Inr (v, n', r)"
    "finds D ?n ?k v" "unfolds D ?n n'" "\<not> r \<longrightarrow> n' = ?n"
    using tryGet_correct [of D ?n 0 ?k "walk_fuel ?k" "t_cachegen t"] wf_trie_at [OF assms, of key]
      fuel_enough [of ?k ?n] by auto
  have "wf_trie D (t\<lparr>t_root := n'\<rparr>)"
    using assms g(3) unfolds_wf unfolds_Nil by (auto simp: wf_trie_def)
  with g assms show ?thesis by (auto simp: TryGet_def contents_def Get_def)
qed

lemma contents_finds: "wf_trie D t \<Longrightarrow> finds D (t_root t) (keybytesToHex key) (contents D t key)"
  using TryGet_finds by blast

lemma contents_eqI:
  assumes "wf_trie D t" "finds D (t_root t) (keybytesToHex key) v" shows "contents D t key = v"
  using contents_finds [OF assms(1)] assms(2) finds_unique by blast

lemma contents_unfolds:
  assumes "wf_trie D t" "wf_trie D t'" "unfolds D (t_root t) (t_root t')"
  shows "contents D t' = contents D t"
proof
  fix key
  show "contents D t' key = contents D t key"
    using contents_finds [OF assms(1)] unfolds_holds [OF assms(3)]
    by (intro contents_eqI [OF assms(2)]) (simp add: finds_def)
qed

lemma TryGet_map:
  assumes "wf_trie D t"
  shows "\<exists>t'. TryGet D t key = (Inr (contents D t key), t') \<and> wf_trie D t' \<and> contents D t' = contents D t"
  using TryGet_finds [OF assms, of key] contents_unfolds [OF assms] by auto


lemma TryDelete_map:
  assumes "wf_trie D t"
  shows "\<exists>t'. TryDelete D t key = (Inr (), t') \<and> wf_trie D t' \<and> contents D t' = (contents D t)(key := [])"
proof -
  let ?k = "keybytesToHex key" and ?n = "t_root t"
  obtain dirty n' where d: "delete_node D (t_cachegen t) (walk_fuel ?k) ?n [] ?k = Inr (dirty, n')" "deleted D ?n n' ?k"
    using delete_correct [OF wf_trie_at [OF assms] fuel_enough] by blast
  let ?t = "t\<lparr>t_root := n'\<rparr>"
  have w: "wf_trie D ?t" using d(2) wf_trie_node by (auto simp: deleted_def)
  have "contents D ?t x = ((contents D t)(key := [])) x" for x
  proof (rule contents_eqI [OF w])
    have "keybytesToHex x = ?k \<longleftrightarrow> x = key" using keybytesToHex_inj by blast
    then show "finds D (t_root ?t) (keybytesToHex x) (((contents D t)(key := [])) x)"
      using d(2) contents_finds [OF assms, of x] by (auto simp: deleted_def finds_def)
  qed
  with d(1) w show ?thesis by (auto simp: TryDelete_def)
qed

lemma TryUpdate_map:
  assumes "wf_trie D t"
  shows "\<exists>t'. TryUpdate D t key v = (Inr (), t') \<and> wf_trie D t' \<and> contents D t' = (contents D t)(key := v)"
proof (cases "v = []")
  case True
  with TryDelete_map [OF assms, of key] show ?thesis by (simp add: TryUpdate_def)
next
  case False
  let ?k = "keybytesToHex key" and ?n = "t_root t"
  obtain dirty n' where d: "insert_node D (t_cachegen t) (walk_fuel ?k) ?n [] ?k (ValueNode v) = Inr (dirty, n')"
    "inserted D ?n n' ?k v"
    using insert_correct [OF wf_trie_at [OF assms] False fuel_enough] by blast
  let ?t = "t\<lparr>t_root := n'\<rparr>"
  have w: "wf_trie D ?t" using d(2) wf_trie_node by (auto simp: inserted_def)
  have "contents D ?t x = ((contents D t)(key := v)) x" for x
  proof (rule contents_eqI [OF w])
    have "keybytesToHex x = ?k \<longleftrightarrow> x = key" using keybytesToHex_inj by blast
    then show "finds D (t_root ?t) (keybytesToHex x) (((contents D t)(key := v)) x)"
      using d(2) contents_finds [OF assms, of x] False by (auto simp: inserted_def finds_def)
  qed
  with d(1) w False show ?thesis by (auto simp: TryUpdate_def)
qed

text \<open>C10. \<open>TryUpdate\<close> refines the update of a map: in a well-formed trie whose hash nodes can all be loaded
  it succeeds, the trie stays well-formed, and it stands for the old map with the key set to the value;
  an empty value removes the key, and the nodes are merged again.\<close>

theorem TryUpdate_refines:
  assumes "wf_trie D t"
  shows "\<exists>t'. TryUpdate D t key v = (Inr (), t') \<and> wf_trie D t' \<and> contents D t' = (contents D t)(key := v)"
  using assms by (rule TryUpdate_map)

text \<open>An empty trie without a database, as the examples use.\<close>

definition empty_trie :: Trie where
  "empty_trie = \<lparr>t_root = NilNode, t_cachegen = 0\<rparr>"

definition no_nodes :: node_db where
  "no_nodes = (\<lambda>h. None)"

lemma wf_empty_trie [simp]: "wf_trie D empty_trie"
  by (simp add: wf_trie_def empty_trie_def)

lemma contents_empty: "contents D empty_trie = (\<lambda>key. [])"
  by (rule ext, rule contents_eqI) (simp_all add: finds_def empty_trie_def wf_trie_def)


theorem TryUpdate_refines_witness:
  "\<exists>t'. TryUpdate no_nodes empty_trie [1, 2] [7] = (Inr (), t') \<and> wf_trie no_nodes t' \<and>
     contents no_nodes t' = (\<lambda>key. [])([1, 2] := [7])"
  using TryUpdate_refines [OF wf_empty_trie, of no_nodes "[1, 2]" "[7]"] by (simp add: contents_empty)

subsection \<open>Writing many values\<close>

text \<open>
  What the state database relies on of a trie: an update is an update of its contents. \<open>updateTrie\<close> and
  \<open>Finalise\<close> walk over Go maps, whose order is not specified; the contents do not depend on it.
\<close>

locale value_map =
  fixes invar :: "'t \<Rightarrow> bool" and look :: "'t \<Rightarrow> 'k \<Rightarrow> 'v" and upd :: "'t \<Rightarrow> 'k \<Rightarrow> 'v \<Rightarrow> 't"
  assumes invar_upd: "invar t \<Longrightarrow> invar (upd t k v)"
    and look_upd: "invar t \<Longrightarrow> look (upd t k v) = (look t)(k := v)"
begin

lemma invar_fold: "invar t \<Longrightarrow> invar (fold (\<lambda>(k, v) t. upd t k v) kvs t)"
  by (induction kvs arbitrary: t) (auto intro: invar_upd)

lemma look_fold: "invar t \<Longrightarrow> look (fold (\<lambda>(k, v) t. upd t k v) kvs t) = fold (\<lambda>(k, v) m. m(k := v)) kvs (look t)"
  by (induction kvs arbitrary: t) (auto simp: look_upd invar_upd)

lemma fold_upd_other: "k \<notin> fst ` set kvs \<Longrightarrow> fold (\<lambda>(k, v) m. m(k := v)) kvs m k = m k"
  by (induction kvs arbitrary: m) auto

lemma fold_upd_map:
  "distinct (map fst kvs) \<Longrightarrow> fold (\<lambda>(k, v) m. m(k := v)) kvs m k = (case map_of kvs k of Some v \<Rightarrow> v | None \<Rightarrow> m k)"
proof (induction kvs arbitrary: m)
  case (Cons kv kvs)
  obtain a b where kv: "kv = (a, b)" by (cases kv)
  then have n: "map_of kvs a = None" using Cons.prems by (simp add: map_of_eq_None_iff)
  show ?case using Cons.IH [of "m(a := b)"] Cons.prems n by (auto simp: kv split: option.splits)
qed simp

lemma order_irrelevant:
  assumes "invar t" "distinct (map fst kvs)" "distinct (map fst kvs')" "set kvs = set kvs'"
  shows "look (fold (\<lambda>(k, v) t. upd t k v) kvs t) = look (fold (\<lambda>(k, v) t. upd t k v) kvs' t)"
proof
  fix k
  have "map_of kvs = map_of kvs'" using assms(2-4) by (intro map_of_inject_set [THEN iffD2])
  then show "look (fold (\<lambda>(k, v) t. upd t k v) kvs t) k = look (fold (\<lambda>(k, v) t. upd t k v) kvs' t) k"
    using assms by (simp add: look_fold fold_upd_map)
qed

end

lemma Update_map: "wf_trie D t \<Longrightarrow> wf_trie D (Update D t key v) \<and> contents D (Update D t key v) = (contents D t)(key := v)"
  using TryUpdate_map [of D t key v] by (auto simp: Update_def)

interpretation trie_map: value_map "wf_trie D" "contents D" "Update D" for D
  by unfold_locales (simp_all add: Update_map)

text \<open>The order in which a batch of writes reaches the trie does not matter: for two orders of the same
  writes to distinct keys (Go ranges over the map of dirty values in an unspecified order) the resulting
  tries stand for the same map.\<close>

theorem Update_order_irrelevant:
  assumes "wf_trie D t" "distinct (map fst kvs)" "distinct (map fst kvs')" "set kvs = set kvs'"
  shows "contents D (fold (\<lambda>(k, v) t. Update D t k v) kvs t) = contents D (fold (\<lambda>(k, v) t. Update D t k v) kvs' t)"
  using assms by (rule trie_map.order_irrelevant)

theorem Update_order_irrelevant_witness:
  "contents no_nodes (fold (\<lambda>(k, v) t. Update no_nodes t k v) [([1], [5]), ([2], [6])] empty_trie) =
   contents no_nodes (fold (\<lambda>(k, v) t. Update no_nodes t k v) [([2], [6]), ([1], [5])] empty_trie)"
  by (rule Update_order_irrelevant) auto

subsection \<open>The key encodings are inverse\<close>

lemma hexToKeybytes_back: "hexToKeybytes (keybytesToHex b) = Ok b"
proof -
  have "length (concat (map (\<lambda>b. [b div 16, b mod 16]) b)) = 2 * length b" for b :: "byte list"
    by (induction b) simp_all
  then show ?thesis
    by (simp add: hexToKeybytes_def hasTerm_def keybytesToHex_def nth_append decodeNibbles_hex)
qed

lemma byte_of_nibbles:
  assumes "nibble a" "nibble b"
  shows "or (push_bit 4 a) b div 16 = a" "or (push_bit 4 a) b mod 16 = b"
proof -
  have a: "take_bit 4 a = a" and b: "take_bit 4 b = b"
    using assms by (simp_all add: nibble_def take_bit_eq_mod word_unat_eq_iff unat_mod)
  have ba: "bit a n \<Longrightarrow> n < 4" "bit b n \<Longrightarrow> n < 4" for n
    using a b by (metis bit_take_bit_iff)+
  show "or (push_bit 4 a) b div 16 = a"
  proof -
    have "drop_bit 4 (or (push_bit 4 a) b) = a"
      by (rule bit_word_eqI) (auto simp: bit_or_iff bit_push_bit_iff bit_drop_bit_eq dest: ba)
    then show ?thesis by (simp add: drop_bit_eq_div)
  qed
  show "or (push_bit 4 a) b mod 16 = b"
  proof -
    have "take_bit 4 (or (push_bit 4 a) b) = b"
      by (rule bit_word_eqI) (auto simp: bit_or_iff bit_push_bit_iff bit_take_bit_iff dest: ba)
    then show ?thesis by (simp add: take_bit_eq_mod)
  qed
qed

lemma keybytes_decodeNibbles:
  "even (length ns) \<Longrightarrow> list_all nibble ns \<Longrightarrow> keybytesToHex (decodeNibbles ns) = ns @ [16]"
  by (induction ns rule: decodeNibbles.induct) (simp_all add: keybytesToHex_Cons byte_of_nibbles)

lemma not_hasTerm: "list_all nibble p \<Longrightarrow> \<not> hasTerm p"
  by (cases p rule: rev_cases) (auto simp: hasTerm_def nibble_16 nth_append)

lemma hasTerm_snoc [simp]: "hasTerm (p @ [16])"
  by (simp add: hasTerm_def nth_append)

text \<open>The first byte of a compact key: the flag in the high nibble, the odd nibble in the low one.\<close>

lemma flag_bytes:
  "(32 :: byte) div 16 = 2" "(32 :: byte) mod 16 = 0" "or (0 :: byte) 16 = 16" "or (32 :: byte) 16 = 48"
  "push_bit 5 (1 :: byte) = 32" "push_bit 5 (0 :: byte) = 0" "unat (and (2 :: byte) 1) = 0" "unat (and (1 :: byte) 1) = 1"
  "unat (and (3 :: byte) 1) = 1" "nibble 1" "nibble 3" "\<not> (3 :: byte) < 2" "(1 :: byte) < 2"
  by (code_simp, code_simp, code_simp, code_simp, code_simp, code_simp, code_simp, code_simp, code_simp,
      simp_all add: nibble_def)

lemma odd_flags:
  assumes "nibble a"
  shows "or 16 a div 16 = 1" "or 16 a mod 16 = a" "or 48 a div 16 = 3" "or 48 a mod 16 = a" "or (32 :: byte) 16 = 48"
proof -
  have p: "push_bit 4 (1 :: byte) = 16" "push_bit 4 (3 :: byte) = 48" by (code_simp, code_simp)
  show "or 16 a div 16 = 1" "or 16 a mod 16 = a" "or 48 a div 16 = 3" "or 48 a mod 16 = a"
    using byte_of_nibbles [of 1 a] byte_of_nibbles [of 3 a] assms flag_bytes(10,11) unfolding p by simp_all
  show "or (32 :: byte) 16 = 48" by code_simp
qed

text \<open>The compact form of a key, in which short nodes are stored, is read back: for every sequence of
  nibbles, odd or even in number, with and without the terminator, \<open>compactToHex\<close> undoes \<open>hexToCompact\<close>.\<close>

theorem compact_hex_round_trip:
  assumes "list_all (\<lambda>b. unat b < 16) p"
  shows "compactToHex (hexToCompact p) = p \<and> compactToHex (hexToCompact (p @ [16])) = p @ [16]"
proof
  have p: "list_all nibble p" using assms by (simp add: list_all_iff nibble_def)
  show "compactToHex (hexToCompact p) = p"
  proof (cases "even (length p)")
    case True
    then show ?thesis
      by (simp add: hexToCompact_def not_hasTerm [OF p] compactToHex_def keybytesToHex_Cons
          keybytes_decodeNibbles [OF _ p] flag_bytes nth_append)
  next
    case False
    then obtain a q where q: "p = a # q" by (cases p) auto
    then have e: "even (length q)" "nibble a" "list_all nibble q" using False p by auto
    show ?thesis using not_hasTerm [OF p] False unfolding q
      by (simp add: hexToCompact_def compactToHex_def keybytesToHex_Cons odd_flags e Let_def
          keybytes_decodeNibbles flag_bytes)
  qed
  show "compactToHex (hexToCompact (p @ [16])) = p @ [16]"
  proof (cases "even (length p)")
    case True
    then show ?thesis
      by (simp add: hexToCompact_def compactToHex_def keybytesToHex_Cons
          keybytes_decodeNibbles [OF _ p] flag_bytes nth_append)
  next
    case False
    then obtain a q where q: "p = a # q" by (cases p) auto
    then have e: "even (length q)" "nibble a" "list_all nibble q" using False p by auto
    have "hasTerm (a # q @ [16])" using hasTerm_snoc [of "a # q"] by simp
    then show ?thesis using False unfolding q
      by (simp add: hexToCompact_def compactToHex_def keybytesToHex_Cons odd_flags e Let_def
          keybytes_decodeNibbles flag_bytes)
  qed
qed

theorem compact_hex_round_trip_witness:
  "compactToHex (hexToCompact [10, 11, 12]) = [10, 11, 12]"
  using compact_hex_round_trip [of "[10, 11, 12]"] by simp

end
