(* ===== verification/State_DB.thy ===== *)
theory State_DB
  imports Store Trie_Map Rlp_Round_Trip
begin

section \<open>Account state with a journal: dvm/ethereum/state\<close>

text \<open>
  \<open>statedb.go\<close>, \<open>state_object.go\<close> and \<open>journal.go\<close>: the accounts a contract sees and changes.

  \<^item> The interfaces \<open>Trie\<close> and \<open>Database\<close> of \<open>database.go\<close> are the record \<open>tries\<close> of their methods over a type
    \<open>'t\<close> of tries; \<open>secure_tries\<close> is the implementation of \<open>secure_trie.go\<close> over the trie of \<open>Trie\<close>. What
    \<open>StateDB\<close> relies on is the locale \<open>account_tries\<close>.
  \<^item> A \<open>*stateObject\<close> lives in the map \<open>StateObjects\<close> and nowhere else while it can change: a pointer to it is the
    address under which it is filed, and \<open>resetObjectChange\<close> holds an object that has left the map.
  \<^item> Every object is made by \<open>newStateObject\<close>, so its balance is never nil. An empty \<open>CodeHash\<close> is nil: no account is
    stored with one.
  \<^item> A function that reads returns the state too, since a read loads the object and opens its trie.
  \<^item> Go iterates over maps in any order: \<open>Finalise\<close>, \<open>Commit\<close> and \<open>updateTrie\<close> take the order as an argument.
  \<^item> \<open>sd_blobs\<close> is the contract code that \<open>Commit\<close> has inserted into the node database; the cache of code sizes, which
    only remembers the length of a code by its hash, and the log output are left out.
\<close>

subsection \<open>GetAddressBytes (commons/crypto/common.go)\<close>

text \<open>\<open>hex.DecodeString\<close> returns the bytes before the first error.\<close>

fun hex_prefix :: "string \<Rightarrow> byte list" where
  "hex_prefix (c # d # s) =
     (case (fromHexChar c, fromHexChar d) of (Some h, Some l) \<Rightarrow> byte_of (h * 16 + l) # hex_prefix s | _ \<Rightarrow> [])"
| "hex_prefix s = []"

definition is_space :: "char \<Rightarrow> bool" where
  "is_space c \<longleftrightarrow> (of_char c :: nat) \<in> {9, 10, 11, 12, 13, 32}"

definition GetAddressBytes :: "string \<Rightarrow> AddressBytes result" where
  "GetAddressBytes value =
     (if list_all is_space value then Ok (replicate AddressLength 0)
      else let bytes = hex_prefix value
           in if length bytes < AddressLength then Panic ''slice bounds out of range''
              else Ok (drop (length bytes - AddressLength) bytes))"

subsection \<open>Interfaces and types\<close>

record 't tries =
  tr_TryGet :: "'t \<Rightarrow> byte list \<Rightarrow> byte list result \<times> 't"
  tr_TryUpdate :: "'t \<Rightarrow> byte list \<Rightarrow> byte list \<Rightarrow> unit result \<times> 't"
  tr_TryDelete :: "'t \<Rightarrow> byte list \<Rightarrow> unit result \<times> 't"
  tr_Hash :: "'t \<Rightarrow> HashBytes \<times> 't"
  tr_Commit :: "'t \<Rightarrow> HashBytes result \<times> 't"
  tr_OpenTrie :: "HashBytes \<Rightarrow> 't result"
  tr_OpenStorageTrie :: "HashBytes \<Rightarrow> HashBytes \<Rightarrow> 't result"
  tr_ContractCode :: "HashBytes \<Rightarrow> byte list result"

text \<open>The surroundings of a \<open>StateDB\<close>: the hash, the tries, the Badger database and the clock.\<close>

record 't senv =
  se_crypto :: crypto
  se_tries :: "'t tries"
  se_faults :: faults
  se_txn :: txn
  se_now :: int

datatype db_error = TrieError string | RlpError rlp_error | CodeError string

record 't stateObject =
  so_account :: Account
  so_dbErr :: "db_error option"
  so_trie :: "'t option"
  so_code :: "byte list option"
  so_cachedStorage :: "HashBytes \<rightharpoonup> HashBytes"
  so_dirtyStorage :: "HashBytes \<rightharpoonup> HashBytes"
  so_dirtyCode :: bool
  so_suicided :: bool
  so_deleted :: bool

datatype 't journalEntry =
    createObjectChange AddressBytes
  | resetObjectChange "'t stateObject"
  | suicideChange AddressBytes bool int
  | balanceChange AddressBytes int
  | nonceChange AddressBytes int
  | storageChange AddressBytes HashBytes HashBytes
  | codeChange AddressBytes "byte list option" "byte list"
  | refundChange int
  | addLogChange HashBytes
  | addPreimageChange HashBytes
  | touchChange AddressBytes

record Log =
  l_Address :: AddressBytes
  l_Topics :: "HashBytes list"
  l_Data :: "byte list"
  l_BlockNumber :: int
  l_TxHash :: HashBytes
  l_TxIndex :: int
  l_BlockHash :: HashBytes
  l_Index :: int
  l_Removed :: bool

record 't StateDB =
  sd_trie :: 't
  sd_StateObjects :: "AddressBytes \<rightharpoonup> 't stateObject"
  sd_stateObjectsDirty :: "AddressBytes set"
  sd_dbErr :: "db_error option"
  sd_refund :: int
  sd_thash :: HashBytes
  sd_bhash :: HashBytes
  sd_txIndex :: int
  sd_logs :: "HashBytes \<rightharpoonup> Log list"
  sd_logSize :: int
  sd_preimages :: "HashBytes \<rightharpoonup> byte list"
  sd_entries :: "'t journalEntry list"
  sd_dirties :: "AddressBytes \<rightharpoonup> int"
  sd_validRevisions :: "(int \<times> nat) list"
  sd_nextRevisionId :: int
  sd_blobs :: "HashBytes \<rightharpoonup> byte list"

definition zero_hash :: HashBytes where "zero_hash = replicate HashLength 0"

definition emptyCodeHash :: "'t senv \<Rightarrow> HashBytes" where
  "emptyCodeHash E = crypto_NewHash (se_crypto E) []"

definition OpenStateDB :: "'t senv \<Rightarrow> HashBytes \<Rightarrow> 't StateDB result" where
  "OpenStateDB E root =
     result_bind (tr_OpenTrie (se_tries E) root) (\<lambda>tr.
       Ok \<lparr>sd_trie = tr, sd_StateObjects = Map.empty, sd_stateObjectsDirty = {}, sd_dbErr = None, sd_refund = 0,
           sd_thash = zero_hash, sd_bhash = zero_hash, sd_txIndex = 0, sd_logs = Map.empty, sd_logSize = 0,
           sd_preimages = Map.empty, sd_entries = [], sd_dirties = Map.empty, sd_validRevisions = [],
           sd_nextRevisionId = 0, sd_blobs = Map.empty\<rparr>)"

definition StateDB_setError :: "db_error \<Rightarrow> 't StateDB \<Rightarrow> 't StateDB" where
  "StateDB_setError e st = (if sd_dbErr st = None then st\<lparr>sd_dbErr := Some e\<rparr> else st)"

definition stateObject_setError :: "db_error \<Rightarrow> 't stateObject \<Rightarrow> 't stateObject" where
  "stateObject_setError e s = (if so_dbErr s = None then s\<lparr>so_dbErr := Some e\<rparr> else s)"

subsection \<open>journal.go: the journal\<close>

primrec dirtied :: "'t journalEntry \<Rightarrow> AddressBytes option" where
  "dirtied (createObjectChange a) = Some a"
| "dirtied (resetObjectChange prev) = None"
| "dirtied (suicideChange a prev bal) = Some a"
| "dirtied (balanceChange a prev) = Some a"
| "dirtied (nonceChange a prev) = Some a"
| "dirtied (storageChange a key prev) = Some a"
| "dirtied (codeChange a c h) = Some a"
| "dirtied (refundChange prev) = None"
| "dirtied (addLogChange h) = None"
| "dirtied (addPreimageChange h) = None"
| "dirtied (touchChange a) = Some a"

definition journal_dirty :: "AddressBytes \<Rightarrow> 't StateDB \<Rightarrow> 't StateDB" where
  "journal_dirty a st =
     st\<lparr>sd_dirties := (sd_dirties st)(a \<mapsto> (case sd_dirties st a of None \<Rightarrow> 1 | Some n \<Rightarrow> n + 1))\<rparr>"

definition journal_append :: "'t journalEntry \<Rightarrow> 't StateDB \<Rightarrow> 't StateDB" where
  "journal_append e st =
     (let st' = st\<lparr>sd_entries := sd_entries st @ [e]\<rparr>
      in case dirtied e of None \<Rightarrow> st' | Some a \<Rightarrow> journal_dirty a st')"

definition undirty :: "'t journalEntry \<Rightarrow> 't StateDB \<Rightarrow> 't StateDB" where
  "undirty e st =
     (case dirtied e of
        None \<Rightarrow> st
      | Some a \<Rightarrow>
          (let n = (case sd_dirties st a of None \<Rightarrow> 0 | Some n \<Rightarrow> n) - 1
           in st\<lparr>sd_dirties := (sd_dirties st)(a := (if n = 0 then None else Some n))\<rparr>))"

subsection \<open>state_object.go\<close>

text \<open>The object filed under \<open>k\<close>.\<close>

definition object_at :: "'t StateDB \<Rightarrow> AddressBytes \<Rightarrow> 't stateObject" where
  "object_at st k = the (sd_StateObjects st k)"

definition put_object :: "AddressBytes \<Rightarrow> 't stateObject \<Rightarrow> 't StateDB \<Rightarrow> 't StateDB" where
  "put_object k s st = st\<lparr>sd_StateObjects := (sd_StateObjects st)(k \<mapsto> s)\<rparr>"

definition object_balance :: "'t stateObject \<Rightarrow> int" where
  "object_balance s = the (a_Balance (so_account s))"

definition newStateObject :: "'t senv \<Rightarrow> Account \<Rightarrow> 't stateObject" where
  "newStateObject E data =
     \<lparr>so_account = data\<lparr>a_Balance := Some (case a_Balance data of None \<Rightarrow> 0 | Some b \<Rightarrow> b),
        a_CodeHash := (if a_CodeHash data = [] then emptyCodeHash E else a_CodeHash data), a_Nonce := 0\<rparr>,
      so_dbErr = None, so_trie = None, so_code = None, so_cachedStorage = Map.empty, so_dirtyStorage = Map.empty,
      so_dirtyCode = False, so_suicided = False, so_deleted = False\<rparr>"

definition stateObject_empty :: "'t senv \<Rightarrow> 't stateObject \<Rightarrow> bool" where
  "stateObject_empty E s \<longleftrightarrow>
     a_Nonce (so_account s) = 0 \<and> object_balance s = 0 \<and> a_CodeHash (so_account s) = emptyCodeHash E"

definition ripemd :: AddressBytes where
  "ripemd = BytesToAddress (hex_prefix ''0000000000000000000000000000000000000003'')"

definition stateObject_touch :: "AddressBytes \<Rightarrow> 't StateDB \<Rightarrow> 't StateDB result" where
  "stateObject_touch k st =
     result_bind (GetAddressBytes (a_Address (so_account (object_at st k)))) (\<lambda>addr.
       let st1 = journal_append (touchChange addr) st
       in Ok (if addr = ripemd then journal_dirty addr st1 else st1))"

definition stateObject_getTrie :: "'t senv \<Rightarrow> 't stateObject \<Rightarrow> ('t \<times> 't stateObject) result" where
  "stateObject_getTrie E s =
     (case so_trie s of
        Some t \<Rightarrow> Ok (t, s)
      | None \<Rightarrow>
          result_bind (GetAddressBytes (a_Address (so_account s))) (\<lambda>addr.
            let addrHash = crypto_NewHash (se_crypto E) addr
            in case tr_OpenStorageTrie (se_tries E) addrHash (a_Root (so_account s)) of
                 Ok t \<Rightarrow> Ok (t, s\<lparr>so_trie := Some t\<rparr>)
               | Panic e \<Rightarrow> Panic e
               | Err e \<Rightarrow>
                   (case tr_OpenStorageTrie (se_tries E) addrHash zero_hash of
                      Ok t \<Rightarrow> Ok (t, stateObject_setError (TrieError e) (s\<lparr>so_trie := Some t\<rparr>))
                    | _ \<Rightarrow> Panic ''nil pointer dereference'')))"

definition stateObject_GetState :: "'t senv \<Rightarrow> HashBytes \<Rightarrow> 't stateObject \<Rightarrow> (HashBytes \<times> 't stateObject) result" where
  "stateObject_GetState E key s =
     (case so_cachedStorage s key of
        Some v \<Rightarrow> Ok (v, s)
      | None \<Rightarrow>
          result_bind (stateObject_getTrie E s) (\<lambda>(t, s1).
            let (r, t') = tr_TryGet (se_tries E) t key; s2 = s1\<lparr>so_trie := Some t'\<rparr>
            in case r of
                 Panic e \<Rightarrow> Panic e
               | Err e \<Rightarrow> Ok (zero_hash, stateObject_setError (TrieError e) s2)
               | Ok enc \<Rightarrow>
                   (let (v, s3) =
                      (if length enc > 0 then
                         (case Split enc of
                            Inl e \<Rightarrow> (zero_hash, stateObject_setError (RlpError e) s2)
                          | Inr (_, content, _) \<Rightarrow> (BytesToHash content, s2))
                       else (zero_hash, s2))
                    in Ok (v, if v \<noteq> zero_hash then s3\<lparr>so_cachedStorage := (so_cachedStorage s3)(key \<mapsto> v)\<rparr> else s3))))"

definition stateObject_setState :: "HashBytes \<Rightarrow> HashBytes \<Rightarrow> 't stateObject \<Rightarrow> 't stateObject" where
  "stateObject_setState key v s =
     s\<lparr>so_cachedStorage := (so_cachedStorage s)(key \<mapsto> v), so_dirtyStorage := (so_dirtyStorage s)(key \<mapsto> v)\<rparr>"

definition stateObject_SetState ::
  "'t senv \<Rightarrow> AddressBytes \<Rightarrow> HashBytes \<Rightarrow> HashBytes \<Rightarrow> 't StateDB \<Rightarrow> 't StateDB result" where
  "stateObject_SetState E k key v st =
     result_bind (GetAddressBytes (a_Address (so_account (object_at st k)))) (\<lambda>addr.
     result_bind (stateObject_GetState E key (object_at st k)) (\<lambda>(prev, s1).
       Ok (put_object k (stateObject_setState key v s1)
             (journal_append (storageChange addr key prev) st))))"

definition stateObject_setBalance :: "int \<Rightarrow> 't stateObject \<Rightarrow> 't stateObject" where
  "stateObject_setBalance amount s = s\<lparr>so_account := (so_account s)\<lparr>a_Balance := Some amount\<rparr>\<rparr>"

definition stateObject_SetBalance :: "AddressBytes \<Rightarrow> int \<Rightarrow> 't StateDB \<Rightarrow> 't StateDB result" where
  "stateObject_SetBalance k amount st =
     (let s = object_at st k in
      result_bind (GetAddressBytes (a_Address (so_account s))) (\<lambda>addr.
        Ok (put_object k (stateObject_setBalance amount s)
              (journal_append (balanceChange addr (object_balance s)) st))))"

definition stateObject_AddBalance :: "'t senv \<Rightarrow> AddressBytes \<Rightarrow> int \<Rightarrow> 't StateDB \<Rightarrow> 't StateDB result" where
  "stateObject_AddBalance E k amount st =
     (let s = object_at st k in
      if amount = 0 then (if stateObject_empty E s then stateObject_touch k st else Ok st)
      else stateObject_SetBalance k (object_balance s + amount) st)"

definition stateObject_SubBalance :: "AddressBytes \<Rightarrow> int \<Rightarrow> 't StateDB \<Rightarrow> 't StateDB result" where
  "stateObject_SubBalance k amount st =
     (if amount = 0 then Ok st
      else stateObject_SetBalance k (object_balance (object_at st k) - amount) st)"

definition ContractCode :: "'t senv \<Rightarrow> 't StateDB \<Rightarrow> HashBytes \<Rightarrow> byte list result" where
  "ContractCode E st h = (case sd_blobs st h of Some c \<Rightarrow> Ok c | None \<Rightarrow> tr_ContractCode (se_tries E) h)"

definition stateObject_Code :: "'t senv \<Rightarrow> 't StateDB \<Rightarrow> 't stateObject \<Rightarrow> (byte list option \<times> 't stateObject) result" where
  "stateObject_Code E st s =
     (case so_code s of
        Some c \<Rightarrow> Ok (Some c, s)
      | None \<Rightarrow>
          if a_CodeHash (so_account s) = [] \<or> a_CodeHash (so_account s) = emptyCodeHash E then Ok (None, s)
          else result_bind (GetAddressBytes (a_Address (so_account s))) (\<lambda>addr.
                 case ContractCode E st (BytesToHash (a_CodeHash (so_account s))) of
                   Ok c \<Rightarrow> Ok (Some c, s\<lparr>so_code := Some c\<rparr>)
                 | Err e \<Rightarrow> Ok (None, stateObject_setError (CodeError e) s)
                 | Panic e \<Rightarrow> Panic e))"

definition stateObject_setCode :: "HashBytes \<Rightarrow> byte list option \<Rightarrow> 't stateObject \<Rightarrow> 't stateObject" where
  "stateObject_setCode codeHash code s =
     s\<lparr>so_code := code, so_account := (so_account s)\<lparr>a_CodeHash := codeHash\<rparr>, so_dirtyCode := True\<rparr>"

definition stateObject_SetCode ::
  "'t senv \<Rightarrow> AddressBytes \<Rightarrow> HashBytes \<Rightarrow> byte list option \<Rightarrow> 't StateDB \<Rightarrow> 't StateDB result" where
  "stateObject_SetCode E k codeHash code st =
     result_bind (GetAddressBytes (a_Address (so_account (object_at st k)))) (\<lambda>addr.
     result_bind (stateObject_Code E st (object_at st k)) (\<lambda>(prevcode, s1).
       Ok (put_object k (stateObject_setCode codeHash code s1)
             (journal_append (codeChange addr prevcode (a_CodeHash (so_account s1))) st))))"

definition stateObject_SetNonce :: "AddressBytes \<Rightarrow> int \<Rightarrow> 't StateDB \<Rightarrow> 't StateDB result" where
  "stateObject_SetNonce k nonce st =
     (let s = object_at st k in
      result_bind (GetAddressBytes (a_Address (so_account s))) (\<lambda>addr.
        Ok (put_object k (s\<lparr>so_account := (so_account s)\<lparr>a_Nonce := nonce\<rparr>\<rparr>)
              (journal_append (nonceChange addr (a_Nonce (so_account s))) st))))"

text \<open>\<open>deepCopy\<close> passes the account through \<open>newStateObject\<close> and copies the dirty storage into both maps.\<close>

definition stateObject_deepCopy :: "'t senv \<Rightarrow> 't stateObject \<Rightarrow> 't stateObject result" where
  "stateObject_deepCopy E s =
     result_bind (GetAddressBytes (a_Address (so_account s))) (\<lambda>addr.
       Ok ((newStateObject E (so_account s))
             \<lparr>so_trie := so_trie s, so_code := so_code s, so_dirtyStorage := so_dirtyStorage s,
              so_cachedStorage := so_dirtyStorage s, so_suicided := so_suicided s, so_dirtyCode := so_dirtyCode s,
              so_deleted := so_deleted s\<rparr>))"

subsection \<open>statedb.go: objects\<close>

text \<open>
  The RLP form of an account. A \<open>time.Time\<close> has no exported field, so it is an empty list, and it is read back as
  the zero time.
\<close>

definition account_type :: rtyp where
  "account_type = TStruct [TString, TString, TString, TBig, TString, TStruct [], TStruct [], TUint 64,
     TByteArray HashLength, TBytes]"

definition account_rval :: "Account \<Rightarrow> rval" where
  "account_rval a = RStruct [RString (a_Address a), RString (a_PrivateKey a), RString (a_Name a), RBig (a_Balance a),
     RString (a_TransactionHash a), RStruct [], RStruct [], RUint (nat (a_Nonce a)), RBytes (a_Root a),
     RBytes (a_CodeHash a)]"

definition rval_account :: "rval \<Rightarrow> Account" where
  "rval_account v =
     (case v of
        RStruct [RString ad, RString pk, RString nm, RBig bal, RString th, _, _, RUint n, RBytes root, RBytes ch] \<Rightarrow>
          \<lparr>a_Address = ad, a_PrivateKey = pk, a_Name = nm, a_Balance = bal, a_TransactionHash = th,
           a_Updated = zero_time, a_Created = zero_time, a_Nonce = int n, a_Root = root, a_CodeHash = ch\<rparr>
      | _ \<Rightarrow> Account_zero)"

definition setStateObject :: "'t stateObject \<Rightarrow> 't StateDB \<Rightarrow> (AddressBytes \<times> 't StateDB) result" where
  "setStateObject s st =
     result_bind (GetAddressBytes (a_Address (so_account s))) (\<lambda>addr. Ok (addr, put_object addr s st))"

definition getStateObject :: "'t senv \<Rightarrow> AddressBytes \<Rightarrow> 't StateDB \<Rightarrow> (AddressBytes option \<times> 't StateDB) result" where
  "getStateObject E addr st =
     (case sd_StateObjects st addr of
        Some s \<Rightarrow> Ok (if so_deleted s then None else Some addr, st)
      | None \<Rightarrow>
          (let (r, t') = tr_TryGet (se_tries E) (sd_trie st) addr; st1 = st\<lparr>sd_trie := t'\<rparr>
           in case r of
                Panic e \<Rightarrow> Panic e
              | Err e \<Rightarrow> Ok (None, StateDB_setError (TrieError e) st1)
              | Ok enc \<Rightarrow>
                  if length enc = 0 then Ok (None, st1)
                  else (case DecodeBytes account_type enc of
                          Val v \<Rightarrow>
                            result_bind (setStateObject (newStateObject E (rval_account v)) st1) (\<lambda>(k, st2).
                              Ok (Some k, st2))
                        | _ \<Rightarrow> Ok (None, st1))))"

definition createObject ::
  "'t senv \<Rightarrow> AddressBytes \<Rightarrow> 't StateDB \<Rightarrow> (AddressBytes \<times> 't stateObject option \<times> 't StateDB) result" where
  "createObject E addr st =
     (let addressAsString = hex_EncodeToString addr;
          fresh = Account_zero\<lparr>a_Address := addressAsString, a_Balance := Some 0, a_Updated := se_now E,
            a_Created := se_now E\<rparr>
      in result_bind (getStateObject E addr st) (\<lambda>(p, st1).
         let prev = map_option (object_at st1) p
         in result_bind
              (if prev = None then
                 (case ToAccountByAddress (se_faults E) (se_txn E) addressAsString of
                    Ok a \<Rightarrow> Ok a | Err e \<Rightarrow> Ok fresh | Panic e \<Rightarrow> Panic e)
               else Ok fresh) (\<lambda>account.
         let st2 = journal_append (case prev of None \<Rightarrow> createObjectChange addr | Some s \<Rightarrow> resetObjectChange s) st1
         in result_bind (setStateObject (newStateObject E account) st2) (\<lambda>(k, st3). Ok (k, prev, st3)))))"

definition GetOrNewStateObject :: "'t senv \<Rightarrow> AddressBytes \<Rightarrow> 't StateDB \<Rightarrow> (AddressBytes \<times> 't StateDB) result" where
  "GetOrNewStateObject E addr st =
     result_bind (getStateObject E addr st) (\<lambda>(p, st1).
       case p of
         Some k \<Rightarrow> Ok (k, st1)
       | None \<Rightarrow> result_bind (createObject E addr st1) (\<lambda>(k, _, st2). Ok (k, st2)))"

definition StateDB_CreateAccount :: "'t senv \<Rightarrow> AddressBytes \<Rightarrow> 't StateDB \<Rightarrow> 't StateDB result" where
  "StateDB_CreateAccount E addr st =
     result_bind (createObject E addr st) (\<lambda>(k, prev, st1).
       Ok (case prev of
             None \<Rightarrow> st1
           | Some s \<Rightarrow> put_object k (stateObject_setBalance (object_balance s) (object_at st1 k)) st1))"

subsection \<open>statedb.go: reading\<close>

text \<open>\<open>f\<close> of the object at an address, \<open>d\<close> when there is none.\<close>

definition read_object ::
  "'t senv \<Rightarrow> AddressBytes \<Rightarrow> 'a \<Rightarrow> ('t stateObject \<Rightarrow> 'a) \<Rightarrow> 't StateDB \<Rightarrow> ('a \<times> 't StateDB) result" where
  "read_object E addr d f st =
     result_bind (getStateObject E addr st) (\<lambda>(p, st1).
       Ok (case p of None \<Rightarrow> d | Some k \<Rightarrow> f (object_at st1 k), st1))"

definition StateDB_Exist :: "'t senv \<Rightarrow> AddressBytes \<Rightarrow> 't StateDB \<Rightarrow> (bool \<times> 't StateDB) result" where
  "StateDB_Exist E addr = read_object E addr False (\<lambda>s. True)"

definition StateDB_Empty :: "'t senv \<Rightarrow> AddressBytes \<Rightarrow> 't StateDB \<Rightarrow> (bool \<times> 't StateDB) result" where
  "StateDB_Empty E addr = read_object E addr True (stateObject_empty E)"

definition StateDB_GetBalance :: "'t senv \<Rightarrow> AddressBytes \<Rightarrow> 't StateDB \<Rightarrow> (int \<times> 't StateDB) result" where
  "StateDB_GetBalance E addr = read_object E addr 0 object_balance"

definition StateDB_GetNonce :: "'t senv \<Rightarrow> AddressBytes \<Rightarrow> 't StateDB \<Rightarrow> (int \<times> 't StateDB) result" where
  "StateDB_GetNonce E addr = read_object E addr 0 (\<lambda>s. a_Nonce (so_account s))"

definition StateDB_GetCodeHash :: "'t senv \<Rightarrow> AddressBytes \<Rightarrow> 't StateDB \<Rightarrow> (HashBytes \<times> 't StateDB) result" where
  "StateDB_GetCodeHash E addr = read_object E addr zero_hash (\<lambda>s. BytesToHash (a_CodeHash (so_account s)))"

definition StateDB_HasSuicided :: "'t senv \<Rightarrow> AddressBytes \<Rightarrow> 't StateDB \<Rightarrow> (bool \<times> 't StateDB) result" where
  "StateDB_HasSuicided E addr = read_object E addr False so_suicided"

definition StateDB_GetCode :: "'t senv \<Rightarrow> AddressBytes \<Rightarrow> 't StateDB \<Rightarrow> (byte list option \<times> 't StateDB) result" where
  "StateDB_GetCode E addr st =
     result_bind (getStateObject E addr st) (\<lambda>(p, st1).
       case p of
         None \<Rightarrow> Ok (None, st1)
       | Some k \<Rightarrow> result_bind (stateObject_Code E st1 (object_at st1 k)) (\<lambda>(c, s). Ok (c, put_object k s st1)))"

definition StateDB_GetCodeSize :: "'t senv \<Rightarrow> AddressBytes \<Rightarrow> 't StateDB \<Rightarrow> (int \<times> 't StateDB) result" where
  "StateDB_GetCodeSize E addr st =
     result_bind (getStateObject E addr st) (\<lambda>(p, st1).
       case p of
         None \<Rightarrow> Ok (0, st1)
       | Some k \<Rightarrow>
           (let s = object_at st1 k in
            case so_code s of
              Some c \<Rightarrow> Ok (int (length c), st1)
            | None \<Rightarrow>
                result_bind (GetAddressBytes (a_Address (so_account s))) (\<lambda>_.
                  case ContractCode E st1 (BytesToHash (a_CodeHash (so_account s))) of
                    Ok c \<Rightarrow> Ok (int (length c), st1)
                  | Err e \<Rightarrow> Ok (0, StateDB_setError (CodeError e) st1)
                  | Panic e \<Rightarrow> Panic e)))"

definition StateDB_GetState ::
  "'t senv \<Rightarrow> AddressBytes \<Rightarrow> HashBytes \<Rightarrow> 't StateDB \<Rightarrow> (HashBytes \<times> 't StateDB) result" where
  "StateDB_GetState E addr key st =
     result_bind (getStateObject E addr st) (\<lambda>(p, st1).
       case p of
         None \<Rightarrow> Ok (zero_hash, st1)
       | Some k \<Rightarrow> result_bind (stateObject_GetState E key (object_at st1 k)) (\<lambda>(v, s). Ok (v, put_object k s st1)))"

definition StateDB_GetLogs :: "HashBytes \<Rightarrow> 't StateDB \<Rightarrow> Log list" where
  "StateDB_GetLogs h st = (case sd_logs st h of None \<Rightarrow> [] | Some ls \<Rightarrow> ls)"

definition StateDB_Logs :: "HashBytes list \<Rightarrow> 't StateDB \<Rightarrow> Log list" where
  "StateDB_Logs order st = concat (map (\<lambda>h. StateDB_GetLogs h st) order)"

definition StateDB_GetRefund :: "'t StateDB \<Rightarrow> int" where
  "StateDB_GetRefund st = sd_refund st"

subsection \<open>statedb.go: writing\<close>

definition StateDB_AddLog :: "Log \<Rightarrow> 't StateDB \<Rightarrow> 't StateDB" where
  "StateDB_AddLog log st =
     (let st1 = journal_append (addLogChange (sd_thash st)) st;
          log' = log\<lparr>l_TxHash := sd_thash st, l_BlockHash := sd_bhash st, l_TxIndex := wrap_u64 (sd_txIndex st),
            l_Index := sd_logSize st\<rparr>
      in st1\<lparr>sd_logs := (sd_logs st1)(sd_thash st \<mapsto> StateDB_GetLogs (sd_thash st) st1 @ [log']),
             sd_logSize := wrap_u64 (sd_logSize st1 + 1)\<rparr>)"

definition StateDB_AddPreimage :: "HashBytes \<Rightarrow> byte list \<Rightarrow> 't StateDB \<Rightarrow> 't StateDB" where
  "StateDB_AddPreimage h preimage st =
     (if sd_preimages st h = None
      then let st1 = journal_append (addPreimageChange h) st in st1\<lparr>sd_preimages := (sd_preimages st1)(h \<mapsto> preimage)\<rparr>
      else st)"

definition StateDB_AddRefund :: "int \<Rightarrow> 't StateDB \<Rightarrow> 't StateDB" where
  "StateDB_AddRefund gas st =
     (let st1 = journal_append (refundChange (sd_refund st)) st in st1\<lparr>sd_refund := wrap_u64 (sd_refund st1 + gas)\<rparr>)"

definition StateDB_AddBalance :: "'t senv \<Rightarrow> AddressBytes \<Rightarrow> int \<Rightarrow> 't StateDB \<Rightarrow> 't StateDB result" where
  "StateDB_AddBalance E addr amount st =
     result_bind (GetOrNewStateObject E addr st) (\<lambda>(k, st1).
     result_bind (stateObject_AddBalance E k amount st1) (\<lambda>st2.
     result_bind (StateDB_GetBalance E addr st2) (\<lambda>(_, st3). Ok st3)))"

definition StateDB_SubBalance :: "'t senv \<Rightarrow> AddressBytes \<Rightarrow> int \<Rightarrow> 't StateDB \<Rightarrow> 't StateDB result" where
  "StateDB_SubBalance E addr amount st =
     result_bind (GetOrNewStateObject E addr st) (\<lambda>(k, st1).
     result_bind (stateObject_SubBalance k amount st1) (\<lambda>st2.
     result_bind (StateDB_GetBalance E addr st2) (\<lambda>(_, st3). Ok st3)))"

definition StateDB_SetBalance :: "'t senv \<Rightarrow> AddressBytes \<Rightarrow> int \<Rightarrow> 't StateDB \<Rightarrow> 't StateDB result" where
  "StateDB_SetBalance E addr amount st =
     result_bind (GetOrNewStateObject E addr st) (\<lambda>(k, st1). stateObject_SetBalance k amount st1)"

definition StateDB_SetNonce :: "'t senv \<Rightarrow> AddressBytes \<Rightarrow> int \<Rightarrow> 't StateDB \<Rightarrow> 't StateDB result" where
  "StateDB_SetNonce E addr nonce st =
     result_bind (GetOrNewStateObject E addr st) (\<lambda>(k, st1). stateObject_SetNonce k nonce st1)"

definition StateDB_SetCode :: "'t senv \<Rightarrow> AddressBytes \<Rightarrow> byte list option \<Rightarrow> 't StateDB \<Rightarrow> 't StateDB result" where
  "StateDB_SetCode E addr code st =
     result_bind (GetOrNewStateObject E addr st) (\<lambda>(k, st1).
       stateObject_SetCode E k (crypto_NewHash (se_crypto E) (case code of None \<Rightarrow> [] | Some c \<Rightarrow> c)) code st1)"

definition StateDB_SetState ::
  "'t senv \<Rightarrow> AddressBytes \<Rightarrow> HashBytes \<Rightarrow> HashBytes \<Rightarrow> 't StateDB \<Rightarrow> 't StateDB result" where
  "StateDB_SetState E addr key v st =
     result_bind (GetOrNewStateObject E addr st) (\<lambda>(k, st1). stateObject_SetState E k key v st1)"

definition StateDB_Suicide :: "'t senv \<Rightarrow> AddressBytes \<Rightarrow> 't StateDB \<Rightarrow> (bool \<times> 't StateDB) result" where
  "StateDB_Suicide E addr st =
     result_bind (getStateObject E addr st) (\<lambda>(p, st1).
       Ok (case p of
             None \<Rightarrow> (False, st1)
           | Some k \<Rightarrow>
               (let s = object_at st1 k in
                (True, put_object k (stateObject_setBalance 0 (s\<lparr>so_suicided := True\<rparr>))
                   (journal_append (suicideChange addr (so_suicided s) (object_balance s)) st1)))))"

definition StateDB_Prepare :: "HashBytes \<Rightarrow> HashBytes \<Rightarrow> int \<Rightarrow> 't StateDB \<Rightarrow> 't StateDB" where
  "StateDB_Prepare thash bhash ti st = st\<lparr>sd_thash := thash, sd_bhash := bhash, sd_txIndex := ti\<rparr>"

subsection \<open>journal.go and statedb.go: reverting\<close>

text \<open>A method called on the nil object is a run-time panic.\<close>

definition on_object ::
  "'t senv \<Rightarrow> AddressBytes \<Rightarrow> ('t stateObject \<Rightarrow> 't stateObject) \<Rightarrow> 't StateDB \<Rightarrow> 't StateDB result" where
  "on_object E addr f st =
     result_bind (getStateObject E addr st) (\<lambda>(p, st1).
       case p of
         None \<Rightarrow> Panic ''nil pointer dereference''
       | Some k \<Rightarrow> Ok (put_object k (f (object_at st1 k)) st1))"

primrec undo :: "'t senv \<Rightarrow> 't journalEntry \<Rightarrow> 't StateDB \<Rightarrow> 't StateDB result" where
  "undo E (createObjectChange a) st =
     Ok (st\<lparr>sd_StateObjects := (sd_StateObjects st)(a := None), sd_stateObjectsDirty := sd_stateObjectsDirty st - {a}\<rparr>)"
| "undo E (resetObjectChange prev) st = result_bind (setStateObject prev st) (\<lambda>(_, st1). Ok st1)"
| "undo E (suicideChange a prev prevbalance) st =
     result_bind (getStateObject E a st) (\<lambda>(p, st1).
       Ok (case p of
             None \<Rightarrow> st1
           | Some k \<Rightarrow> put_object k (stateObject_setBalance prevbalance ((object_at st1 k)\<lparr>so_suicided := prev\<rparr>)) st1))"
| "undo E (balanceChange a prev) st = on_object E a (stateObject_setBalance prev) st"
| "undo E (nonceChange a prev) st = on_object E a (\<lambda>s. s\<lparr>so_account := (so_account s)\<lparr>a_Nonce := prev\<rparr>\<rparr>) st"
| "undo E (storageChange a key prevalue) st = on_object E a (stateObject_setState key prevalue) st"
| "undo E (codeChange a prevcode prevhash) st =
     on_object E a (stateObject_setCode (BytesToHash prevhash) prevcode) st"
| "undo E (refundChange prev) st = Ok (st\<lparr>sd_refund := prev\<rparr>)"
| "undo E (addLogChange h) st =
     (let logs = StateDB_GetLogs h st in
      if length logs = 0 then Panic ''slice bounds out of range''
      else Ok (st\<lparr>sd_logs := (sd_logs st)(h := (if length logs = 1 then None else Some (butlast logs))),
                  sd_logSize := wrap_u64 (sd_logSize st - 1)\<rparr>))"
| "undo E (addPreimageChange h) st = Ok (st\<lparr>sd_preimages := (sd_preimages st)(h := None)\<rparr>)"
| "undo E (touchChange a) st = Ok st"

text \<open>The entries from the last one back.\<close>

primrec undo_entries :: "'t senv \<Rightarrow> 't journalEntry list \<Rightarrow> 't StateDB \<Rightarrow> 't StateDB result" where
  "undo_entries E [] st = Ok st"
| "undo_entries E (e # es) st = result_bind (undo E e st) (\<lambda>st1. undo_entries E es (undirty e st1))"

definition journal_revert :: "'t senv \<Rightarrow> nat \<Rightarrow> 't StateDB \<Rightarrow> 't StateDB result" where
  "journal_revert E snapshot st =
     result_bind (undo_entries E (rev (drop snapshot (sd_entries st))) st) (\<lambda>st1.
       Ok (st1\<lparr>sd_entries := take snapshot (sd_entries st)\<rparr>))"

text \<open>\<open>sort.Search\<close>.\<close>

function search_between :: "nat \<Rightarrow> nat \<Rightarrow> (nat \<Rightarrow> bool) \<Rightarrow> nat" where
  "search_between i j f =
     (if i < j then
        let h = (i + j) div 2 in if \<not> f h then search_between (h + 1) j f else search_between i h f
      else i)"
  by pat_completeness auto
termination
  by (relation "measure (\<lambda>(i, j, f). j - i)") auto

declare search_between.simps [simp del]

definition StateDB_Snapshot :: "'t StateDB \<Rightarrow> int \<times> 't StateDB" where
  "StateDB_Snapshot st =
     (let i = sd_nextRevisionId st
      in (i, st\<lparr>sd_nextRevisionId := i + 1,
                sd_validRevisions := sd_validRevisions st @ [(i, length (sd_entries st))]\<rparr>))"

definition StateDB_RevertToSnapshot :: "'t senv \<Rightarrow> int \<Rightarrow> 't StateDB \<Rightarrow> 't StateDB result" where
  "StateDB_RevertToSnapshot E revid st =
     (let revs = sd_validRevisions st;
          idx = search_between 0 (length revs) (\<lambda>i. fst (revs ! i) \<ge> revid)
      in if idx = length revs \<or> fst (revs ! idx) \<noteq> revid then Panic ''revision id cannot be reverted''
         else result_bind (journal_revert E (snd (revs ! idx)) st) (\<lambda>st1.
                Ok (st1\<lparr>sd_validRevisions := take idx revs\<rparr>)))"

subsection \<open>Writing to the tries\<close>

definition note_error :: "unit result \<Rightarrow> 't stateObject \<Rightarrow> 't stateObject" where
  "note_error r s = (case r of Err e \<Rightarrow> stateObject_setError (TrieError e) s | _ \<Rightarrow> s)"

text \<open>One round of the loop of \<open>updateTrie\<close>; \<open>bytes.TrimLeft(value, zero byte)\<close> is a \<open>dropWhile\<close>.\<close>

definition updateTrie_key :: "'t senv \<Rightarrow> HashBytes \<Rightarrow> 't \<times> 't stateObject \<Rightarrow> ('t \<times> 't stateObject) result" where
  "updateTrie_key E key = (\<lambda>(tr, s).
     case so_dirtyStorage s key of
       None \<Rightarrow> Ok (tr, s)
     | Some value \<Rightarrow>
         (let s1 = s\<lparr>so_dirtyStorage := (so_dirtyStorage s)(key := None)\<rparr>;
              (r, tr') =
                (if value = zero_hash then tr_TryDelete (se_tries E) tr key
                 else case EncodeToBytes (RBytes (dropWhile (\<lambda>b. b = 0) value)) of
                        Ok v \<Rightarrow> tr_TryUpdate (se_tries E) tr key v
                      | _ \<Rightarrow> tr_TryUpdate (se_tries E) tr key [])
          in case r of Panic e \<Rightarrow> Panic e | _ \<Rightarrow> Ok (tr', note_error r (s1\<lparr>so_trie := Some tr'\<rparr>))))"

primrec updateTrie_keys :: "'t senv \<Rightarrow> HashBytes list \<Rightarrow> 't \<times> 't stateObject \<Rightarrow> ('t \<times> 't stateObject) result" where
  "updateTrie_keys E [] p = Ok p"
| "updateTrie_keys E (key # keys) p = result_bind (updateTrie_key E key p) (updateTrie_keys E keys)"

definition updateTrie :: "'t senv \<Rightarrow> HashBytes list \<Rightarrow> 't stateObject \<Rightarrow> ('t \<times> 't stateObject) result" where
  "updateTrie E order s = result_bind (stateObject_getTrie E s) (updateTrie_keys E order)"

definition updateRoot :: "'t senv \<Rightarrow> HashBytes list \<Rightarrow> 't stateObject \<Rightarrow> 't stateObject result" where
  "updateRoot E order s =
     result_bind (updateTrie E order s) (\<lambda>(tr, s1).
       let (h, tr') = tr_Hash (se_tries E) tr
       in Ok (s1\<lparr>so_trie := Some tr', so_account := (so_account s1)\<lparr>a_Root := h\<rparr>\<rparr>))"

definition CommitTrie :: "'t senv \<Rightarrow> HashBytes list \<Rightarrow> 't stateObject \<Rightarrow> (db_error option \<times> 't stateObject) result" where
  "CommitTrie E order s =
     result_bind (updateTrie E order s) (\<lambda>(tr, s1).
       case so_dbErr s1 of
         Some e \<Rightarrow> Ok (Some e, s1)
       | None \<Rightarrow>
           (let (r, tr') = tr_Commit (se_tries E) tr; s2 = s1\<lparr>so_trie := Some tr'\<rparr>
            in case r of
                 Ok root \<Rightarrow> Ok (None, s2\<lparr>so_account := (so_account s2)\<lparr>a_Root := root\<rparr>\<rparr>)
               | Err e \<Rightarrow> Ok (Some (TrieError e), s2)
               | Panic e \<Rightarrow> Panic e))"

definition note_db_error :: "unit result \<Rightarrow> 't StateDB \<Rightarrow> 't StateDB result" where
  "note_db_error r st =
     (case r of Ok _ \<Rightarrow> Ok st | Err e \<Rightarrow> Ok (StateDB_setError (TrieError e) st) | Panic e \<Rightarrow> Panic e)"

definition updateStateObject :: "'t senv \<Rightarrow> 't stateObject \<Rightarrow> 't StateDB \<Rightarrow> 't StateDB result" where
  "updateStateObject E s st =
     result_bind (GetAddressBytes (a_Address (so_account s))) (\<lambda>addr.
       case EncodeToBytes (account_rval (so_account s)) of
         Ok data \<Rightarrow>
           (let (r, t') = tr_TryUpdate (se_tries E) (sd_trie st) addr data in note_db_error r (st\<lparr>sd_trie := t'\<rparr>))
       | Err e \<Rightarrow> Panic e
       | Panic e \<Rightarrow> Panic e)"

definition deleteStateObject :: "'t senv \<Rightarrow> AddressBytes \<Rightarrow> 't StateDB \<Rightarrow> 't StateDB result" where
  "deleteStateObject E k st =
     (let s = object_at st k; st1 = put_object k (s\<lparr>so_deleted := True\<rparr>) st in
      result_bind (GetAddressBytes (a_Address (so_account s))) (\<lambda>addr.
        let (r, t') = tr_TryDelete (se_tries E) (sd_trie st1) addr in note_db_error r (st1\<lparr>sd_trie := t'\<rparr>)))"

definition clearJournalAndRefund :: "'t StateDB \<Rightarrow> 't StateDB" where
  "clearJournalAndRefund st =
     st\<lparr>sd_entries := [], sd_dirties := Map.empty, sd_validRevisions := [], sd_refund := 0\<rparr>"

text \<open>One round of the loop of \<open>Finalise\<close> over the dirty addresses.\<close>

definition finalise_object ::
  "'t senv \<Rightarrow> bool \<Rightarrow> (AddressBytes \<Rightarrow> HashBytes list) \<Rightarrow> AddressBytes \<Rightarrow> 't StateDB \<Rightarrow> 't StateDB result" where
  "finalise_object E deleteEmptyObjects order addr st =
     (case sd_StateObjects st addr of
        None \<Rightarrow> Ok st
      | Some s \<Rightarrow>
          result_bind
            (if so_suicided s \<or> (deleteEmptyObjects \<and> stateObject_empty E s) then deleteStateObject E addr st
             else result_bind (updateRoot E (order addr) s) (\<lambda>s1. updateStateObject E s1 (put_object addr s1 st)))
            (\<lambda>st1. Ok (st1\<lparr>sd_stateObjectsDirty := insert addr (sd_stateObjectsDirty st1)\<rparr>)))"

primrec finalise_objects ::
  "'t senv \<Rightarrow> bool \<Rightarrow> (AddressBytes \<Rightarrow> HashBytes list) \<Rightarrow> AddressBytes list \<Rightarrow> 't StateDB \<Rightarrow> 't StateDB result" where
  "finalise_objects E d order [] st = Ok st"
| "finalise_objects E d order (a # as) st = result_bind (finalise_object E d order a st) (finalise_objects E d order as)"

definition StateDB_Finalise ::
  "'t senv \<Rightarrow> bool \<Rightarrow> (AddressBytes \<Rightarrow> HashBytes list) \<Rightarrow> AddressBytes list \<Rightarrow> 't StateDB \<Rightarrow> 't StateDB result" where
  "StateDB_Finalise E deleteEmptyObjects order addrs st =
     result_bind (finalise_objects E deleteEmptyObjects order addrs st) (\<lambda>st1. Ok (clearJournalAndRefund st1))"

definition StateDB_IntermediateRoot ::
  "'t senv \<Rightarrow> bool \<Rightarrow> (AddressBytes \<Rightarrow> HashBytes list) \<Rightarrow> AddressBytes list \<Rightarrow> 't StateDB \<Rightarrow>
     (HashBytes \<times> 't StateDB) result" where
  "StateDB_IntermediateRoot E deleteEmptyObjects order addrs st =
     result_bind (StateDB_Finalise E deleteEmptyObjects order addrs st) (\<lambda>st1.
       let (h, t') = tr_Hash (se_tries E) (sd_trie st1) in Ok (h, st1\<lparr>sd_trie := t'\<rparr>))"

text \<open>One round of the loop of \<open>Commit\<close> over all objects; the error of \<open>CommitTrie\<close> ends the loop.\<close>

definition commit_object ::
  "'t senv \<Rightarrow> bool \<Rightarrow> (AddressBytes \<Rightarrow> HashBytes list) \<Rightarrow> AddressBytes \<Rightarrow> 't StateDB \<Rightarrow>
     (db_error option \<times> 't StateDB) result" where
  "commit_object E deleteEmptyObjects order addr st =
     (let s = object_at st addr;
          isDirty = addr \<in> sd_stateObjectsDirty st;
          clean = (\<lambda>st1. st1\<lparr>sd_stateObjectsDirty := sd_stateObjectsDirty st1 - {addr}\<rparr>)
      in if so_suicided s \<or> (isDirty \<and> deleteEmptyObjects \<and> stateObject_empty E s) then
           result_bind (deleteStateObject E addr st) (\<lambda>st1. Ok (None, clean st1))
         else if isDirty then
           (let h = BytesToHash (a_CodeHash (so_account s));
                (s1, st1) =
                  (case so_code s of
                     Some c \<Rightarrow>
                       if so_dirtyCode s
                       then (s\<lparr>so_dirtyCode := False\<rparr>,
                             st\<lparr>sd_blobs := (if sd_blobs st h = None then (sd_blobs st)(h \<mapsto> c) else sd_blobs st)\<rparr>)
                       else (s, st)
                   | None \<Rightarrow> (s, st))
            in result_bind (CommitTrie E (order addr) s1) (\<lambda>(e, s2).
                 let st2 = put_object addr s2 st1
                 in case e of
                      Some _ \<Rightarrow> Ok (e, st2)
                    | None \<Rightarrow> result_bind (updateStateObject E s2 st2) (\<lambda>st3. Ok (None, clean st3))))
         else Ok (None, clean st))"

primrec commit_objects ::
  "'t senv \<Rightarrow> bool \<Rightarrow> (AddressBytes \<Rightarrow> HashBytes list) \<Rightarrow> AddressBytes list \<Rightarrow> 't StateDB \<Rightarrow>
     (db_error option \<times> 't StateDB) result" where
  "commit_objects E d order [] st = Ok (None, st)"
| "commit_objects E d order (a # as) st =
     result_bind (commit_object E d order a st) (\<lambda>(e, st1).
       case e of Some _ \<Rightarrow> Ok (e, st1) | None \<Rightarrow> commit_objects E d order as st1)"

definition StateDB_Commit ::
  "'t senv \<Rightarrow> bool \<Rightarrow> (AddressBytes \<Rightarrow> HashBytes list) \<Rightarrow> AddressBytes list \<Rightarrow> 't StateDB \<Rightarrow>
     ((db_error + HashBytes) \<times> 't StateDB) result" where
  "StateDB_Commit E deleteEmptyObjects order addrs st =
     (let st1 = st\<lparr>sd_stateObjectsDirty := sd_stateObjectsDirty st \<union> dom (sd_dirties st)\<rparr>
      in result_bind (commit_objects E deleteEmptyObjects order addrs st1) (\<lambda>(e, st2).
           case e of
             Some e' \<Rightarrow> Ok (Inl e', clearJournalAndRefund st2)
           | None \<Rightarrow>
               (let (r, t') = tr_Commit (se_tries E) (sd_trie st2); st3 = clearJournalAndRefund (st2\<lparr>sd_trie := t'\<rparr>)
                in case r of
                     Ok root \<Rightarrow> Ok (Inr root, st3)
                   | Err e' \<Rightarrow> Ok (Inl (TrieError e'), st3)
                   | Panic e' \<Rightarrow> Panic e')))"

definition StateDB_Reset :: "'t senv \<Rightarrow> HashBytes \<Rightarrow> 't StateDB \<Rightarrow> unit result \<times> 't StateDB" where
  "StateDB_Reset E root st =
     (case tr_OpenTrie (se_tries E) root of
        Ok tr \<Rightarrow>
          (Ok (), clearJournalAndRefund (st\<lparr>sd_trie := tr, sd_StateObjects := Map.empty, sd_stateObjectsDirty := {},
             sd_thash := zero_hash, sd_bhash := zero_hash, sd_txIndex := 0, sd_logs := Map.empty, sd_logSize := 0,
             sd_preimages := Map.empty\<rparr>))
      | Err e \<Rightarrow> (Err e, st)
      | Panic e \<Rightarrow> (Panic e, st))"

text \<open>The flags of \<open>DeleteSuicides\<close>, over the dirty addresses in some order.\<close>

primrec delete_suicides :: "AddressBytes list \<Rightarrow> 't StateDB \<Rightarrow> 't StateDB result" where
  "delete_suicides [] st = Ok st"
| "delete_suicides (a # as) st =
     (case sd_StateObjects st a of
        None \<Rightarrow> Panic ''nil pointer dereference''
      | Some s \<Rightarrow>
          delete_suicides as
            ((put_object a (if so_suicided s then s\<lparr>so_deleted := True\<rparr> else s) st)
               \<lparr>sd_stateObjectsDirty := sd_stateObjectsDirty st - {a}\<rparr>))"

definition StateDB_DeleteSuicides :: "AddressBytes list \<Rightarrow> 't StateDB \<Rightarrow> 't StateDB result" where
  "StateDB_DeleteSuicides order st = delete_suicides order (clearJournalAndRefund st)"

text \<open>\<open>Copy\<close>: the objects with a change in the journal, then the dirty ones that are not yet copied.\<close>

primrec copy_objects :: "'t senv \<Rightarrow> 't StateDB \<Rightarrow> AddressBytes list \<Rightarrow> 't StateDB \<Rightarrow> 't StateDB result" where
  "copy_objects E self [] st = Ok st"
| "copy_objects E self (a # as) st =
     (if sd_StateObjects st a \<noteq> None then copy_objects E self as st
      else case sd_StateObjects self a of
        None \<Rightarrow> Panic ''nil pointer dereference''
      | Some s \<Rightarrow>
          result_bind (stateObject_deepCopy E s) (\<lambda>s'.
            copy_objects E self as
              ((put_object a s' st)\<lparr>sd_stateObjectsDirty := insert a (sd_stateObjectsDirty st)\<rparr>)))"

definition StateDB_Copy :: "'t senv \<Rightarrow> AddressBytes list \<Rightarrow> AddressBytes list \<Rightarrow> 't StateDB \<Rightarrow> 't StateDB result" where
  "StateDB_Copy E dirties dirtyObjects self =
     copy_objects E self (dirties @ dirtyObjects)
       (self\<lparr>sd_StateObjects := Map.empty, sd_stateObjectsDirty := {}, sd_dbErr := None, sd_thash := zero_hash,
             sd_bhash := zero_hash, sd_txIndex := 0, sd_entries := [], sd_dirties := Map.empty,
             sd_validRevisions := [], sd_nextRevisionId := 0\<rparr>)"

definition StateDB_StorageTrie ::
  "'t senv \<Rightarrow> HashBytes list \<Rightarrow> AddressBytes \<Rightarrow> 't StateDB \<Rightarrow> ('t option \<times> 't StateDB) result" where
  "StateDB_StorageTrie E order addr st =
     result_bind (getStateObject E addr st) (\<lambda>(p, st1).
       case p of
         None \<Rightarrow> Ok (None, st1)
       | Some k \<Rightarrow>
           result_bind (stateObject_deepCopy E (object_at st1 k)) (\<lambda>s.
           result_bind (updateTrie E order s) (\<lambda>(t, _). Ok (Some t, st1))))"

subsection \<open>secure_trie.go and database.go: the tries of the program\<close>

definition tres_result :: "'a tres \<Rightarrow> 'a result" where
  "tres_result r =
     (case r of
        Inr x \<Rightarrow> Ok x
      | Inl (MissingNodeError h p) \<Rightarrow> Err ''missing trie node''
      | Inl (TriePanic e) \<Rightarrow> Panic e
      | Inl OutOfFuel \<Rightarrow> Panic ''out of fuel'')"

definition hashKey :: "crypto \<Rightarrow> byte list \<Rightarrow> byte list" where
  "hashKey C key = crypto_NewHash C key"

definition Secure_TryGet :: "crypto \<Rightarrow> node_db \<Rightarrow> Trie \<Rightarrow> byte list \<Rightarrow> byte list result \<times> Trie" where
  "Secure_TryGet C D t key = (let (r, t') = TryGet D t (hashKey C key) in (tres_result r, t'))"

definition Secure_TryUpdate :: "crypto \<Rightarrow> node_db \<Rightarrow> Trie \<Rightarrow> byte list \<Rightarrow> byte list \<Rightarrow> unit result \<times> Trie" where
  "Secure_TryUpdate C D t key v = (let (r, t') = TryUpdate D t (hashKey C key) v in (tres_result r, t'))"

definition Secure_TryDelete :: "crypto \<Rightarrow> node_db \<Rightarrow> Trie \<Rightarrow> byte list \<Rightarrow> unit result \<times> Trie" where
  "Secure_TryDelete C D t key = (let (r, t') = TryDelete D t (hashKey C key) in (tres_result r, t'))"

text \<open>The cache limit of a trie decides when a commit drops loaded nodes, and nothing here.\<close>

definition NewSecure :: "node_db \<Rightarrow> HashBytes \<Rightarrow> Trie result" where
  "NewSecure D root = tres_result (New D root)"

text \<open>
  \<open>H\<close> and \<open>K\<close> are hashing and committing of a trie (\<open>hasher.go\<close>), \<open>code\<close> is the read of contract code from the node
  database.
\<close>

definition secure_tries ::
  "crypto \<Rightarrow> node_db \<Rightarrow> (Trie \<Rightarrow> HashBytes \<times> Trie) \<Rightarrow> (Trie \<Rightarrow> HashBytes result \<times> Trie) \<Rightarrow>
     (HashBytes \<Rightarrow> byte list option) \<Rightarrow> Trie tries" where
  "secure_tries C D H K code =
     \<lparr>tr_TryGet = Secure_TryGet C D, tr_TryUpdate = Secure_TryUpdate C D, tr_TryDelete = Secure_TryDelete C D,
      tr_Hash = H, tr_Commit = K, tr_OpenTrie = NewSecure D,
      tr_OpenStorageTrie = (\<lambda>addrHash. NewSecure D),
      tr_ContractCode = (\<lambda>h. case code h of Some c \<Rightarrow> Ok c | None \<Rightarrow> Err ''not found'')\<rparr>"

end
