(* ===== verification/State_Journal.thy ===== *)
theory State_Journal
  imports State_DB
begin

section \<open>Reverting restores the accounts: dvm/ethereum/state\<close>

text \<open>
  What the journal promises. \<open>state_abs\<close> is what can be seen of a \<open>StateDB\<close>: for each address the account, its code, its
  storage and whether it has suicided, and the refund, the logs and the preimages; it forgets what is loaded and
  cached. Every operation is shown to add entries to the journal whose reversal, \<open>aundos\<close> on the abstract
  states, leads back to the state before; \<open>undo\<close> on the concrete states simulates it.
  \<open>account_tries\<close> states what the code relies on of the interfaces \<open>Trie\<close> and \<open>Database\<close>.
\<close>

subsection \<open>The abstract states\<close>

record account_view =
  av_account :: Account
  av_code :: "byte list option"
  av_storage :: "HashBytes \<Rightarrow> HashBytes"
  av_suicided :: bool

record state_view =
  sv_accounts :: "AddressBytes \<Rightarrow> account_view option"
  sv_stored :: "AddressBytes \<Rightarrow> account_view option"
  sv_code :: "HashBytes \<Rightarrow> byte list result"
  sv_refund :: int
  sv_logs :: "HashBytes \<rightharpoonup> Log list"
  sv_logSize :: int
  sv_preimages :: "HashBytes \<rightharpoonup> byte list"

definition slot_value :: "byte list \<Rightarrow> HashBytes" where
  "slot_value enc =
     (if enc = [] then zero_hash else case Split enc of Inl e \<Rightarrow> zero_hash | Inr (_, content, _) \<Rightarrow> BytesToHash content)"

text \<open>The storage trie of an account as it is opened; the empty one when its root cannot be loaded.\<close>

definition opened_trie :: "'t senv \<Rightarrow> AddressBytes \<Rightarrow> HashBytes \<Rightarrow> 't" where
  "opened_trie E a root =
     (let h = crypto_NewHash (se_crypto E) a in
      case tr_OpenStorageTrie (se_tries E) h root of
        Ok t \<Rightarrow> t
      | _ \<Rightarrow> (case tr_OpenStorageTrie (se_tries E) h zero_hash of Ok t \<Rightarrow> t))"

definition code_view :: "'t senv \<Rightarrow> (HashBytes \<Rightarrow> byte list result) \<Rightarrow> byte list option \<Rightarrow> byte list \<Rightarrow> byte list option" where
  "code_view E cc code codeHash =
     (case code of
        Some c \<Rightarrow> Some c
      | None \<Rightarrow>
          if codeHash = emptyCodeHash E then None
          else (case cc (BytesToHash codeHash) of Ok c \<Rightarrow> Some c | _ \<Rightarrow> None))"

definition storage_view ::
  "'t senv \<Rightarrow> ('t \<Rightarrow> byte list \<Rightarrow> byte list) \<Rightarrow> AddressBytes \<Rightarrow> HashBytes \<Rightarrow> (HashBytes \<rightharpoonup> HashBytes) \<Rightarrow>
     HashBytes \<Rightarrow> HashBytes" where
  "storage_view E look a root cached key =
     (case cached key of Some v \<Rightarrow> v | None \<Rightarrow> slot_value (look (opened_trie E a root) key))"

definition abs_object ::
  "'t senv \<Rightarrow> ('t \<Rightarrow> byte list \<Rightarrow> byte list) \<Rightarrow> (HashBytes \<Rightarrow> byte list result) \<Rightarrow> AddressBytes \<Rightarrow> 't stateObject \<Rightarrow>
     account_view" where
  "abs_object E look cc a s =
     \<lparr>av_account = so_account s,
      av_code = code_view E cc (so_code s) (a_CodeHash (so_account s)),
      av_storage = storage_view E look a (a_Root (so_account s)) (so_cachedStorage s),
      av_suicided = so_suicided s\<rparr>"

definition stored_view ::
  "'t senv \<Rightarrow> ('t \<Rightarrow> byte list \<Rightarrow> byte list) \<Rightarrow> 't StateDB \<Rightarrow> AddressBytes \<Rightarrow> account_view option" where
  "stored_view E look st a =
     (let enc = look (sd_trie st) a in
      if enc = [] then None
      else case DecodeBytes account_type enc of
             Val v \<Rightarrow> Some (abs_object E look (ContractCode E st) a (newStateObject E (rval_account v)))
           | _ \<Rightarrow> None)"

definition state_abs :: "'t senv \<Rightarrow> ('t \<Rightarrow> byte list \<Rightarrow> byte list) \<Rightarrow> 't StateDB \<Rightarrow> state_view" where
  "state_abs E look st =
     \<lparr>sv_accounts = (\<lambda>a. case sd_StateObjects st a of
        Some s \<Rightarrow> if so_deleted s then None else Some (abs_object E look (ContractCode E st) a s)
      | None \<Rightarrow> stored_view E look st a),
      sv_stored = stored_view E look st, sv_code = ContractCode E st, sv_refund = sd_refund st,
      sv_logs = sd_logs st, sv_logSize = sd_logSize st, sv_preimages = sd_preimages st\<rparr>"

definition with_account :: "AddressBytes \<Rightarrow> account_view \<Rightarrow> state_view \<Rightarrow> state_view" where
  "with_account a v A = A\<lparr>sv_accounts := (sv_accounts A)(a \<mapsto> v)\<rparr>"

definition aon_object :: "AddressBytes \<Rightarrow> (account_view \<Rightarrow> account_view) \<Rightarrow> state_view \<Rightarrow> state_view option" where
  "aon_object a f A = map_option (\<lambda>v. with_account a (f v) A) (sv_accounts A a)"

definition view_balance :: "int \<Rightarrow> account_view \<Rightarrow> account_view" where
  "view_balance b v = v\<lparr>av_account := (av_account v)\<lparr>a_Balance := Some b\<rparr>\<rparr>"

text \<open>Reverting an entry; \<open>None\<close> when the entry does not fit the state.\<close>

primrec aundo :: "'t senv \<Rightarrow> ('t \<Rightarrow> byte list \<Rightarrow> byte list) \<Rightarrow> 't journalEntry \<Rightarrow> state_view \<Rightarrow> state_view option" where
  "aundo E look (createObjectChange a) A = Some (A\<lparr>sv_accounts := (sv_accounts A)(a := sv_stored A a)\<rparr>)"
| "aundo E look (resetObjectChange prev) A =
     (case GetAddressBytes (a_Address (so_account prev)) of
        Ok a \<Rightarrow> Some (with_account a (abs_object E look (sv_code A) a prev) A) | _ \<Rightarrow> None)"
| "aundo E look (suicideChange a prev bal) A =
     (case sv_accounts A a of
        None \<Rightarrow> Some A
      | Some v \<Rightarrow> Some (with_account a (view_balance bal (v\<lparr>av_suicided := prev\<rparr>)) A))"
| "aundo E look (balanceChange a prev) A = aon_object a (view_balance prev) A"
| "aundo E look (nonceChange a prev) A =
     aon_object a (\<lambda>v. v\<lparr>av_account := (av_account v)\<lparr>a_Nonce := prev\<rparr>\<rparr>) A"
| "aundo E look (storageChange a key prev) A =
     aon_object a (\<lambda>v. v\<lparr>av_storage := (av_storage v)(key := prev)\<rparr>) A"
| "aundo E look (codeChange a prevcode prevhash) A =
     aon_object a (\<lambda>v. v\<lparr>av_account := (av_account v)\<lparr>a_CodeHash := BytesToHash prevhash\<rparr>,
       av_code := code_view E (sv_code A) prevcode (BytesToHash prevhash)\<rparr>) A"
| "aundo E look (refundChange prev) A = Some (A\<lparr>sv_refund := prev\<rparr>)"
| "aundo E look (addLogChange h) A =
     (case sv_logs A h of
        None \<Rightarrow> None
      | Some logs \<Rightarrow>
          if logs = [] then None
          else Some (A\<lparr>sv_logs := (sv_logs A)(h := (if length logs = 1 then None else Some (butlast logs))),
                       sv_logSize := wrap_u64 (sv_logSize A - 1)\<rparr>))"
| "aundo E look (addPreimageChange h) A = Some (A\<lparr>sv_preimages := (sv_preimages A)(h := None)\<rparr>)"
| "aundo E look (touchChange a) A = Some A"

primrec aundos :: "'t senv \<Rightarrow> ('t \<Rightarrow> byte list \<Rightarrow> byte list) \<Rightarrow> 't journalEntry list \<Rightarrow> state_view \<Rightarrow> state_view option" where
  "aundos E look [] A = Some A"
| "aundos E look (e # es) A = Option.bind (aundo E look e A) (aundos E look es)"

lemma aundos_append [simp]: "aundos E look (xs @ ys) A = Option.bind (aundos E look xs A) (aundos E look ys)"
  by (induction xs arbitrary: A) (auto split: bind_splits)

subsection \<open>Well-formed states\<close>

definition object_ok :: "'t senv \<Rightarrow> ('t \<Rightarrow> byte list \<Rightarrow> byte list) \<Rightarrow> ('t \<Rightarrow> bool) \<Rightarrow> AddressBytes \<Rightarrow> 't stateObject \<Rightarrow> bool" where
  "object_ok E look tr_ok a s \<longleftrightarrow>
     GetAddressBytes (a_Address (so_account s)) = Ok a \<and> a_Balance (so_account s) \<noteq> None \<and>
     length (a_CodeHash (so_account s)) = HashLength \<and>
     tr_ok (opened_trie E a (a_Root (so_account s))) \<and>
     (\<forall>t \<in> set_option (so_trie s). tr_ok t \<and> look t = look (opened_trie E a (a_Root (so_account s))))"

primrec entry_ok :: "'t senv \<Rightarrow> ('t \<Rightarrow> byte list \<Rightarrow> byte list) \<Rightarrow> ('t \<Rightarrow> bool) \<Rightarrow> 't journalEntry \<Rightarrow> bool" where
  "entry_ok E look tr_ok (createObjectChange a) = True"
| "entry_ok E look tr_ok (resetObjectChange prev) =
     (\<not> so_deleted prev \<and> (\<exists>a. object_ok E look tr_ok a prev))"
| "entry_ok E look tr_ok (suicideChange a prev bal) = True"
| "entry_ok E look tr_ok (balanceChange a prev) = True"
| "entry_ok E look tr_ok (nonceChange a prev) = True"
| "entry_ok E look tr_ok (storageChange a key prev) = True"
| "entry_ok E look tr_ok (codeChange a c h) = (length h = HashLength)"
| "entry_ok E look tr_ok (refundChange prev) = True"
| "entry_ok E look tr_ok (addLogChange h) = True"
| "entry_ok E look tr_ok (addPreimageChange h) = True"
| "entry_ok E look tr_ok (touchChange a) = True"

text \<open>The snapshots: their numbers and their positions in the journal ascend.\<close>

definition revisions_ok :: "'t StateDB \<Rightarrow> bool" where
  "revisions_ok st \<longleftrightarrow>
     sorted_wrt (\<lambda>(i, m) (j, n). i < j \<and> m \<le> n) (sd_validRevisions st) \<and>
     list_all (\<lambda>(i, m). i < sd_nextRevisionId st \<and> m \<le> length (sd_entries st)) (sd_validRevisions st)"

definition accounts_ok :: "'t senv \<Rightarrow> ('t \<Rightarrow> byte list \<Rightarrow> byte list) \<Rightarrow> ('t \<Rightarrow> bool) \<Rightarrow> 't StateDB \<Rightarrow> bool" where
  "accounts_ok E look tr_ok st \<longleftrightarrow>
     tr_ok (sd_trie st) \<and>
     (\<forall>a s. sd_StateObjects st a = Some s \<longrightarrow>
        object_ok E look tr_ok a s \<and> (so_deleted s \<longrightarrow> look (sd_trie st) a = [])) \<and>
     (\<forall>a v. look (sd_trie st) a \<noteq> [] \<longrightarrow> DecodeBytes account_type (look (sd_trie st) a) = Val v \<longrightarrow>
        object_ok E look tr_ok a (newStateObject E (rval_account v))) \<and>
     is_u64 (sd_logSize st) \<and> (\<forall>h. sd_logs st h \<noteq> Some [])"

definition state_ok :: "'t senv \<Rightarrow> ('t \<Rightarrow> byte list \<Rightarrow> byte list) \<Rightarrow> ('t \<Rightarrow> bool) \<Rightarrow> 't StateDB \<Rightarrow> bool" where
  "state_ok E look tr_ok st \<longleftrightarrow>
     accounts_ok E look tr_ok st \<and> list_all (entry_ok E look tr_ok) (sd_entries st) \<and> revisions_ok st"

text \<open>The accounts of the Badger database: filed under their address, without a storage root and a code hash.\<close>

definition badger_ok :: "'t senv \<Rightarrow> bool" where
  "badger_ok E \<longleftrightarrow>
     length (emptyCodeHash E) = HashLength \<and>
     (\<forall>a. length a = AddressLength \<longrightarrow>
        (case ToAccountByAddress (se_faults E) (se_txn E) (hex_EncodeToString a) of
           Ok acc \<Rightarrow> a_Address acc = hex_EncodeToString a \<and> a_Root acc = zero_hash \<and> a_CodeHash acc = []
         | Err e \<Rightarrow> True | Panic e \<Rightarrow> False))"

text \<open>What no operation between a snapshot and its reversal changes.\<close>

definition frame :: "'t StateDB \<Rightarrow> 't StateDB \<Rightarrow> bool" where
  "frame st st' \<longleftrightarrow> sd_validRevisions st' = sd_validRevisions st \<and> sd_nextRevisionId st' = sd_nextRevisionId st"

definition quiet :: "'t senv \<Rightarrow> ('t \<Rightarrow> byte list \<Rightarrow> byte list) \<Rightarrow> ('t \<Rightarrow> bool) \<Rightarrow> 't StateDB \<Rightarrow> 't StateDB \<Rightarrow> bool" where
  "quiet E look tr_ok st st' \<longleftrightarrow>
     (accounts_ok E look tr_ok st \<longrightarrow> accounts_ok E look tr_ok st') \<and> sd_entries st' = sd_entries st \<and> frame st st'"

definition does :: "'t senv \<Rightarrow> ('t \<Rightarrow> byte list \<Rightarrow> byte list) \<Rightarrow> ('t \<Rightarrow> bool) \<Rightarrow> 't StateDB \<Rightarrow> 't StateDB \<Rightarrow> bool" where
  "does E look tr_ok st st' \<longleftrightarrow>
     accounts_ok E look tr_ok st' \<and> frame st st' \<and>
     (\<exists>new. sd_entries st' = sd_entries st @ new \<and> list_all (entry_ok E look tr_ok) new \<and>
        aundos E look (rev new) (state_abs E look st') = Some (state_abs E look st))"

subsection \<open>GetAddressBytes\<close>

lemma hex_prefix_Encode [simp]: "hex_prefix (hex_EncodeToString bs) = bs"
proof (induction bs)
  case (Cons b bs)
  have "unat b div 16 < 16" using unat_byte_lt [of b] by simp
  then show ?case using Cons by (simp add: hextable_fromHexChar)
qed simp

lemma hextable_no_space: "n < 16 \<Longrightarrow> \<not> is_space (hextable ! n)"
proof -
  have "\<forall>n < 16. \<not> is_space (hextable ! n)" unfolding hextable_def is_space_def by code_simp
  then show "n < 16 \<Longrightarrow> \<not> is_space (hextable ! n)" by blast
qed

lemma GetAddressBytes_hex:
  assumes "length a = AddressLength" shows "GetAddressBytes (hex_EncodeToString a) = Ok a"
proof -
  obtain b bs where a: "a = b # bs" using assms by (cases a) (auto simp: AddressLength_def)
  have "unat b div 16 < 16" using unat_byte_lt [of b] by simp
  then have "\<not> list_all is_space (hex_EncodeToString a)" by (simp add: a hextable_no_space)
  with assms show ?thesis by (simp add: GetAddressBytes_def)
qed

subsection \<open>Fields that \<open>state_abs\<close> does not see\<close>

lemma ContractCode_cong: "sd_blobs st' = sd_blobs st \<Longrightarrow> ContractCode E st' = ContractCode E st"
  by (simp add: ContractCode_def fun_eq_iff)

lemma stored_view_cong:
  "look (sd_trie st') = look (sd_trie st) \<Longrightarrow> sd_blobs st' = sd_blobs st \<Longrightarrow> stored_view E look st' = stored_view E look st"
  by (intro ext) (simp add: stored_view_def Let_def ContractCode_cong [of st' st] split: dres.split)

lemma storage_view_put: "storage_view E look a root (cached(key \<mapsto> v)) = (storage_view E look a root cached)(key := v)"
  by (simp add: storage_view_def fun_eq_iff)

lemma state_abs_rest:
  assumes "look (sd_trie st') = look (sd_trie st)" "sd_blobs st' = sd_blobs st" "sd_StateObjects st' = sd_StateObjects st"
  shows "state_abs E look st' = (state_abs E look st)\<lparr>sv_refund := sd_refund st', sv_logs := sd_logs st',
    sv_logSize := sd_logSize st', sv_preimages := sd_preimages st'\<rparr>"
  using assms by (simp add: state_abs_def stored_view_cong [of look st' st] ContractCode_cong [of st' st] fun_eq_iff
      split: option.split)

lemma state_abs_cong:
  "look (sd_trie st') = look (sd_trie st) \<Longrightarrow> sd_blobs st' = sd_blobs st \<Longrightarrow> sd_StateObjects st' = sd_StateObjects st \<Longrightarrow>
   sd_refund st' = sd_refund st \<Longrightarrow> sd_logs st' = sd_logs st \<Longrightarrow> sd_logSize st' = sd_logSize st \<Longrightarrow>
   sd_preimages st' = sd_preimages st \<Longrightarrow> state_abs E look st' = state_abs E look st"
  using state_abs_rest [of look st' st E] by (simp add: state_abs_def)

lemma state_abs_sel:
  "sv_code (state_abs E look st) = ContractCode E st" "sv_refund (state_abs E look st) = sd_refund st"
  "sv_logs (state_abs E look st) = sd_logs st" "sv_logSize (state_abs E look st) = sd_logSize st"
  "sv_preimages (state_abs E look st) = sd_preimages st" "sv_stored (state_abs E look st) = stored_view E look st"
  by (simp_all add: state_abs_def)

lemma put_object_sel [simp]:
  "sd_StateObjects (put_object k s st) = (sd_StateObjects st)(k \<mapsto> s)" "sd_trie (put_object k s st) = sd_trie st"
  "sd_entries (put_object k s st) = sd_entries st" "sd_blobs (put_object k s st) = sd_blobs st"
  "sd_refund (put_object k s st) = sd_refund st" "sd_logs (put_object k s st) = sd_logs st"
  "sd_logSize (put_object k s st) = sd_logSize st" "sd_preimages (put_object k s st) = sd_preimages st"
  "sd_validRevisions (put_object k s st) = sd_validRevisions st"
  "sd_nextRevisionId (put_object k s st) = sd_nextRevisionId st"
  by (simp_all add: put_object_def)

lemma journal_dirty_sel [simp]:
  "sd_StateObjects (journal_dirty a st) = sd_StateObjects st" "sd_trie (journal_dirty a st) = sd_trie st"
  "sd_entries (journal_dirty a st) = sd_entries st" "sd_blobs (journal_dirty a st) = sd_blobs st"
  "sd_refund (journal_dirty a st) = sd_refund st" "sd_logs (journal_dirty a st) = sd_logs st"
  "sd_logSize (journal_dirty a st) = sd_logSize st" "sd_preimages (journal_dirty a st) = sd_preimages st"
  "sd_validRevisions (journal_dirty a st) = sd_validRevisions st"
  "sd_nextRevisionId (journal_dirty a st) = sd_nextRevisionId st"
  by (simp_all add: journal_dirty_def)

lemma journal_append_sel [simp]:
  "sd_StateObjects (journal_append e st) = sd_StateObjects st" "sd_trie (journal_append e st) = sd_trie st"
  "sd_entries (journal_append e st) = sd_entries st @ [e]" "sd_blobs (journal_append e st) = sd_blobs st"
  "sd_refund (journal_append e st) = sd_refund st" "sd_logs (journal_append e st) = sd_logs st"
  "sd_logSize (journal_append e st) = sd_logSize st" "sd_preimages (journal_append e st) = sd_preimages st"
  "sd_validRevisions (journal_append e st) = sd_validRevisions st"
  "sd_nextRevisionId (journal_append e st) = sd_nextRevisionId st"
  by (simp_all add: journal_append_def Let_def split: option.split)

lemma undirty_sel [simp]:
  "sd_StateObjects (undirty e st) = sd_StateObjects st" "sd_trie (undirty e st) = sd_trie st"
  "sd_entries (undirty e st) = sd_entries st" "sd_blobs (undirty e st) = sd_blobs st"
  "sd_refund (undirty e st) = sd_refund st" "sd_logs (undirty e st) = sd_logs st"
  "sd_logSize (undirty e st) = sd_logSize st" "sd_preimages (undirty e st) = sd_preimages st"
  "sd_validRevisions (undirty e st) = sd_validRevisions st"
  "sd_nextRevisionId (undirty e st) = sd_nextRevisionId st"
  by (simp_all add: undirty_def Let_def split: option.split)

lemma setError_sel [simp]:
  "sd_StateObjects (StateDB_setError e st) = sd_StateObjects st" "sd_trie (StateDB_setError e st) = sd_trie st"
  "sd_entries (StateDB_setError e st) = sd_entries st" "sd_blobs (StateDB_setError e st) = sd_blobs st"
  "sd_refund (StateDB_setError e st) = sd_refund st" "sd_logs (StateDB_setError e st) = sd_logs st"
  "sd_logSize (StateDB_setError e st) = sd_logSize st" "sd_preimages (StateDB_setError e st) = sd_preimages st"
  "sd_validRevisions (StateDB_setError e st) = sd_validRevisions st"
  "sd_nextRevisionId (StateDB_setError e st) = sd_nextRevisionId st"
  by (simp_all add: StateDB_setError_def)

lemma object_setError_sel [simp]:
  "so_account (stateObject_setError e s) = so_account s" "so_trie (stateObject_setError e s) = so_trie s"
  "so_code (stateObject_setError e s) = so_code s" "so_cachedStorage (stateObject_setError e s) = so_cachedStorage s"
  "so_suicided (stateObject_setError e s) = so_suicided s" "so_deleted (stateObject_setError e s) = so_deleted s"
  by (simp_all add: stateObject_setError_def)

lemma journal_append_abs [simp]: "state_abs E look (journal_append e st) = state_abs E look st"
  by (rule state_abs_cong) simp_all

lemma journal_append_ok [simp]:
  "accounts_ok E look tr_ok (journal_append e st) \<longleftrightarrow> accounts_ok E look tr_ok st"
  by (simp add: accounts_ok_def)

lemma put_object_abs:
  "\<not> so_deleted s \<Longrightarrow> state_abs E look (put_object a s st) =
     with_account a (abs_object E look (ContractCode E st) a s) (state_abs E look st)"
  by (simp add: state_abs_def with_account_def ContractCode_cong [of "put_object a s st" st]
      stored_view_cong [of look "put_object a s st" st] fun_eq_iff split: option.split)

lemma put_object_ok:
  "accounts_ok E look tr_ok st \<Longrightarrow> object_ok E look tr_ok a s \<Longrightarrow> \<not> so_deleted s \<Longrightarrow>
   accounts_ok E look tr_ok (put_object a s st)"
  by (simp add: accounts_ok_def)

lemma frame_simps [simp]:
  "frame st (put_object k s st') = frame st st'" "frame st (journal_append e st') = frame st st'"
  "frame st (journal_dirty a st') = frame st st'" "frame st st"
  by (simp_all add: frame_def)

lemma with_account_sel [simp]:
  "sv_accounts (with_account a v A) = (sv_accounts A)(a \<mapsto> v)" "sv_stored (with_account a v A) = sv_stored A"
  "sv_code (with_account a v A) = sv_code A"
  by (simp_all add: with_account_def)

lemma with_account_twice [simp]: "with_account a v (with_account a w A) = with_account a v A"
  by (simp add: with_account_def)

lemma with_account_same: "sv_accounts A a = Some v \<Longrightarrow> with_account a v A = A"
  by (simp add: with_account_def fun_upd_idem)

lemma does_trans:
  assumes "does E look tr_ok st st1" "does E look tr_ok st1 st2" shows "does E look tr_ok st st2"
proof -
  obtain n1 n2 where "sd_entries st1 = sd_entries st @ n1" "sd_entries st2 = sd_entries st1 @ n2"
    "list_all (entry_ok E look tr_ok) n1" "list_all (entry_ok E look tr_ok) n2"
    "aundos E look (rev n1) (state_abs E look st1) = Some (state_abs E look st)"
    "aundos E look (rev n2) (state_abs E look st2) = Some (state_abs E look st1)"
    using assms by (auto simp: does_def)
  then show ?thesis using assms by (auto simp: does_def frame_def intro!: exI [of _ "n1 @ n2"])
qed

text \<open>One entry whose reversal leads back.\<close>

lemma does_one:
  assumes "accounts_ok E look tr_ok st'" "frame st st'" "sd_entries st' = sd_entries st @ [e]" "entry_ok E look tr_ok e"
    "aundo E look e (state_abs E look st') = Some (state_abs E look st)"
  shows "does E look tr_ok st st'"
  using assms unfolding does_def by (intro conjI exI [of _ "[e]"]) simp_all

lemma does_none:
  assumes "accounts_ok E look tr_ok st'" "frame st st'" "sd_entries st' = sd_entries st"
    "state_abs E look st' = state_abs E look st"
  shows "does E look tr_ok st st'"
  using assms unfolding does_def by (intro conjI exI [of _ "[]"]) simp_all

subsection \<open>What the state relies on\<close>

locale account_tries =
  fixes E :: "'t senv" and look :: "'t \<Rightarrow> byte list \<Rightarrow> byte list" and tr_ok :: "'t \<Rightarrow> bool"
  assumes TryGet_look: "tr_ok t \<Longrightarrow>
      \<exists>t'. tr_TryGet (se_tries E) t k = (Ok (look t k), t') \<and> tr_ok t' \<and> look t' = look t"
    and OpenStorageTrie_returns: "tr_OpenStorageTrie (se_tries E) h r \<noteq> Panic e"
    and OpenStorageTrie_empty: "\<exists>t. tr_OpenStorageTrie (se_tries E) h zero_hash = Ok t \<and> tr_ok t"
    and ContractCode_returns: "tr_ContractCode (se_tries E) h \<noteq> Panic e"
begin

text \<open>The object at an address is found exactly when the abstract state has one, and it is then filed there.\<close>

lemma getStateObject_ok:
  assumes "accounts_ok E look tr_ok st"
  obtains p st1 where "getStateObject E a st = Ok (p, st1)" "accounts_ok E look tr_ok st1" "frame st st1"
    "sd_entries st1 = sd_entries st" "state_abs E look st1 = state_abs E look st" "sd_blobs st1 = sd_blobs st"
    "case sv_accounts (state_abs E look st) a of
       None \<Rightarrow> p = None
     | Some v \<Rightarrow> p = Some a \<and> (\<exists>s. sd_StateObjects st1 a = Some s \<and> \<not> so_deleted s \<and> object_ok E look tr_ok a s \<and>
         abs_object E look (ContractCode E st) a s = v)"
proof (cases "sd_StateObjects st a")
  case (Some s)
  then have "getStateObject E a st = Ok (if so_deleted s then None else Some a, st)"
    by (simp add: getStateObject_def)
  then show ?thesis
    by (rule that) (use assms Some in \<open>auto simp: state_abs_def accounts_ok_def\<close>)
next
  case None
  obtain t' where t': "tr_TryGet (se_tries E) (sd_trie st) a = (Ok (look (sd_trie st) a), t')" "tr_ok t'"
    "look t' = look (sd_trie st)"
    using TryGet_look [of "sd_trie st" a] assms by (auto simp: accounts_ok_def)
  let ?enc = "look (sd_trie st) a" and ?st = "st\<lparr>sd_trie := t'\<rparr>"
  have ok: "accounts_ok E look tr_ok ?st" using assms t' by (simp add: accounts_ok_def)
  have same: "state_abs E look ?st = state_abs E look st" by (rule state_abs_cong) (simp_all add: t')
  have acc: "sv_accounts (state_abs E look st) a = stored_view E look st a" using None by (simp add: state_abs_def)
  show ?thesis
  proof (cases "?enc = []")
    case True
    then have "getStateObject E a st = Ok (None, ?st)" by (simp add: getStateObject_def None t')
    then show ?thesis by (rule that) (use ok same acc True in \<open>simp_all add: frame_def stored_view_def\<close>)
  next
    case ne: False
    show ?thesis
    proof (cases "DecodeBytes account_type ?enc")
      case (Val v)
      let ?s = "newStateObject E (rval_account v)"
      have s: "object_ok E look tr_ok a ?s" "\<not> so_deleted ?s"
        using assms ne Val by (auto simp: accounts_ok_def newStateObject_def)
      have abs_s: "sv_accounts (state_abs E look st) a = Some (abs_object E look (ContractCode E st) a ?s)"
        using ne Val by (simp add: acc stored_view_def)
      have "getStateObject E a st = Ok (Some a, put_object a ?s ?st)"
        using s ne Val by (simp add: getStateObject_def None t' setStateObject_def object_ok_def)
      then show ?thesis
      proof (rule that)
        show "accounts_ok E look tr_ok (put_object a ?s ?st)" using ok s by (rule put_object_ok)
        show "state_abs E look (put_object a ?s ?st) = state_abs E look st"
          using abs_s s by (simp add: put_object_abs same with_account_same ContractCode_cong [of ?st st])
      qed (use s abs_s in \<open>simp_all add: frame_def\<close>)
    qed (rule that [of None ?st], use None ne t' ok same acc in \<open>simp_all add: getStateObject_def frame_def stored_view_def\<close>)+
  qed
qed

lemma opened_trie_zero: "tr_ok (opened_trie E a zero_hash)"
  using OpenStorageTrie_empty [of "crypto_NewHash (se_crypto E) a"] by (auto simp: opened_trie_def)

lemma getTrie_ok:
  assumes "object_ok E look tr_ok a s"
  obtains t s1 where "stateObject_getTrie E s = Ok (t, s1)" "tr_ok t"
    "look t = look (opened_trie E a (a_Root (so_account s)))" "so_trie s1 = Some t" "so_account s1 = so_account s"
    "so_code s1 = so_code s" "so_cachedStorage s1 = so_cachedStorage s" "so_suicided s1 = so_suicided s"
    "so_deleted s1 = so_deleted s"
proof (cases "so_trie s")
  case (Some t)
  then show ?thesis using assms that [of t s] by (simp add: stateObject_getTrie_def object_ok_def)
next
  case None
  let ?h = "crypto_NewHash (se_crypto E) a"
  obtain z where z: "tr_OpenStorageTrie (se_tries E) ?h zero_hash = Ok z" using OpenStorageTrie_empty by blast
  have g: "GetAddressBytes (a_Address (so_account s)) = Ok a" "tr_ok (opened_trie E a (a_Root (so_account s)))"
    using assms by (simp_all add: object_ok_def)
  show ?thesis
  proof (cases "tr_OpenStorageTrie (se_tries E) ?h (a_Root (so_account s))")
    case (Ok t)
    then show ?thesis using None g that [of t]
      by (simp add: stateObject_getTrie_def Let_def opened_trie_def)
  next
    case (Err e)
    then show ?thesis
      using None g z that [of z "stateObject_setError (TrieError e) (s\<lparr>so_trie := Some z\<rparr>)"]
      by (simp add: stateObject_getTrie_def Let_def opened_trie_def)
  next
    case (Panic e)
    then show ?thesis using OpenStorageTrie_returns by blast
  qed
qed

lemma GetState_ok:
  assumes "object_ok E look tr_ok a s"
  obtains s1 where "stateObject_GetState E key s = Ok (av_storage (abs_object E look cc a s) key, s1)"
    "object_ok E look tr_ok a s1" "abs_object E look cc a s1 = abs_object E look cc a s"
    "so_deleted s1 = so_deleted s" "so_account s1 = so_account s" "so_code s1 = so_code s" "so_suicided s1 = so_suicided s"
proof (cases "so_cachedStorage s key")
  case (Some v)
  then show ?thesis using assms that [of s] by (simp add: stateObject_GetState_def abs_object_def storage_view_def)
next
  case None
  obtain t s1 where t: "stateObject_getTrie E s = Ok (t, s1)" "tr_ok t"
    "look t = look (opened_trie E a (a_Root (so_account s)))"
    and s1: "so_trie s1 = Some t" "so_account s1 = so_account s" "so_code s1 = so_code s"
    "so_cachedStorage s1 = so_cachedStorage s" "so_suicided s1 = so_suicided s" "so_deleted s1 = so_deleted s"
    using getTrie_ok [OF assms] by blast
  obtain t' where t': "tr_TryGet (se_tries E) t key = (Ok (look t key), t')" "tr_ok t'" "look t' = look t"
    using TryGet_look [OF t(2)] by blast
  let ?s2 = "s1\<lparr>so_trie := Some t'\<rparr>" and ?v = "slot_value (look t key)"
  define s3 where "s3 = (case Split (look t key) of Inl e \<Rightarrow>
    if look t key = [] then ?s2 else stateObject_setError (RlpError e) ?s2 | Inr _ \<Rightarrow> ?s2)"
  have s3: "so_trie s3 = Some t'" "so_account s3 = so_account s" "so_code s3 = so_code s"
    "so_cachedStorage s3 = so_cachedStorage s" "so_suicided s3 = so_suicided s" "so_deleted s3 = so_deleted s"
    using s1 by (simp_all add: s3_def split: sum.split)
  let ?s4 = "if ?v \<noteq> zero_hash then s3\<lparr>so_cachedStorage := (so_cachedStorage s3)(key \<mapsto> ?v)\<rparr> else s3"
  have "stateObject_GetState E key s = Ok (?v, ?s4)"
    by (auto simp: stateObject_GetState_def None t t' s3_def slot_value_def Let_def split: sum.split)
  moreover have "?v = av_storage (abs_object E look cc a s) key" by (simp add: abs_object_def storage_view_def None t)
  moreover have "object_ok E look tr_ok a ?s4" using assms t t' s3 by (simp add: object_ok_def)
  moreover have "abs_object E look cc a ?s4 = abs_object E look cc a s"
    by (auto simp: abs_object_def s3 None t storage_view_put) (simp add: storage_view_def None t fun_upd_idem)
  ultimately show ?thesis using that [of ?s4] s3 by simp
qed

lemma ContractCode_no_panic: "ContractCode E st h \<noteq> Panic e"
  using ContractCode_returns by (simp add: ContractCode_def split: option.split)

lemma Code_ok:
  assumes "object_ok E look tr_ok a s"
  obtains s1 where "stateObject_Code E st s = Ok (av_code (abs_object E look (ContractCode E st) a s), s1)"
    "object_ok E look tr_ok a s1"
    "abs_object E look (ContractCode E st) a s1 = abs_object E look (ContractCode E st) a s"
    "so_deleted s1 = so_deleted s" "so_account s1 = so_account s" "so_suicided s1 = so_suicided s"
proof (cases "so_code s = None \<and> a_CodeHash (so_account s) \<noteq> emptyCodeHash E")
  case False
  then show ?thesis using assms that [of s]
    by (auto simp: stateObject_Code_def abs_object_def code_view_def split: option.splits)
next
  case True
  have g: "GetAddressBytes (a_Address (so_account s)) = Ok a" "a_CodeHash (so_account s) \<noteq> []"
    using assms by (auto simp: object_ok_def HashLength_def)
  show ?thesis
  proof (cases "ContractCode E st (BytesToHash (a_CodeHash (so_account s)))")
    case (Ok c)
    then show ?thesis using True g assms that [of "s\<lparr>so_code := Some c\<rparr>"]
      by (simp add: stateObject_Code_def abs_object_def code_view_def object_ok_def)
  next
    case (Err e)
    then show ?thesis using True g assms that [of "stateObject_setError (CodeError e) s"]
      by (simp add: stateObject_Code_def abs_object_def code_view_def object_ok_def)
  next
    case (Panic e)
    then show ?thesis using ContractCode_no_panic by blast
  qed
qed

text \<open>A change of the object at an address, entered into the journal.\<close>

lemma object_change:
  assumes "accounts_ok E look tr_ok st" "object_ok E look tr_ok a s'" "\<not> so_deleted s'" "entry_ok E look tr_ok e"
    "aundo E look e (with_account a (abs_object E look (ContractCode E st) a s') (state_abs E look st)) =
       Some (state_abs E look st)"
  shows "does E look tr_ok st (put_object a s' (journal_append e st))"
  using assms by (intro does_one [where e = e])
    (simp_all add: put_object_ok put_object_abs ContractCode_cong [of "journal_append e st" st])

text \<open>An object that is there and can be changed.\<close>

definition has :: "'t StateDB \<Rightarrow> AddressBytes \<Rightarrow> 't stateObject \<Rightarrow> bool" where
  "has st a s \<longleftrightarrow> accounts_ok E look tr_ok st \<and> sd_StateObjects st a = Some s \<and> \<not> so_deleted s \<and>
     object_ok E look tr_ok a s"

lemma has_abs: "has st a s \<Longrightarrow> sv_accounts (state_abs E look st) a = Some (abs_object E look (ContractCode E st) a s)"
  by (simp add: has_def state_abs_def)

lemma has_object_at [simp]: "has st a s \<Longrightarrow> object_at st a = s"
  by (simp add: has_def object_at_def)

lemma has_address: "has st a s \<Longrightarrow> GetAddressBytes (a_Address (so_account s)) = Ok a"
  by (simp add: has_def object_ok_def)

lemma abs_setBalance [simp]:
  "abs_object E look cc a (stateObject_setBalance b s) = view_balance b (abs_object E look cc a s)"
  by (simp add: abs_object_def view_balance_def stateObject_setBalance_def)

lemma view_balance_balance [simp]: "view_balance b (view_balance c v) = view_balance b v"
  by (simp add: view_balance_def)

lemma view_balance_same:
  "object_ok E look tr_ok a s \<Longrightarrow> view_balance (object_balance s) (abs_object E look cc a s) = abs_object E look cc a s"
  by (auto simp: view_balance_def abs_object_def object_balance_def object_ok_def)

lemma setBalance_ok [simp]:
  "object_ok E look tr_ok a s \<Longrightarrow> object_ok E look tr_ok a (stateObject_setBalance b s)"
  "so_deleted (stateObject_setBalance b s) = so_deleted s"
  by (simp_all add: object_ok_def stateObject_setBalance_def)

lemma SetBalance_does:
  assumes "has st a s"
  obtains st1 where "stateObject_SetBalance a b st = Ok st1" "does E look tr_ok st st1"
proof (rule that)
  let ?e = "balanceChange a (object_balance s)"
  show "stateObject_SetBalance a b st = Ok (put_object a (stateObject_setBalance b s) (journal_append ?e st))"
    using assms by (simp add: stateObject_SetBalance_def Let_def has_address)
  show "does E look tr_ok st (put_object a (stateObject_setBalance b s) (journal_append ?e st))"
    using assms has_abs [OF assms]
    by (intro object_change) (auto simp: has_def aon_object_def view_balance_same with_account_same)
qed

lemma SetNonce_does:
  assumes "has st a s"
  obtains st1 where "stateObject_SetNonce a n st = Ok st1" "does E look tr_ok st st1"
proof (rule that)
  let ?e = "nonceChange a (a_Nonce (so_account s))" and ?s = "s\<lparr>so_account := (so_account s)\<lparr>a_Nonce := n\<rparr>\<rparr>"
  show "stateObject_SetNonce a n st = Ok (put_object a ?s (journal_append ?e st))"
    using assms by (simp add: stateObject_SetNonce_def Let_def has_address)
  show "does E look tr_ok st (put_object a ?s (journal_append ?e st))"
    using assms has_abs [OF assms]
    by (intro object_change) (auto simp: has_def aon_object_def abs_object_def with_account_same object_ok_def)
qed

lemma SetState_does:
  assumes "has st a s"
  obtains st1 where "stateObject_SetState E a key v st = Ok st1" "does E look tr_ok st st1"
proof -
  let ?cc = "ContractCode E st"
  obtain s1 where s1: "stateObject_GetState E key s = Ok (av_storage (abs_object E look ?cc a s) key, s1)"
    "object_ok E look tr_ok a s1" "abs_object E look ?cc a s1 = abs_object E look ?cc a s" "so_deleted s1 = so_deleted s"
    using GetState_ok [where a = a and s = s and key = key and cc = ?cc] assms unfolding has_def by metis
  let ?s2 = "stateObject_setState key v s1" and ?e = "storageChange a key (av_storage (abs_object E look ?cc a s) key)"
  have v2: "abs_object E look ?cc a ?s2 =
      (abs_object E look ?cc a s)\<lparr>av_storage := (av_storage (abs_object E look ?cc a s))(key := v)\<rparr>"
    unfolding s1(3) [symmetric] by (simp add: abs_object_def stateObject_setState_def storage_view_put)
  have "stateObject_SetState E a key v st = Ok (put_object a ?s2 (journal_append ?e st))"
    using assms s1 by (simp add: stateObject_SetState_def has_address)
  moreover have "does E look tr_ok st (put_object a ?s2 (journal_append ?e st))"
  proof (rule object_change)
    have "v\<lparr>av_storage := av_storage v\<rparr> = v" for v :: account_view by (cases v) simp
    then show "aundo E look ?e (with_account a (abs_object E look ?cc a ?s2) (state_abs E look st)) = Some (state_abs E look st)"
      using has_abs [OF assms] by (simp add: aon_object_def v2 with_account_same)
  qed (use assms s1 in \<open>auto simp: has_def object_ok_def stateObject_setState_def\<close>)
  ultimately show ?thesis using that by blast
qed

lemma SetCode_does:
  assumes "has st a s" "length h = HashLength"
  obtains st1 where "stateObject_SetCode E a h code st = Ok st1" "does E look tr_ok st st1"
proof -
  let ?cc = "ContractCode E st"
  obtain s1 where s1: "stateObject_Code E st s = Ok (av_code (abs_object E look ?cc a s), s1)"
    "object_ok E look tr_ok a s1" "abs_object E look ?cc a s1 = abs_object E look ?cc a s" "so_deleted s1 = so_deleted s"
    "so_account s1 = so_account s"
    using Code_ok [where a = a and s = s and st = st] assms unfolding has_def by metis
  let ?h0 = "a_CodeHash (so_account s)" and ?c0 = "av_code (abs_object E look ?cc a s)"
  let ?s2 = "stateObject_setCode h code s1" and ?e = "codeChange a ?c0 ?h0"
  have len: "length ?h0 = HashLength" using assms by (simp add: has_def object_ok_def)
  have v2: "abs_object E look ?cc a ?s2 = (abs_object E look ?cc a s)\<lparr>av_code := code_view E ?cc code h,
      av_account := (so_account s)\<lparr>a_CodeHash := h\<rparr>\<rparr>"
    unfolding s1(3) [symmetric] using s1(5) by (simp add: abs_object_def stateObject_setCode_def)
  have cv: "code_view E ?cc ?c0 ?h0 = ?c0" by (auto simp: abs_object_def code_view_def split: option.split)
  have "stateObject_SetCode E a h code st = Ok (put_object a ?s2 (journal_append ?e st))"
    using assms s1 by (simp add: stateObject_SetCode_def has_address)
  moreover have "does E look tr_ok st (put_object a ?s2 (journal_append ?e st))"
  proof (rule object_change)
    let ?A = "state_abs E look st"
    have "sv_code ?A = ?cc" by (simp add: state_abs_def)
    then show "aundo E look ?e (with_account a (abs_object E look ?cc a ?s2) ?A) = Some ?A"
      using has_abs [OF assms(1)] by (simp add: aon_object_def v2 BytesToHash_id len cv)
        (simp add: abs_object_def with_account_same)
  qed (use assms s1 len in \<open>auto simp: has_def object_ok_def stateObject_setCode_def\<close>)
  ultimately show ?thesis using that by blast
qed

text \<open>A new object: whatever is filed under the address then, the entry leads back.\<close>

lemma newStateObject_ok:
  assumes "badger_ok E" "length a = AddressLength" "a_Address acc = hex_EncodeToString a"
    "a_Root acc = zero_hash" "a_CodeHash acc = []"
  shows "object_ok E look tr_ok a (newStateObject E acc)" "\<not> so_deleted (newStateObject E acc)"
  using assms by (simp_all add: object_ok_def newStateObject_def GetAddressBytes_hex badger_ok_def opened_trie_zero)

lemma createObject_ok:
  assumes "badger_ok E" "accounts_ok E look tr_ok st" "length a = AddressLength"
  obtains prev st1 where "createObject E a st = Ok (a, prev, st1)"
    "\<exists>s. has st1 a s"
    "\<And>s. object_ok E look tr_ok a s \<Longrightarrow> \<not> so_deleted s \<Longrightarrow> does E look tr_ok st (put_object a s st1)"
    "put_object a (object_at st1 a) st1 = st1"
proof -
  obtain p st0 where g: "getStateObject E a st = Ok (p, st0)" "accounts_ok E look tr_ok st0" "frame st st0"
    "sd_entries st0 = sd_entries st" "state_abs E look st0 = state_abs E look st" "sd_blobs st0 = sd_blobs st"
    "case sv_accounts (state_abs E look st) a of None \<Rightarrow> p = None
     | Some v \<Rightarrow> p = Some a \<and> (\<exists>s. sd_StateObjects st0 a = Some s \<and> \<not> so_deleted s \<and> object_ok E look tr_ok a s \<and>
         abs_object E look (ContractCode E st) a s = v)"
    using getStateObject_ok [OF assms(2)] by blast
  let ?str = "hex_EncodeToString a" and ?A = "state_abs E look st"
  let ?fresh = "Account_zero\<lparr>a_Address := ?str, a_Balance := Some 0, a_Updated := se_now E, a_Created := se_now E\<rparr>"
  let ?prev = "map_option (object_at st0) p"
  let ?e = "case ?prev of None \<Rightarrow> createObjectChange a | Some s \<Rightarrow> resetObjectChange s"
  obtain acc where acc: "(if ?prev = None then
       (case ToAccountByAddress (se_faults E) (se_txn E) ?str of
          Ok a \<Rightarrow> Ok a | Err e \<Rightarrow> Ok ?fresh | Panic e \<Rightarrow> Panic e) else Ok ?fresh) = Ok acc"
    "a_Address acc = ?str" "a_Root acc = zero_hash" "a_CodeHash acc = []"
  proof (cases "?prev = None")
    case True
    have "case ToAccountByAddress (se_faults E) (se_txn E) ?str of
        Ok acc \<Rightarrow> a_Address acc = ?str \<and> a_Root acc = zero_hash \<and> a_CodeHash acc = [] | Err e \<Rightarrow> True | Panic e \<Rightarrow> False"
      using assms(1,3) by (auto simp: badger_ok_def)
    then show ?thesis using True that [of ?fresh] that
      by (cases "ToAccountByAddress (se_faults E) (se_txn E) ?str") (auto simp: Account_zero_def zero_hash_def)
  next
    case False
    then show ?thesis using that [of ?fresh] by (auto simp: Account_zero_def zero_hash_def)
  qed
  let ?n = "newStateObject E acc"
  have n: "object_ok E look tr_ok a ?n" "\<not> so_deleted ?n"
    using newStateObject_ok [OF assms(1,3)] acc by blast+
  let ?st2 = "journal_append ?e st0"
  have c: "createObject E a st = Ok (a, ?prev, put_object a ?n ?st2)"
    using n by (simp only: createObject_def Let_def g(1) acc(1) result_bind.simps prod.case)
      (simp add: setStateObject_def object_ok_def)
  have e: "entry_ok E look tr_ok ?e" and u: "\<And>w. aundo E look ?e (with_account a w ?A) = Some ?A"
  proof -
    have "entry_ok E look tr_ok ?e \<and> (\<forall>w. aundo E look ?e (with_account a w ?A) = Some ?A)"
    proof (cases "sv_accounts ?A a")
      case None
      have "stored_view E look st a = None"
        using None assms(2) by (auto simp: state_abs_def stored_view_def accounts_ok_def split: option.splits if_splits)
      then have "sv_stored ?A a = None" by (simp add: state_abs_def)
      then show ?thesis using g(7) None by (simp add: with_account_def fun_upd_idem)
    next
      case (Some v)
      then obtain s where s: "p = Some a" "sd_StateObjects st0 a = Some s" "\<not> so_deleted s" "object_ok E look tr_ok a s"
        "abs_object E look (ContractCode E st) a s = v" using g(7) by auto
      have "sv_code ?A = ContractCode E st" by (simp add: state_abs_def)
      then show ?thesis using s Some by (auto simp: object_at_def object_ok_def with_account_same)
    qed
    then show "entry_ok E look tr_ok ?e" "\<And>w. aundo E look ?e (with_account a w ?A) = Some ?A" by blast+
  qed
  have d: "does E look tr_ok st (put_object a s (put_object a ?n ?st2))"
    if "object_ok E look tr_ok a s" "\<not> so_deleted s" for s
  proof (rule does_one [where e = ?e])
    let ?st3 = "put_object a s (put_object a ?n ?st2)"
    have cc: "sd_blobs (put_object a ?n ?st2) = sd_blobs st" using g(6) by simp
    have "state_abs E look ?st3 = with_account a (abs_object E look (ContractCode E st) a s) ?A"
      using that n g(5) unfolding put_object_abs [OF that(2)] ContractCode_cong [OF cc] put_object_abs [OF n(2)] by simp
    with u show "aundo E look ?e (state_abs E look ?st3) = Some ?A" by simp
  qed (use that n g e in \<open>simp_all add: put_object_ok frame_def\<close>)
  have pp: "put_object a s (put_object a ?n ?st2) = put_object a s ?st2" for s
    by (simp add: put_object_def)
  show ?thesis
  proof (rule that [OF c])
    show "\<exists>s. has (put_object a ?n ?st2) a s" using n g by (auto simp: has_def put_object_ok)
  qed (use d pp in \<open>simp_all add: object_at_def\<close>)
qed

lemma GetOrNew_ok:
  assumes "badger_ok E" "accounts_ok E look tr_ok st" "length a = AddressLength"
  obtains st1 s where "GetOrNewStateObject E a st = Ok (a, st1)" "does E look tr_ok st st1" "has st1 a s"
proof -
  obtain p st0 where g: "getStateObject E a st = Ok (p, st0)" "accounts_ok E look tr_ok st0" "frame st st0"
    "sd_entries st0 = sd_entries st" "state_abs E look st0 = state_abs E look st"
    "case sv_accounts (state_abs E look st) a of None \<Rightarrow> p = None
     | Some v \<Rightarrow> p = Some a \<and> (\<exists>s. sd_StateObjects st0 a = Some s \<and> \<not> so_deleted s \<and> object_ok E look tr_ok a s \<and>
         abs_object E look (ContractCode E st) a s = v)"
    using getStateObject_ok [OF assms(2)] by blast
  have d0: "does E look tr_ok st st0" using g by (intro does_none) simp_all
  show ?thesis
  proof (cases p)
    case None
    obtain prev st1 s where "createObject E a st0 = Ok (a, prev, st1)" "has st1 a s"
      "\<And>s. object_ok E look tr_ok a s \<Longrightarrow> \<not> so_deleted s \<Longrightarrow> does E look tr_ok st0 (put_object a s st1)"
      "put_object a (object_at st1 a) st1 = st1"
      using createObject_ok [OF assms(1) g(2) assms(3)] by metis
    then show ?thesis using that [of st1 s] g(1) None does_trans [OF d0, of st1]
      by (simp add: GetOrNewStateObject_def has_def object_at_def) metis
  next
    case (Some k)
    then obtain s where "k = a" "has st0 a s" using g(2,6) by (auto simp: has_def split: option.splits)
    then show ?thesis using that [of st0 s] g(1) Some d0 by (simp add: GetOrNewStateObject_def)
  qed
qed

lemma CreateAccount_does:
  assumes "badger_ok E" "accounts_ok E look tr_ok st" "length a = AddressLength"
  obtains st1 where "StateDB_CreateAccount E a st = Ok st1" "does E look tr_ok st st1"
proof -
  obtain prev st1 s where c: "createObject E a st = Ok (a, prev, st1)" "has st1 a s"
      "\<And>s. object_ok E look tr_ok a s \<Longrightarrow> \<not> so_deleted s \<Longrightarrow> does E look tr_ok st (put_object a s st1)"
      "put_object a (object_at st1 a) st1 = st1"
    using createObject_ok [OF assms] by metis
  show ?thesis
  proof (cases prev)
    case None
    then show ?thesis using that [of st1] c(1,2) c(3) [of s] c(4) by (simp add: StateDB_CreateAccount_def has_def object_at_def)
  next
    case (Some s0)
    then show ?thesis using that [of "put_object a (stateObject_setBalance (object_balance s0) s) st1"] c(1,2) c(3)
      by (simp add: StateDB_CreateAccount_def) (simp add: has_def)
  qed
qed

lemma does_ok: "does E look tr_ok st st1 \<Longrightarrow> accounts_ok E look tr_ok st1"
  by (simp add: does_def)

text \<open>An operation that succeeds and can be reverted.\<close>

definition reverts :: "'t StateDB result \<Rightarrow> 't StateDB \<Rightarrow> bool" where
  "reverts r st \<longleftrightarrow> (\<exists>st1. r = Ok st1 \<and> does E look tr_ok st st1)"

lemma reverts_bind:
  assumes "reverts r st" "\<And>st1. does E look tr_ok st st1 \<Longrightarrow> reverts (f st1) st1"
  shows "reverts (result_bind r f) st"
proof -
  obtain st1 where "r = Ok st1" "does E look tr_ok st st1" using assms(1) by (auto simp: reverts_def)
  moreover from this obtain st2 where "f st1 = Ok st2" "does E look tr_ok st1 st2"
    using assms(2) by (auto simp: reverts_def)
  ultimately show ?thesis using does_trans by (fastforce simp: reverts_def)
qed

lemma read_object_reverts:
  assumes "accounts_ok E look tr_ok st"
  shows "reverts (result_bind (read_object E a d f st) (\<lambda>(v, st1). Ok st1)) st"
proof -
  obtain p st0 where "getStateObject E a st = Ok (p, st0)" "accounts_ok E look tr_ok st0" "frame st st0"
    "sd_entries st0 = sd_entries st" "state_abs E look st0 = state_abs E look st"
    using getStateObject_ok [OF assms, of a] by blast
  then show ?thesis by (auto simp: reverts_def read_object_def intro: does_none)
qed

lemma GetOrNew_reverts:
  assumes "badger_ok E" "accounts_ok E look tr_ok st" "length a = AddressLength"
    and m: "\<And>st s. has st a s \<Longrightarrow> reverts (m a st) st"
  shows "reverts (result_bind (GetOrNewStateObject E a st) (\<lambda>(k, st1). m k st1)) st"
proof -
  obtain st1 s where g: "GetOrNewStateObject E a st = Ok (a, st1)" "does E look tr_ok st st1" "has st1 a s"
    using GetOrNew_ok [OF assms(1-3)] by blast
  obtain st2 where m2: "m a st1 = Ok st2" "does E look tr_ok st1 st2" using m [OF g(3)] by (auto simp: reverts_def)
  show ?thesis using g(1) m2(1) does_trans [OF g(2) m2(2)] by (simp add: reverts_def)
qed

text \<open>The writing operations go through \<open>GetOrNewStateObject\<close>.\<close>

lemma SetBalance_reverts:
  assumes "badger_ok E" "accounts_ok E look tr_ok st" "length a = AddressLength"
  shows "reverts (StateDB_SetBalance E a b st) st"
proof -
  have "reverts (stateObject_SetBalance a b st) st" if "has st a s" for st s
    using SetBalance_does [OF that] unfolding reverts_def by metis
  from GetOrNew_reverts [OF assms, where m = "\<lambda>k. stateObject_SetBalance k b", OF this] show ?thesis
    by (simp add: StateDB_SetBalance_def)
qed

lemma SetNonce_reverts:
  assumes "badger_ok E" "accounts_ok E look tr_ok st" "length a = AddressLength"
  shows "reverts (StateDB_SetNonce E a n st) st"
proof -
  have "reverts (stateObject_SetNonce a n st) st" if "has st a s" for st s
    using SetNonce_does [OF that] unfolding reverts_def by metis
  from GetOrNew_reverts [OF assms, where m = "\<lambda>k. stateObject_SetNonce k n", OF this] show ?thesis
    by (simp add: StateDB_SetNonce_def)
qed

lemma SetState_reverts:
  assumes "badger_ok E" "accounts_ok E look tr_ok st" "length a = AddressLength"
  shows "reverts (StateDB_SetState E a key v st) st"
proof -
  have "reverts (stateObject_SetState E a key v st) st" if "has st a s" for st s
    using SetState_does [OF that] unfolding reverts_def by metis
  from GetOrNew_reverts [OF assms, where m = "\<lambda>k. stateObject_SetState E k key v", OF this] show ?thesis
    by (simp add: StateDB_SetState_def)
qed

lemma SetCode_reverts:
  assumes "badger_ok E" "accounts_ok E look tr_ok st" "length a = AddressLength"
    "\<And>c. length (crypto_NewHash (se_crypto E) c) = HashLength"
  shows "reverts (StateDB_SetCode E a code st) st"
proof -
  let ?h = "crypto_NewHash (se_crypto E) (case code of None \<Rightarrow> [] | Some c \<Rightarrow> c)"
  have "reverts (stateObject_SetCode E a ?h code st) st" if "has st a s" for st s
    using SetCode_does [OF that assms(4)] unfolding reverts_def by metis
  from GetOrNew_reverts [OF assms(1-3), where m = "\<lambda>k. stateObject_SetCode E k ?h code", OF this] show ?thesis
    by (simp add: StateDB_SetCode_def)
qed

lemma touch_does:
  assumes "has st a s" obtains st1 where "stateObject_touch a st = Ok st1" "does E look tr_ok st st1"
proof -
  let ?st1 = "journal_append (touchChange a) st"
  let ?st2 = "if a = ripemd then journal_dirty a ?st1 else ?st1"
  have "state_abs E look ?st2 = state_abs E look st" by (auto intro: state_abs_cong)
  moreover have "accounts_ok E look tr_ok ?st2" using assms by (simp add: has_def accounts_ok_def)
  ultimately have "does E look tr_ok st ?st2" by (intro does_one [where e = "touchChange a"]) auto
  then show ?thesis using that assms by (simp add: stateObject_touch_def Let_def has_address)
qed

lemma change_balance_reverts:
  assumes "badger_ok E" "accounts_ok E look tr_ok st" "length a = AddressLength"
    and m: "\<And>st s. has st a s \<Longrightarrow> reverts (m a st) st"
  shows "reverts (result_bind (GetOrNewStateObject E a st) (\<lambda>(k, st1). result_bind (m k st1) (\<lambda>st2.
     result_bind (StateDB_GetBalance E a st2) (\<lambda>(_, st3). Ok st3)))) st"
proof (rule GetOrNew_reverts [OF assms(1-3)])
  fix st s
  assume "has st a s"
  then show "reverts (result_bind (m a st) (\<lambda>st2. result_bind (StateDB_GetBalance E a st2) (\<lambda>(_, st3). Ok st3))) st"
    unfolding StateDB_GetBalance_def by (intro reverts_bind [OF m] read_object_reverts does_ok)
qed

lemma AddBalance_reverts:
  assumes "badger_ok E" "accounts_ok E look tr_ok st" "length a = AddressLength"
  shows "reverts (StateDB_AddBalance E a n st) st"
proof -
  have "reverts (stateObject_AddBalance E a n st) st" if h: "has st a s" for st s
  proof (cases "n = 0 \<and> \<not> stateObject_empty E s")
    case True
    then show ?thesis using h by (auto simp: stateObject_AddBalance_def reverts_def has_def intro: does_none)
  next
    case False
    then show ?thesis using h touch_does [OF h] SetBalance_does [OF h]
      unfolding stateObject_AddBalance_def reverts_def Let_def by (metis has_object_at)
  qed
  from change_balance_reverts [OF assms, where m = "\<lambda>k. stateObject_AddBalance E k n", OF this] show ?thesis
    by (simp add: StateDB_AddBalance_def)
qed

lemma SubBalance_reverts:
  assumes "badger_ok E" "accounts_ok E look tr_ok st" "length a = AddressLength"
  shows "reverts (StateDB_SubBalance E a n st) st"
proof -
  have "reverts (stateObject_SubBalance a n st) st" if h: "has st a s" for st s
  proof (cases "n = 0")
    case True
    then show ?thesis using h by (auto simp: stateObject_SubBalance_def reverts_def has_def intro: does_none)
  next
    case False
    then show ?thesis using h SetBalance_does [OF h] unfolding stateObject_SubBalance_def reverts_def by metis
  qed
  from change_balance_reverts [OF assms, where m = "\<lambda>k. stateObject_SubBalance k n", OF this] show ?thesis
    by (simp add: StateDB_SubBalance_def)
qed

lemma Suicide_op:
  assumes "accounts_ok E look tr_ok st"
  obtains b st1 where "StateDB_Suicide E a st = Ok (b, st1)" "does E look tr_ok st st1"
proof -
  obtain p st0 where g: "getStateObject E a st = Ok (p, st0)" "accounts_ok E look tr_ok st0" "frame st st0"
    "sd_entries st0 = sd_entries st" "state_abs E look st0 = state_abs E look st" "sd_blobs st0 = sd_blobs st"
    "case sv_accounts (state_abs E look st) a of None \<Rightarrow> p = None
     | Some v \<Rightarrow> p = Some a \<and> (\<exists>s. sd_StateObjects st0 a = Some s \<and> \<not> so_deleted s \<and> object_ok E look tr_ok a s \<and>
         abs_object E look (ContractCode E st) a s = v)"
    using getStateObject_ok [OF assms] by blast
  have d0: "does E look tr_ok st st0" using g by (intro does_none) simp_all
  show ?thesis
  proof (cases p)
    case None
    then show ?thesis using that [of False st0] g(1) d0 by (simp add: StateDB_Suicide_def)
  next
    case (Some k)
    then obtain s where s: "k = a" "has st0 a s" using g(2,7) by (auto simp: has_def split: option.splits)
    let ?s = "stateObject_setBalance 0 (s\<lparr>so_suicided := True\<rparr>)"
      and ?e = "suicideChange a (so_suicided s) (object_balance s)"
    have "StateDB_Suicide E a st = Ok (True, put_object a ?s (journal_append ?e st0))"
      using g(1) Some s by (simp add: StateDB_Suicide_def Let_def)
    moreover have "does E look tr_ok st0 (put_object a ?s (journal_append ?e st0))"
    proof (rule object_change)
      let ?v = "abs_object E look (ContractCode E st0) a s"
      have v: "abs_object E look (ContractCode E st0) a ?s = view_balance 0 (?v\<lparr>av_suicided := True\<rparr>)"
        unfolding abs_setBalance by (simp add: abs_object_def)
      have "view_balance (object_balance s) ((view_balance 0 (?v\<lparr>av_suicided := True\<rparr>))\<lparr>av_suicided := so_suicided s\<rparr>) =
          view_balance (object_balance s) ?v" by (simp add: view_balance_def abs_object_def)
      then have "view_balance (object_balance s) ((view_balance 0 (?v\<lparr>av_suicided := True\<rparr>))\<lparr>av_suicided := so_suicided s\<rparr>) = ?v"
        using view_balance_same [of a s "ContractCode E st0"] s(2) by (simp add: has_def)
      then show "aundo E look ?e (with_account a (abs_object E look (ContractCode E st0) a ?s) (state_abs E look st0)) =
          Some (state_abs E look st0)"
        using has_abs [OF s(2)] unfolding v by (simp add: with_account_same del: abs_setBalance)
    qed (use s in \<open>auto simp: has_def object_ok_def stateObject_setBalance_def\<close>)
    ultimately show ?thesis using that does_trans [OF d0] by blast
  qed
qed

lemma AddLog_op: "accounts_ok E look tr_ok st \<Longrightarrow> does E look tr_ok st (StateDB_AddLog log st)"
proof (rule does_one [where e = "addLogChange (sd_thash st)"])
  assume ok: "accounts_ok E look tr_ok st"
  let ?st = "StateDB_AddLog log st"
  show "accounts_ok E look tr_ok ?st" using ok by (simp add: accounts_ok_def StateDB_AddLog_def Let_def)
  have "sd_logs st (sd_thash st) \<noteq> Some []" using ok by (simp add: accounts_ok_def)
  moreover have "wrap_u64 (wrap_u64 (sd_logSize st + 1) - 1) = sd_logSize st"
    using ok by (simp add: accounts_ok_def is_u64_def wrap_u64_def mod_diff_left_eq)
  moreover have r: "state_abs E look ?st = (state_abs E look st)\<lparr>sv_refund := sd_refund ?st, sv_logs := sd_logs ?st,
      sv_logSize := sd_logSize ?st, sv_preimages := sd_preimages ?st\<rparr>"
    by (rule state_abs_rest) (simp_all add: StateDB_AddLog_def Let_def)
  ultimately show "aundo E look (addLogChange (sd_thash st)) (state_abs E look ?st) = Some (state_abs E look st)"
    unfolding r by (auto simp: StateDB_AddLog_def Let_def StateDB_GetLogs_def state_abs_def fun_upd_idem split: option.split)
qed (simp_all add: StateDB_AddLog_def Let_def frame_def)


lemma AddPreimage_op: "accounts_ok E look tr_ok st \<Longrightarrow> does E look tr_ok st (StateDB_AddPreimage h b st)"
proof (cases "sd_preimages st h = None")
  case True
  assume ok: "accounts_ok E look tr_ok st"
  let ?st = "StateDB_AddPreimage h b st"
  have r: "state_abs E look ?st = (state_abs E look st)\<lparr>sv_refund := sd_refund ?st, sv_logs := sd_logs ?st,
      sv_logSize := sd_logSize ?st, sv_preimages := sd_preimages ?st\<rparr>"
    by (rule state_abs_rest) (simp_all add: StateDB_AddPreimage_def Let_def)
  show ?thesis
  proof (rule does_one [where e = "addPreimageChange h"])
    show "accounts_ok E look tr_ok ?st" using ok by (simp add: accounts_ok_def StateDB_AddPreimage_def Let_def)
    show "aundo E look (addPreimageChange h) (state_abs E look ?st) = Some (state_abs E look st)"
      unfolding r using True by (simp add: StateDB_AddPreimage_def Let_def state_abs_def fun_upd_idem)
  qed (use True in \<open>simp_all add: StateDB_AddPreimage_def Let_def frame_def\<close>)
next
  case False
  then show "accounts_ok E look tr_ok st \<Longrightarrow> ?thesis" by (intro does_none) (auto simp: StateDB_AddPreimage_def)
qed

lemma AddRefund_op: "accounts_ok E look tr_ok st \<Longrightarrow> does E look tr_ok st (StateDB_AddRefund n st)"
proof (rule does_one [where e = "refundChange (sd_refund st)"])
  assume ok: "accounts_ok E look tr_ok st"
  let ?st = "StateDB_AddRefund n st"
  show "accounts_ok E look tr_ok ?st" using ok by (simp add: accounts_ok_def StateDB_AddRefund_def Let_def)
  have r: "state_abs E look ?st = (state_abs E look st)\<lparr>sv_refund := sd_refund ?st, sv_logs := sd_logs ?st,
      sv_logSize := sd_logSize ?st, sv_preimages := sd_preimages ?st\<rparr>"
    by (rule state_abs_rest) (simp_all add: StateDB_AddRefund_def Let_def)
  show "aundo E look (refundChange (sd_refund st)) (state_abs E look ?st) = Some (state_abs E look st)"
    unfolding r by (simp add: StateDB_AddRefund_def Let_def state_abs_def)
qed (simp_all add: StateDB_AddRefund_def Let_def frame_def)

lemma CreateAccount_reverts:
  assumes "badger_ok E" "accounts_ok E look tr_ok st" "length a = AddressLength"
  shows "reverts (StateDB_CreateAccount E a st) st"
  using CreateAccount_does [OF assms] unfolding reverts_def by metis

text \<open>Reading with \<open>GetState\<close>, \<open>GetCode\<close> and \<open>GetCodeSize\<close> changes nothing that can be seen.\<close>

lemma put_same_abs:
  assumes "has st a s" "object_ok E look tr_ok a s1" "so_deleted s1 = so_deleted s"
    "abs_object E look (ContractCode E st) a s1 = abs_object E look (ContractCode E st) a s"
  shows "does E look tr_ok st (put_object a s1 st)"
  using assms has_abs [OF assms(1)]
  by (intro does_none) (auto simp: has_def put_object_ok put_object_abs with_account_same)

subsubsection \<open>Reversal\<close>

text \<open>Reverting an entry does on the concrete state what \<open>aundo\<close> does on the abstract one.\<close>

definition undoes :: "'t StateDB result \<Rightarrow> 't StateDB \<Rightarrow> state_view \<Rightarrow> bool" where
  "undoes r st A \<longleftrightarrow> (\<exists>st1. r = Ok st1 \<and> accounts_ok E look tr_ok st1 \<and> frame st st1 \<and>
     sd_entries st1 = sd_entries st \<and> state_abs E look st1 = A)"

lemma on_object_undoes:
  assumes "accounts_ok E look tr_ok st" "aon_object a g (state_abs E look st) = Some A"
    and "\<And>s. object_ok E look tr_ok a s \<Longrightarrow> \<not> so_deleted s \<Longrightarrow> object_ok E look tr_ok a (f s) \<and> \<not> so_deleted (f s) \<and>
      abs_object E look (ContractCode E st) a (f s) = g (abs_object E look (ContractCode E st) a s)"
  shows "undoes (on_object E a f st) st A"
proof -
  obtain p st0 where o: "getStateObject E a st = Ok (p, st0)" "accounts_ok E look tr_ok st0" "frame st st0"
    "sd_entries st0 = sd_entries st" "state_abs E look st0 = state_abs E look st" "sd_blobs st0 = sd_blobs st"
    "case sv_accounts (state_abs E look st) a of None \<Rightarrow> p = None
     | Some v \<Rightarrow> p = Some a \<and> (\<exists>s. sd_StateObjects st0 a = Some s \<and> \<not> so_deleted s \<and> object_ok E look tr_ok a s \<and>
         abs_object E look (ContractCode E st) a s = v)"
    using getStateObject_ok [OF assms(1)] by blast
  obtain v where v: "sv_accounts (state_abs E look st) a = Some v" "A = with_account a (g v) (state_abs E look st)"
    using assms(2) by (auto simp: aon_object_def)
  then obtain s where s: "p = Some a" "sd_StateObjects st0 a = Some s" "\<not> so_deleted s" "object_ok E look tr_ok a s"
    "abs_object E look (ContractCode E st) a s = v" using o(7) by auto
  have f: "object_ok E look tr_ok a (f s)" "\<not> so_deleted (f s)" "abs_object E look (ContractCode E st) a (f s) = g v"
    using assms(3) [OF s(4,3)] s(5) by auto
  have "on_object E a f st = Ok (put_object a (f s) st0)"
    using o(1) s by (simp add: on_object_def object_at_def)
  moreover have "state_abs E look (put_object a (f s) st0) = A"
    using f v(2) o(5) by (simp add: put_object_abs ContractCode_cong [OF o(6)])
  ultimately show ?thesis using o f by (simp add: undoes_def put_object_ok)
qed

lemma undo_undoes:
  assumes "accounts_ok E look tr_ok st" "entry_ok E look tr_ok e" "aundo E look e (state_abs E look st) = Some A"
  shows "undoes (undo E e st) st A"
proof (cases e)
  case (createObjectChange a)
  let ?st = "st\<lparr>sd_StateObjects := (sd_StateObjects st)(a := None), sd_stateObjectsDirty := sd_stateObjectsDirty st - {a}\<rparr>"
  have c: "ContractCode E ?st = ContractCode E st" "stored_view E look ?st = stored_view E look st"
    by (rule ContractCode_cong, simp) (rule stored_view_cong, simp_all)
  have "state_abs E look ?st = A"
    using assms(3) createObjectChange by (auto simp: state_abs_def c fun_eq_iff split: option.split)
  then show ?thesis using assms(1) createObjectChange by (simp add: undoes_def accounts_ok_def frame_def)
next
  case (resetObjectChange prev)
  then obtain a where a: "object_ok E look tr_ok a prev" "\<not> so_deleted prev" using assms(2) by auto
  then have "A = with_account a (abs_object E look (ContractCode E st) a prev) (state_abs E look st)"
    using assms(3) resetObjectChange by (simp add: object_ok_def) (simp add: state_abs_def)
  moreover have "undo E e st = Ok (put_object a prev st)"
    using a resetObjectChange by (simp add: setStateObject_def object_ok_def)
  ultimately show ?thesis using a assms(1) by (simp add: undoes_def put_object_ok put_object_abs)
next
  case (suicideChange a prev bal)
  obtain p st0 where o: "getStateObject E a st = Ok (p, st0)" "accounts_ok E look tr_ok st0" "frame st st0"
    "sd_entries st0 = sd_entries st" "state_abs E look st0 = state_abs E look st" "sd_blobs st0 = sd_blobs st"
    "case sv_accounts (state_abs E look st) a of None \<Rightarrow> p = None
     | Some v \<Rightarrow> p = Some a \<and> (\<exists>s. sd_StateObjects st0 a = Some s \<and> \<not> so_deleted s \<and> object_ok E look tr_ok a s \<and>
         abs_object E look (ContractCode E st) a s = v)"
    using getStateObject_ok [OF assms(1)] by blast
  show ?thesis
  proof (cases "sv_accounts (state_abs E look st) a")
    case None
    then show ?thesis using o assms(3) suicideChange by (simp add: undoes_def)
  next
    case (Some v)
    then obtain s where s: "p = Some a" "sd_StateObjects st0 a = Some s" "\<not> so_deleted s" "object_ok E look tr_ok a s"
      "abs_object E look (ContractCode E st) a s = v" using o(7) by auto
    let ?s = "stateObject_setBalance bal (s\<lparr>so_suicided := prev\<rparr>)"
    have ok: "object_ok E look tr_ok a ?s" "\<not> so_deleted ?s" using s by (simp_all add: object_ok_def stateObject_setBalance_def)
    have "abs_object E look (ContractCode E st) a ?s = view_balance bal (v\<lparr>av_suicided := prev\<rparr>)"
      unfolding s(5) [symmetric] abs_setBalance by (simp add: abs_object_def)
    then have "state_abs E look (put_object a ?s st0) = A"
      using assms(3) suicideChange Some ok o(5)
      by (simp add: put_object_abs ContractCode_cong [OF o(6)] del: abs_setBalance)
    then show ?thesis using o s ok suicideChange
      by (simp add: undoes_def put_object_ok object_at_def)
  qed
next
  case (balanceChange a prev)
  then show ?thesis using assms by (auto intro: on_object_undoes)
next
  case (nonceChange a prev)
  show ?thesis unfolding nonceChange undo.simps
    by (rule on_object_undoes [OF assms(1)])
      (use assms(3) nonceChange in \<open>auto simp: object_ok_def abs_object_def\<close>)
next
  case (storageChange a key prev)
  show ?thesis unfolding storageChange undo.simps
    by (rule on_object_undoes [OF assms(1)])
      (use assms(3) storageChange in \<open>auto simp: object_ok_def abs_object_def stateObject_setState_def storage_view_put\<close>)
next
  case (codeChange a c h)
  then have len: "length h = HashLength" and sv: "sv_code (state_abs E look st) = ContractCode E st"
    using assms(2) by (simp_all add: state_abs_def)
  show ?thesis unfolding codeChange undo.simps
    by (rule on_object_undoes [OF assms(1)])
      (use assms(3) codeChange in \<open>auto simp: object_ok_def abs_object_def stateObject_setCode_def BytesToHash_id [OF len] sv len\<close>)
next
  case (refundChange prev)
  let ?st = "st\<lparr>sd_refund := prev\<rparr>"
  have "state_abs E look ?st = A" using assms(3) refundChange state_abs_rest [of look ?st st E] by (auto simp: state_abs_sel)
  then show ?thesis using assms(1) refundChange by (simp add: undoes_def accounts_ok_def frame_def)
next
  case (addPreimageChange h)
  let ?st = "st\<lparr>sd_preimages := (sd_preimages st)(h := None)\<rparr>"
  have "state_abs E look ?st = A"
    using assms(3) addPreimageChange state_abs_rest [of look ?st st E] by (auto simp: state_abs_sel)
  then show ?thesis using assms(1) addPreimageChange by (simp add: undoes_def accounts_ok_def frame_def)
next
  case (addLogChange h)
  then obtain logs where l: "sd_logs st h = Some logs" "logs \<noteq> []"
    using assms(3) by (auto simp: state_abs_def split: option.splits if_splits)
  let ?st = "st\<lparr>sd_logs := (sd_logs st)(h := (if length logs = 1 then None else Some (butlast logs))),
      sd_logSize := wrap_u64 (sd_logSize st - 1)\<rparr>"
  have u: "undo E e st = Ok ?st" using l addLogChange by (simp add: StateDB_GetLogs_def)
  have "state_abs E look ?st = A"
    using assms(3) addLogChange l state_abs_rest [of look ?st st E] by (auto simp: state_abs_sel)
  moreover have "accounts_ok E look tr_ok ?st"
    using assms(1) l by (cases logs rule: rev_cases) (auto simp: accounts_ok_def)
  ultimately show ?thesis using u by (simp add: undoes_def frame_def)
next
  case (touchChange a)
  then show ?thesis using assms by (simp add: undoes_def)
qed

lemma undirty_undoes: "undoes r (undirty e st) A = undoes r st A"
  by (simp add: undoes_def frame_def)

lemma undo_entries_undoes:
  assumes "accounts_ok E look tr_ok st" "list_all (entry_ok E look tr_ok) es"
    "aundos E look es (state_abs E look st) = Some A"
  shows "undoes (undo_entries E es st) st A"
  using assms
proof (induction es arbitrary: st)
  case Nil
  then show ?case by (simp add: undoes_def)
next
  case (Cons e es)
  then obtain B where B: "aundo E look e (state_abs E look st) = Some B" "aundos E look es B = Some A"
    by (auto split: bind_splits)
  obtain st1 where st1: "undo E e st = Ok st1" "accounts_ok E look tr_ok st1" "frame st st1"
    "sd_entries st1 = sd_entries st" "state_abs E look st1 = B"
    using undo_undoes [of st e B] Cons.prems B(1) by (auto simp: undoes_def)
  have "state_abs E look (undirty e st1) = B" using st1(5) by (auto intro: state_abs_cong)
  moreover have "accounts_ok E look tr_ok (undirty e st1)" using st1(2) by (simp add: accounts_ok_def)
  ultimately have "undoes (undo_entries E es (undirty e st1)) (undirty e st1) A"
    using Cons.IH [of "undirty e st1"] Cons.prems(2) B(2) by simp
  then show ?case using st1 by (auto simp: undoes_def frame_def)
qed


subsubsection \<open>Snapshots\<close>

text \<open>A state reached from \<open>st\<close> without a reversal behind it: its journal leads back to \<open>st\<close>.\<close>

definition since :: "'t StateDB \<Rightarrow> 't StateDB \<Rightarrow> bool" where
  "since st st' \<longleftrightarrow> state_ok E look tr_ok st \<and> state_ok E look tr_ok st' \<and> sd_nextRevisionId st \<le> sd_nextRevisionId st' \<and>
     (\<exists>new more. sd_entries st' = sd_entries st @ new \<and>
        aundos E look (rev new) (state_abs E look st') = Some (state_abs E look st) \<and>
        sd_validRevisions st' = sd_validRevisions st @ more \<and>
        list_all (\<lambda>(i, m). sd_nextRevisionId st \<le> i \<and> length (sd_entries st) \<le> m) more)"

lemma since_refl: "state_ok E look tr_ok st \<Longrightarrow> since st st"
  by (simp add: since_def)

lemma does_state_ok:
  assumes "state_ok E look tr_ok st" "does E look tr_ok st st'" shows "state_ok E look tr_ok st'"
  using assms by (auto simp: state_ok_def does_def frame_def revisions_ok_def list_all_iff split: prod.splits)

lemma since_does:
  assumes "since st st1" "does E look tr_ok st1 st2" shows "since st st2"
proof -
  obtain new1 more new2 where n: "sd_entries st1 = sd_entries st @ new1"
    "aundos E look (rev new1) (state_abs E look st1) = Some (state_abs E look st)"
    "sd_validRevisions st1 = sd_validRevisions st @ more"
    "list_all (\<lambda>(i, m). sd_nextRevisionId st \<le> i \<and> length (sd_entries st) \<le> m) more"
    "sd_entries st2 = sd_entries st1 @ new2"
    "aundos E look (rev new2) (state_abs E look st2) = Some (state_abs E look st1)"
    using assms by (auto simp: since_def does_def)
  have "state_ok E look tr_ok st2" using assms by (auto simp: since_def intro: does_state_ok)
  then show ?thesis using assms n by (auto simp: since_def does_def frame_def intro!: exI [of _ "new1 @ new2"])
qed

lemma Snapshot_abs [simp]: "state_abs E look (snd (StateDB_Snapshot st)) = state_abs E look st"
  by (rule state_abs_cong) (simp_all add: StateDB_Snapshot_def Let_def)

lemma Snapshot_ok:
  assumes "state_ok E look tr_ok st" shows "state_ok E look tr_ok (snd (StateDB_Snapshot st))"
  using assms
  by (auto simp: state_ok_def accounts_ok_def revisions_ok_def StateDB_Snapshot_def Let_def sorted_wrt_append list_all_iff)

lemma since_Snapshot:
  assumes "since st st1" shows "since st (snd (StateDB_Snapshot st1))"
proof -
  obtain new more where n: "sd_entries st1 = sd_entries st @ new"
    "aundos E look (rev new) (state_abs E look st1) = Some (state_abs E look st)"
    "sd_validRevisions st1 = sd_validRevisions st @ more"
    "list_all (\<lambda>(i, m). sd_nextRevisionId st \<le> i \<and> length (sd_entries st) \<le> m) more"
    using assms by (auto simp: since_def)
  have "state_ok E look tr_ok (snd (StateDB_Snapshot st1))" using assms by (auto simp: since_def intro: Snapshot_ok)
  then show ?thesis using assms n Snapshot_abs [of st1]
    by (auto simp: since_def StateDB_Snapshot_def Let_def
        intro!: exI [of _ new] exI [of _ "more @ [(sd_nextRevisionId st1, length (sd_entries st1))]"])
qed

text \<open>The binary search finds the first index from which on the predicate holds.\<close>

lemma search_between_ok:
  assumes "\<And>m n. m \<le> n \<Longrightarrow> n < N \<Longrightarrow> f m \<Longrightarrow> f n" "i \<le> j" "j \<le> N"
  shows "i \<le> search_between i j f \<and> search_between i j f \<le> j \<and>
     (\<forall>k. i \<le> k \<longrightarrow> k < j \<longrightarrow> f k = (search_between i j f \<le> k))"
  using assms
proof (induction i j f rule: search_between.induct)
  case (1 i j f)
  show ?case
  proof (cases "i < j")
    case True
    let ?h = "(i + j) div 2"
    have h: "i \<le> ?h" "?h < j" "?h < N" using True "1.prems"(3) by auto
    show ?thesis
    proof (cases "f ?h")
      case fh: True
      then have e: "search_between i j f = search_between i ?h f"
        by (subst search_between.simps) (simp add: True Let_def)
      have IH: "i \<le> search_between i ?h f \<and> search_between i ?h f \<le> ?h \<and>
          (\<forall>k. i \<le> k \<longrightarrow> k < ?h \<longrightarrow> f k = (search_between i ?h f \<le> k))"
        using "1.IH"(2) [OF True refl] "1.prems"(1) h fh by simp
      have "f k" if "?h \<le> k" "k < j" for k using "1.prems"(1) [of ?h k] "1.prems"(3) fh that by simp
      then have "f k = (search_between i ?h f \<le> k)" if "i \<le> k" "k < j" for k
        using IH that by (cases "k < ?h") (auto intro: order_trans)
      then show ?thesis using IH h unfolding e by auto
    next
      case fh: False
      then have e: "search_between i j f = search_between (?h + 1) j f"
        by (subst search_between.simps) (simp add: True Let_def)
      have IH: "?h + 1 \<le> search_between (?h + 1) j f \<and> search_between (?h + 1) j f \<le> j \<and>
          (\<forall>k. ?h + 1 \<le> k \<longrightarrow> k < j \<longrightarrow> f k = (search_between (?h + 1) j f \<le> k))"
        using "1.IH"(1) [OF True refl] "1.prems" h fh by simp
      have "\<not> f k" if "k \<le> ?h" for k using "1.prems"(1) [of k ?h] fh h(3) that by auto
      then have "f k = (search_between (?h + 1) j f \<le> k)" if "i \<le> k" "k < j" for k
        using IH that by (cases "?h + 1 \<le> k") auto
      then show ?thesis using IH h unfolding e by auto
    qed
  next
    case False
    then show ?thesis using "1.prems" by (simp add: search_between.simps)
  qed
qed

lemma search_sorted:
  fixes revs :: "(int \<times> nat) list" and x :: int
  assumes "sorted_wrt (\<lambda>(i, m) (j, n). i < j \<and> m \<le> n) revs"
  defines "r \<equiv> search_between 0 (length revs) (\<lambda>i. fst (revs ! i) \<ge> x)"
  shows "r \<le> length revs" "\<And>k. k < length revs \<Longrightarrow> x \<le> fst (revs ! k) \<longleftrightarrow> r \<le> k"
proof -
  have lt: "fst (revs ! i) < fst (revs ! j)" if "i < j" "j < length revs" for i j
    using sorted_wrt_nth_less [OF assms(1) that] by (simp add: case_prod_beta)
  have "x \<le> fst (revs ! n)" if "m \<le> n" "n < length revs" "x \<le> fst (revs ! m)" for m n
    using that lt [of m n] by (cases "m = n") auto
  from search_between_ok [where f = "\<lambda>i. fst (revs ! i) \<ge> x" and N = "length revs" and i = 0 and j = "length revs",
      OF this]
  show "r \<le> length revs" "\<And>k. k < length revs \<Longrightarrow> x \<le> fst (revs ! k) \<longleftrightarrow> r \<le> k" by (auto simp: r_def)
qed

lemma RevertToSnapshot_at:
  assumes "state_ok E look tr_ok st" "idx < length (sd_validRevisions st)"
    and "sd_validRevisions st ! idx = (i, m)"
    and "aundos E look (rev (drop m (sd_entries st))) (state_abs E look st) = Some A"
  obtains st1 where "StateDB_RevertToSnapshot E i st = Ok st1" "state_ok E look tr_ok st1" "state_abs E look st1 = A"
    "sd_entries st1 = take m (sd_entries st)" "sd_validRevisions st1 = take idx (sd_validRevisions st)"
    "sd_nextRevisionId st1 = sd_nextRevisionId st"
proof -
  let ?revs = "sd_validRevisions st"
  have sorted: "sorted_wrt (\<lambda>(i, m) (j, n). i < j \<and> m \<le> n) ?revs"
    using assms(1) by (simp add: state_ok_def revisions_ok_def)
  let ?r = "search_between 0 (length ?revs) (\<lambda>k. fst (?revs ! k) \<ge> i)"
  have r: "i \<le> fst (?revs ! k) \<longleftrightarrow> ?r \<le> k" if "k < length ?revs" for k
    using search_sorted(2) [OF sorted that, of i] .
  have "fst (?revs ! k) < i" if "k < idx" for k
    using sorted_wrt_nth_less [OF sorted that assms(2)] assms(3) by (simp add: case_prod_beta)
  moreover have "?r \<le> idx" using r [OF assms(2)] assms(3) by simp
  ultimately have idx: "?r = idx" using r [of ?r] assms(2) by (meson leD le_less_trans le_neq_implies_less le_refl)
  have "list_all (entry_ok E look tr_ok) (rev (drop m (sd_entries st)))"
    using assms(1) by (auto simp: state_ok_def list_all_iff dest: in_set_dropD)
  then obtain st1 where u: "undo_entries E (rev (drop m (sd_entries st))) st = Ok st1" "accounts_ok E look tr_ok st1"
    "frame st st1" "state_abs E look st1 = A"
    using undo_entries_undoes [OF _ _ assms(4)] assms(1) by (auto simp: undoes_def state_ok_def)
  let ?st = "st1\<lparr>sd_entries := take m (sd_entries st), sd_validRevisions := take idx ?revs\<rparr>"
  have "StateDB_RevertToSnapshot E i st = Ok ?st"
    using assms(2,3) by (simp add: StateDB_RevertToSnapshot_def Let_def idx journal_revert_def u(1))
  moreover have "state_ok E look tr_ok ?st"
    unfolding state_ok_def
  proof (intro conjI)
    show "accounts_ok E look tr_ok ?st" using u(2) by (simp add: accounts_ok_def)
    show "list_all (entry_ok E look tr_ok) (sd_entries ?st)"
      using assms(1) by (auto simp: state_ok_def list_all_iff dest: in_set_takeD)
    have "m' \<le> m" if mem: "(i', m') \<in> set (take idx ?revs)" for i' m'
    proof -
      obtain k where "k < idx" "?revs ! k = (i', m')" using mem by (auto simp: in_set_conv_nth)
      then show ?thesis using sorted_wrt_nth_less [OF sorted _ assms(2), of k] assms(3) by simp
    qed
    then show "revisions_ok ?st"
      using assms(1) u(3) by (auto simp: state_ok_def revisions_ok_def frame_def sorted_wrt_take list_all_iff
          dest: in_set_takeD)
  qed
  moreover have "state_abs E look ?st = A" using u(4) by (auto intro: state_abs_cong)
  ultimately show ?thesis using that u(3) by (simp add: frame_def)
qed

lemma since_Revert:
  assumes "since st st1" "sd_nextRevisionId st \<le> i" "StateDB_RevertToSnapshot E i st1 = Ok st2"
  shows "since st st2"
proof -
  let ?revs = "sd_validRevisions st1" and ?n = "length (sd_entries st)"
  obtain new more where n: "sd_entries st1 = sd_entries st @ new"
    "aundos E look (rev new) (state_abs E look st1) = Some (state_abs E look st)"
    "?revs = sd_validRevisions st @ more"
    "list_all (\<lambda>(i, m). sd_nextRevisionId st \<le> i \<and> ?n \<le> m) more"
    using assms(1) by (auto simp: since_def)
  have ok: "state_ok E look tr_ok st1" using assms(1) by (simp add: since_def)
  obtain idx m where r: "idx < length ?revs" "?revs ! idx = (i, m)"
  proof -
    let ?r = "search_between 0 (length ?revs) (\<lambda>k. fst (?revs ! k) \<ge> i)"
    have "?r \<noteq> length ?revs" "fst (?revs ! ?r) = i"
      using assms(3) by (auto simp: StateDB_RevertToSnapshot_def Let_def split: if_splits)
    moreover have "?r \<le> length ?revs"
      using search_sorted(1) [where revs = ?revs and x = i] ok by (simp add: state_ok_def revisions_ok_def)
    ultimately show ?thesis using that [of ?r "snd (?revs ! ?r)"] by (metis le_neq_implies_less prod.collapse)
  qed
  have old: "length (sd_validRevisions st) \<le> idx"
    proof (rule ccontr)
      assume l: "\<not> ?thesis"
      then have "?revs ! idx \<in> set (sd_validRevisions st)" using n(3) by (simp add: nth_append)
      moreover have "list_all (\<lambda>(i, m). i < sd_nextRevisionId st) (sd_validRevisions st)"
        using assms(1) by (auto simp: since_def state_ok_def revisions_ok_def list_all_iff)
      ultimately show False using r(2) assms(2) by (auto simp: list_all_iff)
    qed
  have "(i, m) \<in> set more"
  proof -
    have "more ! (idx - length (sd_validRevisions st)) = (i, m)" "idx - length (sd_validRevisions st) < length more"
      using r n(3) old by (auto simp: nth_append)
    then show ?thesis using nth_mem by metis
  qed
  then have m: "?n \<le> m" using n(4) by (auto simp: list_all_iff)
  let ?k = "m - ?n"
  have split: "rev new = rev (drop ?k new) @ rev (take ?k new)" by (metis append_take_drop_id rev_append)
  have d: "drop m (sd_entries st1) = drop ?k new" "take m (sd_entries st1) = sd_entries st @ take ?k new"
    using m n(1) by simp_all
  obtain A where A: "aundos E look (rev (drop ?k new)) (state_abs E look st1) = Some A"
    "aundos E look (rev (take ?k new)) A = Some (state_abs E look st)"
    using n(2) unfolding split by (auto split: bind_splits)
  obtain st3 where "StateDB_RevertToSnapshot E i st1 = Ok st3" "state_ok E look tr_ok st3" "state_abs E look st3 = A"
    "sd_entries st3 = take m (sd_entries st1)" "sd_validRevisions st3 = take idx ?revs"
    "sd_nextRevisionId st3 = sd_nextRevisionId st1"
    using RevertToSnapshot_at [OF ok r] A(1) d(1) by metis
  moreover have "length (sd_validRevisions st) \<le> idx" using old .
  ultimately show ?thesis using assms(1,3) A(2) d(2) n(3,4)
    by (auto simp: since_def list_all_iff dest: in_set_takeD
        intro!: exI [of _ "take ?k new"] exI [of _ "take (idx - length (sd_validRevisions st)) more"])
qed

text \<open>The snapshot itself.\<close>

lemma Revert_restores:
  assumes "state_ok E look tr_ok st" "StateDB_Snapshot st = (i, st0)" "since st0 st1"
  obtains st2 where "StateDB_RevertToSnapshot E i st1 = Ok st2" "state_ok E look tr_ok st2"
    "state_abs E look st2 = state_abs E look st" "sd_entries st2 = sd_entries st"
    "sd_validRevisions st2 = sd_validRevisions st"
proof -
  have st0: "st0 = snd (StateDB_Snapshot st)" "i = sd_nextRevisionId st" "sd_entries st0 = sd_entries st"
    "sd_validRevisions st0 = sd_validRevisions st @ [(i, length (sd_entries st))]"
    using assms(2) by (auto simp: StateDB_Snapshot_def Let_def)
  obtain new more where n: "sd_entries st1 = sd_entries st @ new"
    "aundos E look (rev new) (state_abs E look st1) = Some (state_abs E look st)"
    "sd_validRevisions st1 = sd_validRevisions st @ (i, length (sd_entries st)) # more"
    using assms(3) Snapshot_abs [of st] unfolding since_def st0(3,4) by (auto simp: st0(1))
  let ?idx = "length (sd_validRevisions st)"
  have ok: "state_ok E look tr_ok st1" using assms(3) by (simp add: since_def)
  have "?idx < length (sd_validRevisions st1)" "sd_validRevisions st1 ! ?idx = (i, length (sd_entries st))"
    "drop (length (sd_entries st)) (sd_entries st1) = new" using n by simp_all
  then obtain st2 where "StateDB_RevertToSnapshot E i st1 = Ok st2" "state_ok E look tr_ok st2"
    "state_abs E look st2 = state_abs E look st"
    "sd_entries st2 = take (length (sd_entries st)) (sd_entries st1)"
    "sd_validRevisions st2 = take ?idx (sd_validRevisions st1)"
    using RevertToSnapshot_at [OF ok] n(2) by metis
  then show ?thesis using that n by simp
qed

end

end
