(* ===== verification/State_Snapshots.thy ===== *)
theory State_Snapshots
  imports State_Journal
begin

section \<open>Snapshots of the account state: dvm/ethereum/state/statedb.go\<close>

text \<open>
  The operations a contract run performs between a snapshot and its reversal, what they can observe of the state, and
  the theorem that \<open>RevertToSnapshot\<close> restores it, on the tries of the program.
\<close>

subsection \<open>Runs\<close>

datatype state_op =
    OpCreateAccount AddressBytes
  | OpAddBalance AddressBytes int
  | OpSubBalance AddressBytes int
  | OpSetBalance AddressBytes int
  | OpSetNonce AddressBytes int
  | OpSetCode AddressBytes "byte list option"
  | OpSetState AddressBytes HashBytes HashBytes
  | OpSuicide AddressBytes
  | OpAddLog Log
  | OpAddPreimage HashBytes "byte list"
  | OpAddRefund int
  | OpPrepare HashBytes HashBytes int
  | OpGetBalance AddressBytes
  | OpGetCode AddressBytes
  | OpGetState AddressBytes HashBytes
  | OpSnapshot
  | OpRevert int

primrec state_step :: "'t senv \<Rightarrow> state_op \<Rightarrow> 't StateDB \<Rightarrow> 't StateDB result" where
  "state_step E (OpCreateAccount a) st = StateDB_CreateAccount E a st"
| "state_step E (OpAddBalance a n) st = StateDB_AddBalance E a n st"
| "state_step E (OpSubBalance a n) st = StateDB_SubBalance E a n st"
| "state_step E (OpSetBalance a n) st = StateDB_SetBalance E a n st"
| "state_step E (OpSetNonce a n) st = StateDB_SetNonce E a n st"
| "state_step E (OpSetCode a c) st = StateDB_SetCode E a c st"
| "state_step E (OpSetState a key v) st = StateDB_SetState E a key v st"
| "state_step E (OpSuicide a) st = result_bind (StateDB_Suicide E a st) (\<lambda>(_, st1). Ok st1)"
| "state_step E (OpAddLog log) st = Ok (StateDB_AddLog log st)"
| "state_step E (OpAddPreimage h b) st = Ok (StateDB_AddPreimage h b st)"
| "state_step E (OpAddRefund n) st = Ok (StateDB_AddRefund n st)"
| "state_step E (OpPrepare th bh ti) st = Ok (StateDB_Prepare th bh ti st)"
| "state_step E (OpGetBalance a) st = result_bind (StateDB_GetBalance E a st) (\<lambda>(_, st1). Ok st1)"
| "state_step E (OpGetCode a) st = result_bind (StateDB_GetCode E a st) (\<lambda>(_, st1). Ok st1)"
| "state_step E (OpGetState a key) st = result_bind (StateDB_GetState E a key st) (\<lambda>(_, st1). Ok st1)"
| "state_step E OpSnapshot st = Ok (snd (StateDB_Snapshot st))"
| "state_step E (OpRevert i) st = StateDB_RevertToSnapshot E i st"

primrec state_run :: "'t senv \<Rightarrow> state_op list \<Rightarrow> 't StateDB \<Rightarrow> 't StateDB result" where
  "state_run E [] st = Ok st"
| "state_run E (op # ops) st = result_bind (state_step E op st) (state_run E ops)"

text \<open>Operations that do not revert behind the snapshot \<open>i\<close>, on addresses of the right length.\<close>

primrec op_after :: "int \<Rightarrow> state_op \<Rightarrow> bool" where
  "op_after i (OpCreateAccount a) = (length a = AddressLength)"
| "op_after i (OpAddBalance a n) = (length a = AddressLength)"
| "op_after i (OpSubBalance a n) = (length a = AddressLength)"
| "op_after i (OpSetBalance a n) = (length a = AddressLength)"
| "op_after i (OpSetNonce a n) = (length a = AddressLength)"
| "op_after i (OpSetCode a c) = (length a = AddressLength)"
| "op_after i (OpSetState a key v) = (length a = AddressLength)"
| "op_after i (OpSuicide a) = True"
| "op_after i (OpAddLog log) = True"
| "op_after i (OpAddPreimage h b) = True"
| "op_after i (OpAddRefund n) = True"
| "op_after i (OpPrepare th bh ti) = True"
| "op_after i (OpGetBalance a) = True"
| "op_after i (OpGetCode a) = True"
| "op_after i (OpGetState a key) = True"
| "op_after i OpSnapshot = True"
| "op_after i (OpRevert j) = (i < j)"

text \<open>Everything that can be read of an account, as the readers return it.\<close>

record account_reading =
  ar_Exist :: "bool result"
  ar_Empty :: "bool result"
  ar_Balance :: "int result"
  ar_Nonce :: "int result"
  ar_CodeHash :: "HashBytes result"
  ar_Code :: "byte list option result"
  ar_CodeSize :: "int result"
  ar_State :: "HashBytes \<Rightarrow> HashBytes result"
  ar_Suicided :: "bool result"

definition reading :: "('a \<times> 't StateDB) result \<Rightarrow> 'a result" where
  "reading r = result_bind r (\<lambda>(x, _). Ok x)"

definition read_account :: "'t senv \<Rightarrow> 't StateDB \<Rightarrow> AddressBytes \<Rightarrow> account_reading" where
  "read_account E st a =
     \<lparr>ar_Exist = reading (StateDB_Exist E a st), ar_Empty = reading (StateDB_Empty E a st),
      ar_Balance = reading (StateDB_GetBalance E a st), ar_Nonce = reading (StateDB_GetNonce E a st),
      ar_CodeHash = reading (StateDB_GetCodeHash E a st), ar_Code = reading (StateDB_GetCode E a st),
      ar_CodeSize = reading (StateDB_GetCodeSize E a st),
      ar_State = (\<lambda>key. reading (StateDB_GetState E a key st)),
      ar_Suicided = reading (StateDB_HasSuicided E a st)\<rparr>"

text \<open>The same from the abstract state.\<close>

definition aread_account :: "'t senv \<Rightarrow> state_view \<Rightarrow> AddressBytes \<Rightarrow> account_reading" where
  "aread_account E A a =
     (case sv_accounts A a of
        None \<Rightarrow> \<lparr>ar_Exist = Ok False, ar_Empty = Ok True, ar_Balance = Ok 0, ar_Nonce = Ok 0, ar_CodeHash = Ok zero_hash,
          ar_Code = Ok None, ar_CodeSize = Ok 0, ar_State = (\<lambda>key. Ok zero_hash), ar_Suicided = Ok False\<rparr>
      | Some v \<Rightarrow>
          (let acc = av_account v; h = BytesToHash (a_CodeHash acc) in
           \<lparr>ar_Exist = Ok True,
            ar_Empty = Ok (a_Nonce acc = 0 \<and> the (a_Balance acc) = 0 \<and> a_CodeHash acc = emptyCodeHash E),
            ar_Balance = Ok (the (a_Balance acc)), ar_Nonce = Ok (a_Nonce acc), ar_CodeHash = Ok h,
            ar_Code = Ok (av_code v),
            ar_CodeSize = Ok (case av_code v of
              Some c \<Rightarrow> int (length c)
            | None \<Rightarrow> (case sv_code A h of Ok c \<Rightarrow> int (length c) | _ \<Rightarrow> 0)),
            ar_State = (\<lambda>key. Ok (av_storage v key)), ar_Suicided = Ok (av_suicided v)\<rparr>))"

context account_tries
begin

lemma read_account_abs:
  assumes "accounts_ok E look tr_ok st"
  shows "read_account E st a = aread_account E (state_abs E look st) a"
proof -
  obtain p st0 where g: "getStateObject E a st = Ok (p, st0)" "accounts_ok E look tr_ok st0" "frame st st0"
    "sd_entries st0 = sd_entries st" "state_abs E look st0 = state_abs E look st" "sd_blobs st0 = sd_blobs st"
    "case sv_accounts (state_abs E look st) a of None \<Rightarrow> p = None
     | Some v \<Rightarrow> p = Some a \<and> (\<exists>s. sd_StateObjects st0 a = Some s \<and> \<not> so_deleted s \<and> object_ok E look tr_ok a s \<and>
         abs_object E look (ContractCode E st) a s = v)"
    using getStateObject_ok [OF assms] by blast
  note readers = reading_def read_object_def StateDB_Exist_def StateDB_Empty_def StateDB_GetBalance_def
    StateDB_GetNonce_def StateDB_GetCodeHash_def StateDB_GetCode_def StateDB_GetCodeSize_def StateDB_GetState_def
    StateDB_HasSuicided_def
  show ?thesis
  proof (cases "sv_accounts (state_abs E look st) a")
    case None
    then show ?thesis using g(1,7) by (simp add: read_account_def aread_account_def readers)
  next
    case (Some v)
    then obtain s where s: "p = Some a" "sd_StateObjects st0 a = Some s" "\<not> so_deleted s" "object_ok E look tr_ok a s"
      "abs_object E look (ContractCode E st) a s = v" using g(7) by auto
    have at: "object_at st0 a = s" using s by (simp add: object_at_def)
    have cc: "ContractCode E st0 = ContractCode E st" using g(6) by (rule ContractCode_cong)
    have state: "reading (StateDB_GetState E a key st) = Ok (av_storage v key)" for key
    proof -
      obtain s1 where "stateObject_GetState E key s = Ok (av_storage v key, s1)"
        using GetState_ok [OF s(4), where key = key and cc = "ContractCode E st"] s(5) by metis
      then show ?thesis using g(1) s(1) at by (simp add: readers)
    qed
    have code: "reading (StateDB_GetCode E a st) = Ok (av_code v)"
    proof -
      obtain s1 where "stateObject_Code E st0 s = Ok (av_code v, s1)"
        using Code_ok [OF s(4), where st = st0] s(5) unfolding cc by metis
      then show ?thesis using g(1) s(1) at by (simp add: readers)
    qed
    have size: "reading (StateDB_GetCodeSize E a st) = ar_CodeSize (aread_account E (state_abs E look st) a)"
    proof -
      have addr: "GetAddressBytes (a_Address (so_account s)) = Ok a" using s(4) by (simp add: object_ok_def)
      show ?thesis
        using g(1) s(1) at addr ContractCode_no_panic [of st] Some s(5) [symmetric]
        by (auto simp: readers aread_account_def Let_def cc abs_object_def code_view_def state_abs_sel
            split: option.split result.split)
    qed
    show ?thesis
      using g(1) s(1) at Some s(5) [symmetric] state code size
      by (simp add: read_account_def aread_account_def Let_def)
        (simp add: readers abs_object_def stateObject_empty_def object_balance_def)
  qed
qed

lemma reverts_Ok: "reverts (Ok st1) st \<longleftrightarrow> does E look tr_ok st st1"
  by (simp add: reverts_def)

lemma Suicide_reverts:
  "accounts_ok E look tr_ok st \<Longrightarrow> reverts (result_bind (StateDB_Suicide E a st) (\<lambda>(_, st1). Ok st1)) st"
  using Suicide_op [of st a] by (metis (no_types, lifting) result_bind.simps(1) prod.case reverts_Ok)

text \<open>Reading the object at an address, with what is loaded put back.\<close>

lemma load_reverts:
  assumes "accounts_ok E look tr_ok st"
    and "\<And>st1 s. object_ok E look tr_ok a s \<Longrightarrow> \<exists>v s1. f st1 s = Ok (v, s1) \<and> object_ok E look tr_ok a s1 \<and>
      so_deleted s1 = so_deleted s \<and>
      abs_object E look (ContractCode E st1) a s1 = abs_object E look (ContractCode E st1) a s"
  shows "reverts (result_bind (result_bind (getStateObject E a st) (\<lambda>(p, st1).
       case p of None \<Rightarrow> Ok (d, st1)
       | Some k \<Rightarrow> result_bind (f st1 (object_at st1 k)) (\<lambda>(v, s). Ok (v, put_object k s st1)))) (\<lambda>(_, st1). Ok st1)) st"
proof -
  obtain p st0 where g: "getStateObject E a st = Ok (p, st0)" "accounts_ok E look tr_ok st0" "frame st st0"
    "sd_entries st0 = sd_entries st" "state_abs E look st0 = state_abs E look st"
    "case sv_accounts (state_abs E look st) a of None \<Rightarrow> p = None
     | Some v \<Rightarrow> p = Some a \<and> (\<exists>s. sd_StateObjects st0 a = Some s \<and> \<not> so_deleted s \<and> object_ok E look tr_ok a s \<and>
         abs_object E look (ContractCode E st) a s = v)"
    using getStateObject_ok [OF assms(1)] by blast
  have d0: "does E look tr_ok st st0" using g by (intro does_none) simp_all
  show ?thesis
  proof (cases p)
    case None
    then show ?thesis using g(1) d0 by (simp add: reverts_Ok)
  next
    case (Some k)
    then obtain s where s: "k = a" "has st0 a s" using g(2,6) by (auto simp: has_def split: option.splits)
    then obtain v s1 where f: "f st0 s = Ok (v, s1)" "object_ok E look tr_ok a s1" "so_deleted s1 = so_deleted s"
      "abs_object E look (ContractCode E st0) a s1 = abs_object E look (ContractCode E st0) a s"
      using assms(2) [of s st0] by (auto simp: has_def)
    then show ?thesis using g(1) Some s does_trans [OF d0 put_same_abs [OF s(2)]] by (simp add: reverts_Ok)
  qed
qed

lemma GetState_reverts:
  "accounts_ok E look tr_ok st \<Longrightarrow> reverts (result_bind (StateDB_GetState E a key st) (\<lambda>(_, st1). Ok st1)) st"
  unfolding StateDB_GetState_def
proof (rule load_reverts [where f = "\<lambda>st1. stateObject_GetState E key"])
  fix st1 s
  assume "object_ok E look tr_ok a s"
  from GetState_ok [OF this, where key = key and cc = "ContractCode E st1"]
  show "\<exists>v s1. stateObject_GetState E key s = Ok (v, s1) \<and> object_ok E look tr_ok a s1 \<and> so_deleted s1 = so_deleted s \<and>
      abs_object E look (ContractCode E st1) a s1 = abs_object E look (ContractCode E st1) a s" by metis
qed

lemma GetCode_reverts:
  "accounts_ok E look tr_ok st \<Longrightarrow> reverts (result_bind (StateDB_GetCode E a st) (\<lambda>(_, st1). Ok st1)) st"
  unfolding StateDB_GetCode_def
proof (rule load_reverts [where f = "stateObject_Code E"])
  fix st1 s
  assume "object_ok E look tr_ok a s"
  from Code_ok [OF this, where st = st1]
  show "\<exists>v s1. stateObject_Code E st1 s = Ok (v, s1) \<and> object_ok E look tr_ok a s1 \<and> so_deleted s1 = so_deleted s \<and>
      abs_object E look (ContractCode E st1) a s1 = abs_object E look (ContractCode E st1) a s" by metis
qed

lemma Prepare_does: "accounts_ok E look tr_ok st \<Longrightarrow> does E look tr_ok st (StateDB_Prepare th bh ti st)"
  by (intro does_none) (auto simp: StateDB_Prepare_def accounts_ok_def frame_def intro: state_abs_cong)

lemma op_reverts:
  assumes "badger_ok E" "\<And>c. length (crypto_NewHash (se_crypto E) c) = HashLength"
    and "accounts_ok E look tr_ok st" "op_after i op" "\<forall>j. op \<noteq> OpRevert j" "op \<noteq> OpSnapshot"
  shows "reverts (state_step E op st) st"
proof (cases op)
  case (OpGetBalance a)
  then show ?thesis using read_object_reverts [OF assms(3)] by (simp add: StateDB_GetBalance_def)
qed (use assms in \<open>simp_all add: CreateAccount_reverts AddBalance_reverts SubBalance_reverts SetBalance_reverts
  SetNonce_reverts SetCode_reverts SetState_reverts Suicide_reverts reverts_Ok AddLog_op AddPreimage_op AddRefund_op
  Prepare_does GetCode_reverts GetState_reverts\<close>)

lemma op_since:
  assumes "badger_ok E" "\<And>c. length (crypto_NewHash (se_crypto E) c) = HashLength"
    and "since st st1" "op_after i op" "sd_nextRevisionId st = i + 1" "state_step E op st1 = Ok st2"
  shows "since st st2"
proof -
  have ok: "accounts_ok E look tr_ok st1" using assms(3) by (simp add: since_def state_ok_def)
  consider "op = OpSnapshot" | j where "op = OpRevert j" | "\<forall>j. op \<noteq> OpRevert j" "op \<noteq> OpSnapshot" by blast
  then show ?thesis
  proof cases
    case 1
    then show ?thesis using assms(3,6) since_Snapshot by auto
  next
    case (2 j)
    then show ?thesis using assms since_Revert [of st st1 j st2] by auto
  next
    case 3
    then show ?thesis using op_reverts [OF assms(1,2) ok assms(4)] assms(3,6) since_does by (auto simp: reverts_def)
  qed
qed

lemma run_since:
  assumes "badger_ok E" "\<And>c. length (crypto_NewHash (se_crypto E) c) = HashLength"
    and "since st st1" "list_all (op_after i) ops" "sd_nextRevisionId st = i + 1" "state_run E ops st1 = Ok st2"
  shows "since st st2"
  using assms(3,4,6)
proof (induction ops arbitrary: st1)
  case (Cons op ops)
  then obtain st' where "state_step E op st1 = Ok st'" "state_run E ops st' = Ok st2"
    by (auto simp: result_bind_Ok_iff)
  then show ?case using Cons op_since [OF assms(1,2) _ _ assms(5)] by auto
qed simp

text \<open>A run without a reversal returns.\<close>

lemma run_returns:
  assumes "badger_ok E" "\<And>c. length (crypto_NewHash (se_crypto E) c) = HashLength"
    and "accounts_ok E look tr_ok st" "list_all (op_after i) ops" "\<forall>j. OpRevert j \<notin> set ops"
  shows "\<exists>st1. state_run E ops st = Ok st1"
  using assms(3-5)
proof (induction ops arbitrary: st)
  case (Cons op ops)
  have "\<exists>st'. state_step E op st = Ok st' \<and> accounts_ok E look tr_ok st'"
  proof (cases "op = OpSnapshot")
    case True
    then show ?thesis using Cons.prems(1) by (simp add: StateDB_Snapshot_def Let_def accounts_ok_def)
  next
    case False
    then show ?thesis using op_reverts [OF assms(1,2) Cons.prems(1), of i op] Cons.prems(2,3)
      by (auto simp: reverts_def does_def)
  qed
  then obtain st' where "state_step E op st = Ok st'" "accounts_ok E look tr_ok st'" by blast
  then show ?case using Cons.IH [of st'] Cons.prems by simp
qed simp

lemma run_Revert_restores:
  assumes "badger_ok E" "\<And>c. length (crypto_NewHash (se_crypto E) c) = HashLength"
    and "state_ok E look tr_ok st" "StateDB_Snapshot st = (i, st0)" "list_all (op_after i) ops"
    and "state_run E ops st0 = Ok st1"
  obtains st2 where "StateDB_RevertToSnapshot E i st1 = Ok st2" "state_ok E look tr_ok st2"
    "read_account E st2 = read_account E st" "sd_refund st2 = sd_refund st" "sd_logs st2 = sd_logs st"
    "sd_logSize st2 = sd_logSize st" "sd_preimages st2 = sd_preimages st" "sd_entries st2 = sd_entries st"
    "sd_validRevisions st2 = sd_validRevisions st"
proof -
  have st0: "st0 = snd (StateDB_Snapshot st)" "sd_nextRevisionId st0 = i + 1"
    using assms(4) by (auto simp: StateDB_Snapshot_def Let_def)
  have "since st0 st0" using Snapshot_ok [OF assms(3)] st0(1) by (auto intro: since_refl)
  from run_since [OF assms(1,2) this assms(5) st0(2) assms(6)] have s: "since st0 st1" .
  obtain st2 where r: "StateDB_RevertToSnapshot E i st1 = Ok st2" "state_ok E look tr_ok st2"
    "state_abs E look st2 = state_abs E look st" "sd_entries st2 = sd_entries st"
    "sd_validRevisions st2 = sd_validRevisions st"
    using Revert_restores [OF assms(3,4) s] by blast
  have "read_account E st2 = read_account E st"
    using r(2,3) assms(3) by (auto simp: read_account_abs state_ok_def)
  moreover have "sd_refund st2 = sd_refund st" "sd_logs st2 = sd_logs st" "sd_logSize st2 = sd_logSize st"
    "sd_preimages st2 = sd_preimages st"
    using r(3) state_abs_sel [of E look st2] state_abs_sel [of E look st] by metis+
  ultimately show ?thesis using that r by blast
qed

end

subsection \<open>On the tries of the program\<close>

definition program_env ::
  "crypto \<Rightarrow> node_db \<Rightarrow> (Trie \<Rightarrow> HashBytes \<times> Trie) \<Rightarrow> (Trie \<Rightarrow> HashBytes result \<times> Trie) \<Rightarrow>
     (HashBytes \<Rightarrow> byte list option) \<Rightarrow> faults \<Rightarrow> txn \<Rightarrow> int \<Rightarrow> Trie senv" where
  "program_env C D H K code F tx now =
     \<lparr>se_crypto = C, se_tries = secure_tries C D H K code, se_faults = F, se_txn = tx, se_now = now\<rparr>"

lemma program_env_sel [simp]:
  "se_crypto (program_env C D H K code F tx now) = C"
  "se_tries (program_env C D H K code F tx now) = secure_tries C D H K code"
  "se_faults (program_env C D H K code F tx now) = F" "se_txn (program_env C D H K code F tx now) = tx"
  by (simp_all add: program_env_def)

definition secure_look :: "crypto \<Rightarrow> node_db \<Rightarrow> Trie \<Rightarrow> byte list \<Rightarrow> byte list" where
  "secure_look C D t key = contents D t (hashKey C key)"

lemma New_zero: "New D zero_hash = Inr \<lparr>t_root = NilNode, t_cachegen = 0\<rparr>"
  by (simp add: New_def zero_hash_def HashLength_def numeral_eq_Suc)

interpretation program_tries: account_tries "program_env C D H K code F tx now" "secure_look C D" "wf_trie D"
  for C D H K code F tx now
proof unfold_locales
  fix t k
  assume "wf_trie D t"
  from TryGet_map [OF this, of "hashKey C k"] obtain t' where
    "TryGet D t (hashKey C k) = (Inr (contents D t (hashKey C k)), t')" "wf_trie D t'" "contents D t' = contents D t"
    by blast
  then show "\<exists>t'. tr_TryGet (se_tries (program_env C D H K code F tx now)) t k = (Ok (secure_look C D t k), t') \<and>
      wf_trie D t' \<and> secure_look C D t' = secure_look C D t"
    by (auto simp: secure_tries_def Secure_TryGet_def secure_look_def tres_result_def fun_eq_iff)
next
  fix h r e
  show "tr_OpenStorageTrie (se_tries (program_env C D H K code F tx now)) h r \<noteq> Panic e"
    by (auto simp: secure_tries_def NewSecure_def tres_result_def New_def resolveHash_def split: option.splits)
next
  fix h
  show "\<exists>t. tr_OpenStorageTrie (se_tries (program_env C D H K code F tx now)) h zero_hash = Ok t \<and> wf_trie D t"
    by (simp add: secure_tries_def NewSecure_def New_zero tres_result_def wf_trie_def)
next
  fix h e
  show "tr_ContractCode (se_tries (program_env C D H K code F tx now)) h \<noteq> Panic e"
    by (auto simp: secure_tries_def split: option.splits)
qed

text \<open>C5. \<open>RevertToSnapshot\<close> undoes everything: from a well-formed state, after any sequence of account creations,
  balance, nonce, code and storage changes, suicides, logs, preimages, refunds, reads and further snapshots and
  reversals that do not go behind the snapshot, reverting to it returns without a panic, and then every
  reader answers for every account, and the refund, the logs, the preimages, the journal and the
  list of snapshots are, as when the snapshot was taken.\<close>

theorem RevertToSnapshot_restores:
  assumes "badger_ok (program_env C D H K code F tx now)"
    and "\<And>x. length (crypto_NewHash C x) = HashLength"
    and "state_ok (program_env C D H K code F tx now) (secure_look C D) (wf_trie D) st"
    and "StateDB_Snapshot st = (i, st0)" "list_all (op_after i) ops"
    and "state_run (program_env C D H K code F tx now) ops st0 = Ok st1"
  shows "\<exists>st2. StateDB_RevertToSnapshot (program_env C D H K code F tx now) i st1 = Ok st2 \<and>
     read_account (program_env C D H K code F tx now) st2 = read_account (program_env C D H K code F tx now) st \<and>
     sd_refund st2 = sd_refund st \<and> sd_logs st2 = sd_logs st \<and> sd_logSize st2 = sd_logSize st \<and>
     sd_preimages st2 = sd_preimages st \<and> sd_entries st2 = sd_entries st \<and>
     sd_validRevisions st2 = sd_validRevisions st"
  using program_tries.run_Revert_restores [OF assms(1) _ assms(3-6)] assms(2) by (metis program_env_sel(1))

text \<open>A state over the empty trie and an empty ledger.\<close>

definition sample_state :: "Trie StateDB" where
  "sample_state = \<lparr>sd_trie = empty_trie, sd_StateObjects = Map.empty, sd_stateObjectsDirty = {}, sd_dbErr = None,
     sd_refund = 0, sd_thash = zero_hash, sd_bhash = zero_hash, sd_txIndex = 0, sd_logs = Map.empty, sd_logSize = 0,
     sd_preimages = Map.empty, sd_entries = [], sd_dirties = Map.empty, sd_validRevisions = [], sd_nextRevisionId = 0,
     sd_blobs = Map.empty\<rparr>"

definition sample_senv :: "Trie senv" where
  "sample_senv = program_env flat_crypto no_nodes (\<lambda>t. (zero_hash, t)) (\<lambda>t. (Ok zero_hash, t)) (\<lambda>h. None) no_faults
     (NewTransaction False []) 0"

lemma sample_badger_ok: "badger_ok sample_senv"
  by (simp add: badger_ok_def sample_senv_def emptyCodeHash_def crypto_NewHash_def flat_crypto_def BytesToHash_def
      fill_right_def ToAccountByAddress_def txn_Get_def no_faults_def NewTransaction_def)

lemma sample_state_ok: "state_ok sample_senv (secure_look flat_crypto no_nodes) (wf_trie no_nodes) sample_state"
  using wf_empty_trie contents_empty
  by (simp add: state_ok_def accounts_ok_def revisions_ok_def sample_state_def secure_look_def is_u64_def)

definition sample_ops :: "state_op list" where
  "sample_ops =
     (let a = replicate 20 7; b = replicate 20 9 in
      [OpAddBalance a 5, OpSnapshot, OpSetState a (replicate 32 1) (replicate 32 2), OpAddRefund 3, OpCreateAccount b, OpSetCode b (Some [0x60]), OpSuicide a])"

theorem RevertToSnapshot_restores_witness:
  "\<exists>st1 st2. state_run sample_senv sample_ops (snd (StateDB_Snapshot sample_state)) = Ok st1 \<and>
     StateDB_RevertToSnapshot sample_senv 0 st1 = Ok st2 \<and> read_account sample_senv st2 = read_account sample_senv sample_state"
proof -
  let ?r = "state_run sample_senv sample_ops (snd (StateDB_Snapshot sample_state))"
  have h: "length (crypto_NewHash flat_crypto x) = HashLength" for x
    by (simp add: crypto_NewHash_def flat_crypto_def BytesToHash_def fill_right_def)
  have ops: "list_all (op_after 0) sample_ops" "\<forall>j. OpRevert j \<notin> set sample_ops"
    by (simp_all add: sample_ops_def AddressLength_def Let_def)
  have "state_ok sample_senv (secure_look flat_crypto no_nodes) (wf_trie no_nodes) (snd (StateDB_Snapshot sample_state))"
    unfolding sample_senv_def by (rule program_tries.Snapshot_ok) (rule sample_state_ok [unfolded sample_senv_def])
  then obtain st1 where st1: "?r = Ok st1"
    using program_tries.run_returns [OF sample_badger_ok [unfolded sample_senv_def], of "snd (StateDB_Snapshot sample_state)"]
      h ops unfolding sample_senv_def state_ok_def by (metis program_env_sel(1))
  have "StateDB_Snapshot sample_state = (0, snd (StateDB_Snapshot sample_state))"
    by (simp add: StateDB_Snapshot_def sample_state_def)
  from RevertToSnapshot_restores [OF sample_badger_ok [unfolded sample_senv_def] h
      sample_state_ok [unfolded sample_senv_def] this ops(1) st1 [unfolded sample_senv_def]] st1
  show ?thesis unfolding sample_senv_def by blast
qed

text \<open>C35. What a stored account keeps: an object written to the account trie with \<open>updateStateObject\<close> and loaded again by
  a state without live objects has the same address, keys, name, balance, storage root and code hash,
  but its nonce is 0 and its two times are the zero time.\<close>

theorem stored_account_loses_nonce:
  assumes "wf_trie D (sd_trie st)" "GetAddressBytes (a_Address (so_account s)) = Ok a"
    and "has_type account_type (account_rval (so_account s))" "length (rlp (account_rval (so_account s))) < 2 ^ 64"
    and "a_CodeHash (so_account s) \<noteq> []"
  shows "\<exists>st1 st2. updateStateObject (program_env C D H K code F tx now) s st = Ok st1 \<and>
     getStateObject (program_env C D H K code F tx now) a (st1\<lparr>sd_StateObjects := Map.empty\<rparr>) = Ok (Some a, st2) \<and>
     so_account (object_at st2 a) = (so_account s)\<lparr>a_Nonce := 0, a_Updated := zero_time, a_Created := zero_time\<rparr>"
proof -
  let ?E = "program_env C D H K code F tx now" and ?acc = "so_account s"
  let ?v = "account_rval ?acc"
  have dec: "decodable account_type" by (simp add: account_type_def HashLength_def)
  have enc: "EncodeToBytes ?v = Ok (rlp ?v)" "DecodeBytes account_type (rlp ?v) = Val ?v"
    using DecodeBytes_back [OF dec assms(3,4)] by blast+
  obtain t1 where t1: "TryUpdate D (sd_trie st) (hashKey C a) (rlp ?v) = (Inr (), t1)" "wf_trie D t1"
    "contents D t1 = (contents D (sd_trie st))(hashKey C a := rlp ?v)"
    using TryUpdate_map [OF assms(1)] by blast
  obtain t2 where t2: "TryGet D t1 (hashKey C a) = (Inr (rlp ?v), t2)"
    using TryGet_map [OF t1(2), of "hashKey C a"] t1(3) by auto
  have ne: "length (rlp ?v) > 0" by (simp add: account_rval_def rlp_list_def puthead_def)
  have b: "a_Balance ?acc \<noteq> None" using assms(3) by (auto simp: account_type_def account_rval_def split: option.splits)
  have rb: "rval_account ?v = ?acc\<lparr>a_Updated := zero_time, a_Created := zero_time, a_Nonce := int (nat (a_Nonce ?acc))\<rparr>"
    by (cases ?acc) (simp add: rval_account_def account_rval_def)
  let ?st1 = "st\<lparr>sd_trie := t1\<rparr>" and ?o = "newStateObject ?E (rval_account ?v)"
  have "updateStateObject ?E s st = Ok ?st1"
    using assms(2) by (simp add: updateStateObject_def enc(1) secure_tries_def Secure_TryUpdate_def t1(1) tres_result_def
        note_db_error_def)
  moreover have "getStateObject ?E a (?st1\<lparr>sd_StateObjects := Map.empty\<rparr>) =
      Ok (Some a, put_object a ?o (?st1\<lparr>sd_StateObjects := Map.empty, sd_trie := t2\<rparr>))"
    using ne assms(2) by (simp add: getStateObject_def secure_tries_def Secure_TryGet_def t2 tres_result_def enc(2)
        setStateObject_def newStateObject_def rb)
  ultimately show ?thesis using b assms(5)
    by (auto simp: object_at_def newStateObject_def rb)
qed

lemma length_puthead_le: "length (puthead x y n) \<le> 9"
  using length_putint_le [of n] by (simp add: puthead_def)

lemma length_rlp_string_le: "length (rlp_string b) \<le> length b + 9"
  using length_puthead_le [of "0x80" "0xB7" "length b"] rlp_string_long [of b] rlp_string_short [of b]
  by (cases "length b = 1 \<and> unat (b ! 0) < 128") auto

lemma length_rlp_list_le: "length (rlp_list b) \<le> length b + 9"
  using length_puthead_le [of "0xC0" "0xF7" "length b"] by (simp add: rlp_list_def)

theorem stored_account_loses_nonce_witness:
  "let acc = Account_zero\<lparr>a_Address := hex_EncodeToString (replicate 20 7), a_Balance := Some 5, a_Nonce := 3,
       a_CodeHash := zero_hash\<rparr>;
     s = \<lparr>so_account = acc, so_dbErr = None, so_trie = None, so_code = None, so_cachedStorage = Map.empty,
       so_dirtyStorage = Map.empty, so_dirtyCode = False, so_suicided = False, so_deleted = False\<rparr>
   in \<exists>st1 st2. updateStateObject sample_senv s sample_state = Ok st1 \<and>
     getStateObject sample_senv (replicate 20 7) (st1\<lparr>sd_StateObjects := Map.empty\<rparr>) = Ok (Some (replicate 20 7), st2) \<and>
     so_account (object_at st2 (replicate 20 7)) = acc\<lparr>a_Nonce := 0\<rparr>"
proof -
  let ?a = "replicate 20 7" 
  let ?acc = "Account_zero\<lparr>a_Address := hex_EncodeToString ?a, a_Balance := Some 5, a_Nonce := 3, a_CodeHash := zero_hash\<rparr>"
  let ?s = "\<lparr>so_account = ?acc, so_dbErr = None, so_trie = None, so_code = None, so_cachedStorage = Map.empty,
       so_dirtyStorage = Map.empty, so_dirtyCode = False, so_suicided = False, so_deleted = False\<rparr> :: Trie stateObject"
  have t: "has_type account_type (account_rval (so_account ?s))"
    by (simp add: account_type_def account_rval_def Account_zero_def)
  have l: "length (rlp (account_rval (so_account ?s))) < 2 ^ 64"
  proof -
    have str: "length (string_bytes (hex_EncodeToString ?a)) = 40" by (simp add: string_bytes_def)
    have n: "length (big_Bytes 5) \<le> 1" "length (big_Bytes 3) \<le> 1" by (simp_all add: big_Bytes_def digits.simps)
    show ?thesis
      using length_rlp_list_le [of "concat (map rlp [RString (hex_EncodeToString ?a), RString [], RString [],
            RBig (Some 5), RString [], RStruct [], RStruct [], RUint 3, RBytes zero_hash, RBytes zero_hash])"]
        length_rlp_string_le [of "string_bytes (hex_EncodeToString ?a)"] length_rlp_string_le [of "big_Bytes 5"]
        length_rlp_string_le [of "big_Bytes 3"] length_rlp_string_le [of zero_hash] length_rlp_list_le [of "[]"] str n
      by (simp add: account_rval_def Account_zero_def zero_hash_def HashLength_def string_bytes_def)
  qed
  have g: "GetAddressBytes (a_Address (so_account ?s)) = Ok ?a"
    by (simp add: GetAddressBytes_hex AddressLength_def)
  have w: "wf_trie no_nodes (sd_trie sample_state)" by (simp add: sample_state_def)
  have c: "a_CodeHash (so_account ?s) \<noteq> []" by (simp add: zero_hash_def HashLength_def)
  show ?thesis
    using stored_account_loses_nonce [OF w g t l c] unfolding Let_def sample_senv_def
    by (simp add: Account_zero_def)
qed

end
