(* ===== verification/Evm_Opcodes.thy ===== *)
theory Evm_Opcodes
  imports Evm_Machine Go_Codec
begin

section \<open>Opcodes and the arithmetic instructions: dvm/ethereum/vm/opcodes.go, instructions.go\<close>

text \<open>
  \<^item> \<open>opcodes.go\<close>: the numbers of the instructions and the two tables of their names.
  \<^item> The instructions of \<open>instructions.go\<close> that read and change nothing but the stack, as functions on stacks. The
    integers of the code are shared and changed in place; an instruction that works on \<open>stack.peek()\<close> replaces the
    top here, and the pool that takes popped integers back (\<open>intpool.go\<close>) has no counterpart.
  \<^item> The reference: the same instructions on words of 256 bits (\<open>word_alu\<close>), and the proof that the code computes them.

  A run of the machine returns a value, panics, or, in the model only, exhausts the fuel: \<open>outcome\<close>.
\<close>

type_synonym OpCode = byte

named_theorems opcode_defs \<open>the numbers of the opcodes\<close>

subsection \<open>opcodes.go\<close>

text \<open>0x0 range - arithmetic ops\<close>

definition STOP :: OpCode where [opcode_defs]: "STOP = 0x00"
definition ADD :: OpCode where [opcode_defs]: "ADD = 0x01"
definition MUL :: OpCode where [opcode_defs]: "MUL = 0x02"
definition SUB :: OpCode where [opcode_defs]: "SUB = 0x03"
definition DIV :: OpCode where [opcode_defs]: "DIV = 0x04"
definition SDIV :: OpCode where [opcode_defs]: "SDIV = 0x05"
definition MOD :: OpCode where [opcode_defs]: "MOD = 0x06"
definition SMOD :: OpCode where [opcode_defs]: "SMOD = 0x07"
definition ADDMOD :: OpCode where [opcode_defs]: "ADDMOD = 0x08"
definition MULMOD :: OpCode where [opcode_defs]: "MULMOD = 0x09"
definition EXP :: OpCode where [opcode_defs]: "EXP = 0x0a"
definition SIGNEXTEND :: OpCode where [opcode_defs]: "SIGNEXTEND = 0x0b"

text \<open>0x10 range - comparison ops\<close>

definition LT :: OpCode where [opcode_defs]: "LT = 0x10"
definition GT :: OpCode where [opcode_defs]: "GT = 0x11"
definition SLT :: OpCode where [opcode_defs]: "SLT = 0x12"
definition SGT :: OpCode where [opcode_defs]: "SGT = 0x13"
definition EQ :: OpCode where [opcode_defs]: "EQ = 0x14"
definition ISZERO :: OpCode where [opcode_defs]: "ISZERO = 0x15"
definition AND :: OpCode where [opcode_defs]: "AND = 0x16"
definition OR :: OpCode where [opcode_defs]: "OR = 0x17"
definition XOR :: OpCode where [opcode_defs]: "XOR = 0x18"
definition NOT :: OpCode where [opcode_defs]: "NOT = 0x19"
definition BYTE :: OpCode where [opcode_defs]: "BYTE = 0x1a"
definition SHL :: OpCode where [opcode_defs]: "SHL = 0x1b"
definition SHR :: OpCode where [opcode_defs]: "SHR = 0x1c"
definition SAR :: OpCode where [opcode_defs]: "SAR = 0x1d"
definition SHA3 :: OpCode where [opcode_defs]: "SHA3 = 0x20"

text \<open>0x30 range - closure state\<close>

definition ADDRESS :: OpCode where [opcode_defs]: "ADDRESS = 0x30"
definition BALANCE :: OpCode where [opcode_defs]: "BALANCE = 0x31"
definition ORIGIN :: OpCode where [opcode_defs]: "ORIGIN = 0x32"
definition CALLER :: OpCode where [opcode_defs]: "CALLER = 0x33"
definition CALLVALUE :: OpCode where [opcode_defs]: "CALLVALUE = 0x34"
definition CALLDATALOAD :: OpCode where [opcode_defs]: "CALLDATALOAD = 0x35"
definition CALLDATASIZE :: OpCode where [opcode_defs]: "CALLDATASIZE = 0x36"
definition CALLDATACOPY :: OpCode where [opcode_defs]: "CALLDATACOPY = 0x37"
definition CODESIZE :: OpCode where [opcode_defs]: "CODESIZE = 0x38"
definition CODECOPY :: OpCode where [opcode_defs]: "CODECOPY = 0x39"
definition GASPRICE :: OpCode where [opcode_defs]: "GASPRICE = 0x3a"
definition EXTCODESIZE :: OpCode where [opcode_defs]: "EXTCODESIZE = 0x3b"
definition EXTCODECOPY :: OpCode where [opcode_defs]: "EXTCODECOPY = 0x3c"
definition RETURNDATASIZE :: OpCode where [opcode_defs]: "RETURNDATASIZE = 0x3d"
definition RETURNDATACOPY :: OpCode where [opcode_defs]: "RETURNDATACOPY = 0x3e"
definition EXTCODEHASH :: OpCode where [opcode_defs]: "EXTCODEHASH = 0x3f"

text \<open>0x40 range - block operations\<close>

definition BLOCKHASH :: OpCode where [opcode_defs]: "BLOCKHASH = 0x40"
definition COINBASE :: OpCode where [opcode_defs]: "COINBASE = 0x41"
definition TIMESTAMP :: OpCode where [opcode_defs]: "TIMESTAMP = 0x42"
definition NUMBER :: OpCode where [opcode_defs]: "NUMBER = 0x43"
definition DIFFICULTY :: OpCode where [opcode_defs]: "DIFFICULTY = 0x44"
definition GASLIMIT :: OpCode where [opcode_defs]: "GASLIMIT = 0x45"

text \<open>0x50 range - 'storage' and execution\<close>

definition POP :: OpCode where [opcode_defs]: "POP = 0x50"
definition MLOAD :: OpCode where [opcode_defs]: "MLOAD = 0x51"
definition MSTORE :: OpCode where [opcode_defs]: "MSTORE = 0x52"
definition MSTORE8 :: OpCode where [opcode_defs]: "MSTORE8 = 0x53"
definition SLOAD :: OpCode where [opcode_defs]: "SLOAD = 0x54"
definition SSTORE :: OpCode where [opcode_defs]: "SSTORE = 0x55"
definition JUMP :: OpCode where [opcode_defs]: "JUMP = 0x56"
definition JUMPI :: OpCode where [opcode_defs]: "JUMPI = 0x57"
definition PC :: OpCode where [opcode_defs]: "PC = 0x58"
definition MSIZE :: OpCode where [opcode_defs]: "MSIZE = 0x59"
definition GAS :: OpCode where [opcode_defs]: "GAS = 0x5a"
definition JUMPDEST :: OpCode where [opcode_defs]: "JUMPDEST = 0x5b"

text \<open>0x60 range\<close>

definition PUSH1 :: OpCode where [opcode_defs]: "PUSH1 = 0x60"
definition PUSH2 :: OpCode where [opcode_defs]: "PUSH2 = 0x61"
definition PUSH3 :: OpCode where [opcode_defs]: "PUSH3 = 0x62"
definition PUSH4 :: OpCode where [opcode_defs]: "PUSH4 = 0x63"
definition PUSH5 :: OpCode where [opcode_defs]: "PUSH5 = 0x64"
definition PUSH6 :: OpCode where [opcode_defs]: "PUSH6 = 0x65"
definition PUSH7 :: OpCode where [opcode_defs]: "PUSH7 = 0x66"
definition PUSH8 :: OpCode where [opcode_defs]: "PUSH8 = 0x67"
definition PUSH9 :: OpCode where [opcode_defs]: "PUSH9 = 0x68"
definition PUSH10 :: OpCode where [opcode_defs]: "PUSH10 = 0x69"
definition PUSH11 :: OpCode where [opcode_defs]: "PUSH11 = 0x6a"
definition PUSH12 :: OpCode where [opcode_defs]: "PUSH12 = 0x6b"
definition PUSH13 :: OpCode where [opcode_defs]: "PUSH13 = 0x6c"
definition PUSH14 :: OpCode where [opcode_defs]: "PUSH14 = 0x6d"
definition PUSH15 :: OpCode where [opcode_defs]: "PUSH15 = 0x6e"
definition PUSH16 :: OpCode where [opcode_defs]: "PUSH16 = 0x6f"
definition PUSH17 :: OpCode where [opcode_defs]: "PUSH17 = 0x70"
definition PUSH18 :: OpCode where [opcode_defs]: "PUSH18 = 0x71"
definition PUSH19 :: OpCode where [opcode_defs]: "PUSH19 = 0x72"
definition PUSH20 :: OpCode where [opcode_defs]: "PUSH20 = 0x73"
definition PUSH21 :: OpCode where [opcode_defs]: "PUSH21 = 0x74"
definition PUSH22 :: OpCode where [opcode_defs]: "PUSH22 = 0x75"
definition PUSH23 :: OpCode where [opcode_defs]: "PUSH23 = 0x76"
definition PUSH24 :: OpCode where [opcode_defs]: "PUSH24 = 0x77"
definition PUSH25 :: OpCode where [opcode_defs]: "PUSH25 = 0x78"
definition PUSH26 :: OpCode where [opcode_defs]: "PUSH26 = 0x79"
definition PUSH27 :: OpCode where [opcode_defs]: "PUSH27 = 0x7a"
definition PUSH28 :: OpCode where [opcode_defs]: "PUSH28 = 0x7b"
definition PUSH29 :: OpCode where [opcode_defs]: "PUSH29 = 0x7c"
definition PUSH30 :: OpCode where [opcode_defs]: "PUSH30 = 0x7d"
definition PUSH31 :: OpCode where [opcode_defs]: "PUSH31 = 0x7e"
definition PUSH32 :: OpCode where [opcode_defs]: "PUSH32 = 0x7f"
definition DUP1 :: OpCode where [opcode_defs]: "DUP1 = 0x80"
definition DUP2 :: OpCode where [opcode_defs]: "DUP2 = 0x81"
definition DUP3 :: OpCode where [opcode_defs]: "DUP3 = 0x82"
definition DUP4 :: OpCode where [opcode_defs]: "DUP4 = 0x83"
definition DUP5 :: OpCode where [opcode_defs]: "DUP5 = 0x84"
definition DUP6 :: OpCode where [opcode_defs]: "DUP6 = 0x85"
definition DUP7 :: OpCode where [opcode_defs]: "DUP7 = 0x86"
definition DUP8 :: OpCode where [opcode_defs]: "DUP8 = 0x87"
definition DUP9 :: OpCode where [opcode_defs]: "DUP9 = 0x88"
definition DUP10 :: OpCode where [opcode_defs]: "DUP10 = 0x89"
definition DUP11 :: OpCode where [opcode_defs]: "DUP11 = 0x8a"
definition DUP12 :: OpCode where [opcode_defs]: "DUP12 = 0x8b"
definition DUP13 :: OpCode where [opcode_defs]: "DUP13 = 0x8c"
definition DUP14 :: OpCode where [opcode_defs]: "DUP14 = 0x8d"
definition DUP15 :: OpCode where [opcode_defs]: "DUP15 = 0x8e"
definition DUP16 :: OpCode where [opcode_defs]: "DUP16 = 0x8f"
definition SWAP1 :: OpCode where [opcode_defs]: "SWAP1 = 0x90"
definition SWAP2 :: OpCode where [opcode_defs]: "SWAP2 = 0x91"
definition SWAP3 :: OpCode where [opcode_defs]: "SWAP3 = 0x92"
definition SWAP4 :: OpCode where [opcode_defs]: "SWAP4 = 0x93"
definition SWAP5 :: OpCode where [opcode_defs]: "SWAP5 = 0x94"
definition SWAP6 :: OpCode where [opcode_defs]: "SWAP6 = 0x95"
definition SWAP7 :: OpCode where [opcode_defs]: "SWAP7 = 0x96"
definition SWAP8 :: OpCode where [opcode_defs]: "SWAP8 = 0x97"
definition SWAP9 :: OpCode where [opcode_defs]: "SWAP9 = 0x98"
definition SWAP10 :: OpCode where [opcode_defs]: "SWAP10 = 0x99"
definition SWAP11 :: OpCode where [opcode_defs]: "SWAP11 = 0x9a"
definition SWAP12 :: OpCode where [opcode_defs]: "SWAP12 = 0x9b"
definition SWAP13 :: OpCode where [opcode_defs]: "SWAP13 = 0x9c"
definition SWAP14 :: OpCode where [opcode_defs]: "SWAP14 = 0x9d"
definition SWAP15 :: OpCode where [opcode_defs]: "SWAP15 = 0x9e"
definition SWAP16 :: OpCode where [opcode_defs]: "SWAP16 = 0x9f"

text \<open>0xa0 range - logging ops\<close>

definition LOG0 :: OpCode where [opcode_defs]: "LOG0 = 0xa0"
definition LOG1 :: OpCode where [opcode_defs]: "LOG1 = 0xa1"
definition LOG2 :: OpCode where [opcode_defs]: "LOG2 = 0xa2"
definition LOG3 :: OpCode where [opcode_defs]: "LOG3 = 0xa3"
definition LOG4 :: OpCode where [opcode_defs]: "LOG4 = 0xa4"

text \<open>Unofficial opcodes used for parsing\<close>

definition PUSH :: OpCode where [opcode_defs]: "PUSH = 0xb0"
definition DUP :: OpCode where [opcode_defs]: "DUP = 0xb1"
definition SWAP :: OpCode where [opcode_defs]: "SWAP = 0xb2"

text \<open>0xf0 range - closures\<close>

definition CREATE :: OpCode where [opcode_defs]: "CREATE = 0xf0"
definition CALL :: OpCode where [opcode_defs]: "CALL = 0xf1"
definition CALLCODE :: OpCode where [opcode_defs]: "CALLCODE = 0xf2"
definition RETURN :: OpCode where [opcode_defs]: "RETURN = 0xf3"
definition DELEGATECALL :: OpCode where [opcode_defs]: "DELEGATECALL = 0xf4"
definition CREATE2 :: OpCode where [opcode_defs]: "CREATE2 = 0xf5"
definition STATICCALL :: OpCode where [opcode_defs]: "STATICCALL = 0xfa"
definition REVERT :: OpCode where [opcode_defs]: "REVERT = 0xfd"
definition SELFDESTRUCT :: OpCode where [opcode_defs]: "SELFDESTRUCT = 0xff"

definition opCodeToString_low :: "(OpCode \<times> string) list" where
  "opCodeToString_low = [(STOP, ''STOP''), (ADD, ''ADD''), (MUL, ''MUL''), (SUB, ''SUB''), (DIV, ''DIV''),
     (SDIV, ''SDIV''), (MOD, ''MOD''), (SMOD, ''SMOD''), (EXP, ''EXP''), (NOT, ''NOT''), (LT, ''LT''),
     (GT, ''GT''), (SLT, ''SLT''), (SGT, ''SGT''), (EQ, ''EQ''), (ISZERO, ''ISZERO''),
     (SIGNEXTEND, ''SIGNEXTEND''), (AND, ''AND''), (OR, ''OR''), (XOR, ''XOR''), (BYTE, ''BYTE''),
     (SHL, ''SHL''), (SHR, ''SHR''), (SAR, ''SAR''), (ADDMOD, ''ADDMOD''), (MULMOD, ''MULMOD''),
     (SHA3, ''SHA3''), (ADDRESS, ''ADDRESS''), (BALANCE, ''BALANCE''), (ORIGIN, ''ORIGIN''),
     (CALLER, ''CALLER''), (CALLVALUE, ''CALLVALUE''), (CALLDATALOAD, ''CALLDATALOAD''),
     (CALLDATASIZE, ''CALLDATASIZE''), (CALLDATACOPY, ''CALLDATACOPY''), (CODESIZE, ''CODESIZE''),
     (CODECOPY, ''CODECOPY''), (GASPRICE, ''GASPRICE''), (EXTCODESIZE, ''EXTCODESIZE''),
     (EXTCODECOPY, ''EXTCODECOPY''), (RETURNDATASIZE, ''RETURNDATASIZE''),
     (RETURNDATACOPY, ''RETURNDATACOPY''), (EXTCODEHASH, ''EXTCODEHASH''), (BLOCKHASH, ''BLOCKHASH''),
     (COINBASE, ''COINBASE''), (TIMESTAMP, ''TIMESTAMP''), (NUMBER, ''NUMBER''), (DIFFICULTY, ''DIFFICULTY''),
     (GASLIMIT, ''GASLIMIT''), (POP, ''POP''), (MLOAD, ''MLOAD''), (MSTORE, ''MSTORE''),
     (MSTORE8, ''MSTORE8''), (SLOAD, ''SLOAD''), (SSTORE, ''SSTORE''), (JUMP, ''JUMP''), (JUMPI, ''JUMPI''),
     (PC, ''PC''), (MSIZE, ''MSIZE''), (GAS, ''GAS''), (JUMPDEST, ''JUMPDEST'')]"

definition opCodeToString_high :: "(OpCode \<times> string) list" where
  "opCodeToString_high = [(PUSH1, ''PUSH1''), (PUSH2, ''PUSH2''), (PUSH3, ''PUSH3''), (PUSH4, ''PUSH4''),
     (PUSH5, ''PUSH5''), (PUSH6, ''PUSH6''), (PUSH7, ''PUSH7''), (PUSH8, ''PUSH8''), (PUSH9, ''PUSH9''),
     (PUSH10, ''PUSH10''), (PUSH11, ''PUSH11''), (PUSH12, ''PUSH12''), (PUSH13, ''PUSH13''),
     (PUSH14, ''PUSH14''), (PUSH15, ''PUSH15''), (PUSH16, ''PUSH16''), (PUSH17, ''PUSH17''),
     (PUSH18, ''PUSH18''), (PUSH19, ''PUSH19''), (PUSH20, ''PUSH20''), (PUSH21, ''PUSH21''),
     (PUSH22, ''PUSH22''), (PUSH23, ''PUSH23''), (PUSH24, ''PUSH24''), (PUSH25, ''PUSH25''),
     (PUSH26, ''PUSH26''), (PUSH27, ''PUSH27''), (PUSH28, ''PUSH28''), (PUSH29, ''PUSH29''),
     (PUSH30, ''PUSH30''), (PUSH31, ''PUSH31''), (PUSH32, ''PUSH32''), (DUP1, ''DUP1''), (DUP2, ''DUP2''),
     (DUP3, ''DUP3''), (DUP4, ''DUP4''), (DUP5, ''DUP5''), (DUP6, ''DUP6''), (DUP7, ''DUP7''),
     (DUP8, ''DUP8''), (DUP9, ''DUP9''), (DUP10, ''DUP10''), (DUP11, ''DUP11''), (DUP12, ''DUP12''),
     (DUP13, ''DUP13''), (DUP14, ''DUP14''), (DUP15, ''DUP15''), (DUP16, ''DUP16''), (SWAP1, ''SWAP1''),
     (SWAP2, ''SWAP2''), (SWAP3, ''SWAP3''), (SWAP4, ''SWAP4''), (SWAP5, ''SWAP5''), (SWAP6, ''SWAP6''),
     (SWAP7, ''SWAP7''), (SWAP8, ''SWAP8''), (SWAP9, ''SWAP9''), (SWAP10, ''SWAP10''), (SWAP11, ''SWAP11''),
     (SWAP12, ''SWAP12''), (SWAP13, ''SWAP13''), (SWAP14, ''SWAP14''), (SWAP15, ''SWAP15''),
     (SWAP16, ''SWAP16''), (LOG0, ''LOG0''), (LOG1, ''LOG1''), (LOG2, ''LOG2''), (LOG3, ''LOG3''),
     (LOG4, ''LOG4''), (CREATE, ''CREATE''), (CALL, ''CALL''), (RETURN, ''RETURN''), (CALLCODE, ''CALLCODE''),
     (DELEGATECALL, ''DELEGATECALL''), (CREATE2, ''CREATE2''), (STATICCALL, ''STATICCALL''),
     (REVERT, ''REVERT''), (SELFDESTRUCT, ''SELFDESTRUCT''), (PUSH, ''PUSH''), (DUP, ''DUP''),
     (SWAP, ''SWAP'')]"

definition opCodeToString :: "(OpCode \<times> string) list" where
  "opCodeToString = opCodeToString_low @ opCodeToString_high"

definition stringToOp_low :: "(string \<times> OpCode) list" where
  "stringToOp_low = [(''STOP'', STOP), (''ADD'', ADD), (''MUL'', MUL), (''SUB'', SUB), (''DIV'', DIV),
     (''SDIV'', SDIV), (''MOD'', MOD), (''SMOD'', SMOD), (''EXP'', EXP), (''NOT'', NOT), (''LT'', LT),
     (''GT'', GT), (''SLT'', SLT), (''SGT'', SGT), (''EQ'', EQ), (''ISZERO'', ISZERO),
     (''SIGNEXTEND'', SIGNEXTEND), (''AND'', AND), (''OR'', OR), (''XOR'', XOR), (''BYTE'', BYTE),
     (''SHL'', SHL), (''SHR'', SHR), (''SAR'', SAR), (''ADDMOD'', ADDMOD), (''MULMOD'', MULMOD),
     (''SHA3'', SHA3), (''ADDRESS'', ADDRESS), (''BALANCE'', BALANCE), (''ORIGIN'', ORIGIN),
     (''CALLER'', CALLER), (''CALLVALUE'', CALLVALUE), (''CALLDATALOAD'', CALLDATALOAD),
     (''CALLDATASIZE'', CALLDATASIZE), (''CALLDATACOPY'', CALLDATACOPY), (''DELEGATECALL'', DELEGATECALL),
     (''STATICCALL'', STATICCALL), (''CODESIZE'', CODESIZE), (''CODECOPY'', CODECOPY),
     (''GASPRICE'', GASPRICE), (''EXTCODESIZE'', EXTCODESIZE), (''EXTCODECOPY'', EXTCODECOPY),
     (''RETURNDATASIZE'', RETURNDATASIZE), (''RETURNDATACOPY'', RETURNDATACOPY),
     (''EXTCODEHASH'', EXTCODEHASH), (''BLOCKHASH'', BLOCKHASH), (''COINBASE'', COINBASE),
     (''TIMESTAMP'', TIMESTAMP), (''NUMBER'', NUMBER), (''DIFFICULTY'', DIFFICULTY), (''GASLIMIT'', GASLIMIT),
     (''POP'', POP), (''MLOAD'', MLOAD), (''MSTORE'', MSTORE), (''MSTORE8'', MSTORE8), (''SLOAD'', SLOAD),
     (''SSTORE'', SSTORE), (''JUMP'', JUMP), (''JUMPI'', JUMPI), (''PC'', PC), (''MSIZE'', MSIZE),
     (''GAS'', GAS), (''JUMPDEST'', JUMPDEST)]"

definition stringToOp_high :: "(string \<times> OpCode) list" where
  "stringToOp_high = [(''PUSH1'', PUSH1), (''PUSH2'', PUSH2), (''PUSH3'', PUSH3), (''PUSH4'', PUSH4),
     (''PUSH5'', PUSH5), (''PUSH6'', PUSH6), (''PUSH7'', PUSH7), (''PUSH8'', PUSH8), (''PUSH9'', PUSH9),
     (''PUSH10'', PUSH10), (''PUSH11'', PUSH11), (''PUSH12'', PUSH12), (''PUSH13'', PUSH13),
     (''PUSH14'', PUSH14), (''PUSH15'', PUSH15), (''PUSH16'', PUSH16), (''PUSH17'', PUSH17),
     (''PUSH18'', PUSH18), (''PUSH19'', PUSH19), (''PUSH20'', PUSH20), (''PUSH21'', PUSH21),
     (''PUSH22'', PUSH22), (''PUSH23'', PUSH23), (''PUSH24'', PUSH24), (''PUSH25'', PUSH25),
     (''PUSH26'', PUSH26), (''PUSH27'', PUSH27), (''PUSH28'', PUSH28), (''PUSH29'', PUSH29),
     (''PUSH30'', PUSH30), (''PUSH31'', PUSH31), (''PUSH32'', PUSH32), (''DUP1'', DUP1), (''DUP2'', DUP2),
     (''DUP3'', DUP3), (''DUP4'', DUP4), (''DUP5'', DUP5), (''DUP6'', DUP6), (''DUP7'', DUP7),
     (''DUP8'', DUP8), (''DUP9'', DUP9), (''DUP10'', DUP10), (''DUP11'', DUP11), (''DUP12'', DUP12),
     (''DUP13'', DUP13), (''DUP14'', DUP14), (''DUP15'', DUP15), (''DUP16'', DUP16), (''SWAP1'', SWAP1),
     (''SWAP2'', SWAP2), (''SWAP3'', SWAP3), (''SWAP4'', SWAP4), (''SWAP5'', SWAP5), (''SWAP6'', SWAP6),
     (''SWAP7'', SWAP7), (''SWAP8'', SWAP8), (''SWAP9'', SWAP9), (''SWAP10'', SWAP10), (''SWAP11'', SWAP11),
     (''SWAP12'', SWAP12), (''SWAP13'', SWAP13), (''SWAP14'', SWAP14), (''SWAP15'', SWAP15),
     (''SWAP16'', SWAP16), (''LOG0'', LOG0), (''LOG1'', LOG1), (''LOG2'', LOG2), (''LOG3'', LOG3),
     (''LOG4'', LOG4), (''CREATE'', CREATE), (''CREATE2'', CREATE2), (''CALL'', CALL), (''RETURN'', RETURN),
     (''CALLCODE'', CALLCODE), (''REVERT'', REVERT), (''SELFDESTRUCT'', SELFDESTRUCT)]"

definition stringToOp :: "(string \<times> OpCode) list" where
  "stringToOp = stringToOp_low @ stringToOp_high"

definition OpCode_IsPush :: "OpCode \<Rightarrow> bool" where
  "OpCode_IsPush op \<longleftrightarrow> op \<in> set [PUSH1, PUSH2, PUSH3, PUSH4, PUSH5, PUSH6, PUSH7, PUSH8, PUSH9, PUSH10, PUSH11, PUSH12,
     PUSH13, PUSH14, PUSH15, PUSH16, PUSH17, PUSH18, PUSH19, PUSH20, PUSH21, PUSH22, PUSH23, PUSH24, PUSH25, PUSH26,
     PUSH27, PUSH28, PUSH29, PUSH30, PUSH31, PUSH32]"

definition OpCode_IsStaticJump :: "OpCode \<Rightarrow> bool" where
  "OpCode_IsStaticJump op \<longleftrightarrow> op = JUMP"

text \<open>\<open>fmt\<close>'s \<open>%x\<close> of a number below 256.\<close>

definition fmt_x :: "nat \<Rightarrow> string" where
  "fmt_x n = (if n < 16 then [hextable ! n] else [hextable ! (n div 16), hextable ! (n mod 16)])"

definition OpCode_String :: "OpCode \<Rightarrow> string" where
  "OpCode_String op =
     (case map_of opCodeToString op of
        Some str \<Rightarrow> str
      | None \<Rightarrow> ''Missing opcode 0x'' @ fmt_x (unat op))"

definition StringToOp :: "string \<Rightarrow> OpCode" where
  "StringToOp str = (case map_of stringToOp str of Some op \<Rightarrow> op | None \<Rightarrow> 0)"

subsection \<open>The stack\<close>

text \<open>\<open>stack.pop()\<close>, \<open>stack.push\<close>, and a change of the integer that \<open>stack.peek()\<close> returns.\<close>

definition popping :: "(int \<Rightarrow> Stack \<Rightarrow> 'a outcome) \<Rightarrow> Stack \<Rightarrow> 'a outcome" where
  "popping k st = (case st of [] \<Rightarrow> Crash stack_panic | x # st' \<Rightarrow> k x st')"

definition pushing :: "int \<Rightarrow> Stack \<Rightarrow> Stack outcome" where
  "pushing v st = Done (st_push v st)"

definition on_top :: "(int \<Rightarrow> int) \<Rightarrow> Stack \<Rightarrow> Stack outcome" where
  "on_top f st = (case st of [] \<Rightarrow> Crash stack_panic | x # st' \<Rightarrow> Done (f x # st'))"

lemma popping_simps [simp]: "popping k (x # st) = k x st" "popping k [] = Crash stack_panic"
  by (simp_all add: popping_def)

lemma on_top_simps [simp]: "on_top f (x # st) = Done (f x # st)" "on_top f [] = Crash stack_panic"
  by (simp_all add: on_top_def)

lemma pushing_simp [simp]: "pushing v st = Done (v # st)"
  by (simp add: pushing_def st_push_def)

text \<open>\<open>big.Int\<close>: \<open>Div\<close> and \<open>Mod\<close> are Euclidean, \<open>Sign\<close> is \<open>sgn\<close>.\<close>

definition big_Div :: "int \<Rightarrow> int \<Rightarrow> int" where
  "big_Div x y = sgn y * (x div \<bar>y\<bar>)"

definition big_Mod :: "int \<Rightarrow> int \<Rightarrow> int" where
  "big_Mod x y = x mod \<bar>y\<bar>"

subsection \<open>instructions.go: arithmetic\<close>

definition opAdd :: "Stack \<Rightarrow> Stack outcome" where
  "opAdd = popping (\<lambda>x. on_top (\<lambda>y. U256 (x + y)))"

definition opSub :: "Stack \<Rightarrow> Stack outcome" where
  "opSub = popping (\<lambda>x. on_top (\<lambda>y. U256 (x - y)))"

definition opMul :: "Stack \<Rightarrow> Stack outcome" where
  "opMul = popping (\<lambda>x. popping (\<lambda>y. pushing (U256 (x * y))))"

definition opDiv :: "Stack \<Rightarrow> Stack outcome" where
  "opDiv = popping (\<lambda>x. on_top (\<lambda>y. if sgn y \<noteq> 0 then U256 (big_Div x y) else 0))"

definition opSdiv :: "Stack \<Rightarrow> Stack outcome" where
  "opSdiv = popping (\<lambda>a. popping (\<lambda>b.
     let x = S256 a; y = S256 b
     in if sgn y = 0 \<or> sgn x = 0 then pushing 0
        else if sgn x \<noteq> sgn y then pushing (U256 (- big_Div \<bar>x\<bar> \<bar>y\<bar>))
        else pushing (U256 (big_Div \<bar>x\<bar> \<bar>y\<bar>))))"

definition opMod :: "Stack \<Rightarrow> Stack outcome" where
  "opMod = popping (\<lambda>x. popping (\<lambda>y. if sgn y = 0 then pushing 0 else pushing (U256 (big_Mod x y))))"

definition opSmod :: "Stack \<Rightarrow> Stack outcome" where
  "opSmod = popping (\<lambda>a. popping (\<lambda>b.
     let x = S256 a; y = S256 b
     in if sgn y = 0 then pushing 0
        else if sgn x < 0 then pushing (U256 (- big_Mod \<bar>x\<bar> \<bar>y\<bar>))
        else pushing (U256 (big_Mod \<bar>x\<bar> \<bar>y\<bar>))))"

definition opExp :: "Stack \<Rightarrow> Stack outcome" where
  "opExp = popping (\<lambda>base. popping (\<lambda>exponent. pushing (Exp base exponent)))"

text \<open>When the position is not below 31 the number stays on the stack as it is.\<close>

definition opSignExtend :: "Stack \<Rightarrow> Stack outcome" where
  "opSignExtend = popping (\<lambda>b st.
     if b < 31 then
       popping (\<lambda>num.
         let n = nat (wrap_u64 (big_Uint64 b * 8 + 7)); mask = push_bit n 1 - 1
         in pushing (U256 (if bit num n then or num (not mask) else and num mask))) st
     else Done st)"

definition opAddmod :: "Stack \<Rightarrow> Stack outcome" where
  "opAddmod = popping (\<lambda>x. popping (\<lambda>y. popping (\<lambda>z.
     if z > 0 then pushing (U256 (big_Mod (x + y) z)) else pushing 0)))"

definition opMulmod :: "Stack \<Rightarrow> Stack outcome" where
  "opMulmod = popping (\<lambda>x. popping (\<lambda>y. popping (\<lambda>z.
     if z > 0 then pushing (U256 (big_Mod (x * y) z)) else pushing 0)))"

subsection \<open>instructions.go: comparison and bits\<close>

definition opNot :: "Stack \<Rightarrow> Stack outcome" where
  "opNot = on_top (\<lambda>x. U256 (not x))"

definition opLt :: "Stack \<Rightarrow> Stack outcome" where
  "opLt = popping (\<lambda>x. on_top (\<lambda>y. if x < y then 1 else 0))"

definition opGt :: "Stack \<Rightarrow> Stack outcome" where
  "opGt = popping (\<lambda>x. on_top (\<lambda>y. if x > y then 1 else 0))"

definition opSlt :: "Stack \<Rightarrow> Stack outcome" where
  "opSlt = popping (\<lambda>x. on_top (\<lambda>y.
     if x \<ge> tt255 \<and> y < tt255 then 1
     else if x < tt255 \<and> y \<ge> tt255 then 0
     else if x < y then 1 else 0))"

definition opSgt :: "Stack \<Rightarrow> Stack outcome" where
  "opSgt = popping (\<lambda>x. on_top (\<lambda>y.
     if x \<ge> tt255 \<and> y < tt255 then 0
     else if x < tt255 \<and> y \<ge> tt255 then 1
     else if x > y then 1 else 0))"

definition opEq :: "Stack \<Rightarrow> Stack outcome" where
  "opEq = popping (\<lambda>x. on_top (\<lambda>y. if x = y then 1 else 0))"

definition opIszero :: "Stack \<Rightarrow> Stack outcome" where
  "opIszero = on_top (\<lambda>x. if sgn x > 0 then 0 else 1)"

definition opAnd :: "Stack \<Rightarrow> Stack outcome" where
  "opAnd = popping (\<lambda>x. popping (\<lambda>y. pushing (and x y)))"

definition opOr :: "Stack \<Rightarrow> Stack outcome" where
  "opOr = popping (\<lambda>x. on_top (\<lambda>y. or x y))"

definition opXor :: "Stack \<Rightarrow> Stack outcome" where
  "opXor = popping (\<lambda>x. on_top (\<lambda>y. xor x y))"

definition opByte :: "Stack \<Rightarrow> Stack outcome" where
  "opByte = popping (\<lambda>th. on_top (\<lambda>val. if th < 32 then uint (Byte val 32 (nat (big_Int64 th))) else 0))"

definition opSHL :: "Stack \<Rightarrow> Stack outcome" where
  "opSHL = popping (\<lambda>a. on_top (\<lambda>b.
     let shift = U256 a; v = U256 b
     in if shift \<ge> 256 then 0 else U256 (push_bit (nat (big_Uint64 shift)) v)))"

definition opSHR :: "Stack \<Rightarrow> Stack outcome" where
  "opSHR = popping (\<lambda>a. on_top (\<lambda>b.
     let shift = U256 a; v = U256 b
     in if shift \<ge> 256 then 0 else U256 (drop_bit (nat (big_Uint64 shift)) v)))"

definition opSAR :: "Stack \<Rightarrow> Stack outcome" where
  "opSAR = popping (\<lambda>a. popping (\<lambda>b.
     let shift = U256 a; v = S256 b
     in if shift \<ge> 256 then pushing (U256 (if sgn v \<ge> 0 then 0 else -1))
        else pushing (U256 (drop_bit (nat (big_Uint64 shift)) v))))"

text \<open>\<open>POP\<close>, and the makers of \<open>DUP\<close> and \<open>SWAP\<close>.\<close>

definition opPop :: "Stack \<Rightarrow> Stack outcome" where
  "opPop = popping (\<lambda>_. Done)"

definition makeDup :: "nat \<Rightarrow> Stack \<Rightarrow> Stack outcome" where
  "makeDup n st = of_result (st_dup n st)"

definition makeSwap :: "nat \<Rightarrow> Stack \<Rightarrow> Stack outcome" where
  "makeSwap n st = of_result (st_swap (n + 1) st)"

end
