(* ===== verification/Evm_Contracts.thy ===== *)
theory Evm_Contracts
  imports Evm_Opcodes
begin

section \<open>Contracts, built-in contracts and chain rules: dvm/ethereum/vm, dvm/ethereum/params\<close>

text \<open>
  \<^item> \<open>errors.go\<close> and the errors of \<open>instructions.go\<close>: \<open>vm_error\<close>. Errors are compared by identity in the code, so
    each is a constructor; the ones made by \<open>fmt.Errorf\<close> carry their data.
  \<^item> \<open>contract.go\<close>: the environment of one execution. A \<open>ContractRef\<close> is an address or another contract. The cache of
    jump analyses, filed by the hash of the code, has no counterpart: two codes of the same hash are taken to be equal.
  \<^item> \<open>contracts.go\<close>: the built-in contracts at the addresses 1 to 8, with their gas. The hash functions of Go's
    libraries and the curve bn256 are the parameter \<open>natives\<close>; a point of the curve is given by its encoding.
  \<^item> \<open>params/config.go\<close>: the forks of a chain and the rules and gas prices that hold at a block.
\<close>

subsection \<open>errors.go\<close>

datatype vm_error =
    ErrOutOfGas
  | ErrCodeStoreOutOfGas
  | ErrDepth
  | ErrTraceLimitReached
  | ErrInsufficientBalance
  | ErrContractAddressCollision
  | ErrNoCompatibleInterpreter
  | errWriteProtection
  | errReturnDataOutOfBounds
  | ErrExecutionReverted
  | errMaxCodeSizeExceeded
  | ErrGasUintOverflow
  | StackError string
  | InvalidOpcode OpCode
  | InvalidJump OpCode int
  | PrecompileError string

subsection \<open>contract.go\<close>

record Contract =
  c_CallerAddress :: AddressBytes
  c_self :: AddressBytes
  c_Code :: "byte list"
  c_CodeHash :: HashBytes
  c_CodeAddr :: "AddressBytes option"
  c_Input :: "byte list"
  c_Gas :: int
  c_value :: int
  c_DelegateCall :: bool

datatype ContractRef = AccountRef AddressBytes | ContractOf Contract

primrec ref_Address :: "ContractRef \<Rightarrow> AddressBytes" where
  "ref_Address (AccountRef a) = a"
| "ref_Address (ContractOf c) = c_self c"

definition NewContract :: "ContractRef \<Rightarrow> ContractRef \<Rightarrow> int \<Rightarrow> int \<Rightarrow> Contract" where
  "NewContract caller object value gas =
     \<lparr>c_CallerAddress = ref_Address caller, c_self = ref_Address object, c_Code = [], c_CodeHash = replicate HashLength 0,
      c_CodeAddr = None, c_Input = [], c_Gas = gas, c_value = value, c_DelegateCall = False\<rparr>"

text \<open>\<open>AsDelegate\<close> asserts that the caller is a contract.\<close>

definition AsDelegate :: "ContractRef \<Rightarrow> Contract \<Rightarrow> Contract outcome" where
  "AsDelegate caller c =
     (case caller of
        AccountRef _ \<Rightarrow> Crash ''interface conversion''
      | ContractOf parent \<Rightarrow>
          Done (c\<lparr>c_DelegateCall := True, c_CallerAddress := c_CallerAddress parent, c_value := c_value parent\<rparr>))"

text \<open>The length of a slice is an \<open>int\<close>: a position in it is below \<open>2^63\<close>.\<close>

definition GetByte :: "Contract \<Rightarrow> int \<Rightarrow> byte" where
  "GetByte c n = (if n < int (length (c_Code c)) \<and> n < 2 ^ 63 then c_Code c ! nat n else 0)"

definition GetOp :: "Contract \<Rightarrow> int \<Rightarrow> OpCode" where
  "GetOp c n = GetByte c n"

definition UseGas :: "int \<Rightarrow> Contract \<Rightarrow> bool \<times> Contract" where
  "UseGas gas c = (if c_Gas c < gas then (False, c) else (True, c\<lparr>c_Gas := c_Gas c - gas\<rparr>))"

definition SetCallCode :: "AddressBytes \<Rightarrow> HashBytes \<Rightarrow> byte list \<Rightarrow> Contract \<Rightarrow> Contract" where
  "SetCallCode addr h code c = c\<lparr>c_Code := code, c_CodeHash := h, c_CodeAddr := Some addr\<rparr>"

subsection \<open>params/config.go\<close>

record ChainConfig =
  cc_ChainID :: "int option"
  cc_HomesteadBlock :: "int option"
  cc_DAOForkBlock :: "int option"
  cc_DAOForkSupport :: bool
  cc_EIP150Block :: "int option"
  cc_EIP155Block :: "int option"
  cc_EIP158Block :: "int option"
  cc_ByzantiumBlock :: "int option"
  cc_ConstantinopleBlock :: "int option"

definition MainnetChainConfig :: ChainConfig where
  "MainnetChainConfig = \<lparr>cc_ChainID = Some 1, cc_HomesteadBlock = Some 1150000, cc_DAOForkBlock = Some 1920000,
     cc_DAOForkSupport = True, cc_EIP150Block = Some 2463000, cc_EIP155Block = Some 2675000,
     cc_EIP158Block = Some 2675000, cc_ByzantiumBlock = Some 4370000, cc_ConstantinopleBlock = None\<rparr>"

definition TestnetChainConfig :: ChainConfig where
  "TestnetChainConfig = \<lparr>cc_ChainID = Some 3, cc_HomesteadBlock = Some 0, cc_DAOForkBlock = None,
     cc_DAOForkSupport = True, cc_EIP150Block = Some 0, cc_EIP155Block = Some 10, cc_EIP158Block = Some 10,
     cc_ByzantiumBlock = Some 1700000, cc_ConstantinopleBlock = None\<rparr>"

definition RinkebyChainConfig :: ChainConfig where
  "RinkebyChainConfig = \<lparr>cc_ChainID = Some 4, cc_HomesteadBlock = Some 1, cc_DAOForkBlock = None,
     cc_DAOForkSupport = True, cc_EIP150Block = Some 2, cc_EIP155Block = Some 3, cc_EIP158Block = Some 3,
     cc_ByzantiumBlock = Some 1035301, cc_ConstantinopleBlock = None\<rparr>"

definition isForked :: "int option \<Rightarrow> int option \<Rightarrow> bool" where
  "isForked s head = (case (s, head) of (Some b, Some h) \<Rightarrow> b \<le> h | _ \<Rightarrow> False)"

definition IsHomestead :: "ChainConfig \<Rightarrow> int option \<Rightarrow> bool" where "IsHomestead c = isForked (cc_HomesteadBlock c)"
definition IsDAOFork :: "ChainConfig \<Rightarrow> int option \<Rightarrow> bool" where "IsDAOFork c = isForked (cc_DAOForkBlock c)"
definition IsEIP150 :: "ChainConfig \<Rightarrow> int option \<Rightarrow> bool" where "IsEIP150 c = isForked (cc_EIP150Block c)"
definition IsEIP155 :: "ChainConfig \<Rightarrow> int option \<Rightarrow> bool" where "IsEIP155 c = isForked (cc_EIP155Block c)"
definition IsEIP158 :: "ChainConfig \<Rightarrow> int option \<Rightarrow> bool" where "IsEIP158 c = isForked (cc_EIP158Block c)"
definition IsByzantium :: "ChainConfig \<Rightarrow> int option \<Rightarrow> bool" where "IsByzantium c = isForked (cc_ByzantiumBlock c)"
definition IsConstantinople :: "ChainConfig \<Rightarrow> int option \<Rightarrow> bool" where
  "IsConstantinople c = isForked (cc_ConstantinopleBlock c)"

definition ChainConfig_GasTable :: "ChainConfig \<Rightarrow> int option \<Rightarrow> GasTable" where
  "ChainConfig_GasTable c num =
     (if num = None then GasTableHomestead
      else if IsConstantinople c num then GasTableConstantinople
      else if IsEIP158 c num then GasTableEIP158
      else if IsEIP150 c num then GasTableEIP150
      else GasTableHomestead)"

definition configNumEqual :: "int option \<Rightarrow> int option \<Rightarrow> bool" where
  "configNumEqual x y = (case (x, y) of (Some a, Some b) \<Rightarrow> a = b | (None, None) \<Rightarrow> True | _ \<Rightarrow> False)"

definition isForkIncompatible :: "int option \<Rightarrow> int option \<Rightarrow> int option \<Rightarrow> bool" where
  "isForkIncompatible s1 s2 head \<longleftrightarrow> (isForked s1 head \<or> isForked s2 head) \<and> \<not> configNumEqual s1 s2"

record ConfigCompatError =
  ce_What :: string
  ce_StoredConfig :: "int option"
  ce_NewConfig :: "int option"
  ce_RewindTo :: int

definition newCompatError :: "string \<Rightarrow> int option \<Rightarrow> int option \<Rightarrow> ConfigCompatError" where
  "newCompatError what storedblock newblock =
     (let rew = (case storedblock of
                   None \<Rightarrow> newblock
                 | Some s \<Rightarrow> (case newblock of None \<Rightarrow> storedblock
                              | Some n \<Rightarrow> if s < n then storedblock else newblock))
      in \<lparr>ce_What = what, ce_StoredConfig = storedblock, ce_NewConfig = newblock,
          ce_RewindTo = (case rew of None \<Rightarrow> 0 | Some r \<Rightarrow> if sgn r > 0 then wrap_u64 (big_Uint64 r - 1) else 0)\<rparr>)"

text \<open>The checks of \<open>checkCompatible\<close> in their order; the first that fails is returned.\<close>

definition checkCompatible :: "ChainConfig \<Rightarrow> ChainConfig \<Rightarrow> int \<Rightarrow> ConfigCompatError option" where
  "checkCompatible c newcfg h =
     (let head = Some h;
          fork = (\<lambda>what f. (isForkIncompatible (f c) (f newcfg) head, newCompatError what (f c) (f newcfg)));
          checks =
            [fork ''Homestead fork block'' cc_HomesteadBlock,
             fork ''DAO fork block'' cc_DAOForkBlock,
             (IsDAOFork c head \<and> cc_DAOForkSupport c \<noteq> cc_DAOForkSupport newcfg,
              newCompatError ''DAO fork support flag'' (cc_DAOForkBlock c) (cc_DAOForkBlock newcfg)),
             fork ''EIP150 fork block'' cc_EIP150Block,
             fork ''EIP155 fork block'' cc_EIP155Block,
             fork ''EIP158 fork block'' cc_EIP158Block,
             (IsEIP158 c head \<and> \<not> configNumEqual (cc_ChainID c) (cc_ChainID newcfg),
              newCompatError ''EIP158 chain ID'' (cc_EIP158Block c) (cc_EIP158Block newcfg)),
             fork ''Byzantium fork block'' cc_ByzantiumBlock,
             fork ''Constantinople fork block'' cc_ConstantinopleBlock]
      in map_option snd (find fst checks))"

text \<open>The loop of \<open>CheckCompatible\<close>; \<open>RewindTo\<close> falls below the head in each round but the last.\<close>

primrec CheckCompatible_loop ::
  "nat \<Rightarrow> ChainConfig \<Rightarrow> ChainConfig \<Rightarrow> int \<Rightarrow> ConfigCompatError option \<Rightarrow> ConfigCompatError option outcome" where
  "CheckCompatible_loop 0 c newcfg bhead lasterr = Timeout"
| "CheckCompatible_loop (Suc n) c newcfg bhead lasterr =
     (case checkCompatible c newcfg bhead of
        None \<Rightarrow> Done lasterr
      | Some err \<Rightarrow>
          if (case lasterr of None \<Rightarrow> False | Some l \<Rightarrow> ce_RewindTo err = ce_RewindTo l) then Done lasterr
          else CheckCompatible_loop n c newcfg (ce_RewindTo err) (Some err))"

definition CheckCompatible :: "ChainConfig \<Rightarrow> ChainConfig \<Rightarrow> int \<Rightarrow> ConfigCompatError option outcome" where
  "CheckCompatible c newcfg height = CheckCompatible_loop (nat height + 3) c newcfg height None"

record Rules =
  ru_ChainID :: int
  ru_IsHomestead :: bool
  ru_IsEIP150 :: bool
  ru_IsEIP155 :: bool
  ru_IsEIP158 :: bool
  ru_IsByzantium :: bool

definition ChainConfig_Rules :: "ChainConfig \<Rightarrow> int option \<Rightarrow> Rules" where
  "ChainConfig_Rules c num =
     \<lparr>ru_ChainID = (case cc_ChainID c of None \<Rightarrow> 0 | Some i \<Rightarrow> i), ru_IsHomestead = IsHomestead c num,
      ru_IsEIP150 = IsEIP150 c num, ru_IsEIP155 = IsEIP155 c num, ru_IsEIP158 = IsEIP158 c num,
      ru_IsByzantium = IsByzantium c num\<rparr>"

subsection \<open>params/protocol\_params.go: prices of the built-in contracts and of a transaction\<close>

definition TxGas :: int where "TxGas = 21000"
definition TxGasContractCreation :: int where "TxGasContractCreation = 53000"
definition TxDataZeroGas :: int where "TxDataZeroGas = 4"
definition TxDataNonZeroGas :: int where "TxDataNonZeroGas = 68"
definition EcrecoverGas :: int where "EcrecoverGas = 3000"
definition Sha256BaseGas :: int where "Sha256BaseGas = 60"
definition Sha256PerWordGas :: int where "Sha256PerWordGas = 12"
definition Ripemd160BaseGas :: int where "Ripemd160BaseGas = 600"
definition Ripemd160PerWordGas :: int where "Ripemd160PerWordGas = 120"
definition IdentityBaseGas :: int where "IdentityBaseGas = 15"
definition IdentityPerWordGas :: int where "IdentityPerWordGas = 3"
definition ModExpQuadCoeffDiv :: int where "ModExpQuadCoeffDiv = 20"
definition Bn256AddGas :: int where "Bn256AddGas = 500"
definition Bn256ScalarMulGas :: int where "Bn256ScalarMulGas = 40000"
definition Bn256PairingBaseGas :: int where "Bn256PairingBaseGas = 100000"
definition Bn256PairingPerPointGas :: int where "Bn256PairingPerPointGas = 80000"

subsection \<open>contracts.go\<close>

text \<open>\<open>bn_G1\<close>, \<open>bn_G2\<close>: the error of \<open>Unmarshal\<close>, if any.\<close>

record natives =
  na_crypto :: crypto
  na_sha256 :: "byte list \<Rightarrow> byte list"
  na_ripemd160 :: "byte list \<Rightarrow> byte list"
  bn_G1 :: "byte list \<Rightarrow> string option"
  bn_G2 :: "byte list \<Rightarrow> string option"
  bn_Add :: "byte list \<Rightarrow> byte list \<Rightarrow> byte list"
  bn_ScalarMult :: "byte list \<Rightarrow> int \<Rightarrow> byte list"
  bn_PairingCheck :: "byte list list \<Rightarrow> byte list list \<Rightarrow> bool"

definition secp256k1_N :: int where
  "secp256k1_N = 0xfffffffffffffffffffffffffffffffebaaedce6af48a03bbfd25e8cd0364141"

definition secp256k1_halfN :: int where "secp256k1_halfN = secp256k1_N div 2"

definition ValidateSignatureValues :: "byte \<Rightarrow> int \<Rightarrow> int \<Rightarrow> bool \<Rightarrow> bool" where
  "ValidateSignatureValues v r s homestead \<longleftrightarrow>
     \<not> (r < 1 \<or> s < 1) \<and> \<not> (homestead \<and> s > secp256k1_halfN) \<and> r < secp256k1_N \<and> s < secp256k1_N \<and> (v = 0 \<or> v = 1)"

text \<open>A slice \<open>b[i:j]\<close> inside the bounds.\<close>

definition slice :: "byte list \<Rightarrow> nat \<Rightarrow> nat \<Rightarrow> byte list" where
  "slice b i j = take (j - i) (drop i b)"

definition ecrecover_RequiredGas :: "byte list \<Rightarrow> int" where "ecrecover_RequiredGas input = EcrecoverGas"

definition ecrecover_Run :: "natives \<Rightarrow> byte list \<Rightarrow> byte list" where
  "ecrecover_Run N inp =
     (let input = RightPadBytes inp 128;
          r = big_SetBytes (slice input 64 96);
          s = big_SetBytes (slice input 96 128);
          v = input ! 63 - 27
      in if \<not> allZero (slice input 32 63) \<or> \<not> ValidateSignatureValues v r s False then []
         else case RecoverPubkey (na_crypto N) (take 32 input) (slice input 64 128 @ [v]) of
                Ok pubKey \<Rightarrow> LeftPadBytes (drop 12 (crypto_NewHash (na_crypto N) (drop 1 pubKey))) 32
              | _ \<Rightarrow> [])"

text \<open>\<open>uint64(len(input)+31)/32*perWord + base\<close>.\<close>

definition per_word_gas :: "int \<Rightarrow> int \<Rightarrow> byte list \<Rightarrow> int" where
  "per_word_gas word base input = wrap_u64 (wrap_u64 ((int (length input) + 31) div 32 * word) + base)"

definition sha256hash_RequiredGas :: "byte list \<Rightarrow> int" where
  "sha256hash_RequiredGas = per_word_gas Sha256PerWordGas Sha256BaseGas"

definition sha256hash_Run :: "natives \<Rightarrow> byte list \<Rightarrow> byte list" where
  "sha256hash_Run N input = na_sha256 N input"

definition ripemd160hash_RequiredGas :: "byte list \<Rightarrow> int" where
  "ripemd160hash_RequiredGas = per_word_gas Ripemd160PerWordGas Ripemd160BaseGas"

definition ripemd160hash_Run :: "natives \<Rightarrow> byte list \<Rightarrow> byte list" where
  "ripemd160hash_Run N input = LeftPadBytes (na_ripemd160 N input) 32"

definition dataCopy_RequiredGas :: "byte list \<Rightarrow> int" where
  "dataCopy_RequiredGas = per_word_gas IdentityPerWordGas IdentityBaseGas"

definition dataCopy_Run :: "byte list \<Rightarrow> byte list" where
  "dataCopy_Run input = input"

text \<open>\<open>new(big.Int).SetBytes(getData(input, start, size))\<close>.\<close>

definition data_int :: "byte list \<Rightarrow> int \<Rightarrow> int \<Rightarrow> int outcome" where
  "data_int input start sz = of_result (result_bind (getData input start sz) (\<lambda>b. Ok (big_SetBytes b)))"

definition modexp_expHead :: "byte list \<Rightarrow> int \<Rightarrow> int \<Rightarrow> int outcome" where
  "modexp_expHead input baseLen expLen =
     (if int (length input) \<le> baseLen then Done 0
      else data_int input (big_Uint64 baseLen) (if expLen > 32 then 32 else big_Uint64 expLen))"

definition modexp_adjExpLen :: "int \<Rightarrow> int \<Rightarrow> int" where
  "modexp_adjExpLen expLen expHead =
     (if expLen > 32 then 8 * (expLen - 32) else 0) +
     (if big_BitLen expHead > 0 then int (big_BitLen expHead) - 1 else 0)"

definition modexp_complexity :: "int \<Rightarrow> int" where
  "modexp_complexity x =
     (if x \<le> 64 then x * x
      else if x \<le> 1024 then big_Div (x * x) 4 + (96 * x - 3072)
      else big_Div (x * x) 16 + (480 * x - 199680))"

definition bigModExp_RequiredGas :: "byte list \<Rightarrow> int outcome" where
  "bigModExp_RequiredGas input =
     outcome_bind (data_int input 0 32) (\<lambda>baseLen.
     outcome_bind (data_int input 32 32) (\<lambda>expLen.
     outcome_bind (data_int input 64 32) (\<lambda>modLen.
     outcome_bind (modexp_expHead (drop 96 input) baseLen expLen) (\<lambda>expHead.
       let gas = big_Div (modexp_complexity (BigMax modLen baseLen) * BigMax (modexp_adjExpLen expLen expHead) 1)
                   ModExpQuadCoeffDiv
       in Done (if big_BitLen gas > 64 then MaxUint64 else big_Uint64 gas)))))"

text \<open>\<open>Exp\<close> of \<open>big.Int\<close> with a modulus above 0.\<close>

definition big_Exp_mod :: "int \<Rightarrow> int \<Rightarrow> int \<Rightarrow> int" where
  "big_Exp_mod x y m = x ^ nat y mod m"

definition bigModExp_Run :: "byte list \<Rightarrow> byte list outcome" where
  "bigModExp_Run inp =
     outcome_bind (data_int inp 0 32) (\<lambda>bl.
     outcome_bind (data_int inp 32 32) (\<lambda>el.
     outcome_bind (data_int inp 64 32) (\<lambda>ml.
       let baseLen = big_Uint64 bl; expLen = big_Uint64 el; modLen = big_Uint64 ml; input = drop 96 inp
       in if baseLen = 0 \<and> modLen = 0 then Done []
          else
            outcome_bind (data_int input 0 baseLen) (\<lambda>base.
            outcome_bind (data_int input baseLen expLen) (\<lambda>exp.
            outcome_bind (data_int input (wrap_u64 (baseLen + expLen)) modLen) (\<lambda>m.
              if big_BitLen m = 0 then Done (LeftPadBytes [] (nat (wrap_s64 modLen)))
              else Done (LeftPadBytes (big_Bytes (big_Exp_mod base exp m)) (nat (wrap_s64 modLen)))))))))"

definition newCurvePoint :: "natives \<Rightarrow> byte list \<Rightarrow> string option" where "newCurvePoint N blob = bn_G1 N blob"
definition newTwistPoint :: "natives \<Rightarrow> byte list \<Rightarrow> string option" where "newTwistPoint N blob = bn_G2 N blob"

definition bn256Add_RequiredGas :: "byte list \<Rightarrow> int" where "bn256Add_RequiredGas input = Bn256AddGas"

definition bn256Add_Run :: "natives \<Rightarrow> byte list \<Rightarrow> (byte list \<times> vm_error option) outcome" where
  "bn256Add_Run N input =
     outcome_bind (of_result (getData input 0 64)) (\<lambda>xb.
       case newCurvePoint N xb of
         Some e \<Rightarrow> Done ([], Some (PrecompileError e))
       | None \<Rightarrow>
           outcome_bind (of_result (getData input 64 64)) (\<lambda>yb.
             case newCurvePoint N yb of
               Some e \<Rightarrow> Done ([], Some (PrecompileError e))
             | None \<Rightarrow> Done (bn_Add N xb yb, None)))"

definition bn256ScalarMul_RequiredGas :: "byte list \<Rightarrow> int" where "bn256ScalarMul_RequiredGas input = Bn256ScalarMulGas"

definition bn256ScalarMul_Run :: "natives \<Rightarrow> byte list \<Rightarrow> (byte list \<times> vm_error option) outcome" where
  "bn256ScalarMul_Run N input =
     outcome_bind (of_result (getData input 0 64)) (\<lambda>p.
       case newCurvePoint N p of
         Some e \<Rightarrow> Done ([], Some (PrecompileError e))
       | None \<Rightarrow> outcome_bind (data_int input 64 32) (\<lambda>k. Done (bn_ScalarMult N p k, None)))"

definition true32Byte :: "byte list" where "true32Byte = replicate 31 0 @ [1]"
definition false32Byte :: "byte list" where "false32Byte = replicate 32 0"

definition bn256Pairing_RequiredGas :: "byte list \<Rightarrow> int" where
  "bn256Pairing_RequiredGas input =
     wrap_u64 (Bn256PairingBaseGas + wrap_u64 (int (length input div 192) * Bn256PairingPerPointGas))"

text \<open>The loop over the pairs of points, 192 bytes each.\<close>

function pairing_points ::
  "natives \<Rightarrow> byte list \<Rightarrow> byte list list \<Rightarrow> byte list list \<Rightarrow> string + byte list list \<times> byte list list" where
  "pairing_points N input cs ts =
     (if input = [] then Inr (cs, ts)
      else let c = take 64 input; t = take 128 (drop 64 input)
           in case newCurvePoint N c of
                Some e \<Rightarrow> Inl e
              | None \<Rightarrow>
                  (case newTwistPoint N t of
                     Some e \<Rightarrow> Inl e
                   | None \<Rightarrow> pairing_points N (drop 192 input) (cs @ [c]) (ts @ [t])))"
  by pat_completeness auto
termination
  by (relation "measure (\<lambda>(N, input, cs, ts). length input)") auto

declare pairing_points.simps [simp del]

definition errBadPairingInput :: string where "errBadPairingInput = ''bad elliptic curve pairing size''"

definition bn256Pairing_Run :: "natives \<Rightarrow> byte list \<Rightarrow> byte list \<times> vm_error option" where
  "bn256Pairing_Run N input =
     (if length input mod 192 > 0 then ([], Some (PrecompileError errBadPairingInput))
      else case pairing_points N input [] [] of
             Inl e \<Rightarrow> ([], Some (PrecompileError e))
           | Inr (cs, ts) \<Rightarrow> (if bn_PairingCheck N cs ts then true32Byte else false32Byte, None))"

datatype PrecompiledContract =
  ecrecover | sha256hash | ripemd160hash | dataCopy | bigModExp | bn256Add | bn256ScalarMul | bn256Pairing

definition PrecompiledContractsHomestead :: "(AddressBytes \<times> PrecompiledContract) list" where
  "PrecompiledContractsHomestead =
     [(BytesToAddress [1], ecrecover), (BytesToAddress [2], sha256hash), (BytesToAddress [3], ripemd160hash),
      (BytesToAddress [4], dataCopy)]"

definition PrecompiledContractsByzantium :: "(AddressBytes \<times> PrecompiledContract) list" where
  "PrecompiledContractsByzantium =
     [(BytesToAddress [1], ecrecover), (BytesToAddress [2], sha256hash), (BytesToAddress [3], ripemd160hash),
      (BytesToAddress [4], dataCopy), (BytesToAddress [5], bigModExp), (BytesToAddress [6], bn256Add),
      (BytesToAddress [7], bn256ScalarMul), (BytesToAddress [8], bn256Pairing)]"

primrec RequiredGas :: "PrecompiledContract \<Rightarrow> byte list \<Rightarrow> int outcome" where
  "RequiredGas ecrecover input = Done (ecrecover_RequiredGas input)"
| "RequiredGas sha256hash input = Done (sha256hash_RequiredGas input)"
| "RequiredGas ripemd160hash input = Done (ripemd160hash_RequiredGas input)"
| "RequiredGas dataCopy input = Done (dataCopy_RequiredGas input)"
| "RequiredGas bigModExp input = bigModExp_RequiredGas input"
| "RequiredGas bn256Add input = Done (bn256Add_RequiredGas input)"
| "RequiredGas bn256ScalarMul input = Done (bn256ScalarMul_RequiredGas input)"
| "RequiredGas bn256Pairing input = Done (bn256Pairing_RequiredGas input)"

primrec precompiled_Run ::
  "PrecompiledContract \<Rightarrow> natives \<Rightarrow> byte list \<Rightarrow> (byte list \<times> vm_error option) outcome" where
  "precompiled_Run ecrecover N input = Done (ecrecover_Run N input, None)"
| "precompiled_Run sha256hash N input = Done (sha256hash_Run N input, None)"
| "precompiled_Run ripemd160hash N input = Done (ripemd160hash_Run N input, None)"
| "precompiled_Run dataCopy N input = Done (dataCopy_Run input, None)"
| "precompiled_Run bigModExp N input = outcome_bind (bigModExp_Run input) (\<lambda>b. Done (b, None))"
| "precompiled_Run bn256Add N input = bn256Add_Run N input"
| "precompiled_Run bn256ScalarMul N input = bn256ScalarMul_Run N input"
| "precompiled_Run bn256Pairing N input = Done (bn256Pairing_Run N input)"

definition RunPrecompiledContract ::
  "PrecompiledContract \<Rightarrow> natives \<Rightarrow> byte list \<Rightarrow> Contract \<Rightarrow> (byte list \<times> vm_error option \<times> Contract) outcome" where
  "RunPrecompiledContract p N input contract =
     outcome_bind (RequiredGas p input) (\<lambda>gas.
       let (ok, contract') = UseGas gas contract
       in if ok then outcome_bind (precompiled_Run p N input) (\<lambda>(ret, err). Done (ret, err, contract'))
          else Done ([], Some ErrOutOfGas, contract'))"

subsection \<open>The check of two configurations returns\<close>

text \<open>A conflict at \<open>head\<close> asks for a block below it, or for the first.\<close>

definition rewind :: "int \<Rightarrow> int" where
  "rewind r = (if sgn r > 0 then wrap_u64 (big_Uint64 r - 1) else 0)"

lemma rewind_bound: "r \<le> h \<Longrightarrow> h < 2 ^ 64 \<Longrightarrow> 0 \<le> rewind r \<and> (rewind r < h \<or> rewind r = 0)"
  by (cases "r > 0") (simp_all add: rewind_def big_Uint64_def wrap_u64_id is_u64_def)

lemma newCompatError_rewind:
  assumes "isForked a (Some h) \<or> isForked b (Some h)" "h < 2 ^ 64"
  shows "0 \<le> ce_RewindTo (newCompatError what a b) \<and>
    (ce_RewindTo (newCompatError what a b) < h \<or> ce_RewindTo (newCompatError what a b) = 0)"
proof -
  obtain r where "r \<le> h" "ce_RewindTo (newCompatError what a b) = rewind r"
  proof (cases a)
    case None
    then show ?thesis using assms(1) that by (auto simp: newCompatError_def rewind_def isForked_def split: option.splits)
  next
    case (Some s)
    show ?thesis
    proof (cases b)
      case None
      then show ?thesis using Some assms(1) that by (auto simp: newCompatError_def rewind_def isForked_def)
    next
      case (Some n)
      then show ?thesis using \<open>a = Some s\<close> assms(1) that [of s] that [of n]
        by (cases "s < n") (auto simp: newCompatError_def rewind_def isForked_def)
    qed
  qed
  then show ?thesis using rewind_bound assms(2) by metis
qed

lemma checkCompatible_rewind:
  assumes "checkCompatible c newcfg h = Some e" "0 \<le> h" "h < 2 ^ 64"
  shows "0 \<le> ce_RewindTo e" "ce_RewindTo e < h \<or> ce_RewindTo e = 0"
proof -
  have found: "(True, x) \<in> set xs" if "map_option snd (find fst xs) = Some x" for x and xs :: "(bool \<times> ConfigCompatError) list"
    using that by (induction xs) (auto split: if_splits)
  obtain what a b where e: "e = newCompatError what a b" "isForked a (Some h) \<or> isForked b (Some h)"
    using found [OF assms(1) [unfolded checkCompatible_def Let_def]]
    by (simp only: list.set insert_iff empty_iff prod.inject isForkIncompatible_def IsDAOFork_def IsEIP158_def)
      (elim disjE conjE; blast)
  show "0 \<le> ce_RewindTo e" "ce_RewindTo e < h \<or> ce_RewindTo e = 0"
    using newCompatError_rewind [OF e(2) assms(3)] by (auto simp: e(1))
qed

lemma CheckCompatible_loop_returns:
  assumes "0 \<le> h" "h < 2 ^ 64" "case lasterr of None \<Rightarrow> nat h + 2 \<le> n | Some l \<Rightarrow> ce_RewindTo l = h \<and> nat h + 1 \<le> n"
  shows "\<exists>r. CheckCompatible_loop n c newcfg h lasterr = Done r"
  using assms
proof (induction n arbitrary: h lasterr)
  case 0
  then show ?case by (auto split: option.splits)
next
  case (Suc n)
  show ?case
  proof (cases "checkCompatible c newcfg h")
    case (Some e)
    note r = checkCompatible_rewind [OF Some Suc.prems(1,2)]
    show ?thesis
    proof (cases "\<exists>l. lasterr = Some l \<and> ce_RewindTo e = ce_RewindTo l")
      case False
      then have "\<exists>r. CheckCompatible_loop n c newcfg (ce_RewindTo e) (Some e) = Done r"
        using Suc.prems r by (intro Suc.IH) (auto split: option.splits)
      then show ?thesis using Some False by (auto split: option.splits)
    qed (use Some in auto)
  qed simp
qed

lemma CheckCompatible_returns:
  assumes "0 \<le> height" "height < 2 ^ 64" shows "\<exists>r. CheckCompatible c newcfg height = Done r"
  unfolding CheckCompatible_def by (rule CheckCompatible_loop_returns) (use assms in simp_all)

end
