(* ===== verification/Evm.thy ===== *)
theory Evm
  imports Evm_Contracts State_Snapshots
begin

section \<open>The virtual machine: dvm/ethereum/vm/evm.go, interpreter.go\<close>

text \<open>
  \<^item> \<open>EVM\<close> is what an execution changes: the account state it works on, the stored states of other contracts (\<open>'d\<close>,
    behind the interface \<open>VMStateQueryHelper\<close>), the call depth, the gas of the next call, the read-only flag and the
    return data of the interpreter, the time. \<open>venv\<close> is what it does not change. \<open>Frame\<close> holds the variables of one run
    of the interpreter: program counter, contract, memory, stack.
  \<^item> Each instruction and each gas function is a definition of the name it has in the code. An instruction that calls
    takes the interpreter as the argument \<open>run\<close>, so that calls nest as deep as the fuel allows.
  \<^item> \<open>exec_loop\<close> spends one unit of fuel for an instruction; \<open>Timeout\<close> is the end of the fuel and nothing the code knows.
  \<^item> Go's panics, also those of the account state, are \<open>Crash\<close>.
  \<^item> Not modelled: the tracer (\<open>Debug\<close> is off in the program), \<open>Cancel\<close> (nothing calls it, the flag \<open>abort\<close> stays 0), the
    pools of integers, log output.
\<close>

subsection \<open>evm.go and interpreter.go: the state\<close>

record Context =
  cx_GetHash :: "int \<Rightarrow> HashBytes"
  cx_Origin :: AddressBytes
  cx_GasPrice :: int
  cx_Coinbase :: AddressBytes
  cx_GasLimit :: int
  cx_BlockNumber :: int
  cx_Difficulty :: "int option"

text \<open>\<open>dvm/vmstatehelpercontracts\<close>. \<open>NewEthStateLoader\<close> returns nil when the state cannot be opened.\<close>

record ('t, 'd) VMStateQueryHelper =
  sq_GetCodeSize :: "'d \<Rightarrow> AddressBytes \<Rightarrow> int result"
  sq_NewEthStateLoader :: "'d \<Rightarrow> AddressBytes \<Rightarrow> 't StateDB option"
  sq_CommitState :: "'d \<Rightarrow> AddressBytes \<Rightarrow> 't StateDB \<Rightarrow> 'd result"

text \<open>\<open>ve_clock n\<close> is the \<open>n\<close>-th reading of the clock.\<close>

record ('t, 'd) venv =
  ve_senv :: "'t senv"
  ve_natives :: natives
  ve_Context :: Context
  ve_chainConfig :: ChainConfig
  ve_NoRecursion :: bool
  ve_EnablePreimageRecording :: bool
  ve_StateQueryHelper :: "('t, 'd) VMStateQueryHelper option"
  ve_clock :: "nat \<Rightarrow> int"

record ('t, 'd) EVM =
  ev_StateDB :: "'t StateDB"
  ev_disk :: 'd
  ev_depth :: int
  ev_callGasTemp :: int
  ev_readOnly :: bool
  ev_returnData :: "byte list"
  ev_Time :: int
  ev_ticks :: nat

record Frame =
  f_pc :: int
  f_contract :: Contract
  f_mem :: Memory
  f_stack :: Stack

text \<open>What a call returns beside the changed machine: the bytes, the remaining gas and the error.\<close>

type_synonym ('t, 'd) call_result = "(byte list \<times> int \<times> vm_error option \<times> ('t, 'd) EVM) outcome"

text \<open>\<open>interpreter.Run(contract, input)\<close>; the contract comes back with its remaining gas.\<close>

type_synonym ('t, 'd) runner =
  "Contract \<Rightarrow> byte list \<Rightarrow> ('t, 'd) EVM \<Rightarrow> (byte list \<times> vm_error option \<times> Contract \<times> ('t, 'd) EVM) outcome"

type_synonym ('t, 'd) executionFunc =
  "('t, 'd) venv \<Rightarrow> ('t, 'd) runner \<Rightarrow> Frame \<Rightarrow> ('t, 'd) EVM \<Rightarrow>
     (byte list \<times> vm_error option \<times> Frame \<times> ('t, 'd) EVM) outcome"

type_synonym ('t, 'd) gasFunc =
  "GasTable \<Rightarrow> ('t, 'd) venv \<Rightarrow> Contract \<Rightarrow> Stack \<Rightarrow> Memory \<Rightarrow> int \<Rightarrow> ('t, 'd) EVM \<Rightarrow>
     int result \<times> Memory \<times> ('t, 'd) EVM"

abbreviation block :: "('t, 'd) venv \<Rightarrow> int option" where
  "block V \<equiv> Some (cx_BlockNumber (ve_Context V))"

text \<open>A use of the account state by the machine; a panic there is told apart from one of the machine by its message.\<close>

definition in_state :: "'a result \<Rightarrow> 'a result" where
  "in_state r = (case r of Ok x \<Rightarrow> Ok x | Err e \<Rightarrow> Err (''state: '' @ e) | Panic e \<Rightarrow> Panic (''state: '' @ e))"

lemma in_state_Ok_iff [simp]: "in_state r = Ok x \<longleftrightarrow> r = Ok x"
  by (cases r) (simp_all add: in_state_def)

lemma in_state_Ok [simp]: "in_state (Ok x) = Ok x"
  by (simp add: in_state_def)

definition with_state ::
  "('t StateDB \<Rightarrow> ('a \<times> 't StateDB) result) \<Rightarrow> ('t, 'd) EVM \<Rightarrow> ('a \<times> ('t, 'd) EVM) outcome" where
  "with_state f ev = outcome_bind (of_result (in_state (f (ev_StateDB ev)))) (\<lambda>(x, st). Done (x, ev\<lparr>ev_StateDB := st\<rparr>))"

definition on_state :: "('t StateDB \<Rightarrow> 't StateDB result) \<Rightarrow> ('t, 'd) EVM \<Rightarrow> ('t, 'd) EVM outcome" where
  "on_state f ev = outcome_bind (of_result (in_state (f (ev_StateDB ev)))) (\<lambda>st. Done (ev\<lparr>ev_StateDB := st\<rparr>))"

text \<open>\<open>StateDB.GetCode\<close> as the bytes of a slice.\<close>

definition code_bytes :: "byte list option \<Rightarrow> byte list" where
  "code_bytes c = (case c of None \<Rightarrow> [] | Some b \<Rightarrow> b)"

subsection \<open>dvm/ethereum/evm.go: transfers\<close>

definition CanTransfer :: "'t senv \<Rightarrow> AddressBytes \<Rightarrow> int \<Rightarrow> 't StateDB \<Rightarrow> (bool \<times> 't StateDB) result" where
  "CanTransfer E addr amount st = result_bind (StateDB_GetBalance E addr st) (\<lambda>(b, st1). Ok (b \<ge> amount, st1))"

definition Transfer :: "'t senv \<Rightarrow> AddressBytes \<Rightarrow> AddressBytes \<Rightarrow> int \<Rightarrow> 't StateDB \<Rightarrow> 't StateDB result" where
  "Transfer E sender recipient amount st =
     result_bind (StateDB_SubBalance E sender amount st) (StateDB_AddBalance E recipient amount)"

subsection \<open>evm.go: calls\<close>

definition precompiled_at :: "('t, 'd) venv \<Rightarrow> AddressBytes \<Rightarrow> PrecompiledContract option" where
  "precompiled_at V addr =
     map_of (if IsByzantium (ve_chainConfig V) (block V) then PrecompiledContractsByzantium
             else PrecompiledContractsHomestead) addr"

text \<open>The function \<open>run\<close>. The list of interpreters holds the one interpreter, which can run every code.\<close>

definition EVM_run :: "('t, 'd) venv \<Rightarrow> ('t, 'd) runner \<Rightarrow> ('t, 'd) runner" where
  "EVM_run V run contract input ev =
     (case (case c_CodeAddr contract of None \<Rightarrow> None | Some a \<Rightarrow> precompiled_at V a) of
        Some p \<Rightarrow>
          outcome_bind (RunPrecompiledContract p (ve_natives V) input contract) (\<lambda>(ret, err, c). Done (ret, err, c, ev))
      | None \<Rightarrow> run contract input ev)"

text \<open>The end of a call: an error reverts the state and, unless it is a revert, takes the remaining gas.\<close>

definition settle ::
  "('t, 'd) venv \<Rightarrow> int \<Rightarrow> byte list \<times> vm_error option \<times> Contract \<times> ('t, 'd) EVM \<Rightarrow> ('t, 'd) call_result" where
  "settle V snapshot r =
     (case r of (ret, err, contract, ev) \<Rightarrow>
        case err of
          None \<Rightarrow> Done (ret, c_Gas contract, None, ev)
        | Some e \<Rightarrow>
            outcome_bind (on_state (StateDB_RevertToSnapshot (ve_senv V) snapshot) ev) (\<lambda>ev1.
              let contract1 = (if e \<noteq> ErrExecutionReverted then snd (UseGas (c_Gas contract) contract) else contract)
              in Done (ret, c_Gas contract1, Some e, ev1)))"

text \<open>\<open>contract.SetCallCode(&addr, StateDB.GetCodeHash(addr), StateDB.GetCode(addr))\<close>.\<close>

definition load_code ::
  "('t, 'd) venv \<Rightarrow> AddressBytes \<Rightarrow> Contract \<Rightarrow> ('t, 'd) EVM \<Rightarrow> (Contract \<times> ('t, 'd) EVM) outcome" where
  "load_code V addr contract ev =
     outcome_bind (with_state (StateDB_GetCodeHash (ve_senv V) addr) ev) (\<lambda>(h, ev1).
     outcome_bind (with_state (StateDB_GetCode (ve_senv V) addr) ev1) (\<lambda>(code, ev2).
       Done (SetCallCode addr h (code_bytes code) contract, ev2)))"

definition take_snapshot :: "('t, 'd) EVM \<Rightarrow> int \<times> ('t, 'd) EVM" where
  "take_snapshot ev = (let (i, st) = StateDB_Snapshot (ev_StateDB ev) in (i, ev\<lparr>ev_StateDB := st\<rparr>))"

definition EVM_Call ::
  "('t, 'd) venv \<Rightarrow> ('t, 'd) runner \<Rightarrow> ContractRef \<Rightarrow> AddressBytes \<Rightarrow> byte list \<Rightarrow> int \<Rightarrow> int \<Rightarrow> ('t, 'd) EVM \<Rightarrow>
     ('t, 'd) call_result" where
  "EVM_Call V run caller addr input gas value ev =
     (let E = ve_senv V in
      if ve_NoRecursion V \<and> ev_depth ev > 0 then Done ([], gas, None, ev)
      else if ev_depth ev > int CallCreateDepth then Done ([], gas, Some ErrDepth, ev)
      else
        outcome_bind (with_state (CanTransfer E (ref_Address caller) value) ev) (\<lambda>(can, ev1).
        if \<not> can then Done ([], gas, Some ErrInsufficientBalance, ev1)
        else
          let (snapshot, ev2) = take_snapshot ev1 in
          outcome_bind (with_state (StateDB_Exist E addr) ev2) (\<lambda>(exist, ev3).
          if \<not> exist \<and> precompiled_at V addr = None \<and> IsEIP158 (ve_chainConfig V) (block V) \<and> sgn value = 0
          then Done ([], gas, None, ev3)
          else
            outcome_bind (if exist then Done ev3 else on_state (StateDB_CreateAccount E addr) ev3) (\<lambda>ev4.
            outcome_bind (on_state (Transfer E (ref_Address caller) addr value) ev4) (\<lambda>ev5.
            outcome_bind (load_code V addr (NewContract caller (AccountRef addr) value gas) ev5) (\<lambda>(contract, ev6).
            outcome_bind (EVM_run V run contract input ev6) (settle V snapshot)))))))"

definition EVM_CallCode ::
  "('t, 'd) venv \<Rightarrow> ('t, 'd) runner \<Rightarrow> ContractRef \<Rightarrow> AddressBytes \<Rightarrow> byte list \<Rightarrow> int \<Rightarrow> int \<Rightarrow> ('t, 'd) EVM \<Rightarrow>
     ('t, 'd) call_result" where
  "EVM_CallCode V run caller addr input gas value ev =
     (if ve_NoRecursion V \<and> ev_depth ev > 0 then Done ([], gas, None, ev)
      else if ev_depth ev > int CallCreateDepth then Done ([], gas, Some ErrDepth, ev)
      else
        outcome_bind (with_state (CanTransfer (ve_senv V) (ref_Address caller) value) ev) (\<lambda>(can, ev1).
        if \<not> can then Done ([], gas, Some ErrInsufficientBalance, ev1)
        else
          let (snapshot, ev2) = take_snapshot ev1 in
          outcome_bind (load_code V addr (NewContract caller (AccountRef (ref_Address caller)) value gas) ev2)
            (\<lambda>(contract, ev3).
          outcome_bind (EVM_run V run contract input ev3) (settle V snapshot))))"

definition EVM_DelegateCall ::
  "('t, 'd) venv \<Rightarrow> ('t, 'd) runner \<Rightarrow> ContractRef \<Rightarrow> AddressBytes \<Rightarrow> byte list \<Rightarrow> int \<Rightarrow> ('t, 'd) EVM \<Rightarrow>
     ('t, 'd) call_result" where
  "EVM_DelegateCall V run caller addr input gas ev =
     (if ve_NoRecursion V \<and> ev_depth ev > 0 then Done ([], gas, None, ev)
      else if ev_depth ev > int CallCreateDepth then Done ([], gas, Some ErrDepth, ev)
      else
        let (snapshot, ev1) = take_snapshot ev in
        outcome_bind (AsDelegate caller (NewContract caller (AccountRef (ref_Address caller)) 0 gas)) (\<lambda>contract.
        outcome_bind (load_code V addr contract ev1) (\<lambda>(contract1, ev2).
        outcome_bind (EVM_run V run contract1 input ev2) (settle V snapshot))))"

text \<open>\<open>StaticCall\<close> clears the flag on return only where it has set it.\<close>

definition EVM_StaticCall ::
  "('t, 'd) venv \<Rightarrow> ('t, 'd) runner \<Rightarrow> ContractRef \<Rightarrow> AddressBytes \<Rightarrow> byte list \<Rightarrow> int \<Rightarrow> ('t, 'd) EVM \<Rightarrow>
     ('t, 'd) call_result" where
  "EVM_StaticCall V run caller addr input gas ev =
     (if ve_NoRecursion V \<and> ev_depth ev > 0 then Done ([], gas, None, ev)
      else if ev_depth ev > int CallCreateDepth then Done ([], gas, Some ErrDepth, ev)
      else
        let readOnly = ev_readOnly ev; (snapshot, ev1) = take_snapshot (ev\<lparr>ev_readOnly := True\<rparr>) in
        outcome_bind (load_code V addr (NewContract caller (AccountRef addr) 0 gas) ev1) (\<lambda>(contract, ev2).
        outcome_bind (EVM_run V run contract input ev2) (\<lambda>r.
        outcome_bind (settle V snapshot r) (\<lambda>(ret, g, err, ev3).
          Done (ret, g, err, if readOnly then ev3 else ev3\<lparr>ev_readOnly := False\<rparr>)))))"

text \<open>The end of \<open>create\<close>: the code is stored if its gas can be paid; the error decides on the revert.\<close>

definition settle_create ::
  "('t, 'd) venv \<Rightarrow> AddressBytes \<Rightarrow> int \<Rightarrow> byte list \<times> vm_error option \<times> Contract \<times> ('t, 'd) EVM \<Rightarrow>
     (byte list \<times> AddressBytes \<times> int \<times> vm_error option \<times> ('t, 'd) EVM) outcome" where
  "settle_create V address snapshot r =
     (case r of (ret, err, contract, ev) \<Rightarrow>
        let maxCodeSizeExceeded = (IsEIP158 (ve_chainConfig V) (block V) \<and> length ret > MaxCodeSize);
            createDataGas = wrap_u64 (int (length ret) * CreateDataGas)
        in outcome_bind
             (if err = None \<and> \<not> maxCodeSizeExceeded then
                (case UseGas createDataGas contract of
                   (True, contract1) \<Rightarrow>
                     outcome_bind (on_state (StateDB_SetCode (ve_senv V) address (if ret = [] then None else Some ret)) ev)
                       (\<lambda>ev1. Done (None, contract1, ev1))
                 | (False, contract1) \<Rightarrow> Done (Some ErrCodeStoreOutOfGas, contract1, ev))
              else Done (err, contract, ev)) (\<lambda>(err1, contract1, ev1).
           outcome_bind
             (if maxCodeSizeExceeded \<or>
                 (err1 \<noteq> None \<and> (IsHomestead (ve_chainConfig V) (block V) \<or> err1 \<noteq> Some ErrCodeStoreOutOfGas)) then
                outcome_bind (on_state (StateDB_RevertToSnapshot (ve_senv V) snapshot) ev1) (\<lambda>ev2.
                  Done (if err1 \<noteq> Some ErrExecutionReverted then snd (UseGas (c_Gas contract1) contract1) else contract1,
                        ev2))
              else Done (contract1, ev1)) (\<lambda>(contract2, ev2).
             Done (ret, address, c_Gas contract2,
               if maxCodeSizeExceeded \<and> err1 = None then Some errMaxCodeSizeExceeded else err1, ev2))))"

definition EVM_create ::
  "('t, 'd) venv \<Rightarrow> ('t, 'd) runner \<Rightarrow> ContractRef \<Rightarrow> byte list \<Rightarrow> int \<Rightarrow> int \<Rightarrow> AddressBytes \<Rightarrow> ('t, 'd) EVM \<Rightarrow>
     (byte list \<times> AddressBytes \<times> int \<times> vm_error option \<times> ('t, 'd) EVM) outcome" where
  "EVM_create V run caller code gas value address ev =
     (let E = ve_senv V; nowhere = replicate AddressLength 0 in
      if ev_depth ev > int CallCreateDepth then Done ([], nowhere, gas, Some ErrDepth, ev)
      else
        outcome_bind (with_state (CanTransfer E (ref_Address caller) value) ev) (\<lambda>(can, ev1).
        if \<not> can then Done ([], nowhere, gas, Some ErrInsufficientBalance, ev1)
        else
          outcome_bind (with_state (StateDB_GetNonce E (ref_Address caller)) ev1) (\<lambda>(nonce, ev2).
          outcome_bind (on_state (StateDB_SetNonce E (ref_Address caller) (wrap_u64 (nonce + 1))) ev2) (\<lambda>ev3.
          outcome_bind (with_state (StateDB_GetCodeHash E address) ev3) (\<lambda>(contractHash, ev4).
          outcome_bind (with_state (StateDB_GetNonce E address) ev4) (\<lambda>(nonce1, ev5).
          if nonce1 \<noteq> 0 \<or> (contractHash \<noteq> zero_hash \<and> contractHash \<noteq> emptyCodeHash E)
          then Done ([], nowhere, 0, Some ErrContractAddressCollision, ev5)
          else
            let (snapshot, ev6) = take_snapshot ev5 in
            outcome_bind (on_state (StateDB_CreateAccount E address) ev6) (\<lambda>ev7.
            outcome_bind (if IsEIP158 (ve_chainConfig V) (block V) then on_state (StateDB_SetNonce E address 1) ev7
                          else Done ev7) (\<lambda>ev8.
            outcome_bind (on_state (Transfer E (ref_Address caller) address value) ev8) (\<lambda>ev9.
              let contract = SetCallCode address (crypto_NewHash (se_crypto E) code) code
                    (NewContract caller (AccountRef address) value gas)
              in if ve_NoRecursion V \<and> ev_depth ev9 > 0 then Done ([], address, gas, None, ev9)
                 else outcome_bind (EVM_run V run contract [] ev9) (settle_create V address snapshot))))))))))"

text \<open>\<open>crypto.CreateAddress\<close> and \<open>CreateAddress2\<close> of \<open>dvm/ethereum/crypto/crypto.go\<close>.\<close>

definition CreateAddress :: "crypto \<Rightarrow> AddressBytes \<Rightarrow> int \<Rightarrow> AddressBytes" where
  "CreateAddress C b nonce =
     (let data = (case EncodeToBytes (RSlice [RBytes b, RUint (nat nonce)]) of Ok d \<Rightarrow> d | _ \<Rightarrow> [])
      in BytesToAddress (drop 12 (keccak256 C data)))"

definition CreateAddress2 :: "crypto \<Rightarrow> AddressBytes \<Rightarrow> HashBytes \<Rightarrow> byte list \<Rightarrow> AddressBytes" where
  "CreateAddress2 C b salt code = BytesToAddress (drop 12 (keccak256 C ([0xff] @ b @ salt @ keccak256 C code)))"

definition EVM_Create ::
  "('t, 'd) venv \<Rightarrow> ('t, 'd) runner \<Rightarrow> ContractRef \<Rightarrow> byte list \<Rightarrow> int \<Rightarrow> int \<Rightarrow> ('t, 'd) EVM \<Rightarrow>
     (byte list \<times> AddressBytes \<times> int \<times> vm_error option \<times> ('t, 'd) EVM) outcome" where
  "EVM_Create V run caller code gas value ev =
     outcome_bind (with_state (StateDB_GetNonce (ve_senv V) (ref_Address caller)) ev) (\<lambda>(nonce, ev1).
       EVM_create V run caller code gas value (CreateAddress (se_crypto (ve_senv V)) (ref_Address caller) nonce) ev1)"

definition EVM_Create2 ::
  "('t, 'd) venv \<Rightarrow> ('t, 'd) runner \<Rightarrow> ContractRef \<Rightarrow> byte list \<Rightarrow> int \<Rightarrow> int \<Rightarrow> int \<Rightarrow> ('t, 'd) EVM \<Rightarrow>
     (byte list \<times> AddressBytes \<times> int \<times> vm_error option \<times> ('t, 'd) EVM) outcome" where
  "EVM_Create2 V run caller code gas endowment salt ev =
     EVM_create V run caller code gas endowment
       (CreateAddress2 (se_crypto (ve_senv V)) (ref_Address caller) (BigToHash salt) code) ev"

end
