(* ===== verification/Evm_Instructions.thy ===== *)
theory Evm_Instructions
  imports Evm
begin

section \<open>Gas functions and instructions: dvm/ethereum/vm/gas\_table.go, instructions.go\<close>

text \<open>
  One definition per gas function and per instruction that looks at more than the stack (those are in \<open>Evm_Opcodes\<close>).
  A gas function may change the machine: it loads objects of the account state, adds refunds and sets
  \<open>callGasTemp\<close>; \<open>gas_plain\<close> is one that does not.
\<close>

subsection \<open>gas\_table.go\<close>

text \<open>\<open>if x, overflow = ...; overflow { return 0, errGasUintOverflow }\<close>.\<close>

definition checked :: "int \<times> bool \<Rightarrow> (int \<Rightarrow> 'a result) \<Rightarrow> 'a result" where
  "checked p k = (if snd p then Err errGasUintOverflow else k (fst p))"

text \<open>\<open>gas, err := memoryGasCost(mem, memorySize)\<close> and what is computed from it.\<close>

definition with_memory :: "Memory \<Rightarrow> int \<Rightarrow> (int \<Rightarrow> int result) \<Rightarrow> int result \<times> Memory" where
  "with_memory mem memorySize k = (let (r, mem') = memoryGasCost mem memorySize in (result_bind r k, mem'))"

text \<open>A gas function that does not look at the machine.\<close>

definition gas_plain :: "(GasTable \<Rightarrow> Stack \<Rightarrow> Memory \<Rightarrow> int \<Rightarrow> int result \<times> Memory) \<Rightarrow> ('t, 'd) gasFunc" where
  "gas_plain g gt V c st mem ms ev = (let (r, mem') = g gt st mem ms in (r, mem', ev))"

definition constGasFunc :: "int \<Rightarrow> ('t, 'd) gasFunc" where
  "constGasFunc gas = gas_plain (\<lambda>gt st mem ms. (Ok gas, mem))"

text \<open>The charge for the words at position \<open>n\<close> of the stack.\<close>

definition word_charge :: "Stack \<Rightarrow> nat \<Rightarrow> int \<Rightarrow> int \<Rightarrow> int result" where
  "word_charge st n perWord gas =
     result_bind (st_Back st n) (\<lambda>b.
     checked (bigUint64 b) (\<lambda>words.
     checked (SafeMul (toWordSize words) perWord) (\<lambda>words1.
     checked (SafeAdd gas words1) Ok)))"

definition gasCallDataCopy :: "('t, 'd) gasFunc" where
  "gasCallDataCopy = gas_plain (\<lambda>gt st mem ms.
     with_memory mem ms (\<lambda>gas. checked (SafeAdd gas GasFastestStep) (word_charge st 2 CopyGas)))"

definition gasReturnDataCopy :: "('t, 'd) gasFunc" where
  "gasReturnDataCopy = gas_plain (\<lambda>gt st mem ms.
     with_memory mem ms (\<lambda>gas. checked (SafeAdd gas GasFastestStep) (word_charge st 2 CopyGas)))"

definition gasCodeCopy :: "('t, 'd) gasFunc" where
  "gasCodeCopy = gas_plain (\<lambda>gt st mem ms.
     with_memory mem ms (\<lambda>gas. checked (SafeAdd gas GasFastestStep) (word_charge st 2 CopyGas)))"

definition gasExtCodeCopy :: "('t, 'd) gasFunc" where
  "gasExtCodeCopy = gas_plain (\<lambda>gt st mem ms.
     with_memory mem ms (\<lambda>gas. checked (SafeAdd gas (gt_ExtcodeCopy gt)) (word_charge st 3 CopyGas)))"

definition gasSha3 :: "('t, 'd) gasFunc" where
  "gasSha3 = gas_plain (\<lambda>gt st mem ms.
     with_memory mem ms (\<lambda>gas. checked (SafeAdd gas Sha3Gas) (word_charge st 1 Sha3WordGas)))"

definition gasSStore :: "('t, 'd) gasFunc" where
  "gasSStore gt V c st mem ms ev =
     (case result_bind (st_Back st 1) (\<lambda>y. result_bind (st_Back st 0) (\<lambda>x.
        result_bind (in_state (StateDB_GetState (ve_senv V) (c_self c) (BigToHash x) (ev_StateDB ev)))
          (\<lambda>(val, st1). Ok (y, val, st1)))) of
        Err e \<Rightarrow> (Err e, mem, ev)
      | Panic e \<Rightarrow> (Panic e, mem, ev)
      | Ok (y, val, st1) \<Rightarrow>
          if EmptyHash val \<and> \<not> EmptyHash (BigToHash y) then (Ok SstoreSetGas, mem, ev\<lparr>ev_StateDB := st1\<rparr>)
          else if \<not> EmptyHash val \<and> EmptyHash (BigToHash y)
          then (Ok SstoreClearGas, mem, ev\<lparr>ev_StateDB := StateDB_AddRefund SstoreRefundGas st1\<rparr>)
          else (Ok SstoreResetGas, mem, ev\<lparr>ev_StateDB := st1\<rparr>))"

text \<open>The size is checked before the memory is charged.\<close>

definition makeGasLog :: "int \<Rightarrow> ('t, 'd) gasFunc" where
  "makeGasLog n = gas_plain (\<lambda>gt st mem ms.
     case result_bind (st_Back st 1) (\<lambda>b. checked (bigUint64 b) Ok) of
       Err e \<Rightarrow> (Err e, mem)
     | Panic e \<Rightarrow> (Panic e, mem)
     | Ok requestedSize \<Rightarrow>
         with_memory mem ms (\<lambda>gas.
         checked (SafeAdd gas LogGas) (\<lambda>gas1.
         checked (SafeAdd gas1 (wrap_u64 (n * LogTopicGas))) (\<lambda>gas2.
         checked (SafeMul requestedSize LogDataGas) (\<lambda>memorySizeGas.
         checked (SafeAdd gas2 memorySizeGas) Ok)))))"

definition gasExtCodeHash :: "('t, 'd) gasFunc" where
  "gasExtCodeHash = gas_plain (\<lambda>gt st mem ms. (Ok (gt_ExtcodeHash gt), mem))"

definition gasMLoad :: "('t, 'd) gasFunc" where
  "gasMLoad = gas_plain (\<lambda>gt st mem ms. with_memory mem ms (\<lambda>gas. checked (SafeAdd gas GasFastestStep) Ok))"

definition gasMStore8 :: "('t, 'd) gasFunc" where
  "gasMStore8 = gas_plain (\<lambda>gt st mem ms. with_memory mem ms (\<lambda>gas. checked (SafeAdd gas GasFastestStep) Ok))"

definition gasMStore :: "('t, 'd) gasFunc" where
  "gasMStore = gas_plain (\<lambda>gt st mem ms. with_memory mem ms (\<lambda>gas. checked (SafeAdd gas GasFastestStep) Ok))"

definition gasCreate :: "('t, 'd) gasFunc" where
  "gasCreate = gas_plain (\<lambda>gt st mem ms. with_memory mem ms (\<lambda>gas. checked (SafeAdd gas CreateGas) Ok))"

definition gasCreate2 :: "('t, 'd) gasFunc" where
  "gasCreate2 = gas_plain (\<lambda>gt st mem ms. with_memory mem ms (\<lambda>gas. checked (SafeAdd gas Create2Gas) Ok))"

definition gasBalance :: "('t, 'd) gasFunc" where
  "gasBalance = gas_plain (\<lambda>gt st mem ms. (Ok (gt_Balance gt), mem))"

definition gasExtCodeSize :: "('t, 'd) gasFunc" where
  "gasExtCodeSize = gas_plain (\<lambda>gt st mem ms. (Ok (gt_ExtcodeSize gt), mem))"

definition gasSLoad :: "('t, 'd) gasFunc" where
  "gasSLoad = gas_plain (\<lambda>gt st mem ms. (Ok (gt_SLoad gt), mem))"

definition gasExp :: "('t, 'd) gasFunc" where
  "gasExp = gas_plain (\<lambda>gt st mem ms.
     (result_bind (st_Back st 1) (\<lambda>exponent.
        let expByteLen = (int (big_BitLen exponent) + 7) div 8
        in checked (SafeAdd (wrap_u64 (expByteLen * gt_ExpByte gt)) GasSlowStep) Ok), mem))"

definition gasReturn :: "('t, 'd) gasFunc" where "gasReturn = gas_plain (\<lambda>gt st mem ms. memoryGasCost mem ms)"
definition gasRevert :: "('t, 'd) gasFunc" where "gasRevert = gas_plain (\<lambda>gt st mem ms. memoryGasCost mem ms)"
definition gasPush :: "('t, 'd) gasFunc" where "gasPush = gas_plain (\<lambda>gt st mem ms. (Ok GasFastestStep, mem))"
definition gasSwap :: "('t, 'd) gasFunc" where "gasSwap = gas_plain (\<lambda>gt st mem ms. (Ok GasFastestStep, mem))"
definition gasDup :: "('t, 'd) gasFunc" where "gasDup = gas_plain (\<lambda>gt st mem ms. (Ok GasFastestStep, mem))"

text \<open>
  The end of the gas functions of the four calls: \<open>base\<close> is charged and the gas of the call is set aside in
  \<open>callGasTemp\<close>, which an error sets to 0.
\<close>

definition reserve_call_gas ::
  "GasTable \<Rightarrow> Contract \<Rightarrow> Stack \<Rightarrow> int result \<Rightarrow> ('t, 'd) EVM \<Rightarrow> int result \<times> ('t, 'd) EVM" where
  "reserve_call_gas gt c st base ev =
     (case base of
        Err e \<Rightarrow> (Err e, ev)
      | Panic e \<Rightarrow> (Panic e, ev)
      | Ok gas \<Rightarrow>
          (case result_bind (st_Back st 0) (\<lambda>callCost. callGas gt (c_Gas c) gas callCost) of
             Err e \<Rightarrow> (Err e, ev\<lparr>ev_callGasTemp := 0\<rparr>)
           | Panic e \<Rightarrow> (Panic e, ev)
           | Ok temp \<Rightarrow> (checked (SafeAdd gas temp) Ok, ev\<lparr>ev_callGasTemp := temp\<rparr>)))"

text \<open>The price of a new account: whether the account at \<open>address\<close> is to be paid for, by the rules of the block.\<close>

definition new_account_charge ::
  "('t, 'd) venv \<Rightarrow> bool \<Rightarrow> AddressBytes \<Rightarrow> 't StateDB \<Rightarrow> (bool \<times> 't StateDB) result" where
  "new_account_charge V transfersValue address st =
     (if IsEIP158 (ve_chainConfig V) (block V)
      then (if transfersValue then StateDB_Empty (ve_senv V) address st else Ok (False, st))
      else result_bind (StateDB_Exist (ve_senv V) address st) (\<lambda>(ex, st1). Ok (\<not> ex, st1)))"

definition gasCall :: "('t, 'd) gasFunc" where
  "gasCall gt V c st mem ms ev =
     (case result_bind (st_Back st 2) (\<lambda>v. result_bind (st_Back st 1) (\<lambda>a.
        result_bind (in_state (new_account_charge V (sgn v \<noteq> 0) (BigToAddress a) (ev_StateDB ev)))
          (\<lambda>(new, st1). Ok (v, new, st1)))) of
        Err e \<Rightarrow> (Err e, mem, ev)
      | Panic e \<Rightarrow> (Panic e, mem, ev)
      | Ok (v, new, st1) \<Rightarrow>
          (let ev1 = ev\<lparr>ev_StateDB := st1\<rparr>;
               gas = wrap_u64 (gt_Calls gt + (if new then CallNewAccountGas else 0));
               gas1 = wrap_u64 (gas + (if sgn v \<noteq> 0 then CallValueTransferGas else 0));
               (base, mem') = with_memory mem ms (\<lambda>memoryGas. checked (SafeAdd gas1 memoryGas) Ok);
               (r, ev2) = reserve_call_gas gt c st base ev1
           in (r, mem', ev2)))"

definition gasCallCode :: "('t, 'd) gasFunc" where
  "gasCallCode gt V c st mem ms ev =
     (case st_Back st 2 of
        Err e \<Rightarrow> (Err e, mem, ev)
      | Panic e \<Rightarrow> (Panic e, mem, ev)
      | Ok v \<Rightarrow>
          (let gas = wrap_u64 (gt_Calls gt + (if sgn v \<noteq> 0 then CallValueTransferGas else 0));
               (base, mem') = with_memory mem ms (\<lambda>memoryGas. checked (SafeAdd gas memoryGas) Ok);
               (r, ev1) = reserve_call_gas gt c st base ev
           in (r, mem', ev1)))"

definition gasDelegateCall :: "('t, 'd) gasFunc" where
  "gasDelegateCall gt V c st mem ms ev =
     (let (base, mem') = with_memory mem ms (\<lambda>gas. checked (SafeAdd gas (gt_Calls gt)) Ok);
          (r, ev1) = reserve_call_gas gt c st base ev
      in (r, mem', ev1))"

definition gasStaticCall :: "('t, 'd) gasFunc" where
  "gasStaticCall gt V c st mem ms ev =
     (let (base, mem') = with_memory mem ms (\<lambda>gas. checked (SafeAdd gas (gt_Calls gt)) Ok);
          (r, ev1) = reserve_call_gas gt c st base ev
      in (r, mem', ev1))"

text \<open>The part of \<open>gasSuicide\<close> under the rules of EIP150: whether the creation of the beneficiary is charged.\<close>

definition suicide_creates ::
  "('t, 'd) venv \<Rightarrow> AddressBytes \<Rightarrow> AddressBytes \<Rightarrow> 't StateDB \<Rightarrow> (bool \<times> 't StateDB) result" where
  "suicide_creates V self address st =
     (let E = ve_senv V in
      if IsEIP158 (ve_chainConfig V) (block V) then
        result_bind (StateDB_Empty E address st) (\<lambda>(emp, st1).
          if emp then result_bind (StateDB_GetBalance E self st1) (\<lambda>(b, st2). Ok (sgn b \<noteq> 0, st2)) else Ok (False, st1))
      else result_bind (StateDB_Exist E address st) (\<lambda>(ex, st1). Ok (\<not> ex, st1)))"

definition gasSuicide :: "('t, 'd) gasFunc" where
  "gasSuicide gt V c st mem ms ev =
     (case result_bind
        (if IsEIP150 (ve_chainConfig V) (block V) then
           result_bind (st_Back st 0) (\<lambda>a.
           result_bind (in_state (suicide_creates V (c_self c) (BigToAddress a) (ev_StateDB ev))) (\<lambda>(creates, st1).
             Ok (wrap_u64 (gt_Suicide gt + (if creates then gt_CreateBySuicide gt else 0)), st1)))
         else Ok (0, ev_StateDB ev)) (\<lambda>(gas, st1).
        result_bind (in_state (StateDB_HasSuicided (ve_senv V) (c_self c) st1)) (\<lambda>(suicided, st2).
          Ok (gas, if suicided then st2 else StateDB_AddRefund SuicideRefundGas st2))) of
        Err e \<Rightarrow> (Err e, mem, ev)
      | Panic e \<Rightarrow> (Panic e, mem, ev)
      | Ok (gas, st2) \<Rightarrow> (Ok gas, mem, ev\<lparr>ev_StateDB := st2\<rparr>))"

subsection \<open>instructions.go: environment, memory, storage, control\<close>

definition finish :: "Frame \<Rightarrow> ('t, 'd) EVM \<Rightarrow> (byte list \<times> vm_error option \<times> Frame \<times> ('t, 'd) EVM) outcome" where
  "finish f ev = Done ([], None, f, ev)"

text \<open>An instruction on the stack alone, and one that pushes a value.\<close>

definition exec_stack :: "(Stack \<Rightarrow> Stack outcome) \<Rightarrow> ('t, 'd) executionFunc" where
  "exec_stack g V run f ev = outcome_bind (g (f_stack f)) (\<lambda>st. finish (f\<lparr>f_stack := st\<rparr>) ev)"

definition exec_push :: "(('t, 'd) venv \<Rightarrow> Frame \<Rightarrow> ('t, 'd) EVM \<Rightarrow> int) \<Rightarrow> ('t, 'd) executionFunc" where
  "exec_push v V run f ev = finish (f\<lparr>f_stack := st_push (v V f ev) (f_stack f)\<rparr>) ev"

text \<open>An instruction that replaces the top by what the account state answers for it.\<close>

definition exec_query ::
  "(('t, 'd) venv \<Rightarrow> Frame \<Rightarrow> int \<Rightarrow> ('t, 'd) EVM \<Rightarrow> (int \<times> ('t, 'd) EVM) outcome) \<Rightarrow> ('t, 'd) executionFunc" where
  "exec_query q V run f ev =
     popping (\<lambda>slot st. outcome_bind (q V f slot ev) (\<lambda>(v, ev1). finish (f\<lparr>f_stack := st_push v st\<rparr>) ev1)) (f_stack f)"

text \<open>A change of the memory by an instruction whose operands are popped.\<close>

definition set_memory :: "Memory result \<Rightarrow> Stack \<Rightarrow> Frame \<Rightarrow> ('t, 'd) EVM \<Rightarrow>
    (byte list \<times> vm_error option \<times> Frame \<times> ('t, 'd) EVM) outcome" where
  "set_memory r st f ev = outcome_bind (of_result r) (\<lambda>m. finish (f\<lparr>f_mem := m, f_stack := st\<rparr>) ev)"

definition self_address :: "Frame \<Rightarrow> AddressBytes" where
  "self_address f = c_self (f_contract f)"

definition opSha3 :: "('t, 'd) executionFunc" where
  "opSha3 V run f ev =
     popping (\<lambda>offset. popping (\<lambda>sz st.
       outcome_bind (of_result (memory_Get (big_Int64 offset) (big_Int64 sz) (f_mem f))) (\<lambda>data.
         let h = keccak256 (se_crypto (ve_senv V)) data;
             ev1 = (if ve_EnablePreimageRecording V
                    then ev\<lparr>ev_StateDB := StateDB_AddPreimage (BytesToHash h) data (ev_StateDB ev)\<rparr> else ev)
         in finish (f\<lparr>f_stack := st_push (big_SetBytes h) st\<rparr>) ev1))) (f_stack f)"

definition opAddress :: "('t, 'd) executionFunc" where
  "opAddress = exec_push (\<lambda>V f ev. AddressBytes_Big (self_address f))"

text \<open>The balance is read twice, first for the log.\<close>

definition opBalance :: "('t, 'd) executionFunc" where
  "opBalance = exec_query (\<lambda>V f slot ev.
     outcome_bind (with_state (StateDB_GetBalance (ve_senv V) (BigToAddress slot)) ev) (\<lambda>(b, ev1).
       with_state (StateDB_GetBalance (ve_senv V) (BigToAddress slot)) ev1))"

definition opOrigin :: "('t, 'd) executionFunc" where
  "opOrigin = exec_push (\<lambda>V f ev. AddressBytes_Big (cx_Origin (ve_Context V)))"

definition opCaller :: "('t, 'd) executionFunc" where
  "opCaller = exec_push (\<lambda>V f ev. AddressBytes_Big (c_CallerAddress (f_contract f)))"

definition opCallValue :: "('t, 'd) executionFunc" where
  "opCallValue = exec_push (\<lambda>V f ev. c_value (f_contract f))"

definition opCallDataLoad :: "('t, 'd) executionFunc" where
  "opCallDataLoad V run f ev =
     popping (\<lambda>start st.
       finish (f\<lparr>f_stack := st_push (big_SetBytes (getDataBig (c_Input (f_contract f)) start 32)) st\<rparr>) ev) (f_stack f)"

definition opCallDataSize :: "('t, 'd) executionFunc" where
  "opCallDataSize = exec_push (\<lambda>V f ev. int (length (c_Input (f_contract f))))"

definition opCallDataCopy :: "('t, 'd) executionFunc" where
  "opCallDataCopy V run f ev =
     popping (\<lambda>memOffset. popping (\<lambda>dataOffset. popping (\<lambda>len st.
       set_memory (memory_Set (big_Uint64 memOffset) (big_Uint64 len)
         (getDataBig (c_Input (f_contract f)) dataOffset len) (f_mem f)) st f ev))) (f_stack f)"

definition opReturnDataSize :: "('t, 'd) executionFunc" where
  "opReturnDataSize = exec_push (\<lambda>V f ev. int (length (ev_returnData ev)))"

definition opReturnDataCopy :: "('t, 'd) executionFunc" where
  "opReturnDataCopy V run f ev =
     popping (\<lambda>memOffset. popping (\<lambda>dataOffset. popping (\<lambda>len st.
       let e = dataOffset + len
       in if big_BitLen e > 64 \<or> int (length (ev_returnData ev)) < big_Uint64 e
          then Done ([], Some errReturnDataOutOfBounds, f\<lparr>f_stack := st\<rparr>, ev)
          else set_memory (memory_Set (big_Uint64 memOffset) (big_Uint64 len)
                 (slice (ev_returnData ev) (nat (big_Uint64 dataOffset)) (nat (big_Uint64 e))) (f_mem f)) st f ev))) (f_stack f)"

definition opExtCodeSize :: "('t, 'd) executionFunc" where
  "opExtCodeSize = exec_query (\<lambda>V f slot ev.
     let addr = BigToAddress slot in
     outcome_bind (with_state (StateDB_GetCodeSize (ve_senv V) addr) ev) (\<lambda>(codeSize, ev1).
       if codeSize = 0 then
         (case ve_StateQueryHelper V of
            None \<Rightarrow> Done (codeSize, ev1)
          | Some h \<Rightarrow> outcome_bind (of_result (in_state (sq_GetCodeSize h (ev_disk ev1) addr))) (\<lambda>n. Done (n, ev1)))
       else Done (codeSize, ev1)))"

definition opCodeSize :: "('t, 'd) executionFunc" where
  "opCodeSize = exec_push (\<lambda>V f ev. int (length (c_Code (f_contract f))))"

definition opCodeCopy :: "('t, 'd) executionFunc" where
  "opCodeCopy V run f ev =
     popping (\<lambda>memOffset. popping (\<lambda>codeOffset. popping (\<lambda>len st.
       set_memory (memory_Set (big_Uint64 memOffset) (big_Uint64 len)
         (getDataBig (c_Code (f_contract f)) codeOffset len) (f_mem f)) st f ev))) (f_stack f)"

definition opExtCodeCopy :: "('t, 'd) executionFunc" where
  "opExtCodeCopy V run f ev =
     popping (\<lambda>a. popping (\<lambda>memOffset. popping (\<lambda>codeOffset. popping (\<lambda>len st.
       outcome_bind (with_state (StateDB_GetCode (ve_senv V) (BigToAddress a)) ev) (\<lambda>(code, ev1).
         set_memory (memory_Set (big_Uint64 memOffset) (big_Uint64 len)
           (getDataBig (code_bytes code) codeOffset len) (f_mem f)) st f ev1))))) (f_stack f)"

definition opExtCodeHash :: "('t, 'd) executionFunc" where
  "opExtCodeHash = exec_query (\<lambda>V f slot ev.
     outcome_bind (with_state (StateDB_GetCodeHash (ve_senv V) (BigToAddress slot)) ev) (\<lambda>(h, ev1).
       Done (big_SetBytes h, ev1)))"

definition opGasprice :: "('t, 'd) executionFunc" where
  "opGasprice = exec_push (\<lambda>V f ev. cx_GasPrice (ve_Context V))"

definition opBlockhash :: "('t, 'd) executionFunc" where
  "opBlockhash V run f ev =
     popping (\<lambda>num st.
       let n = cx_BlockNumber (ve_Context V) - 257
       in finish (f\<lparr>f_stack := st_push
            (if num > n \<and> num < cx_BlockNumber (ve_Context V)
             then HashBytes_Big (cx_GetHash (ve_Context V) (big_Uint64 num)) else 0) st\<rparr>) ev) (f_stack f)"

definition opCoinbase :: "('t, 'd) executionFunc" where
  "opCoinbase = exec_push (\<lambda>V f ev. AddressBytes_Big (cx_Coinbase (ve_Context V)))"

definition opTimestamp :: "('t, 'd) executionFunc" where
  "opTimestamp = exec_push (\<lambda>V f ev. U256 (ev_Time ev))"

definition opNumber :: "('t, 'd) executionFunc" where
  "opNumber = exec_push (\<lambda>V f ev. U256 (cx_BlockNumber (ve_Context V)))"

definition opDifficulty :: "('t, 'd) executionFunc" where
  "opDifficulty V run f ev =
     (case cx_Difficulty (ve_Context V) of
        None \<Rightarrow> Crash ''nil pointer dereference''
      | Some d \<Rightarrow> finish (f\<lparr>f_stack := st_push (U256 d) (f_stack f)\<rparr>) ev)"

definition opGasLimit :: "('t, 'd) executionFunc" where
  "opGasLimit = exec_push (\<lambda>V f ev. U256 (cx_GasLimit (ve_Context V)))"

definition opMload :: "('t, 'd) executionFunc" where
  "opMload V run f ev =
     popping (\<lambda>offset st.
       outcome_bind (of_result (memory_Get (big_Int64 offset) 32 (f_mem f))) (\<lambda>data.
         finish (f\<lparr>f_stack := st_push (big_SetBytes data) st\<rparr>) ev)) (f_stack f)"

definition opMstore :: "('t, 'd) executionFunc" where
  "opMstore V run f ev =
     popping (\<lambda>mStart. popping (\<lambda>val st. set_memory (memory_Set32 (big_Uint64 mStart) val (f_mem f)) st f ev)) (f_stack f)"

definition opMstore8 :: "('t, 'd) executionFunc" where
  "opMstore8 V run f ev =
     popping (\<lambda>o1. popping (\<lambda>v1 st.
       let off = big_Int64 o1; val = big_Int64 v1; m = f_mem f
       in if off < 0 \<or> off \<ge> memory_Len m then Crash ''index out of range (memory)''
          else finish (f\<lparr>f_mem := m\<lparr>m_store := (m_store m)[nat off := byte_of (nat (val mod 256))]\<rparr>, f_stack := st\<rparr>) ev))
       (f_stack f)"

definition opSload :: "('t, 'd) executionFunc" where
  "opSload = exec_query (\<lambda>V f loc ev.
     outcome_bind (with_state (StateDB_GetState (ve_senv V) (self_address f) (BigToHash loc)) ev) (\<lambda>(h, ev1).
       Done (big_SetBytes h, ev1)))"

definition opSstore :: "('t, 'd) executionFunc" where
  "opSstore V run f ev =
     popping (\<lambda>loc. popping (\<lambda>val st.
       outcome_bind (on_state (StateDB_SetState (ve_senv V) (self_address f) (BigToHash loc) (BigToHash val)) ev)
         (finish (f\<lparr>f_stack := st\<rparr>)))) (f_stack f)"

text \<open>A jump to \<open>pos\<close>.\<close>

definition jump_to :: "int \<Rightarrow> Frame \<Rightarrow> ('t, 'd) EVM \<Rightarrow> (byte list \<times> vm_error option \<times> Frame \<times> ('t, 'd) EVM) outcome" where
  "jump_to pos f ev =
     (if \<not> destinations_has (c_Code (f_contract f)) pos
      then Done ([], Some (InvalidJump (GetOp (f_contract f) (big_Uint64 pos)) pos), f, ev)
      else finish (f\<lparr>f_pc := big_Uint64 pos\<rparr>) ev)"

definition opJump :: "('t, 'd) executionFunc" where
  "opJump V run f ev = popping (\<lambda>pos st. jump_to pos (f\<lparr>f_stack := st\<rparr>) ev) (f_stack f)"

definition opJumpi :: "('t, 'd) executionFunc" where
  "opJumpi V run f ev =
     popping (\<lambda>pos. popping (\<lambda>cond st.
       if sgn cond \<noteq> 0 then jump_to pos (f\<lparr>f_stack := st\<rparr>) ev
       else finish (f\<lparr>f_stack := st, f_pc := wrap_u64 (f_pc f + 1)\<rparr>) ev)) (f_stack f)"

definition opJumpdest :: "('t, 'd) executionFunc" where
  "opJumpdest V run f ev = finish f ev"

definition opPc :: "('t, 'd) executionFunc" where
  "opPc = exec_push (\<lambda>V f ev. f_pc f)"

definition opMsize :: "('t, 'd) executionFunc" where
  "opMsize = exec_push (\<lambda>V f ev. memory_Len (f_mem f))"

definition opGas :: "('t, 'd) executionFunc" where
  "opGas = exec_push (\<lambda>V f ev. c_Gas (f_contract f))"

subsection \<open>instructions.go: calls, logs, pushes\<close>

definition opCreate :: "('t, 'd) executionFunc" where
  "opCreate V run f ev =
     popping (\<lambda>value. popping (\<lambda>offset. popping (\<lambda>sz st.
       outcome_bind (of_result (memory_Get (big_Int64 offset) (big_Int64 sz) (f_mem f))) (\<lambda>input.
         let gas0 = c_Gas (f_contract f);
             gas = (if IsEIP150 (ve_chainConfig V) (block V) then gas0 - gas0 div 64 else gas0);
             contract = snd (UseGas gas (f_contract f))
         in outcome_bind (EVM_Create V run (ContractOf contract) input gas value ev) (\<lambda>(res, addr, returnGas, suberr, ev1).
              let top = (if IsHomestead (ve_chainConfig V) (block V) \<and> suberr = Some ErrCodeStoreOutOfGas then 0
                         else if suberr \<noteq> None \<and> suberr \<noteq> Some ErrCodeStoreOutOfGas then 0
                         else AddressBytes_Big addr)
              in Done (if suberr = Some ErrExecutionReverted then res else [], None,
                   f\<lparr>f_stack := st_push top st,
                     f_contract := contract\<lparr>c_Gas := wrap_u64 (c_Gas contract + returnGas)\<rparr>\<rparr>, ev1)))))) (f_stack f)"

definition opCreate2 :: "('t, 'd) executionFunc" where
  "opCreate2 V run f ev =
     popping (\<lambda>endowment. popping (\<lambda>offset. popping (\<lambda>sz. popping (\<lambda>salt st.
       outcome_bind (of_result (memory_Get (big_Int64 offset) (big_Int64 sz) (f_mem f))) (\<lambda>input.
         let gas0 = c_Gas (f_contract f); gas = gas0 - gas0 div 64; contract = snd (UseGas gas (f_contract f))
         in outcome_bind (EVM_Create2 V run (ContractOf contract) input gas endowment salt ev)
              (\<lambda>(res, addr, returnGas, suberr, ev1).
              Done (if suberr = Some ErrExecutionReverted then res else [], None,
                f\<lparr>f_stack := st_push (if suberr \<noteq> None then 0 else AddressBytes_Big addr) st,
                  f_contract := contract\<lparr>c_Gas := wrap_u64 (c_Gas contract + returnGas)\<rparr>\<rparr>, ev1))))))) (f_stack f)"

text \<open>The end of the four calls: success on the stack, the returned bytes in the memory, the remaining gas back.\<close>

definition end_call ::
  "int \<Rightarrow> int \<Rightarrow> Stack \<Rightarrow> Frame \<Rightarrow> byte list \<times> int \<times> vm_error option \<times> ('t, 'd) EVM \<Rightarrow>
     (byte list \<times> vm_error option \<times> Frame \<times> ('t, 'd) EVM) outcome" where
  "end_call retOffset retSize st f r =
     (case r of (ret, returnGas, err, ev) \<Rightarrow>
        outcome_bind
          (if err = None \<or> err = Some ErrExecutionReverted
           then of_result (memory_Set (big_Uint64 retOffset) (big_Uint64 retSize) ret (f_mem f))
           else Done (f_mem f)) (\<lambda>m.
          Done (ret, None,
            f\<lparr>f_mem := m, f_stack := st_push (if err = None then 1 else 0) st,
              f_contract := (f_contract f)\<lparr>c_Gas := wrap_u64 (c_Gas (f_contract f) + returnGas)\<rparr>\<rparr>, ev)))"

text \<open>
  \<open>opCall\<close> runs the callee on the account state that is loaded for it, commits that state, whatever the result, and puts
  the caller's state back.
\<close>

definition opCall :: "('t, 'd) executionFunc" where
  "opCall V run f ev =
     popping (\<lambda>_. popping (\<lambda>addr. popping (\<lambda>v. popping (\<lambda>inOffset. popping (\<lambda>inSize. popping (\<lambda>retOffset. popping (\<lambda>retSize st.
       let toAddr = BigToAddress addr; value = U256 v in
       outcome_bind (of_result (memory_Get (big_Int64 inOffset) (big_Int64 inSize) (f_mem f))) (\<lambda>args.
         case ve_StateQueryHelper V of
           None \<Rightarrow> Crash ''nil pointer dereference''
         | Some h \<Rightarrow>
             (case sq_NewEthStateLoader h (ev_disk ev) toAddr of
                None \<Rightarrow> Crash ''nil pointer dereference''
              | Some newStateDB \<Rightarrow>
                  (let prevEthDB = ev_StateDB ev;
                       gas = (if sgn value \<noteq> 0 then wrap_u64 (ev_callGasTemp ev + CallStipend) else ev_callGasTemp ev)
                   in outcome_bind (EVM_Call V run (ContractOf (f_contract f)) toAddr args gas value
                        (ev\<lparr>ev_StateDB := newStateDB\<rparr>)) (\<lambda>(ret, returnGas, err, ev1).
                      outcome_bind (of_result (in_state (sq_CommitState h (ev_disk ev1) toAddr (ev_StateDB ev1)))) (\<lambda>disk.
                        end_call retOffset retSize st f
                          (ret, returnGas, err, ev1\<lparr>ev_StateDB := prevEthDB, ev_disk := disk\<rparr>)))))))))))))
       (f_stack f)"

definition opCallCode :: "('t, 'd) executionFunc" where
  "opCallCode V run f ev =
     popping (\<lambda>_. popping (\<lambda>addr. popping (\<lambda>v. popping (\<lambda>inOffset. popping (\<lambda>inSize. popping (\<lambda>retOffset. popping (\<lambda>retSize st.
       let toAddr = BigToAddress addr; value = U256 v in
       outcome_bind (of_result (memory_Get (big_Int64 inOffset) (big_Int64 inSize) (f_mem f))) (\<lambda>args.
         let gas = (if sgn value \<noteq> 0 then wrap_u64 (ev_callGasTemp ev + CallStipend) else ev_callGasTemp ev)
         in outcome_bind (EVM_CallCode V run (ContractOf (f_contract f)) toAddr args gas value ev)
              (end_call retOffset retSize st f))))))))) (f_stack f)"

definition opDelegateCall :: "('t, 'd) executionFunc" where
  "opDelegateCall V run f ev =
     popping (\<lambda>_. popping (\<lambda>addr. popping (\<lambda>inOffset. popping (\<lambda>inSize. popping (\<lambda>retOffset. popping (\<lambda>retSize st.
       outcome_bind (of_result (memory_Get (big_Int64 inOffset) (big_Int64 inSize) (f_mem f))) (\<lambda>args.
         outcome_bind (EVM_DelegateCall V run (ContractOf (f_contract f)) (BigToAddress addr) args (ev_callGasTemp ev) ev)
           (end_call retOffset retSize st f)))))))) (f_stack f)"

definition opStaticCall :: "('t, 'd) executionFunc" where
  "opStaticCall V run f ev =
     popping (\<lambda>_. popping (\<lambda>addr. popping (\<lambda>inOffset. popping (\<lambda>inSize. popping (\<lambda>retOffset. popping (\<lambda>retSize st.
       outcome_bind (of_result (memory_Get (big_Int64 inOffset) (big_Int64 inSize) (f_mem f))) (\<lambda>args.
         outcome_bind (EVM_StaticCall V run (ContractOf (f_contract f)) (BigToAddress addr) args (ev_callGasTemp ev) ev)
           (end_call retOffset retSize st f)))))))) (f_stack f)"

definition opReturn :: "('t, 'd) executionFunc" where
  "opReturn V run f ev =
     popping (\<lambda>offset. popping (\<lambda>sz st.
       outcome_bind (of_result (memory_GetPtr (big_Int64 offset) (big_Int64 sz) (f_mem f))) (\<lambda>ret.
         Done (ret, None, f\<lparr>f_stack := st\<rparr>, ev)))) (f_stack f)"

definition opRevert :: "('t, 'd) executionFunc" where
  "opRevert V run f ev =
     popping (\<lambda>offset. popping (\<lambda>sz st.
       outcome_bind (of_result (memory_GetPtr (big_Int64 offset) (big_Int64 sz) (f_mem f))) (\<lambda>ret.
         Done (ret, None, f\<lparr>f_stack := st\<rparr>, ev)))) (f_stack f)"

definition opStop :: "('t, 'd) executionFunc" where
  "opStop V run f ev = finish f ev"

definition opSuicide :: "('t, 'd) executionFunc" where
  "opSuicide V run f ev =
     outcome_bind (with_state (StateDB_GetBalance (ve_senv V) (self_address f)) ev) (\<lambda>(balance, ev1).
       popping (\<lambda>a st.
         outcome_bind (on_state (StateDB_AddBalance (ve_senv V) (BigToAddress a) balance) ev1) (\<lambda>ev2.
         outcome_bind (with_state (StateDB_Suicide (ve_senv V) (self_address f)) ev2) (\<lambda>(_, ev3).
           finish (f\<lparr>f_stack := st\<rparr>) ev3))) (f_stack f))"

primrec pop_topics :: "nat \<Rightarrow> (HashBytes list \<Rightarrow> Stack \<Rightarrow> 'a outcome) \<Rightarrow> Stack \<Rightarrow> 'a outcome" where
  "pop_topics 0 k st = k [] st"
| "pop_topics (Suc n) k st = popping (\<lambda>t. pop_topics n (\<lambda>ts. k (BigToHash t # ts))) st"

text \<open>The fields of a log that the state fills in (\<open>StateDB_AddLog\<close>) are zero here.\<close>

definition makeLog :: "nat \<Rightarrow> ('t, 'd) executionFunc" where
  "makeLog n V run f ev =
     popping (\<lambda>mStart. popping (\<lambda>mSize. pop_topics n (\<lambda>topics st.
       outcome_bind (of_result (memory_Get (big_Int64 mStart) (big_Int64 mSize) (f_mem f))) (\<lambda>d.
         finish (f\<lparr>f_stack := st\<rparr>)
           (ev\<lparr>ev_StateDB := StateDB_AddLog
              \<lparr>l_Address = self_address f, l_Topics = topics, l_Data = d,
               l_BlockNumber = big_Uint64 (cx_BlockNumber (ve_Context V)), l_TxHash = zero_hash, l_TxIndex = 0,
               l_BlockHash = zero_hash, l_Index = 0, l_Removed = False\<rparr> (ev_StateDB ev)\<rparr>))))) (f_stack f)"

definition makePush :: "int \<Rightarrow> nat \<Rightarrow> ('t, 'd) executionFunc" where
  "makePush sz pushByteSize V run f ev =
     (let code = c_Code (f_contract f);
          codeLen = int (length code);
          next = wrap_s64 (wrap_u64 (f_pc f + 1));
          startMin = (if next < codeLen then next else codeLen);
          endMin = (if startMin + int pushByteSize < codeLen then startMin + int pushByteSize else codeLen)
      in if startMin < 0 then Crash ''slice bounds out of range''
         else finish (f\<lparr>f_stack := st_push
                (big_SetBytes (RightPadBytes (slice code (nat startMin) (nat endMin)) pushByteSize)) (f_stack f),
                f_pc := wrap_u64 (f_pc f + sz)\<rparr>) ev)"

end
