(* ===== verification/Evm_Interpreter.thy ===== *)
theory Evm_Interpreter
  imports Evm_Instructions
begin

section \<open>Jump table and interpreter: dvm/ethereum/vm/jump\_table.go, interpreter.go\<close>

text \<open>
  The four sets of instructions, as tables from numbers to operations, and the loop of the interpreter over any such
  table. \<open>exec_loop\<close> takes one unit of fuel for each instruction and gives what is left to the calls it makes.
\<close>

subsection \<open>jump\_table.go\<close>

text \<open>A number without an operation in the table is not \<open>valid\<close>.\<close>

record ('t, 'd) operation =
  op_execute :: "('t, 'd) executionFunc"
  op_gasCost :: "('t, 'd) gasFunc"
  op_validateStack :: "Stack \<Rightarrow> unit result"
  op_memorySize :: "(Stack \<Rightarrow> int result) option"
  op_halts :: bool
  op_jumps :: bool
  op_writes :: bool
  op_reverts :: bool
  op_returns :: bool

definition operation_of ::
  "('t, 'd) executionFunc \<Rightarrow> ('t, 'd) gasFunc \<Rightarrow> (Stack \<Rightarrow> unit result) \<Rightarrow> ('t, 'd) operation" where
  "operation_of e g v =
     \<lparr>op_execute = e, op_gasCost = g, op_validateStack = v, op_memorySize = None, op_halts = False, op_jumps = False,
      op_writes = False, op_reverts = False, op_returns = False\<rparr>"

definition frontier_arithmetic :: "(OpCode \<times> ('t, 'd) operation) list" where
  "frontier_arithmetic =
     [(STOP, (operation_of opStop (constGasFunc 0) (makeStackFunc 0 0))\<lparr>op_halts := True\<rparr>),
      (ADD, operation_of (exec_stack opAdd) (constGasFunc GasFastestStep) (makeStackFunc 2 1)),
      (MUL, operation_of (exec_stack opMul) (constGasFunc GasFastStep) (makeStackFunc 2 1)),
      (SUB, operation_of (exec_stack opSub) (constGasFunc GasFastestStep) (makeStackFunc 2 1)),
      (DIV, operation_of (exec_stack opDiv) (constGasFunc GasFastStep) (makeStackFunc 2 1)),
      (SDIV, operation_of (exec_stack opSdiv) (constGasFunc GasFastStep) (makeStackFunc 2 1)),
      (MOD, operation_of (exec_stack opMod) (constGasFunc GasFastStep) (makeStackFunc 2 1)),
      (SMOD, operation_of (exec_stack opSmod) (constGasFunc GasFastStep) (makeStackFunc 2 1)),
      (ADDMOD, operation_of (exec_stack opAddmod) (constGasFunc GasMidStep) (makeStackFunc 3 1)),
      (MULMOD, operation_of (exec_stack opMulmod) (constGasFunc GasMidStep) (makeStackFunc 3 1)),
      (EXP, operation_of (exec_stack opExp) gasExp (makeStackFunc 2 1)),
      (SIGNEXTEND, operation_of (exec_stack opSignExtend) (constGasFunc GasFastStep) (makeStackFunc 2 1)),
      (LT, operation_of (exec_stack opLt) (constGasFunc GasFastestStep) (makeStackFunc 2 1)),
      (GT, operation_of (exec_stack opGt) (constGasFunc GasFastestStep) (makeStackFunc 2 1)),
      (SLT, operation_of (exec_stack opSlt) (constGasFunc GasFastestStep) (makeStackFunc 2 1)),
      (SGT, operation_of (exec_stack opSgt) (constGasFunc GasFastestStep) (makeStackFunc 2 1)),
      (EQ, operation_of (exec_stack opEq) (constGasFunc GasFastestStep) (makeStackFunc 2 1)),
      (ISZERO, operation_of (exec_stack opIszero) (constGasFunc GasFastestStep) (makeStackFunc 1 1)),
      (AND, operation_of (exec_stack opAnd) (constGasFunc GasFastestStep) (makeStackFunc 2 1)),
      (XOR, operation_of (exec_stack opXor) (constGasFunc GasFastestStep) (makeStackFunc 2 1)),
      (OR, operation_of (exec_stack opOr) (constGasFunc GasFastestStep) (makeStackFunc 2 1)),
      (NOT, operation_of (exec_stack opNot) (constGasFunc GasFastestStep) (makeStackFunc 1 1)),
      (BYTE, operation_of (exec_stack opByte) (constGasFunc GasFastestStep) (makeStackFunc 2 1))]"

definition frontier_environment :: "(OpCode \<times> ('t, 'd) operation) list" where
  "frontier_environment =
     [(SHA3, (operation_of opSha3 gasSha3 (makeStackFunc 2 1))\<lparr>op_memorySize := Some memorySha3\<rparr>),
      (ADDRESS, operation_of opAddress (constGasFunc GasQuickStep) (makeStackFunc 0 1)),
      (BALANCE, operation_of opBalance gasBalance (makeStackFunc 1 1)),
      (ORIGIN, operation_of opOrigin (constGasFunc GasQuickStep) (makeStackFunc 0 1)),
      (CALLER, operation_of opCaller (constGasFunc GasQuickStep) (makeStackFunc 0 1)),
      (CALLVALUE, operation_of opCallValue (constGasFunc GasQuickStep) (makeStackFunc 0 1)),
      (CALLDATALOAD, operation_of opCallDataLoad (constGasFunc GasFastestStep) (makeStackFunc 1 1)),
      (CALLDATASIZE, operation_of opCallDataSize (constGasFunc GasQuickStep) (makeStackFunc 0 1)),
      (CALLDATACOPY, (operation_of opCallDataCopy gasCallDataCopy (makeStackFunc 3 0))\<lparr>op_memorySize := Some memoryCallDataCopy\<rparr>),
      (CODESIZE, operation_of opCodeSize (constGasFunc GasQuickStep) (makeStackFunc 0 1)),
      (CODECOPY, (operation_of opCodeCopy gasCodeCopy (makeStackFunc 3 0))\<lparr>op_memorySize := Some memoryCodeCopy\<rparr>),
      (GASPRICE, operation_of opGasprice (constGasFunc GasQuickStep) (makeStackFunc 0 1)),
      (EXTCODESIZE, operation_of opExtCodeSize gasExtCodeSize (makeStackFunc 1 1)),
      (EXTCODECOPY, (operation_of opExtCodeCopy gasExtCodeCopy (makeStackFunc 4 0))\<lparr>op_memorySize := Some memoryExtCodeCopy\<rparr>),
      (BLOCKHASH, operation_of opBlockhash (constGasFunc GasExtStep) (makeStackFunc 1 1)),
      (COINBASE, operation_of opCoinbase (constGasFunc GasQuickStep) (makeStackFunc 0 1)),
      (TIMESTAMP, operation_of opTimestamp (constGasFunc GasQuickStep) (makeStackFunc 0 1)),
      (NUMBER, operation_of opNumber (constGasFunc GasQuickStep) (makeStackFunc 0 1)),
      (DIFFICULTY, operation_of opDifficulty (constGasFunc GasQuickStep) (makeStackFunc 0 1)),
      (GASLIMIT, operation_of opGasLimit (constGasFunc GasQuickStep) (makeStackFunc 0 1))]"

definition frontier_storage :: "(OpCode \<times> ('t, 'd) operation) list" where
  "frontier_storage =
     [(POP, operation_of (exec_stack opPop) (constGasFunc GasQuickStep) (makeStackFunc 1 0)),
      (MLOAD, (operation_of opMload gasMLoad (makeStackFunc 1 1))\<lparr>op_memorySize := Some memoryMLoad\<rparr>),
      (MSTORE, (operation_of opMstore gasMStore (makeStackFunc 2 0))\<lparr>op_memorySize := Some memoryMStore\<rparr>),
      (MSTORE8, (operation_of opMstore8 gasMStore8 (makeStackFunc 2 0))\<lparr>op_memorySize := Some memoryMStore8\<rparr>),
      (SLOAD, operation_of opSload gasSLoad (makeStackFunc 1 1)),
      (SSTORE, (operation_of opSstore gasSStore (makeStackFunc 2 0))\<lparr>op_writes := True\<rparr>),
      (JUMP, (operation_of opJump (constGasFunc GasMidStep) (makeStackFunc 1 0))\<lparr>op_jumps := True\<rparr>),
      (JUMPI, (operation_of opJumpi (constGasFunc GasSlowStep) (makeStackFunc 2 0))\<lparr>op_jumps := True\<rparr>),
      (PC, operation_of opPc (constGasFunc GasQuickStep) (makeStackFunc 0 1)),
      (MSIZE, operation_of opMsize (constGasFunc GasQuickStep) (makeStackFunc 0 1)),
      (GAS, operation_of opGas (constGasFunc GasQuickStep) (makeStackFunc 0 1)),
      (JUMPDEST, operation_of opJumpdest (constGasFunc JumpdestGas) (makeStackFunc 0 0))]"

definition frontier_push :: "(OpCode \<times> ('t, 'd) operation) list" where
  "frontier_push =
     [(PUSH1, operation_of (makePush 1 1) gasPush (makeStackFunc 0 1)),
      (PUSH2, operation_of (makePush 2 2) gasPush (makeStackFunc 0 1)),
      (PUSH3, operation_of (makePush 3 3) gasPush (makeStackFunc 0 1)),
      (PUSH4, operation_of (makePush 4 4) gasPush (makeStackFunc 0 1)),
      (PUSH5, operation_of (makePush 5 5) gasPush (makeStackFunc 0 1)),
      (PUSH6, operation_of (makePush 6 6) gasPush (makeStackFunc 0 1)),
      (PUSH7, operation_of (makePush 7 7) gasPush (makeStackFunc 0 1)),
      (PUSH8, operation_of (makePush 8 8) gasPush (makeStackFunc 0 1)),
      (PUSH9, operation_of (makePush 9 9) gasPush (makeStackFunc 0 1)),
      (PUSH10, operation_of (makePush 10 10) gasPush (makeStackFunc 0 1)),
      (PUSH11, operation_of (makePush 11 11) gasPush (makeStackFunc 0 1)),
      (PUSH12, operation_of (makePush 12 12) gasPush (makeStackFunc 0 1)),
      (PUSH13, operation_of (makePush 13 13) gasPush (makeStackFunc 0 1)),
      (PUSH14, operation_of (makePush 14 14) gasPush (makeStackFunc 0 1)),
      (PUSH15, operation_of (makePush 15 15) gasPush (makeStackFunc 0 1)),
      (PUSH16, operation_of (makePush 16 16) gasPush (makeStackFunc 0 1)),
      (PUSH17, operation_of (makePush 17 17) gasPush (makeStackFunc 0 1)),
      (PUSH18, operation_of (makePush 18 18) gasPush (makeStackFunc 0 1)),
      (PUSH19, operation_of (makePush 19 19) gasPush (makeStackFunc 0 1)),
      (PUSH20, operation_of (makePush 20 20) gasPush (makeStackFunc 0 1))]"

definition frontier_push_long :: "(OpCode \<times> ('t, 'd) operation) list" where
  "frontier_push_long =
     [(PUSH21, operation_of (makePush 21 21) gasPush (makeStackFunc 0 1)),
      (PUSH22, operation_of (makePush 22 22) gasPush (makeStackFunc 0 1)),
      (PUSH23, operation_of (makePush 23 23) gasPush (makeStackFunc 0 1)),
      (PUSH24, operation_of (makePush 24 24) gasPush (makeStackFunc 0 1)),
      (PUSH25, operation_of (makePush 25 25) gasPush (makeStackFunc 0 1)),
      (PUSH26, operation_of (makePush 26 26) gasPush (makeStackFunc 0 1)),
      (PUSH27, operation_of (makePush 27 27) gasPush (makeStackFunc 0 1)),
      (PUSH28, operation_of (makePush 28 28) gasPush (makeStackFunc 0 1)),
      (PUSH29, operation_of (makePush 29 29) gasPush (makeStackFunc 0 1)),
      (PUSH30, operation_of (makePush 30 30) gasPush (makeStackFunc 0 1)),
      (PUSH31, operation_of (makePush 31 31) gasPush (makeStackFunc 0 1)),
      (PUSH32, operation_of (makePush 32 32) gasPush (makeStackFunc 0 1))]"

definition frontier_dup_swap :: "(OpCode \<times> ('t, 'd) operation) list" where
  "frontier_dup_swap =
     [(DUP1, operation_of (exec_stack (makeDup 1)) gasDup (makeDupStackFunc 1)),
      (DUP2, operation_of (exec_stack (makeDup 2)) gasDup (makeDupStackFunc 2)),
      (DUP3, operation_of (exec_stack (makeDup 3)) gasDup (makeDupStackFunc 3)),
      (DUP4, operation_of (exec_stack (makeDup 4)) gasDup (makeDupStackFunc 4)),
      (DUP5, operation_of (exec_stack (makeDup 5)) gasDup (makeDupStackFunc 5)),
      (DUP6, operation_of (exec_stack (makeDup 6)) gasDup (makeDupStackFunc 6)),
      (DUP7, operation_of (exec_stack (makeDup 7)) gasDup (makeDupStackFunc 7)),
      (DUP8, operation_of (exec_stack (makeDup 8)) gasDup (makeDupStackFunc 8)),
      (DUP9, operation_of (exec_stack (makeDup 9)) gasDup (makeDupStackFunc 9)),
      (DUP10, operation_of (exec_stack (makeDup 10)) gasDup (makeDupStackFunc 10)),
      (DUP11, operation_of (exec_stack (makeDup 11)) gasDup (makeDupStackFunc 11)),
      (DUP12, operation_of (exec_stack (makeDup 12)) gasDup (makeDupStackFunc 12)),
      (DUP13, operation_of (exec_stack (makeDup 13)) gasDup (makeDupStackFunc 13)),
      (DUP14, operation_of (exec_stack (makeDup 14)) gasDup (makeDupStackFunc 14)),
      (DUP15, operation_of (exec_stack (makeDup 15)) gasDup (makeDupStackFunc 15)),
      (DUP16, operation_of (exec_stack (makeDup 16)) gasDup (makeDupStackFunc 16)),
      (SWAP1, operation_of (exec_stack (makeSwap 1)) gasSwap (makeSwapStackFunc 2)),
      (SWAP2, operation_of (exec_stack (makeSwap 2)) gasSwap (makeSwapStackFunc 3)),
      (SWAP3, operation_of (exec_stack (makeSwap 3)) gasSwap (makeSwapStackFunc 4)),
      (SWAP4, operation_of (exec_stack (makeSwap 4)) gasSwap (makeSwapStackFunc 5)),
      (SWAP5, operation_of (exec_stack (makeSwap 5)) gasSwap (makeSwapStackFunc 6)),
      (SWAP6, operation_of (exec_stack (makeSwap 6)) gasSwap (makeSwapStackFunc 7)),
      (SWAP7, operation_of (exec_stack (makeSwap 7)) gasSwap (makeSwapStackFunc 8)),
      (SWAP8, operation_of (exec_stack (makeSwap 8)) gasSwap (makeSwapStackFunc 9))]"

definition frontier_swap_log :: "(OpCode \<times> ('t, 'd) operation) list" where
  "frontier_swap_log =
     [(SWAP9, operation_of (exec_stack (makeSwap 9)) gasSwap (makeSwapStackFunc 10)),
      (SWAP10, operation_of (exec_stack (makeSwap 10)) gasSwap (makeSwapStackFunc 11)),
      (SWAP11, operation_of (exec_stack (makeSwap 11)) gasSwap (makeSwapStackFunc 12)),
      (SWAP12, operation_of (exec_stack (makeSwap 12)) gasSwap (makeSwapStackFunc 13)),
      (SWAP13, operation_of (exec_stack (makeSwap 13)) gasSwap (makeSwapStackFunc 14)),
      (SWAP14, operation_of (exec_stack (makeSwap 14)) gasSwap (makeSwapStackFunc 15)),
      (SWAP15, operation_of (exec_stack (makeSwap 15)) gasSwap (makeSwapStackFunc 16)),
      (SWAP16, operation_of (exec_stack (makeSwap 16)) gasSwap (makeSwapStackFunc 17)),
      (LOG0, (operation_of (makeLog 0) (makeGasLog 0) (makeStackFunc 2 0))\<lparr>op_memorySize := Some memoryLog, op_writes := True\<rparr>),
      (LOG1, (operation_of (makeLog 1) (makeGasLog 1) (makeStackFunc 3 0))\<lparr>op_memorySize := Some memoryLog, op_writes := True\<rparr>),
      (LOG2, (operation_of (makeLog 2) (makeGasLog 2) (makeStackFunc 4 0))\<lparr>op_memorySize := Some memoryLog, op_writes := True\<rparr>),
      (LOG3, (operation_of (makeLog 3) (makeGasLog 3) (makeStackFunc 5 0))\<lparr>op_memorySize := Some memoryLog, op_writes := True\<rparr>),
      (LOG4, (operation_of (makeLog 4) (makeGasLog 4) (makeStackFunc 6 0))\<lparr>op_memorySize := Some memoryLog, op_writes := True\<rparr>)]"

definition frontier_system :: "(OpCode \<times> ('t, 'd) operation) list" where
  "frontier_system =
     [(CREATE, (operation_of opCreate gasCreate (makeStackFunc 3 1))\<lparr>op_memorySize := Some memoryCreate, op_writes := True, op_returns := True\<rparr>),
      (CALL, (operation_of opCall gasCall (makeStackFunc 7 1))\<lparr>op_memorySize := Some memoryCall, op_returns := True\<rparr>),
      (CALLCODE, (operation_of opCallCode gasCallCode (makeStackFunc 7 1))\<lparr>op_memorySize := Some memoryCall, op_returns := True\<rparr>),
      (RETURN, (operation_of opReturn gasReturn (makeStackFunc 2 0))\<lparr>op_memorySize := Some memoryReturn, op_halts := True\<rparr>),
      (SELFDESTRUCT, (operation_of opSuicide gasSuicide (makeStackFunc 1 0))\<lparr>op_halts := True, op_writes := True\<rparr>)]"

definition homestead_operations :: "(OpCode \<times> ('t, 'd) operation) list" where
  "homestead_operations =
     [(DELEGATECALL, (operation_of opDelegateCall gasDelegateCall (makeStackFunc 6 1))\<lparr>op_memorySize := Some memoryDelegateCall, op_returns := True\<rparr>)]"

definition byzantium_operations :: "(OpCode \<times> ('t, 'd) operation) list" where
  "byzantium_operations =
     [(STATICCALL, (operation_of opStaticCall gasStaticCall (makeStackFunc 6 1))\<lparr>op_memorySize := Some memoryStaticCall, op_returns := True\<rparr>),
      (RETURNDATASIZE, operation_of opReturnDataSize (constGasFunc GasQuickStep) (makeStackFunc 0 1)),
      (RETURNDATACOPY, (operation_of opReturnDataCopy gasReturnDataCopy (makeStackFunc 3 0))\<lparr>op_memorySize := Some memoryReturnDataCopy\<rparr>),
      (REVERT, (operation_of opRevert gasRevert (makeStackFunc 2 0))\<lparr>op_memorySize := Some memoryRevert, op_reverts := True, op_returns := True\<rparr>)]"

definition constantinople_operations :: "(OpCode \<times> ('t, 'd) operation) list" where
  "constantinople_operations =
     [(SHL, operation_of (exec_stack opSHL) (constGasFunc GasFastestStep) (makeStackFunc 2 1)),
      (SHR, operation_of (exec_stack opSHR) (constGasFunc GasFastestStep) (makeStackFunc 2 1)),
      (SAR, operation_of (exec_stack opSAR) (constGasFunc GasFastestStep) (makeStackFunc 2 1)),
      (EXTCODEHASH, operation_of opExtCodeHash gasExtCodeHash (makeStackFunc 1 1)),
      (CREATE2, (operation_of opCreate2 gasCreate2 (makeStackFunc 4 1))\<lparr>op_memorySize := Some memoryCreate2, op_writes := True, op_returns := True\<rparr>)]"

text \<open>A set of instructions; an assignment to the array replaces the entry.\<close>

definition frontierInstructionSet :: "OpCode \<Rightarrow> ('t, 'd) operation option" where
  "frontierInstructionSet = map_of
     (frontier_arithmetic @ frontier_environment @ frontier_storage @ frontier_push @ frontier_push_long @
      frontier_dup_swap @ frontier_swap_log @ frontier_system)"

definition homesteadInstructionSet :: "OpCode \<Rightarrow> ('t, 'd) operation option" where
  "homesteadInstructionSet = frontierInstructionSet ++ map_of homestead_operations"

definition ByzantiumInstructionSet :: "OpCode \<Rightarrow> ('t, 'd) operation option" where
  "ByzantiumInstructionSet = homesteadInstructionSet ++ map_of byzantium_operations"

definition ConstantinopleInstructionSet :: "OpCode \<Rightarrow> ('t, 'd) operation option" where
  "ConstantinopleInstructionSet = ByzantiumInstructionSet ++ map_of constantinople_operations"

subsection \<open>interpreter.go\<close>

definition enforceRestrictions ::
  "('t, 'd) venv \<Rightarrow> OpCode \<Rightarrow> ('t, 'd) operation \<Rightarrow> Stack \<Rightarrow> ('t, 'd) EVM \<Rightarrow> vm_error option outcome" where
  "enforceRestrictions V op oper st ev =
     (if ru_IsByzantium (ChainConfig_Rules (ve_chainConfig V) (block V)) \<and> ev_readOnly ev then
        (if op_writes oper then Done (Some errWriteProtection)
         else if op = CALL then
           outcome_bind (of_result (st_Back st 2)) (\<lambda>v. Done (if big_BitLen v > 0 then Some errWriteProtection else None))
         else Done None)
      else Done None)"

text \<open>The memory the operation asks for, in whole words; \<open>None\<close> when a size overflows.\<close>

definition requested_memory :: "('t, 'd) operation \<Rightarrow> Stack \<Rightarrow> int option outcome" where
  "requested_memory oper st =
     (case op_memorySize oper of
        None \<Rightarrow> Done (Some 0)
      | Some g \<Rightarrow>
          outcome_bind (of_result (g st)) (\<lambda>sz.
            let (memSize, overflow) = bigUint64 sz; (memorySize, overflow1) = SafeMul (toWordSize memSize) 32
            in Done (if overflow \<or> overflow1 then None else Some memorySize)))"

type_synonym ('t, 'd) run_end = "byte list \<times> vm_error option \<times> Frame \<times> ('t, 'd) EVM"

text \<open>What follows \<open>execute\<close>: the next round, or the end of the run.\<close>

definition after_execute ::
  "('t, 'd) operation \<Rightarrow> byte list \<times> vm_error option \<times> Frame \<times> ('t, 'd) EVM \<Rightarrow>
     (Frame \<times> ('t, 'd) EVM) + ('t, 'd) run_end" where
  "after_execute oper r =
     (case r of (res, err, f, ev) \<Rightarrow>
        let ev1 = (if op_returns oper then ev\<lparr>ev_returnData := res\<rparr> else ev)
        in if err \<noteq> None then Inr ([], err, f, ev1)
           else if op_reverts oper then Inr (res, Some ErrExecutionReverted, f, ev1)
           else if op_halts oper then Inr (res, None, f, ev1)
           else Inl (if op_jumps oper then f else f\<lparr>f_pc := wrap_u64 (f_pc f + 1)\<rparr>, ev1))"

text \<open>The price is paid, the memory grows, the clock is read.\<close>

definition pay_and_execute ::
  "('t, 'd) venv \<Rightarrow> ('t, 'd) runner \<Rightarrow> ('t, 'd) operation \<Rightarrow> int \<Rightarrow> Frame \<Rightarrow> ('t, 'd) EVM \<Rightarrow>
     ((Frame \<times> ('t, 'd) EVM) + ('t, 'd) run_end) outcome" where
  "pay_and_execute V run oper memorySize f ev =
     (let (cost, mem, ev1) =
        op_gasCost oper (ChainConfig_GasTable (ve_chainConfig V) (block V)) V (f_contract f) (f_stack f) (f_mem f) memorySize ev
      in case cost of
           Panic e \<Rightarrow> Crash e
         | Err e \<Rightarrow> Done (Inr ([], Some ErrOutOfGas, f\<lparr>f_mem := mem\<rparr>, ev1))
         | Ok c \<Rightarrow>
             (case UseGas c (f_contract f) of
                (False, contract) \<Rightarrow> Done (Inr ([], Some ErrOutOfGas, f\<lparr>f_mem := mem\<rparr>, ev1))
              | (True, contract) \<Rightarrow>
                  outcome_bind
                    (op_execute oper V run
                       (f\<lparr>f_contract := contract, f_mem := (if memorySize > 0 then memory_Resize memorySize mem else mem)\<rparr>)
                       (ev1\<lparr>ev_Time := ve_clock V (ev_ticks ev1), ev_ticks := ev_ticks ev1 + 1\<rparr>))
                    (\<lambda>r. Done (after_execute oper r))))"

text \<open>One round of the loop of \<open>Run\<close>.\<close>

definition interp_step ::
  "(OpCode \<Rightarrow> ('t, 'd) operation option) \<Rightarrow> ('t, 'd) venv \<Rightarrow> ('t, 'd) runner \<Rightarrow> Frame \<Rightarrow> ('t, 'd) EVM \<Rightarrow>
     ((Frame \<times> ('t, 'd) EVM) + ('t, 'd) run_end) outcome" where
  "interp_step J V run f ev =
     (let op = GetOp (f_contract f) (f_pc f) in
      case J op of
        None \<Rightarrow> Done (Inr ([], Some (InvalidOpcode op), f, ev))
      | Some oper \<Rightarrow>
          (case op_validateStack oper (f_stack f) of
             Err e \<Rightarrow> Done (Inr ([], Some (StackError e), f, ev))
           | Panic e \<Rightarrow> Crash e
           | Ok _ \<Rightarrow>
               outcome_bind (enforceRestrictions V op oper (f_stack f) ev) (\<lambda>restricted.
                 case restricted of
                   Some err \<Rightarrow> Done (Inr ([], Some err, f, ev))
                 | None \<Rightarrow>
                     outcome_bind (requested_memory oper (f_stack f)) (\<lambda>size.
                       case size of
                         None \<Rightarrow> Done (Inr ([], Some ErrGasUintOverflow, f, ev))
                       | Some memorySize \<Rightarrow> pay_and_execute V run oper memorySize f ev))))"

text \<open>\<open>Run\<close> around its loop: the depth, the return data of the last call, a contract without code.\<close>

definition run_contract ::
  "(Frame \<Rightarrow> ('t, 'd) EVM \<Rightarrow> ('t, 'd) run_end outcome) \<Rightarrow> ('t, 'd) runner" where
  "run_contract loop contract input ev =
     (let ev1 = ev\<lparr>ev_depth := ev_depth ev + 1, ev_returnData := []\<rparr>
      in if length (c_Code contract) = 0 then Done ([], None, contract, ev1\<lparr>ev_depth := ev_depth ev1 - 1\<rparr>)
         else outcome_bind
           (loop \<lparr>f_pc = 0, f_contract = contract\<lparr>c_Input := input\<rparr>, f_mem = NewMemory, f_stack = []\<rparr> ev1)
           (\<lambda>(ret, err, f, ev2). Done (ret, err, f_contract f, ev2\<lparr>ev_depth := ev_depth ev2 - 1\<rparr>)))"

primrec exec_loop ::
  "nat \<Rightarrow> (OpCode \<Rightarrow> ('t, 'd) operation option) \<Rightarrow> ('t, 'd) venv \<Rightarrow> Frame \<Rightarrow> ('t, 'd) EVM \<Rightarrow> ('t, 'd) run_end outcome" where
  "exec_loop 0 J V f ev = Timeout"
| "exec_loop (Suc n) J V f ev =
     outcome_bind (interp_step J V (run_contract (exec_loop n J V)) f ev) (\<lambda>r.
       case r of Inl (f1, ev1) \<Rightarrow> exec_loop n J V f1 ev1 | Inr e \<Rightarrow> Done e)"

definition Interpreter_Run ::
  "nat \<Rightarrow> (OpCode \<Rightarrow> ('t, 'd) operation option) \<Rightarrow> ('t, 'd) venv \<Rightarrow> ('t, 'd) runner" where
  "Interpreter_Run n J V = run_contract (exec_loop n J V)"


subsection \<open>The instruction set of a block\<close>

text \<open>The table that \<open>NewEVMInterpreter\<close> chooses when the configuration brings none of its own.\<close>

definition NewEVMInterpreter :: "('t, 'd) venv \<Rightarrow> OpCode \<Rightarrow> ('t, 'd) operation option" where
  "NewEVMInterpreter V =
     (if IsConstantinople (ve_chainConfig V) (block V) then ConstantinopleInstructionSet
      else if IsByzantium (ve_chainConfig V) (block V) then ByzantiumInstructionSet
      else if IsHomestead (ve_chainConfig V) (block V) then homesteadInstructionSet
      else frontierInstructionSet)"

end
