(* ===== verification/Evm_Words.thy ===== *)
theory Evm_Words
  imports Evm_Interpreter
begin

section \<open>The arithmetic of the machine is that of words of 256 bits\<close>

text \<open>
  \<open>word_alu\<close> is the reference: the arithmetic, comparison and bit instructions on \<open>256 word\<close>, where Isabelle's word
  operations wrap around by themselves. The code works on unbounded integers and cuts them with \<open>U256\<close> and \<open>S256\<close>.
\<close>

subsection \<open>Reference: words of 256 bits\<close>

type_synonym word256 = "256 word"

definition w_bool :: "bool \<Rightarrow> word256" where "w_bool b = (if b then 1 else 0)"

definition w_sdiv :: "word256 \<Rightarrow> word256 \<Rightarrow> word256" where
  "w_sdiv x y = word_of_int (sgn (sint x) * sgn (sint y) * (\<bar>sint x\<bar> div \<bar>sint y\<bar>))"

definition w_smod :: "word256 \<Rightarrow> word256 \<Rightarrow> word256" where
  "w_smod x y = (if y = 0 then 0 else word_of_int (sgn (sint x) * (\<bar>sint x\<bar> mod \<bar>sint y\<bar>)))"

definition w_byte :: "word256 \<Rightarrow> word256 \<Rightarrow> word256" where
  "w_byte n x = (if n < 32 then and (drop_bit (8 * (31 - unat n)) x) 0xFF else 0)"

definition w_signextend :: "word256 \<Rightarrow> word256 \<Rightarrow> word256" where
  "w_signextend k x = (if k < 31 then signed_take_bit (8 * unat k + 7) x else x)"

definition word_alu1 :: "(OpCode \<times> (word256 \<Rightarrow> word256)) list" where
  "word_alu1 = [(NOT, not), (ISZERO, \<lambda>x. w_bool (x = 0))]"

definition word_alu2 :: "(OpCode \<times> (word256 \<Rightarrow> word256 \<Rightarrow> word256)) list" where
  "word_alu2 =
     [(ADD, (+)), (MUL, (*)), (SUB, (-)), (DIV, (div)), (SDIV, w_sdiv), (MOD, \<lambda>x y. if y = 0 then 0 else x mod y),
      (SMOD, w_smod), (EXP, \<lambda>x y. x ^ unat y), (SIGNEXTEND, w_signextend),
      (LT, \<lambda>x y. w_bool (x < y)), (GT, \<lambda>x y. w_bool (x > y)), (SLT, \<lambda>x y. w_bool (sint x < sint y)),
      (SGT, \<lambda>x y. w_bool (sint x > sint y)), (EQ, \<lambda>x y. w_bool (x = y)), (AND, and), (OR, or), (XOR, xor),
      (BYTE, w_byte), (SHL, \<lambda>n x. push_bit (unat n) x), (SHR, \<lambda>n x. drop_bit (unat n) x),
      (SAR, \<lambda>n x. signed_drop_bit (unat n) x)]"

definition word_alu3 :: "(OpCode \<times> (word256 \<Rightarrow> word256 \<Rightarrow> word256 \<Rightarrow> word256)) list" where
  "word_alu3 =
     [(ADDMOD, \<lambda>x y z. if z = 0 then 0 else word_of_int ((uint x + uint y) mod uint z)),
      (MULMOD, \<lambda>x y z. if z = 0 then 0 else word_of_int ((uint x * uint y) mod uint z))]"

fun word_alu :: "OpCode \<Rightarrow> word256 list \<Rightarrow> word256 list option" where
  "word_alu op (x # y # z # ws) =
     (case map_of word_alu1 op of Some f \<Rightarrow> Some (f x # y # z # ws)
      | None \<Rightarrow> (case map_of word_alu2 op of Some f \<Rightarrow> Some (f x y # z # ws)
      | None \<Rightarrow> (case map_of word_alu3 op of Some f \<Rightarrow> Some (f x y z # ws) | None \<Rightarrow> None)))"
| "word_alu op [x, y] =
     (case map_of word_alu1 op of Some f \<Rightarrow> Some [f x, y]
      | None \<Rightarrow> (case map_of word_alu2 op of Some f \<Rightarrow> Some [f x y] | None \<Rightarrow> None))"
| "word_alu op [x] = (case map_of word_alu1 op of Some f \<Rightarrow> Some [f x] | None \<Rightarrow> None)"
| "word_alu op [] = None"

subsection \<open>The arithmetic of the code is the arithmetic of words\<close>

lemma U256_uint: "U256 v = uint (word_of_int v :: word256)"
  by (simp add: U256_mod uint_word_of_int)

lemma S256_sint: "S256 (uint x) = sint (x :: word256)"
proof -
  have u: "0 \<le> uint x" "uint x < 2 ^ 256" using uint_lt2p [of x] by simp_all
  have "sint x = signed_take_bit 255 (uint x)" by (simp add: sint_uint)
  also have "\<dots> = (uint x + 2 ^ 255) mod 2 ^ 256 - 2 ^ 255"
    by (simp add: signed_take_bit_eq_take_bit_shift take_bit_eq_mod)
  also have "\<dots> = S256 (uint x)"
  proof (cases "uint x < 2 ^ 255")
    case True
    then have "(uint x + 2 ^ 255) mod 2 ^ 256 = uint x + 2 ^ 255" using u by (intro mod_pos_pos_trivial) simp_all
    then show ?thesis using True by (simp add: S256_def tt255_def)
  next
    case False
    have "(uint x + 2 ^ 255) mod 2 ^ 256 = (uint x - 2 ^ 255 + 2 ^ 256) mod 2 ^ 256"
      by (simp add: algebra_simps)
    also have "\<dots> = uint x - 2 ^ 255" using u False by (subst mod_add_self2) (intro mod_pos_pos_trivial, simp_all)
    finally show ?thesis using False by (simp add: S256_def tt255_def tt256_def)
  qed
  finally show ?thesis by simp
qed

lemma sint_neg_iff: "sint (x :: word256) < 0 \<longleftrightarrow> tt255 \<le> uint x"
  using uint_lt2p [of x] by (auto simp: S256_sint [symmetric] S256_def tt255_def tt256_def)

lemma word_add: "U256 (uint x + uint y) = uint (x + y :: word256)"
  by (simp add: U256_uint)

lemma word_sub: "U256 (uint x - uint y) = uint (x - y :: word256)"
  by (simp add: U256_uint)

lemma word_mul: "U256 (uint x * uint y) = uint (x * y :: word256)"
  by (simp add: U256_uint)

lemma is_word_uint [simp]: "is_word (uint (x :: word256))"
  using uint_lt2p [of x] by (simp add: is_word_def)

lemma big_Div_uint: "big_Div (uint x) (uint y) = uint (x div y :: word256)"
  by (simp add: big_Div_def uint_div sgn_if less_le)

lemma big_Mod_uint: "big_Mod (uint x) (uint y) = uint (x mod y :: word256)"
  by (simp add: big_Mod_def uint_mod)

lemma sgn_uint_0 [simp]: "sgn (uint x) = 0 \<longleftrightarrow> x = (0 :: word256)"
  by (simp add: sgn_0_0 uint_0_iff)

lemma opAdd_word: "opAdd (uint x # uint y # st) = Done (uint (x + y :: word256) # st)"
  by (simp add: opAdd_def word_add)

lemma opSub_word: "opSub (uint x # uint y # st) = Done (uint (x - y :: word256) # st)"
  by (simp add: opSub_def word_sub)

lemma opMul_word: "opMul (uint x # uint y # st) = Done (uint (x * y :: word256) # st)"
  by (simp add: opMul_def word_mul)

lemma opDiv_word: "opDiv (uint x # uint y # st) = Done (uint (x div y :: word256) # st)"
  by (simp add: opDiv_def big_Div_uint)

lemma opMod_word: "opMod (uint x # uint y # st) = Done (uint (if y = 0 then 0 else x mod y :: word256) # st)"
  by (simp add: opMod_def big_Mod_uint)

lemma sint_0_iff256 [simp]: "sint x = 0 \<longleftrightarrow> x = (0 :: word256)"
  by (metis signed_0 signed_word_eqI)

lemma opSdiv_word: "opSdiv (uint x # uint y # st) = Done (uint (w_sdiv x y) # st)"
  by (auto simp: opSdiv_def Let_def S256_sint w_sdiv_def U256_uint big_Div_def sgn_if)

lemma opSmod_word: "opSmod (uint x # uint y # st) = Done (uint (w_smod x y) # st)"
  by (auto simp: opSmod_def Let_def S256_sint w_smod_def U256_uint big_Mod_def sgn_if)

lemma opExp_word: "opExp (uint x # uint y # st) = Done (uint (x ^ unat y :: word256) # st)"
proof -
  have "Exp (uint x) (uint y) = uint (word_of_int (uint x ^ unat y) :: word256)"
    using Exp_mod [of "uint y" "uint x"] by (simp only: uint_ge_0 simp_thms unat_eq_nat_uint uint_word_of_int) simp
  also have "(word_of_int (uint x ^ unat y) :: word256) = word_of_int (uint x) ^ unat y"
    by (simp only: word_of_int_power_hom [symmetric])
  finally show ?thesis by (simp add: opExp_def)
qed

lemma opLt_word: "opLt (uint x # uint y # st) = Done (uint (w_bool (x < y)) # st)"
  by (simp add: opLt_def w_bool_def word_less_def)

lemma opGt_word: "opGt (uint x # uint y # st) = Done (uint (w_bool (y < x)) # st)"
  by (simp add: opGt_def w_bool_def word_less_def)

lemma sint_alt: "sint (x :: word256) = (if uint x < tt255 then uint x else uint x - tt256)"
  by (simp only: S256_sint [symmetric] S256_def)

lemma uint_lt_tt256: "uint (x :: word256) < tt256"
  using uint_lt2p [of x] by (simp add: tt256_def)

lemma sint_less_iff: "sint (x :: word256) < sint (y :: word256) \<longleftrightarrow>
    (if tt255 \<le> uint x \<and> uint y < tt255 then True else if uint x < tt255 \<and> tt255 \<le> uint y then False else uint x < uint y)"
proof -
  have "tt256 = 2 * tt255" "0 < tt255" by (simp_all add: tt255_def tt256_def)
  then show ?thesis using uint_lt_tt256 [of x] uint_lt_tt256 [of y] uint_ge_0 [of x] uint_ge_0 [of y]
    unfolding sint_alt by (simp split: if_split; linarith)
qed

lemma opSlt_word: "opSlt (uint x # uint y # st) = Done (uint (w_bool (sint (x :: word256) < sint (y :: word256))) # st)"
  unfolding sint_less_iff by (simp add: opSlt_def w_bool_def)

lemma opSgt_word: "opSgt (uint x # uint y # st) = Done (uint (w_bool (sint (y :: word256) < sint (x :: word256))) # st)"
  unfolding sint_less_iff by (auto simp: opSgt_def w_bool_def)

lemma opEq_word: "opEq (uint x # uint y # st) = Done (uint (w_bool (x = (y :: word256))) # st)"
  by (simp add: opEq_def w_bool_def word_uint_eq_iff)

lemma opIszero_word: "opIszero (uint x # st) = Done (uint (w_bool (x = (0 :: word256))) # st)"
  by (auto simp: opIszero_def w_bool_def sgn_if uint_0_iff less_le)

lemma opNot_word: "opNot (uint x # st) = Done (uint (not x :: word256) # st)"
proof -
  have "(word_of_int (not (uint x)) :: word256) = not x"
    by (rule bit_word_eqI) (simp add: bit_word_of_int_iff bit_not_iff bit_uint_iff)
  then show ?thesis by (simp add: opNot_def U256_uint)
qed

lemma opAnd_word: "opAnd (uint x # uint y # st) = Done (uint (and x y :: word256) # st)"
  by (simp add: opAnd_def uint_and)

lemma opOr_word: "opOr (uint x # uint y # st) = Done (uint (or x y :: word256) # st)"
  by (simp add: opOr_def uint_or)

lemma opXor_word: "opXor (uint x # uint y # st) = Done (uint (xor x y :: word256) # st)"
  by (simp add: opXor_def uint_xor)

lemma opAddmod_word: "opAddmod (uint x # uint y # uint z # st) =
    Done (uint (if z = 0 then 0 else word_of_int ((uint x + uint y) mod uint z) :: word256) # st)"
  by (auto simp: opAddmod_def U256_uint big_Mod_def uint_0_iff less_le)

lemma opMulmod_word: "opMulmod (uint x # uint y # uint z # st) =
    Done (uint (if z = 0 then 0 else word_of_int ((uint x * uint y) mod uint z) :: word256) # st)"
  by (auto simp: opMulmod_def U256_uint big_Mod_def uint_0_iff less_le)

lemma big_Uint64_small: "0 \<le> v \<Longrightarrow> v < 2 ^ 64 \<Longrightarrow> big_Uint64 v = v"
  by (simp add: big_Uint64_def)

lemma shift_ge: "uint (n :: word256) \<ge> 256 \<longleftrightarrow> unat n \<ge> 256"
proof -
  have "int (unat n) = uint n" by simp
  then show ?thesis by linarith
qed

lemma shift_small: "\<not> uint n \<ge> 256 \<Longrightarrow> nat (big_Uint64 (uint n)) = unat (n :: word256)"
  using uint_ge_0 [of n] by (subst big_Uint64_small) simp_all

lemma U256_of_word [simp]: "U256 (uint n) = uint (n :: word256)"
  by simp

lemma opSHL_word: "opSHL (uint (n :: word256) # uint x # st) = Done (uint (push_bit (unat n) x :: word256) # st)"
proof (cases "uint n \<ge> 256")
  case True
  then have "256 \<le> unat n" using shift_ge by blast
  then have "push_bit (unat n) x = 0" by (intro bit_word_eqI) (simp add: bit_push_bit_iff)
  then show ?thesis using True by (simp add: opSHL_def Let_def)
next
  case False
  have "word_of_int (push_bit (unat n) (uint x)) = push_bit (unat n) x"
    by (rule bit_word_eqI) (auto simp: bit_word_of_int_iff bit_push_bit_iff bit_uint_iff)
  then show ?thesis using False shift_small [OF False] by (simp add: opSHL_def Let_def U256_uint)
qed

lemma uint_drop_bit: "uint (drop_bit m x) = drop_bit m (uint (x :: word256))"
  by (rule bit_eqI) (auto simp: bit_drop_bit_eq bit_uint_iff dest: bit_imp_le_length)

lemma uint_take_bit8: "uint (take_bit 8 (x :: word256)) = take_bit 8 (uint x)"
  by (rule bit_eqI) (auto simp: bit_take_bit_iff bit_uint_iff)

lemma opSHR_word: "opSHR (uint (n :: word256) # uint x # st) = Done (uint (drop_bit (unat n) x :: word256) # st)"
proof (cases "uint n \<ge> 256")
  case True
  then have n: "256 \<le> unat n" using shift_ge by blast
  have "\<not> bit x (unat n + i)" for i using n by (auto dest: bit_imp_le_length)
  then have "drop_bit (unat n) x = 0" by (intro bit_word_eqI) (simp add: bit_drop_bit_eq)
  then show ?thesis using True by (simp add: opSHR_def Let_def)
next
  case False
  then show ?thesis using shift_small [OF False] by (simp add: opSHR_def Let_def uint_drop_bit [symmetric])
qed

lemma sint_bounds: "- tt255 \<le> sint (x :: word256)" "sint (x :: word256) < tt255"
proof -
  have "tt256 = 2 * tt255" by (simp add: tt255_def tt256_def)
  then show "- tt255 \<le> sint x" "sint x < tt255"
    using uint_lt_tt256 [of x] uint_ge_0 [of x] unfolding sint_alt by (simp_all only: split: if_split) linarith+
qed

lemma drop_sign:
  assumes "256 \<le> k"
  shows "drop_bit k (sint (x :: word256)) = (if sint x \<ge> 0 then 0 else -1)"
proof -
  have "tt255 \<le> 2 ^ k" unfolding tt255_def using assms by (intro power_increasing) simp_all
  then have b: "- (2 ^ k) \<le> sint x" "sint x < 2 ^ k" using sint_bounds [of x] by linarith+
  show ?thesis
  proof (cases "sint x \<ge> 0")
    case True
    then show ?thesis using b by (simp add: drop_bit_eq_div div_pos_pos_trivial)
  next
    case False
    then have "sint x div 2 ^ k = -1" using b by (intro int_div_pos_eq [of _ _ _ "sint x + 2 ^ k"]) simp_all
    then show ?thesis using False by (simp add: drop_bit_eq_div)
  qed
qed

lemma opSAR_word: "opSAR (uint (n :: word256) # uint x # st) = Done (uint (signed_drop_bit (unat n) x :: word256) # st)"
proof -
  have s: "U256 (drop_bit (unat n) (sint x)) = uint (signed_drop_bit (unat n) x)"
    unfolding U256_uint by (simp add: sint_signed_drop_bit_eq [symmetric])
  show ?thesis
  proof (cases "uint n \<ge> 256")
    case True
    then have "256 \<le> unat n" using shift_ge by blast
    then have "U256 (if sgn (sint x) \<ge> 0 then 0 else -1) = uint (signed_drop_bit (unat n) x)"
      using drop_sign [of "unat n" x] s by (auto simp: sgn_if U256_id [of 0] is_word_def split: if_splits)
    then show ?thesis using True by (simp only: opSAR_def Let_def popping_simps U256_of_word S256_sint if_True pushing_simp)
  next
    case False
    then show ?thesis using s shift_small [OF False] by (simp add: opSAR_def Let_def S256_sint)
  qed
qed

lemma opByte_word: "opByte (uint (n :: word256) # uint x # st) = Done (uint (w_byte n x) # st)"
proof (cases "uint n < 32")
  case True
  have un: "int (unat n) = uint n" by simp
  have n: "n < 32" using True by (simp add: word_less_def)
  have i: "nat (big_Int64 (uint n)) = unat n"
    using True uint_ge_0 [of n] by (simp add: big_Int64_def wrap_s64_def)
  have lt: "unat n < 32" using True un by linarith
  have m: "(0xFF :: word256) = mask 8" by (simp add: mask_eq_exp_minus_1)
  have "uint (Byte (uint x) 32 (unat n)) = uint (byte_of (unat x div 256 ^ (31 - unat n)))"
    using lt by (simp add: Byte_def bigEndianByteAt_eq)
  also have "\<dots> = int (unat x div 2 ^ (8 * (31 - unat n)) mod 256)"
    unfolding uint_nat unat_byte_of power_mult by simp
  also have "\<dots> = uint x div 2 ^ (8 * (31 - unat n)) mod 256"
    by (simp add: zmod_int zdiv_int)
  also have "\<dots> = uint (take_bit 8 (drop_bit (8 * (31 - unat n)) x))"
    unfolding uint_take_bit8 uint_drop_bit by (simp add: take_bit_eq_mod drop_bit_eq_div)
  finally show ?thesis unfolding opByte_def w_byte_def m take_bit_eq_mask [symmetric] using True n i
    by (simp only: popping_simps on_top_simps if_True)
next
  case False
  then show ?thesis by (simp add: opByte_def w_byte_def word_less_def)
qed

lemma opSignExtend_word: "opSignExtend (uint (k :: word256) # uint x # st) = Done (uint (w_signextend k x) # st)"
proof (cases "uint k < 31")
  case True
  then have k: "k < 31" by (simp add: word_less_def)
  have "int (unat k) = uint k" by simp
  then have n: "nat (wrap_u64 (big_Uint64 (uint k) * 8 + 7)) = 8 * unat k + 7"
    using True uint_ge_0 [of k] by (simp add: big_Uint64_small is_u64_def nat_add_distrib nat_mult_distrib)
  let ?n = "8 * unat k + 7"
  have m: "push_bit ?n 1 - 1 = (mask ?n :: int)" by (simp only: mask_eq_exp_minus_1 push_bit_of_1)
  have "word_of_int (if bit (uint x) ?n then or (uint x) (not (mask ?n)) else and (uint x) (mask ?n)) =
      signed_take_bit ?n x"
    by (rule bit_word_eqI)
      (auto simp: bit_word_of_int_iff bit_or_iff bit_and_iff bit_not_iff bit_mask_iff bit_uint_iff bit_signed_take_bit_iff
        min_def not_le dest: bit_imp_le_length)
  then have "U256 (if bit (uint x) ?n then or (uint x) (not (mask ?n)) else and (uint x) (mask ?n)) =
      uint (signed_take_bit ?n x)" by (simp only: U256_uint)
  then show ?thesis unfolding opSignExtend_def w_signextend_def using True k
    by (simp only: popping_simps if_True Let_def n m pushing_simp)
next
  case False
  then show ?thesis by (simp add: opSignExtend_def w_signextend_def word_less_def)
qed

lemmas op_words = opAdd_word opSub_word opMul_word opDiv_word opMod_word opSdiv_word opSmod_word opExp_word opSignExtend_word
  opLt_word opGt_word opSlt_word opSgt_word opEq_word opIszero_word opNot_word opAnd_word opOr_word opXor_word
  opByte_word opSHL_word opSHR_word opSAR_word opAddmod_word opMulmod_word

lemmas instruction_tables = frontier_arithmetic_def frontier_environment_def frontier_storage_def frontier_push_def
  frontier_push_long_def frontier_dup_swap_def frontier_swap_log_def frontier_system_def homestead_operations_def
  byzantium_operations_def constantinople_operations_def

lemmas instruction_sets = ConstantinopleInstructionSet_def ByzantiumInstructionSet_def homesteadInstructionSet_def
  frontierInstructionSet_def

lemma op_execute_of [simp]:
  "op_execute (operation_of e g v) = e" "op_gasCost (operation_of e g v) = g" "op_validateStack (operation_of e g v) = v"
  "op_memorySize (operation_of e g v) = None" "\<not> op_halts (operation_of e g v)" "\<not> op_jumps (operation_of e g v)"
  "\<not> op_writes (operation_of e g v)" "\<not> op_reverts (operation_of e g v)" "\<not> op_returns (operation_of e g v)"
  by (simp_all add: operation_of_def)

subsection \<open>The arithmetic instructions on words\<close>

lemma operation_of_inj: "operation_of e g v = operation_of e' g' v' \<longleftrightarrow> e = e' \<and> g = g' \<and> v = v'"
  by (auto simp: operation_of_def)

text \<open>The operation of the table works on the stack alone, as \<open>h\<close> does.\<close>

definition stack_instruction :: "('t, 'd) venv \<Rightarrow> OpCode \<Rightarrow> (Stack \<Rightarrow> Stack outcome) \<Rightarrow> bool" where
  "stack_instruction V op h \<longleftrightarrow>
     (\<exists>c v. ConstantinopleInstructionSet op = Some (operation_of (exec_stack h) c v :: ('t, 'd) operation))"

lemma alu_lookup:
  "stack_instruction V NOT opNot"
  "stack_instruction V ISZERO opIszero"
  "stack_instruction V ADD opAdd"
  "stack_instruction V MUL opMul"
  "stack_instruction V SUB opSub"
  "stack_instruction V DIV opDiv"
  "stack_instruction V SDIV opSdiv"
  "stack_instruction V MOD opMod"
  "stack_instruction V SMOD opSmod"
  "stack_instruction V EXP opExp"
  "stack_instruction V SIGNEXTEND opSignExtend"
  "stack_instruction V LT opLt"
  "stack_instruction V GT opGt"
  "stack_instruction V SLT opSlt"
  "stack_instruction V SGT opSgt"
  "stack_instruction V EQ opEq"
  "stack_instruction V AND opAnd"
  "stack_instruction V OR opOr"
  "stack_instruction V XOR opXor"
  "stack_instruction V BYTE opByte"
  "stack_instruction V SHL opSHL"
  "stack_instruction V SHR opSHR"
  "stack_instruction V SAR opSAR"
  "stack_instruction V ADDMOD opAddmod"
  "stack_instruction V MULMOD opMulmod"
  by (simp_all add: stack_instruction_def instruction_sets instruction_tables opcode_defs map_add_def operation_of_inj)


lemma stack_op:
  assumes "stack_instruction V op h" "h (f_stack f) = Done st"
  shows "\<exists>oper. ConstantinopleInstructionSet op = Some oper \<and> op_execute oper V run f ev = Done ([], None, f\<lparr>f_stack := st\<rparr>, ev)"
  using assms by (auto simp: stack_instruction_def exec_stack_def finish_def)

lemma word_alu1_op:
  assumes "map_of word_alu1 op = Some g"
  shows "\<exists>h. stack_instruction V op h \<and>
    (\<forall>x st. h (uint x # st) = Done (uint (g x) # st))"
  using assms [THEN map_of_SomeD] unfolding word_alu1_def list.set insert_iff prod.inject empty_iff HOL.simp_thms
  by - (elim disjE conjE, (simp only:, rule exI, rule conjI, rule alu_lookup, intro allI, rule op_words)+)

lemma word_alu2_op:
  assumes "map_of word_alu2 op = Some g"
  shows "\<exists>h. stack_instruction V op h \<and>
    (\<forall>x y st. h (uint x # uint y # st) = Done (uint (g x y) # st))"
  using assms [THEN map_of_SomeD] unfolding word_alu2_def list.set insert_iff prod.inject empty_iff HOL.simp_thms
  by - (elim disjE conjE, (simp only:, rule exI, rule conjI, rule alu_lookup, intro allI, rule op_words)+)

lemma word_alu3_op:
  assumes "map_of word_alu3 op = Some g"
  shows "\<exists>h. stack_instruction V op h \<and>
    (\<forall>x y z st. h (uint x # uint y # uint z # st) = Done (uint (g x y z) # st))"
  using assms [THEN map_of_SomeD] unfolding word_alu3_def list.set insert_iff prod.inject empty_iff HOL.simp_thms
  by - (elim disjE conjE, (simp only:, rule exI, rule conjI, rule alu_lookup, intro allI, rule op_words)+)


text \<open>A step of the machine on words is the step of the words.\<close>

lemma word_alu_step:
  assumes "word_alu op ws = Some ws'"
  shows "\<exists>h. stack_instruction V op h \<and> h (map uint ws) = Done (map uint ws')"
  using assms
proof (induction op ws rule: word_alu.induct)
  case (1 op x y z ws)
  consider g where "map_of word_alu1 op = Some g" | g where "map_of word_alu1 op = None" "map_of word_alu2 op = Some g"
    | g where "map_of word_alu1 op = None" "map_of word_alu2 op = None" "map_of word_alu3 op = Some g"
    using 1 by (auto split: option.splits)
  then show ?case
  proof cases
    case (1 g)
    then show ?thesis using "1.prems" word_alu1_op [OF 1, of V] by auto
  next
    case (2 g)
    then show ?thesis using "1.prems" word_alu2_op [OF 2(2), of V] by auto
  next
    case (3 g)
    then show ?thesis using "1.prems" word_alu3_op [OF 3(3), of V] by auto
  qed
next
  case (2 op x y)
  consider g where "map_of word_alu1 op = Some g" | g where "map_of word_alu1 op = None" "map_of word_alu2 op = Some g"
    using 2 by (auto split: option.splits)
  then show ?case
  proof cases
    case (1 g)
    then show ?thesis using "2.prems" word_alu1_op [OF 1, of V] by auto
  next
    case (2 g)
    then show ?thesis using "2.prems" word_alu2_op [OF 2(2), of V] by auto
  qed
next
  case (3 op x)
  then obtain g where g: "map_of word_alu1 op = Some g" by (auto split: option.splits)
  then show ?case using 3 word_alu1_op [OF g, of V] by auto
qed simp

text \<open>C36. The arithmetic, comparison and bit instructions of the code, on integers with their wrap-around written out, compute
  what the same instructions compute on words of 256 bits: for each of the 25 opcodes of \<open>word_alu\<close>
  the operation that the jump table holds turns a stack of words into the stack that the reference gives.\<close>

theorem arithmetic_is_word_arithmetic:
  assumes "word_alu op ws = Some ws'" "f_stack f = map uint ws"
  shows "\<exists>oper. ConstantinopleInstructionSet op = Some oper \<and>
    op_execute oper V run f ev = Done ([], None, f\<lparr>f_stack := map uint ws'\<rparr>, ev)"
proof -
  obtain h where "stack_instruction V op h" "h (map uint ws) = Done (map uint ws')"
    using word_alu_step [OF assms(1), of V] by blast
  then show ?thesis using assms(2) by (metis stack_op)
qed

text \<open>\<open>SDIV\<close> of \<open>-8\<close> by 3 is \<open>-2\<close>.\<close>

theorem arithmetic_is_word_arithmetic_witness:
  "\<forall>V run c ev. \<exists>oper. (ConstantinopleInstructionSet :: OpCode \<Rightarrow> (Trie, unit) operation option) SDIV = Some oper \<and>
    op_execute oper V run \<lparr>f_pc = 0, f_contract = c, f_mem = NewMemory, f_stack = [2 ^ 256 - 8, 3]\<rparr> ev =
      Done ([], None, \<lparr>f_pc = 0, f_contract = c, f_mem = NewMemory, f_stack = [2 ^ 256 - 2]\<rparr>, ev)"
proof (intro allI)
  fix V :: "(Trie, unit) venv" and run c ev
  have a: "word_alu SDIV [-8, 3] = Some [-2]" by code_simp
  have u: "uint (-8 :: word256) = 2 ^ 256 - 8" "uint (3 :: word256) = 3" "uint (-2 :: word256) = 2 ^ 256 - 2" by simp_all
  let ?f = "\<lparr>f_pc = 0, f_contract = c, f_mem = NewMemory, f_stack = [2 ^ 256 - 8, 3]\<rparr>"
  show "\<exists>oper. ConstantinopleInstructionSet SDIV = Some oper \<and> op_execute oper V run ?f ev =
      Done ([], None, \<lparr>f_pc = 0, f_contract = c, f_mem = NewMemory, f_stack = [2 ^ 256 - 2]\<rparr>, ev)"
    using arithmetic_is_word_arithmetic [OF a, of ?f V run ev] by (simp add: u)
qed

end
