(* ===== verification/Evm_Fuel.thy ===== *)
theory Evm_Fuel
  imports Evm_Interpreter
begin

section \<open>Fuel does not decide results\<close>

text \<open>
  \<open>below r r'\<close>: the outcome \<open>r\<close> ran out of fuel, or it is \<open>r'\<close>.  Every definition of the machine is monotone in the
  interpreter that runs the nested code, so a run with more fuel gives the same result, if it gave one.
\<close>

definition below :: "'a outcome \<Rightarrow> 'a outcome \<Rightarrow> bool" where
  "below r r' \<longleftrightarrow> r = Timeout \<or> r = r'"

lemma below_refl [simp]: "below r r" "below Timeout r"
  by (simp_all add: below_def)

lemma below_bind: "below r r' \<Longrightarrow> (\<And>x. below (k x) (k' x)) \<Longrightarrow> below (outcome_bind r k) (outcome_bind r' k')"
  unfolding below_def by (cases r) (auto, metis)

lemma below_trans: "below a b \<Longrightarrow> below b c \<Longrightarrow> below a c"
  by (auto simp: below_def)

lemma below_popping: "(\<And>x st'. below (k x st') (k' x st')) \<Longrightarrow> below (popping k st) (popping k' st)"
  by (cases st) simp_all

lemma below_if: "below x x' \<Longrightarrow> below y y' \<Longrightarrow> below (if b then x else y) (if b then x' else y')"
  by simp

lemma below_option: "below x x' \<Longrightarrow> (\<And>a. below (f a) (f' a)) \<Longrightarrow>
    below (case p of None \<Rightarrow> x | Some a \<Rightarrow> f a) (case p of None \<Rightarrow> x' | Some a \<Rightarrow> f' a)"
  by (cases p) simp_all

lemma below_pair: "(\<And>a b. below (f a b) (f' a b)) \<Longrightarrow> below (case p of (a, b) \<Rightarrow> f a b) (case p of (a, b) \<Rightarrow> f' a b)"
  by (cases p) simp

lemma below_let: "(\<And>x. below (f x) (f' x)) \<Longrightarrow> below (let x = v in f x) (let x = v in f' x)"
  by simp

lemmas below_rules = below_bind below_popping below_if below_option below_pair below_let below_refl

definition runner_below :: "('t, 'd) runner \<Rightarrow> ('t, 'd) runner \<Rightarrow> bool" where
  "runner_below run run' \<longleftrightarrow> (\<forall>c inp ev. below (run c inp ev) (run' c inp ev))"

lemma EVM_run_below: "runner_below run run' \<Longrightarrow> below (EVM_run V run c inp ev) (EVM_run V run' c inp ev)"
  unfolding EVM_run_def by (intro below_rules) (simp add: runner_below_def)

lemma calls_below:
  assumes "runner_below run run'"
  shows "below (EVM_Call V run caller addr inp gas value ev) (EVM_Call V run' caller addr inp gas value ev)"
    "below (EVM_CallCode V run caller addr inp gas value ev) (EVM_CallCode V run' caller addr inp gas value ev)"
    "below (EVM_DelegateCall V run caller addr inp gas ev) (EVM_DelegateCall V run' caller addr inp gas ev)"
    "below (EVM_StaticCall V run caller addr inp gas ev) (EVM_StaticCall V run' caller addr inp gas ev)"
    "below (EVM_create V run caller code gas value addr ev) (EVM_create V run' caller code gas value addr ev)"
  unfolding EVM_Call_def EVM_CallCode_def EVM_DelegateCall_def EVM_StaticCall_def EVM_create_def
  by (intro below_rules EVM_run_below assms)+

lemma creates_below:
  assumes "runner_below run run'"
  shows "below (EVM_Create V run caller code gas value ev) (EVM_Create V run' caller code gas value ev)"
    "below (EVM_Create2 V run caller code gas endowment salt ev) (EVM_Create2 V run' caller code gas endowment salt ev)"
  unfolding EVM_Create_def EVM_Create2_def by (intro below_rules calls_below assms)+

definition steady :: "('t, 'd) executionFunc \<Rightarrow> bool" where
  "steady e \<longleftrightarrow> (\<forall>V run run' f ev. runner_below run run' \<longrightarrow> below (e V run f ev) (e V run' f ev))"

lemma steadyI: "(\<And>V run run' f ev. runner_below run run' \<Longrightarrow> below (e V run f ev) (e V run' f ev)) \<Longrightarrow> steady e"
  by (simp add: steady_def)

lemma steady_exec [simp]: "steady (exec_stack g)" "steady (exec_push p)" "steady (exec_query q)"
  by (simp_all add: steady_def exec_stack_def exec_push_def exec_query_def)

lemma steady_ops [simp]:
  "steady opSha3" "steady opCallDataCopy" "steady opReturnDataCopy" "steady opCodeCopy" "steady opExtCodeCopy" "steady opMstore"
  "steady opMstore8" "steady opSstore" "steady opJump" "steady opJumpi" "steady opJumpdest" "steady opReturn" "steady opRevert" "steady opStop"
  "steady opSuicide" "steady (makeLog n)" "steady (makePush sz b)"
  by (simp_all add: steady_def opSha3_def opCallDataCopy_def opReturnDataCopy_def opCodeCopy_def opExtCodeCopy_def opMstore_def
    opMstore8_def opSstore_def opJump_def opJumpi_def opJumpdest_def opReturn_def opRevert_def opStop_def opSuicide_def makeLog_def makePush_def)

lemma steady_calls [simp]:
  "steady opCreate" "steady opCreate2" "steady opCall" "steady opCallCode" "steady opDelegateCall" "steady opStaticCall"
  unfolding opCreate_def opCreate2_def opCall_def opCallCode_def opDelegateCall_def opStaticCall_def
  by (intro steadyI below_rules calls_below creates_below; assumption)+

lemma steady_pushes [simp]:
  "steady opAddress" "steady opBalance" "steady opOrigin" "steady opCaller" "steady opCallValue" "steady opCallDataLoad"
  "steady opCallDataSize" "steady opReturnDataSize" "steady opExtCodeSize" "steady opCodeSize" "steady opExtCodeHash" "steady opGasprice" "steady opBlockhash"
  "steady opCoinbase" "steady opTimestamp" "steady opNumber" "steady opDifficulty" "steady opGasLimit" "steady opMload" "steady opSload"
  "steady opPc" "steady opMsize" "steady opGas"
  by (simp_all add: steady_def opAddress_def opBalance_def opOrigin_def opCaller_def opCallValue_def opCallDataLoad_def exec_push_def exec_query_def
    opCallDataSize_def opReturnDataSize_def opExtCodeSize_def opCodeSize_def opExtCodeHash_def opGasprice_def opBlockhash_def
    opCoinbase_def opTimestamp_def opNumber_def opDifficulty_def opGasLimit_def opMload_def opSload_def opPc_def opMsize_def opGas_def)

definition table_steady :: "(OpCode \<Rightarrow> ('t, 'd) operation option) \<Rightarrow> bool" where
  "table_steady J \<longleftrightarrow> (\<forall>op oper. J op = Some oper \<longrightarrow> steady (op_execute oper))"

lemma table_steady_map_of: "list_all (\<lambda>p. steady (op_execute (snd p))) t \<Longrightarrow> table_steady (map_of t)"
  by (fastforce simp: table_steady_def list_all_iff dest: map_of_SomeD)

lemma table_steady_add: "table_steady J \<Longrightarrow> table_steady J' \<Longrightarrow> table_steady (J ++ J')"
  by (auto simp: table_steady_def map_add_Some_iff)

lemma sel_operation [simp]: "op_execute (operation_of e g v) = e"
  by (simp add: operation_of_def)

lemma instruction_sets_steady:
  "table_steady frontierInstructionSet" "table_steady homesteadInstructionSet" "table_steady ByzantiumInstructionSet"
  "table_steady ConstantinopleInstructionSet"
proof -
  show f: "table_steady frontierInstructionSet"
    unfolding frontierInstructionSet_def frontier_arithmetic_def frontier_environment_def frontier_storage_def frontier_push_def
      frontier_push_long_def frontier_dup_swap_def frontier_swap_log_def frontier_system_def
    by (rule table_steady_map_of) simp
  show h: "table_steady homesteadInstructionSet"
    unfolding homesteadInstructionSet_def homestead_operations_def by (intro table_steady_add f table_steady_map_of) simp
  show b: "table_steady ByzantiumInstructionSet"
    unfolding ByzantiumInstructionSet_def byzantium_operations_def by (intro table_steady_add h table_steady_map_of) simp
  show "table_steady ConstantinopleInstructionSet"
    unfolding ConstantinopleInstructionSet_def constantinople_operations_def by (intro table_steady_add b table_steady_map_of) simp
qed

lemma NewEVMInterpreter_steady: "table_steady (NewEVMInterpreter V)"
  by (simp add: NewEVMInterpreter_def instruction_sets_steady)

lemma interp_step_below:
  assumes "table_steady J" "runner_below run run'"
  shows "below (interp_step J V run f ev) (interp_step J V run' f ev)"
proof -
  have "below (pay_and_execute V run oper ms f ev) (pay_and_execute V run' oper ms f ev)" if "steady (op_execute oper)" for oper ms
    using that assms(2) unfolding pay_and_execute_def steady_def
    by (auto simp: Let_def split: prod.split result.split bool.split intro!: below_bind)
  then show ?thesis
    using assms(1) unfolding interp_step_def Let_def table_steady_def
    by (auto split: option.split result.split intro!: below_bind)
qed

lemma run_contract_below:
  "(\<And>f ev. below (loop f ev) (loop' f ev)) \<Longrightarrow> runner_below (run_contract loop) (run_contract loop')"
  unfolding runner_below_def run_contract_def by (intro allI below_rules)

lemma exec_loop_below:
  assumes "table_steady J" shows "n \<le> m \<Longrightarrow> below (exec_loop n J V f ev) (exec_loop m J V f ev)"
proof (induction n arbitrary: m f ev)
  case (Suc n)
  then obtain m' where m: "m = Suc m'" "n \<le> m'" by (cases m) auto
  have "below (case r of Inl (f1, ev1) \<Rightarrow> exec_loop n J V f1 ev1 | Inr e \<Rightarrow> Done e)
      (case r of Inl (f1, ev1) \<Rightarrow> exec_loop m' J V f1 ev1 | Inr e \<Rightarrow> Done e)" for r
    using Suc.IH m(2) by (auto split: sum.split)
  then show ?case unfolding m(1) exec_loop.simps
    by (intro below_bind interp_step_below assms run_contract_below) (use Suc.IH m(2) in auto)
qed simp

lemma Interpreter_Run_fuel:
  assumes "table_steady J" "n \<le> m" "Interpreter_Run n J V c inp ev \<noteq> Timeout"
  shows "Interpreter_Run m J V c inp ev = Interpreter_Run n J V c inp ev"
proof -
  have "runner_below (run_contract (exec_loop n J V)) (run_contract (exec_loop m J V))"
    by (rule run_contract_below) (rule exec_loop_below [OF assms(1,2)])
  then have "below (Interpreter_Run n J V c inp ev) (Interpreter_Run m J V c inp ev)"
    by (simp add: runner_below_def Interpreter_Run_def)
  then show ?thesis using assms(3) by (auto simp: below_def)
qed

end
