(* ===== verification/Evm_Calls.thy ===== *)
theory Evm_Calls
  imports Evm_Words Evm_Fuel
begin

section \<open>Calls between contracts\<close>

text \<open>
  What every operation of the machine (\<open>dvm/ethereum/vm/evm.go\<close>) keeps, as a calculus for the definitions of
  Evm and Evm_Interpreter.  \<open>meets T P r\<close> is the total-correctness judgement: \<open>r\<close> ends with a value that satisfies
  \<open>P\<close>, or with a panic that is not a read below the stack; \<open>T\<close> says whether the fuel may run out.  Its rules
  follow the combinators that the definitions are made of.  In the locale of the account tries, \<open>moved k ev ev'\<close> says
  that the machine went from \<open>ev\<close> to \<open>ev'\<close> with its state well formed and its journal only grown, and changed of the
  accounts what the effect \<open>k\<close> lets it; \<open>runs T V g run\<close> is what the calls need of the interpreter they hand a contract
  to.  The theory shows that every kind of call and of creation, given such an interpreter, moves the machine, returns
  at most the gas it was given, and leaves the accounts as they were when it returns an error.
\<close>

subsection \<open>Outcomes\<close>

definition meets :: "bool \<Rightarrow> ('a \<Rightarrow> bool) \<Rightarrow> 'a outcome \<Rightarrow> bool" where
  "meets T P r = (case r of Done x \<Rightarrow> P x | Crash e \<Rightarrow> e \<noteq> stack_panic | Timeout \<Rightarrow> T)"

lemma meets_simps [simp]:
  "meets T P (Done x) = P x" "meets T P (Crash e) = (e \<noteq> stack_panic)" "meets T P Timeout = T"
  by (simp_all add: meets_def)

lemma meets_bind:
  assumes "meets T Q r" "\<And>x. r = Done x \<Longrightarrow> Q x \<Longrightarrow> meets T P (k x)" shows "meets T P (outcome_bind r k)"
  using assms by (cases r) auto

lemma meets_mono: "meets T Q r \<Longrightarrow> (\<And>x. Q x \<Longrightarrow> P x) \<Longrightarrow> meets T P r"
  by (cases r) auto

text \<open>A panic other than the stack's.\<close>

definition calm :: "'a result \<Rightarrow> bool" where
  "calm r \<longleftrightarrow> r \<noteq> Panic stack_panic \<and> r \<noteq> Err stack_panic"

lemma calm_simps [simp]: "calm (Ok x)" "calm (Err e) = (e \<noteq> stack_panic)" "calm (Panic e) = (e \<noteq> stack_panic)"
  by (simp_all add: calm_def)

lemma calm_in_state [simp]: "calm (in_state r)"
  by (cases r) (simp_all add: calm_def in_state_def stack_panic_def)

lemma calm_bind: "calm r \<Longrightarrow> (\<And>x. r = Ok x \<Longrightarrow> calm (f x)) \<Longrightarrow> calm (result_bind r f)"
  by (cases r) auto

lemma meets_of_result: "calm r \<Longrightarrow> (\<And>x. r = Ok x \<Longrightarrow> P x) \<Longrightarrow> meets T P (of_result r)"
  by (cases r) auto

lemma meets_bind_result:
  "calm r \<Longrightarrow> (\<And>x. r = Ok x \<Longrightarrow> meets T P (k x)) \<Longrightarrow> meets T P (outcome_bind (of_result r) k)"
  by (cases r) auto

lemma meets_popping:
  "0 < length st \<Longrightarrow> (\<And>x st'. st = x # st' \<Longrightarrow> meets T P (k x st')) \<Longrightarrow> meets T P (popping k st)"
  by (cases st) auto

lemma meets_if:
  "(b \<Longrightarrow> meets T P x) \<Longrightarrow> (\<not> b \<Longrightarrow> meets T P y) \<Longrightarrow> meets T P (if b then x else y)"
  by simp

lemma meets_bind_if:
  "(b \<Longrightarrow> meets T P (outcome_bind x k)) \<Longrightarrow> (\<not> b \<Longrightarrow> meets T P (outcome_bind y k)) \<Longrightarrow>
     meets T P (outcome_bind (if b then x else y) k)"
  by simp

lemma meets_bind_Done: "meets T P (k x) \<Longrightarrow> meets T P (outcome_bind (Done x) k)"
  by simp

lemma calm_memory [simp]:
  "calm (memory_Set a n v m)" "calm (memory_Set32 a n' m)" "calm (memory_Get a n m)" "calm (memory_GetPtr a n m)"
  by (simp_all add: memory_Set_def memory_Set32_def memory_Get_def memory_GetPtr_def Let_def stack_panic_def)

lemma calm_Back: "n < length st \<Longrightarrow> calm (st_Back st n)"
  by (simp add: st_Back_def)

lemma calm_checked: "(\<And>x. calm (k x)) \<Longrightarrow> calm (checked p k)"
  by (simp add: checked_def errGasUintOverflow_def stack_panic_def)

subsection \<open>The account state\<close>

text \<open>What a contract that may not write must leave as it is: all but the preimages, which \<open>SHA3\<close> records.\<close>

definition visible :: "state_view \<Rightarrow> state_view" where
  "visible A = A\<lparr>sv_preimages := Map.empty\<rparr>"

context account_tries
begin

definition reads :: "('a \<times> 't StateDB) result \<Rightarrow> 't StateDB \<Rightarrow> bool" where
  "reads r st \<longleftrightarrow> (\<exists>x st1. r = Ok (x, st1) \<and> does E look tr_ok st st1 \<and> state_abs E look st1 = state_abs E look st)"

lemma read_object_reads:
  assumes "accounts_ok E look tr_ok st" shows "reads (read_object E a d f st) st"
proof -
  obtain p st0 where "getStateObject E a st = Ok (p, st0)" "accounts_ok E look tr_ok st0" "frame st st0"
    "sd_entries st0 = sd_entries st" "state_abs E look st0 = state_abs E look st"
    using getStateObject_ok [OF assms, of a] by blast
  then show ?thesis by (auto simp: reads_def read_object_def intro: does_none)
qed

lemma load_reads:
  assumes "accounts_ok E look tr_ok st"
    and "\<And>st1 s. object_ok E look tr_ok a s \<Longrightarrow> \<exists>v s1. f st1 s = Ok (v, s1) \<and> object_ok E look tr_ok a s1 \<and>
      so_deleted s1 = so_deleted s \<and>
      abs_object E look (ContractCode E st1) a s1 = abs_object E look (ContractCode E st1) a s"
  shows "reads (result_bind (getStateObject E a st) (\<lambda>(p, st1).
       case p of None \<Rightarrow> Ok (d, st1)
       | Some k \<Rightarrow> result_bind (f st1 (object_at st1 k)) (\<lambda>(v, s). Ok (v, put_object k s st1)))) st"
proof -
  obtain p st0 where g: "getStateObject E a st = Ok (p, st0)" "accounts_ok E look tr_ok st0" "frame st st0"
    "sd_entries st0 = sd_entries st" "state_abs E look st0 = state_abs E look st"
    "case sv_accounts (state_abs E look st) a of None \<Rightarrow> p = None
     | Some v \<Rightarrow> p = Some a \<and> (\<exists>s. sd_StateObjects st0 a = Some s \<and> \<not> so_deleted s \<and> object_ok E look tr_ok a s \<and>
         abs_object E look (ContractCode E st) a s = v)"
    using getStateObject_ok [OF assms(1)] by blast
  have d0: "does E look tr_ok st st0" using g by (intro does_none) simp_all
  show ?thesis
  proof (cases p)
    case None
    then show ?thesis using g(1,5) d0 by (simp add: reads_def)
  next
    case (Some k)
    then obtain s where s: "k = a" "has st0 a s" using g(2,6) by (auto simp: has_def split: option.splits)
    then obtain v s1 where f: "f st0 s = Ok (v, s1)" "object_ok E look tr_ok a s1" "so_deleted s1 = so_deleted s"
      "abs_object E look (ContractCode E st0) a s1 = abs_object E look (ContractCode E st0) a s"
      using assms(2) [of s st0] by (auto simp: has_def)
    have same: "state_abs E look (put_object a s1 st0) = state_abs E look st0"
      using s(2) f has_abs [OF s(2)] by (simp add: has_def put_object_abs with_account_same)
    show ?thesis using g(1,5) Some s f(1) same does_trans [OF d0 put_same_abs [OF s(2) f(2,3,4)]] by (simp add: reads_def)
  qed
qed

lemma GetState_reads: "accounts_ok E look tr_ok st \<Longrightarrow> reads (StateDB_GetState E a key st) st"
  unfolding StateDB_GetState_def
proof (rule load_reads [where f = "\<lambda>st1. stateObject_GetState E key"])
  fix st1 s
  assume "object_ok E look tr_ok a s"
  from GetState_ok [OF this, where key = key and cc = "ContractCode E st1"]
  show "\<exists>v s1. stateObject_GetState E key s = Ok (v, s1) \<and> object_ok E look tr_ok a s1 \<and> so_deleted s1 = so_deleted s \<and>
      abs_object E look (ContractCode E st1) a s1 = abs_object E look (ContractCode E st1) a s" by metis
qed

lemma GetCode_reads: "accounts_ok E look tr_ok st \<Longrightarrow> reads (StateDB_GetCode E a st) st"
  unfolding StateDB_GetCode_def
proof (rule load_reads [where f = "stateObject_Code E"])
  fix st1 s
  assume "object_ok E look tr_ok a s"
  from Code_ok [OF this, where st = st1]
  show "\<exists>v s1. stateObject_Code E st1 s = Ok (v, s1) \<and> object_ok E look tr_ok a s1 \<and> so_deleted s1 = so_deleted s \<and>
      abs_object E look (ContractCode E st1) a s1 = abs_object E look (ContractCode E st1) a s" by metis
qed

lemma setError_reads:
  assumes "accounts_ok E look tr_ok st"
  shows "does E look tr_ok st (StateDB_setError e st)" "state_abs E look (StateDB_setError e st) = state_abs E look st"
proof -
  show same: "state_abs E look (StateDB_setError e st) = state_abs E look st" by (rule state_abs_cong) simp_all
  show "does E look tr_ok st (StateDB_setError e st)"
    using assms same by (intro does_none) (auto simp: accounts_ok_def frame_def)
qed

lemma GetCodeSize_reads:
  assumes "accounts_ok E look tr_ok st" shows "reads (StateDB_GetCodeSize E a st) st"
proof -
  obtain p st0 where g: "getStateObject E a st = Ok (p, st0)" "accounts_ok E look tr_ok st0" "frame st st0"
    "sd_entries st0 = sd_entries st" "state_abs E look st0 = state_abs E look st"
    "case sv_accounts (state_abs E look st) a of None \<Rightarrow> p = None
     | Some v \<Rightarrow> p = Some a \<and> (\<exists>s. sd_StateObjects st0 a = Some s \<and> \<not> so_deleted s \<and> object_ok E look tr_ok a s \<and>
         abs_object E look (ContractCode E st) a s = v)"
    using getStateObject_ok [OF assms(1)] by blast
  have d0: "does E look tr_ok st st0" using g by (intro does_none) simp_all
  note e0 = does_trans [OF d0 setError_reads(1) [OF g(2)]] setError_reads(2) [OF g(2)]
  show ?thesis
  proof (cases p)
    case None
    then show ?thesis using g(1,5) d0 by (simp add: reads_def StateDB_GetCodeSize_def)
  next
    case (Some k)
    then obtain s where s: "k = a" "sd_StateObjects st0 a = Some s" "GetAddressBytes (a_Address (so_account s)) = Ok a"
      using g(2,6) by (auto simp: object_ok_def split: option.splits)
    show ?thesis
      using g(1,5) d0 e0 Some s ContractCode_no_panic [of st0]
      by (auto simp: reads_def StateDB_GetCodeSize_def object_at_def Let_def split: option.split result.split)
  qed
qed

lemmas readers_read = read_object_reads GetState_reads GetCode_reads GetCodeSize_reads

lemma since_trans:
  assumes "since st st1" "since st1 st2" shows "since st st2"
proof -
  obtain new1 more1 new2 more2 where n: "sd_entries st1 = sd_entries st @ new1"
    "aundos E look (rev new1) (state_abs E look st1) = Some (state_abs E look st)"
    "sd_validRevisions st1 = sd_validRevisions st @ more1"
    "list_all (\<lambda>(i, m). sd_nextRevisionId st \<le> i \<and> length (sd_entries st) \<le> m) more1"
    "sd_entries st2 = sd_entries st1 @ new2"
    "aundos E look (rev new2) (state_abs E look st2) = Some (state_abs E look st1)"
    "sd_validRevisions st2 = sd_validRevisions st1 @ more2"
    "list_all (\<lambda>(i, m). sd_nextRevisionId st1 \<le> i \<and> length (sd_entries st1) \<le> m) more2"
    using assms by (auto simp: since_def)
  have le: "sd_nextRevisionId st \<le> sd_nextRevisionId st1" "sd_nextRevisionId st1 \<le> sd_nextRevisionId st2"
    using assms by (simp_all add: since_def)
  have "list_all (\<lambda>(i, m). sd_nextRevisionId st \<le> i \<and> length (sd_entries st) \<le> m) (more1 @ more2)"
    using n(1,4,8) le by (fastforce simp: list_all_iff)
  then show ?thesis using assms n le
    by (auto simp: since_def intro!: exI [of _ "new1 @ new2"] exI [of _ "more1 @ more2"])
qed

end

subsection \<open>Machines\<close>

datatype effect = Silent | Recording | Writing

primrec keeps :: "effect \<Rightarrow> state_view \<Rightarrow> state_view \<Rightarrow> bool" where
  "keeps Silent A B = (B = A)"
| "keeps Recording A B = (visible B = visible A)"
| "keeps Writing A B = True"

text \<open>The interpreter may write unless it is read-only under the rules of Byzantium.\<close>

definition restricted :: "('t, 'd) venv \<Rightarrow> ('t, 'd) EVM \<Rightarrow> bool" where
  "restricted V ev \<longleftrightarrow> ru_IsByzantium (ChainConfig_Rules (ve_chainConfig V) (block V)) \<and> ev_readOnly ev"

definition allowed :: "('t, 'd) venv \<Rightarrow> ('t, 'd) EVM \<Rightarrow> effect" where
  "allowed V ev = (if restricted V ev then Recording else Writing)"

definition contract_ok :: "Contract \<Rightarrow> bool" where
  "contract_ok c \<longleftrightarrow> is_u64 (c_Gas c) \<and> length (c_self c) = AddressLength"

context account_tries
begin

definition ev_ok :: "('t, 'd) EVM \<Rightarrow> bool" where
  "ev_ok ev \<longleftrightarrow> state_ok E look tr_ok (ev_StateDB ev)"

definition moved :: "effect \<Rightarrow> ('t, 'd) EVM \<Rightarrow> ('t, 'd) EVM \<Rightarrow> bool" where
  "moved k ev ev' \<longleftrightarrow> ev_depth ev' = ev_depth ev \<and> ev_readOnly ev' = ev_readOnly ev \<and>
     since (ev_StateDB ev) (ev_StateDB ev') \<and>
     keeps k (state_abs E look (ev_StateDB ev)) (state_abs E look (ev_StateDB ev'))"

text \<open>The environment of a machine: its accounts, and that a helper loads well-formed states.\<close>

definition machine_ok :: "('t, 'd) venv \<Rightarrow> bool" where
  "machine_ok V \<longleftrightarrow> ve_senv V = E \<and> badger_ok E \<and> (\<forall>c. length (crypto_NewHash (se_crypto E) c) = HashLength) \<and>
     (\<forall>h d a st. ve_StateQueryHelper V = Some h \<longrightarrow> sq_NewEthStateLoader h d a = Some st \<longrightarrow> state_ok E look tr_ok st)"

lemma moved_ok: "moved k ev ev' \<Longrightarrow> ev_ok ev'"
  by (simp add: moved_def ev_ok_def since_def)

lemma moved_refl: "ev_ok ev \<Longrightarrow> moved k ev ev"
  by (cases k) (simp_all add: moved_def ev_ok_def since_refl)

lemma moved_trans: "moved k ev ev1 \<Longrightarrow> moved k ev1 ev2 \<Longrightarrow> moved k ev ev2"
  by (cases k) (auto simp: moved_def intro: since_trans)

lemma moved_Silent: "moved Silent ev ev' \<Longrightarrow> moved k ev ev'"
  by (cases k) (auto simp: moved_def)

lemma moved_Writing: "moved k ev ev' \<Longrightarrow> moved Writing ev ev'"
  by (cases k) (auto simp: moved_def)

lemma moved_Silent_trans: "moved Silent ev ev1 \<Longrightarrow> moved k ev1 ev2 \<Longrightarrow> moved k ev ev2"
  by (blast intro: moved_trans moved_Silent)

lemma moved_trans_Silent: "moved k ev ev1 \<Longrightarrow> moved Silent ev1 ev2 \<Longrightarrow> moved k ev ev2"
  by (blast intro: moved_trans moved_Silent)

lemma moved_allowed: "moved k ev ev1 \<Longrightarrow> allowed V ev1 = allowed V ev"
  by (simp add: moved_def allowed_def restricted_def)

lemma moved_cong:
  "ev_StateDB a = ev_StateDB ev \<Longrightarrow> ev_depth a = ev_depth ev \<Longrightarrow> ev_readOnly a = ev_readOnly ev \<Longrightarrow>
     moved k ev a = moved k ev ev"
  "ev_StateDB a = ev_StateDB ev \<Longrightarrow> ev_depth a = ev_depth ev \<Longrightarrow> ev_readOnly a = ev_readOnly ev \<Longrightarrow>
     moved k a ev' = moved k ev ev'"
  by (simp_all add: moved_def)

lemma moved_fields [simp]:
  "moved k ev (a\<lparr>ev_callGasTemp := x\<rparr>) = moved k ev a" "moved k (ev\<lparr>ev_callGasTemp := x\<rparr>) a = moved k ev a"
  "moved k ev (a\<lparr>ev_returnData := rd\<rparr>) = moved k ev a" "moved k (ev\<lparr>ev_returnData := rd\<rparr>) a = moved k ev a"
  "moved k ev (a\<lparr>ev_Time := t\<rparr>) = moved k ev a" "moved k (ev\<lparr>ev_Time := t\<rparr>) a = moved k ev a"
  "moved k ev (a\<lparr>ev_ticks := n\<rparr>) = moved k ev a" "moved k (ev\<lparr>ev_ticks := n\<rparr>) a = moved k ev a"
  "moved k ev (a\<lparr>ev_disk := d\<rparr>) = moved k ev a" "moved k (ev\<lparr>ev_disk := d\<rparr>) a = moved k ev a"
  by (simp_all add: moved_def)

lemma ev_ok_fields [simp]:
  "ev_ok (ev\<lparr>ev_callGasTemp := x\<rparr>) = ev_ok ev" "ev_ok (ev\<lparr>ev_returnData := rd\<rparr>) = ev_ok ev"
  "ev_ok (ev\<lparr>ev_Time := t\<rparr>) = ev_ok ev" "ev_ok (ev\<lparr>ev_ticks := n\<rparr>) = ev_ok ev" "ev_ok (ev\<lparr>ev_disk := d\<rparr>) = ev_ok ev"
  "ev_ok (ev\<lparr>ev_readOnly := b\<rparr>) = ev_ok ev" "ev_ok (ev\<lparr>ev_depth := i\<rparr>) = ev_ok ev"
  "ev_ok (ev\<lparr>ev_StateDB := st\<rparr>) = state_ok E look tr_ok st"
  by (simp_all add: ev_ok_def)

lemma moved_state:
  assumes "ev_ok ev" "does E look tr_ok (ev_StateDB ev) st"
  shows "moved Writing ev (ev\<lparr>ev_StateDB := st\<rparr>)"
    and "state_abs E look st = state_abs E look (ev_StateDB ev) \<Longrightarrow> moved k ev (ev\<lparr>ev_StateDB := st\<rparr>)"
proof -
  have s: "since (ev_StateDB ev) st" using assms since_does since_refl by (auto simp: ev_ok_def)
  then show "moved Writing ev (ev\<lparr>ev_StateDB := st\<rparr>)" by (simp add: moved_def)
  show "moved k ev (ev\<lparr>ev_StateDB := st\<rparr>)" if "state_abs E look st = state_abs E look (ev_StateDB ev)"
    using s that by (cases k) (simp_all add: moved_def)
qed

lemma ev_accounts: "ev_ok ev \<Longrightarrow> accounts_ok E look tr_ok (ev_StateDB ev)"
  by (simp add: ev_ok_def state_ok_def)

lemma with_state_reads:
  assumes "ev_ok ev" "\<And>st. accounts_ok E look tr_ok st \<Longrightarrow> reads (f st) st"
  obtains x ev1 where "with_state f ev = Done (x, ev1)" "moved Silent ev ev1"
proof -
  obtain x st where "f (ev_StateDB ev) = Ok (x, st)" "does E look tr_ok (ev_StateDB ev) st"
    "state_abs E look st = state_abs E look (ev_StateDB ev)"
    using assms(2) [OF ev_accounts [OF assms(1)]] by (auto simp: reads_def)
  then show ?thesis using that [of x "ev\<lparr>ev_StateDB := st\<rparr>"] moved_state [OF assms(1)] by (simp add: with_state_def)
qed

text \<open>The rules keep the machine at which the judgement starts, so that they chain.\<close>

lemma meets_reading:
  assumes "moved k ev0 ev" "\<And>st. accounts_ok E look tr_ok st \<Longrightarrow> reads (f st) st"
    and "\<And>x ev1. moved k ev0 ev1 \<Longrightarrow> meets T P (g x ev1)"
  shows "meets T P (outcome_bind (with_state f ev) (case_prod g))"
proof -
  obtain x ev1 where "with_state f ev = Done (x, ev1)" "moved Silent ev ev1"
    using with_state_reads [where f = f, OF moved_ok [OF assms(1)] assms(2)] by blast
  then show ?thesis using assms(3) moved_trans_Silent [OF assms(1)] by simp
qed

lemma meets_writing:
  assumes "moved k ev0 ev" "\<And>st. accounts_ok E look tr_ok st \<Longrightarrow> reverts (f st) st"
    and "\<And>ev1. moved Writing ev0 ev1 \<Longrightarrow> meets T P (g ev1)"
  shows "meets T P (outcome_bind (on_state f ev) g)"
proof -
  note ok = moved_ok [OF assms(1)]
  obtain st where "f (ev_StateDB ev) = Ok st" "does E look tr_ok (ev_StateDB ev) st"
    using assms(2) [OF ev_accounts [OF ok]] by (auto simp: reverts_def)
  then show ?thesis
    using assms(3) moved_trans [OF moved_Writing [OF assms(1)] moved_state(1) [OF ok]] by (simp add: on_state_def)
qed

subsection \<open>Calls\<close>

definition runs :: "bool \<Rightarrow> ('t, 'd) venv \<Rightarrow> int \<Rightarrow> ('t, 'd) runner \<Rightarrow> bool" where
  "runs T V g run \<longleftrightarrow> (\<forall>c input ev. contract_ok c \<longrightarrow> c_Gas c \<le> g \<longrightarrow> ev_ok ev \<longrightarrow>
     meets T (\<lambda>(ret, err, c', ev'). 0 \<le> c_Gas c' \<and> c_Gas c' \<le> c_Gas c \<and> moved (allowed V ev) ev ev') (run c input ev))"

lemma calm_getData [simp]: "calm (getData d i n)"
  by (simp add: getData_def Let_def stack_panic_def)

lemma calm_data_int: "meets T (\<lambda>_. True) (data_int d i n)"
  by (simp add: data_int_def meets_of_result calm_bind)

lemma meets_any: "meets T (\<lambda>_. True) r \<Longrightarrow> (\<And>x. meets T P (k x)) \<Longrightarrow> meets T P (outcome_bind r k)"
  by (rule meets_bind)

lemma RequiredGas_meets: "meets T (\<lambda>g. 0 \<le> g) (RequiredGas p input)"
proof (cases p)
  case bigModExp
  have "meets T (\<lambda>_. True) (modexp_expHead x y z)" for x y z by (simp add: modexp_expHead_def calm_data_int)
  then show ?thesis unfolding bigModExp RequiredGas.simps bigModExp_RequiredGas_def
    by (intro meets_any calm_data_int) (simp_all add: big_Uint64_def MaxUint64_def Let_def)
qed (simp_all add: ecrecover_RequiredGas_def sha256hash_RequiredGas_def ripemd160hash_RequiredGas_def
  dataCopy_RequiredGas_def bn256Add_RequiredGas_def bn256ScalarMul_RequiredGas_def bn256Pairing_RequiredGas_def
  per_word_gas_def wrap_u64_def EcrecoverGas_def Bn256AddGas_def Bn256ScalarMulGas_def)

lemma bigModExp_Run_meets: "meets T (\<lambda>_. True) (bigModExp_Run input)"
  unfolding bigModExp_Run_def Let_def
  by (intro meets_any calm_data_int) (auto intro!: meets_any [OF calm_data_int])

lemma precompiled_meets: "meets T (\<lambda>_. True) (precompiled_Run p N input)"
  by (cases p) (auto simp: bn256Add_Run_def bn256ScalarMul_Run_def intro!: meets_bind_result
    meets_any [OF bigModExp_Run_meets] meets_any [OF calm_data_int] split: option.splits)

lemma RunPrecompiled_meets:
  "0 \<le> c_Gas c \<Longrightarrow> meets T (\<lambda>(ret, err, c'). 0 \<le> c_Gas c' \<and> c_Gas c' \<le> c_Gas c) (RunPrecompiledContract p N input c)"
  unfolding RunPrecompiledContract_def
  by (rule meets_bind [OF RequiredGas_meets])
    (auto simp: UseGas_def Let_def intro!: meets_bind [where Q = "\<lambda>_. True", OF precompiled_meets])

lemma EVM_run_meets:
  assumes "runs T V g run" "contract_ok c" "c_Gas c \<le> g" "ev_ok ev"
  shows "meets T (\<lambda>(ret, err, c', ev'). 0 \<le> c_Gas c' \<and> c_Gas c' \<le> c_Gas c \<and> moved (allowed V ev) ev ev')
    (EVM_run V run c input ev)"
proof -
  have "meets T (\<lambda>(ret, err, c', ev'). 0 \<le> c_Gas c' \<and> c_Gas c' \<le> c_Gas c \<and> moved (allowed V ev) ev ev')
    (outcome_bind (RunPrecompiledContract p (ve_natives V) input c) (\<lambda>(ret, err, c). Done (ret, err, c, ev)))" for p
    using assms(2,4) by (intro meets_bind [OF RunPrecompiled_meets]) (auto simp: contract_ok_def is_u64_def moved_refl)
  then show ?thesis using assms by (auto simp: EVM_run_def runs_def split: option.split)
qed

lemma take_snapshot_moved:
  assumes "ev_ok ev" "take_snapshot ev = (i, ev1)"
  shows "moved Silent ev ev1" "ev_StateDB ev1 = snd (StateDB_Snapshot (ev_StateDB ev))" "i = sd_nextRevisionId (ev_StateDB ev)"
proof -
  have e: "ev1 = ev\<lparr>ev_StateDB := snd (StateDB_Snapshot (ev_StateDB ev))\<rparr>"
    using assms(2) by (auto simp: take_snapshot_def split: prod.splits)
  show "ev_StateDB ev1 = snd (StateDB_Snapshot (ev_StateDB ev))" "i = sd_nextRevisionId (ev_StateDB ev)"
    using assms(2) by (auto simp: take_snapshot_def StateDB_Snapshot_def Let_def)
  show "moved Silent ev ev1"
    using since_Snapshot [OF since_refl, of "ev_StateDB ev"] assms(1) by (simp add: e moved_def ev_ok_def)
qed

text \<open>Reverting to a snapshot after the machine has moved on.\<close>

lemma revert_moved:
  assumes "machine_ok V" "ev_ok ev" "take_snapshot ev = (i, ev1)" "moved k ev1 ev2"
  obtains ev3 where "on_state (StateDB_RevertToSnapshot (ve_senv V) i) ev2 = Done ev3" "moved Silent ev ev3"
proof -
  note s = take_snapshot_moved [OF assms(2,3)]
  have snap: "StateDB_Snapshot (ev_StateDB ev) = (i, ev_StateDB ev1)"
    using s(2,3) by (simp add: StateDB_Snapshot_def Let_def)
  obtain st where st: "StateDB_RevertToSnapshot E i (ev_StateDB ev2) = Ok st"
    "state_abs E look st = state_abs E look (ev_StateDB ev)"
    using Revert_restores [OF _ snap, of "ev_StateDB ev2"] assms(2,4) by (auto simp: ev_ok_def moved_def)
  have "since (ev_StateDB ev) (ev_StateDB ev2)" using s(1) assms(4) by (auto simp: moved_def intro: since_trans)
  then have "since (ev_StateDB ev) st" using st(1) s(3) by (auto intro: since_Revert)
  then have "moved Silent ev (ev2\<lparr>ev_StateDB := st\<rparr>)" using st(2) s(1) assms(4) by (simp add: moved_def)
  then show ?thesis using that st(1) assms(1) by (simp add: on_state_def machine_ok_def)
qed

end

subsection \<open>The four kinds of call\<close>

lemma length_BytesToAddress [simp]: "length (BytesToAddress b) = AddressLength"
  by (simp add: BytesToAddress_def fill_right_def)

lemma length_BigToAddress [simp]: "length (BigToAddress x) = AddressLength"
  by (simp add: BigToAddress_def)

lemma length_CreateAddress [simp]:
  "length (CreateAddress C b n) = AddressLength" "length (CreateAddress2 C b' h code) = AddressLength"
  by (simp_all add: CreateAddress_def CreateAddress2_def Let_def)

context account_tries
begin

lemma CanTransfer_reads: "accounts_ok E look tr_ok st \<Longrightarrow> reads (CanTransfer E a n st) st"
  using read_object_reads [of st a 0 object_balance]
  by (auto simp: CanTransfer_def StateDB_GetBalance_def reads_def)

lemma Transfer_reverts:
  "badger_ok E \<Longrightarrow> accounts_ok E look tr_ok st \<Longrightarrow> length a = AddressLength \<Longrightarrow> length b = AddressLength \<Longrightarrow>
     reverts (Transfer E a b n st) st"
  unfolding Transfer_def by (intro reverts_bind SubBalance_reverts AddBalance_reverts) (auto intro: does_ok)

definition call_post :: "effect \<Rightarrow> int \<Rightarrow> ('t, 'd) EVM \<Rightarrow> byte list \<times> int \<times> vm_error option \<times> ('t, 'd) EVM \<Rightarrow> bool" where
  "call_post k g ev = (\<lambda>(ret, g', err, ev').
     0 \<le> g' \<and> g' \<le> g \<and> moved k ev ev' \<and> (err \<noteq> None \<longrightarrow> moved Silent ev ev'))"

lemma call_postI [intro]:
  "0 \<le> g' \<Longrightarrow> g' \<le> g \<Longrightarrow> moved Silent ev ev' \<Longrightarrow> call_post k g ev (ret, g', err, ev')"
  by (simp add: call_post_def moved_Silent)

lemma settle_meets:
  assumes "machine_ok V" "ev_ok ev" "take_snapshot ev = (i, ev1)" "moved k ev1 ev2" "0 \<le> c_Gas c"
  shows "meets T (call_post k (c_Gas c) ev) (settle V i (ret, err, c, ev2))"
proof -
  have m: "moved k ev ev2" using take_snapshot_moved [OF assms(2,3)] assms(4) by (blast intro: moved_Silent_trans)
  obtain ev3 where "on_state (StateDB_RevertToSnapshot (ve_senv V) i) ev2 = Done ev3" "moved Silent ev ev3"
    using revert_moved [OF assms(1-4)] by blast
  then show ?thesis using m assms(5)
    by (auto simp: settle_def call_post_def UseGas_def Let_def moved_Silent split: option.split)
qed

text \<open>The way of a machine from \<open>ev0\<close>, past the snapshot of the call when it has been taken.\<close>

definition path :: "('t, 'd) EVM \<Rightarrow> (int \<times> ('t, 'd) EVM) option \<Rightarrow> effect \<Rightarrow> ('t, 'd) EVM \<Rightarrow> bool" where
  "path ev0 snap k ev =
     (case snap of
        None \<Rightarrow> moved k ev0 ev
      | Some (i, ev1) \<Rightarrow> (\<exists>ev'. moved Silent ev0 ev' \<and> take_snapshot ev' = (i, ev1)) \<and> moved k ev1 ev)"

lemma path_moved:
  assumes "path ev0 snap k ev" shows "moved k ev0 ev"
proof (cases snap)
  case (Some q)
  then obtain i ev1 ev' where "moved Silent ev0 ev'" "take_snapshot ev' = (i, ev1)" "moved k ev1 ev"
    using assms by (cases q) (auto simp: path_def)
  then show ?thesis using take_snapshot_moved(1) [OF moved_ok] moved_Silent_trans by metis
qed (use assms in \<open>simp add: path_def\<close>)

lemma path_ok: "path ev0 snap k ev \<Longrightarrow> ev_ok ev"
  by (blast dest: path_moved moved_ok)

lemma path_trans: "path ev0 snap k ev \<Longrightarrow> moved k ev ev1 \<Longrightarrow> path ev0 snap k ev1"
  by (auto simp: path_def split: option.splits intro: moved_trans)

lemma path_Writing: "path ev0 snap k ev \<Longrightarrow> path ev0 snap Writing ev"
  by (auto simp: path_def split: option.splits intro: moved_Writing)

lemma path_reading:
  assumes "path ev0 snap k ev" "\<And>st. accounts_ok E look tr_ok st \<Longrightarrow> reads (f st) st"
    and "\<And>x ev1. path ev0 snap k ev1 \<Longrightarrow> meets T P (g x ev1)"
  shows "meets T P (outcome_bind (with_state f ev) (case_prod g))"
  using assms moved_refl [OF path_ok [OF assms(1)]] by (intro meets_reading [where g = g]) (auto intro: path_trans)

lemma path_writing:
  assumes "path ev0 snap k ev" "\<And>st. accounts_ok E look tr_ok st \<Longrightarrow> reverts (f st) st"
    and "\<And>ev1. path ev0 snap Writing ev1 \<Longrightarrow> meets T P (g ev1)"
  shows "meets T P (outcome_bind (on_state f ev) g)"
proof (rule meets_writing [OF moved_refl [OF path_ok [OF assms(1)]] assms(2)])
  show "meets T P (g ev1)" if "moved Writing ev ev1" for ev1
    using assms(3) path_trans [OF path_Writing [OF assms(1)] that] .
qed

lemma path_load_code:
  assumes "path ev0 snap k ev" "machine_ok V"
    and "\<And>h code ev1. path ev0 snap k ev1 \<Longrightarrow> meets T P (f (SetCallCode addr h code c) ev1)"
  shows "meets T P (outcome_bind (load_code V addr c ev) (case_prod f))"
proof -
  have E: "ve_senv V = E" using assms(2) by (simp add: machine_ok_def)
  obtain h ev1 where h: "with_state (StateDB_GetCodeHash E addr) ev = Done (h, ev1)" "moved Silent ev ev1"
    using with_state_reads [where f = "StateDB_GetCodeHash E addr", OF path_ok [OF assms(1)]]
    unfolding StateDB_GetCodeHash_def using read_object_reads by metis
  then obtain code ev2 where "with_state (StateDB_GetCode E addr) ev1 = Done (code, ev2)" "moved Silent ev1 ev2"
    using with_state_reads [where f = "StateDB_GetCode E addr", OF moved_ok [OF h(2)]] GetCode_reads by metis
  then show ?thesis
    using h assms(3) path_trans [OF assms(1) moved_Silent, of ev2] moved_trans [of Silent ev ev1 ev2]
    by (simp add: load_code_def E)
qed

lemma path_snapshot:
  assumes "path ev0 None Silent ev"
    and "\<And>i ev1. path ev0 (Some (i, ev1)) Silent ev1 \<Longrightarrow> meets T P (f i ev1)"
  shows "meets T P (case take_snapshot ev of (i, ev1) \<Rightarrow> f i ev1)"
proof -
  obtain i ev1 where s: "take_snapshot ev = (i, ev1)" by (cases "take_snapshot ev")
  then have "path ev0 (Some (i, ev1)) Silent ev1"
    using assms(1) moved_refl [OF moved_ok [OF take_snapshot_moved(1) [OF path_ok [OF assms(1)] s]]]
    by (auto simp: path_def)
  then show ?thesis using assms(2) s by simp
qed

text \<open>The end of every call: the code runs, and its result settles the state at the snapshot.\<close>

lemma path_end_of_call:
  assumes "path ev0 (Some (i, ev1)) j ev2" "machine_ok V" "runs T V g run" "contract_ok c" "c_Gas c \<le> g"
    and "j = Silent \<and> k = allowed V ev0 \<or> k = Writing" "gas = c_Gas c"
  shows "meets T (call_post k gas ev0) (outcome_bind (EVM_run V run c input ev2) (settle V i))"
proof -
  obtain ev where s: "moved Silent ev0 ev" "take_snapshot ev = (i, ev1)" "moved j ev1 ev2"
    using assms(1) by (auto simp: path_def)
  note ok = moved_ok [OF s(1)]
  have al: "allowed V ev2 = allowed V ev0" using path_moved [OF assms(1)] by (rule moved_allowed)
  show ?thesis
  proof (rule meets_bind [OF EVM_run_meets [OF assms(3-5) path_ok [OF assms(1)]]], clarsimp)
    fix ret err and c' :: Contract and ev3
    assume "moved (allowed V ev2) ev2 ev3" and g: "0 \<le> c_Gas c'" "c_Gas c' \<le> c_Gas c"
    then have "moved k ev1 ev3" using s(3) assms(6) al by (metis moved_Silent_trans moved_Writing moved_trans)
    from settle_meets [OF assms(2) ok s(2) this g(1)]
    show "meets T (call_post k gas ev0) (settle V i (ret, err, c', ev3))"
      by (rule meets_mono) (use g s(1) assms(7) in \<open>auto simp: call_post_def intro: moved_Silent_trans\<close>)
  qed
qed

lemma path_end_Writing:
  assumes "path ev0 (Some (i, ev1)) j ev2" "machine_ok V" "runs T V g run" "contract_ok c" "c_Gas c \<le> g" "gas = c_Gas c"
  shows "meets T (call_post Writing gas ev0) (outcome_bind (EVM_run V run c input ev2) (settle V i))"
  using path_end_of_call assms by metis

lemma path_end_allowed:
  assumes "path ev0 (Some (i, ev1)) Silent ev2" "machine_ok V" "runs T V g run" "contract_ok c" "c_Gas c \<le> g"
    and "gas = c_Gas c"
  shows "meets T (call_post (allowed V ev0) gas ev0) (outcome_bind (EVM_run V run c input ev2) (settle V i))"
  using path_end_of_call assms by metis

lemma contract_ok_New [simp]:
  "contract_ok (SetCallCode a h code c) = contract_ok c" "c_Gas (SetCallCode a h code c) = c_Gas c"
  "contract_ok (NewContract caller object value gas) \<longleftrightarrow> is_u64 gas \<and> length (ref_Address object) = AddressLength"
  "c_Gas (NewContract caller object value gas) = gas"
  by (simp_all add: SetCallCode_def NewContract_def contract_ok_def)

lemma readers_fold:
  "accounts_ok E look tr_ok st \<Longrightarrow> reads (StateDB_Exist E a st) st"
  "accounts_ok E look tr_ok st \<Longrightarrow> reads (StateDB_Empty E a st) st"
  "accounts_ok E look tr_ok st \<Longrightarrow> reads (StateDB_GetBalance E a st) st"
  "accounts_ok E look tr_ok st \<Longrightarrow> reads (StateDB_GetNonce E a st) st"
  "accounts_ok E look tr_ok st \<Longrightarrow> reads (StateDB_GetCodeHash E a st) st"
  "accounts_ok E look tr_ok st \<Longrightarrow> reads (StateDB_HasSuicided E a st) st"
  by (simp_all add: StateDB_Exist_def StateDB_Empty_def StateDB_GetBalance_def StateDB_GetNonce_def
      StateDB_GetCodeHash_def StateDB_HasSuicided_def read_object_reads)

lemmas all_read = readers_fold GetState_reads GetCode_reads GetCodeSize_reads CanTransfer_reads

lemma all_write:
  assumes "machine_ok V" "accounts_ok E look tr_ok st" "length a = AddressLength"
  shows "reverts (StateDB_CreateAccount E a st) st" "reverts (StateDB_AddBalance E a n st) st"
    "reverts (StateDB_SetNonce E a i st) st" "reverts (StateDB_SetCode E a code st) st"
    "reverts (StateDB_SetState E a key v st) st" "length b = AddressLength \<Longrightarrow> reverts (Transfer E b a n st) st"
  using assms by (simp_all add: machine_ok_def CreateAccount_reverts AddBalance_reverts SetNonce_reverts SetCode_reverts
      SetState_reverts Transfer_reverts)

lemma path_Done: "is_u64 gas \<Longrightarrow> path ev0 snap Silent ev \<Longrightarrow> meets T (call_post k gas ev0) (Done (ret, gas, err, ev))"
  by (auto simp: is_u64_def dest: path_moved)

lemma path_refl: "ev_ok ev \<Longrightarrow> path ev None Silent ev"
  by (simp add: path_def moved_refl)

lemmas path_rules = path_reading path_writing path_load_code path_snapshot path_end_Writing path_end_allowed meets_if meets_bind_if
  meets_bind_Done

lemma EVM_Call_meets:
  assumes "machine_ok V" "ev_ok ev" "runs T V g run" "is_u64 gas" "gas \<le> g"
    and "length (ref_Address caller) = AddressLength" "length addr = AddressLength"
  shows "meets T (call_post Writing gas ev) (EVM_Call V run caller addr input gas value ev)"
proof -
  have E: "ve_senv V = E" using assms(1) by (simp add: machine_ok_def)
  show ?thesis
    unfolding EVM_Call_def Let_def E not_not
    by (intro path_rules path_Done all_read all_write [OF assms(1)];
      (assumption | rule path_refl assms | simp add: assms)+)
qed

lemma EVM_CallCode_meets:
  assumes "machine_ok V" "ev_ok ev" "runs T V g run" "is_u64 gas" "gas \<le> g"
    and "length (ref_Address caller) = AddressLength"
  shows "meets T (call_post (allowed V ev) gas ev) (EVM_CallCode V run caller addr input gas value ev)"
proof -
  have E: "ve_senv V = E" using assms(1) by (simp add: machine_ok_def)
  show ?thesis
    unfolding EVM_CallCode_def Let_def E not_not
    by (intro path_rules path_Done all_read; (assumption | rule path_refl assms | simp add: assms)+)
qed

lemma EVM_DelegateCall_meets:
  assumes "machine_ok V" "ev_ok ev" "runs T V g run" "is_u64 gas" "gas \<le> g"
    and "length (ref_Address caller) = AddressLength"
  shows "meets T (call_post (allowed V ev) gas ev) (EVM_DelegateCall V run caller addr input gas ev)"
proof -
  have d: "meets T P (outcome_bind (AsDelegate caller c) f)"
    if "\<And>c'. contract_ok c' = contract_ok c \<Longrightarrow> c_Gas c' = c_Gas c \<Longrightarrow> meets T P (f c')" for P c and f :: "Contract \<Rightarrow> 'x outcome"
    using that by (cases caller) (simp_all add: AsDelegate_def contract_ok_def stack_panic_def)
  show ?thesis
    unfolding EVM_DelegateCall_def Let_def not_not
    by (intro path_rules path_Done d; (assumption | rule path_refl assms | simp add: assms)+)
qed

text \<open>A static call: nothing that can be seen changes, whether it succeeds or not.\<close>

lemma readOnly_moved:
  "moved k (ev\<lparr>ev_readOnly := True\<rparr>) ev' \<Longrightarrow> moved k ev (if ev_readOnly ev then ev' else ev'\<lparr>ev_readOnly := False\<rparr>)"
  by (auto simp: moved_def)

lemma EVM_StaticCall_meets:
  assumes "machine_ok V" "ev_ok ev" "runs T V g run" "is_u64 gas" "gas \<le> g"
    and "length (ref_Address caller) = AddressLength" "length addr = AddressLength"
  shows "meets T (call_post (allowed V (ev\<lparr>ev_readOnly := True\<rparr>)) gas ev) (EVM_StaticCall V run caller addr input gas ev)"
proof -
  let ?ev = "ev\<lparr>ev_readOnly := True\<rparr>" and ?c = "NewContract caller (AccountRef addr) 0 gas"
  have ok: "ev_ok ?ev" using assms(2) by simp
  have gas: "0 \<le> gas" "gas \<le> gas" using assms(4) by (simp_all add: is_u64_def)
  obtain i ev1 where s: "take_snapshot ?ev = (i, ev1)" by (cases "take_snapshot ?ev")
  have p: "path ?ev (Some (i, ev1)) Silent ev1"
    using s moved_refl [OF ok] moved_refl [OF moved_ok [OF take_snapshot_moved(1) [OF ok s]]] by (auto simp: path_def)
  have inner: "meets T (call_post (allowed V ?ev) gas ?ev)
      (outcome_bind (load_code V addr ?c ev1) (\<lambda>(contract, ev2).
        outcome_bind (EVM_run V run contract input ev2) (settle V i)))"
    by (intro path_rules; (assumption | rule p assms | simp add: assms)+)
  have assoc: "outcome_bind (outcome_bind r (\<lambda>(x, y). outcome_bind (f x y) g)) h =
      outcome_bind r (\<lambda>(x, y). outcome_bind (f x y) (\<lambda>z. outcome_bind (g z) h))"
    for r :: "('a1 \<times> 'a2) outcome" and f :: "'a1 \<Rightarrow> 'a2 \<Rightarrow> 'y outcome" and g :: "'y \<Rightarrow> 'z outcome" and h :: "'z \<Rightarrow> 'w outcome"
  proof (cases r)
    case (Done p)
    then show ?thesis by (cases p, cases "f (fst p) (snd p)") auto
  qed simp_all
  have "meets T (call_post (allowed V ?ev) gas ev)
      (outcome_bind (outcome_bind (load_code V addr ?c ev1) (\<lambda>(contract, ev2).
        outcome_bind (EVM_run V run contract input ev2) (settle V i)))
      (\<lambda>(ret, g, err, ev3). Done (ret, g, err, if ev_readOnly ev then ev3 else ev3\<lparr>ev_readOnly := False\<rparr>)))"
    by (rule meets_bind [OF inner]) (auto simp: call_post_def dest!: readOnly_moved)
  note body = this [unfolded assoc]
  show ?thesis
    unfolding EVM_StaticCall_def Let_def s prod.case
    by (intro meets_if body) (use gas moved_refl [OF assms(2)] in \<open>simp_all add: call_post_def\<close>)
qed

lemma settle_create_meets:
  assumes "machine_ok V" "path ev0 (Some (i, ev1)) Writing ev" "0 \<le> c_Gas c" "length addr = AddressLength"
  shows "meets T (\<lambda>(ret, a, g', err, ev'). 0 \<le> g' \<and> g' \<le> c_Gas c \<and> moved Writing ev0 ev')
    (settle_create V addr i (ret, err, c, ev))"
proof -
  obtain ev' where s: "moved Silent ev0 ev'" "take_snapshot ev' = (i, ev1)" using assms(2) by (auto simp: path_def)
  have rev: "\<exists>ev3. on_state (StateDB_RevertToSnapshot (ve_senv V) i) ev2 = Done ev3 \<and> moved Writing ev0 ev3"
    if p: "path ev0 (Some (i, ev1)) Writing ev2" for ev2
  proof -
    obtain ev' where s: "moved Silent ev0 ev'" "take_snapshot ev' = (i, ev1)" "moved Writing ev1 ev2"
      using p by (auto simp: path_def)
    then show ?thesis using revert_moved [OF assms(1) moved_ok [OF s(1)] s(2,3)] moved_trans [OF s(1)] moved_Writing by metis
  qed
  note E = assms(1) [unfolded machine_ok_def, THEN conjunct1]
  have done_: "meets T (\<lambda>(ret, a, g', err, ev'). 0 \<le> g' \<and> g' \<le> c_Gas c \<and> moved Writing ev0 ev')
     (outcome_bind (if b then outcome_bind (on_state (StateDB_RevertToSnapshot (ve_senv V) i) ev2) (\<lambda>ev3.
         Done (if b2 then snd (UseGas (c_Gas c1) c1) else c1, ev3)) else Done (c1, ev2)) (\<lambda>(c2, ev3).
       Done (ret, addr, c_Gas c2, er, ev3)))"
    if "path ev0 (Some (i, ev1)) Writing ev2" "0 \<le> c_Gas c1" "c_Gas c1 \<le> c_Gas c" for ev2 b b2 c1 and er :: "vm_error option"
    using rev [OF that(1)] that(2,3) path_moved [OF that(1)] by (auto simp: UseGas_def)
  show ?thesis
    unfolding settle_create_def prod.case Let_def
  proof (rule meets_bind [where Q = "\<lambda>(er, c1, ev2). path ev0 (Some (i, ev1)) Writing ev2 \<and> 0 \<le> c_Gas c1 \<and> c_Gas c1 \<le> c_Gas c"])
    show "meets T (\<lambda>(er, c1, ev2). path ev0 (Some (i, ev1)) Writing ev2 \<and> 0 \<le> c_Gas c1 \<and> c_Gas c1 \<le> c_Gas c)
      (if err = None \<and> \<not> (IsEIP158 (ve_chainConfig V) (block V) \<and> MaxCodeSize < length ret) then
                (case UseGas (wrap_u64 (int (length ret) * CreateDataGas)) c of
                   (True, contract1) \<Rightarrow>
                     outcome_bind (on_state (StateDB_SetCode (ve_senv V) addr (if ret = [] then None else Some ret)) ev)
                       (\<lambda>ev1. Done (None, contract1, ev1))
                 | (False, contract1) \<Rightarrow> Done (Some ErrCodeStoreOutOfGas, contract1, ev))
              else Done (err, c, ev))"
      unfolding E
      by (auto simp: UseGas_def assms wrap_u64_def intro!: path_writing [OF assms(2)] all_write [OF assms(1)])
  next
    fix x
    assume q: "case x of (er :: vm_error option, c1 :: Contract, ev2) \<Rightarrow> path ev0 (Some (i, ev1)) Writing ev2 \<and> 0 \<le> c_Gas c1 \<and> c_Gas c1 \<le> c_Gas c"
    obtain er c1 ev2 where x: "x = (er, c1, ev2)" by (cases x)
    show "meets T (\<lambda>(ret, a, g', err, ev'). 0 \<le> g' \<and> g' \<le> c_Gas c \<and> moved Writing ev0 ev')
      (case x of (err1, contract1, ev1) \<Rightarrow>
         outcome_bind
             (if IsEIP158 (ve_chainConfig V) (block V) \<and> MaxCodeSize < length ret \<or>
                 (err1 \<noteq> None \<and> (IsHomestead (ve_chainConfig V) (block V) \<or> err1 \<noteq> Some ErrCodeStoreOutOfGas)) then
                outcome_bind (on_state (StateDB_RevertToSnapshot (ve_senv V) i) ev1) (\<lambda>ev2.
                  Done (if err1 \<noteq> Some ErrExecutionReverted then snd (UseGas (c_Gas contract1) contract1) else contract1,
                        ev2))
              else Done (contract1, ev1)) (\<lambda>(contract2, ev2).
             Done (ret, addr, c_Gas contract2,
               if (IsEIP158 (ve_chainConfig V) (block V) \<and> MaxCodeSize < length ret) \<and> err1 = None
               then Some errMaxCodeSizeExceeded else err1, ev2)))"
      unfolding x prod.case by (rule done_) (use q x in auto)
  qed
qed

end

subsection \<open>The creation of a contract\<close>

context account_tries
begin

definition create_post :: "int \<Rightarrow> ('t, 'd) EVM \<Rightarrow> byte list \<times> AddressBytes \<times> int \<times> vm_error option \<times> ('t, 'd) EVM \<Rightarrow> bool" where
  "create_post g ev = (\<lambda>(ret, a, g', err, ev'). 0 \<le> g' \<and> g' \<le> g \<and> moved Writing ev ev')"

lemma path_end_of_create:
  assumes "path ev0 (Some (i, ev1)) Writing ev2" "machine_ok V" "runs T V g run" "contract_ok c" "c_Gas c \<le> g"
    and "length addr = AddressLength" "gas = c_Gas c"
  shows "meets T (create_post gas ev0) (outcome_bind (EVM_run V run c input ev2) (settle_create V addr i))"
proof (rule meets_bind [OF EVM_run_meets [OF assms(3-5) path_ok [OF assms(1)]]], clarsimp)
  fix ret err and c' :: Contract and ev3
  assume "moved (allowed V ev2) ev2 ev3" and g: "0 \<le> c_Gas c'" "c_Gas c' \<le> c_Gas c"
  then have "path ev0 (Some (i, ev1)) Writing ev3" using path_trans [OF assms(1)] moved_Writing by blast
  from settle_create_meets [OF assms(2) this g(1) assms(6)]
  show "meets T (create_post gas ev0) (settle_create V addr i (ret, err, c', ev3))"
    by (rule meets_mono) (use g assms(7) in \<open>auto simp: create_post_def\<close>)
qed

lemma path_Done_create:
  "is_u64 gas \<Longrightarrow> path ev0 snap k ev \<Longrightarrow> meets T (create_post gas ev0) (Done (ret, a, gas, err, ev))"
  "is_u64 gas \<Longrightarrow> path ev0 snap k ev \<Longrightarrow> meets T (create_post gas ev0) (Done (ret, a, 0, err, ev))"
  by (auto simp: is_u64_def create_post_def dest: path_moved moved_Writing)

lemma EVM_create_meets:
  assumes "machine_ok V" "ev_ok ev" "runs T V g run" "is_u64 gas" "gas \<le> g"
    and "length (ref_Address caller) = AddressLength" "length addr = AddressLength"
  shows "meets T (create_post gas ev) (EVM_create V run caller code gas value addr ev)"
proof -
  have E: "ve_senv V = E" using assms(1) by (simp add: machine_ok_def)
  have snap: "meets T (create_post gas ev) (case take_snapshot ev' of (i, ev1) \<Rightarrow> f i ev1)"
    if "path ev None k ev'" "\<And>i ev1. path ev' (Some (i, ev1)) Silent ev1 \<Longrightarrow> meets T (create_post gas ev') (f i ev1)" for k ev' f
  proof (rule meets_mono)
    show "meets T (create_post gas ev') (case take_snapshot ev' of (i, ev1) \<Rightarrow> f i ev1)"
      by (rule path_snapshot [OF path_refl [OF path_ok [OF that(1)]] that(2)])
    show "create_post gas ev r" if "create_post gas ev' r" for r
      using that path_moved [OF \<open>path ev None k ev'\<close>] by (auto simp: create_post_def intro: moved_trans moved_Writing)
  qed
  show ?thesis
    unfolding EVM_create_def Let_def E not_not
    by (intro path_reading path_writing meets_if meets_bind_if meets_bind_Done path_Done_create all_read
        all_write [OF assms(1)] path_end_of_create snap;
      (assumption | rule path_refl assms | simp add: assms)+)
qed

lemma EVM_Create_meets:
  assumes "machine_ok V" "ev_ok ev" "runs T V g run" "is_u64 gas" "gas \<le> g"
    and "length (ref_Address caller) = AddressLength"
  shows "meets T (create_post gas ev) (EVM_Create V run caller code gas value ev)"
proof -
  have E: "ve_senv V = E" using assms(1) by (simp add: machine_ok_def)
  show ?thesis
    unfolding EVM_Create_def E
  proof (rule meets_reading [OF moved_refl [OF assms(2), of Silent] all_read(4)], assumption)
    fix nonce ev1
    assume m: "moved Silent ev ev1"
    show "meets T (create_post gas ev)
      (EVM_create V run caller code gas value (CreateAddress (se_crypto E) (ref_Address caller) nonce) ev1)"
      by (rule meets_mono [OF EVM_create_meets [OF assms(1) moved_ok [OF m] assms(3-6)]])
        (use m in \<open>auto simp: create_post_def intro: moved_Silent_trans\<close>)
  qed
qed

lemma EVM_Create2_meets:
  assumes "machine_ok V" "ev_ok ev" "runs T V g run" "is_u64 gas" "gas \<le> g"
    and "length (ref_Address caller) = AddressLength"
  shows "meets T (create_post gas ev) (EVM_Create2 V run caller code gas endowment salt ev)"
  unfolding EVM_Create2_def by (rule EVM_create_meets [OF assms]) simp

end

subsection \<open>Instructions\<close>

text \<open>A stack operation that takes \<open>p\<close> items and leaves \<open>q\<close>.\<close>

definition stack_shape :: "(Stack \<Rightarrow> Stack outcome) \<Rightarrow> nat \<Rightarrow> nat \<Rightarrow> bool" where
  "stack_shape g p q \<longleftrightarrow> (\<forall>st. p \<le> length st \<longrightarrow> (\<exists>st'. g st = Done st' \<and> length st' + p = length st + q))"

lemma stack_shape1: "(\<And>x st. \<exists>v. g (x # st) = Done (v # st)) \<Longrightarrow> stack_shape g 1 1"
  unfolding stack_shape_def by (metis One_nat_def Suc_le_length_iff length_Cons)

lemma stack_shape2:
  assumes "\<And>x y st. \<exists>v. g (x # y # st) = Done (v # st)" shows "stack_shape g 2 1"
  unfolding stack_shape_def
proof (intro allI impI)
  fix st :: Stack
  assume "2 \<le> length st"
  then obtain x y st' where "st = x # y # st'" by (auto simp: numeral_2_eq_2 Suc_le_length_iff)
  then show "\<exists>st'. g st = Done st' \<and> length st' + 2 = length st + 1" using assms [of x y st'] by auto
qed

lemma stack_shape3:
  assumes "\<And>x y z st. \<exists>v. g (x # y # z # st) = Done (v # st)" shows "stack_shape g 3 1"
  unfolding stack_shape_def
proof (intro allI impI)
  fix st :: Stack
  assume "3 \<le> length st"
  then obtain x y z st' where "st = x # y # z # st'" by (auto simp: numeral_3_eq_3 Suc_le_length_iff)
  then show "\<exists>st'. g st = Done st' \<and> length st' + 3 = length st + 1" using assms [of x y z st'] by auto
qed

lemma shapes1: "stack_shape opNot 1 1" "stack_shape opIszero 1 1"
  by (rule stack_shape1; simp add: opNot_def opIszero_def)+

lemma shapes2:
  "stack_shape opAdd 2 1" "stack_shape opMul 2 1" "stack_shape opSub 2 1" "stack_shape opDiv 2 1" "stack_shape opSdiv 2 1"
  "stack_shape opMod 2 1" "stack_shape opSmod 2 1" "stack_shape opExp 2 1" "stack_shape opSignExtend 2 1"
  "stack_shape opLt 2 1" "stack_shape opGt 2 1" "stack_shape opSlt 2 1" "stack_shape opSgt 2 1" "stack_shape opEq 2 1"
  "stack_shape opAnd 2 1" "stack_shape opXor 2 1" "stack_shape opOr 2 1" "stack_shape opByte 2 1"
  "stack_shape opSHL 2 1" "stack_shape opSHR 2 1" "stack_shape opSAR 2 1"
  by (rule stack_shape2; simp add: opAdd_def opMul_def opSub_def opDiv_def opSdiv_def opMod_def opSmod_def opExp_def
      opSignExtend_def opLt_def opGt_def opSlt_def opSgt_def opEq_def opAnd_def opXor_def opOr_def opByte_def opSHL_def
      opSHR_def opSAR_def Let_def)+

lemma shapes3: "stack_shape opAddmod 3 1" "stack_shape opMulmod 3 1"
  by (rule stack_shape3; simp add: opAddmod_def opMulmod_def)+

lemma shape_Pop: "stack_shape opPop 1 0"
  unfolding stack_shape_def by (auto simp: opPop_def Suc_le_length_iff)

lemma shape_Dup: "0 < n \<Longrightarrow> stack_shape (makeDup n) n (n + 1)"
  by (simp add: stack_shape_def makeDup_def st_dup_def st_push_def)

lemma shape_Swap: "stack_shape (makeSwap n) (n + 1) (n + 1)"
  by (simp add: stack_shape_def makeSwap_def st_swap_def)

context account_tries
begin

text \<open>An instruction that makes no call: it takes \<open>p\<close> items, leaves \<open>q\<close>, pays nothing and has at most the effect \<open>k\<close>.\<close>

definition local_op :: "('t, 'd) venv \<Rightarrow> ('t, 'd) executionFunc \<Rightarrow> nat \<Rightarrow> nat \<Rightarrow> effect \<Rightarrow> bool" where
  "local_op V e p q k \<longleftrightarrow> (\<forall>run f ev. ev_ok ev \<longrightarrow> p \<le> length (f_stack f) \<longrightarrow> length (c_self (f_contract f)) = AddressLength \<longrightarrow>
     meets False (\<lambda>(res, err, f', ev'). f_contract f' = f_contract f \<and> moved k ev ev' \<and> (0 \<le> f_pc f \<longrightarrow> 0 \<le> f_pc f') \<and>
       (err = None \<longrightarrow> length (f_stack f') + p = length (f_stack f) + q)) (e V run f ev))"

lemma local_stack: "stack_shape g p q \<Longrightarrow> local_op V (exec_stack g) p q k"
  unfolding local_op_def stack_shape_def exec_stack_def finish_def by (fastforce simp: moved_refl)

lemma local_push: "local_op V (exec_push v) 0 1 k"
  by (simp add: local_op_def exec_push_def finish_def st_push_def moved_refl)

lemma local_query:
  assumes "\<And>f slot ev. ev_ok ev \<Longrightarrow> meets False (\<lambda>(x, ev'). moved k ev ev') (q V f slot ev)"
  shows "local_op V (exec_query q) 1 1 k"
  unfolding local_op_def exec_query_def finish_def
  by (intro allI impI meets_popping meets_bind [OF assms]) (auto simp: st_push_def)

lemma meets_with:
  assumes "moved k ev0 ev" "\<And>st. accounts_ok E look tr_ok st \<Longrightarrow> reads (f st) st"
    and "\<And>x ev1. moved k ev0 ev1 \<Longrightarrow> P (x, ev1)"
  shows "meets T P (with_state f ev)"
proof -
  obtain x ev1 where "with_state f ev = Done (x, ev1)" "moved Silent ev ev1"
    using with_state_reads [where f = f, OF moved_ok [OF assms(1)] assms(2)] by blast
  then show ?thesis using assms(3) moved_trans_Silent [OF assms(1)] by simp
qed

lemma moved_start: "ev_ok ev \<Longrightarrow> moved k ev ev"
  by (rule moved_refl)

lemma local_queries:
  assumes "machine_ok V"
  shows "local_op V opBalance 1 1 k" "local_op V opExtCodeSize 1 1 k" "local_op V opExtCodeHash 1 1 k" "local_op V opSload 1 1 k"
proof -
  have E: "ve_senv V = E" using assms by (simp add: machine_ok_def)
  have size: "meets False (\<lambda>(x, ev'). moved k ev ev') (case ve_StateQueryHelper V of
            None \<Rightarrow> Done (n, ev1)
          | Some h \<Rightarrow> outcome_bind (of_result (in_state (sq_GetCodeSize h (ev_disk ev1) a))) (\<lambda>n. Done (n, ev1)))"
    if "moved k ev ev1" for n a ev ev1
    using that by (auto intro!: meets_bind_result split: option.split)
  show "local_op V opBalance 1 1 k" unfolding opBalance_def
    by (rule local_query, unfold E, rule meets_reading, erule moved_start, erule all_read, rule meets_with, assumption,
      erule all_read) simp
  show "local_op V opExtCodeHash 1 1 k" unfolding opExtCodeHash_def
    by (rule local_query, unfold E, rule meets_reading, erule moved_start, erule all_read) simp
  show "local_op V opSload 1 1 k" unfolding opSload_def
    by (rule local_query, unfold E, rule meets_reading, erule moved_start, erule all_read) simp
  show "local_op V opExtCodeSize 1 1 k" unfolding opExtCodeSize_def
    by (rule local_query, unfold E Let_def, rule meets_reading, erule moved_start, erule all_read, rule meets_if,
      erule size) simp
qed

text \<open>The instructions that use the memory or the contract alone.\<close>

lemma local_memory:
  "local_op V opCallDataLoad 1 1 k" "local_op V opCallDataCopy 3 0 k" "local_op V opReturnDataCopy 3 0 k"
  "local_op V opCodeCopy 3 0 k" "local_op V opBlockhash 1 1 k" "local_op V opMload 1 1 k" "local_op V opMstore 2 0 k"
  "local_op V opMstore8 2 0 k" "local_op V opReturn 2 0 k" "local_op V opRevert 2 0 k"
  unfolding local_op_def opCallDataLoad_def opCallDataCopy_def opReturnDataCopy_def opCodeCopy_def opBlockhash_def
    opMload_def opMstore_def opMstore8_def opReturn_def opRevert_def set_memory_def finish_def Let_def
  by (intro allI impI meets_popping meets_bind_result meets_if; auto simp: st_push_def moved_refl stack_panic_def)+

lemma local_control:
  "local_op V opStop 0 0 k" "local_op V opJumpdest 0 0 k" "local_op V opDifficulty 0 1 k" "local_op V (makePush sz n) 0 1 k"
  "local_op V opJump 1 0 k" "local_op V opJumpi 2 0 k"
  unfolding local_op_def opStop_def opJumpdest_def opDifficulty_def makePush_def opJump_def opJumpi_def jump_to_def
    finish_def Let_def
  by (intro allI impI meets_popping meets_if; auto simp: st_push_def moved_refl stack_panic_def wrap_u64_def big_Uint64_def split: option.split)+

lemma local_state:
  assumes "machine_ok V"
  shows "local_op V opExtCodeCopy 4 0 k" "local_op V opSstore 2 0 Writing" "local_op V opSuicide 1 0 Writing"
proof -
  have E: "ve_senv V = E" using assms by (simp add: machine_ok_def)
  have suicide: "moved Writing ev0 ev \<Longrightarrow> (\<And>x ev1. moved Writing ev0 ev1 \<Longrightarrow> meets T P (g x ev1)) \<Longrightarrow>
      meets T P (outcome_bind (with_state (StateDB_Suicide E a) ev) (case_prod g))" for T P g ev0 ev a
  proof -
    assume m: "moved Writing ev0 ev" "\<And>x ev1. moved Writing ev0 ev1 \<Longrightarrow> meets T P (g x ev1)"
    note ok = moved_ok [OF m(1)]
    obtain b st where "StateDB_Suicide E a (ev_StateDB ev) = Ok (b, st)" "does E look tr_ok (ev_StateDB ev) st"
      using Suicide_op [OF ev_accounts [OF ok]] by metis
    then show ?thesis using m(2) moved_trans [OF m(1) moved_state(1) [OF ok]] by (simp add: with_state_def)
  qed
  show "local_op V opExtCodeCopy 4 0 k"
    unfolding local_op_def opExtCodeCopy_def set_memory_def finish_def E
    by (intro allI impI meets_popping meets_reading meets_bind_result all_read; (assumption | erule moved_start | auto)+)
  show "local_op V opSstore 2 0 Writing"
    unfolding local_op_def opSstore_def finish_def E
    by (intro allI impI meets_popping meets_writing all_write [OF assms]; (assumption | erule moved_start | auto simp: self_address_def)+)
  show "local_op V opSuicide 1 0 Writing"
    unfolding local_op_def opSuicide_def finish_def E
    by (intro allI impI meets_popping meets_reading meets_writing all_read all_write [OF assms] suicide;
      (assumption | erule moved_start | auto simp: self_address_def)+)
qed

end

end
