(* ===== verification/Evm_Steps.thy ===== *)
theory Evm_Steps
  imports Evm_Calls
begin

section \<open>Steps of the interpreter\<close>

text \<open>
  The instructions and the gas functions of the jump tables one by one (\<open>instructions.go\<close>, \<open>gas_table.go\<close>,
  \<open>jump_table.go\<close>): \<open>local_op\<close> for an instruction that makes no call, \<open>call_op\<close> for one that does, \<open>charges\<close> and
  \<open>call_charges\<close> for their gas.  \<open>pays\<close> puts both together for an entry of a table, \<open>entry_ok\<close> adds its stack
  validation and memory size, and \<open>instruction_sets_ok\<close> shows every entry of the four instruction sets sound.
\<close>

lemma meets_pop_topics:
  "n \<le> length st \<Longrightarrow> (\<And>ts st'. length st' + n = length st \<Longrightarrow> meets T P (k ts st')) \<Longrightarrow> meets T P (pop_topics n k st)"
proof (induction n arbitrary: k st)
  case (Suc n)
  then show ?case by (auto intro!: meets_popping Suc.IH)
qed simp

context account_tries
begin

lemma moved_Recording:
  assumes "ev_ok ev" shows "moved Recording ev (ev\<lparr>ev_StateDB := StateDB_AddPreimage h b (ev_StateDB ev)\<rparr>)"
proof -
  let ?st = "StateDB_AddPreimage h b (ev_StateDB ev)"
  have "state_abs E look ?st = (state_abs E look (ev_StateDB ev))\<lparr>sv_refund := sd_refund ?st, sv_logs := sd_logs ?st,
      sv_logSize := sd_logSize ?st, sv_preimages := sd_preimages ?st\<rparr>"
    by (rule state_abs_rest) (simp_all add: StateDB_AddPreimage_def Let_def)
  then have "visible (state_abs E look ?st) = visible (state_abs E look (ev_StateDB ev))"
    by (simp add: visible_def StateDB_AddPreimage_def Let_def state_abs_def)
  then show ?thesis
    using moved_state(1) [OF assms AddPreimage_op [OF ev_accounts [OF assms]]] by (simp add: moved_def)
qed

lemma local_Sha3: "local_op V opSha3 2 1 Recording"
  unfolding local_op_def opSha3_def finish_def Let_def
  by (intro allI impI meets_popping meets_bind_result; auto simp: st_push_def moved_refl moved_Recording)

lemma local_Log: "local_op V (makeLog n) (n + 2) 0 Writing"
  unfolding local_op_def makeLog_def finish_def
  by (intro allI impI meets_popping meets_pop_topics meets_bind_result;
    auto simp: intro!: moved_state(1) AddLog_op ev_accounts)

text \<open>An instruction that calls: the gas of the frame grows by at most \<open>extra\<close>.\<close>

definition call_op ::
  "nat \<Rightarrow> nat \<Rightarrow> effect \<Rightarrow> int \<Rightarrow> Frame \<Rightarrow> ('t, 'd) EVM \<Rightarrow> byte list \<times> vm_error option \<times> Frame \<times> ('t, 'd) EVM \<Rightarrow> bool" where
  "call_op p q k extra f ev = (\<lambda>(res, err, f', ev').
     f_pc f' = f_pc f \<and> c_self (f_contract f') = c_self (f_contract f) \<and> 0 \<le> c_Gas (f_contract f') \<and>
     c_Gas (f_contract f') \<le> c_Gas (f_contract f) + extra \<and> moved k ev ev' \<and>
     (err = None \<longrightarrow> length (f_stack f') + p = length (f_stack f) + q))"

lemma opCreate_meets:
  assumes "machine_ok V" "ev_ok ev" "3 \<le> length (f_stack f)" "contract_ok (f_contract f)" "runs T V g run"
    "c_Gas (f_contract f) \<le> g"
  shows "meets T (call_op 3 1 Writing 0 f ev) (opCreate V run f ev)"
proof -
  let ?G = "c_Gas (f_contract f)"
  let ?gas = "if IsEIP150 (ve_chainConfig V) (block V) then ?G - ?G div 64 else ?G"
  let ?c = "snd (UseGas ?gas (f_contract f))"
  have G: "0 \<le> ?G" "?G < 2 ^ 64" "length (c_self (f_contract f)) = AddressLength"
    using assms(4) by (simp_all add: contract_ok_def is_u64_def)
  have g: "0 \<le> ?gas" "?gas \<le> ?G" using G by auto
  then have u: "is_u64 ?gas" "?gas \<le> g" using G assms(6) by (simp_all add: is_u64_def)
  have c: "?c = (f_contract f)\<lparr>c_Gas := ?G - ?gas\<rparr>" using g by (simp add: UseGas_def)
  have w: "wrap_u64 (?G - ?gas + r) = ?G - ?gas + r" if "0 \<le> r" "r \<le> ?gas" for r
    using that g G by (intro wrap_u64_id) (simp add: is_u64_def)
  show ?thesis
    unfolding opCreate_def Let_def c
    by (intro meets_popping meets_bind_result meets_bind [OF EVM_Create_meets [OF assms(1,2,5) u]])
      (use assms(3) G g w in \<open>auto simp: call_op_def create_post_def st_push_def\<close>)
qed

lemma opCreate2_meets:
  assumes "machine_ok V" "ev_ok ev" "4 \<le> length (f_stack f)" "contract_ok (f_contract f)" "runs T V g run"
    "c_Gas (f_contract f) \<le> g"
  shows "meets T (call_op 4 1 Writing 0 f ev) (opCreate2 V run f ev)"
proof -
  let ?G = "c_Gas (f_contract f)"
  let ?gas = "?G - ?G div 64"
  let ?c = "snd (UseGas ?gas (f_contract f))"
  have G: "0 \<le> ?G" "?G < 2 ^ 64" "length (c_self (f_contract f)) = AddressLength"
    using assms(4) by (simp_all add: contract_ok_def is_u64_def)
  have g: "0 \<le> ?gas" "?gas \<le> ?G" using G by auto
  then have u: "is_u64 ?gas" "?gas \<le> g" using G assms(6) by (simp_all add: is_u64_def)
  have c: "?c = (f_contract f)\<lparr>c_Gas := ?G - ?gas\<rparr>" using g by (simp add: UseGas_def)
  have w: "wrap_u64 (?G - ?gas + r) = ?G - ?gas + r" if "0 \<le> r" "r \<le> ?gas" for r
    using that g G by (intro wrap_u64_id) (simp add: is_u64_def)
  show ?thesis
    unfolding opCreate2_def Let_def c
    by (intro meets_popping meets_bind_result meets_bind [OF EVM_Create2_meets [OF assms(1,2,5) u]])
      (use assms(3) G g w in \<open>auto simp: call_op_def create_post_def st_push_def\<close>)
qed

lemma end_call_meets:
  assumes "call_post k gas ev0 r" "contract_ok (f_contract f)" "c_Gas (f_contract f) + gas < 2 ^ 64"
    "length st + p = length (f_stack f)"
  shows "meets T (call_op p 1 k gas f ev0) (end_call a n st f r)"
proof -
  obtain ret g' err ev where r: "r = (ret, g', err, ev)" by (cases r)
  have g: "0 \<le> g'" "g' \<le> gas" "moved k ev0 ev" using assms(1) by (simp_all add: r call_post_def)
  have w: "wrap_u64 (c_Gas (f_contract f) + g') = c_Gas (f_contract f) + g'"
    using assms(2,3) g(1,2) by (intro wrap_u64_id) (simp add: is_u64_def contract_ok_def)
  have "meets T (call_op p 1 k gas f ev0) (outcome_bind (Done m)
      (\<lambda>m. Done (ret, None, f\<lparr>f_mem := m, f_stack := st_push (if err = None then 1 else 0) st,
         f_contract := (f_contract f)\<lparr>c_Gas := wrap_u64 (c_Gas (f_contract f) + g')\<rparr>\<rparr>, ev)))" for m
    using g assms(2,4) by (simp add: call_op_def w st_push_def contract_ok_def is_u64_def)
  then show ?thesis unfolding end_call_def r prod.case
    by (intro meets_bind_if meets_bind_result) (simp_all only: outcome_bind.simps calm_memory)
qed

definition stipend_gas :: "int \<Rightarrow> ('t, 'd) EVM \<Rightarrow> int" where
  "stipend_gas v ev = ev_callGasTemp ev + (if sgn (U256 v) \<noteq> 0 then CallStipend else 0)"

lemma stipend_wrap:
  "0 \<le> ev_callGasTemp ev \<Longrightarrow> stipend_gas v ev < 2 ^ 64 \<Longrightarrow>
     (if sgn (U256 v) \<noteq> 0 then wrap_u64 (ev_callGasTemp ev + CallStipend) else ev_callGasTemp ev) = stipend_gas v ev"
  by (auto simp: stipend_gas_def CallStipend_def intro!: wrap_u64_id is_u64_def [THEN iffD2])

lemma opCall_meets:
  assumes "machine_ok V" "ev_ok ev" "7 \<le> length (f_stack f)" "contract_ok (f_contract f)" "runs T V g run"
    and "0 \<le> ev_callGasTemp ev" "gas = stipend_gas (f_stack f ! 2) ev" "gas \<le> g" "c_Gas (f_contract f) + gas < 2 ^ 64"
  shows "meets T (call_op 7 1 Silent gas f ev) (opCall V run f ev)"
proof -
  obtain a0 addr v x1 x2 x3 x4 st where st: "f_stack f = a0 # addr # v # x1 # x2 # x3 # x4 # st"
    using assms(3) by (auto simp: Suc_le_length_iff numeral_eq_Suc)
  have G: "0 \<le> c_Gas (f_contract f)" "length (c_self (f_contract f)) = AddressLength"
    using assms(4) by (simp_all add: contract_ok_def is_u64_def)
  have gas: "0 \<le> gas" "gas < 2 ^ 64" "gas = stipend_gas v ev" "is_u64 gas"
    using assms(6,7,9) G by (auto simp: stipend_gas_def CallStipend_def st is_u64_def)
  have w: "(if sgn (U256 v) \<noteq> 0 then wrap_u64 (ev_callGasTemp ev + CallStipend) else ev_callGasTemp ev) = gas"
    using stipend_wrap [OF assms(6), of v] gas by simp
  have body: "meets T (call_op 7 1 Silent gas f ev)
      (outcome_bind (EVM_Call V run (ContractOf (f_contract f)) (BigToAddress addr) args gas (U256 v) (ev\<lparr>ev_StateDB := s\<rparr>))
        (\<lambda>(ret, returnGas, err, ev1).
           outcome_bind (of_result (in_state (sq_CommitState h (ev_disk ev1) (BigToAddress addr) (ev_StateDB ev1)))) (\<lambda>disk.
             end_call x3 x4 st f (ret, returnGas, err, ev1\<lparr>ev_StateDB := ev_StateDB ev, ev_disk := disk\<rparr>))))"
    if s: "state_ok E look tr_ok s" for s args h
  proof (rule meets_bind [OF EVM_Call_meets [OF assms(1) _ assms(5) gas(4) assms(8)]])
    show "meets T (call_op 7 1 Silent gas f ev)
        (case r of (ret, returnGas, err, ev1) \<Rightarrow>
           outcome_bind (of_result (in_state (sq_CommitState h (ev_disk ev1) (BigToAddress addr) (ev_StateDB ev1)))) (\<lambda>disk.
             end_call x3 x4 st f (ret, returnGas, err, ev1\<lparr>ev_StateDB := ev_StateDB ev, ev_disk := disk\<rparr>)))"
      if "call_post Writing gas (ev\<lparr>ev_StateDB := s\<rparr>) r" for r
    proof -
      obtain ret rg err ev1 where r: "r = (ret, rg, err, ev1)" by (cases r)
      have "call_post Silent gas ev (ret, rg, err, ev1\<lparr>ev_StateDB := ev_StateDB ev, ev_disk := disk\<rparr>)" for disk
        using that assms(2) by (simp add: r call_post_def moved_def ev_ok_def since_refl)
      then show ?thesis
        unfolding r prod.case using assms(4,9) by (intro meets_bind_result end_call_meets) (simp_all add: st)
    qed
  qed (use s G in simp_all)
  have loads: "state_ok E look tr_ok s"
    if "ve_StateQueryHelper V = Some h" "sq_NewEthStateLoader h d a = Some s" for h d a s
    using assms(1) that by (auto simp: machine_ok_def)
  show ?thesis
    unfolding opCall_def st popping_simps Let_def w
    by (intro meets_bind_result) (auto simp: stack_panic_def split: option.split intro!: body [unfolded One_nat_def] loads)
qed

lemma opCallCode_meets:
  assumes "machine_ok V" "ev_ok ev" "7 \<le> length (f_stack f)" "contract_ok (f_contract f)" "runs T V g run"
    and "0 \<le> ev_callGasTemp ev" "gas = stipend_gas (f_stack f ! 2) ev" "gas \<le> g" "c_Gas (f_contract f) + gas < 2 ^ 64"
  shows "meets T (call_op 7 1 (allowed V ev) gas f ev) (opCallCode V run f ev)"
proof -
  obtain a0 addr v x1 x2 x3 x4 st where st: "f_stack f = a0 # addr # v # x1 # x2 # x3 # x4 # st"
    using assms(3) by (auto simp: Suc_le_length_iff numeral_eq_Suc)
  have G: "0 \<le> c_Gas (f_contract f)" "length (ref_Address (ContractOf (f_contract f))) = AddressLength"
    using assms(4) by (simp_all add: contract_ok_def is_u64_def)
  have gas: "0 \<le> gas" "gas < 2 ^ 64" "gas = stipend_gas v ev" "is_u64 gas"
    using assms(6,7,9) G by (auto simp: stipend_gas_def CallStipend_def st is_u64_def)
  have w: "(if sgn (U256 v) \<noteq> 0 then wrap_u64 (ev_callGasTemp ev + CallStipend) else ev_callGasTemp ev) = gas"
    using stipend_wrap [OF assms(6), of v] gas by simp
  show ?thesis
    unfolding opCallCode_def st popping_simps Let_def w
    by (intro meets_bind_result meets_bind [OF EVM_CallCode_meets [OF assms(1,2,5) gas(4) assms(8) G(2)]] end_call_meets)
      (use assms(4,9) in \<open>simp_all add: st\<close>)
qed

lemma opDelegateCall_meets:
  assumes "machine_ok V" "ev_ok ev" "6 \<le> length (f_stack f)" "contract_ok (f_contract f)" "runs T V g run"
    and "0 \<le> ev_callGasTemp ev" "ev_callGasTemp ev \<le> g" "c_Gas (f_contract f) + ev_callGasTemp ev < 2 ^ 64"
  shows "meets T (call_op 6 1 (allowed V ev) (ev_callGasTemp ev) f ev) (opDelegateCall V run f ev)"
proof -
  have G: "0 \<le> c_Gas (f_contract f)" "length (ref_Address (ContractOf (f_contract f))) = AddressLength"
    using assms(4) by (simp_all add: contract_ok_def is_u64_def)
  have gas: "is_u64 (ev_callGasTemp ev)" using assms(6,8) G by (simp add: is_u64_def)
  show ?thesis
    unfolding opDelegateCall_def Let_def
    by (intro meets_popping meets_bind_result meets_bind [OF EVM_DelegateCall_meets [OF assms(1,2,5) gas assms(7) G(2)]]
        end_call_meets) (use assms(3,4,8) in auto)
qed

lemma opStaticCall_meets:
  assumes "machine_ok V" "ev_ok ev" "6 \<le> length (f_stack f)" "contract_ok (f_contract f)" "runs T V g run"
    and "0 \<le> ev_callGasTemp ev" "ev_callGasTemp ev \<le> g" "c_Gas (f_contract f) + ev_callGasTemp ev < 2 ^ 64"
  shows "meets T (call_op 6 1 (allowed V ev) (ev_callGasTemp ev) f ev) (opStaticCall V run f ev)"
proof -
  have G: "0 \<le> c_Gas (f_contract f)" "length (ref_Address (ContractOf (f_contract f))) = AddressLength"
    using assms(4) by (simp_all add: contract_ok_def is_u64_def)
  have gas: "is_u64 (ev_callGasTemp ev)" using assms(6,8) G by (simp add: is_u64_def)
  have al: "call_post (allowed V ev) n ev r" if "call_post (allowed V (ev\<lparr>ev_readOnly := True\<rparr>)) n ev r" for n r
    using that by (auto simp: call_post_def allowed_def restricted_def dest: moved_Writing split: if_splits)
  show ?thesis
    unfolding opStaticCall_def Let_def
    by (intro meets_popping meets_bind_result meets_bind [OF EVM_StaticCall_meets [OF assms(1,2,5) gas assms(7) G(2)]]
        end_call_meets al) (use assms(3,4,8) in auto)
qed

end

subsection \<open>Gas\<close>

definition at_least :: "int \<Rightarrow> int result \<Rightarrow> bool" where
  "at_least m r \<longleftrightarrow> calm r \<and> (\<forall>n. r = Ok n \<longrightarrow> m \<le> n \<and> is_u64 n)"

lemma at_least_Ok: "m \<le> n \<Longrightarrow> is_u64 n \<Longrightarrow> at_least m (Ok n)"
  by (simp add: at_least_def)

lemma at_least_bind:
  assumes "calm r" "\<And>n. r = Ok n \<Longrightarrow> at_least m (k n)" shows "at_least m (result_bind r k)"
  using assms by (cases r) (auto simp: at_least_def calm_def)

lemma at_least_Err: "at_least m (Err errGasUintOverflow)"
  by (simp add: at_least_def errGasUintOverflow_def stack_panic_def)

lemma SafeAdd_exact: "is_u64 a \<Longrightarrow> is_u64 b \<Longrightarrow> \<not> snd (SafeAdd a b) \<Longrightarrow> fst (SafeAdd a b) = a + b \<and> is_u64 (a + b)"
  by (simp add: SafeAdd_def is_u64_def MaxUint64_def wrap_u64_def)

lemma at_least_SafeAdd:
  assumes "is_u64 a" "is_u64 b" "\<And>n. n = a + b \<Longrightarrow> is_u64 n \<Longrightarrow> at_least m (k n)"
  shows "at_least m (checked (SafeAdd a b) k)"
  using SafeAdd_exact [OF assms(1,2)] assms(3) at_least_Err by (auto simp: checked_def)

lemma is_u64_SafeMul: "is_u64 (fst (SafeMul a b))"
  by (simp add: SafeMul_def) (simp add: is_u64_def)

lemma at_least_SafeMul: "(\<And>n. is_u64 n \<Longrightarrow> at_least m (k n)) \<Longrightarrow> at_least m (checked (SafeMul a b) k)"
  using is_u64_SafeMul at_least_Err by (auto simp: checked_def)

lemma at_least_bigUint64: "(\<And>n. is_u64 n \<Longrightarrow> at_least m (k n)) \<Longrightarrow> at_least m (checked (bigUint64 x) k)"
  using at_least_Err by (auto simp: checked_def bigUint64_def big_Uint64_def is_u64_def)

lemma memoryGasCost_ok: "at_least 0 (fst (memoryGasCost mem ms))"
  using at_least_Err by (auto simp: memoryGasCost_def Let_def at_least_def errGasUintOverflow_def stack_panic_def)
    (auto simp: is_u64_def wrap_u64_def)

lemma at_least_memory:
  assumes "\<And>n. is_u64 n \<Longrightarrow> at_least m (k n)" shows "at_least m (fst (with_memory mem ms k))"
proof -
  obtain r mem' where r: "memoryGasCost mem ms = (r, mem')" by (cases "memoryGasCost mem ms")
  have "calm r" "r = Ok n \<Longrightarrow> is_u64 n" for n using memoryGasCost_ok [of mem ms] by (auto simp: r at_least_def)
  then show ?thesis using assms by (auto simp: with_memory_def r intro: at_least_bind)
qed

lemma at_least_words:
  assumes "n < length st" "is_u64 gas" "m \<le> gas" shows "at_least m (word_charge st n w gas)"
  unfolding word_charge_def
  by (intro at_least_bind at_least_bigUint64 at_least_SafeMul at_least_SafeAdd at_least_Ok calm_Back)
    (use assms in \<open>auto simp: is_u64_def\<close>)

definition gas_table :: "('t, 'd) venv \<Rightarrow> GasTable" where
  "gas_table V = ChainConfig_GasTable (ve_chainConfig V) (block V)"

lemma gas_table_cases:
  "gas_table V \<in> {GasTableHomestead, GasTableEIP150, GasTableEIP158, GasTableConstantinople}"
  by (simp add: gas_table_def ChainConfig_GasTable_def)

lemmas gas_tables = GasTableHomestead_def GasTableEIP150_def GasTableEIP158_def GasTableConstantinople_def

lemma gas_table_bounds:
  "is_u64 (gt_ExtcodeSize (gas_table V))" "is_u64 (gt_ExtcodeCopy (gas_table V))" "is_u64 (gt_ExtcodeHash (gas_table V))"
  "is_u64 (gt_Balance (gas_table V))" "is_u64 (gt_SLoad (gas_table V))"
  "1 \<le> gt_ExtcodeSize (gas_table V)" "1 \<le> gt_ExtcodeCopy (gas_table V)" "1 \<le> gt_Balance (gas_table V)"
  "1 \<le> gt_SLoad (gas_table V)" "40 \<le> gt_Calls (gas_table V)" "gt_Calls (gas_table V) \<le> 700"
  using gas_table_cases [of V] by (auto simp: gas_tables is_u64_def)

lemmas gas_consts = CallValueTransferGas_def CallNewAccountGas_def SstoreSetGas_def LogDataGas_def CallStipend_def
  Sha3Gas_def Sha3WordGas_def SstoreResetGas_def SstoreClearGas_def JumpdestGas_def LogGas_def CopyGas_def LogTopicGas_def
  CreateGas_def Create2Gas_def GasQuickStep_def GasFastestStep_def GasFastStep_def GasMidStep_def GasSlowStep_def
  GasExtStep_def

text \<open>What a call with a value adds to the gas of the callee.\<close>

definition stipend :: "Stack \<Rightarrow> int" where
  "stipend st = (if sgn (U256 (st ! 2)) \<noteq> 0 then CallStipend else 0)"

lemma stipend_le: "stipend st \<le> (if sgn (st ! 2) \<noteq> 0 then CallStipend else 0)"
  by (auto simp: stipend_def sgn_0_0 U256_def CallStipend_def)

context account_tries
begin

definition charges :: "('t, 'd) venv \<Rightarrow> ('t, 'd) gasFunc \<Rightarrow> nat \<Rightarrow> effect \<Rightarrow> int \<Rightarrow> bool" where
  "charges V g p k m \<longleftrightarrow> (\<forall>c st mem ms ev. ev_ok ev \<longrightarrow> p \<le> length st \<longrightarrow> length (c_self c) = AddressLength \<longrightarrow>
     (case g (gas_table V) V c st mem ms ev of (r, mem', ev') \<Rightarrow> at_least m r \<and> moved k ev ev'))"

lemma charges_plain:
  assumes "\<And>st mem ms. p \<le> length st \<Longrightarrow> at_least m (fst (g (gas_table V) st mem ms))"
  shows "charges V (gas_plain g) p k m"
  unfolding charges_def gas_plain_def Let_def
  using assms by (auto simp: moved_refl split: prod.splits) (metis fst_conv)+

lemma charges_const: "1 \<le> n \<Longrightarrow> is_u64 n \<Longrightarrow> charges V (constGasFunc n) p k 1"
  unfolding constGasFunc_def by (rule charges_plain) (simp add: at_least_Ok)

lemma charges_zero: "charges V (constGasFunc 0) p k 0"
  unfolding constGasFunc_def by (rule charges_plain) (simp add: at_least_Ok is_u64_def)

lemma charges_steps:
  "charges V (constGasFunc GasQuickStep) p k 1" "charges V (constGasFunc GasFastestStep) p k 1"
  "charges V (constGasFunc GasFastStep) p k 1" "charges V (constGasFunc GasMidStep) p k 1"
  "charges V (constGasFunc GasSlowStep) p k 1" "charges V (constGasFunc GasExtStep) p k 1"
  "charges V (constGasFunc JumpdestGas) p k 1" "charges V gasPush p k 1" "charges V gasSwap p k 1" "charges V gasDup p k 1"
  unfolding gasPush_def gasSwap_def gasDup_def
  by (rule charges_const charges_plain; simp add: gas_consts is_u64_def at_least_Ok)+

lemma charges_queries:
  "charges V gasBalance p k 1" "charges V gasExtCodeSize p k 1" "charges V gasSLoad p k 1" "charges V gasExtCodeHash p k 0"
  using gas_table_bounds [of V] unfolding gasBalance_def gasExtCodeSize_def gasSLoad_def gasExtCodeHash_def
  by (intro charges_plain; auto simp: is_u64_def at_least_Ok)+

lemma charges_memory:
  "charges V gasCallDataCopy 3 k 1" "charges V gasReturnDataCopy 3 k 1" "charges V gasCodeCopy 3 k 1"
  "charges V gasExtCodeCopy 4 k 1" "charges V gasSha3 2 k 1" "charges V gasMLoad p k 1" "charges V gasMStore8 p k 1"
  "charges V gasMStore p k 1" "charges V gasCreate p k 1" "charges V gasCreate2 p k 1" "charges V gasReturn p k 0"
  "charges V gasRevert p k 0"
  using gas_table_bounds [of V] memoryGasCost_ok
  unfolding gasCallDataCopy_def gasReturnDataCopy_def gasCodeCopy_def gasExtCodeCopy_def gasSha3_def gasMLoad_def
    gasMStore8_def gasMStore_def gasCreate_def gasCreate2_def gasReturn_def gasRevert_def
  by (intro charges_plain at_least_memory at_least_SafeAdd at_least_words at_least_Ok; auto simp: gas_consts is_u64_def)+

lemma charges_Exp: "charges V gasExp 2 k 1"
  unfolding gasExp_def Let_def fst_conv
  by (intro charges_plain; unfold fst_conv; intro at_least_bind calm_Back at_least_SafeAdd at_least_Ok)
    (auto simp: gas_consts is_u64_def wrap_u64_def)

lemma charges_Log: "charges V (makeGasLog n) (m + 2) k 1"
proof -
  have "at_least 1 (fst (case result_bind (st_Back st 1) (\<lambda>b. checked (bigUint64 b) Ok) of
       Err e \<Rightarrow> (Err e, mem)
     | Panic e \<Rightarrow> (Panic e, mem)
     | Ok requestedSize \<Rightarrow>
         with_memory mem ms (\<lambda>gas.
         checked (SafeAdd gas LogGas) (\<lambda>gas1.
         checked (SafeAdd gas1 (wrap_u64 (n * LogTopicGas))) (\<lambda>gas2.
         checked (SafeMul requestedSize LogDataGas) (\<lambda>memorySizeGas.
         checked (SafeAdd gas2 memorySizeGas) Ok))))))" if st: "m + 2 \<le> length st" for st :: Stack and mem ms
  proof -
    have b: "at_least 0 (result_bind (st_Back st 1) (\<lambda>b. checked (bigUint64 b) Ok))"
      using st by (intro at_least_bind calm_Back at_least_bigUint64 at_least_Ok) (auto simp: is_u64_def)
    have "at_least 1 (fst (with_memory mem ms (\<lambda>gas.
         checked (SafeAdd gas LogGas) (\<lambda>gas1.
         checked (SafeAdd gas1 (wrap_u64 (n * LogTopicGas))) (\<lambda>gas2.
         checked (SafeMul r LogDataGas) (\<lambda>memorySizeGas.
         checked (SafeAdd gas2 memorySizeGas) Ok))))))" for r
      by (intro at_least_memory at_least_SafeAdd at_least_SafeMul at_least_Ok) (auto simp: gas_consts is_u64_def wrap_u64_def)
    then show ?thesis using b
      by (cases "result_bind (st_Back st 1) (\<lambda>b. checked (bigUint64 b) Ok)") (auto simp: at_least_def)
  qed
  then show ?thesis unfolding makeGasLog_def by (rule charges_plain)
qed

text \<open>Gas functions that ask the account state.\<close>

lemma charges_SStore:
  assumes "machine_ok V" shows "charges V gasSStore 2 Writing 1"
  unfolding charges_def
proof (intro allI impI)
  fix c :: Contract and st :: Stack and mem ms and ev :: "('t, 'a) EVM"
  assume ok: "ev_ok ev" and st: "2 \<le> length st"
  have E: "ve_senv V = E" using assms by (simp add: machine_ok_def)
  obtain y x st' where s: "st = x # y # st'" using st by (auto simp: Suc_le_length_iff numeral_2_eq_2)
  obtain v st1 where g: "StateDB_GetState E (c_self c) (BigToHash x) (ev_StateDB ev) = Ok (v, st1)"
    "does E look tr_ok (ev_StateDB ev) st1"
    using GetState_reads [OF ev_accounts [OF ok]] unfolding reads_def by metis
  note m1 = moved_state(1) [OF ok g(2)]
  have "does E look tr_ok st1 (StateDB_AddRefund SstoreRefundGas st1)" using g(2) by (intro AddRefund_op does_ok)
  then have m2: "moved Writing ev (ev\<lparr>ev_StateDB := StateDB_AddRefund SstoreRefundGas st1\<rparr>)"
    using moved_state(1) [OF ok] does_trans [OF g(2)] by blast
  show "case gasSStore (gas_table V) V c st mem ms ev of (r, mem', ev') \<Rightarrow> at_least 1 r \<and> moved Writing ev ev'"
    using m1 m2 by (simp add: gasSStore_def s st_Back_def E g(1) at_least_Ok gas_consts is_u64_def)
qed

lemma Suicide_creates_ok:
  assumes "accounts_ok E look tr_ok st" "ve_senv V = E"
  shows "\<exists>b st1. suicide_creates V self a st = Ok (b, st1) \<and> does E look tr_ok st st1"
proof -
  obtain b1 st1 where e: "StateDB_Empty E a st = Ok (b1, st1)" "does E look tr_ok st st1"
    using all_read(2) [OF assms(1)] unfolding reads_def by metis
  obtain b2 st2 where x: "StateDB_Exist E a st = Ok (b2, st2)" "does E look tr_ok st st2"
    using all_read(1) [OF assms(1)] unfolding reads_def by metis
  obtain b3 st3 where b: "StateDB_GetBalance E self st1 = Ok (b3, st3)" "does E look tr_ok st1 st3"
    using all_read(3) [OF does_ok [OF e(2)]] unfolding reads_def by metis
  show ?thesis using e x b does_trans [OF e(2) b(2)] assms(2) by (auto simp: suicide_creates_def Let_def)
qed

lemma charges_Suicide:
  assumes "machine_ok V" shows "charges V gasSuicide 1 Writing 0"
  unfolding charges_def
proof (intro allI impI)
  fix c :: Contract and st :: Stack and mem ms and ev :: "('t, 'a) EVM"
  assume ok: "ev_ok ev" and st: "1 \<le> length st"
  have E: "ve_senv V = E" using assms by (simp add: machine_ok_def)
  obtain a st' where s: "st = a # st'" using st by (auto simp: Suc_le_length_iff)
  let ?r1 = "if IsEIP150 (ve_chainConfig V) (block V) then
           result_bind (st_Back st 0) (\<lambda>a.
           result_bind (in_state (suicide_creates V (c_self c) (BigToAddress a) (ev_StateDB ev))) (\<lambda>(creates, st1).
             Ok (wrap_u64 (gt_Suicide (gas_table V) + (if creates then gt_CreateBySuicide (gas_table V) else 0)), st1)))
         else Ok (0, ev_StateDB ev)"
  obtain b st1 where cr: "suicide_creates V (c_self c) (BigToAddress a) (ev_StateDB ev) = Ok (b, st1)"
    "does E look tr_ok (ev_StateDB ev) st1"
    using Suicide_creates_ok [OF ev_accounts [OF ok] E] by blast
  obtain gas st2 where r1: "?r1 = Ok (gas, st2)" "is_u64 gas" "does E look tr_ok (ev_StateDB ev) st2"
  proof (cases "IsEIP150 (ve_chainConfig V) (block V)")
    case True
    then show ?thesis
      by (intro that [of "wrap_u64 (gt_Suicide (gas_table V) + (if b then gt_CreateBySuicide (gas_table V) else 0))" st1])
        (use cr in \<open>simp_all add: s st_Back_def\<close>)
  next
    case False
    then show ?thesis
      by (intro that [of 0 "ev_StateDB ev"]) (use ev_accounts [OF ok] in \<open>auto simp: is_u64_def frame_def intro: does_none\<close>)
  qed
  obtain sc st3 where h: "StateDB_HasSuicided E (c_self c) st2 = Ok (sc, st3)" "does E look tr_ok st2 st3"
    using all_read(6) [OF does_ok [OF r1(3)]] unfolding reads_def by metis
  have d3: "does E look tr_ok (ev_StateDB ev) st3" using does_trans [OF r1(3) h(2)] .
  then have "does E look tr_ok (ev_StateDB ev) (StateDB_AddRefund SuicideRefundGas st3)"
    using does_trans [OF d3 AddRefund_op [OF does_ok [OF d3]]] by simp
  moreover have "at_least 0 (Ok gas)" using r1(2) by (simp add: at_least_def is_u64_def)
  ultimately show "case gasSuicide (gas_table V) V c st mem ms ev of (r, mem', ev') \<Rightarrow> at_least 0 r \<and> moved Writing ev ev'"
    using moved_state(1) [OF ok] d3 by (simp add: gasSuicide_def r1(1) E h(1))
qed

text \<open>The price of a call exceeds the gas that is set aside for it, with the stipend that a value adds.\<close>

definition call_charges :: "('t, 'd) venv \<Rightarrow> ('t, 'd) gasFunc \<Rightarrow> nat \<Rightarrow> effect \<Rightarrow> (Stack \<Rightarrow> int) \<Rightarrow> bool" where
  "call_charges V g p k extra \<longleftrightarrow> (\<forall>c st mem ms ev. ev_ok ev \<longrightarrow> p \<le> length st \<longrightarrow> length (c_self c) = AddressLength \<longrightarrow>
     (case g (gas_table V) V c st mem ms ev of (r, mem', ev') \<Rightarrow> calm r \<and> moved k ev ev' \<and>
       (\<forall>n. r = Ok n \<longrightarrow> is_u64 n \<and> 0 \<le> ev_callGasTemp ev' \<and> ev_callGasTemp ev' + extra st < n)))"

lemma callGas_u64: "callGas gt avail base cost = Ok n \<Longrightarrow> is_u64 n"
  using is_u64_wrap [of "avail - base"] is_u64_wrap [of "\<bar>cost\<bar>"]
  by (auto simp: callGas_def Let_def is_u64_def big_Uint64_def wrap_u64_def [symmetric] split: if_splits)

lemma calm_callGas: "calm (callGas gt avail base cost)"
  by (simp add: callGas_def Let_def errGasUintOverflow_def stack_panic_def)

lemma reserve_ok:
  assumes "at_least m base" "st \<noteq> []" "reserve_call_gas gt c st base ev = (r, ev')" "e < m" "ev_ok ev"
  shows "calm r \<and> moved k ev ev' \<and> (\<forall>n. r = Ok n \<longrightarrow> is_u64 n \<and> 0 \<le> ev_callGasTemp ev' \<and> ev_callGasTemp ev' + e < n)"
proof (cases base)
  case (Ok gas)
  then have g: "m \<le> gas" "is_u64 gas" using assms(1) by (simp_all add: at_least_def)
  obtain x st' where st: "st = x # st'" using assms(2) by (cases st) auto
  show ?thesis
  proof (cases "callGas gt (c_Gas c) gas x")
    case (Ok temp)
    note t = callGas_u64 [OF Ok]
    have r: "r = checked (SafeAdd gas temp) Ok" "ev' = ev\<lparr>ev_callGasTemp := temp\<rparr>"
      using assms(3) Ok \<open>base = Ok gas\<close> by (simp_all add: reserve_call_gas_def st st_Back_def)
    have "calm r" unfolding r(1) by (simp add: calm_checked)
    moreover have "is_u64 n \<and> 0 \<le> temp \<and> temp + e < n" if "r = Ok n" for n
    proof -
      have "\<not> snd (SafeAdd gas temp)" "n = fst (SafeAdd gas temp)" using that by (auto simp: r(1) checked_def split: if_splits)
      then show ?thesis using SafeAdd_exact [OF g(2) t] g(1) t assms(4) by (auto simp: is_u64_def)
    qed
    ultimately show ?thesis using moved_refl [OF assms(5)] by (simp add: r(2))
  next
    case (Err e)
    then have "(r, ev') = (Err e, ev\<lparr>ev_callGasTemp := 0\<rparr>)"
      using assms(3) \<open>base = Ok gas\<close> by (simp add: reserve_call_gas_def st st_Back_def)
    moreover have "calm (Err e :: int result)" using calm_callGas [of gt "c_Gas c" gas x] Err by simp
    ultimately show ?thesis using moved_refl [OF assms(5)] by simp
  next
    case (Panic e)
    then have "(r, ev') = (Panic e, ev)"
      using assms(3) \<open>base = Ok gas\<close> by (simp add: reserve_call_gas_def st st_Back_def)
    moreover have "calm (Panic e :: int result)" using calm_callGas [of gt "c_Gas c" gas x] Panic by simp
    ultimately show ?thesis using moved_refl [OF assms(5)] by simp
  qed
qed (use assms in \<open>auto simp: reserve_call_gas_def at_least_def moved_refl\<close>)

lemma gt_Calls_wrap:
  "0 \<le> a \<Longrightarrow> a \<le> 40000 \<Longrightarrow> wrap_u64 (gt_Calls (gas_table V) + a) = gt_Calls (gas_table V) + a \<and>
     is_u64 (gt_Calls (gas_table V) + a)"
  using gas_table_bounds(10,11) [of V] by (simp add: wrap_u64_def is_u64_def)

lemma call_charges_CallCode: "call_charges V gasCallCode 7 k stipend"
  unfolding call_charges_def
proof (intro allI impI)
  fix c :: Contract and st :: Stack and mem ms and ev :: "('t, 'a) EVM"
  assume ok: "ev_ok ev" and st: "7 \<le> length st"
  let ?gas = "gt_Calls (gas_table V) + (if sgn (st ! 2) \<noteq> 0 then CallValueTransferGas else 0)"
  have g: "wrap_u64 ?gas = ?gas" "is_u64 ?gas" "stipend st < ?gas"
    using gt_Calls_wrap [of "if sgn (st ! 2) \<noteq> 0 then CallValueTransferGas else 0" V] gas_table_bounds(10) [of V]
    stipend_le [of st] by (auto simp: gas_consts split: if_splits)
  obtain base mem' where b: "with_memory mem ms (\<lambda>memoryGas. checked (SafeAdd ?gas memoryGas) Ok) = (base, mem')"
    by (cases "with_memory mem ms (\<lambda>memoryGas. checked (SafeAdd ?gas memoryGas) Ok)")
  have "at_least ?gas (fst (with_memory mem ms (\<lambda>memoryGas. checked (SafeAdd ?gas memoryGas) Ok)))"
    by (intro at_least_memory at_least_SafeAdd at_least_Ok g(2)) (auto simp: is_u64_def)
  then have al: "at_least ?gas base" by (simp add: b)
  obtain r ev' where r: "reserve_call_gas (gas_table V) c st base ev = (r, ev')"
    by (cases "reserve_call_gas (gas_table V) c st base ev")
  have ne: "st \<noteq> []" using st by auto
  have "gasCallCode (gas_table V) V c st mem ms ev = (r, mem', ev')"
    using st by (simp add: gasCallCode_def st_Back_def Let_def g(1) b r)
  then show "case gasCallCode (gas_table V) V c st mem ms ev of (r, mem', ev') \<Rightarrow> calm r \<and> moved k ev ev' \<and>
       (\<forall>n. r = Ok n \<longrightarrow> is_u64 n \<and> 0 \<le> ev_callGasTemp ev' \<and> ev_callGasTemp ev' + stipend st < n)"
    using reserve_ok [OF al ne r g(3) ok, of k] by auto
qed

lemma call_charges_plain:
  "call_charges V gasDelegateCall 6 k (\<lambda>_. 0)" "call_charges V gasStaticCall 6 k (\<lambda>_. 0)"
proof -
  have body: "case (let (base, mem') = with_memory mem ms (\<lambda>gas. checked (SafeAdd gas (gt_Calls (gas_table V))) Ok);
          (r, ev1) = reserve_call_gas (gas_table V) c st base ev
      in (r, mem', ev1)) of (r, mem', ev') \<Rightarrow> calm r \<and> moved k ev ev' \<and>
       (\<forall>n. r = Ok n \<longrightarrow> is_u64 n \<and> 0 \<le> ev_callGasTemp ev' \<and> ev_callGasTemp ev' + 0 < n)"
    if ok: "ev_ok ev" and st: "6 \<le> length st" for c st mem ms and ev :: "('t, 'a) EVM"
  proof -
    obtain base mem' where b: "with_memory mem ms (\<lambda>gas. checked (SafeAdd gas (gt_Calls (gas_table V))) Ok) = (base, mem')"
      by (cases "with_memory mem ms (\<lambda>gas. checked (SafeAdd gas (gt_Calls (gas_table V))) Ok)")
    have "at_least 1 (fst (with_memory mem ms (\<lambda>gas. checked (SafeAdd gas (gt_Calls (gas_table V))) Ok)))"
      using gas_table_bounds(10,11) [of V]
      by (intro at_least_memory at_least_SafeAdd at_least_Ok) (auto simp: is_u64_def)
    then have al: "at_least 1 base" by (simp add: b)
    obtain r ev' where r: "reserve_call_gas (gas_table V) c st base ev = (r, ev')"
      by (cases "reserve_call_gas (gas_table V) c st base ev")
    have "st \<noteq> []" using st by auto
    from reserve_ok [OF al this r _ ok, of 0 k] show ?thesis by (simp add: b r Let_def)
  qed
  show "call_charges V gasDelegateCall 6 k (\<lambda>_. 0)" "call_charges V gasStaticCall 6 k (\<lambda>_. 0)"
    unfolding call_charges_def gasDelegateCall_def gasStaticCall_def by (intro allI impI; rule body; assumption)+
qed

lemma new_account_ok:
  assumes "accounts_ok E look tr_ok st" "ve_senv V = E"
  shows "\<exists>b st1. new_account_charge V t a st = Ok (b, st1) \<and> does E look tr_ok st st1 \<and>
    state_abs E look st1 = state_abs E look st"
proof -
  obtain b1 st1 where e: "StateDB_Empty E a st = Ok (b1, st1)" "does E look tr_ok st st1"
    "state_abs E look st1 = state_abs E look st"
    using all_read(2) [OF assms(1)] unfolding reads_def by metis
  obtain b2 st2 where x: "StateDB_Exist E a st = Ok (b2, st2)" "does E look tr_ok st st2"
    "state_abs E look st2 = state_abs E look st"
    using all_read(1) [OF assms(1)] unfolding reads_def by metis
  have "does E look tr_ok st st" using assms(1) by (intro does_none) (simp_all add: frame_def)
  then show ?thesis using e x assms(2)
    by (cases "IsEIP158 (ve_chainConfig V) (block V)"; cases t) (auto simp: new_account_charge_def)
qed

lemma call_charges_Call:
  assumes "machine_ok V" shows "call_charges V gasCall 7 k stipend"
  unfolding call_charges_def
proof (intro allI impI)
  fix c :: Contract and st :: Stack and mem ms and ev :: "('t, 'a) EVM"
  assume ok: "ev_ok ev" and st: "7 \<le> length st"
  have E: "ve_senv V = E" using assms by (simp add: machine_ok_def)
  obtain new st1 where n: "new_account_charge V (sgn (st ! 2) \<noteq> 0) (BigToAddress (st ! Suc 0)) (ev_StateDB ev) = Ok (new, st1)"
    "does E look tr_ok (ev_StateDB ev) st1" "state_abs E look st1 = state_abs E look (ev_StateDB ev)"
    using new_account_ok [OF ev_accounts [OF ok] E] by metis
  let ?ev1 = "ev\<lparr>ev_StateDB := st1\<rparr>"
  have m1: "moved k ev ?ev1" using moved_state(2) [OF ok n(2,3)] .
  let ?gas = "gt_Calls (gas_table V) + (if new then CallNewAccountGas else 0)"
  let ?gas1 = "?gas + (if sgn (st ! 2) \<noteq> 0 then CallValueTransferGas else 0)"
  have "wrap_u64 ?gas = ?gas" using gt_Calls_wrap [of "if new then CallNewAccountGas else 0" V] by (auto simp: gas_consts)
  moreover have "wrap_u64 ?gas1 = ?gas1 \<and> is_u64 ?gas1"
    using gt_Calls_wrap [of "(if new then CallNewAccountGas else 0) + (if sgn (st ! 2) \<noteq> 0 then CallValueTransferGas else 0)" V]
    by (auto simp: gas_consts add.assoc)
  moreover have "stipend st < ?gas1" using gas_table_bounds(10) [of V] stipend_le [of st] by (auto simp: gas_consts split: if_splits)
  ultimately have g: "wrap_u64 ?gas = ?gas" "wrap_u64 ?gas1 = ?gas1" "is_u64 ?gas1" "stipend st < ?gas1" by auto
  obtain base mem' where b: "with_memory mem ms (\<lambda>memoryGas. checked (SafeAdd ?gas1 memoryGas) Ok) = (base, mem')"
    by (cases "with_memory mem ms (\<lambda>memoryGas. checked (SafeAdd ?gas1 memoryGas) Ok)")
  have "at_least ?gas1 (fst (with_memory mem ms (\<lambda>memoryGas. checked (SafeAdd ?gas1 memoryGas) Ok)))"
    by (intro at_least_memory at_least_SafeAdd at_least_Ok g(3)) (auto simp: is_u64_def)
  then have al: "at_least ?gas1 base" by (simp add: b)
  obtain r ev' where r: "reserve_call_gas (gas_table V) c st base ?ev1 = (r, ev')"
    by (cases "reserve_call_gas (gas_table V) c st base ?ev1")
  have ne: "st \<noteq> []" using st by auto
  have "gasCall (gas_table V) V c st mem ms ev = (r, mem', ev')"
    using st by (simp add: gasCall_def st_Back_def Let_def n(1) g(1,2) b r)
  then show "case gasCall (gas_table V) V c st mem ms ev of (r, mem', ev') \<Rightarrow> calm r \<and> moved k ev ev' \<and>
       (\<forall>n. r = Ok n \<longrightarrow> is_u64 n \<and> 0 \<le> ev_callGasTemp ev' \<and> ev_callGasTemp ev' + stipend st < n)"
    using reserve_ok [OF al ne r g(4) moved_ok [OF m1], of k] m1 by (auto intro: moved_trans)
qed

end

subsection \<open>One round of the interpreter\<close>

definition frame_ok :: "Frame \<Rightarrow> bool" where
  "frame_ok f \<longleftrightarrow> contract_ok (f_contract f) \<and> length (f_stack f) \<le> StackLimit \<and> 0 \<le> f_pc f"

definition within :: "effect \<Rightarrow> ('t, 'd) venv \<Rightarrow> ('t, 'd) EVM \<Rightarrow> bool" where
  "within k V ev \<longleftrightarrow> (k = Writing \<longrightarrow> \<not> restricted V ev)"

context account_tries
begin

lemma moved_within: "moved k ev ev' \<Longrightarrow> within k V ev \<Longrightarrow> moved (allowed V ev) ev ev'"
  by (cases k) (auto simp: within_def allowed_def intro: moved_Silent moved_Writing)

lemma moved_restricted: "moved k ev ev1 \<Longrightarrow> restricted V ev1 = restricted V ev"
  by (simp add: moved_def restricted_def)

text \<open>A round ends the run with no more gas than it had, or leads to a well-formed frame with less gas or further on.\<close>

definition step_post :: "('t, 'd) venv \<Rightarrow> Frame \<Rightarrow> ('t, 'd) EVM \<Rightarrow> (Frame \<times> ('t, 'd) EVM) + ('t, 'd) run_end \<Rightarrow> bool" where
  "step_post V f ev r =
     (case r of
        Inl (f', ev') \<Rightarrow> frame_ok f' \<and> moved (allowed V ev) ev ev' \<and>
          (c_Gas (f_contract f') < c_Gas (f_contract f) \<or>
           c_Gas (f_contract f') = c_Gas (f_contract f) \<and> f_pc f < 2 ^ 63 \<and> f_pc f' = f_pc f + 1)
      | Inr (ret, err, f', ev') \<Rightarrow>
          0 \<le> c_Gas (f_contract f') \<and> c_Gas (f_contract f') \<le> c_Gas (f_contract f) \<and> moved (allowed V ev) ev ev')"

text \<open>A round after its checks: the stack has \<open>p\<close> items and room for \<open>q\<close> more once these are gone.\<close>

definition pays :: "('t, 'd) venv \<Rightarrow> nat \<Rightarrow> nat \<Rightarrow> ('t, 'd) operation \<Rightarrow> bool" where
  "pays V p q oper \<longleftrightarrow> (\<forall>T run f ev ms. ev_ok ev \<longrightarrow> frame_ok f \<longrightarrow> p \<le> length (f_stack f) \<longrightarrow>
     length (f_stack f) + q \<le> p + StackLimit \<longrightarrow> \<not> (restricted V ev \<and> op_writes oper) \<longrightarrow>
     (op_halts oper \<or> f_pc f < 2 ^ 63) \<longrightarrow> runs T V (c_Gas (f_contract f) - 1) run \<longrightarrow>
     meets T (step_post V f ev) (pay_and_execute V run oper ms f ev))"

lemma meets_pay:
  assumes "frame_ok f" "within k V ev"
    and "case op_gasCost oper (gas_table V) V (f_contract f) (f_stack f) (f_mem f) ms ev of
       (r, mem', ev1) \<Rightarrow> calm r \<and> moved k ev ev1 \<and> (\<forall>n. r = Ok n \<longrightarrow> 0 \<le> n \<and> P n ev1)"
    and "\<And>n mem' ev1. P n ev1 \<Longrightarrow> 0 \<le> n \<Longrightarrow> n \<le> c_Gas (f_contract f) \<Longrightarrow> moved k ev ev1 \<Longrightarrow>
       meets T (\<lambda>r. step_post V f ev (after_execute oper r)) (op_execute oper V run
         (f\<lparr>f_contract := (f_contract f)\<lparr>c_Gas := c_Gas (f_contract f) - n\<rparr>, f_mem := mem'\<rparr>)
         (ev1\<lparr>ev_Time := ve_clock V (ev_ticks ev1), ev_ticks := ev_ticks ev1 + 1\<rparr>))"
  shows "meets T (step_post V f ev) (pay_and_execute V run oper ms f ev)"
proof -
  obtain r mem' ev1 where g: "op_gasCost oper (gas_table V) V (f_contract f) (f_stack f) (f_mem f) ms ev = (r, mem', ev1)"
    by (metis prod_cases3)
  have c: "calm r" "moved k ev ev1" "\<And>n. r = Ok n \<Longrightarrow> 0 \<le> n \<and> P n ev1" using assms(3) by (auto simp: g)
  have end_: "step_post V f ev (Inr ([], Some ErrOutOfGas, f\<lparr>f_mem := mem'\<rparr>, ev1))"
    using assms(1) moved_within [OF c(2) assms(2)] by (simp add: step_post_def frame_ok_def contract_ok_def is_u64_def)
  show ?thesis
  proof (cases r)
    case (Ok n)
    show ?thesis
    proof (cases "c_Gas (f_contract f) < n")
      case True
      then show ?thesis using end_ by (simp add: pay_and_execute_def g [unfolded gas_table_def] Ok UseGas_def)
    next
      case False
      then have "meets T (step_post V f ev) (outcome_bind (op_execute oper V run
         (f\<lparr>f_contract := (f_contract f)\<lparr>c_Gas := c_Gas (f_contract f) - n\<rparr>, f_mem := m\<rparr>)
         (ev1\<lparr>ev_Time := ve_clock V (ev_ticks ev1), ev_ticks := ev_ticks ev1 + 1\<rparr>))
           (\<lambda>r. Done (after_execute oper r)))" for m
        by (intro meets_bind [OF assms(4)]) (use c(2) c(3) [OF Ok] in simp_all)
      then show ?thesis using False by (simp add: pay_and_execute_def g [unfolded gas_table_def] Ok UseGas_def)
    qed
  next
    case (Err e)
    then show ?thesis using end_ by (simp add: pay_and_execute_def g [unfolded gas_table_def])
  next
    case (Panic e)
    then show ?thesis using c(1) by (simp add: pay_and_execute_def g [unfolded gas_table_def])
  qed
qed

lemma after_step:
  assumes "frame_ok f" "frame_ok f' \<or> op_halts oper \<or> op_reverts oper \<or> err \<noteq> None" "moved (allowed V ev) ev ev'"
    and "c_Gas (f_contract f') < c_Gas (f_contract f) \<or>
      c_Gas (f_contract f') = c_Gas (f_contract f) \<and>
        (op_halts oper \<or> op_reverts oper \<or> f_pc f < 2 ^ 63 \<and> f_pc f' = f_pc f \<and> \<not> op_jumps oper)"
    and "0 \<le> c_Gas (f_contract f')"
  shows "step_post V f ev (after_execute oper (res, err, f', ev'))"
proof -
  have "0 \<le> wrap_u64 x" for x by (simp add: wrap_u64_def)
  moreover have "wrap_u64 (f_pc f + 1) = f_pc f + 1" if "f_pc f < 2 ^ 63"
    using that assms(1) by (intro wrap_u64_id) (simp add: is_u64_def frame_ok_def)
  ultimately show ?thesis
    using assms(2-5) by (auto simp: step_post_def after_execute_def Let_def frame_ok_def)
qed

lemma pays_local:
  fixes oper :: "('t, 'd) operation"
  assumes "charges V (op_gasCost oper) p kg m" "local_op V (op_execute oper) p q ke"
    and "kg = Writing \<or> ke = Writing \<Longrightarrow> op_writes oper"
    and "1 \<le> m \<or> m = 0 \<and> (op_halts oper \<or> op_reverts oper)"
  shows "pays V p q oper"
  unfolding pays_def
proof (intro allI impI)
  fix T and run :: "('t, 'd) runner" and f and ev :: "('t, 'd) EVM" and ms
  assume ok: "ev_ok ev" "frame_ok f" "p \<le> length (f_stack f)" "length (f_stack f) + q \<le> p + StackLimit"
    and w: "\<not> (restricted V ev \<and> op_writes oper)"
  have kg: "within kg V ev" and ke: "within ke V ev" using assms(3) w by (auto simp: within_def)
  have c: "length (c_self (f_contract f)) = AddressLength" "0 \<le> c_Gas (f_contract f)" "c_Gas (f_contract f) < 2 ^ 64" "0 \<le> f_pc f"
    using ok(2) by (simp_all add: frame_ok_def contract_ok_def is_u64_def)
  show "meets T (step_post V f ev) (pay_and_execute V run oper ms f ev)"
  proof (rule meets_pay [OF ok(2) kg, where P = "\<lambda>n _. m \<le> n"])
    show "case op_gasCost oper (gas_table V) V (f_contract f) (f_stack f) (f_mem f) ms ev of
       (r, mem', ev1) \<Rightarrow> calm r \<and> moved kg ev ev1 \<and> (\<forall>n. r = Ok n \<longrightarrow> 0 \<le> n \<and> m \<le> n)"
      using assms(1,4) ok(1,3) c(1) unfolding charges_def at_least_def by (fastforce split: prod.splits)
  next
    fix n mem' ev1
    assume n: "m \<le> n" "0 \<le> n" "n \<le> c_Gas (f_contract f)" and m1: "moved kg ev ev1"
    let ?f = "f\<lparr>f_contract := (f_contract f)\<lparr>c_Gas := c_Gas (f_contract f) - n\<rparr>, f_mem := mem'\<rparr>"
      and ?ev = "ev1\<lparr>ev_Time := ve_clock V (ev_ticks ev1), ev_ticks := ev_ticks ev1 + 1\<rparr>"
    have "meets False (\<lambda>(res, err, f', ev'). f_contract f' = f_contract ?f \<and> moved ke ?ev ev' \<and> (0 \<le> f_pc ?f \<longrightarrow> 0 \<le> f_pc f') \<and>
       (err = None \<longrightarrow> length (f_stack f') + p = length (f_stack ?f) + q)) (op_execute oper V run ?f ?ev)"
      by (rule assms(2) [unfolded local_op_def, rule_format]) (use ok(3) c(1) moved_ok [OF m1] in simp_all)
    then have "meets T (\<lambda>(res, err, f', ev'). f_contract f' = f_contract ?f \<and> moved ke ?ev ev' \<and> (0 \<le> f_pc ?f \<longrightarrow> 0 \<le> f_pc f') \<and>
       (err = None \<longrightarrow> length (f_stack f') + p = length (f_stack ?f) + q)) (op_execute oper V run ?f ?ev)"
      by (cases "op_execute oper V run ?f ?ev") auto
    then show "meets T (\<lambda>r. step_post V f ev (after_execute oper r)) (op_execute oper V run ?f ?ev)"
    proof (rule meets_mono, clarify)
      fix res and err :: "vm_error option" and f' :: Frame and ev' :: "('t, 'd) EVM"
      assume r: "f_contract f' = f_contract ?f" "moved ke ?ev ev'" "0 \<le> f_pc ?f \<longrightarrow> 0 \<le> f_pc f'"
        "err = None \<longrightarrow> length (f_stack f') + p = length (f_stack ?f) + q"
      have "moved (allowed V ev) ev ev1" using m1 kg by (rule moved_within)
      moreover have "moved (allowed V ev1) ev1 ev'"
        using r(2) ke moved_restricted [OF m1, of V] by (intro moved_within) (auto simp: within_def)
      ultimately have "moved (allowed V ev) ev ev'" using moved_allowed [OF m1] by (metis moved_trans)
      moreover have "contract_ok (f_contract f')" using c n r(1) by (simp add: contract_ok_def is_u64_def)
      ultimately show "step_post V f ev (after_execute oper (res, err, f', ev'))"
        using assms(4) n r c ok by (intro after_step) (auto simp: frame_ok_def)
    qed
  qed
qed

text \<open>\<open>EXTCODEHASH\<close> can be free, but the program counter moves on.\<close>

lemma pays_free:
  fixes oper :: "('t, 'd) operation"
  assumes "charges V (op_gasCost oper) 1 Silent 0" "machine_ok V" "op_execute oper = opExtCodeHash" "\<not> op_jumps oper"
    "\<not> op_halts oper"
  shows "pays V 1 1 oper"
  unfolding pays_def
proof (intro allI impI)
  fix T and run :: "('t, 'd) runner" and f and ev :: "('t, 'd) EVM" and ms
  assume ok: "ev_ok ev" "frame_ok f" "1 \<le> length (f_stack f)" "length (f_stack f) + 1 \<le> 1 + StackLimit"
    and pc: "op_halts oper \<or> f_pc f < 2 ^ 63"
  have E: "ve_senv V = E" using assms(2) by (simp add: machine_ok_def)
  have c: "length (c_self (f_contract f)) = AddressLength" "0 \<le> c_Gas (f_contract f)" "c_Gas (f_contract f) < 2 ^ 64" "0 \<le> f_pc f"
    using ok(2) by (simp_all add: frame_ok_def contract_ok_def is_u64_def)
  obtain a st where st: "f_stack f = a # st" using ok(3) by (cases "f_stack f") auto
  show "meets T (step_post V f ev) (pay_and_execute V run oper ms f ev)"
  proof (rule meets_pay [OF ok(2), where P = "\<lambda>n _. 0 \<le> n" and k = Silent])
    show "within Silent V ev" by (simp add: within_def)
    show "case op_gasCost oper (gas_table V) V (f_contract f) (f_stack f) (f_mem f) ms ev of
       (r, mem', ev1) \<Rightarrow> calm r \<and> moved Silent ev ev1 \<and> (\<forall>n. r = Ok n \<longrightarrow> 0 \<le> n \<and> 0 \<le> n)"
      using assms(1) ok(1,3) c(1) unfolding charges_def at_least_def by (fastforce split: prod.splits)
  next
    fix n mem' ev1
    assume n: "0 \<le> n" "n \<le> c_Gas (f_contract f)" and m1: "moved Silent ev ev1"
    let ?f = "f\<lparr>f_contract := (f_contract f)\<lparr>c_Gas := c_Gas (f_contract f) - n\<rparr>, f_mem := mem'\<rparr>"
      and ?ev = "ev1\<lparr>ev_Time := ve_clock V (ev_ticks ev1), ev_ticks := ev_ticks ev1 + 1\<rparr>"
    obtain h ev2 where h: "with_state (StateDB_GetCodeHash E (BigToAddress a)) ?ev = Done (h, ev2)" "moved Silent ?ev ev2"
      using with_state_reads [where f = "StateDB_GetCodeHash E (BigToAddress a)" and ev = ?ev] all_read(5) moved_ok [OF m1]
      by (metis ev_ok_fields(3,4))
    have m2: "moved Silent ev ev2" using m1 h(2) by (auto intro: moved_trans)
    have "op_execute oper V run ?f ?ev = Done ([], None, ?f\<lparr>f_stack := big_SetBytes h # st\<rparr>, ev2)"
      using h(1) by (simp add: assms(3) opExtCodeHash_def exec_query_def st E finish_def st_push_def)
    moreover have "step_post V f ev (after_execute oper ([], None, ?f\<lparr>f_stack := big_SetBytes h # st\<rparr>, ev2))"
      using n c ok(2,4) pc assms(4,5) moved_within [OF m2]
      by (intro after_step) (auto simp: frame_ok_def contract_ok_def is_u64_def st within_def)
    ultimately show "meets T (\<lambda>r. step_post V f ev (after_execute oper r)) (op_execute oper V run ?f ?ev)" by simp
  qed
qed

lemma pays_create:
  fixes oper :: "('t, 'd) operation"
  assumes "machine_ok V" "charges V (op_gasCost oper) p Silent 1" "op_writes oper"
    and "op_execute oper = opCreate \<and> p = 3 \<or> op_execute oper = opCreate2 \<and> p = 4"
  shows "pays V p 1 oper"
  unfolding pays_def
proof (intro allI impI)
  fix T and run :: "('t, 'd) runner" and f and ev :: "('t, 'd) EVM" and ms
  assume ok: "ev_ok ev" "frame_ok f" "p \<le> length (f_stack f)" "length (f_stack f) + 1 \<le> p + StackLimit"
    and w: "\<not> (restricted V ev \<and> op_writes oper)" and run: "runs T V (c_Gas (f_contract f) - 1) run"
  have c: "length (c_self (f_contract f)) = AddressLength" "0 \<le> c_Gas (f_contract f)" "c_Gas (f_contract f) < 2 ^ 64" "0 \<le> f_pc f"
    using ok(2) by (simp_all add: frame_ok_def contract_ok_def is_u64_def)
  show "meets T (step_post V f ev) (pay_and_execute V run oper ms f ev)"
  proof (rule meets_pay [OF ok(2), where P = "\<lambda>n _. 1 \<le> n" and k = Silent])
    show "within Silent V ev" by (simp add: within_def)
    show "case op_gasCost oper (gas_table V) V (f_contract f) (f_stack f) (f_mem f) ms ev of
       (r, mem', ev1) \<Rightarrow> calm r \<and> moved Silent ev ev1 \<and> (\<forall>n. r = Ok n \<longrightarrow> 0 \<le> n \<and> 1 \<le> n)"
      using assms(2) ok(1,3) c(1) unfolding charges_def at_least_def by (fastforce split: prod.splits)
  next
    fix n mem' ev1
    assume n: "1 \<le> n" "n \<le> c_Gas (f_contract f)" and m1: "moved Silent ev ev1"
    let ?f = "f\<lparr>f_contract := (f_contract f)\<lparr>c_Gas := c_Gas (f_contract f) - n\<rparr>, f_mem := mem'\<rparr>"
      and ?ev = "ev1\<lparr>ev_Time := ve_clock V (ev_ticks ev1), ev_ticks := ev_ticks ev1 + 1\<rparr>"
    have f: "ev_ok ?ev" "p \<le> length (f_stack ?f)" "contract_ok (f_contract ?f)" "c_Gas (f_contract ?f) \<le> c_Gas (f_contract f) - 1"
      using moved_ok [OF m1] ok(3) c n by (auto simp: contract_ok_def is_u64_def)
    have "meets T (call_op p 1 Writing 0 ?f ?ev) (op_execute oper V run ?f ?ev)"
      using assms(4) f opCreate_meets [OF assms(1) f(1) _ f(3) run f(4)] opCreate2_meets [OF assms(1) f(1) _ f(3) run f(4)]
      by auto
    then show "meets T (\<lambda>r. step_post V f ev (after_execute oper r)) (op_execute oper V run ?f ?ev)"
    proof (rule meets_mono, clarify)
      fix res and err :: "vm_error option" and f' :: Frame and ev' :: "('t, 'd) EVM"
      assume r: "call_op p 1 Writing 0 ?f ?ev (res, err, f', ev')"
      have "moved Writing ev ev'" using r m1 by (auto simp: call_op_def intro: moved_Silent_trans)
      then have "moved (allowed V ev) ev ev'" using w assms(3) by (intro moved_within) (auto simp: within_def)
      then show "step_post V f ev (after_execute oper (res, err, f', ev'))"
        using r n c ok by (intro after_step) (auto simp: call_op_def frame_ok_def contract_ok_def is_u64_def)
    qed
  qed
qed

lemma pays_call:
  fixes oper :: "('t, 'd) operation"
  assumes "machine_ok V" "call_charges V (op_gasCost oper) p Silent extra"
    and "op_execute oper = opCall \<and> p = 7 \<and> extra = stipend \<or> op_execute oper = opCallCode \<and> p = 7 \<and> extra = stipend \<or>
      op_execute oper = opDelegateCall \<and> p = 6 \<and> extra = (\<lambda>_. 0) \<or> op_execute oper = opStaticCall \<and> p = 6 \<and> extra = (\<lambda>_. 0)"
  shows "pays V p 1 oper"
  unfolding pays_def
proof (intro allI impI)
  fix T and run :: "('t, 'd) runner" and f and ev :: "('t, 'd) EVM" and ms
  assume ok: "ev_ok ev" "frame_ok f" "p \<le> length (f_stack f)" "length (f_stack f) + 1 \<le> p + StackLimit"
    and run: "runs T V (c_Gas (f_contract f) - 1) run"
  have c: "length (c_self (f_contract f)) = AddressLength" "0 \<le> c_Gas (f_contract f)" "c_Gas (f_contract f) < 2 ^ 64" "0 \<le> f_pc f"
    using ok(2) by (simp_all add: frame_ok_def contract_ok_def is_u64_def)
  have ex: "0 \<le> extra st" for st using assms(3) by (auto simp: stipend_def CallStipend_def)
  let ?P = "\<lambda>n ev1. 0 \<le> ev_callGasTemp ev1 \<and> ev_callGasTemp ev1 + extra (f_stack f) < n"
  show "meets T (step_post V f ev) (pay_and_execute V run oper ms f ev)"
  proof (rule meets_pay [OF ok(2), where P = ?P and k = Silent])
    show "within Silent V ev" by (simp add: within_def)
    show "case op_gasCost oper (gas_table V) V (f_contract f) (f_stack f) (f_mem f) ms ev of
       (r, mem', ev1) \<Rightarrow> calm r \<and> moved Silent ev ev1 \<and> (\<forall>n. r = Ok n \<longrightarrow> 0 \<le> n \<and> ?P n ev1)"
      using assms(2) ok(1,3) c(1) unfolding call_charges_def is_u64_def by (fastforce split: prod.splits)
  next
    fix n mem' ev1
    assume p: "?P n ev1" and n: "n \<le> c_Gas (f_contract f)" and m1: "moved Silent ev ev1"
    let ?f = "f\<lparr>f_contract := (f_contract f)\<lparr>c_Gas := c_Gas (f_contract f) - n\<rparr>, f_mem := mem'\<rparr>"
      and ?ev = "ev1\<lparr>ev_Time := ve_clock V (ev_ticks ev1), ev_ticks := ev_ticks ev1 + 1\<rparr>"
    let ?gas = "ev_callGasTemp ev1 + extra (f_stack f)"
    have f: "ev_ok ?ev" "p \<le> length (f_stack ?f)" "contract_ok (f_contract ?f)" "0 \<le> ev_callGasTemp ?ev"
      "?gas \<le> c_Gas (f_contract f) - 1" "c_Gas (f_contract ?f) + ?gas < 2 ^ 64"
      using moved_ok [OF m1] ok(3) c n p ex [of "f_stack f"] by (auto simp: contract_ok_def is_u64_def)
    have sg: "extra = stipend \<Longrightarrow> ?gas = stipend_gas (f_stack ?f ! 2) ?ev" by (simp add: stipend_gas_def stipend_def)
    have "meets T (call_op p 1 (allowed V ?ev) ?gas ?f ?ev) (op_execute oper V run ?f ?ev)"
      using assms(3)
    proof (elim disjE conjE)
      assume e: "op_execute oper = opCall" "p = 7" "extra = stipend"
      have "meets T (call_op 7 1 Silent ?gas ?f ?ev) (opCall V run ?f ?ev)"
        using f(2) e by (intro opCall_meets [OF assms(1) f(1) _ f(3) run f(4) sg f(5,6)]) simp_all
      then show ?thesis unfolding e(1,2) by (rule meets_mono) (auto simp: call_op_def intro: moved_Silent)
    next
      assume e: "op_execute oper = opCallCode" "p = 7" "extra = stipend"
      show ?thesis unfolding e(1,2)
        using f(2) e by (intro opCallCode_meets [OF assms(1) f(1) _ f(3) run f(4) sg f(5,6)]) simp_all
    next
      assume e: "op_execute oper = opDelegateCall" "p = 6" "extra = (\<lambda>_. 0)"
      show ?thesis
        using opDelegateCall_meets [OF assms(1) f(1) _ f(3) run f(4)] f(2,5,6) unfolding e by simp
    next
      assume e: "op_execute oper = opStaticCall" "p = 6" "extra = (\<lambda>_. 0)"
      show ?thesis
        using opStaticCall_meets [OF assms(1) f(1) _ f(3) run f(4)] f(2,5,6) unfolding e by simp
    qed
    then show "meets T (\<lambda>r. step_post V f ev (after_execute oper r)) (op_execute oper V run ?f ?ev)"
    proof (rule meets_mono, clarify)
      fix res and err :: "vm_error option" and f' :: Frame and ev' :: "('t, 'd) EVM"
      assume r: "call_op p 1 (allowed V ?ev) ?gas ?f ?ev (res, err, f', ev')"
      have "allowed V ?ev = allowed V ev" using moved_allowed [OF m1] by (simp add: allowed_def restricted_def)
      then have "moved (allowed V ev) ev ev'" using r m1 by (auto simp: call_op_def intro: moved_Silent_trans)
      then show "step_post V f ev (after_execute oper (res, err, f', ev'))"
        using r n c ok p ex [of "f_stack f"]
        by (intro after_step) (auto simp: call_op_def frame_ok_def contract_ok_def is_u64_def)
    qed
  qed
qed

end

subsection \<open>The tables\<close>

lemma calm_mem_region: "i < length st \<Longrightarrow> j < length st \<Longrightarrow> calm (mem_region i j st)"
  unfolding mem_region_def by (intro calm_bind calm_Back) auto

lemma calm_mem_fixed: "i < length st \<Longrightarrow> calm (mem_fixed i n st)"
  unfolding mem_fixed_def by (intro calm_bind calm_Back) auto

lemma calm_mem_max: "calm (f st) \<Longrightarrow> calm (g st) \<Longrightarrow> calm (mem_max f g st)"
  unfolding mem_max_def by (intro calm_bind) auto

lemmas memory_sizes = memorySha3_def memoryCallDataCopy_def memoryReturnDataCopy_def memoryCodeCopy_def
  memoryExtCodeCopy_def memoryMLoad_def memoryMStore8_def memoryMStore_def memoryCreate_def memoryCreate2_def
  memoryCall_def memoryDelegateCall_def memoryStaticCall_def memoryReturn_def memoryRevert_def memoryLog_def

lemma memory_sizes_calm:
  "2 \<le> length st \<Longrightarrow> calm (memorySha3 st)" "3 \<le> length st \<Longrightarrow> calm (memoryCallDataCopy st)"
  "3 \<le> length st \<Longrightarrow> calm (memoryReturnDataCopy st)" "3 \<le> length st \<Longrightarrow> calm (memoryCodeCopy st)"
  "4 \<le> length st \<Longrightarrow> calm (memoryExtCodeCopy st)" "1 \<le> length st \<Longrightarrow> calm (memoryMLoad st)"
  "2 \<le> length st \<Longrightarrow> calm (memoryMStore8 st)" "2 \<le> length st \<Longrightarrow> calm (memoryMStore st)"
  "3 \<le> length st \<Longrightarrow> calm (memoryCreate st)" "4 \<le> length st \<Longrightarrow> calm (memoryCreate2 st)"
  "7 \<le> length st \<Longrightarrow> calm (memoryCall st)" "6 \<le> length st \<Longrightarrow> calm (memoryDelegateCall st)"
  "6 \<le> length st \<Longrightarrow> calm (memoryStaticCall st)" "2 \<le> length st \<Longrightarrow> calm (memoryReturn st)"
  "2 \<le> length st \<Longrightarrow> calm (memoryRevert st)" "n + 2 \<le> length st \<Longrightarrow> calm (memoryLog st)"
  unfolding memory_sizes by (intro calm_mem_max calm_mem_region calm_mem_fixed; auto)+

context account_tries
begin

definition entry_ok :: "('t, 'd) venv \<Rightarrow> OpCode \<times> ('t, 'd) operation \<Rightarrow> bool" where
  "entry_ok V = (\<lambda>(op, oper). \<exists>p q. op_validateStack oper = makeStackFunc p q \<and> pays V p q oper \<and>
     (op = CALL \<longrightarrow> 3 \<le> p) \<and> (op = 0 \<longrightarrow> op_halts oper) \<and>
     (\<forall>g st. op_memorySize oper = Some g \<longrightarrow> p \<le> length st \<longrightarrow> calm (g st)))"

lemma entry_okI:
  "op_validateStack oper = makeStackFunc p q \<Longrightarrow> pays V p q oper \<Longrightarrow> op = CALL \<longrightarrow> 3 \<le> p \<Longrightarrow> op = 0 \<longrightarrow> op_halts oper \<Longrightarrow>
     (\<And>g st. op_memorySize oper = Some g \<Longrightarrow> p \<le> length st \<Longrightarrow> calm (g st)) \<Longrightarrow> entry_ok V (op, oper)"
  unfolding entry_ok_def by blast

lemma entry_simple:
  assumes "charges V g p Silent 1" "local_op V e p q Recording" "op \<noteq> CALL \<and> op \<noteq> 0"
  shows "entry_ok V (op, operation_of e g (makeStackFunc p q))"
    and "(\<And>st. p \<le> length st \<Longrightarrow> calm (s st)) \<Longrightarrow>
      entry_ok V (op, (operation_of e g (makeStackFunc p q))\<lparr>op_memorySize := Some s\<rparr>)"
  using assms pays_local [of V _ p Silent 1 q Recording]
  by (intro entry_okI [where p = p and q = q]; auto simp: operation_of_def)+

lemma entry_jump:
  assumes "charges V g p Silent 1" "local_op V e p q Silent" "op \<noteq> CALL \<and> op \<noteq> 0"
  shows "entry_ok V (op, (operation_of e g (makeStackFunc p q))\<lparr>op_jumps := True\<rparr>)"
  using assms pays_local [of V _ p Silent 1 q Silent]
  by (intro entry_okI [where p = p and q = q]) (auto simp: operation_of_def)

lemma entry_write:
  assumes "charges V g p k 1" "local_op V e p q Writing" "op \<noteq> CALL \<and> op \<noteq> 0"
  shows "entry_ok V (op, (operation_of e g (makeStackFunc p q))\<lparr>op_writes := True\<rparr>)"
    and "(\<And>st. p \<le> length st \<Longrightarrow> calm (s st)) \<Longrightarrow>
      entry_ok V (op, (operation_of e g (makeStackFunc p q))\<lparr>op_memorySize := Some s, op_writes := True\<rparr>)"
  using assms pays_local [of V _ p k 1 q Writing]
  by (intro entry_okI [where p = p and q = q]; auto simp: operation_of_def)+

lemma entries_arithmetic: "list_all (entry_ok V) frontier_arithmetic"
  unfolding frontier_arithmetic_def list.pred_inject
proof (intro conjI)
  show "entry_ok V (STOP, (operation_of opStop (constGasFunc 0) (makeStackFunc 0 0))\<lparr>op_halts := True\<rparr>)"
    by (intro entry_okI [where p = 0 and q = 0] pays_local [where m = 0 and kg = Silent and ke = Silent])
      (simp_all add: operation_of_def opcode_defs charges_zero local_control)
qed (rule entry_simple charges_steps charges_Exp local_stack shapes1 shapes2 shapes3 TrueI | simp add: opcode_defs)+

lemma entries_environment: assumes "machine_ok V" shows "list_all (entry_ok V) frontier_environment"
  unfolding frontier_environment_def list.pred_inject opAddress_def opOrigin_def opCaller_def opCallValue_def
    opCallDataSize_def opCodeSize_def opGasprice_def opCoinbase_def opTimestamp_def opNumber_def opGasLimit_def
  by (intro conjI; (rule entry_simple charges_steps charges_queries charges_memory local_push local_Sha3 local_memory
      local_control local_queries [OF assms] local_state(1) [OF assms] memory_sizes_calm TrueI
    | assumption | simp add: opcode_defs)+)

lemma entries_storage: assumes "machine_ok V" shows "list_all (entry_ok V) frontier_storage"
  unfolding frontier_storage_def list.pred_inject opPc_def opMsize_def opGas_def
  by (intro conjI; (rule entry_jump entry_write entry_simple charges_steps charges_queries charges_memory charges_SStore [OF assms]
      local_push local_memory local_control local_queries [OF assms] local_state(2) [OF assms] local_stack shape_Pop
      memory_sizes_calm TrueI | assumption | simp add: opcode_defs)+)

lemma entries_push: "list_all (entry_ok V) frontier_push" "list_all (entry_ok V) frontier_push_long"
  unfolding frontier_push_def frontier_push_long_def list.pred_inject
  by (intro conjI; (rule entry_simple charges_steps local_control TrueI | simp add: opcode_defs)+)+

lemma entry_dup:
  assumes "0 < n" "op \<noteq> CALL \<and> op \<noteq> 0"
  shows "entry_ok V (op, operation_of (exec_stack (makeDup n)) gasDup (makeDupStackFunc n))"
  unfolding makeDupStackFunc_def using assms by (intro entry_simple charges_steps local_stack shape_Dup)

lemma entry_swap:
  assumes "m = n + 1" "op \<noteq> CALL \<and> op \<noteq> 0"
  shows "entry_ok V (op, operation_of (exec_stack (makeSwap n)) gasSwap (makeSwapStackFunc m))"
  unfolding makeSwapStackFunc_def assms(1) using assms(2) by (intro entry_simple charges_steps local_stack shape_Swap)

lemma entry_log:
  assumes "m = n + 2" "op \<noteq> CALL \<and> op \<noteq> 0"
  shows "entry_ok V (op, (operation_of (makeLog n) (makeGasLog i) (makeStackFunc m 0))\<lparr>op_memorySize := Some memoryLog, op_writes := True\<rparr>)"
  unfolding assms(1) using assms(2) by (intro entry_write(2) [where k = Silent] charges_Log local_Log memory_sizes_calm)

lemma entries_dup_swap: "list_all (entry_ok V) frontier_dup_swap"
  unfolding frontier_dup_swap_def list.pred_inject
  by (intro conjI; (rule entry_dup entry_swap TrueI | simp add: opcode_defs)+)

lemma entries_swap_log: "list_all (entry_ok V) frontier_swap_log"
  unfolding frontier_swap_log_def list.pred_inject
  by (intro conjI; (rule entry_log entry_swap TrueI | simp add: opcode_defs)+)

lemma entry_halt:
  assumes "charges V g p k 0" "local_op V e p q ke" "k = Silent \<and> ke = Silent \<or> op_writes oper" "op_halts oper \<or> op_reverts oper"
    and "op_gasCost oper = g" "op_execute oper = e" "op_validateStack oper = makeStackFunc p q" "op \<noteq> CALL \<and> op \<noteq> 0"
    and "\<And>s st. op_memorySize oper = Some s \<Longrightarrow> p \<le> length st \<Longrightarrow> calm (s st)"
  shows "entry_ok V (op, oper)"
  using assms by (intro entry_okI [where p = p and q = q] pays_local [where m = 0 and kg = k and ke = ke]) auto

lemma entries_system: assumes "machine_ok V" shows "list_all (entry_ok V) frontier_system"
  unfolding frontier_system_def list.pred_inject
proof (intro conjI list.pred_inject(1))
  show "entry_ok V (CREATE, (operation_of opCreate gasCreate (makeStackFunc 3 1))\<lparr>op_memorySize := Some memoryCreate, op_writes := True, op_returns := True\<rparr>)"
    by (intro entry_okI [where p = 3 and q = 1] pays_create [OF assms])
      (auto simp: operation_of_def opcode_defs memory_sizes_calm charges_memory)
  show "entry_ok V (CALL, (operation_of opCall gasCall (makeStackFunc 7 1))\<lparr>op_memorySize := Some memoryCall, op_returns := True\<rparr>)"
    by (intro entry_okI [where p = 7 and q = 1] pays_call [OF assms, where extra = stipend])
      (auto simp: operation_of_def opcode_defs memory_sizes_calm call_charges_Call [OF assms])
  show "entry_ok V (CALLCODE, (operation_of opCallCode gasCallCode (makeStackFunc 7 1))\<lparr>op_memorySize := Some memoryCall, op_returns := True\<rparr>)"
    by (intro entry_okI [where p = 7 and q = 1] pays_call [OF assms, where extra = stipend])
      (auto simp: operation_of_def opcode_defs memory_sizes_calm call_charges_CallCode)
  show "entry_ok V (RETURN, (operation_of opReturn gasReturn (makeStackFunc 2 0))\<lparr>op_memorySize := Some memoryReturn, op_halts := True\<rparr>)"
    by (rule entry_halt [where k = Silent and ke = Silent and q = 0, OF charges_memory(11) local_memory(9)])
      (auto simp: operation_of_def opcode_defs memory_sizes_calm)
  show "entry_ok V (SELFDESTRUCT, (operation_of opSuicide gasSuicide (makeStackFunc 1 0))\<lparr>op_halts := True, op_writes := True\<rparr>)"
    by (rule entry_halt [where q = 0, OF charges_Suicide [OF assms] local_state(3) [OF assms]])
      (auto simp: operation_of_def opcode_defs)
qed

lemma entries_later:
  assumes "machine_ok V"
  shows "list_all (entry_ok V) homestead_operations" "list_all (entry_ok V) byzantium_operations"
    "list_all (entry_ok V) constantinople_operations"
proof -
  show "list_all (entry_ok V) homestead_operations"
    unfolding homestead_operations_def list.pred_inject
    by (intro conjI list.pred_inject(1) entry_okI [where p = 6 and q = 1] pays_call [OF assms, where extra = "\<lambda>_. 0"])
      (auto simp: operation_of_def opcode_defs memory_sizes_calm call_charges_plain)
  show "list_all (entry_ok V) byzantium_operations"
    unfolding byzantium_operations_def list.pred_inject
  proof (intro conjI list.pred_inject(1))
    show "entry_ok V (STATICCALL, (operation_of opStaticCall gasStaticCall (makeStackFunc 6 1))\<lparr>op_memorySize := Some memoryStaticCall, op_returns := True\<rparr>)"
      by (intro entry_okI [where p = 6 and q = 1] pays_call [OF assms, where extra = "\<lambda>_. 0"])
        (auto simp: operation_of_def opcode_defs memory_sizes_calm call_charges_plain)
    show "entry_ok V (RETURNDATASIZE, operation_of opReturnDataSize (constGasFunc GasQuickStep) (makeStackFunc 0 1))"
      unfolding opReturnDataSize_def by (rule entry_simple charges_steps local_push | simp add: opcode_defs)+
    show "entry_ok V (RETURNDATACOPY, (operation_of opReturnDataCopy gasReturnDataCopy (makeStackFunc 3 0))\<lparr>op_memorySize := Some memoryReturnDataCopy\<rparr>)"
      by (rule entry_simple(2)) (simp_all add: charges_memory local_memory memory_sizes_calm opcode_defs)
    show "entry_ok V (REVERT, (operation_of opRevert gasRevert (makeStackFunc 2 0))\<lparr>op_memorySize := Some memoryRevert, op_reverts := True, op_returns := True\<rparr>)"
      by (rule entry_halt [where k = Silent and ke = Silent and q = 0, OF charges_memory(12) local_memory(10)])
        (auto simp: operation_of_def opcode_defs memory_sizes_calm)
  qed
  show "list_all (entry_ok V) constantinople_operations"
    unfolding constantinople_operations_def list.pred_inject
  proof (intro conjI list.pred_inject(1))
    show "entry_ok V (EXTCODEHASH, operation_of opExtCodeHash gasExtCodeHash (makeStackFunc 1 1))"
      by (intro entry_okI [where p = 1 and q = 1] pays_free assms)
        (auto simp: operation_of_def opcode_defs charges_queries)
    show "entry_ok V (CREATE2, (operation_of opCreate2 gasCreate2 (makeStackFunc 4 1))\<lparr>op_memorySize := Some memoryCreate2, op_writes := True, op_returns := True\<rparr>)"
      by (intro entry_okI [where p = 4 and q = 1] pays_create [OF assms])
        (auto simp: operation_of_def opcode_defs memory_sizes_calm charges_memory)
  qed (rule entry_simple charges_steps local_stack shapes2 | simp add: opcode_defs)+
qed

lemma map_of_entry: "list_all (entry_ok V) t \<Longrightarrow> map_of t op = Some oper \<Longrightarrow> entry_ok V (op, oper)"
  by (metis list_all_iff map_of_SomeD)

definition table_ok :: "('t, 'd) venv \<Rightarrow> (OpCode \<Rightarrow> ('t, 'd) operation option) \<Rightarrow> bool" where
  "table_ok V J \<longleftrightarrow> (\<forall>op oper. J op = Some oper \<longrightarrow> entry_ok V (op, oper))"

lemma instruction_sets_ok:
  assumes "machine_ok V"
  shows "table_ok V frontierInstructionSet" "table_ok V homesteadInstructionSet" "table_ok V ByzantiumInstructionSet"
    "table_ok V ConstantinopleInstructionSet"
proof -
  show f: "table_ok V frontierInstructionSet"
    unfolding table_ok_def frontierInstructionSet_def
    by (intro allI impI, erule map_of_entry [rotated])
      (simp add: entries_arithmetic entries_environment [OF assms] entries_storage [OF assms] entries_push entries_dup_swap
        entries_swap_log entries_system [OF assms])
  have add: "table_ok V (J ++ map_of t)" if "table_ok V J" "list_all (entry_ok V) t" for J t
    using that map_of_entry by (fastforce simp: table_ok_def map_add_Some_iff)
  show h: "table_ok V homesteadInstructionSet"
    unfolding homesteadInstructionSet_def by (intro add f entries_later assms)
  show b: "table_ok V ByzantiumInstructionSet"
    unfolding ByzantiumInstructionSet_def by (intro add h entries_later assms)
  show "table_ok V ConstantinopleInstructionSet"
    unfolding ConstantinopleInstructionSet_def by (intro add b entries_later assms)
qed

end

end
