(* ===== verification/Evm_Safety.thy ===== *)
theory Evm_Safety
  imports Evm_Steps
begin

section \<open>Soundness of the machine\<close>

text \<open>
  The loop of the interpreter over any of the instruction sets, and what it comes to for the machine over the accounts
  of the program: a run never reads below its stack, ends within a fuel that grows with its gas, and a call that fails
  or is static leaves the accounts as they were.
\<close>

subsection \<open>Runs\<close>

text \<open>Fuel that is enough: for each unit of gas as many instructions as the code has positions, and as many again.\<close>

definition enough_fuel :: "int \<Rightarrow> int \<Rightarrow> int" where
  "enough_fuel gas pc = gas * (2 ^ 63 + 1) + max 0 (2 ^ 63 - pc) + 1"

lemma enough_fuel_less: "g' < g \<Longrightarrow> 0 \<le> pc' \<Longrightarrow> enough_fuel g' pc' < enough_fuel g pc"
  by (simp add: enough_fuel_def max_def)

lemma enough_fuel_on: "pc < 2 ^ 63 \<Longrightarrow> enough_fuel g (pc + 1) < enough_fuel g pc"
  by (simp add: enough_fuel_def)

lemma makeStackFunc_cases:
  assumes "makeStackFunc p q st = Ok u" shows "p \<le> length st \<and> length st + q \<le> p + StackLimit"
  using assms by (auto simp: makeStackFunc_def stack_require_def StackLimit_def split: if_splits)

lemma makeStackFunc_no_panic: "makeStackFunc p q st \<noteq> Panic e"
  by (simp add: makeStackFunc_def stack_require_def)

lemma GetOp_below: "GetOp c pc \<noteq> 0 \<Longrightarrow> pc < 2 ^ 63"
  by (simp add: GetOp_def GetByte_def split: if_splits)

context account_tries
begin

lemma interp_step_meets:
  fixes V :: "('t, 'd) venv"
  assumes "table_ok V J" "frame_ok f" "ev_ok ev" "runs T V (c_Gas (f_contract f) - 1) run"
  shows "meets T (step_post V f ev) (interp_step J V run f ev)"
proof -
  have stop: "step_post V f ev (Inr ([], err, f, ev))" for err
    using assms(2) moved_refl [OF assms(3)] by (simp add: step_post_def frame_ok_def contract_ok_def is_u64_def)
  let ?op = "GetOp (f_contract f) (f_pc f)"
  show ?thesis
  proof (cases "J ?op")
    case None
    then show ?thesis using stop by (simp add: interp_step_def)
  next
    case (Some oper)
    then obtain p q where e: "op_validateStack oper = makeStackFunc p q" "pays V p q oper" "?op = CALL \<longrightarrow> 3 \<le> p"
      "?op = 0 \<longrightarrow> op_halts oper" "\<And>g st. op_memorySize oper = Some g \<Longrightarrow> p \<le> length st \<Longrightarrow> calm (g st)"
      using assms(1) by (fastforce simp: table_ok_def entry_ok_def)
    show ?thesis
    proof (cases "makeStackFunc p q (f_stack f)")
      case (Ok u)
      note st = makeStackFunc_cases [OF Ok]
      have pc: "op_halts oper \<or> f_pc f < 2 ^ 63" using e(4) GetOp_below by blast
      have size: "meets T (\<lambda>_. True) (requested_memory oper (f_stack f))"
        using e(5) st by (auto simp: requested_memory_def Let_def split: option.split prod.split intro!: meets_bind_result)
      have pay: "meets T (step_post V f ev) (outcome_bind (requested_memory oper (f_stack f)) (\<lambda>size.
          case size of None \<Rightarrow> Done (Inr ([], Some ErrGasUintOverflow, f, ev))
          | Some ms \<Rightarrow> pay_and_execute V run oper ms f ev))" if "\<not> (restricted V ev \<and> op_writes oper)"
        using e(2) assms(2-4) st that pc stop unfolding pays_def
        by (intro meets_any [OF size]) (auto split: option.split)
      have "meets T (\<lambda>r. r = None \<longrightarrow> \<not> (restricted V ev \<and> op_writes oper)) (enforceRestrictions V ?op oper (f_stack f) ev)"
        using e(3) st by (auto simp: enforceRestrictions_def restricted_def intro!: meets_bind_result calm_Back)
      then have "meets T (step_post V f ev) (outcome_bind (enforceRestrictions V ?op oper (f_stack f) ev) (\<lambda>restricted.
          case restricted of Some err \<Rightarrow> Done (Inr ([], Some err, f, ev))
          | None \<Rightarrow> outcome_bind (requested_memory oper (f_stack f)) (\<lambda>size.
              case size of None \<Rightarrow> Done (Inr ([], Some ErrGasUintOverflow, f, ev))
              | Some ms \<Rightarrow> pay_and_execute V run oper ms f ev)))"
        by (rule meets_bind) (use pay stop in \<open>auto split: option.split\<close>)
      then show ?thesis using Some e(1) Ok by (simp add: interp_step_def)
    next
      case (Err err)
      then show ?thesis using stop Some e(1) by (simp add: interp_step_def)
    next
      case (Panic err)
      then show ?thesis using makeStackFunc_no_panic by blast
    qed
  qed
qed

definition loop_post :: "('t, 'd) venv \<Rightarrow> Frame \<Rightarrow> ('t, 'd) EVM \<Rightarrow> ('t, 'd) run_end \<Rightarrow> bool" where
  "loop_post V f ev = (\<lambda>(ret, err, f', ev').
     0 \<le> c_Gas (f_contract f') \<and> c_Gas (f_contract f') \<le> c_Gas (f_contract f) \<and> moved (allowed V ev) ev ev')"

lemma run_contract_meets:
  fixes V :: "('t, 'd) venv"
  assumes "\<And>f ev. frame_ok f \<Longrightarrow> ev_ok ev \<Longrightarrow> f_pc f = 0 \<Longrightarrow> c_Gas (f_contract f) \<le> g \<Longrightarrow> meets T (loop_post V f ev) (loop f ev)"
  shows "runs T V g (run_contract loop)"
  unfolding runs_def
proof (intro allI impI)
  fix c input and ev :: "('t, 'd) EVM"
  assume c: "contract_ok c" "c_Gas c \<le> g" and ok: "ev_ok ev"
  let ?ev1 = "ev\<lparr>ev_depth := ev_depth ev + 1, ev_returnData := []\<rparr>"
    and ?f = "\<lparr>f_pc = 0, f_contract = c\<lparr>c_Input := input\<rparr>, f_mem = NewMemory, f_stack = []\<rparr>"
  have restored: "moved (allowed V ev) ev (ev2\<lparr>ev_depth := ev_depth ev2 - 1\<rparr>)" if "moved (allowed V ?ev1) ?ev1 ev2" for ev2
    using that by (simp add: moved_def allowed_def restricted_def)
  have "meets T (loop_post V ?f ?ev1) (loop ?f ?ev1)"
    using c ok by (intro assms) (simp_all add: frame_ok_def contract_ok_def)
  then have "meets T (\<lambda>(ret, err, c', ev'). 0 \<le> c_Gas c' \<and> c_Gas c' \<le> c_Gas c \<and> moved (allowed V ev) ev ev')
    (outcome_bind (loop ?f ?ev1) (\<lambda>(ret, err, f, ev2). Done (ret, err, f_contract f, ev2\<lparr>ev_depth := ev_depth ev2 - 1\<rparr>)))"
    by (rule meets_bind) (auto simp: loop_post_def restored)
  moreover have "moved (allowed V ev) ev (?ev1\<lparr>ev_depth := ev_depth ?ev1 - 1\<rparr>)"
    using ok by (intro restored moved_refl) simp
  ultimately show "meets T (\<lambda>(ret, err, c', ev'). 0 \<le> c_Gas c' \<and> c_Gas c' \<le> c_Gas c \<and> moved (allowed V ev) ev ev')
    (run_contract loop c input ev)"
    using c(1) by (simp add: run_contract_def Let_def contract_ok_def is_u64_def)
qed

lemma exec_loop_meets:
  fixes V :: "('t, 'd) venv"
  assumes "table_ok V J" "frame_ok f" "ev_ok ev" "T \<or> enough_fuel (c_Gas (f_contract f)) (f_pc f) \<le> int n"
  shows "meets T (loop_post V f ev) (exec_loop n J V f ev)"
  using assms(2-4)
proof (induction n arbitrary: f ev)
  case 0
  have "0 < enough_fuel (c_Gas (f_contract f)) (f_pc f)"
    using 0(1) by (simp add: enough_fuel_def frame_ok_def contract_ok_def is_u64_def)
  then show ?case using 0(3) by simp
next
  case (Suc n)
  let ?run = "run_contract (exec_loop n J V)"
  have "runs T V (c_Gas (f_contract f) - 1) ?run"
  proof (rule run_contract_meets)
    fix f1 :: Frame and ev1 :: "('t, 'd) EVM"
    assume "frame_ok f1" "ev_ok ev1" "f_pc f1 = 0" "c_Gas (f_contract f1) \<le> c_Gas (f_contract f) - 1"
    moreover have "enough_fuel (c_Gas (f_contract f1)) (f_pc f1) < enough_fuel (c_Gas (f_contract f)) (f_pc f)"
      using calculation by (intro enough_fuel_less) auto
    ultimately show "meets T (loop_post V f1 ev1) (exec_loop n J V f1 ev1)" using Suc.prems(3) by (intro Suc.IH) auto
  qed
  from interp_step_meets [OF assms(1) Suc.prems(1,2) this]
  show ?case unfolding exec_loop.simps
  proof (rule meets_bind)
    fix r
    assume r: "step_post V f ev r"
    show "meets T (loop_post V f ev) (case r of Inl (f1, ev1) \<Rightarrow> exec_loop n J V f1 ev1 | Inr e \<Rightarrow> Done e)"
    proof (cases r)
      case (Inl fe)
      obtain f1 ev1 where fe: "fe = (f1, ev1)" by (cases fe)
      have s: "frame_ok f1" "moved (allowed V ev) ev ev1" "c_Gas (f_contract f1) < c_Gas (f_contract f) \<or>
          c_Gas (f_contract f1) = c_Gas (f_contract f) \<and> f_pc f < 2 ^ 63 \<and> f_pc f1 = f_pc f + 1"
        using r by (simp_all add: step_post_def Inl fe)
      have "enough_fuel (c_Gas (f_contract f1)) (f_pc f1) < enough_fuel (c_Gas (f_contract f)) (f_pc f)"
        using s(1,3) enough_fuel_less enough_fuel_on by (auto simp: frame_ok_def)
      then have "meets T (loop_post V f1 ev1) (exec_loop n J V f1 ev1)"
        using s(1) moved_ok [OF s(2)] Suc.prems(3) by (intro Suc.IH) auto
      then have "meets T (loop_post V f ev) (exec_loop n J V f1 ev1)"
        by (rule meets_mono) (use s moved_allowed [OF s(2)] in \<open>auto simp: loop_post_def intro: moved_trans\<close>)
      then show ?thesis by (simp add: Inl fe)
    next
      case (Inr e)
      then show ?thesis using r by (simp add: step_post_def loop_post_def)
    qed
  qed
qed

text \<open>The interpreter over any of the instruction sets keeps the contract of a runner; with enough fuel it returns.\<close>

lemma Interpreter_Run_runs:
  fixes V :: "('t, 'd) venv"
  assumes "table_ok V J" "T \<or> enough_fuel g 0 \<le> int n"
  shows "runs T V g (Interpreter_Run n J V)"
  unfolding Interpreter_Run_def
proof (rule run_contract_meets)
  fix f :: Frame and ev :: "('t, 'd) EVM"
  assume f: "frame_ok f" "ev_ok ev" "f_pc f = 0" "c_Gas (f_contract f) \<le> g"
  have "T \<or> enough_fuel (c_Gas (f_contract f)) (f_pc f) \<le> int n"
  proof (cases "c_Gas (f_contract f) = g")
    case False
    then show ?thesis using assms(2) f enough_fuel_less [of "c_Gas (f_contract f)" g 0 0] by auto
  qed (use assms(2) f in auto)
  then show "meets T (loop_post V f ev) (exec_loop n J V f ev)" by (intro exec_loop_meets assms(1) f)
qed

end

context account_tries
begin

lemma NewEVMInterpreter_ok: "machine_ok V \<Longrightarrow> table_ok V (NewEVMInterpreter V)"
  by (simp add: NewEVMInterpreter_def instruction_sets_ok)

lemma visible_readers:
  assumes "visible (state_abs E look st') = visible (state_abs E look st)"
    and "accounts_ok E look tr_ok st" "accounts_ok E look tr_ok st'"
  shows "read_account E st' = read_account E st" "sd_refund st' = sd_refund st" "sd_logs st' = sd_logs st"
    "sd_logSize st' = sd_logSize st"
proof -
  have A: "sv_accounts (state_abs E look st') = sv_accounts (state_abs E look st)"
    "sv_code (state_abs E look st') = sv_code (state_abs E look st)"
    "sv_refund (state_abs E look st') = sv_refund (state_abs E look st)"
    "sv_logs (state_abs E look st') = sv_logs (state_abs E look st)"
    "sv_logSize (state_abs E look st') = sv_logSize (state_abs E look st)"
    using arg_cong [OF assms(1), of sv_accounts] arg_cong [OF assms(1), of sv_code] arg_cong [OF assms(1), of sv_refund]
      arg_cong [OF assms(1), of sv_logs] arg_cong [OF assms(1), of sv_logSize] by (simp_all add: visible_def)
  show "read_account E st' = read_account E st"
    by (intro ext) (unfold read_account_abs [OF assms(2)] read_account_abs [OF assms(3)] aread_account_def A, rule refl)
  show "sd_refund st' = sd_refund st" "sd_logs st' = sd_logs st" "sd_logSize st' = sd_logSize st"
    using A(3-5) by (simp_all add: state_abs_sel)
qed

lemma moved_readers:
  assumes "moved k ev ev'" "k \<noteq> Writing" "ev_ok ev"
  shows "read_account E (ev_StateDB ev') = read_account E (ev_StateDB ev)"
    "sd_refund (ev_StateDB ev') = sd_refund (ev_StateDB ev)" "sd_logs (ev_StateDB ev') = sd_logs (ev_StateDB ev)"
    "ev_depth ev' = ev_depth ev" "ev_readOnly ev' = ev_readOnly ev"
proof -
  have "visible (state_abs E look (ev_StateDB ev')) = visible (state_abs E look (ev_StateDB ev))"
    using assms(1,2) by (cases k) (simp_all add: moved_def)
  note r = visible_readers [OF this ev_accounts [OF assms(3)] ev_accounts [OF moved_ok [OF assms(1)]]]
  show "read_account E (ev_StateDB ev') = read_account E (ev_StateDB ev)"
    "sd_refund (ev_StateDB ev') = sd_refund (ev_StateDB ev)" "sd_logs (ev_StateDB ev') = sd_logs (ev_StateDB ev)"
    by (rule r)+
  show "ev_depth ev' = ev_depth ev" "ev_readOnly ev' = ev_readOnly ev" using assms(1) by (simp_all add: moved_def)
qed

text \<open>The four calls share a contract; a static one runs with the flag set.\<close>

lemma calls_meet:
  fixes V :: "('t, 'd) venv"
  assumes "machine_ok V" "ev_ok ev" "runs T V gas run" "is_u64 gas"
    and "length (ref_Address caller) = AddressLength" "length addr = AddressLength"
    and "call = EVM_Call V run caller addr input gas value ev \<or> call = EVM_CallCode V run caller addr input gas value ev \<or>
      call = EVM_DelegateCall V run caller addr input gas ev \<or> call = EVM_StaticCall V run caller addr input gas ev"
  obtains k where "meets T (call_post k gas ev) call"
proof -
  note m = EVM_Call_meets EVM_CallCode_meets EVM_DelegateCall_meets EVM_StaticCall_meets
  show ?thesis using assms(7) that by (elim disjE) (metis m assms(1-6) order.refl)+
qed

lemma load_code_reads:
  fixes V :: "('t, 'd) venv"
  assumes "machine_ok V" "ev_ok ev"
  obtains h code ev1 where "load_code V addr c ev = Done (SetCallCode addr h code c, ev1)" "moved Silent ev ev1"
proof -
  have E: "ve_senv V = E" using assms(1) by (simp add: machine_ok_def)
  obtain h ev1 where h: "with_state (StateDB_GetCodeHash E addr) ev = Done (h, ev1)" "moved Silent ev ev1"
    using with_state_reads [where f = "StateDB_GetCodeHash E addr", OF assms(2)]
    unfolding StateDB_GetCodeHash_def using read_object_reads by metis
  then obtain code ev2 where c: "with_state (StateDB_GetCode E addr) ev1 = Done (code, ev2)" "moved Silent ev1 ev2"
    using with_state_reads [where f = "StateDB_GetCode E addr", OF moved_ok [OF h(2)]] GetCode_reads by metis
  show ?thesis using that [of h "code_bytes code" ev2] h c moved_trans [OF h(2) c(2)] by (simp add: load_code_def E)
qed

text \<open>A static call of the precompiled copy with a too small and with a large enough amount of gas.\<close>

lemma static_copy:
  fixes V :: "('t, 'd) venv"
  assumes "machine_ok V" "ev_ok ev" "ev_depth ev = 0" "\<not> ev_readOnly ev" "precompiled_at V addr = Some dataCopy"
    and "0 \<le> gas"
  shows "\<exists>ev'. EVM_StaticCall V run caller addr [] gas ev =
     Done (if gas < 15 then ([], 0, Some ErrOutOfGas, ev') else ([], gas - 15, None, ev'))"
proof -
  let ?ev = "ev\<lparr>ev_readOnly := True\<rparr>" and ?c = "NewContract caller (AccountRef addr) 0 gas"
  have ok: "ev_ok ?ev" using assms(2) by simp
  obtain i ev1 where s: "take_snapshot ?ev = (i, ev1)" by (cases "take_snapshot ?ev")
  note m = take_snapshot_moved(1) [OF ok s]
  obtain h code ev2 where l: "load_code V addr ?c ev1 = Done (SetCallCode addr h code ?c, ev2)" "moved Silent ev1 ev2"
    using load_code_reads [OF assms(1) moved_ok [OF m]] by metis
  obtain ev3 where r: "on_state (StateDB_RevertToSnapshot (ve_senv V) i) ev2 = Done ev3"
    using revert_moved [OF assms(1) ok s l(2)] by metis
  show ?thesis
    using s l(1) r assms(3-6)
    by (auto simp: EVM_StaticCall_def EVM_run_def SetCallCode_def NewContract_def RunPrecompiledContract_def
        dataCopy_RequiredGas_def per_word_gas_def IdentityPerWordGas_def IdentityBaseGas_def wrap_u64_def UseGas_def
        dataCopy_Run_def settle_def Let_def CallCreateDepth_def)
qed

end

subsection \<open>The machine over the accounts of the program\<close>

text \<open>A machine over secure tries; the states that its helper loads are well formed.\<close>

definition program_machine :: "crypto \<Rightarrow> node_db \<Rightarrow> (Trie, 'd) venv \<Rightarrow> bool" where
  "program_machine C D V \<longleftrightarrow> (\<exists>H K code F tx now. ve_senv V = program_env C D H K code F tx now) \<and>
     badger_ok (ve_senv V) \<and> (\<forall>c. length (crypto_NewHash C c) = HashLength) \<and>
     (\<forall>h d a st. ve_StateQueryHelper V = Some h \<longrightarrow> sq_NewEthStateLoader h d a = Some st \<longrightarrow>
        state_ok (ve_senv V) (secure_look C D) (wf_trie D) st)"

definition program_state :: "crypto \<Rightarrow> node_db \<Rightarrow> (Trie, 'd) venv \<Rightarrow> (Trie, 'd) EVM \<Rightarrow> bool" where
  "program_state C D V ev \<longleftrightarrow> state_ok (ve_senv V) (secure_look C D) (wf_trie D) (ev_StateDB ev)"

text \<open>The interpreter of the machine.\<close>

definition program_run :: "nat \<Rightarrow> ('t, 'd) venv \<Rightarrow> ('t, 'd) runner" where
  "program_run n V = Interpreter_Run n (NewEVMInterpreter V) V"

lemma program_machine_ok:
  assumes "program_machine C D V" "program_state C D V ev"
  obtains H K code F tx now where "ve_senv V = program_env C D H K code F tx now"
    "program_tries.machine_ok C D H K code F tx now V" "program_tries.ev_ok C D H K code F tx now ev"
    "program_tries.table_ok C D H K code F tx now V (NewEVMInterpreter V)"
proof -
  obtain H K code F tx now where e: "ve_senv V = program_env C D H K code F tx now"
    using assms(1) by (auto simp: program_machine_def)
  have "program_tries.machine_ok C D H K code F tx now V"
    using assms(1) e unfolding program_machine_def program_tries.machine_ok_def by (metis program_env_sel(1))
  moreover have "program_tries.ev_ok C D H K code F tx now ev"
    using assms(2) e by (simp add: program_state_def program_tries.ev_ok_def)
  ultimately show ?thesis using that e program_tries.NewEVMInterpreter_ok by blast
qed

text \<open>C7. The interpreter is sound: from a well-formed frame (a stack of at most 1024 words, gas that fits its width, a position
  that is not negative) over well-formed accounts, a round of the loop with the instruction set of the block never reads
  below the stack, for every opcode and every nested run, and the round that goes on leaves the frame and the accounts well
  formed.\<close>

theorem interpreter_step_sound:
  fixes V :: "(Trie, 'd) venv"
  assumes "program_machine C D V" "program_state C D V ev" "frame_ok f"
  shows "interp_step (NewEVMInterpreter V) V (program_run n V) f ev \<noteq> Crash stack_panic \<and>
    (\<forall>f' ev'. interp_step (NewEVMInterpreter V) V (program_run n V) f ev = Done (Inl (f', ev')) \<longrightarrow>
       frame_ok f' \<and> program_state C D V ev')"
proof -
  obtain H K code F tx now where e: "ve_senv V = program_env C D H K code F tx now"
    "program_tries.ev_ok C D H K code F tx now ev" "program_tries.table_ok C D H K code F tx now V (NewEVMInterpreter V)"
    by (rule program_machine_ok [OF assms(1,2)])
  have "program_tries.runs C D H K code F tx now True V (c_Gas (f_contract f) - 1) (program_run n V)"
    unfolding program_run_def using program_tries.Interpreter_Run_runs [OF e(3)] by simp
  note m = program_tries.interp_step_meets [OF e(3) assms(3) e(2) this]
  have ok: "program_state C D V ev'" if "program_tries.moved C D H K code F tx now k ev ev'" for k ev'
    using program_tries.moved_ok [OF that] by (simp add: program_state_def program_tries.ev_ok_def e(1))
  show ?thesis
    using m by (cases "interp_step (NewEVMInterpreter V) V (program_run n V) f ev")
      (auto simp: program_tries.step_post_def intro: ok)
qed

text \<open>C6. The interpreter returns: whatever code the contract holds, with fuel that is linear in its gas the run, with all
  the calls and creations inside it, ends with a result (and then with no more gas than it started with) or with a panic;
  it never runs for ever, and more fuel gives the same outcome.\<close>

theorem interpreter_returns:
  fixes V :: "(Trie, 'd) venv"
  assumes "program_machine C D V" "program_state C D V ev" "contract_ok c" "enough_fuel (c_Gas c) 0 \<le> int n"
  shows "(\<forall>m\<ge>n. program_run m V c inp ev = program_run n V c inp ev) \<and>
    ((\<exists>ret err c' ev'. program_run n V c inp ev = Done (ret, err, c', ev') \<and> 0 \<le> c_Gas c' \<and> c_Gas c' \<le> c_Gas c) \<or>
     (\<exists>e. program_run n V c inp ev = Crash e))"
proof -
  obtain H K code F tx now where e: "program_tries.ev_ok C D H K code F tx now ev"
    "program_tries.table_ok C D H K code F tx now V (NewEVMInterpreter V)"
    by (rule program_machine_ok [OF assms(1,2)])
  from program_tries.Interpreter_Run_runs [OF e(2), of False, OF disjI2, OF assms(4)] assms(3) e(1)
  have "meets False (\<lambda>(ret, err, c', ev'). 0 \<le> c_Gas c' \<and> c_Gas c' \<le> c_Gas c \<and>
      program_tries.moved C D H K code F tx now (allowed V ev) ev ev') (program_run n V c inp ev)"
    unfolding program_tries.runs_def program_run_def by blast
  then have r: "(\<exists>ret err c' ev'. program_run n V c inp ev = Done (ret, err, c', ev') \<and> 0 \<le> c_Gas c' \<and> c_Gas c' \<le> c_Gas c) \<or>
     (\<exists>e. program_run n V c inp ev = Crash e)"
    by (cases "program_run n V c inp ev") auto
  then have "program_run n V c inp ev \<noteq> Timeout" by auto
  then have "\<forall>m\<ge>n. program_run m V c inp ev = program_run n V c inp ev"
    unfolding program_run_def using Interpreter_Run_fuel [OF NewEVMInterpreter_steady] by blast
  with r show ?thesis by blast
qed

lemma program_calls_meet:
  fixes V :: "(Trie, 'd) venv"
  assumes "program_machine C D V" "program_state C D V ev" "is_u64 gas"
    and "length (ref_Address caller) = AddressLength" "length addr = AddressLength"
  obtains H K code F tx now where "ve_senv V = program_env C D H K code F tx now"
    "program_tries.machine_ok C D H K code F tx now V" "program_tries.ev_ok C D H K code F tx now ev"
    "program_tries.runs C D H K code F tx now True V gas (program_run n V)"
proof -
  obtain H K code F tx now where e: "ve_senv V = program_env C D H K code F tx now"
    "program_tries.machine_ok C D H K code F tx now V" "program_tries.ev_ok C D H K code F tx now ev"
    "program_tries.table_ok C D H K code F tx now V (NewEVMInterpreter V)"
    by (rule program_machine_ok [OF assms(1,2)])
  then show ?thesis using that program_tries.Interpreter_Run_runs [OF e(4)] unfolding program_run_def by blast
qed

text \<open>C3. A call that fails changes nothing: when any of the four kinds of call returns an error, whatever the callee and
  the contracts it called did before, every reader answers for every account as before the call, and so do the refund
  and the logs.\<close>

theorem failed_call_leaves_the_accounts:
  fixes V :: "(Trie, 'd) venv"
  assumes "program_machine C D V" "program_state C D V ev" "is_u64 gas"
    and "length (ref_Address caller) = AddressLength" "length addr = AddressLength"
    and "call = EVM_Call V (program_run n V) caller addr inp gas value ev \<or>
      call = EVM_CallCode V (program_run n V) caller addr inp gas value ev \<or>
      call = EVM_DelegateCall V (program_run n V) caller addr inp gas ev \<or>
      call = EVM_StaticCall V (program_run n V) caller addr inp gas ev"
    and "call = Done (ret, g, Some err, ev')"
  shows "read_account (ve_senv V) (ev_StateDB ev') = read_account (ve_senv V) (ev_StateDB ev) \<and>
    sd_refund (ev_StateDB ev') = sd_refund (ev_StateDB ev) \<and> sd_logs (ev_StateDB ev') = sd_logs (ev_StateDB ev)"
proof -
  obtain H K code F tx now where e: "ve_senv V = program_env C D H K code F tx now"
    "program_tries.machine_ok C D H K code F tx now V" "program_tries.ev_ok C D H K code F tx now ev"
    "program_tries.runs C D H K code F tx now True V gas (program_run n V)"
    by (rule program_calls_meet [OF assms(1-5)])
  obtain k where "meets True (program_tries.call_post C D H K code F tx now k gas ev) call"
    using program_tries.calls_meet [OF e(2-4) assms(3-6)] by blast
  then have m: "program_tries.moved C D H K code F tx now Silent ev ev'"
    using assms(7) by (simp add: program_tries.call_post_def)
  show ?thesis unfolding e(1) using program_tries.moved_readers [OF m _ e(3)] by simp
qed

text \<open>Any of the four kinds of call returns at most the gas it was given, and leaves the depth, the read-only flag and
  the well-formedness of the accounts as they were.\<close>

theorem call_returns_no_more_gas:
  fixes V :: "(Trie, 'd) venv"
  assumes "program_machine C D V" "program_state C D V ev" "is_u64 gas"
    and "length (ref_Address caller) = AddressLength" "length addr = AddressLength"
    and "call = EVM_Call V (program_run n V) caller addr inp gas value ev \<or>
      call = EVM_CallCode V (program_run n V) caller addr inp gas value ev \<or>
      call = EVM_DelegateCall V (program_run n V) caller addr inp gas ev \<or>
      call = EVM_StaticCall V (program_run n V) caller addr inp gas ev"
    and "call = Done (ret, g, err, ev')"
  shows "0 \<le> g \<and> g \<le> gas \<and> ev_depth ev' = ev_depth ev \<and> ev_readOnly ev' = ev_readOnly ev \<and> program_state C D V ev'"
proof -
  obtain H K code F tx now where e: "ve_senv V = program_env C D H K code F tx now"
    "program_tries.machine_ok C D H K code F tx now V" "program_tries.ev_ok C D H K code F tx now ev"
    "program_tries.runs C D H K code F tx now True V gas (program_run n V)"
    by (rule program_calls_meet [OF assms(1-5)])
  obtain k where "meets True (program_tries.call_post C D H K code F tx now k gas ev) call"
    using program_tries.calls_meet [OF e(2-4) assms(3-6)] by blast
  then have m: "0 \<le> g" "g \<le> gas" "program_tries.moved C D H K code F tx now k ev ev'"
    using assms(7) by (simp_all add: program_tries.call_post_def)
  show ?thesis using m program_tries.moved_ok [OF m(3)]
    by (simp add: program_tries.moved_def program_tries.ev_ok_def program_state_def e(1))
qed

text \<open>C2. A static call changes nothing: under the rules of Byzantium, whatever it returns and whatever contracts are called
  inside it, every reader answers for every account as before, and no log is added.\<close>

theorem static_call_changes_nothing:
  fixes V :: "(Trie, 'd) venv"
  assumes "program_machine C D V" "program_state C D V ev" "is_u64 gas"
    and "length (ref_Address caller) = AddressLength" "length addr = AddressLength"
    and "ru_IsByzantium (ChainConfig_Rules (ve_chainConfig V) (block V))"
    and "EVM_StaticCall V (program_run n V) caller addr inp gas ev = Done (ret, g, err, ev')"
  shows "read_account (ve_senv V) (ev_StateDB ev') = read_account (ve_senv V) (ev_StateDB ev) \<and>
    sd_refund (ev_StateDB ev') = sd_refund (ev_StateDB ev) \<and> sd_logs (ev_StateDB ev') = sd_logs (ev_StateDB ev)"
proof -
  obtain H K code F tx now where e: "ve_senv V = program_env C D H K code F tx now"
    "program_tries.machine_ok C D H K code F tx now V" "program_tries.ev_ok C D H K code F tx now ev"
    "program_tries.runs C D H K code F tx now True V gas (program_run n V)"
    by (rule program_calls_meet [OF assms(1-5)])
  have "allowed V (ev\<lparr>ev_readOnly := True\<rparr>) = Recording" using assms(6) by (simp add: allowed_def restricted_def)
  then have m: "program_tries.moved C D H K code F tx now Recording ev ev'"
    using program_tries.EVM_StaticCall_meets [OF e(2-4) assms(3) order.refl assms(4,5), of inp] assms(7)
    by (simp add: program_tries.call_post_def)
  show ?thesis unfolding e(1) using program_tries.moved_readers [OF m _ e(3)] by simp
qed

subsection \<open>A sample machine\<close>

definition sample_machine :: "(Trie, unit) venv" where
  "sample_machine =
     \<lparr>ve_senv = sample_senv,
      ve_natives = \<lparr>na_crypto = flat_crypto, na_sha256 = (\<lambda>b. b), na_ripemd160 = (\<lambda>b. b), bn_G1 = (\<lambda>b. None), bn_G2 = (\<lambda>b. None),
        bn_Add = (\<lambda>a b. a), bn_ScalarMult = (\<lambda>a n. a), bn_PairingCheck = (\<lambda>a b. True)\<rparr>,
      ve_Context = \<lparr>cx_GetHash = (\<lambda>n. zero_hash), cx_Origin = replicate 20 9, cx_GasPrice = 1, cx_Coinbase = replicate 20 0,
        cx_GasLimit = 1000, cx_BlockNumber = 5000000, cx_Difficulty = None\<rparr>,
      ve_chainConfig = MainnetChainConfig, ve_NoRecursion = False, ve_EnablePreimageRecording = False,
      ve_StateQueryHelper = None, ve_clock = int\<rparr>"

definition sample_evm :: "(Trie, unit) EVM" where
  "sample_evm = \<lparr>ev_StateDB = sample_state, ev_disk = (), ev_depth = 0, ev_callGasTemp = 0, ev_readOnly = False,
     ev_returnData = [], ev_Time = 0, ev_ticks = 0\<rparr>"

text \<open>A contract that pushes two bytes and adds them.\<close>

definition sample_contract :: Contract where
  "sample_contract = (NewContract (AccountRef (replicate 20 9)) (AccountRef (replicate 20 7)) 0 100)
     \<lparr>c_Code := [0x60, 1, 0x60, 2, 0x01, 0x00]\<rparr>"

definition sample_frame :: Frame where
  "sample_frame = \<lparr>f_pc = 0, f_contract = sample_contract, f_mem = NewMemory, f_stack = []\<rparr>"

definition copy_address :: AddressBytes where "copy_address = replicate 19 0 @ [4]"

lemma sample_machine_ok: "program_machine flat_crypto no_nodes sample_machine"
proof -
  have "ve_senv sample_machine = sample_senv" by (simp add: sample_machine_def)
  moreover have "ve_StateQueryHelper sample_machine = None" by (simp add: sample_machine_def)
  moreover have "length (crypto_NewHash flat_crypto c) = HashLength" for c
    by (simp add: crypto_NewHash_def flat_crypto_def BytesToHash_def fill_right_def)
  ultimately show ?thesis using sample_badger_ok unfolding program_machine_def sample_senv_def by (metis option.simps(3))
qed

lemma sample_evm_ok: "program_state flat_crypto no_nodes sample_machine sample_evm"
  using sample_state_ok by (simp add: program_state_def sample_machine_def sample_evm_def)

lemma sample_rules:
  "IsByzantium (ve_chainConfig sample_machine) (block sample_machine)"
  "ru_IsByzantium (ChainConfig_Rules (ve_chainConfig sample_machine) (block sample_machine))"
  by (simp_all add: sample_machine_def MainnetChainConfig_def IsByzantium_def ChainConfig_Rules_def isForked_def
      isForked_def)

lemma sample_lengths: "length (ref_Address (AccountRef (replicate 20 9))) = AddressLength" "length copy_address = AddressLength"
  by (simp_all add: AddressLength_def copy_address_def)

lemma sample_copy: "precompiled_at sample_machine copy_address = Some dataCopy"
proof -
  have "map_of PrecompiledContractsByzantium copy_address = Some dataCopy" by code_simp
  then show ?thesis by (simp add: precompiled_at_def sample_rules)
qed

lemma sample_static_call:
  assumes "0 \<le> gas"
  shows "\<exists>ev'. EVM_StaticCall sample_machine (program_run 0 sample_machine) (AccountRef (replicate 20 9)) copy_address [] gas sample_evm =
     Done (if gas < 15 then ([], 0, Some ErrOutOfGas, ev') else ([], gas - 15, None, ev'))"
proof -
  obtain H K code F tx now where e:
    "program_tries.machine_ok flat_crypto no_nodes H K code F tx now sample_machine"
    "program_tries.ev_ok flat_crypto no_nodes H K code F tx now sample_evm"
    by (rule program_machine_ok [OF sample_machine_ok sample_evm_ok])
  show ?thesis
    by (rule program_tries.static_copy [OF e _ _ sample_copy assms]) (simp_all add: sample_evm_def)
qed

theorem interpreter_step_sound_witness:
  "interp_step (NewEVMInterpreter sample_machine) sample_machine (program_run 0 sample_machine) sample_frame sample_evm \<noteq> Crash stack_panic"
proof -
  have "frame_ok sample_frame"
    by (simp add: frame_ok_def sample_frame_def contract_ok_def sample_contract_def NewContract_def is_u64_def AddressLength_def)
  from interpreter_step_sound [OF sample_machine_ok sample_evm_ok this] show ?thesis by blast
qed

theorem interpreter_returns_witness:
  "program_run (nat (enough_fuel 100 0)) sample_machine sample_contract [] sample_evm \<noteq> Timeout"
proof -
  have "contract_ok sample_contract" "enough_fuel (c_Gas sample_contract) 0 \<le> int (nat (enough_fuel 100 0))"
    by (simp_all add: contract_ok_def sample_contract_def NewContract_def is_u64_def AddressLength_def)
  from interpreter_returns [OF sample_machine_ok sample_evm_ok this, of "[]"] show ?thesis by force
qed

theorem failed_call_leaves_the_accounts_witness:
  "\<exists>ev'. EVM_StaticCall sample_machine (program_run 0 sample_machine) (AccountRef (replicate 20 9)) copy_address [] 10 sample_evm =
      Done ([], 0, Some ErrOutOfGas, ev') \<and>
    read_account (ve_senv sample_machine) (ev_StateDB ev') = read_account (ve_senv sample_machine) (ev_StateDB sample_evm)"
proof -
  obtain ev' where call: "EVM_StaticCall sample_machine (program_run 0 sample_machine) (AccountRef (replicate 20 9)) copy_address [] 10
      sample_evm = Done ([], 0, Some ErrOutOfGas, ev')"
    using sample_static_call [of 10] by auto
  have "is_u64 10" by (simp add: is_u64_def)
  from failed_call_leaves_the_accounts [OF sample_machine_ok sample_evm_ok this sample_lengths disjI2 [OF disjI2 [OF disjI2]],
      OF refl call] call show ?thesis by blast
qed

theorem call_returns_no_more_gas_witness:
  "\<exists>g ev'. EVM_StaticCall sample_machine (program_run 0 sample_machine) (AccountRef (replicate 20 9)) copy_address [] 100 sample_evm =
      Done ([], g, None, ev') \<and> 0 \<le> g \<and> g \<le> 100 \<and> program_state flat_crypto no_nodes sample_machine ev'"
proof -
  obtain ev' where call: "EVM_StaticCall sample_machine (program_run 0 sample_machine) (AccountRef (replicate 20 9)) copy_address [] 100
      sample_evm = Done ([], 85, None, ev')"
    using sample_static_call [of 100] by auto
  have "is_u64 100" by (simp add: is_u64_def)
  from call_returns_no_more_gas [OF sample_machine_ok sample_evm_ok this sample_lengths disjI2 [OF disjI2 [OF disjI2]],
      OF refl call] call show ?thesis by blast
qed

theorem static_call_changes_nothing_witness:
  "\<exists>ev'. EVM_StaticCall sample_machine (program_run 0 sample_machine) (AccountRef (replicate 20 9)) copy_address [] 100 sample_evm =
      Done ([], 85, None, ev') \<and> sd_logs (ev_StateDB ev') = sd_logs (ev_StateDB sample_evm)"
proof -
  obtain ev' where call: "EVM_StaticCall sample_machine (program_run 0 sample_machine) (AccountRef (replicate 20 9)) copy_address [] 100
      sample_evm = Done ([], 85, None, ev')"
    using sample_static_call [of 100] by auto
  have "is_u64 100" by (simp add: is_u64_def)
  from static_call_changes_nothing [OF sample_machine_ok sample_evm_ok this sample_lengths sample_rules(2) call] call
  show ?thesis by blast
qed


text \<open>What a value that an outcome ends with satisfies.\<close>

definition ends :: "('a \<Rightarrow> bool) \<Rightarrow> 'a outcome \<Rightarrow> bool" where
  "ends P r = (case r of Done x \<Rightarrow> P x | _ \<Rightarrow> True)"

lemma ends_bind: "(\<And>x. r = Done x \<Longrightarrow> ends P (k x)) \<Longrightarrow> ends P (outcome_bind r k)"
  by (cases r) (simp_all add: ends_def)

lemma ends_popping: "(\<And>x st'. ends P (k x st')) \<Longrightarrow> ends P (popping k st)"
  by (cases st) (simp_all add: ends_def)

lemma end_call_ends: "ev_StateDB ev = s \<Longrightarrow> ends (\<lambda>(res, err, f', ev'). ev_StateDB ev' = s) (end_call retOffset retSize st f (ret, g, err, ev))"
  unfolding end_call_def prod.case by (intro ends_bind) (simp add: ends_def)

text \<open>C37. \<open>CALL\<close> gives the interpreter back the account state it had before: the callee runs on another state, that is
  loaded and committed on its own, so that the value sent is never taken from the balance the caller sees.\<close>

theorem opCall_keeps_the_callers_state:
  "case opCall V run f ev of Done (res, err, f', ev') \<Rightarrow> ev_StateDB ev' = ev_StateDB ev | _ \<Rightarrow> True"
proof -
  have "ends (\<lambda>(res, err, f', ev'). ev_StateDB ev' = ev_StateDB ev) (opCall V run f ev)"
    unfolding opCall_def Let_def
    by (intro ends_popping ends_bind) (auto simp: ends_def [of _ "Crash e" for e] split: option.split intro!: ends_bind end_call_ends)
  then show ?thesis by (auto simp: ends_def split: outcome.splits)
qed

end
