(* ===== verification/Evm_Transition.thy ===== *)
theory Evm_Transition
  imports Evm_Safety
begin

section \<open>Transactions on the account state: dvm/ethereum/state_transition.go, gaspool.go\<close>

text \<open>
  A message buys gas, pays for its data, creates or calls a contract and gets the rest of its gas back.

  \<^item> \<open>Message\<close> of \<open>types/transaction.go\<close> and \<open>AsMessage\<close>, which makes one of a transaction of the ledger.
  \<^item> \<open>GasPool\<close>, a \<open>uint64\<close> behind a pointer: the number here, in and out of each operation.
  \<^item> \<open>StateTransition\<close> and its methods, in the order of the file; the machine inside it is the one of Evm, and the interpreter
    is the argument \<open>run\<close>. The log output is not modelled.

  The lemmas follow a transition through the judgement \<open>meets\<close> of Evm_Calls: whatever the contracts do, the gas that the
  message used is at most what it bought, at least half of the price of its data, and missing from the pool.
\<close>

subsection \<open>gaspool.go\<close>

text \<open>The errors of \<open>error.go\<close> and \<open>state_transition.go\<close>, and those of the machine.\<close>

datatype transition_error =
  errInsufficientBalanceForGas | ErrGasLimitReached | ErrNonceTooHigh | ErrNonceTooLow | VmError vm_error

definition GasPool_AddGas :: "int \<Rightarrow> int \<Rightarrow> int result" where
  "GasPool_AddGas amount gp =
     (if gp > MaxUint64 - amount then Panic ''gas pool pushed above uint64'' else Ok (gp + amount))"

definition GasPool_SubGas :: "int \<Rightarrow> int \<Rightarrow> transition_error option \<times> int" where
  "GasPool_SubGas amount gp = (if gp < amount then (Some ErrGasLimitReached, gp) else (None, gp - amount))"

definition GasPool_Gas :: "int \<Rightarrow> int" where
  "GasPool_Gas gp = gp"

subsection \<open>types/transaction.go: messages\<close>

record Message =
  mg_to :: "AddressBytes option"
  mg_from :: AddressBytes
  mg_nonce :: int
  mg_amount :: int
  mg_gasLimit :: int
  mg_gasPrice :: int
  mg_data :: "byte list"
  mg_checkNonce :: bool

definition NewMessage ::
  "AddressBytes \<Rightarrow> AddressBytes option \<Rightarrow> int \<Rightarrow> int \<Rightarrow> int \<Rightarrow> int \<Rightarrow> byte list \<Rightarrow> bool \<Rightarrow> Message" where
  "NewMessage from to nonce amount gasLimit gasPrice data checkNonce =
     \<lparr>mg_to = to, mg_from = from, mg_nonce = nonce, mg_amount = amount, mg_gasLimit = gasLimit, mg_gasPrice = gasPrice,
      mg_data = data, mg_checkNonce = checkNonce\<rparr>"

text \<open>\<open>common.Hex2Bytes\<close> and \<open>FromHex\<close>: what was decoded before an error stays.\<close>

definition Hex2Bytes :: "string \<Rightarrow> byte list" where
  "Hex2Bytes s = hex_prefix s"

definition FromHex :: "string \<Rightarrow> byte list" where
  "FromHex s =
     (let s1 = (if 1 < length s \<and> (take 2 s = ''0x'' \<or> take 2 s = ''0X'') then drop 2 s else s);
          s2 = (if odd (length s1) then ''0'' @ s1 else s1)
      in Hex2Bytes s2)"

definition AsMessage :: "Transaction \<Rightarrow> int \<Rightarrow> Message result" where
  "AsMessage tx gasLimit =
     (if tx_To tx = []
      then result_bind (GetAddressBytes (tx_From tx)) (\<lambda>from.
        Ok \<lparr>mg_to = None, mg_from = from, mg_nonce = 1, mg_amount = tx_Value tx, mg_gasLimit = gasLimit, mg_gasPrice = 0,
            mg_data = FromHex (tx_Code tx), mg_checkNonce = False\<rparr>)
      else result_bind (GetAddressBytes (tx_To tx)) (\<lambda>to.
        result_bind (GetAddressBytes (tx_From tx)) (\<lambda>from.
        Ok \<lparr>mg_to = Some to, mg_from = from, mg_nonce = 1, mg_amount = tx_Value tx, mg_gasLimit = gasLimit, mg_gasPrice = 0,
            mg_data = FromHex (tx_Code tx), mg_checkNonce = False\<rparr>)))"

subsection \<open>state_transition.go\<close>

primrec count_nonzero :: "byte list \<Rightarrow> int" where
  "count_nonzero [] = 0"
| "count_nonzero (b # bs) = (if b \<noteq> 0 then 1 else 0) + count_nonzero bs"

definition IntrinsicGas :: "byte list \<Rightarrow> bool \<Rightarrow> bool \<Rightarrow> int option" where
  "IntrinsicGas data contractCreation homestead =
     (let gas = (if contractCreation \<and> homestead then TxGasContractCreation else TxGas)
      in if 0 < length data then
           (let nz = count_nonzero data
            in if (MaxUint64 - gas) div TxDataNonZeroGas < nz then None
               else let gas1 = wrap_u64 (gas + nz * TxDataNonZeroGas); z = int (length data) - nz
                    in if (MaxUint64 - gas1) div TxDataZeroGas < z then None
                       else Some (wrap_u64 (gas1 + z * TxDataZeroGas)))
         else Some gas)"

record ('t, 'd) StateTransition =
  tn_gp :: int
  tn_msg :: Message
  tn_gas :: int
  tn_gasPrice :: int
  tn_initialGas :: int
  tn_value :: int
  tn_data :: "byte list"
  tn_evm :: "('t, 'd) EVM"

definition NewStateTransition :: "('t, 'd) EVM \<Rightarrow> Message \<Rightarrow> int \<Rightarrow> ('t, 'd) StateTransition" where
  "NewStateTransition ev msg gp =
     \<lparr>tn_gp = gp, tn_msg = msg, tn_gas = 0, tn_gasPrice = mg_gasPrice msg, tn_initialGas = 0, tn_value = mg_amount msg,
      tn_data = mg_data msg, tn_evm = ev\<rparr>"

definition StateTransition_to :: "('t, 'd) StateTransition \<Rightarrow> AddressBytes" where
  "StateTransition_to st = (case mg_to (tn_msg st) of None \<Rightarrow> replicate AddressLength 0 | Some a \<Rightarrow> a)"

definition StateTransition_useGas :: "int \<Rightarrow> ('t, 'd) StateTransition \<Rightarrow> transition_error option \<times> ('t, 'd) StateTransition" where
  "StateTransition_useGas amount st =
     (if tn_gas st < amount then (Some (VmError ErrOutOfGas), st) else (None, st\<lparr>tn_gas := tn_gas st - amount\<rparr>))"

definition StateTransition_gasUsed :: "('t, 'd) StateTransition \<Rightarrow> int" where
  "StateTransition_gasUsed st = wrap_u64 (tn_initialGas st - tn_gas st)"

text \<open>The uses of \<open>st.state\<close>, which is the account state of the machine.\<close>

definition asking ::
  "('t StateDB \<Rightarrow> ('a \<times> 't StateDB) result) \<Rightarrow> ('t, 'd) StateTransition \<Rightarrow> ('a \<times> ('t, 'd) StateTransition) outcome" where
  "asking f st = outcome_bind (with_state f (tn_evm st)) (\<lambda>(x, ev). Done (x, st\<lparr>tn_evm := ev\<rparr>))"

definition telling :: "('t StateDB \<Rightarrow> 't StateDB result) \<Rightarrow> ('t, 'd) StateTransition \<Rightarrow> ('t, 'd) StateTransition outcome" where
  "telling f st = outcome_bind (on_state f (tn_evm st)) (\<lambda>ev. Done (st\<lparr>tn_evm := ev\<rparr>))"

definition StateTransition_buyGas ::
  "('t, 'd) venv \<Rightarrow> ('t, 'd) StateTransition \<Rightarrow> (transition_error option \<times> ('t, 'd) StateTransition) outcome" where
  "StateTransition_buyGas V st =
     (let from = mg_from (tn_msg st); mgval = mg_gasLimit (tn_msg st) * tn_gasPrice st in
      outcome_bind (asking (StateDB_GetBalance (ve_senv V) from) st) (\<lambda>(balance, st1).
      if balance < mgval then Done (Some errInsufficientBalanceForGas, st1)
      else case GasPool_SubGas (mg_gasLimit (tn_msg st)) (tn_gp st1) of
        (Some err, gp) \<Rightarrow> Done (Some err, st1\<lparr>tn_gp := gp\<rparr>)
      | (None, gp) \<Rightarrow>
          outcome_bind
            (telling (StateDB_SubBalance (ve_senv V) from mgval)
              (st1\<lparr>tn_gp := gp, tn_gas := wrap_u64 (tn_gas st1 + mg_gasLimit (tn_msg st)), tn_initialGas := mg_gasLimit (tn_msg st)\<rparr>))
            (\<lambda>st2. Done (None, st2))))"

definition StateTransition_preCheck ::
  "('t, 'd) venv \<Rightarrow> ('t, 'd) StateTransition \<Rightarrow> (transition_error option \<times> ('t, 'd) StateTransition) outcome" where
  "StateTransition_preCheck V st =
     (if mg_checkNonce (tn_msg st)
      then outcome_bind (asking (StateDB_GetNonce (ve_senv V) (mg_from (tn_msg st))) st) (\<lambda>(nonce, st1).
        if nonce < mg_nonce (tn_msg st) then Done (Some ErrNonceTooHigh, st1)
        else if nonce > mg_nonce (tn_msg st) then Done (Some ErrNonceTooLow, st1)
        else StateTransition_buyGas V st1)
      else StateTransition_buyGas V st)"

text \<open>The refund counter is a \<open>uint64\<close>.\<close>

definition StateTransition_refundGas :: "('t, 'd) venv \<Rightarrow> ('t, 'd) StateTransition \<Rightarrow> ('t, 'd) StateTransition outcome" where
  "StateTransition_refundGas V st =
     (let counter = wrap_u64 (StateDB_GetRefund (ev_StateDB (tn_evm st)));
          refund = (let r = StateTransition_gasUsed st div 2 in if r > counter then counter else r);
          gas = wrap_u64 (tn_gas st + refund);
          remaining = gas * tn_gasPrice st
      in outcome_bind (telling (StateDB_AddBalance (ve_senv V) (mg_from (tn_msg st)) remaining) (st\<lparr>tn_gas := gas\<rparr>)) (\<lambda>st1.
         outcome_bind (of_result (GasPool_AddGas gas (tn_gp st1))) (\<lambda>gp. Done (st1\<lparr>tn_gp := gp\<rparr>))))"

text \<open>What \<open>TransitionDb\<close> returns: bytes, contract address, used gas, whether the machine failed, error.\<close>

type_synonym ('t, 'd) transition_result =
  "(byte list \<times> AddressBytes \<times> int \<times> bool \<times> transition_error option \<times> ('t, 'd) StateTransition) outcome"

text \<open>\<open>st.state.SetNonce(msg.From(), st.state.GetNonce(sender.Address())+1)\<close>.\<close>

definition StateTransition_nextNonce :: "('t, 'd) venv \<Rightarrow> ('t, 'd) StateTransition \<Rightarrow> ('t, 'd) StateTransition outcome" where
  "StateTransition_nextNonce V st =
     (let from = mg_from (tn_msg st) in
      outcome_bind (asking (StateDB_GetNonce (ve_senv V) from) st) (\<lambda>(nonce, st1).
        telling (StateDB_SetNonce (ve_senv V) from (wrap_u64 (nonce + 1))) st1))"

text \<open>The creation or the call.\<close>

definition StateTransition_execute ::
  "('t, 'd) venv \<Rightarrow> ('t, 'd) runner \<Rightarrow> ('t, 'd) StateTransition \<Rightarrow>
     (byte list \<times> AddressBytes \<times> vm_error option \<times> ('t, 'd) StateTransition) outcome" where
  "StateTransition_execute V run st =
     (let sender = AccountRef (mg_from (tn_msg st)) in
      if mg_to (tn_msg st) = None
      then outcome_bind (EVM_Create V run sender (tn_data st) (tn_gas st) (tn_value st) (tn_evm st))
             (\<lambda>(ret, contractAddress, gas, vmerr, ev).
           outcome_bind (StateTransition_nextNonce V (st\<lparr>tn_gas := gas, tn_evm := ev\<rparr>)) (\<lambda>st1.
             Done (ret, contractAddress, vmerr, st1)))
      else outcome_bind (StateTransition_nextNonce V st) (\<lambda>st1.
           outcome_bind (EVM_Call V run sender (StateTransition_to st1) (tn_data st1) (tn_gas st1) (tn_value st1) (tn_evm st1))
             (\<lambda>(ret, gas, vmerr, ev).
             Done (ret, replicate AddressLength 0, vmerr, st1\<lparr>tn_gas := gas, tn_evm := ev\<rparr>))))"

text \<open>The end of a transition; an insufficient balance returns before the refund.\<close>

definition StateTransition_finish ::
  "('t, 'd) venv \<Rightarrow> byte list \<times> AddressBytes \<times> vm_error option \<times> ('t, 'd) StateTransition \<Rightarrow> ('t, 'd) transition_result" where
  "StateTransition_finish V r =
     (case r of (ret, contractAddress, vmerr, st) \<Rightarrow>
        if vmerr = Some ErrInsufficientBalance
        then Done ([], contractAddress, 0, False, Some (VmError ErrInsufficientBalance), st)
        else
          outcome_bind (StateTransition_refundGas V st) (\<lambda>st1.
          outcome_bind
            (telling (StateDB_AddBalance (ve_senv V) (cx_Coinbase (ve_Context V)) (StateTransition_gasUsed st1 * tn_gasPrice st1)) st1)
            (\<lambda>st2.
          Done (ret, contractAddress, StateTransition_gasUsed st2, vmerr \<noteq> None, map_option VmError vmerr, st2))))"

definition TransitionDb :: "('t, 'd) venv \<Rightarrow> ('t, 'd) runner \<Rightarrow> ('t, 'd) StateTransition \<Rightarrow> ('t, 'd) transition_result" where
  "TransitionDb V run st =
     (let nowhere = replicate AddressLength 0 in
      outcome_bind (StateTransition_preCheck V st) (\<lambda>(err, st1).
      case err of
        Some e \<Rightarrow> Done ([], nowhere, 0, False, Some e, st1)
      | None \<Rightarrow>
          (case IntrinsicGas (tn_data st1) (mg_to (tn_msg st1) = None) (IsHomestead (ve_chainConfig V) (block V)) of
             None \<Rightarrow> Done ([], nowhere, 0, False, Some (VmError ErrOutOfGas), st1)
           | Some gas \<Rightarrow>
               (case StateTransition_useGas gas st1 of
                  (Some e, st2) \<Rightarrow> Done ([], nowhere, 0, False, Some e, st2)
                | (None, st2) \<Rightarrow>
                    outcome_bind (StateTransition_execute V run st2) (StateTransition_finish V)))))"

definition ApplyMessage ::
  "('t, 'd) venv \<Rightarrow> ('t, 'd) runner \<Rightarrow> ('t, 'd) EVM \<Rightarrow> Message \<Rightarrow> int \<Rightarrow> ('t, 'd) transition_result" where
  "ApplyMessage V run ev msg gp = TransitionDb V run (NewStateTransition ev msg gp)"

subsection \<open>The price of the data\<close>

lemma count_nonzero: "count_nonzero data = int (length (filter (\<lambda>b. b \<noteq> 0) data))"
  by (induction data) auto

text \<open>The guards against overflow refuse exactly the data whose price does not fit in 64 bits.\<close>

lemma div_guard: assumes "0 < (c :: int)" shows "m div c < n \<longleftrightarrow> m < n * c"
proof
  assume "m div c < n"
  then have "(m div c + 1) * c \<le> n * c" using assms by (intro mult_right_mono) auto
  moreover have "m < (m div c + 1) * c"
    using div_mult_mod_eq [of m c] pos_mod_bound [OF assms, of m] unfolding distrib_right by linarith
  ultimately show "m < n * c" by linarith
next
  assume m: "m < n * c"
  have "m div c * c \<le> m" using div_mult_mod_eq [of m c] pos_mod_sign [OF assms, of m] by linarith
  with m have "m div c * c < n * c" by linarith
  then show "m div c < n" using assms by simp
qed

lemma IntrinsicGas_eq:
  "IntrinsicGas data contractCreation homestead =
     (let nz = int (length (filter (\<lambda>b. b \<noteq> 0) data));
          total = (if contractCreation \<and> homestead then TxGasContractCreation else TxGas) +
            nz * TxDataNonZeroGas + (int (length data) - nz) * TxDataZeroGas
      in if total \<le> MaxUint64 then Some total else None)"
proof -
  define gas where "gas = (if contractCreation \<and> homestead then TxGasContractCreation else TxGas)"
  define nz where "nz = int (length (filter (\<lambda>b. b \<noteq> 0) data))"
  have g: "0 \<le> gas" "gas \<le> MaxUint64" by (simp_all add: gas_def TxGas_def TxGasContractCreation_def MaxUint64_def)
  have n: "0 \<le> nz" "nz \<le> int (length data)" by (simp_all add: nz_def)
  have w: "wrap_u64 x = x" if "0 \<le> x" "x \<le> MaxUint64" for x using that by (intro wrap_u64_id) (simp add: is_u64_def MaxUint64_def)
  have guards: "(MaxUint64 - y) div TxDataNonZeroGas < x \<longleftrightarrow> MaxUint64 < y + x * TxDataNonZeroGas"
    "(MaxUint64 - y) div TxDataZeroGas < x \<longleftrightarrow> MaxUint64 < y + x * TxDataZeroGas" for x y
    by (auto simp: TxDataNonZeroGas_def TxDataZeroGas_def div_guard [of 68] div_guard [of 4])
  have p: "0 \<le> nz * TxDataNonZeroGas" "0 \<le> (int (length data) - nz) * TxDataZeroGas"
    using n by (simp_all add: TxDataNonZeroGas_def TxDataZeroGas_def)
  show ?thesis
  proof (cases "data = []")
    case False
    then show ?thesis
      using p g w [of "gas + nz * TxDataNonZeroGas"] w [of "gas + nz * TxDataNonZeroGas + (int (length data) - nz) * TxDataZeroGas"]
      by (simp add: IntrinsicGas_def count_nonzero guards Let_def flip: gas_def nz_def)
  qed (use g in \<open>simp add: IntrinsicGas_def Let_def flip: gas_def\<close>)
qed

lemma intrinsic_gas_nonneg: "IntrinsicGas data c h = Some g \<Longrightarrow> 0 \<le> g"
proof -
  have "int (length (filter (\<lambda>b. b \<noteq> 0) data)) \<le> int (length data)" by simp
  then show "IntrinsicGas data c h = Some g \<Longrightarrow> 0 \<le> g"
    by (auto simp: IntrinsicGas_eq Let_def TxGasContractCreation_def TxGas_def TxDataNonZeroGas_def TxDataZeroGas_def split: if_splits)
qed

text \<open>C40. The intrinsic gas is exact: it is the base price and 68 for each non-zero and 4 for each zero byte of the data, and
  an error precisely when that sum does not fit in 64 bits.\<close>

theorem intrinsic_gas_exact:
  "IntrinsicGas data contractCreation homestead =
     (let nz = int (length (filter (\<lambda>b. b \<noteq> 0) data));
          total = (if contractCreation \<and> homestead then 53000 else 21000) + 68 * nz + 4 * (int (length data) - nz)
      in if total < 2 ^ 64 then Some total else None)"
  by (simp add: IntrinsicGas_eq Let_def TxGasContractCreation_def TxGas_def TxDataNonZeroGas_def TxDataZeroGas_def
      MaxUint64_def mult.commute)

subsection \<open>Transitions\<close>

lemma bind_asking:
  "outcome_bind (asking f st) (case_prod k) =
     outcome_bind (with_state f (tn_evm st)) (\<lambda>(x, ev). k x (st\<lparr>tn_evm := ev\<rparr>))"
  by (cases "with_state f (tn_evm st)") (auto simp: asking_def)

lemma bind_telling:
  "outcome_bind (telling f st) k = outcome_bind (on_state f (tn_evm st)) (\<lambda>ev. k (st\<lparr>tn_evm := ev\<rparr>))"
  by (cases "on_state f (tn_evm st)") (auto simp: telling_def)

lemma telling_bind: "telling f st = outcome_bind (telling f st) Done"
  by (cases "telling f st") auto

lemma NewStateTransition_fields [simp]:
  "tn_gp (NewStateTransition ev m gp) = gp" "tn_msg (NewStateTransition ev m gp) = m" "tn_gas (NewStateTransition ev m gp) = 0"
  "tn_gasPrice (NewStateTransition ev m gp) = mg_gasPrice m" "tn_initialGas (NewStateTransition ev m gp) = 0"
  "tn_value (NewStateTransition ev m gp) = mg_amount m" "tn_data (NewStateTransition ev m gp) = mg_data m"
  "tn_evm (NewStateTransition ev m gp) = ev"
  by (simp_all add: NewStateTransition_def)

text \<open>A message between well-formed accounts.\<close>

definition message_ok :: "Message \<Rightarrow> bool" where
  "message_ok m \<longleftrightarrow> length (mg_from m) = AddressLength \<and> (\<forall>a. mg_to m = Some a \<longrightarrow> length a = AddressLength) \<and>
     is_u64 (mg_gasLimit m)"

text \<open>What a transition has come to: it was refused, or has used gas that is missing from the pool.\<close>

definition settled ::
  "Message \<Rightarrow> bool \<Rightarrow> int \<Rightarrow> int \<Rightarrow> bool \<Rightarrow> transition_error option \<Rightarrow> int \<Rightarrow> bool" where
  "settled m homestead gp used failed err gp' \<longleftrightarrow>
     used = 0 \<and> \<not> failed \<and> err \<noteq> None \<and> (gp' = gp \<or> gp' = gp - mg_gasLimit m) \<or>
     used \<le> mg_gasLimit m \<and> gp' = gp - used \<and> failed = (err \<noteq> None) \<and>
       (\<exists>g. IntrinsicGas (mg_data m) (mg_to m = None) homestead = Some g \<and> g \<le> 2 * used)"

context account_tries
begin

lemma meets_asking:
  assumes "moved Writing ev0 (tn_evm st)" "\<And>st. accounts_ok E look tr_ok st \<Longrightarrow> reads (f st) st"
    and "\<And>x ev1. moved Writing ev0 ev1 \<Longrightarrow> meets T P (k x (st\<lparr>tn_evm := ev1\<rparr>))"
  shows "meets T P (outcome_bind (asking f st) (case_prod k))"
  unfolding bind_asking by (rule meets_reading [where g = "\<lambda>x ev. k x (st\<lparr>tn_evm := ev\<rparr>)", OF assms])

lemma meets_telling:
  assumes "moved Writing ev0 (tn_evm st)" "\<And>st. accounts_ok E look tr_ok st \<Longrightarrow> reverts (f st) st"
    and "\<And>ev1. moved Writing ev0 ev1 \<Longrightarrow> meets T P (k (st\<lparr>tn_evm := ev1\<rparr>))"
  shows "meets T P (outcome_bind (telling f st) k)"
  unfolding bind_telling by (rule meets_writing [OF assms])

lemma preCheck_meets:
  fixes V :: "('t, 'd) venv" and ev :: "('t, 'd) EVM"
  assumes "machine_ok V" "ev_ok ev" "message_ok m"
  shows "meets T (\<lambda>(err, st). \<exists>ev1. moved Writing ev ev1 \<and>
      (case err of
         Some e \<Rightarrow> st = (NewStateTransition ev m gp)\<lparr>tn_evm := ev1\<rparr>
       | None \<Rightarrow> mg_gasLimit m \<le> gp \<and> st = (NewStateTransition ev m gp)\<lparr>tn_gp := gp - mg_gasLimit m,
           tn_gas := mg_gasLimit m, tn_initialGas := mg_gasLimit m, tn_evm := ev1\<rparr>))
    (StateTransition_preCheck V (NewStateTransition ev m gp))" (is "meets T ?P _")
proof -
  have E: "ve_senv V = E" "badger_ok E" using assms(1) by (simp_all add: machine_ok_def)
  have len: "length (mg_from m) = AddressLength" and u: "is_u64 (mg_gasLimit m)" using assms(3) by (simp_all add: message_ok_def)
  let ?st = "NewStateTransition ev m gp"
  have buy: "meets T ?P (StateTransition_buyGas V (?st\<lparr>tn_evm := ev1\<rparr>))" if "moved Writing ev ev1" for ev1
    unfolding StateTransition_buyGas_def Let_def E
  proof (rule meets_asking [where ?ev0.0 = ev])
    show "moved Writing ev (tn_evm (?st\<lparr>tn_evm := ev1\<rparr>))" using that by simp
  next
    fix balance ev2
    assume m: "moved Writing ev ev2"
    let ?st2 = "?st\<lparr>tn_evm := ev1\<rparr>\<lparr>tn_evm := ev2\<rparr>"
    show "meets T ?P
      (if balance < mg_gasLimit (tn_msg (?st\<lparr>tn_evm := ev1\<rparr>)) * tn_gasPrice (?st\<lparr>tn_evm := ev1\<rparr>)
       then Done (Some errInsufficientBalanceForGas, ?st2)
       else case GasPool_SubGas (mg_gasLimit (tn_msg (?st\<lparr>tn_evm := ev1\<rparr>))) (tn_gp ?st2) of
         (Some err, gp) \<Rightarrow> Done (Some err, ?st2\<lparr>tn_gp := gp\<rparr>)
       | (None, gp) \<Rightarrow>
           outcome_bind
             (telling (StateDB_SubBalance E (mg_from (tn_msg (?st\<lparr>tn_evm := ev1\<rparr>)))
                 (mg_gasLimit (tn_msg (?st\<lparr>tn_evm := ev1\<rparr>)) * tn_gasPrice (?st\<lparr>tn_evm := ev1\<rparr>)))
               (?st2\<lparr>tn_gp := gp, tn_gas := wrap_u64 (tn_gas ?st2 + mg_gasLimit (tn_msg (?st\<lparr>tn_evm := ev1\<rparr>))),
                  tn_initialGas := mg_gasLimit (tn_msg (?st\<lparr>tn_evm := ev1\<rparr>))\<rparr>))
             (\<lambda>st2. Done (None, st2)))"
    proof (cases "gp < mg_gasLimit m")
      case True
      then show ?thesis using m by (auto simp: GasPool_SubGas_def)
    next
      case False
      have w: "wrap_u64 (mg_gasLimit m) = mg_gasLimit m" using u by (rule wrap_u64_id)
      show ?thesis
        using False m w
        by (auto simp: GasPool_SubGas_def
            intro!: meets_telling [where ?ev0.0 = ev] SubBalance_reverts E len)
    qed
  qed (rule all_read)
  show ?thesis
  proof (cases "mg_checkNonce m")
    case False
    have same: "?st\<lparr>tn_evm := ev\<rparr> = ?st" by (simp add: NewStateTransition_def)
    from buy [OF moved_refl [OF assms(2)], unfolded same] show ?thesis using False
      by (simp only: StateTransition_preCheck_def NewStateTransition_fields if_False)
  next
    case True
    have "meets T ?P (outcome_bind (asking (StateDB_GetNonce E (mg_from m)) ?st) (\<lambda>(nonce, st1).
        if nonce < mg_nonce m then Done (Some ErrNonceTooHigh, st1)
        else if nonce > mg_nonce m then Done (Some ErrNonceTooLow, st1)
        else StateTransition_buyGas V st1))"
    proof (rule meets_asking [where ?ev0.0 = ev])
      show "moved Writing ev (tn_evm ?st)" by (simp add: moved_refl assms(2))
      show "meets T ?P (if nonce < mg_nonce m then Done (Some ErrNonceTooHigh, ?st\<lparr>tn_evm := ev1\<rparr>)
          else if nonce > mg_nonce m then Done (Some ErrNonceTooLow, ?st\<lparr>tn_evm := ev1\<rparr>)
          else StateTransition_buyGas V (?st\<lparr>tn_evm := ev1\<rparr>))" if "moved Writing ev ev1" for nonce ev1
        using that by (intro meets_if buy) auto
    qed (rule all_read)
    then show ?thesis using True by (simp only: StateTransition_preCheck_def NewStateTransition_fields E if_True)
  qed
qed

lemma nextNonce_meets:
  fixes V :: "('t, 'd) venv"
  assumes "machine_ok V" "moved Writing ev (tn_evm st)" "length (mg_from (tn_msg st)) = AddressLength"
    and "\<And>ev1. moved Writing ev ev1 \<Longrightarrow> meets T P (k (st\<lparr>tn_evm := ev1\<rparr>))"
  shows "meets T P (outcome_bind (StateTransition_nextNonce V st) k)"
proof -
  have E: "ve_senv V = E" using assms(1) by (simp add: machine_ok_def)
  have "meets T (\<lambda>st1. \<exists>ev1. moved Writing ev ev1 \<and> st1 = st\<lparr>tn_evm := ev1\<rparr>) (StateTransition_nextNonce V st)"
    unfolding StateTransition_nextNonce_def Let_def E
  proof (rule meets_asking [where ?ev0.0 = ev, OF assms(2)], rule all_read, assumption)
    fix nonce ev1
    assume m: "moved Writing ev ev1"
    show "meets T (\<lambda>st1. \<exists>ev1. moved Writing ev ev1 \<and> st1 = st\<lparr>tn_evm := ev1\<rparr>)
      (telling (StateDB_SetNonce E (mg_from (tn_msg st)) (wrap_u64 (nonce + 1))) (st\<lparr>tn_evm := ev1\<rparr>))"
      by (subst telling_bind, rule meets_telling [where ?ev0.0 = ev])
        (use m all_write [OF assms(1) _ assms(3)] in auto)
  qed
  then show ?thesis by (rule meets_bind) (use assms(4) in auto)
qed

lemma execute_meets:
  fixes V :: "('t, 'd) venv" and st :: "('t, 'd) StateTransition"
  assumes "machine_ok V" "moved Writing ev (tn_evm st)" "runs T V g run" "is_u64 (tn_gas st)" "tn_gas st \<le> g"
    and "message_ok (tn_msg st)"
  shows "meets T (\<lambda>(ret, a, vmerr, st1). \<exists>ev1 gas. moved Writing ev ev1 \<and> 0 \<le> gas \<and> gas \<le> tn_gas st \<and>
      st1 = st\<lparr>tn_gas := gas, tn_evm := ev1\<rparr>) (StateTransition_execute V run st)" (is "meets T ?P _")
proof -
  have len: "length (mg_from (tn_msg st)) = AddressLength" "length (ref_Address (AccountRef (mg_from (tn_msg st)))) = AddressLength"
    using assms(6) by (simp_all add: message_ok_def)
  show ?thesis
  proof (cases "mg_to (tn_msg st)")
    case None
    have step: "meets T ?P (outcome_bind (StateTransition_nextNonce V (st\<lparr>tn_gas := gas, tn_evm := ev2\<rparr>)) (\<lambda>st1. Done (ret, a, err, st1)))"
      if c: "create_post (tn_gas st) (tn_evm st) (ret, a, gas, err, ev2)" for ret a gas err ev2
    proof -
      have "moved Writing ev ev2" using c moved_trans [OF assms(2)] by (auto simp: create_post_def)
      then show ?thesis
        by (intro nextNonce_meets [OF assms(1)]) (use len c in \<open>auto simp: create_post_def\<close>)
    qed
    have "meets T ?P (outcome_bind (EVM_Create V run (AccountRef (mg_from (tn_msg st))) (tn_data st) (tn_gas st) (tn_value st) (tn_evm st))
        (\<lambda>(ret, contractAddress, gas, vmerr, ev).
          outcome_bind (StateTransition_nextNonce V (st\<lparr>tn_gas := gas, tn_evm := ev\<rparr>)) (\<lambda>st1. Done (ret, contractAddress, vmerr, st1))))"
      by (rule meets_bind [OF EVM_Create_meets [OF assms(1) moved_ok [OF assms(2)] assms(3-5) len(2)]])
        (clarify, rule step)
    then show ?thesis using None by (simp only: StateTransition_execute_def Let_def simp_thms if_True)
  next
    case (Some to)
    then have lt: "length to = AddressLength" using assms(6) by (simp add: message_ok_def)
    have "meets T ?P (outcome_bind (StateTransition_nextNonce V st) (\<lambda>st1.
        outcome_bind (EVM_Call V run (AccountRef (mg_from (tn_msg st))) (StateTransition_to st1) (tn_data st1) (tn_gas st1)
            (tn_value st1) (tn_evm st1))
          (\<lambda>(ret, gas, vmerr, ev). Done (ret, replicate AddressLength 0, vmerr, st1\<lparr>tn_gas := gas, tn_evm := ev\<rparr>))))"
    proof (rule nextNonce_meets [OF assms(1,2) len(1)])
      fix ev1
      assume m: "moved Writing ev ev1"
      let ?st = "st\<lparr>tn_evm := ev1\<rparr>"
      have to: "StateTransition_to ?st = to" using Some by (simp add: StateTransition_to_def)
      have c: "meets T (call_post Writing (tn_gas st) ev1)
        (EVM_Call V run (AccountRef (mg_from (tn_msg st))) to (tn_data st) (tn_gas st) (tn_value st) ev1)"
        by (rule EVM_Call_meets [OF assms(1) moved_ok [OF m] assms(3-5) len(2) lt])
      show "meets T ?P (outcome_bind (EVM_Call V run (AccountRef (mg_from (tn_msg st))) (StateTransition_to ?st) (tn_data ?st)
            (tn_gas ?st) (tn_value ?st) (tn_evm ?st))
          (\<lambda>(ret, gas, vmerr, ev). Done (ret, replicate AddressLength 0, vmerr, ?st\<lparr>tn_gas := gas, tn_evm := ev\<rparr>)))"
        unfolding to by (rule meets_bind [where Q = "call_post Writing (tn_gas st) ev1"], use c in simp,
          clarsimp simp: call_post_def, blast intro: moved_trans [OF m])
    qed
    then show ?thesis using Some by (simp add: StateTransition_execute_def)
  qed
qed

lemma refundGas_meets:
  fixes V :: "('t, 'd) venv" and st :: "('t, 'd) StateTransition"
  assumes "machine_ok V" "moved Writing ev (tn_evm st)" "length (mg_from (tn_msg st)) = AddressLength"
    and "0 \<le> tn_gas st" "tn_gas st \<le> tn_initialGas st" "is_u64 (tn_initialGas st)"
    and "\<And>ev1 r. moved Writing ev ev1 \<Longrightarrow> 0 \<le> r \<Longrightarrow> r \<le> (tn_initialGas st - tn_gas st) div 2 \<Longrightarrow>
      meets T P (k (st\<lparr>tn_gas := tn_gas st + r, tn_evm := ev1, tn_gp := tn_gp st + (tn_gas st + r)\<rparr>))"
  shows "meets T P (outcome_bind (StateTransition_refundGas V st) k)"
proof -
  have E: "ve_senv V = E" "badger_ok E" using assms(1) by (simp_all add: machine_ok_def)
  define x where "x = tn_initialGas st - tn_gas st"
  have used: "StateTransition_gasUsed st = x"
    using assms(4-6) by (simp add: StateTransition_gasUsed_def x_def wrap_u64_id is_u64_def)
  define c where "c = wrap_u64 (StateDB_GetRefund (ev_StateDB (tn_evm st)))"
  define r where "r = (if x div 2 > c then c else x div 2)"
  have c: "0 \<le> c" by (simp add: c_def wrap_u64_def)
  have x: "0 \<le> x" using assms(5) by (simp add: x_def)
  have r: "0 \<le> r" "r \<le> x div 2" using c x by (auto simp: r_def)
  have g: "wrap_u64 (tn_gas st + r) = tn_gas st + r"
    using assms(4-6) r x by (intro wrap_u64_id) (simp add: is_u64_def x_def)
  have "meets T (\<lambda>st1. \<exists>ev1. moved Writing ev ev1 \<and>
      st1 = st\<lparr>tn_gas := tn_gas st + r, tn_evm := ev1, tn_gp := tn_gp st + (tn_gas st + r)\<rparr>) (StateTransition_refundGas V st)"
    unfolding StateTransition_refundGas_def Let_def used c_def [symmetric] r_def [symmetric] g E
  proof (rule meets_telling [where ?ev0.0 = ev])
    show "moved Writing ev (tn_evm (st\<lparr>tn_gas := tn_gas st + r\<rparr>))" using assms(2) by simp
    show "reverts (StateDB_AddBalance E (mg_from (tn_msg st)) ((tn_gas st + r) * tn_gasPrice st) st') st'"
      if "accounts_ok E look tr_ok st'" for st' by (rule all_write [OF assms(1) that assms(3)])
  next
    fix ev1
    assume "moved Writing ev ev1"
    then show "meets T (\<lambda>st1. \<exists>ev1. moved Writing ev ev1 \<and>
        st1 = st\<lparr>tn_gas := tn_gas st + r, tn_evm := ev1, tn_gp := tn_gp st + (tn_gas st + r)\<rparr>)
      (outcome_bind (of_result (GasPool_AddGas (tn_gas st + r) (tn_gp (st\<lparr>tn_gas := tn_gas st + r, tn_evm := ev1\<rparr>))))
        (\<lambda>gp. Done (st\<lparr>tn_gas := tn_gas st + r, tn_evm := ev1\<rparr>\<lparr>tn_gp := gp\<rparr>)))"
      by (auto simp: GasPool_AddGas_def stack_panic_def)
  qed
  then show ?thesis by (rule meets_bind) (use assms(7) r in \<open>auto simp: x_def\<close>)
qed

lemma finish_meets:
  fixes V :: "('t, 'd) venv" and st :: "('t, 'd) StateTransition"
  assumes "machine_ok V" "moved Writing ev (tn_evm st)" "message_ok (tn_msg st)" "length (cx_Coinbase (ve_Context V)) = AddressLength"
    and "0 \<le> tn_gas st" "tn_gas st \<le> mg_gasLimit (tn_msg st) - g" "0 \<le> g" "tn_initialGas st = mg_gasLimit (tn_msg st)"
    and "tn_gp st = gp - mg_gasLimit (tn_msg st)"
    and "IntrinsicGas (mg_data (tn_msg st)) (mg_to (tn_msg st) = None) homestead = Some g"
  shows "meets T (\<lambda>(ret, a, used, failed, err, st1). moved Writing ev (tn_evm st1) \<and>
    settled (tn_msg st) homestead gp used failed err (tn_gp st1)) (StateTransition_finish V (ret, a, vmerr, st))" (is "meets T ?P _")
proof (cases "vmerr = Some ErrInsufficientBalance")
  case True
  then show ?thesis using assms by (simp add: StateTransition_finish_def settled_def)
next
  case False
  have u: "is_u64 (tn_initialGas st)" and len: "length (mg_from (tn_msg st)) = AddressLength"
    using assms(3,8) by (simp_all add: message_ok_def)
  have le: "tn_gas st \<le> tn_initialGas st" using assms(6-8) by simp
  let ?L = "mg_gasLimit (tn_msg st)"
  have E: "ve_senv V = E" using assms(1) by (simp add: machine_ok_def)
  have "meets T ?P (outcome_bind (StateTransition_refundGas V st) (\<lambda>st1.
          outcome_bind
            (telling (StateDB_AddBalance E (cx_Coinbase (ve_Context V)) (StateTransition_gasUsed st1 * tn_gasPrice st1)) st1)
            (\<lambda>st2.
          Done (ret, a, StateTransition_gasUsed st2, vmerr \<noteq> None, map_option VmError vmerr, st2))))"
  proof (rule refundGas_meets [OF assms(1,2) len assms(5) le u])
    fix ev1 r
    assume m: "moved Writing ev ev1" and r: "0 \<le> r" "r \<le> (tn_initialGas st - tn_gas st) div 2"
    let ?st = "st\<lparr>tn_gas := tn_gas st + r, tn_evm := ev1, tn_gp := tn_gp st + (tn_gas st + r)\<rparr>"
    have used: "wrap_u64 (?L - (tn_gas st + r)) = ?L - (tn_gas st + r)"
      using r assms(5,8) u le by (intro wrap_u64_id) (simp add: is_u64_def)
    have half: "g \<le> 2 * (?L - (tn_gas st + r))" using r assms(6,8) by simp
    show "meets T ?P (outcome_bind
            (telling (StateDB_AddBalance E (cx_Coinbase (ve_Context V)) (StateTransition_gasUsed ?st * tn_gasPrice ?st)) ?st)
            (\<lambda>st2. Done (ret, a, StateTransition_gasUsed st2, vmerr \<noteq> None, map_option VmError vmerr, st2)))"
    proof (rule meets_telling [where ?ev0.0 = ev])
      show "moved Writing ev (tn_evm ?st)" using m by simp
      show "reverts (StateDB_AddBalance E (cx_Coinbase (ve_Context V)) n st') st'" if "accounts_ok E look tr_ok st'" for st' n
        by (rule all_write [OF assms(1) that assms(4)])
      show "meets T ?P (Done (ret, a, StateTransition_gasUsed (?st\<lparr>tn_evm := ev2\<rparr>), vmerr \<noteq> None, map_option VmError vmerr,
          ?st\<lparr>tn_evm := ev2\<rparr>))" if "moved Writing ev ev2" for ev2
        using that used half r assms(5,8-10) by (auto simp: settled_def StateTransition_gasUsed_def)
    qed
  qed
  then show ?thesis using False by (simp add: StateTransition_finish_def E)
qed

lemma ApplyMessage_meets:
  fixes V :: "('t, 'd) venv"
  assumes "machine_ok V" "ev_ok ev" "runs T V (mg_gasLimit m) run" "message_ok m"
    and "length (cx_Coinbase (ve_Context V)) = AddressLength"
  shows "meets T (\<lambda>(ret, a, used, failed, err, st). moved Writing ev (tn_evm st) \<and>
    settled m (IsHomestead (ve_chainConfig V) (block V)) gp used failed err (tn_gp st)) (ApplyMessage V run ev m gp)" (is "meets T ?P _")
proof -
  let ?st = "NewStateTransition ev m gp" and ?ig = "IntrinsicGas (mg_data m) (mg_to m = None) (IsHomestead (ve_chainConfig V) (block V))"
  show ?thesis unfolding ApplyMessage_def TransitionDb_def Let_def
  proof (rule meets_bind [OF preCheck_meets [OF assms(1,2,4)]], clarify)
    fix err :: "transition_error option" and st1 ev1
    assume m: "moved Writing ev ev1" and st1: "case err of
         Some e \<Rightarrow> st1 = ?st\<lparr>tn_evm := ev1\<rparr>
       | None \<Rightarrow> mg_gasLimit m \<le> gp \<and> st1 = ?st\<lparr>tn_gp := gp - mg_gasLimit m,
           tn_gas := mg_gasLimit m, tn_initialGas := mg_gasLimit m, tn_evm := ev1\<rparr>"
    show "meets T ?P (case err of
        Some e \<Rightarrow> Done ([], replicate AddressLength 0, 0, False, Some e, st1)
      | None \<Rightarrow>
          (case IntrinsicGas (tn_data st1) (mg_to (tn_msg st1) = None) (IsHomestead (ve_chainConfig V) (block V)) of
             None \<Rightarrow> Done ([], replicate AddressLength 0, 0, False, Some (VmError ErrOutOfGas), st1)
           | Some gas \<Rightarrow>
               (case StateTransition_useGas gas st1 of
                  (Some e, st2) \<Rightarrow> Done ([], replicate AddressLength 0, 0, False, Some e, st2)
                | (None, st2) \<Rightarrow>
                    outcome_bind (StateTransition_execute V run st2) (StateTransition_finish V))))"
    proof (cases err)
      case (Some e)
      then show ?thesis using st1 m by (simp add: settled_def)
    next
      case None
      note eq = st1 [unfolded None option.case, THEN conjunct2]
      show ?thesis
      proof (cases ?ig)
        case None': None
        then show ?thesis using eq m by (simp add: None settled_def)
      next
        case (Some g)
        have g: "0 \<le> g" using Some by (auto simp: intrinsic_gas_nonneg)
        show ?thesis
        proof (cases "mg_gasLimit m < g")
          case True
          then show ?thesis using eq m Some by (simp add: None StateTransition_useGas_def settled_def)
        next
          case False
          let ?st2 = "st1\<lparr>tn_gas := mg_gasLimit m - g\<rparr>"
          have u: "is_u64 (tn_gas ?st2)" using assms(4) False g by (simp add: message_ok_def is_u64_def)
          have e: "meets T ?P (outcome_bind (StateTransition_execute V run ?st2) (StateTransition_finish V))"
          proof (rule meets_bind [OF execute_meets [OF assms(1) _ assms(3) u]])
            show "moved Writing ev (tn_evm ?st2)" using m eq by simp
            show "tn_gas ?st2 \<le> mg_gasLimit m" using g by simp
            show "message_ok (tn_msg ?st2)" using eq assms(4) by simp
          next
            fix x :: "byte list \<times> AddressBytes \<times> vm_error option \<times> ('t, 'd) StateTransition"
            assume x: "case x of (ret, a, vmerr, st3) \<Rightarrow> \<exists>ev1 gas. moved Writing ev ev1 \<and> 0 \<le> gas \<and> gas \<le> tn_gas ?st2 \<and>
              st3 = ?st2\<lparr>tn_gas := gas, tn_evm := ev1\<rparr>"
            obtain ret a vmerr st3 where x3: "x = (ret, a, vmerr, st3)" by (cases x)
            obtain ev3 gas where s3: "moved Writing ev ev3" "0 \<le> gas" "gas \<le> mg_gasLimit m - g" "st3 = ?st2\<lparr>tn_gas := gas, tn_evm := ev3\<rparr>"
              using x by (auto simp: x3)
            have msg: "tn_msg st3 = m" using eq s3(4) by simp
            show "meets T ?P (StateTransition_finish V x)" unfolding x3
              by (rule finish_meets [OF assms(1), of ev st3 g gp, unfolded msg])
                (use s3 eq assms(4,5) g Some in auto)
          qed
          then show ?thesis using eq m Some False by (simp add: None StateTransition_useGas_def)
        qed
      qed
    qed
  qed
qed

end

subsection \<open>Messages over the accounts of the program\<close>


text \<open>A call of the precompiled copy with two bytes of data.\<close>

definition sample_message :: Message where
  "sample_message = NewMessage (replicate 20 9) (Some copy_address) 0 0 30000 0 [1, 0] False"


end
