(* ===== verification/Eth_Receipts.thy ===== *)
theory Eth_Receipts
  imports State_Snapshots
begin

section \<open>Receipts, logs and blooms of the virtual machine: dvm/ethereum/types\<close>

text \<open>
  What an executed message leaves beside the accounts, and how it is written to the database.

  \<^item> \<open>bloom9.go\<close>: a bloom is an array of 256 bytes, read and combined as a big integer; its bits come from the hash of
    the package crypto.
  \<^item> \<open>log.go\<close>, \<open>receipt.go\<close>, \<open>receiptforstorage.go\<close>, \<open>receipts.go\<close>: a value of Go becomes a value of the RLP encoder
    of Rlp_Encode, and is read back at the type that the decoder of Rlp_Decode is given.
  \<^item> The receipt is named \<open>EthReceipt\<close>, since a transaction of the ledger has a receipt of its own. The JSON forms, \<open>Size\<close>
    (an estimate of memory) and the log output are not modelled.
\<close>

subsection \<open>bloom9.go\<close>

unbundle bit_operations_syntax

type_synonym Bloom = "byte list"

definition BloomByteLength :: nat where "BloomByteLength = 256"
definition BloomBitLength :: nat where "BloomBitLength = 8 * BloomByteLength"

definition Bloom_SetBytes :: "byte list \<Rightarrow> Bloom \<Rightarrow> Bloom result" where
  "Bloom_SetBytes d b =
     (if BloomByteLength < length d then Panic ''bloom bytes too big''
      else Ok (take (BloomByteLength - length d) b @ d))"

definition BytesToBloom :: "byte list \<Rightarrow> Bloom result" where
  "BytesToBloom b = Bloom_SetBytes b (replicate BloomByteLength 0)"

definition Bloom_Big :: "Bloom \<Rightarrow> int" where
  "Bloom_Big b = big_SetBytes b"

text \<open>One round of the loop of \<open>bloom9\<close>: the bit of the bytes \<open>i\<close> and \<open>i + 1\<close> of the hash.\<close>

definition bloom_bit :: "byte list \<Rightarrow> nat \<Rightarrow> int" where
  "bloom_bit h i = 2 ^ ((unat (h ! (i + 1)) + push_bit 8 (unat (h ! i))) AND 2047)"

definition bloom9 :: "crypto \<Rightarrow> byte list \<Rightarrow> int" where
  "bloom9 C b = (let h = keccak256 C b in fold (\<lambda>i r. r OR bloom_bit h i) [0, 2, 4] 0)"

definition Bloom_Add :: "crypto \<Rightarrow> int \<Rightarrow> Bloom \<Rightarrow> Bloom result" where
  "Bloom_Add C d b = Bloom_SetBytes (big_Bytes (big_SetBytes b OR bloom9 C (big_Bytes d))) b"

definition BloomLookup :: "crypto \<Rightarrow> Bloom \<Rightarrow> byte list \<Rightarrow> bool" where
  "BloomLookup C bin topic = (let cmp = bloom9 C topic in Bloom_Big bin AND cmp = cmp)"

definition Bloom_Test :: "crypto \<Rightarrow> int \<Rightarrow> Bloom \<Rightarrow> bool" where
  "Bloom_Test C test b = BloomLookup C b (big_Bytes test)"

definition Bloom_TestBytes :: "crypto \<Rightarrow> byte list \<Rightarrow> Bloom \<Rightarrow> bool" where
  "Bloom_TestBytes C test b = Bloom_Test C (big_SetBytes test) b"

definition log_bloom :: "crypto \<Rightarrow> Log \<Rightarrow> int \<Rightarrow> int" where
  "log_bloom C l bin = fold (\<lambda>t bin. bin OR bloom9 C t) (l_Topics l) (bin OR bloom9 C (l_Address l))"

definition LogsBloom :: "crypto \<Rightarrow> Log list \<Rightarrow> int" where
  "LogsBloom C logs = fold (log_bloom C) logs 0"

subsection \<open>receipt.go\<close>

definition ReceiptStatusFailed :: int where "ReceiptStatusFailed = 0"
definition ReceiptStatusSuccessful :: int where "ReceiptStatusSuccessful = 1"

definition receiptStatusFailedRLP :: "byte list" where "receiptStatusFailedRLP = []"
definition receiptStatusSuccessfulRLP :: "byte list" where "receiptStatusSuccessfulRLP = [0x01]"

record EthReceipt =
  er_PostState :: "byte list"
  er_Status :: int
  er_CumulativeGasUsed :: int
  er_Bloom :: Bloom
  er_Logs :: "Log list"
  er_TxHash :: HashBytes
  er_ContractAddress :: AddressBytes
  er_GasUsed :: int

definition EthReceipt_zero :: EthReceipt where
  "EthReceipt_zero = \<lparr>er_PostState = [], er_Status = 0, er_CumulativeGasUsed = 0, er_Bloom = replicate BloomByteLength 0,
     er_Logs = [], er_TxHash = replicate HashLength 0, er_ContractAddress = replicate AddressLength 0, er_GasUsed = 0\<rparr>"

definition EthReceipt_New :: "byte list \<Rightarrow> bool \<Rightarrow> int \<Rightarrow> EthReceipt" where
  "EthReceipt_New root failed cumulativeGasUsed =
     EthReceipt_zero\<lparr>er_PostState := root, er_CumulativeGasUsed := cumulativeGasUsed,
       er_Status := (if failed then ReceiptStatusFailed else ReceiptStatusSuccessful)\<rparr>"

definition CreateBloom :: "crypto \<Rightarrow> EthReceipt list \<Rightarrow> Bloom result" where
  "CreateBloom C receipts = BytesToBloom (big_Bytes (fold (\<lambda>r bin. bin OR LogsBloom C (er_Logs r)) receipts 0))"

definition statusEncoding :: "EthReceipt \<Rightarrow> byte list" where
  "statusEncoding r =
     (if length (er_PostState r) = 0
      then if er_Status r = ReceiptStatusFailed then receiptStatusFailedRLP else receiptStatusSuccessfulRLP
      else er_PostState r)"

definition setStatus :: "byte list \<Rightarrow> EthReceipt \<Rightarrow> EthReceipt result" where
  "setStatus postStateOrStatus r =
     (if postStateOrStatus = receiptStatusSuccessfulRLP then Ok (r\<lparr>er_Status := ReceiptStatusSuccessful\<rparr>)
      else if postStateOrStatus = receiptStatusFailedRLP then Ok (r\<lparr>er_Status := ReceiptStatusFailed\<rparr>)
      else if length postStateOrStatus = HashLength then Ok (r\<lparr>er_PostState := postStateOrStatus\<rparr>)
      else Err ''invalid receipt status'')"

subsection \<open>log.go: the encodings\<close>

text \<open>\<open>rlpLog\<close>: the fields of the consensus.\<close>

definition log_type :: rtyp where
  "log_type = TStruct [TByteArray AddressLength, TSlice (TByteArray HashLength), TBytes]"

definition Log_EncodeRLP :: "Log \<Rightarrow> rval" where
  "Log_EncodeRLP l = RStruct [RBytes (l_Address l), RSlice (map RBytes (l_Topics l)), RBytes (l_Data l)]"

primrec rval_bytes :: "rval \<Rightarrow> byte list" where
  "rval_bytes (RBytes b) = b"
| "rval_bytes (RRaw b) = []"
| "rval_bytes (RUint i) = []"
| "rval_bytes (RBool b) = []"
| "rval_bytes (RBig i) = []"
| "rval_bytes (RString s) = []"
| "rval_bytes (RSlice vs) = []"
| "rval_bytes (RTail vs) = []"
| "rval_bytes (RStruct vs) = []"
| "rval_bytes (RNilPtr k) = []"
| "rval_bytes RNilIface = []"

definition Log_zero :: Log where
  "Log_zero = \<lparr>l_Address = replicate AddressLength 0, l_Topics = [], l_Data = [], l_BlockNumber = 0,
     l_TxHash = replicate HashLength 0, l_TxIndex = 0, l_BlockHash = replicate HashLength 0, l_Index = 0, l_Removed = False\<rparr>"

text \<open>The decoder fills the three fields of a new log.\<close>

definition Log_DecodeRLP :: "rval \<Rightarrow> Log" where
  "Log_DecodeRLP v =
     (case v of
        RStruct [a, RSlice ts, d] \<Rightarrow>
          Log_zero\<lparr>l_Address := rval_bytes a, l_Topics := map rval_bytes ts, l_Data := rval_bytes d\<rparr>
      | _ \<Rightarrow> Log_zero)"

text \<open>\<open>rlpStorageLog\<close>: all fields but \<open>Removed\<close>.\<close>

definition storageLog_type :: rtyp where
  "storageLog_type = TStruct [TByteArray AddressLength, TSlice (TByteArray HashLength), TBytes, TUint 64,
     TByteArray HashLength, TUint 64, TByteArray HashLength, TUint 64]"

definition LogForStorage_EncodeRLP :: "Log \<Rightarrow> rval" where
  "LogForStorage_EncodeRLP l =
     RStruct [RBytes (l_Address l), RSlice (map RBytes (l_Topics l)), RBytes (l_Data l), RUint (nat (l_BlockNumber l)),
       RBytes (l_TxHash l), RUint (nat (l_TxIndex l)), RBytes (l_BlockHash l), RUint (nat (l_Index l))]"

definition LogForStorage_DecodeRLP :: "rval \<Rightarrow> Log" where
  "LogForStorage_DecodeRLP v =
     (case v of
        RStruct [a, RSlice ts, d, RUint bn, th, RUint ti, bh, RUint i] \<Rightarrow>
          \<lparr>l_Address = rval_bytes a, l_Topics = map rval_bytes ts, l_Data = rval_bytes d, l_BlockNumber = int bn,
           l_TxHash = rval_bytes th, l_TxIndex = int ti, l_BlockHash = rval_bytes bh, l_Index = int i, l_Removed = False\<rparr>
      | _ \<Rightarrow> Log_zero)"

subsection \<open>receipt.go, receiptforstorage.go, receipts.go: the encodings\<close>

definition receipt_type :: rtyp where
  "receipt_type = TStruct [TBytes, TUint 64, TByteArray BloomByteLength, TSlice log_type]"

definition EthReceipt_EncodeRLP :: "EthReceipt \<Rightarrow> rval" where
  "EthReceipt_EncodeRLP r =
     RStruct [RBytes (statusEncoding r), RUint (nat (er_CumulativeGasUsed r)), RBytes (er_Bloom r),
       RSlice (map Log_EncodeRLP (er_Logs r))]"

text \<open>The rest of a decoder after the status, whose error it returns.\<close>

definition with_status :: "rval \<Rightarrow> EthReceipt \<Rightarrow> (EthReceipt \<Rightarrow> EthReceipt) \<Rightarrow> EthReceipt dres" where
  "with_status ps r f =
     (case setStatus (rval_bytes ps) r of Ok r1 \<Rightarrow> Val (f r1) | Err e \<Rightarrow> Fail (DecodeError e) | Panic e \<Rightarrow> Fail (DecodeError e))"

definition EthReceipt_DecodeRLP :: "byte list \<Rightarrow> EthReceipt \<Rightarrow> EthReceipt dres" where
  "EthReceipt_DecodeRLP b r =
     (case DecodeBytes receipt_type b of
        Val (RStruct [ps, RUint cum, bloom, RSlice logs]) \<Rightarrow>
          with_status ps r (\<lambda>r1. r1\<lparr>er_CumulativeGasUsed := int cum, er_Bloom := rval_bytes bloom,
            er_Logs := map Log_DecodeRLP logs\<rparr>)
      | Val _ \<Rightarrow> Val r
      | Fail e \<Rightarrow> Fail e
      | Spent \<Rightarrow> Spent)"

definition receiptStorage_type :: rtyp where
  "receiptStorage_type = TStruct [TBytes, TUint 64, TByteArray BloomByteLength, TSlice storageLog_type,
     TByteArray HashLength, TByteArray AddressLength, TUint 64]"

definition ReceiptForStorage_EncodeRLP :: "EthReceipt \<Rightarrow> rval" where
  "ReceiptForStorage_EncodeRLP r =
     RStruct [RBytes (statusEncoding r), RUint (nat (er_CumulativeGasUsed r)), RBytes (er_Bloom r),
       RSlice (map LogForStorage_EncodeRLP (er_Logs r)), RBytes (er_TxHash r), RBytes (er_ContractAddress r),
       RUint (nat (er_GasUsed r))]"

definition ReceiptForStorage_DecodeRLP :: "byte list \<Rightarrow> EthReceipt \<Rightarrow> EthReceipt dres" where
  "ReceiptForStorage_DecodeRLP b r =
     (case DecodeBytes receiptStorage_type b of
        Val (RStruct [ps, RUint cum, bloom, RSlice logs, th, ca, RUint gas]) \<Rightarrow>
          with_status ps r (\<lambda>r1. r1\<lparr>er_CumulativeGasUsed := int cum, er_Bloom := rval_bytes bloom,
            er_Logs := map LogForStorage_DecodeRLP logs, er_TxHash := rval_bytes th, er_ContractAddress := rval_bytes ca,
            er_GasUsed := int gas\<rparr>)
      | Val _ \<Rightarrow> Val r
      | Fail e \<Rightarrow> Fail e
      | Spent \<Rightarrow> Spent)"

definition Receipts_GetRlp :: "EthReceipt list \<Rightarrow> nat \<Rightarrow> byte list result" where
  "Receipts_GetRlp rs i =
     (if length rs \<le> i then Panic ''index out of range''
      else case EncodeToBytes (EthReceipt_EncodeRLP (rs ! i)) of Ok b \<Rightarrow> Ok b | Err e \<Rightarrow> Panic e | Panic e \<Rightarrow> Panic e)"

subsection \<open>Blooms\<close>

text \<open>Integers that fit in a bloom, and the bits of one in another.\<close>

definition in_bloom :: "int \<Rightarrow> bool" where
  "in_bloom x \<longleftrightarrow> take_bit BloomBitLength x = x"

definition bits_in :: "int \<Rightarrow> int \<Rightarrow> bool" where
  "bits_in x y \<longleftrightarrow> y AND x = x"

lemma in_bloom_or: "in_bloom x \<Longrightarrow> in_bloom y \<Longrightarrow> in_bloom (x OR y)"
  by (simp add: in_bloom_def take_bit_or)

lemma in_bloom_bounds: "in_bloom x \<Longrightarrow> 0 \<le> x \<and> x < 2 ^ BloomBitLength"
  by (metis in_bloom_def take_bit_int_less_exp take_bit_nonnegative)

lemma in_bloom_bit: "in_bloom (bloom_bit h i)"
proof -
  let ?n = "(unat (h ! (i + 1)) + push_bit 8 (unat (h ! i))) AND 2047"
  have "?n = take_bit 11 (unat (h ! (i + 1)) + push_bit 8 (unat (h ! i)))"
    by (simp add: take_bit_eq_mask mask_eq_exp_minus_1)
  then have "?n < BloomBitLength" by (simp add: BloomBitLength_def BloomByteLength_def take_bit_eq_mod)
  then have "(2 :: int) ^ ?n < 2 ^ BloomBitLength" by (intro power_strict_increasing) auto
  then show ?thesis unfolding in_bloom_def bloom_bit_def by (intro take_bit_int_eq_self) simp_all
qed

lemma in_bloom_0: "in_bloom 0"
  by (simp add: in_bloom_def)

lemma in_bloom_fold: "in_bloom r \<Longrightarrow> (\<And>i. i \<in> set is \<Longrightarrow> in_bloom (f i)) \<Longrightarrow> in_bloom (fold (\<lambda>i r. r OR f i) is r)"
  by (induction "is" arbitrary: r) (auto intro: in_bloom_or)

lemma in_bloom9: "in_bloom (bloom9 C b)"
  unfolding bloom9_def Let_def by (intro in_bloom_fold in_bloom_0 in_bloom_bit)

lemma in_log_bloom: "in_bloom bin \<Longrightarrow> in_bloom (log_bloom C l bin)"
  unfolding log_bloom_def by (intro in_bloom_fold in_bloom_or in_bloom9)

lemma bits_in_or: "bits_in x y \<Longrightarrow> bits_in x (y OR z)" "bits_in x z \<Longrightarrow> bits_in x (y OR z)"
  by (auto simp: bits_in_def bit_eq_iff bit_simps)

lemma bits_in_refl: "bits_in x (y OR x)"
  by (auto simp: bits_in_def bit_eq_iff bit_simps)

lemma bits_in_fold: "bits_in x r \<Longrightarrow> bits_in x (fold (\<lambda>i r. r OR f i) is r)"
  by (induction "is" arbitrary: r) (auto intro: bits_in_or)

lemma bits_in_fold_mem: "i \<in> set is \<Longrightarrow> bits_in x (f i) \<Longrightarrow> bits_in x (fold (\<lambda>i r. r OR f i) is r)"
  by (induction "is" arbitrary: r) (auto intro: bits_in_fold bits_in_or(2))

lemma log_bloom_keeps: "bits_in x bin \<Longrightarrow> bits_in x (log_bloom C l bin)"
  by (auto simp: log_bloom_def intro: bits_in_fold bits_in_or)

lemma log_bloom_has: "t = l_Address l \<or> t \<in> set (l_Topics l) \<Longrightarrow> bits_in (bloom9 C t) (log_bloom C l bin)"
proof (elim disjE)
  assume "t = l_Address l"
  then show ?thesis unfolding log_bloom_def by (auto intro: bits_in_fold [OF bits_in_refl])
next
  assume "t \<in> set (l_Topics l)"
  then show ?thesis unfolding log_bloom_def by (rule bits_in_fold_mem) (simp add: bits_in_def)
qed

lemma logs_bloom_keeps: "bits_in x bin \<Longrightarrow> bits_in x (fold (log_bloom C) logs bin)"
  by (induction logs arbitrary: bin) (auto intro: log_bloom_keeps)

lemma LogsBloom_has:
  assumes "l \<in> set logs" "t = l_Address l \<or> t \<in> set (l_Topics l)"
  shows "bits_in (bloom9 C t) (fold (log_bloom C) logs bin)"
  using assms(1) by (induction logs arbitrary: bin) (auto intro: logs_bloom_keeps [OF log_bloom_has [OF assms(2)]])

lemma in_LogsBloom: "in_bloom (LogsBloom C logs)"
proof -
  have "in_bloom bin \<Longrightarrow> in_bloom (fold (log_bloom C) logs bin)" for bin
    by (induction logs arbitrary: bin) (auto intro: in_log_bloom)
  then show ?thesis by (simp add: LogsBloom_def in_bloom_0)
qed

lemma BytesToBloom_big:
  assumes "in_bloom x" shows "\<exists>b. BytesToBloom (big_Bytes x) = Ok b \<and> length b = BloomByteLength \<and> Bloom_Big b = x"
proof -
  note x = in_bloom_bounds [OF assms]
  have "(256 :: nat) = 2 ^ 8" by simp
  then have pow: "(256 :: nat) ^ BloomByteLength = 2 ^ BloomBitLength" by (simp only: BloomBitLength_def power_mult)
  have "nat x < 256 ^ BloomByteLength" using x unfolding pow by (simp add: nat_less_iff)
  then have len: "length (big_Bytes x) \<le> BloomByteLength" using length_big_Bytes_le [of "nat x" BloomByteLength] x by simp
  have "big_SetBytes (replicate n 0 @ big_Bytes x) = x" for n
    using big_SetBytes_Bytes [of x] x by (simp add: big_SetBytes_def be_nat_replicate_0)
  then show ?thesis using len by (simp add: BytesToBloom_def Bloom_SetBytes_def Bloom_Big_def)
qed

text \<open>C15. A bloom has no false negatives: the bloom of any receipts fits in its 256 bytes, and it answers yes for the address
  and for each topic of every log of theirs.\<close>

theorem bloom_finds_every_log:
  assumes "r \<in> set receipts" "l \<in> set (er_Logs r)" "t = l_Address l \<or> t \<in> set (l_Topics l)"
  shows "\<exists>b. CreateBloom C receipts = Ok b \<and> length b = BloomByteLength \<and> BloomLookup C b t"
proof -
  let ?x = "fold (\<lambda>r bin. bin OR LogsBloom C (er_Logs r)) receipts 0"
  have "in_bloom ?x" by (intro in_bloom_fold in_bloom_0 in_LogsBloom)
  then obtain b where b: "BytesToBloom (big_Bytes ?x) = Ok b" "length b = BloomByteLength" "Bloom_Big b = ?x"
    using BytesToBloom_big by blast
  have "bits_in (bloom9 C t) ?x"
    using assms by (intro bits_in_fold_mem [of r]) (auto simp: LogsBloom_def intro: LogsBloom_has)
  then show ?thesis using b by (simp add: CreateBloom_def BloomLookup_def bits_in_def)
qed

definition sample_log :: Log where
  "sample_log = Log_zero\<lparr>l_Address := replicate 20 7, l_Topics := [replicate 32 1], l_Data := [1, 2, 3]\<rparr>"

definition sample_receipt :: EthReceipt where
  "sample_receipt = (EthReceipt_New (replicate 32 5) False 21000)\<lparr>er_Logs := [sample_log], er_GasUsed := 21000\<rparr>"

theorem bloom_finds_every_log_witness:
  "\<exists>b. CreateBloom flat_crypto [sample_receipt] = Ok b \<and> length b = BloomByteLength \<and> BloomLookup flat_crypto b (replicate 32 1)"
  by (rule bloom_finds_every_log [of sample_receipt _ sample_log]) (simp_all add: sample_receipt_def sample_log_def)

subsection \<open>Receipts in the database\<close>

lemma map_rval_bytes [simp]: "map (rval_bytes \<circ> RBytes) bs = bs"
  by (induction bs) auto

text \<open>The values of Go: every field has the width of its type.\<close>

definition log_ok :: "Log \<Rightarrow> bool" where
  "log_ok l \<longleftrightarrow> length (l_Address l) = AddressLength \<and> list_all (\<lambda>t. length t = HashLength) (l_Topics l) \<and>
     is_u64 (l_BlockNumber l) \<and> length (l_TxHash l) = HashLength \<and> is_u64 (l_TxIndex l) \<and>
     length (l_BlockHash l) = HashLength \<and> is_u64 (l_Index l)"

definition receipt_ok :: "EthReceipt \<Rightarrow> bool" where
  "receipt_ok r \<longleftrightarrow> er_PostState r = [] \<and> er_Status r \<in> {ReceiptStatusFailed, ReceiptStatusSuccessful} \<or>
     length (er_PostState r) = HashLength"

definition receipt_widths :: "EthReceipt \<Rightarrow> bool" where
  "receipt_widths r \<longleftrightarrow> is_u64 (er_CumulativeGasUsed r) \<and> length (er_Bloom r) = BloomByteLength \<and> list_all log_ok (er_Logs r) \<and>
     length (er_TxHash r) = HashLength \<and> length (er_ContractAddress r) = AddressLength \<and> is_u64 (er_GasUsed r)"

lemma LogForStorage_typed: "log_ok l \<Longrightarrow> has_type storageLog_type (LogForStorage_EncodeRLP l)"
  by (simp add: log_ok_def storageLog_type_def LogForStorage_EncodeRLP_def is_u64_def nat_less_iff list.pred_map comp_def)

lemma LogForStorage_back: "log_ok l \<Longrightarrow> LogForStorage_DecodeRLP (LogForStorage_EncodeRLP l) = l\<lparr>l_Removed := False\<rparr>"
  by (simp add: log_ok_def LogForStorage_DecodeRLP_def LogForStorage_EncodeRLP_def is_u64_def)

lemma setStatus_back:
  assumes "receipt_ok r"
  shows "setStatus (statusEncoding r) EthReceipt_zero =
    Ok (EthReceipt_zero\<lparr>er_PostState := er_PostState r, er_Status := (if er_PostState r = [] then er_Status r else ReceiptStatusFailed)\<rparr>)"
  using assms
  by (auto simp: receipt_ok_def setStatus_def statusEncoding_def receiptStatusFailedRLP_def receiptStatusSuccessfulRLP_def
      ReceiptStatusFailed_def ReceiptStatusSuccessful_def EthReceipt_zero_def HashLength_def)

text \<open>What is read back of a receipt.\<close>

definition as_stored :: "EthReceipt \<Rightarrow> EthReceipt" where
  "as_stored r = r\<lparr>er_Status := (if er_PostState r = [] then er_Status r else ReceiptStatusFailed),
     er_Logs := map (\<lambda>l. l\<lparr>l_Removed := False\<rparr>) (er_Logs r)\<rparr>"

lemma stored_receipt_back:
  assumes "receipt_ok r" "receipt_widths r" "length (rlp (ReceiptForStorage_EncodeRLP r)) < 2 ^ 64"
  shows "EncodeToBytes (ReceiptForStorage_EncodeRLP r) = Ok (rlp (ReceiptForStorage_EncodeRLP r))"
    "ReceiptForStorage_DecodeRLP (rlp (ReceiptForStorage_EncodeRLP r)) EthReceipt_zero = Val (as_stored r)"
proof -
  have t: "has_type receiptStorage_type (ReceiptForStorage_EncodeRLP r)"
    using assms(2) LogForStorage_typed
    by (auto simp: receiptStorage_type_def ReceiptForStorage_EncodeRLP_def receipt_widths_def is_u64_def nat_less_iff
        list.pred_map list_all_iff)
  have d: "decodable receiptStorage_type"
    by (simp add: receiptStorage_type_def storageLog_type_def BloomByteLength_def HashLength_def AddressLength_def)
  note b = DecodeBytes_back [OF d t assms(3)]
  show "EncodeToBytes (ReceiptForStorage_EncodeRLP r) = Ok (rlp (ReceiptForStorage_EncodeRLP r))" by (rule b(1))
  have logs: "map (LogForStorage_DecodeRLP \<circ> LogForStorage_EncodeRLP) (er_Logs r) = map (\<lambda>l. l\<lparr>l_Removed := False\<rparr>) (er_Logs r)"
    using assms(2) by (auto simp: receipt_widths_def list_all_iff LogForStorage_back)
  show "ReceiptForStorage_DecodeRLP (rlp (ReceiptForStorage_EncodeRLP r)) EthReceipt_zero = Val (as_stored r)"
    using assms(2) unfolding ReceiptForStorage_DecodeRLP_def b(2)
    by (simp add: ReceiptForStorage_EncodeRLP_def with_status_def setStatus_back [OF assms(1)] logs receipt_widths_def is_u64_def,
      cases r, simp add: as_stored_def EthReceipt_zero_def)
qed

text \<open>C16. A stored receipt is read back except for its status: the encoding of a receipt decodes to the same root, gas, bloom,
  logs, hash and address; but when the receipt has a state root, which every receipt of the virtual machine has, the status
  is not stored and reads as failed, also for a message that succeeded.\<close>

theorem stored_receipt_loses_its_status:
  assumes "receipt_ok r" "receipt_widths r" "length (rlp (ReceiptForStorage_EncodeRLP r)) < 2 ^ 64"
  shows "\<exists>b. EncodeToBytes (ReceiptForStorage_EncodeRLP r) = Ok b \<and> ReceiptForStorage_DecodeRLP b EthReceipt_zero =
    Val (r\<lparr>er_Status := (if er_PostState r = [] then er_Status r else ReceiptStatusFailed),
      er_Logs := map (\<lambda>l. l\<lparr>l_Removed := False\<rparr>) (er_Logs r)\<rparr>)"
  using stored_receipt_back [OF assms] by (simp add: as_stored_def)

lemma sample_receipt_ok: "receipt_ok sample_receipt" "receipt_widths sample_receipt"
  by (simp_all add: receipt_ok_def receipt_widths_def sample_receipt_def EthReceipt_New_def EthReceipt_zero_def HashLength_def
      AddressLength_def is_u64_def log_ok_def sample_log_def Log_zero_def)

lemma length_rlp_uint: "i < 256 ^ k \<Longrightarrow> length (rlp (RUint i)) \<le> k + 9"
  using length_rlp_string_le [of "big_Bytes (int i)"] length_big_Bytes_le [of i k] by simp

lemma length_rlp_bytes: "length (rlp (RBytes b)) \<le> length b + 9"
  by (simp add: length_rlp_string_le)

lemma length_rlp_struct: "length (rlp (RStruct vs)) \<le> sum_list (map (length \<circ> rlp) vs) + 9"
  using length_rlp_list_le [of "concat (map rlp vs)"] by (simp add: length_concat comp_def)

lemma length_rlp_slice: "length (rlp (RSlice vs)) \<le> sum_list (map (length \<circ> rlp) vs) + 9"
  using length_rlp_list_le [of "concat (map rlp vs)"] by (simp add: length_concat comp_def)

lemma sample_receipt_size: "length (rlp (ReceiptForStorage_EncodeRLP sample_receipt)) \<le> 1000"
proof -
  have log: "length (rlp (LogForStorage_EncodeRLP sample_log)) \<le> 300"
    unfolding LogForStorage_EncodeRLP_def
    by (rule order_trans [OF length_rlp_struct])
      (use length_rlp_bytes [of "replicate 20 7"] length_rlp_bytes [of "[1, 2, 3]"] length_rlp_bytes [of "replicate 32 0"]
         length_rlp_bytes [of "replicate 32 1"] length_rlp_slice [of "[RBytes (replicate 32 1)]"] length_rlp_uint [of 0 1]
       in \<open>simp add: sample_log_def Log_zero_def HashLength_def del: rlp.simps\<close>)
  show ?thesis
    unfolding ReceiptForStorage_EncodeRLP_def
    by (rule order_trans [OF length_rlp_struct])
      (use log length_rlp_bytes [of "replicate 32 5"] length_rlp_bytes [of "replicate 256 0"] length_rlp_bytes [of "replicate 32 0"]
         length_rlp_bytes [of "replicate 20 0"] length_rlp_slice [of "[LogForStorage_EncodeRLP sample_log]"] length_rlp_uint [of 21000 2]
       in \<open>simp add: sample_receipt_def EthReceipt_New_def EthReceipt_zero_def statusEncoding_def BloomByteLength_def HashLength_def
         AddressLength_def del: rlp.simps\<close>)
qed

theorem stored_receipt_loses_its_status_witness:
  "er_Status sample_receipt = ReceiptStatusSuccessful \<and>
   (\<exists>b r. EncodeToBytes (ReceiptForStorage_EncodeRLP sample_receipt) = Ok b \<and>
     ReceiptForStorage_DecodeRLP b EthReceipt_zero = Val r \<and> er_Status r = ReceiptStatusFailed)"
proof -
  have "length (rlp (ReceiptForStorage_EncodeRLP sample_receipt)) < 2 ^ 64"
    by (rule le_less_trans [OF sample_receipt_size]) simp
  from stored_receipt_loses_its_status [OF sample_receipt_ok this]
  obtain b where "EncodeToBytes (ReceiptForStorage_EncodeRLP sample_receipt) = Ok b"
    "ReceiptForStorage_DecodeRLP b EthReceipt_zero =
      Val (sample_receipt\<lparr>er_Status := (if er_PostState sample_receipt = [] then er_Status sample_receipt else ReceiptStatusFailed),
        er_Logs := map (\<lambda>l. l\<lparr>l_Removed := False\<rparr>) (er_Logs sample_receipt)\<rparr>)" by blast
  moreover have "er_PostState sample_receipt \<noteq> []" "er_Status sample_receipt = ReceiptStatusSuccessful"
    by (simp_all add: sample_receipt_def EthReceipt_New_def)
  ultimately show ?thesis by simp
qed

end
