(* ===== verification/Trie_Store.thy ===== *)
theory Trie_Store
  imports Trie_Map Rlp_Decode
begin

section \<open>Hashing and storing a trie: dvm/ethereum/trie/node.go, hasher.go, database.go\<close>

text \<open>
  How a trie becomes a root hash and how its nodes reach the disk.

  \<^item> \<open>node.go\<close>: \<open>node_rval\<close> is what \<open>rlp.Encode\<close> sees of a node (the exported fields of a short node, the seventeen
    children of a full node by its own \<open>EncodeRLP\<close>), \<open>decodeNode\<close> and its helpers read a node back.
  \<^item> \<open>hasher.go\<close>: \<open>hash_node\<close> collapses a node into its reference and returns the node with the hashes cached in it;
    with a database the encodings are inserted there. The scratch buffer and the pool of hashers are not state.
  \<^item> \<open>database.go\<close>: the node database between the tries and the disk: \<open>insert\<close>, references between nodes, the commit of
    a root (\<open>commit\<close>, then \<open>uncache\<close>) and the flush of the oldest nodes (\<open>Cap\<close>). The nodes are a map
    from hashes; the zero hash is the entry of the meta root. The statistics and the locks are not modelled;
    sizes, \<open>float64\<close> in the code, are exact numbers.
  \<^item> \<open>ethdb\<close> and \<open>badger_wrapper.go\<close>: a disk is a map with a predicate of the writes that Badger refuses; a batch
    is the list of its writes. \<open>memBatch.Write\<close> drops the errors of its writes.

  The walks of \<open>commit\<close>, \<open>uncache\<close>, \<open>dereference\<close> and \<open>accumulate\<close> follow hashes, which only a collision could tie into
  a cycle: they take fuel, one unit for a level, and \<open>Timeout\<close> is a walk that has not returned. Go ranges
  over the external children of a node and over the preimages in an unspecified order; here it is the order of
  insertion.
\<close>

subsection \<open>node.go\<close>

fun node_rval :: "node \<Rightarrow> rval" where
  "node_rval NilNode = RNilIface"
| "node_rval (ShortNode k v fl) = RStruct [RBytes k, node_rval v]"
| "node_rval (FullNode cs fl) = RSlice (map (\<lambda>c. if c = NilNode then RBytes [] else node_rval c) cs)"
| "node_rval (HashNode h) = RBytes h"
| "node_rval (ValueNode v) = RBytes v"

text \<open>
  An error of the decoder, with the path that \<open>wrapError\<close> puts together. The compact key of a short node may be empty
  on the disk; \<open>compactToHex\<close> then slices out of bounds.
\<close>

datatype node_fault =
    FaultEOF | FaultList rlp_error | FaultElements nat | FaultRlp rlp_error | FaultValue rlp_error
  | FaultOversized nat | FaultSize nat

datatype decode_error = Plain node_fault | Traced node_fault "string list" | DecodePanic string

type_synonym 'a decoded = "decode_error + 'a"

primrec wrapError :: "decode_error \<Rightarrow> string \<Rightarrow> decode_error" where
  "wrapError (Plain what) ctx = Traced what [ctx]"
| "wrapError (Traced what stack) ctx = Traced what (stack @ [ctx])"
| "wrapError (DecodePanic e) ctx = DecodePanic e"

definition wrapped :: "string \<Rightarrow> 'a decoded \<Rightarrow> 'a decoded" where
  "wrapped ctx r = (case r of Inl e \<Rightarrow> Inl (wrapError e ctx) | Inr x \<Rightarrow> Inr x)"

definition clean_flag :: "byte list option \<Rightarrow> nat \<Rightarrow> nodeFlag" where
  "clean_flag hash cachegen = \<lparr>nf_hash = hash, nf_gen = cachegen, nf_dirty = False\<rparr>"

text \<open>\<open>decodeRef\<close>; \<open>dn\<close> is \<open>decodeNode\<close> for an embedded node.\<close>

definition decodeRef :: "(byte list \<Rightarrow> node decoded) \<Rightarrow> byte list \<Rightarrow> (node \<times> byte list) decoded" where
  "decodeRef dn buf =
     (case Split buf of
        Inl e \<Rightarrow> Inl (Plain (FaultRlp e))
      | Inr (kind, val, rest) \<Rightarrow>
          if kind = KList then
            (let size = length buf - length rest in
             if size > HashLength then Inl (Plain (FaultOversized size))
             else case dn buf of Inl e \<Rightarrow> Inl e | Inr n \<Rightarrow> Inr (n, rest))
          else if kind = KString \<and> length val = 0 then Inr (NilNode, rest)
          else if kind = KString \<and> length val = 32 then Inr (HashNode val, rest)
          else Inl (Plain (FaultSize (length val))))"

definition decodeShort ::
  "(byte list \<Rightarrow> node decoded) \<Rightarrow> byte list option \<Rightarrow> nat \<Rightarrow> byte list \<Rightarrow> node decoded" where
  "decodeShort dn hash cachegen elems =
     (case SplitString elems of
        Inl e \<Rightarrow> Inl (Plain (FaultRlp e))
      | Inr (kbuf, rest) \<Rightarrow>
          if kbuf = [] then Inl (DecodePanic ''slice bounds out of range'')
          else (let flag = clean_flag hash cachegen; key = compactToHex kbuf in
           if hasTerm key then
             (case SplitString rest of
                Inl e \<Rightarrow> Inl (Plain (FaultValue e))
              | Inr (val, _) \<Rightarrow> Inr (ShortNode key (ValueNode val) flag))
           else
             (case wrapped ''val'' (decodeRef dn rest) of
                Inl e \<Rightarrow> Inl e
              | Inr (r, _) \<Rightarrow> Inr (ShortNode key r flag))))"

text \<open>The loop over the sixteen children, and the value.\<close>

primrec decode_children ::
  "(byte list \<Rightarrow> node decoded) \<Rightarrow> nat \<Rightarrow> nat \<Rightarrow> byte list \<Rightarrow> (node list \<times> byte list) decoded" where
  "decode_children dn i 0 elems = Inr ([], elems)"
| "decode_children dn i (Suc m) elems =
     (case wrapped (''['' @ fmt_d (int i) @ '']'') (decodeRef dn elems) of
        Inl e \<Rightarrow> Inl e
      | Inr (cld, rest) \<Rightarrow>
          (case decode_children dn (Suc i) m rest of
             Inl e \<Rightarrow> Inl e
           | Inr (cs, rest1) \<Rightarrow> Inr (cld # cs, rest1)))"

definition decodeFull ::
  "(byte list \<Rightarrow> node decoded) \<Rightarrow> byte list option \<Rightarrow> nat \<Rightarrow> byte list \<Rightarrow> node decoded" where
  "decodeFull dn hash cachegen elems =
     (case decode_children dn 0 16 elems of
        Inl e \<Rightarrow> Inl e
      | Inr (cs, rest) \<Rightarrow>
          (case SplitString rest of
             Inl e \<Rightarrow> Inl (Plain (FaultRlp e))
           | Inr (val, _) \<Rightarrow>
               Inr (FullNode (cs @ [if length val > 0 then ValueNode val else NilNode]) (clean_flag hash cachegen))))"

text \<open>A reader of embedded nodes is only called on shorter pieces of the input.\<close>

lemma Split_shorter: "Split b = Inr (k, c, rest) \<Longrightarrow> length rest < length b \<and> length c \<le> length b"
  by (auto simp: Split_def dest!: raw_readKind_pos split: sum.splits)

lemma raw_readKind_list: "raw_readKind b = Inr (KList, ts, cs) \<Longrightarrow> b \<noteq> [] \<and> 0 < ts"
  by (auto simp: raw_readKind_def Let_def split: sum.splits if_splits)

lemma Split_list_shorter: "Split b = Inr (KList, c, rest) \<Longrightarrow> length c < length b"
  by (cases b) (auto simp: Split_def min_def dest!: raw_readKind_list split: sum.splits)

lemma SplitString_shorter: "SplitString b = Inr (c, rest) \<Longrightarrow> length rest < length b"
  by (auto simp: SplitString_def dest!: Split_shorter split: sum.splits if_splits)

lemma decodeRef_rest: "decodeRef dn b = Inr (n, rest) \<Longrightarrow> length rest < length b"
  by (auto simp: decodeRef_def Let_def dest!: Split_shorter split: sum.splits if_splits)

lemma decodeRef_cong [fundef_cong]:
  "b = b' \<Longrightarrow> (\<And>x. length x \<le> length b' \<Longrightarrow> dn x = dn' x) \<Longrightarrow> decodeRef dn b = decodeRef dn' b'"
  by (simp add: decodeRef_def cong: sum.case_cong if_cong)

lemma decodeShort_cong [fundef_cong]:
  assumes "h = h'" "g = g'" "b = b'" "\<And>x. length x < length b' \<Longrightarrow> dn x = dn' x"
  shows "decodeShort dn h g b = decodeShort dn' h' g' b'"
proof -
  have "decodeRef dn r = decodeRef dn' r" if "SplitString b' = Inr (k, r)" for k r
    using SplitString_shorter [OF that] assms(4) by (intro decodeRef_cong) auto
  then show ?thesis using assms(1-3) by (auto simp: decodeShort_def Let_def split: sum.split)
qed

lemma decode_children_cong:
  assumes "\<And>x. length x \<le> length b \<Longrightarrow> dn x = dn' x"
  shows "decode_children dn i m b = decode_children dn' i m b"
  using assms
proof (induction m arbitrary: i b)
  case (Suc m)
  have r: "decodeRef dn b = decodeRef dn' b" using Suc.prems by (intro decodeRef_cong) auto
  have "decode_children dn (Suc i) m rest = decode_children dn' (Suc i) m rest" if "decodeRef dn' b = Inr (c, rest)" for c rest
    using decodeRef_rest [OF that] Suc.prems by (intro Suc.IH) auto
  then show ?case by (auto simp: r wrapped_def split: sum.split)
qed simp

lemma decodeFull_cong [fundef_cong]:
  assumes "h = h'" "g = g'" "b = b'" "\<And>x. length x \<le> length b' \<Longrightarrow> dn x = dn' x"
  shows "decodeFull dn h g b = decodeFull dn' h' g' b'"
  using assms decode_children_cong [of b dn dn' 0 16] by (simp add: decodeFull_def)

function decodeNode :: "byte list option \<Rightarrow> nat \<Rightarrow> byte list \<Rightarrow> node decoded" where
  "decodeNode hash cachegen buf =
     (if length buf = 0 then Inl (Plain FaultEOF)
      else case SplitList buf of
             Inl e \<Rightarrow> Inl (Plain (FaultList e))
           | Inr (elems, _) \<Rightarrow>
               (let c = (case CountValues elems of Inl e \<Rightarrow> 0 | Inr c \<Rightarrow> c) in
                if c = 2 then wrapped ''short'' (decodeShort (decodeNode None cachegen) hash cachegen elems)
                else if c = 17 then wrapped ''full'' (decodeFull (decodeNode None cachegen) hash cachegen elems)
                else Inl (Plain (FaultElements c))))"
  by pat_completeness auto
termination
  by (relation "measure (\<lambda>(h, g, b). length b)")
    (auto simp: SplitList_def dest!: Split_list_shorter split: sum.splits if_splits)

declare decodeNode.simps [simp del]

definition mustDecodeNode :: "byte list \<Rightarrow> byte list \<Rightarrow> nat \<Rightarrow> node result" where
  "mustDecodeNode hash buf cachegen =
     (case decodeNode (Some hash) cachegen buf of Inl e \<Rightarrow> Panic ''node'' | Inr n \<Rightarrow> Ok n)"

subsection \<open>ethdb and badger\_wrapper.go\<close>

text \<open>\<open>dk_refuses\<close> is an \<open>Update\<close> that Badger ends with an error.\<close>

record disk =
  dk_data :: "byte list \<Rightarrow> byte list option"
  dk_refuses :: "byte list \<Rightarrow> byte list \<Rightarrow> bool"

type_synonym batch = "(byte list \<times> byte list) list"

definition Badger_Put :: "byte list \<Rightarrow> byte list \<Rightarrow> disk \<Rightarrow> unit result \<times> disk" where
  "Badger_Put key v dk =
     (if dk_refuses dk key v then (Err ''Badger'', dk) else (Ok (), dk\<lparr>dk_data := (dk_data dk)(key \<mapsto> v)\<rparr>))"

definition Badger_Get :: "byte list \<Rightarrow> disk \<Rightarrow> byte list result" where
  "Badger_Get key dk = (case dk_data dk key of None \<Rightarrow> Err ''Key not found'' | Some v \<Rightarrow> Ok v)"

definition Badger_Has :: "byte list \<Rightarrow> disk \<Rightarrow> bool result" where
  "Badger_Has key dk = result_bind (Badger_Get key dk) (\<lambda>v. Ok True)"

text \<open>\<open>Delete\<close> of the wrapper does nothing.\<close>

definition Badger_Delete :: "byte list \<Rightarrow> disk \<Rightarrow> unit result \<times> disk" where
  "Badger_Delete key dk = (Ok (), dk)"

definition memBatch_Put :: "byte list \<Rightarrow> byte list \<Rightarrow> batch \<Rightarrow> batch" where
  "memBatch_Put key v b = b @ [(key, v)]"

definition memBatch_Delete :: "byte list \<Rightarrow> batch \<Rightarrow> batch" where
  "memBatch_Delete key b = filter (\<lambda>kv. fst kv \<noteq> key) b"

definition memBatch_ValueSize :: "batch \<Rightarrow> nat" where
  "memBatch_ValueSize b = sum_list (map (length \<circ> snd) b)"

definition memBatch_Write :: "batch \<Rightarrow> disk \<Rightarrow> disk" where
  "memBatch_Write b dk = fold (\<lambda>kv d. snd (Badger_Put (fst kv) (snd kv) d)) b dk"

definition IdealBatchSize :: nat where "IdealBatchSize = 100 * 1024"

subsection \<open>database.go: nodes\<close>

text \<open>A collapsed node without its flags; \<open>RawNil\<close> is nil. A cached blob, \<open>rawNode\<close> in the code, is the right of the sum.\<close>

datatype raw_node =
    RawNil
  | RawShort "byte list" raw_node
  | RawFull "raw_node list"
  | RawHash "byte list"
  | RawValue "byte list"

fun raw_rval :: "raw_node \<Rightarrow> rval" where
  "raw_rval RawNil = RNilIface"
| "raw_rval (RawShort k v) = RStruct [RBytes k, raw_rval v]"
| "raw_rval (RawFull cs) = RSlice (map (\<lambda>c. if c = RawNil then RBytes [] else raw_rval c) cs)"
| "raw_rval (RawHash h) = RBytes h"
| "raw_rval (RawValue v) = RBytes v"

record cachedNode =
  cn_node :: "raw_node + byte list"
  cn_size :: nat
  cn_parents :: nat
  cn_children :: "(HashBytes \<times> nat) list"
  cn_flushPrev :: HashBytes
  cn_flushNext :: HashBytes

record Database =
  db_disk :: disk
  db_nodes :: "HashBytes \<Rightarrow> cachedNode option"
  db_oldest :: HashBytes
  db_newest :: HashBytes
  db_preimages :: "(HashBytes \<times> byte list) list"
  db_nodesSize :: int
  db_preimagesSize :: int

abbreviation meta_root :: HashBytes where "meta_root \<equiv> replicate HashLength 0"

fun simplifyNode :: "node \<Rightarrow> raw_node result"
  and simplify_children :: "node list \<Rightarrow> raw_node list result" where
  "simplifyNode (ShortNode k v fl) = result_bind (simplifyNode v) (\<lambda>r. Ok (RawShort k r))"
| "simplifyNode (FullNode cs fl) = result_bind (simplify_children cs) (\<lambda>rs. Ok (RawFull rs))"
| "simplifyNode (ValueNode v) = Ok (RawValue v)"
| "simplifyNode (HashNode h) = Ok (RawHash h)"
| "simplifyNode NilNode = Panic ''unknown node type''"
| "simplify_children [] = Ok []"
| "simplify_children (c # cs) =
     result_bind (if c = NilNode then Ok RawNil else simplifyNode c) (\<lambda>r.
     result_bind (simplify_children cs) (\<lambda>rs. Ok (r # rs)))"

fun expandNode :: "byte list option \<Rightarrow> nat \<Rightarrow> raw_node \<Rightarrow> node result"
  and expand_children :: "nat \<Rightarrow> raw_node list \<Rightarrow> node list result" where
  "expandNode hash cachegen (RawShort k v) =
     (if k = [] then Panic ''slice bounds out of range''
      else result_bind (expandNode None cachegen v) (\<lambda>n. Ok (ShortNode (compactToHex k) n (clean_flag hash cachegen))))"
| "expandNode hash cachegen (RawFull cs) =
     result_bind (expand_children cachegen cs) (\<lambda>ns. Ok (FullNode ns (clean_flag hash cachegen)))"
| "expandNode hash cachegen (RawValue v) = Ok (ValueNode v)"
| "expandNode hash cachegen (RawHash h) = Ok (HashNode h)"
| "expandNode hash cachegen RawNil = Panic ''unknown node type''"
| "expand_children cachegen [] = Ok []"
| "expand_children cachegen (c # cs) =
     result_bind (if c = RawNil then Ok NilNode else expandNode None cachegen c) (\<lambda>n.
     result_bind (expand_children cachegen cs) (\<lambda>ns. Ok (n # ns)))"

fun gatherChildren :: "raw_node \<Rightarrow> HashBytes list" where
  "gatherChildren (RawShort k v) = gatherChildren v"
| "gatherChildren (RawFull cs) = concat (take 16 (map gatherChildren cs))"
| "gatherChildren (RawHash h) = [BytesToHash h]"
| "gatherChildren (RawValue v) = []"
| "gatherChildren RawNil = []"

definition panicking :: "string \<Rightarrow> 'a result \<Rightarrow> 'a result" where
  "panicking msg r = (case r of Err e \<Rightarrow> Panic msg | _ \<Rightarrow> r)"

definition cachedNode_rlp :: "cachedNode \<Rightarrow> byte list result" where
  "cachedNode_rlp n =
     (case cn_node n of Inr blob \<Rightarrow> Ok blob | Inl r \<Rightarrow> panicking ''encode'' (EncodeToBytes (raw_rval r)))"

definition cachedNode_obj :: "HashBytes \<Rightarrow> nat \<Rightarrow> cachedNode \<Rightarrow> node result" where
  "cachedNode_obj hash cachegen n =
     (case cn_node n of
        Inr blob \<Rightarrow> mustDecodeNode hash blob cachegen
      | Inl r \<Rightarrow> expandNode (Some hash) cachegen r)"

definition cachedNode_childs :: "cachedNode \<Rightarrow> HashBytes list" where
  "cachedNode_childs n =
     map fst (cn_children n) @ (case cn_node n of Inr blob \<Rightarrow> [] | Inl r \<Rightarrow> gatherChildren r)"

definition empty_cachedNode :: cachedNode where
  "empty_cachedNode = \<lparr>cn_node = Inl RawNil, cn_size = 0, cn_parents = 0, cn_children = [], cn_flushPrev = meta_root,
     cn_flushNext = meta_root\<rparr>"

definition NewDatabase :: "disk \<Rightarrow> Database" where
  "NewDatabase dk = \<lparr>db_disk = dk, db_nodes = [meta_root \<mapsto> empty_cachedNode], db_oldest = meta_root, db_newest = meta_root,
     db_preimages = [], db_nodesSize = 0, db_preimagesSize = 0\<rparr>"

text \<open>A change of an entry through its pointer; there is none where the map has no such key.\<close>

definition change_node :: "HashBytes \<Rightarrow> (cachedNode \<Rightarrow> cachedNode) \<Rightarrow> Database \<Rightarrow> Database result" where
  "change_node h f db =
     (case db_nodes db h of
        None \<Rightarrow> Panic ''nil pointer dereference''
      | Some n \<Rightarrow> Ok (db\<lparr>db_nodes := (db_nodes db)(h \<mapsto> f n)\<rparr>))"

definition add_parents :: "HashBytes list \<Rightarrow> (HashBytes \<Rightarrow> cachedNode option) \<Rightarrow> HashBytes \<Rightarrow> cachedNode option" where
  "add_parents cs nodes = fold (\<lambda>c m.
     case m c of None \<Rightarrow> m | Some n \<Rightarrow> m(c \<mapsto> n\<lparr>cn_parents := (cn_parents n + 1) mod 2 ^ 16\<rparr>)) cs nodes"

definition Database_insert :: "HashBytes \<Rightarrow> byte list \<Rightarrow> node + byte list \<Rightarrow> Database \<Rightarrow> Database result" where
  "Database_insert hash blob n db =
     (if db_nodes db hash \<noteq> None then Ok db
      else result_bind (case n of Inr b \<Rightarrow> Ok (Inr b) | Inl n \<Rightarrow> result_bind (simplifyNode n) (\<lambda>r. Ok (Inl r))) (\<lambda>node.
        let entry = \<lparr>cn_node = node, cn_size = length blob mod 2 ^ 16, cn_parents = 0, cn_children = [],
              cn_flushPrev = db_newest db, cn_flushNext = meta_root\<rparr>;
            nodes = (add_parents (cachedNode_childs entry) (db_nodes db))(hash \<mapsto> entry);
            db1 = db\<lparr>db_nodes := nodes\<rparr>
        in result_bind
             (if db_oldest db = meta_root then Ok (db1\<lparr>db_oldest := hash, db_newest := hash\<rparr>)
              else result_bind (change_node (db_newest db) (\<lambda>m. m\<lparr>cn_flushNext := hash\<rparr>) db1) (\<lambda>db2.
                Ok (db2\<lparr>db_newest := hash\<rparr>)))
             (\<lambda>db2. Ok (db2\<lparr>db_nodesSize := db_nodesSize db2 + int ((HashLength + cn_size entry) mod 2 ^ 16)\<rparr>))))"

definition Database_InsertBlob :: "HashBytes \<Rightarrow> byte list \<Rightarrow> Database \<Rightarrow> Database result" where
  "Database_InsertBlob hash blob db = Database_insert hash blob (Inr blob) db"

definition Database_insertPreimage :: "HashBytes \<Rightarrow> byte list \<Rightarrow> Database \<Rightarrow> Database" where
  "Database_insertPreimage hash preimage db =
     (if map_of (db_preimages db) hash \<noteq> None then db
      else db\<lparr>db_preimages := db_preimages db @ [(hash, preimage)],
              db_preimagesSize := db_preimagesSize db + int (HashLength + length preimage)\<rparr>)"

text \<open>\<open>None\<close> is the nil node: not found.\<close>

definition Database_node :: "HashBytes \<Rightarrow> nat \<Rightarrow> Database \<Rightarrow> node option result" where
  "Database_node hash cachegen db =
     (case db_nodes db hash of
        Some n \<Rightarrow> result_bind (cachedNode_obj hash cachegen n) (\<lambda>n. Ok (Some n))
      | None \<Rightarrow>
          (case Badger_Get hash (db_disk db) of
             Ok enc \<Rightarrow> result_bind (mustDecodeNode hash enc cachegen) (\<lambda>n. Ok (Some n))
           | _ \<Rightarrow> Ok None))"

definition Database_Node :: "HashBytes \<Rightarrow> Database \<Rightarrow> byte list result" where
  "Database_Node hash db =
     (case db_nodes db hash of Some n \<Rightarrow> cachedNode_rlp n | None \<Rightarrow> Badger_Get hash (db_disk db))"

definition secureKeyPrefix :: "byte list" where "secureKeyPrefix = string_bytes ''secure-key-''"

definition secureKey :: "byte list \<Rightarrow> byte list" where "secureKey key = secureKeyPrefix @ key"

definition Database_preimage :: "HashBytes \<Rightarrow> Database \<Rightarrow> byte list result" where
  "Database_preimage hash db =
     (case map_of (db_preimages db) hash of
        Some p \<Rightarrow> Ok p
      | None \<Rightarrow> Badger_Get (secureKey hash) (db_disk db))"

text \<open>The database as the trie sees it: what \<open>resolveHash\<close> loads.\<close>

definition nodes_of :: "Database \<Rightarrow> nat \<Rightarrow> node_db" where
  "nodes_of db cachegen h = (case Database_node (BytesToHash h) cachegen db of Ok n \<Rightarrow> n | _ \<Rightarrow> None)"

subsection \<open>database.go: references\<close>

definition add_ref :: "HashBytes \<Rightarrow> (HashBytes \<times> nat) list \<Rightarrow> (HashBytes \<times> nat) list" where
  "add_ref c cs =
     (if c \<in> set (map fst cs) then map (\<lambda>(h, n). if h = c then (h, (n + 1) mod 2 ^ 16) else (h, n)) cs else cs @ [(c, 1)])"

definition drop_ref :: "HashBytes \<Rightarrow> (HashBytes \<times> nat) list \<Rightarrow> (HashBytes \<times> nat) list" where
  "drop_ref c cs = filter (\<lambda>(h, n). h \<noteq> c \<or> n \<noteq> 0) (map (\<lambda>(h, n). if h = c \<and> 0 < n then (h, n - 1) else (h, n)) cs)"

definition Database_reference :: "HashBytes \<Rightarrow> HashBytes \<Rightarrow> Database \<Rightarrow> Database result" where
  "Database_reference child parent db =
     (case db_nodes db child of
        None \<Rightarrow> Ok db
      | Some _ \<Rightarrow>
          (case db_nodes db parent of
             None \<Rightarrow> Panic ''nil pointer dereference''
           | Some p \<Rightarrow>
               if child \<in> set (map fst (cn_children p)) \<and> parent \<noteq> meta_root then Ok db
               else result_bind (change_node child (\<lambda>n. n\<lparr>cn_parents := (cn_parents n + 1) mod 2 ^ 16\<rparr>) db)
                 (change_node parent (\<lambda>n. n\<lparr>cn_children := add_ref child (cn_children n)\<rparr>))))"

text \<open>The removal of an entry from the flush list, as \<open>dereference\<close> and \<open>uncache\<close> do it.\<close>

definition unlink :: "HashBytes \<Rightarrow> cachedNode \<Rightarrow> Database \<Rightarrow> Database result" where
  "unlink h n db =
     (if h = db_oldest db then
        change_node (cn_flushNext n) (\<lambda>m. m\<lparr>cn_flushPrev := meta_root\<rparr>) (db\<lparr>db_oldest := cn_flushNext n\<rparr>)
      else if h = db_newest db then
        change_node (cn_flushPrev n) (\<lambda>m. m\<lparr>cn_flushNext := meta_root\<rparr>) (db\<lparr>db_newest := cn_flushPrev n\<rparr>)
      else result_bind (change_node (cn_flushPrev n) (\<lambda>m. m\<lparr>cn_flushNext := cn_flushNext n\<rparr>) db)
        (change_node (cn_flushNext n) (\<lambda>m. m\<lparr>cn_flushPrev := cn_flushPrev n\<rparr>)))"

definition forget :: "HashBytes \<Rightarrow> nat \<Rightarrow> Database \<Rightarrow> Database" where
  "forget h sz db =
     db\<lparr>db_nodes := (db_nodes db)(h := None), db_nodesSize := db_nodesSize db - int (HashLength + sz)\<rparr>"

text \<open>The loop over the children of an entry.\<close>

primrec each :: "('a \<Rightarrow> 's \<Rightarrow> 's outcome) \<Rightarrow> 'a list \<Rightarrow> 's \<Rightarrow> 's outcome" where
  "each f [] s = Done s"
| "each f (x # xs) s = outcome_bind (f x s) (each f xs)"

primrec Database_dereference :: "nat \<Rightarrow> HashBytes \<Rightarrow> HashBytes \<Rightarrow> Database \<Rightarrow> Database outcome" where
  "Database_dereference 0 child parent db = Timeout"
| "Database_dereference (Suc f) child parent db =
     outcome_bind (of_result (change_node parent (\<lambda>n. n\<lparr>cn_children := drop_ref child (cn_children n)\<rparr>) db)) (\<lambda>db1.
     case db_nodes db1 child of
       None \<Rightarrow> Done db1
     | Some _ \<Rightarrow>
         outcome_bind (of_result (change_node child (\<lambda>n. n\<lparr>cn_parents := cn_parents n - 1\<rparr>) db1)) (\<lambda>db2.
         let node = the (db_nodes db2 child) in
         if cn_parents node \<noteq> 0 then Done db2
         else
           outcome_bind (of_result (unlink child node db2)) (\<lambda>db3.
           outcome_bind (each (\<lambda>h. Database_dereference f h child) (cachedNode_childs node) db3) (\<lambda>db4.
             Done (forget child (cn_size node) db4)))))"

text \<open>\<open>Dereference\<close> of the meta root only logs an error.\<close>

definition Database_Dereference :: "nat \<Rightarrow> HashBytes \<Rightarrow> Database \<Rightarrow> Database outcome" where
  "Database_Dereference f root db = (if root = meta_root then Done db else Database_dereference f root meta_root db)"

subsection \<open>database.go: flushing and committing\<close>

definition batch_put :: "byte list \<Rightarrow> byte list \<Rightarrow> disk \<times> batch \<Rightarrow> disk \<times> batch" where
  "batch_put key v s = (fst s, memBatch_Put key v (snd s))"

text \<open>\<open>batch.Write()\<close> and \<open>batch.Reset()\<close>.\<close>

definition batch_flush :: "disk \<times> batch \<Rightarrow> disk \<times> batch" where
  "batch_flush s = (memBatch_Write (snd s) (fst s), [])"

definition put_preimage :: "HashBytes \<times> byte list \<Rightarrow> disk \<times> batch \<Rightarrow> disk \<times> batch" where
  "put_preimage p s =
     (let s1 = batch_put (secureKey (fst p)) (snd p) s
      in if memBatch_ValueSize (snd s1) > IdealBatchSize then batch_flush s1 else s1)"

definition put_node :: "HashBytes \<Rightarrow> byte list \<Rightarrow> disk \<times> batch \<Rightarrow> disk \<times> batch" where
  "put_node h blob s =
     (let s1 = batch_put h blob s
      in if memBatch_ValueSize (snd s1) \<ge> IdealBatchSize then batch_flush s1 else s1)"

primrec Database_commit ::
  "nat \<Rightarrow> (HashBytes \<Rightarrow> cachedNode option) \<Rightarrow> HashBytes \<Rightarrow> disk \<times> batch \<Rightarrow> (disk \<times> batch) outcome" where
  "Database_commit 0 nodes hash s = Timeout"
| "Database_commit (Suc f) nodes hash s =
     (case nodes hash of
        None \<Rightarrow> Done s
      | Some node \<Rightarrow>
          outcome_bind (each (Database_commit f nodes) (cachedNode_childs node) s) (\<lambda>s1.
          outcome_bind (of_result (cachedNode_rlp node)) (\<lambda>blob. Done (put_node hash blob s1))))"

primrec Database_uncache :: "nat \<Rightarrow> HashBytes \<Rightarrow> Database \<Rightarrow> Database outcome" where
  "Database_uncache 0 hash db = Timeout"
| "Database_uncache (Suc f) hash db =
     (case db_nodes db hash of
        None \<Rightarrow> Done db
      | Some node \<Rightarrow>
          outcome_bind (of_result (unlink hash node db)) (\<lambda>db1.
          outcome_bind (each (Database_uncache f) (cachedNode_childs node) db1) (\<lambda>db2.
            Done (forget hash (cn_size node) db2))))"

definition Database_Commit :: "nat \<Rightarrow> HashBytes \<Rightarrow> Database \<Rightarrow> Database outcome" where
  "Database_Commit f node db =
     (let s = fold put_preimage (db_preimages db) (db_disk db, [])
      in outcome_bind (Database_commit f (db_nodes db) node s) (\<lambda>s1.
           Database_uncache f node
             (db\<lparr>db_disk := fst (batch_flush s1), db_preimages := [], db_preimagesSize := 0\<rparr>)))"

text \<open>The two loops of \<open>Cap\<close> along the flush list; \<open>f\<close> bounds its length.\<close>

primrec cap_write :: "nat \<Rightarrow> int \<Rightarrow> Database \<Rightarrow> int \<Rightarrow> HashBytes \<Rightarrow> disk \<times> batch \<Rightarrow> (HashBytes \<times> disk \<times> batch) outcome" where
  "cap_write 0 limit db sz oldest s = Timeout"
| "cap_write (Suc f) limit db sz oldest s =
     (if \<not> (sz > limit \<and> oldest \<noteq> meta_root) then Done (oldest, s)
      else case db_nodes db oldest of
             None \<Rightarrow> Crash ''nil pointer dereference''
           | Some node \<Rightarrow>
               outcome_bind (of_result (cachedNode_rlp node)) (\<lambda>blob.
                 cap_write f limit db (sz - int (3 * HashLength + cn_size node)) (cn_flushNext node) (put_node oldest blob s)))"

primrec cap_drop :: "nat \<Rightarrow> HashBytes \<Rightarrow> Database \<Rightarrow> Database outcome" where
  "cap_drop 0 oldest db = Timeout"
| "cap_drop (Suc f) oldest db =
     (if db_oldest db = oldest then Done db
      else case db_nodes db (db_oldest db) of
             None \<Rightarrow> Crash ''nil pointer dereference''
           | Some node \<Rightarrow>
               cap_drop f oldest ((forget (db_oldest db) (cn_size node) db)\<lparr>db_oldest := cn_flushNext node\<rparr>))"

text \<open>\<open>entries\<close> is the number of entries of the map, the meta root included.\<close>

definition Database_Size :: "nat \<Rightarrow> Database \<Rightarrow> int \<times> int" where
  "Database_Size entries db = (db_nodesSize db + (int entries - 1) * 2 * int HashLength, db_preimagesSize db)"

definition Database_Cap :: "nat \<Rightarrow> nat \<Rightarrow> int \<Rightarrow> Database \<Rightarrow> Database outcome" where
  "Database_Cap f entries limit db =
     (let sz = db_nodesSize db + (int entries - 1) * 2 * int HashLength;
          flushPreimages = db_preimagesSize db > 4 * 1024 * 1024;
          s = (if flushPreimages then fold put_preimage (db_preimages db) (db_disk db, []) else (db_disk db, []))
      in outcome_bind (cap_write f limit db sz (db_oldest db) s) (\<lambda>(oldest, s1).
         let db1 = db\<lparr>db_disk := fst (batch_flush s1)\<rparr>;
             db2 = (if flushPreimages then db1\<lparr>db_preimages := [], db_preimagesSize := 0\<rparr> else db1)
         in outcome_bind (cap_drop f oldest db2) (\<lambda>db3.
              if db_oldest db3 \<noteq> meta_root
              then of_result (change_node (db_oldest db3) (\<lambda>n. n\<lparr>cn_flushPrev := meta_root\<rparr>) db3)
              else Done db3)))"

text \<open>\<open>accumulate\<close>: the cached nodes that a hash reaches.\<close>

primrec Database_accumulate ::
  "nat \<Rightarrow> (HashBytes \<Rightarrow> cachedNode option) \<Rightarrow> HashBytes \<Rightarrow> HashBytes list \<Rightarrow> HashBytes list outcome" where
  "Database_accumulate 0 nodes hash reachable = Timeout"
| "Database_accumulate (Suc f) nodes hash reachable =
     (case nodes hash of
        None \<Rightarrow> Done reachable
      | Some node \<Rightarrow> each (Database_accumulate f nodes) (cachedNode_childs node) (List.insert hash reachable))"

text \<open>\<open>keys\<close> are the keys of the map.\<close>

definition Database_verifyIntegrity :: "nat \<Rightarrow> HashBytes list \<Rightarrow> Database \<Rightarrow> unit outcome" where
  "Database_verifyIntegrity f keys db =
     (case db_nodes db meta_root of
        None \<Rightarrow> Crash ''nil pointer dereference''
      | Some root \<Rightarrow>
          outcome_bind (each (Database_accumulate f (db_nodes db)) (map fst (cn_children root)) [meta_root]) (\<lambda>reachable.
            if \<forall>h\<in>set keys. h \<in> set reachable then Done () else Crash ''trie cache memory leak''))"

definition Database_Nodes :: "HashBytes list \<Rightarrow> HashBytes list" where
  "Database_Nodes keys = filter (\<lambda>h. h \<noteq> meta_root) keys"

subsection \<open>hasher.go\<close>

record hasher =
  ha_cachegen :: nat
  ha_cachelimit :: nat
  ha_onleaf :: "(byte list \<Rightarrow> HashBytes \<Rightarrow> Database \<Rightarrow> Database result) option"

definition makeHashNode :: "crypto \<Rightarrow> byte list \<Rightarrow> byte list" where
  "makeHashNode C d = keccak256 C d"

text \<open>The early returns of \<open>hash\<close>; \<open>store\<close> says whether there is a database.\<close>

definition hash_cached :: "hasher \<Rightarrow> node \<Rightarrow> bool \<Rightarrow> (node \<times> node) option" where
  "hash_cached h n store =
     (case node_cache n of
        (None, dirty) \<Rightarrow> None
      | (Some hash, dirty) \<Rightarrow>
          if \<not> store then Some (HashNode hash, n)
          else if node_canUnload n (ha_cachegen h) (ha_cachelimit h) then Some (HashNode hash, HashNode hash)
          else if \<not> dirty then Some (HashNode hash, n)
          else None)"

text \<open>\<open>onleaf\<close> for the values right below a node that is stored.\<close>

primrec report_leaves ::
  "(byte list \<Rightarrow> HashBytes \<Rightarrow> Database \<Rightarrow> Database result) \<Rightarrow> HashBytes \<Rightarrow> node list \<Rightarrow> Database \<Rightarrow> Database result" where
  "report_leaves onleaf hash [] db = Ok db"
| "report_leaves onleaf hash (c # cs) db =
     result_bind (case c of ValueNode v \<Rightarrow> onleaf v hash db | _ \<Rightarrow> Ok db) (report_leaves onleaf hash cs)"

definition leaf_children :: "node \<Rightarrow> node list" where
  "leaf_children n = (case n of ShortNode k v fl \<Rightarrow> [v] | FullNode cs fl \<Rightarrow> take 16 cs | _ \<Rightarrow> [])"

definition hasher_store :: "crypto \<Rightarrow> hasher \<Rightarrow> node \<Rightarrow> Database option \<Rightarrow> bool \<Rightarrow> (node \<times> Database option) result" where
  "hasher_store C h n db force =
     (case n of
        NilNode \<Rightarrow> Ok (n, db)
      | HashNode _ \<Rightarrow> Ok (n, db)
      | _ \<Rightarrow>
          result_bind (panicking ''encode error'' (EncodeToBytes (node_rval n))) (\<lambda>tmp.
            if length tmp < 32 \<and> \<not> force then Ok (n, db)
            else
              let hash = (case fst (node_cache n) of Some x \<Rightarrow> x | None \<Rightarrow> makeHashNode C tmp)
              in case db of
                   None \<Rightarrow> Ok (HashNode hash, None)
                 | Some d \<Rightarrow>
                     result_bind (Database_insert (BytesToHash hash) tmp (Inl n) d) (\<lambda>d1.
                     result_bind (case ha_onleaf h of None \<Rightarrow> Ok d1
                       | Some onleaf \<Rightarrow> report_leaves onleaf (BytesToHash hash) (leaf_children n) d1) (\<lambda>d2.
                       Ok (HashNode hash, Some d2)))))"

definition set_hash :: "node \<Rightarrow> bool \<Rightarrow> node \<Rightarrow> node" where
  "set_hash hashed store cached =
     (let cachedHash = (case hashed of HashNode x \<Rightarrow> Some x | _ \<Rightarrow> None);
          mark = (\<lambda>fl. fl\<lparr>nf_hash := cachedHash, nf_dirty := (if store then False else nf_dirty fl)\<rparr>)
      in case cached of
           ShortNode k v fl \<Rightarrow> ShortNode k v (mark fl)
         | FullNode cs fl \<Rightarrow> FullNode cs (mark fl)
         | _ \<Rightarrow> cached)"

definition is_value :: "node \<Rightarrow> bool" where
  "is_value n = (case n of ValueNode _ \<Rightarrow> True | _ \<Rightarrow> False)"

text \<open>\<open>hash\<close> and the two cases of \<open>hashChildren\<close>; the seventeenth child is left as it is.\<close>

definition finish_hash ::
  "crypto \<Rightarrow> hasher \<Rightarrow> bool \<Rightarrow> node \<times> node \<times> Database option \<Rightarrow> (node \<times> node \<times> Database option) result" where
  "finish_hash C h force p =
     (case p of (collapsed, cached, db) \<Rightarrow>
        result_bind (hasher_store C h collapsed db force) (\<lambda>(hashed, db1).
          Ok (hashed, set_hash hashed (db \<noteq> None) cached, db1)))"

fun hash_node :: "crypto \<Rightarrow> hasher \<Rightarrow> node \<Rightarrow> Database option \<Rightarrow> bool \<Rightarrow> (node \<times> node \<times> Database option) result"
  and hash_children :: "crypto \<Rightarrow> hasher \<Rightarrow> nat \<Rightarrow> node list \<Rightarrow> Database option \<Rightarrow> (node list \<times> node list \<times> Database option) result" where
  "hash_node C h (ShortNode k v fl) db force =
     (case hash_cached h (ShortNode k v fl) (db \<noteq> None) of
        Some (hashed, cached) \<Rightarrow> Ok (hashed, cached, db)
      | None \<Rightarrow>
          result_bind (if is_value v then Ok (v, v, db) else hash_node C h v db False) (\<lambda>(cv, kv, db1).
            finish_hash C h force (ShortNode (hexToCompact k) cv fl, ShortNode k kv fl, db1)))"
| "hash_node C h (FullNode cs fl) db force =
     (case hash_cached h (FullNode cs fl) (db \<noteq> None) of
        Some (hashed, cached) \<Rightarrow> Ok (hashed, cached, db)
      | None \<Rightarrow>
          result_bind (hash_children C h 16 cs db) (\<lambda>(ccs, kcs, db1).
            finish_hash C h force (FullNode ccs fl, FullNode kcs fl, db1)))"
| "hash_node C h NilNode db force = finish_hash C h force (NilNode, NilNode, db)"
| "hash_node C h (HashNode x) db force = finish_hash C h force (HashNode x, HashNode x, db)"
| "hash_node C h (ValueNode v) db force = finish_hash C h force (ValueNode v, ValueNode v, db)"
| "hash_children C h m [] db = Ok ([], [], db)"
| "hash_children C h 0 (c # cs) db = Ok (c # cs, c # cs, db)"
| "hash_children C h (Suc m) (c # cs) db =
     result_bind (if c = NilNode then Ok (NilNode, NilNode, db) else hash_node C h c db False) (\<lambda>(cc, kc, db1).
     result_bind (hash_children C h m cs db1) (\<lambda>(ccs, kcs, db2).
       Ok (cc # ccs, kc # kcs, db2)))"

subsection \<open>trie.go: Hash and Commit\<close>

definition hashRoot :: "crypto \<Rightarrow> hasher \<Rightarrow> Trie \<Rightarrow> Database option \<Rightarrow> (node \<times> node \<times> Database option) result" where
  "hashRoot C h t db =
     (if t_root t = NilNode then Ok (HashNode emptyRoot, NilNode, db) else hash_node C h (t_root t) db True)"

definition as_hash :: "node \<Rightarrow> HashBytes result" where
  "as_hash n = (case n of HashNode x \<Rightarrow> Ok (BytesToHash x) | _ \<Rightarrow> Panic ''interface conversion'')"

definition trie_hasher :: "nat \<Rightarrow> Trie \<Rightarrow> (byte list \<Rightarrow> HashBytes \<Rightarrow> Database \<Rightarrow> Database result) option \<Rightarrow> hasher" where
  "trie_hasher cachelimit t onleaf = \<lparr>ha_cachegen = t_cachegen t, ha_cachelimit = cachelimit, ha_onleaf = onleaf\<rparr>"

definition Trie_Hash :: "crypto \<Rightarrow> nat \<Rightarrow> Trie \<Rightarrow> (HashBytes \<times> Trie) result" where
  "Trie_Hash C cachelimit t =
     result_bind (hashRoot C (trie_hasher cachelimit t None) t None) (\<lambda>(hash, cached, _).
     result_bind (as_hash hash) (\<lambda>root. Ok (root, t\<lparr>t_root := cached\<rparr>)))"

definition Trie_Commit ::
  "crypto \<Rightarrow> nat \<Rightarrow> (byte list \<Rightarrow> HashBytes \<Rightarrow> Database \<Rightarrow> Database result) option \<Rightarrow> Trie \<Rightarrow> Database \<Rightarrow>
     (HashBytes \<times> Trie \<times> Database) result" where
  "Trie_Commit C cachelimit onleaf t db =
     result_bind (hashRoot C (trie_hasher cachelimit t onleaf) t (Some db)) (\<lambda>(hash, cached, db1).
     result_bind (as_hash hash) (\<lambda>root.
       Ok (root, t\<lparr>t_root := cached, t_cachegen := (t_cachegen t + 1) mod 2 ^ 16\<rparr>, the db1)))"

end
