(* ===== verification/Dvm.thy ===== *)
theory Dvm
  imports Evm_Transition Eth_Receipts Trie_Store
begin

section \<open>The virtual machine service: dvm/dvm_api.go, dvm_helpers.go, vmstatehelperimplemtations\<close>

text \<open>
  Deploying a contract and executing one of its methods, from the transaction to the records on the disk.

  \<^item> \<open>VMStateHelper\<close> holds the account state of one contract: it is opened at the root that the disk has for the contract
    and committed to the disk together with the transactions and the receipts.
  \<^item> \<open>applyTransaction\<close> and \<open>call\<close> run a message on that state and make its receipt; \<open>DeploySmartContract\<close> and
    \<open>ExecuteSmartContract\<close> put the steps together. They return \<open>Crash\<close> where the code panics.
  \<^item> The disk is the one of Trie_Store. \<open>world\<close> has what the service is built on: the account tries and codes over a disk
    (\<open>state.NewDatabase\<close>) and the commit of their node database (\<open>TrieDB().Commit\<close>), which State_DB takes for any type of
    tries; the orders in which Go visits its maps; the text of a JSON document; the package \<open>abi\<close>; the built-in curves; the
    clock.
  \<^item> A helper keeps the database it was opened with: what is opened later in the same execution is read from the disk as it
    was then. The tracer is off (\<open>IsDemo\<close> is false); log output is not modelled.
\<close>

subsection \<open>What the service is built on\<close>

record abi =
  ab_Pack :: "string \<Rightarrow> json list \<Rightarrow> byte list result"
  ab_Unpack :: "string \<Rightarrow> byte list \<Rightarrow> string result"

record 't world =
  wd_senv :: "disk \<Rightarrow> 't senv"
  wd_TrieDB_Commit :: "'t StateDB \<Rightarrow> HashBytes \<Rightarrow> disk \<Rightarrow> unit result \<times> disk"
  wd_journal_order :: "'t StateDB \<Rightarrow> AddressBytes list"
  wd_object_order :: "'t StateDB \<Rightarrow> AddressBytes list"
  wd_storage_order :: "'t StateDB \<Rightarrow> AddressBytes \<Rightarrow> HashBytes list"
  wd_json_bytes :: "json \<Rightarrow> byte list"
  wd_abi_JSON :: "byte list \<Rightarrow> abi result"
  wd_natives :: natives
  wd_clock :: "nat \<Rightarrow> int"

datatype dvm_error =
  StateError string | DatabaseError db_error | MessageError transition_error | EncodingError string | AbiError string

subsection \<open>vmstatehelperimplemtations: the state of a contract\<close>

definition GasLimit :: int where "GasLimit = 1000000000000"
definition DefaultValue :: int where "DefaultValue = 0"
definition DefaultGas :: int where "DefaultGas = 1000000000000"
definition DefaultGasPrice :: int where "DefaultGasPrice = 0"
definition DefaultGasLimit :: int where "DefaultGasLimit = 1000000000000"
definition DefaultDivvy :: int where "DefaultDivvy = 0"

definition ReceiptsPrefix :: "byte list" where "ReceiptsPrefix = string_bytes ''receipts-''"
definition headTxKey :: "byte list" where "headTxKey = string_bytes ''LastTx''"
definition acctounStatePrefix :: "byte list" where "acctounStatePrefix = string_bytes ''AccountState-''"

text \<open>\<open>crypto.GetHashBytes\<close>: what was decoded before an error, filled or cut on the left.\<close>

definition GetHashBytes :: "string \<Rightarrow> HashBytes" where
  "GetHashBytes value = fill_right HashLength (hex_prefix value)"

record 't VMStateHelper =
  sh_senv :: "'t senv"
  sh_EthStateDB :: "'t StateDB"
  sh_TxIndex :: int
  sh_Transactions :: "Transaction list"
  sh_Receipts :: "EthReceipt list"
  sh_AllLogs :: "Log list"
  sh_TotalUsedGas :: int
  sh_GP :: int
  sh_SmartContractAddress :: AddressBytes
  sh_HashOfTrieRootNode :: HashBytes

definition state_key :: "AddressBytes \<Rightarrow> byte list" where
  "state_key a = acctounStatePrefix @ string_bytes (hex_EncodeToString a)"

text \<open>\<open>initOrLoadState\<close>: the root on the disk, or the empty root, and the account state there.\<close>

definition initOrLoadState :: "'t world \<Rightarrow> AddressBytes \<Rightarrow> disk \<Rightarrow> (HashBytes \<times> 't StateDB) result" where
  "initOrLoadState W a dk =
     (let root = (case Badger_Get (state_key a) dk of Ok d \<Rightarrow> BytesToHash d | _ \<Rightarrow> zero_hash)
      in result_bind (OpenStateDB (wd_senv W dk) root) (\<lambda>st. Ok (root, st)))"

definition NewVMStateHelper :: "'t world \<Rightarrow> AddressBytes \<Rightarrow> disk \<Rightarrow> 't VMStateHelper result" where
  "NewVMStateHelper W a dk =
     result_bind (GasPool_AddGas GasLimit 0) (\<lambda>gp.
     result_bind (initOrLoadState W a dk) (\<lambda>(root, st).
       Ok \<lparr>sh_senv = wd_senv W dk, sh_EthStateDB = st, sh_TxIndex = 0, sh_Transactions = [], sh_Receipts = [], sh_AllLogs = [],
           sh_TotalUsedGas = 0, sh_GP = gp, sh_SmartContractAddress = a, sh_HashOfTrieRootNode = root\<rparr>))"

definition writeHead :: "'t VMStateHelper \<Rightarrow> disk \<Rightarrow> unit result \<times> disk" where
  "writeHead h dk =
     (let headTx = (if 0 < length (sh_Transactions h) then sh_Transactions h ! (length (sh_Transactions h) - 1) else Transaction_zero)
      in Badger_Put headTxKey (GetHashBytes (tx_Hash headTx)) dk)"

text \<open>The loops of \<open>writeTransactions\<close> and \<open>writeReceipts\<close>, which fill a batch.\<close>

primrec transactions_batch :: "'t world \<Rightarrow> Transaction list \<Rightarrow> batch \<Rightarrow> batch result" where
  "transactions_batch W [] b = Ok b"
| "transactions_batch W (tx # txs) b =
     result_bind (Transaction_MarshalJSON tx) (\<lambda>data.
       transactions_batch W txs (memBatch_Put (GetHashBytes (tx_Hash tx)) (wd_json_bytes W data) b))"

primrec receipts_batch :: "EthReceipt list \<Rightarrow> batch \<Rightarrow> batch result" where
  "receipts_batch [] b = Ok b"
| "receipts_batch (r # rs) b =
     result_bind (EncodeToBytes (ReceiptForStorage_EncodeRLP r)) (\<lambda>data.
       receipts_batch rs (memBatch_Put (ReceiptsPrefix @ er_TxHash r) data b))"

definition writeTransactions :: "'t world \<Rightarrow> 't VMStateHelper \<Rightarrow> disk \<Rightarrow> unit result \<times> disk" where
  "writeTransactions W h dk =
     (case transactions_batch W (sh_Transactions h) [] of
        Ok b \<Rightarrow> (Ok (), memBatch_Write b dk) | Err e \<Rightarrow> (Err e, dk) | Panic e \<Rightarrow> (Panic e, dk))"

definition writeReceipts :: "'t VMStateHelper \<Rightarrow> disk \<Rightarrow> unit result \<times> disk" where
  "writeReceipts h dk =
     (case receipts_batch (sh_Receipts h) [] of
        Ok b \<Rightarrow> (Ok (), memBatch_Write b dk) | Err e \<Rightarrow> (Err e, dk) | Panic e \<Rightarrow> (Panic e, dk))"

text \<open>A step of \<open>Commit\<close> that may end it with an error.\<close>

definition or_fail ::
  "(string \<Rightarrow> dvm_error) \<Rightarrow> 't VMStateHelper \<Rightarrow> unit result \<times> disk \<Rightarrow>
     (disk \<Rightarrow> (dvm_error option \<times> 't VMStateHelper \<times> disk) result) \<Rightarrow>
     (dvm_error option \<times> 't VMStateHelper \<times> disk) result" where
  "or_fail err h r k =
     (case r of (Ok _, dk) \<Rightarrow> k dk | (Err e, dk) \<Rightarrow> Ok (Some (err e), h, dk) | (Panic e, dk) \<Rightarrow> Panic e)"

text \<open>The error of the \<open>Put\<close> of the new root is dropped.\<close>

definition VMStateHelper_Commit ::
  "'t world \<Rightarrow> 't VMStateHelper \<Rightarrow> disk \<Rightarrow> (dvm_error option \<times> 't VMStateHelper \<times> disk) result" where
  "VMStateHelper_Commit W h dk =
     (let st = sh_EthStateDB h in
      result_bind (StateDB_Commit (sh_senv h) False (wd_storage_order W st) (wd_object_order W st) st) (\<lambda>(r, st1).
      case r of
        Inl e \<Rightarrow> Ok (Some (DatabaseError e), h\<lparr>sh_EthStateDB := st1, sh_HashOfTrieRootNode := zero_hash\<rparr>, dk)
      | Inr root \<Rightarrow>
          (let h1 = h\<lparr>sh_EthStateDB := st1, sh_HashOfTrieRootNode := root\<rparr> in
           or_fail StateError h1 (wd_TrieDB_Commit W st1 root dk) (\<lambda>dk1.
           let dk2 = snd (Badger_Put (state_key (sh_SmartContractAddress h1)) root dk1) in
           or_fail StateError h1 (writeHead h1 dk2) (\<lambda>dk3.
           or_fail EncodingError h1 (writeTransactions W h1 dk3) (\<lambda>dk4.
           or_fail EncodingError h1 (writeReceipts h1 dk4) (\<lambda>dk5. Ok (None, h1, dk5))))))))"

text \<open>\<open>VMStateQueryHelper\<close>: the machine asks for the state of other contracts; the error of a commit is dropped.\<close>

definition VMStateHelper_GetCodeSize :: "'t world \<Rightarrow> disk \<Rightarrow> AddressBytes \<Rightarrow> int result" where
  "VMStateHelper_GetCodeSize W dk toBeExecuted =
     (case NewVMStateHelper W toBeExecuted dk of
        Ok h \<Rightarrow> result_bind (StateDB_GetCodeSize (sh_senv h) toBeExecuted (sh_EthStateDB h)) (\<lambda>(n, st). Ok n)
      | Err e \<Rightarrow> Ok 0
      | Panic e \<Rightarrow> Panic e)"

definition VMStateHelper_NewEthStateLoader :: "'t world \<Rightarrow> disk \<Rightarrow> AddressBytes \<Rightarrow> 't StateDB option" where
  "VMStateHelper_NewEthStateLoader W dk a = (case NewVMStateHelper W a dk of Ok h \<Rightarrow> Some (sh_EthStateDB h) | _ \<Rightarrow> None)"

definition VMStateHelper_CommitState :: "'t world \<Rightarrow> disk \<Rightarrow> AddressBytes \<Rightarrow> 't StateDB \<Rightarrow> disk result" where
  "VMStateHelper_CommitState W dk a st =
     result_bind (NewVMStateHelper W a dk) (\<lambda>h.
     result_bind (VMStateHelper_Commit W (h\<lparr>sh_EthStateDB := st\<rparr>) dk) (\<lambda>(e, h1, dk1). Ok dk1))"

definition query_helper :: "'t world \<Rightarrow> ('t, disk) VMStateQueryHelper" where
  "query_helper W =
     \<lparr>sq_GetCodeSize = VMStateHelper_GetCodeSize W, sq_NewEthStateLoader = VMStateHelper_NewEthStateLoader W,
      sq_CommitState = VMStateHelper_CommitState W\<rparr>"

subsection \<open>dvm_helpers.go\<close>

text \<open>\<open>vm.NewEVM\<close> with the context and the configuration that both callers give it.\<close>

definition service_machine :: "'t world \<Rightarrow> 't senv \<Rightarrow> HashBytes \<Rightarrow> AddressBytes \<Rightarrow> int \<Rightarrow> AddressBytes \<Rightarrow> ('t, disk) venv" where
  "service_machine W E txHash origin gasPrice coinbase =
     \<lparr>ve_senv = E, ve_natives = wd_natives W,
      ve_Context = \<lparr>cx_GetHash = (\<lambda>n. txHash), cx_Origin = origin, cx_GasPrice = gasPrice, cx_Coinbase = coinbase,
        cx_GasLimit = GasLimit, cx_BlockNumber = the (cc_ByzantiumBlock MainnetChainConfig), cx_Difficulty = None\<rparr>,
      ve_chainConfig = MainnetChainConfig, ve_NoRecursion = False, ve_EnablePreimageRecording = False,
      ve_StateQueryHelper = Some (query_helper W), ve_clock = wd_clock W\<rparr>"

definition NewEVM :: "'t StateDB \<Rightarrow> disk \<Rightarrow> ('t, disk) EVM" where
  "NewEVM st dk = \<lparr>ev_StateDB = st, ev_disk = dk, ev_depth = 0, ev_callGasTemp = 0, ev_readOnly = False, ev_returnData = [],
     ev_Time = 0, ev_ticks = 0\<rparr>"

text \<open>The end of \<open>applyTransaction\<close> and of \<open>call\<close>: the receipt, and the bookkeeping of the helper.\<close>

definition add_receipt ::
  "'t world \<Rightarrow> Transaction \<Rightarrow> int \<Rightarrow> bool \<Rightarrow> AddressBytes option \<Rightarrow> 't VMStateHelper \<Rightarrow> 't VMStateHelper result" where
  "add_receipt W tx gas failed contract h =
     (let E = sh_senv h; total = sh_TotalUsedGas h + gas; txHash = GetHashBytes (tx_Hash tx); st = sh_EthStateDB h in
      result_bind (StateDB_IntermediateRoot E True (wd_storage_order W st) (wd_journal_order W st) st) (\<lambda>(root, st1).
      let receipt = (EthReceipt_New root failed (big_Uint64 total))\<lparr>er_TxHash := txHash, er_GasUsed := gas\<rparr>;
          receipt1 = (case contract of None \<Rightarrow> receipt | Some a \<Rightarrow> receipt\<lparr>er_ContractAddress := a\<rparr>);
          receipt2 = receipt1\<lparr>er_Logs := StateDB_GetLogs txHash st1\<rparr>
      in result_bind (CreateBloom (se_crypto E) [receipt2]) (\<lambda>bloom.
         let receipt3 = receipt2\<lparr>er_Bloom := bloom\<rparr>
         in Ok (h\<lparr>sh_EthStateDB := st1, sh_TotalUsedGas := total,
                  sh_SmartContractAddress := (case contract of None \<Rightarrow> sh_SmartContractAddress h | Some a \<Rightarrow> a),
                  sh_TxIndex := sh_TxIndex h + 1, sh_Transactions := sh_Transactions h @ [tx],
                  sh_Receipts := sh_Receipts h @ [receipt3], sh_AllLogs := sh_AllLogs h @ er_Logs receipt3\<rparr>))))"

text \<open>\<open>ethereum.ApplyMessage(vmenv, msg, stateHelper.GP)\<close> with the instruction set of the configuration.\<close>

definition run_message ::
  "nat \<Rightarrow> ('t, disk) venv \<Rightarrow> Message \<Rightarrow> 't StateDB \<Rightarrow> 't VMStateHelper \<Rightarrow> disk \<Rightarrow>
     (byte list \<times> AddressBytes \<times> int \<times> bool \<times> transition_error option \<times> 't VMStateHelper \<times> disk) outcome" where
  "run_message n V msg st h dk =
     outcome_bind (ApplyMessage V (Interpreter_Run n ConstantinopleInstructionSet V) (NewEVM st dk) msg (sh_GP h))
       (\<lambda>(ret, contractAddress, gas, failed, err, t).
         Done (ret, contractAddress, gas, failed, err,
           h\<lparr>sh_EthStateDB := ev_StateDB (tn_evm t), sh_GP := tn_gp t\<rparr>, ev_disk (tn_evm t)))"

definition applyTransaction ::
  "nat \<Rightarrow> 't world \<Rightarrow> Transaction \<Rightarrow> 't VMStateHelper \<Rightarrow> disk \<Rightarrow> (dvm_error option \<times> 't VMStateHelper \<times> disk) outcome" where
  "applyTransaction n W tx h dk =
     outcome_bind (of_result (GetAddressBytes (tx_From tx))) (\<lambda>from.
     let txHash = GetHashBytes (tx_Hash tx);
         V = service_machine W (sh_senv h) txHash from 0 from;
         st = StateDB_Prepare txHash txHash 0 (sh_EthStateDB h)
     in outcome_bind (of_result (AsMessage tx DefaultGasLimit)) (\<lambda>msg.
        outcome_bind (run_message n V msg st h dk) (\<lambda>(ret, contractAddress, gas, failed, err, h1, dk1).
        case err of
          Some e \<Rightarrow> Done (Some (MessageError e), h1, dk1)
        | None \<Rightarrow>
            outcome_bind
              (of_result (add_receipt W tx gas failed (if mg_to msg = None then Some contractAddress else None) h1))
              (\<lambda>h2. Done (None, h2, dk1)))))"

definition dvm_call ::
  "nat \<Rightarrow> 't world \<Rightarrow> Transaction \<Rightarrow> Message \<Rightarrow> 't VMStateHelper \<Rightarrow> disk \<Rightarrow>
     (byte list \<times> dvm_error option \<times> 't VMStateHelper \<times> disk) outcome" where
  "dvm_call n W tx callMsg h dk =
     outcome_bind (of_result (GetAddressBytes (tx_From tx))) (\<lambda>from.
     let V = service_machine W (sh_senv h) (GetHashBytes (tx_Hash tx)) (mg_from callMsg) (mg_gasPrice callMsg) from
     in outcome_bind (run_message n V callMsg (sh_EthStateDB h) h dk) (\<lambda>(execResult, _, gas, failed, err, h1, dk1).
        case err of
          Some e \<Rightarrow> Done ([], Some (MessageError e), h1, dk1)
        | None \<Rightarrow>
            outcome_bind (of_result (GetAddressBytes (tx_To tx))) (\<lambda>to.
            outcome_bind (of_result (add_receipt W tx gas failed (Some to) h1)) (\<lambda>h2.
              Done (execResult, None, h2, dk1)))))"

text \<open>A pointer to a receipt that is nil together with the error.\<close>

definition getReceipt :: "byte list \<Rightarrow> disk \<Rightarrow> EthReceipt option" where
  "getReceipt txHash dk =
     (case Badger_Get (ReceiptsPrefix @ txHash) dk of
        Ok data \<Rightarrow> (case ReceiptForStorage_DecodeRLP data EthReceipt_zero of Val r \<Rightarrow> Some r | _ \<Rightarrow> None)
      | _ \<Rightarrow> None)"

subsection \<open>dvm_result.go, dvm_api.go\<close>

record 't DvmResult =
  dr_From :: AddressBytes
  dr_To :: AddressBytes
  dr_ABI :: string
  dr_StorageState :: "'t VMStateHelper option"
  dr_ContractAddress :: AddressBytes
  dr_ContractMethod :: string
  dr_ContractMethodExecError :: "dvm_error option"
  dr_ContractMethodExecResult :: "byte list"
  dr_Divvy :: int
  dr_Status :: int
  dr_HertzCost :: int
  dr_CumulativeHertzUsed :: int
  dr_Bloom :: Bloom
  dr_Logs :: "Log list"

definition DvmResult_zero :: "'t DvmResult" where
  "DvmResult_zero = \<lparr>dr_From = replicate AddressLength 0, dr_To = replicate AddressLength 0, dr_ABI = [], dr_StorageState = None,
     dr_ContractAddress = replicate AddressLength 0, dr_ContractMethod = [], dr_ContractMethodExecError = None,
     dr_ContractMethodExecResult = [], dr_Divvy = 0, dr_Status = 0, dr_HertzCost = 0, dr_CumulativeHertzUsed = 0,
     dr_Bloom = replicate BloomByteLength 0, dr_Logs = []\<rparr>"

text \<open>The fields that come from the receipt.\<close>

definition with_receipt :: "EthReceipt \<Rightarrow> 't DvmResult \<Rightarrow> 't DvmResult" where
  "with_receipt r d = d\<lparr>dr_Status := er_Status r, dr_HertzCost := er_GasUsed r, dr_CumulativeHertzUsed := er_CumulativeGasUsed r,
     dr_Bloom := er_Bloom r, dr_Logs := er_Logs r\<rparr>"

text \<open>\<open>crypto.Encode\<close>.\<close>

definition crypto_Encode :: "byte list \<Rightarrow> string" where
  "crypto_Encode b = ''0x'' @ hex_EncodeToString b"

text \<open>\<open>DVMResult.MarshalJSON\<close>: the result is decoded by the ABI when that is possible.\<close>

definition DvmResult_MarshalJSON :: "'t world \<Rightarrow> 't DvmResult \<Rightarrow> json result" where
  "DvmResult_MarshalJSON W d =
     result_bind
       (if dr_ContractMethodExecError d \<noteq> None \<or> list_all is_space (dr_ABI d) then Ok []
        else case wd_abi_JSON W (hex_prefix (dr_ABI d)) of
               Ok a \<Rightarrow> (case ab_Unpack a (dr_ContractMethod d) (dr_ContractMethodExecResult d) of
                         Ok s \<Rightarrow> Ok s | Err e \<Rightarrow> Ok [] | Panic e \<Rightarrow> Panic e)
             | Err e \<Rightarrow> Ok []
             | Panic e \<Rightarrow> Panic e)
       (\<lambda>methodResult.
         Ok (JObj [(''from'', JStr (crypto_Encode (dr_From d))), (''to'', JStr (crypto_Encode (dr_To d))),
           (''contractAddress'', JStr (crypto_Encode (dr_ContractAddress d))), (''ContractMethod'', JStr (dr_ContractMethod d)),
           (''contractMethodExecResult'', JStr methodResult), (''divvy'', JNum (dr_Divvy d)), (''hertzCost'', JNum (dr_HertzCost d))]))"

definition DeploySmartContract ::
  "nat \<Rightarrow> 't world \<Rightarrow> Transaction \<Rightarrow> disk \<Rightarrow> ('t DvmResult \<times> dvm_error option \<times> disk) outcome" where
  "DeploySmartContract n W tx dk =
     outcome_bind (of_result (GetAddressBytes (tx_To tx))) (\<lambda>to.
     case NewVMStateHelper W to dk of
       Panic e \<Rightarrow> Crash e
     | Err e \<Rightarrow>
         outcome_bind (of_result (GetAddressBytes (tx_From tx))) (\<lambda>from.
           Done (DvmResult_zero\<lparr>dr_From := from, dr_Divvy := DefaultDivvy\<rparr>, Some (StateError e), dk))
     | Ok h \<Rightarrow>
         outcome_bind (of_result (GetAddressBytes (tx_From tx))) (\<lambda>from.
         outcome_bind (of_result (StateDB_SetNonce (sh_senv h) from (wrap_u64 (tx_Time tx)) (sh_EthStateDB h))) (\<lambda>st.
         outcome_bind (applyTransaction n W tx (h\<lparr>sh_EthStateDB := st\<rparr>) dk) (\<lambda>(err, h1, dk1).
         let failure = (\<lambda>h e dk. Done (DvmResult_zero\<lparr>dr_From := from, dr_StorageState := Some h, dr_Divvy := DefaultDivvy\<rparr>, Some e, dk))
         in case err of
              Some e \<Rightarrow> failure h1 e dk1
            | None \<Rightarrow>
                outcome_bind (of_result (VMStateHelper_Commit W h1 dk1)) (\<lambda>(err2, h2, dk2).
                case err2 of
                  Some e \<Rightarrow> failure h2 e dk2
                | None \<Rightarrow>
                    (case getReceipt (hex_prefix (tx_Hash tx)) dk2 of
                       None \<Rightarrow> Crash ''nil pointer dereference''
                     | Some r \<Rightarrow>
                         Done (with_receipt r (DvmResult_zero\<lparr>dr_From := from, dr_To := er_ContractAddress r,
                             dr_StorageState := Some h2, dr_ContractAddress := er_ContractAddress r, dr_Divvy := DefaultDivvy\<rparr>),
                           None, dk2)))))))"

text \<open>The result that every return of \<open>ExecuteSmartContract\<close> starts from.\<close>

definition execute_result ::
  "AddressBytes \<Rightarrow> AddressBytes \<Rightarrow> Transaction \<Rightarrow> 't VMStateHelper option \<Rightarrow> dvm_error option \<Rightarrow> 't DvmResult" where
  "execute_result from to tx h err =
     DvmResult_zero\<lparr>dr_From := from, dr_To := to, dr_ABI := tx_Abi tx, dr_StorageState := h, dr_ContractAddress := to,
       dr_ContractMethod := tx_Method tx, dr_ContractMethodExecError := err, dr_Divvy := DefaultDivvy,
       dr_Status := ReceiptStatusFailed\<rparr>"

text \<open>After a commit that fails, the error that is returned is the one of the call, which is nil.\<close>

definition ExecuteSmartContract ::
  "nat \<Rightarrow> 't world \<Rightarrow> Transaction \<Rightarrow> disk \<Rightarrow> ('t DvmResult \<times> dvm_error option \<times> disk) outcome" where
  "ExecuteSmartContract n W tx dk =
     outcome_bind (of_result (GetAddressBytes (tx_To tx))) (\<lambda>to.
     outcome_bind (of_result (GetAddressBytes (tx_From tx))) (\<lambda>from.
     case NewVMStateHelper W to dk of
       Panic e \<Rightarrow> Crash e
     | Err e \<Rightarrow> Done (execute_result from to tx None (Some (StateError e)), Some (StateError e), dk)
     | Ok h \<Rightarrow>
         (let failure = (\<lambda>h e dk. Done (execute_result from to tx (Some h) (Some e), Some e, dk)) in
          case result_bind (wd_abi_JSON W (hex_prefix (tx_Abi tx))) (\<lambda>jsonABI. ab_Pack jsonABI (tx_Method tx) (tx_Params tx)) of
            Panic e \<Rightarrow> Crash e
          | Err e \<Rightarrow> failure h (AbiError e) dk
          | Ok callData \<Rightarrow>
              (let callMsg = NewMessage from (Some to) 0 DefaultValue DefaultGas DefaultGasPrice callData False in
               outcome_bind (dvm_call n W tx callMsg h dk) (\<lambda>(execResult, execError, h1, dk1).
               case execError of
                 Some e \<Rightarrow> failure h1 e dk1
               | None \<Rightarrow>
                   outcome_bind (of_result (VMStateHelper_Commit W h1 dk1)) (\<lambda>(err, h2, dk2).
                   case err of
                     Some e \<Rightarrow> Done (execute_result from to tx (Some h2) execError, execError, dk2)
                   | None \<Rightarrow>
                       (case getReceipt (hex_prefix (tx_Hash tx)) dk2 of
                          None \<Rightarrow> Crash ''nil pointer dereference''
                        | Some r \<Rightarrow>
                            Done (with_receipt r ((execute_result from to tx (Some h2) execError)
                                \<lparr>dr_ContractMethodExecResult := execResult\<rparr>), None, dk2))))))))"

subsection \<open>What a commit leaves on the disk\<close>

text \<open>A disk that takes every write.\<close>

definition takes_all :: "disk \<Rightarrow> bool" where
  "takes_all dk \<longleftrightarrow> (\<forall>k v. \<not> dk_refuses dk k v)"

lemma Put_takes_all [simp]:
  "takes_all dk \<Longrightarrow> Badger_Put k v dk = (Ok (), dk\<lparr>dk_data := (dk_data dk)(k \<mapsto> v)\<rparr>)"
  "takes_all (dk\<lparr>dk_data := m\<rparr>) = takes_all dk"
  by (simp_all add: takes_all_def Badger_Put_def)

lemma Write_takes_all:
  "takes_all dk \<Longrightarrow> memBatch_Write b dk = dk\<lparr>dk_data := dk_data dk ++ map_of (rev b)\<rparr>"
proof (induction b arbitrary: dk)
  case (Cons kv b)
  obtain k v where kv: "kv = (k, v)" by (cases kv)
  have "memBatch_Write (kv # b) dk = memBatch_Write b (dk\<lparr>dk_data := (dk_data dk)(k \<mapsto> v)\<rparr>)"
    using Cons.prems by (simp add: memBatch_Write_def kv)
  also have "\<dots> = dk\<lparr>dk_data := (dk_data dk)(k \<mapsto> v) ++ map_of (rev b)\<rparr>"
    using Cons.IH [of "dk\<lparr>dk_data := (dk_data dk)(k \<mapsto> v)\<rparr>"] Cons.prems by (simp add: fun_upd_def)
  finally show ?case by (simp add: kv)
qed (simp add: memBatch_Write_def)

text \<open>The four kinds of keys have four lengths.\<close>

lemma length_hex_EncodeToString [simp]: "length (hex_EncodeToString bs) = 2 * length bs"
  using length_hex_Decode [OF hex_Decode_Encode, of bs] .

lemma key_lengths:
  "length (GetHashBytes s) = 32" "length headTxKey = 6" "length a = AddressLength \<Longrightarrow> length (state_key a) = 53"
  "length h = HashLength \<Longrightarrow> length (ReceiptsPrefix @ h) = 41"
  by (simp_all add: GetHashBytes_def headTxKey_def state_key_def acctounStatePrefix_def ReceiptsPrefix_def string_bytes_def
      HashLength_def AddressLength_def)

lemma transactions_batch_keys:
  "transactions_batch W txs b = Ok b' \<Longrightarrow> fst ` set b' \<subseteq> fst ` set b \<union> {k. length k = 32}"
proof (induction txs arbitrary: b)
  case (Cons tx txs)
  then obtain d where "transactions_batch W txs (memBatch_Put (GetHashBytes (tx_Hash tx)) (wd_json_bytes W d) b) = Ok b'"
    by (cases "Transaction_MarshalJSON tx") auto
  from Cons.IH [OF this] show ?case using key_lengths(1) by (auto simp: memBatch_Put_def)
qed simp

text \<open>The receipts that fit the encoder.\<close>

definition storable :: "EthReceipt \<Rightarrow> bool" where
  "storable r \<longleftrightarrow> receipt_ok r \<and> receipt_widths r \<and> length (rlp (ReceiptForStorage_EncodeRLP r)) < 2 ^ 64"

definition receipt_entry :: "EthReceipt \<Rightarrow> byte list \<times> byte list" where
  "receipt_entry r = (ReceiptsPrefix @ er_TxHash r, rlp (ReceiptForStorage_EncodeRLP r))"

lemma receipts_batch_entries:
  "list_all storable rs \<Longrightarrow> receipts_batch rs b = Ok (b @ map receipt_entry rs)"
  by (induction rs arbitrary: b) (simp_all add: storable_def stored_receipt_back(1) memBatch_Put_def receipt_entry_def)

lemma receipt_found:
  assumes "list_all storable rs" "distinct (map er_TxHash rs)" "r \<in> set rs"
  shows "(m ++ map_of (rev (map receipt_entry rs))) (ReceiptsPrefix @ er_TxHash r) = Some (rlp (ReceiptForStorage_EncodeRLP r))"
proof -
  have d: "distinct (map fst (rev (map receipt_entry rs)))"
  proof -
    have "map fst (map receipt_entry rs) = map ((@) ReceiptsPrefix) (map er_TxHash rs)" by (simp add: receipt_entry_def comp_def)
    moreover have "distinct (map ((@) ReceiptsPrefix) (map er_TxHash rs))" using assms(2) by (subst distinct_map) (auto intro: inj_onI)
    ultimately show ?thesis by (simp only: rev_map [symmetric] distinct_rev)
  qed
  have "receipt_entry r \<in> set (rev (map receipt_entry rs))" using assms(3) by simp
  then have "map_of (rev (map receipt_entry rs)) (ReceiptsPrefix @ er_TxHash r) = Some (rlp (ReceiptForStorage_EncodeRLP r))"
    using map_of_is_SomeI [OF d] by (simp add: receipt_entry_def)
  then show ?thesis by (rule map_add_find_right)
qed

lemma commit_on_disk:
  assumes "VMStateHelper_Commit W h dk = Ok (None, h', dk')" "takes_all dk"
    and "\<forall>st root d. takes_all d \<longrightarrow> takes_all (snd (wd_TrieDB_Commit W st root d))"
    and "length (sh_SmartContractAddress h) = AddressLength" "list_all storable (sh_Receipts h)"
    and "distinct (map er_TxHash (sh_Receipts h))"
  shows "dk_data dk' (state_key (sh_SmartContractAddress h)) = Some (sh_HashOfTrieRootNode h')"
    "r \<in> set (sh_Receipts h) \<Longrightarrow> dk_data dk' (ReceiptsPrefix @ er_TxHash r) = Some (rlp (ReceiptForStorage_EncodeRLP r))"
proof -
  let ?st = "sh_EthStateDB h" and ?a = "sh_SmartContractAddress h" and ?rs = "sh_Receipts h"
  obtain root st1 where c: "StateDB_Commit (sh_senv h) False (wd_storage_order W ?st) (wd_object_order W ?st) ?st = Ok (Inr root, st1)"
    using assms(1) unfolding VMStateHelper_Commit_def Let_def
    by (cases "StateDB_Commit (sh_senv h) False (wd_storage_order W ?st) (wd_object_order W ?st) ?st") (auto split: sum.splits)
  define h1 where "h1 = h\<lparr>sh_EthStateDB := st1, sh_HashOfTrieRootNode := root\<rparr>"
  have h1: "sh_Receipts h1 = ?rs" "sh_Transactions h1 = sh_Transactions h" "sh_SmartContractAddress h1 = ?a"
    "sh_HashOfTrieRootNode h1 = root" by (simp_all add: h1_def)
  obtain dk1 where w: "wd_TrieDB_Commit W st1 root dk = (Ok (), dk1)"
    using assms(1) unfolding VMStateHelper_Commit_def Let_def c
    by (cases "wd_TrieDB_Commit W st1 root dk") (auto simp: or_fail_def split: result.splits)
  have t1: "takes_all dk1" using assms(2,3) w by (metis snd_conv)
  define dk2 where "dk2 = dk1\<lparr>dk_data := (dk_data dk1)(state_key ?a \<mapsto> root)\<rparr>"
  obtain hash where hd: "writeHead h1 dk2 = (Ok (), dk2\<lparr>dk_data := (dk_data dk2)(headTxKey \<mapsto> hash)\<rparr>)"
    using t1 by (simp add: writeHead_def Let_def dk2_def)
  define dk3 where "dk3 = dk2\<lparr>dk_data := (dk_data dk2)(headTxKey \<mapsto> hash)\<rparr>"
  have t3: "takes_all dk3" using t1 by (simp add: dk3_def dk2_def)
  have rest: "or_fail EncodingError h1 (writeTransactions W h1 dk3) (\<lambda>dk4.
      or_fail EncodingError h1 (writeReceipts h1 dk4) (\<lambda>dk5. Ok (None, h1, dk5))) = Ok (None, h', dk')"
  proof -
    have "VMStateHelper_Commit W h dk =
      or_fail StateError h1 (wd_TrieDB_Commit W st1 root dk) (\<lambda>dk1.
        or_fail StateError h1 (writeHead h1 (snd (Badger_Put (state_key ?a) root dk1))) (\<lambda>dk3.
        or_fail EncodingError h1 (writeTransactions W h1 dk3) (\<lambda>dk4.
        or_fail EncodingError h1 (writeReceipts h1 dk4) (\<lambda>dk5. Ok (None, h1, dk5)))))"
      by (simp add: VMStateHelper_Commit_def c h1_def Let_def)
    also have "\<dots> = or_fail StateError h1 (writeHead h1 dk2) (\<lambda>dk3.
        or_fail EncodingError h1 (writeTransactions W h1 dk3) (\<lambda>dk4.
        or_fail EncodingError h1 (writeReceipts h1 dk4) (\<lambda>dk5. Ok (None, h1, dk5))))"
      using t1 by (simp add: w or_fail_def dk2_def)
    also have "\<dots> = or_fail EncodingError h1 (writeTransactions W h1 dk3) (\<lambda>dk4.
        or_fail EncodingError h1 (writeReceipts h1 dk4) (\<lambda>dk5. Ok (None, h1, dk5)))"
      unfolding hd by (simp add: or_fail_def dk3_def)
    finally show ?thesis using assms(1) by simp
  qed
  obtain b where b: "transactions_batch W (sh_Transactions h) [] = Ok b"
    using rest by (auto simp: writeTransactions_def or_fail_def h1 split: result.splits)
  define dk4 where "dk4 = dk3\<lparr>dk_data := dk_data dk3 ++ map_of (rev b)\<rparr>"
  have t4: "takes_all dk4" using t3 by (simp add: dk4_def)
  have "writeTransactions W h1 dk3 = (Ok (), dk4)" by (simp add: writeTransactions_def h1 b Write_takes_all [OF t3] dk4_def)
  moreover have "writeReceipts h1 dk4 = (Ok (), dk4\<lparr>dk_data := dk_data dk4 ++ map_of (rev (map receipt_entry ?rs))\<rparr>)"
    using receipts_batch_entries [OF assms(5), of "[]"] by (simp add: writeReceipts_def h1 Write_takes_all [OF t4])
  ultimately have e: "h' = h1" "dk_data dk' = dk_data dk4 ++ map_of (rev (map receipt_entry ?rs))"
    using rest by (auto simp: or_fail_def)
  show "dk_data dk' (ReceiptsPrefix @ er_TxHash r) = Some (rlp (ReceiptForStorage_EncodeRLP r))" if "r \<in> set ?rs"
    unfolding e(2) by (rule receipt_found [OF assms(5,6) that])
  have l: "length (state_key ?a) = 53" by (rule key_lengths(3) [OF assms(4)])
  have n1: "state_key ?a \<notin> fst ` set (rev (map receipt_entry ?rs))"
  proof
    assume "state_key ?a \<in> fst ` set (rev (map receipt_entry ?rs))"
    then obtain r where r: "r \<in> set ?rs" "state_key ?a = ReceiptsPrefix @ er_TxHash r" by (auto simp: receipt_entry_def)
    have "length (er_TxHash r) = HashLength" using r(1) assms(5) by (auto simp: list_all_iff storable_def receipt_widths_def)
    from key_lengths(4) [OF this] show False using l r(2) by simp
  qed
  have n2: "state_key ?a \<notin> fst ` set (rev b)" using transactions_batch_keys [OF b] l by auto
  have n3: "state_key ?a \<noteq> headTxKey" using l key_lengths(2) by auto
  show "dk_data dk' (state_key ?a) = Some (sh_HashOfTrieRootNode h')"
    using n1 n2 n3 by (simp add: e h1 dk4_def dk3_def dk2_def map_add_dom_app_simps dom_map_of_conv_image_fst map_of_eq_None_iff [THEN iffD2] map_add_def)
qed


text \<open>A helper with one receipt over an empty state.\<close>

definition sample_world :: "Trie world" where
  "sample_world = \<lparr>wd_senv = (\<lambda>dk. sample_senv), wd_TrieDB_Commit = (\<lambda>st root dk. (Ok (), dk)), wd_journal_order = (\<lambda>st. []),
     wd_object_order = (\<lambda>st. []), wd_storage_order = (\<lambda>st a. []), wd_json_bytes = (\<lambda>j. []), wd_abi_JSON = (\<lambda>b. Err ''EOF''),
     wd_natives = ve_natives sample_machine, wd_clock = int\<rparr>"

definition sample_helper :: "Trie VMStateHelper" where
  "sample_helper = \<lparr>sh_senv = sample_senv, sh_EthStateDB = sample_state, sh_TxIndex = 1, sh_Transactions = [],
     sh_Receipts = [sample_receipt], sh_AllLogs = [], sh_TotalUsedGas = 21000, sh_GP = GasLimit,
     sh_SmartContractAddress = replicate 20 7, sh_HashOfTrieRootNode = zero_hash\<rparr>"

definition sample_disk :: disk where
  "sample_disk = \<lparr>dk_data = Map.empty, dk_refuses = (\<lambda>k v. False)\<rparr>"

lemma sample_storable: "storable sample_receipt"
  unfolding storable_def
  by (intro conjI sample_receipt_ok) (rule le_less_trans [OF sample_receipt_size], simp)

lemma sample_commit:
  obtains h' dk' where "VMStateHelper_Commit sample_world sample_helper sample_disk = Ok (None, h', dk')"
    "sh_HashOfTrieRootNode h' = zero_hash"
proof -
  obtain st where c: "StateDB_Commit sample_senv False (\<lambda>a. []) [] sample_state = Ok (Inr zero_hash, st)"
    by (simp add: StateDB_Commit_def Let_def sample_senv_def program_env_def secure_tries_def sample_state_def)
  have b: "EncodeToBytes (ReceiptForStorage_EncodeRLP sample_receipt) = Ok (rlp (ReceiptForStorage_EncodeRLP sample_receipt))"
    using sample_storable by (intro stored_receipt_back(1)) (simp_all add: storable_def)
  show ?thesis
    by (rule that, simp add: VMStateHelper_Commit_def Let_def sample_helper_def sample_world_def c or_fail_def writeHead_def
        writeTransactions_def writeReceipts_def b sample_disk_def Badger_Put_def) simp
qed


subsection \<open>Errors of the service\<close>

text \<open>A commit that fails after a call that succeeded is not reported: the error beside the result is nil.\<close>

lemma execute_hides_a_failed_commit:
  assumes "GetAddressBytes (tx_To tx) = Ok to" "GetAddressBytes (tx_From tx) = Ok from" "NewVMStateHelper W to dk = Ok h"
    and "wd_abi_JSON W (hex_prefix (tx_Abi tx)) = Ok a" "ab_Pack a (tx_Method tx) (tx_Params tx) = Ok callData"
    and "dvm_call n W tx (NewMessage from (Some to) 0 DefaultValue DefaultGas DefaultGasPrice callData False) h dk =
      Done (execResult, None, h1, dk1)"
    and "VMStateHelper_Commit W h1 dk1 = Ok (Some e, h2, dk2)"
  shows "ExecuteSmartContract n W tx dk = Done (execute_result from to tx (Some h2) None, None, dk2)"
  using assms by (simp add: ExecuteSmartContract_def Let_def)

text \<open>\<open>memBatch.Write\<close> drops the errors of its writes; a receipt that Badger refused is then nil and the service panics.\<close>

lemma deploy_panics_without_a_receipt:
  assumes "GetAddressBytes (tx_To tx) = Ok to" "NewVMStateHelper W to dk = Ok h" "GetAddressBytes (tx_From tx) = Ok from"
    and "StateDB_SetNonce (sh_senv h) from (wrap_u64 (tx_Time tx)) (sh_EthStateDB h) = Ok st"
    and "applyTransaction n W tx (h\<lparr>sh_EthStateDB := st\<rparr>) dk = Done (None, h1, dk1)"
    and "VMStateHelper_Commit W h1 dk1 = Ok (None, h2, dk2)" "getReceipt (hex_prefix (tx_Hash tx)) dk2 = None"
  shows "DeploySmartContract n W tx dk = Crash ''nil pointer dereference''"
  using assms by (simp add: DeploySmartContract_def Let_def)

end
