(* ===== verification/Trie_Codec.thy ===== *)
theory Trie_Codec
  imports Trie_Store Rlp_Round_Trip
begin

section \<open>The encoding of trie nodes: dvm/ethereum/trie/node.go, database.go\<close>

text \<open>
  What \<open>node.go\<close> and \<open>rlp\<close> make of a node, by recursion on the tree: \<open>enc\<close> is its encoding, \<open>ref\<close> the item by
  which a parent refers to it, \<open>raw\<close> the collapsed form in the node database, \<open>unload\<close> the node that is loaded
  from either. \<open>decodeNode\<close> undoes the encoding, \<open>expandNode\<close> the collapse, and they give the same node.
\<close>

subsection \<open>Items of the format\<close>

lemma readSize_putint:
  assumes "56 \<le> n" "n < 2 ^ 64"
  shows "readSize (putint n @ rest) (length (putint n)) = Inr n"
proof -
  have "putint n ! 0 \<noteq> 0" using assms big_Bytes_first by (simp add: putint_big_Bytes)
  then show ?thesis
    using assms be_nat_putint [of n] putint_pos [of n] by (auto simp: readSize_def Let_def nth_append)
qed

lemma unat_tag: "n < 56 \<Longrightarrow> unat ((0x80 :: byte) + word_of_nat n) = 0x80 + n" "n < 56 \<Longrightarrow> unat ((0xC0 :: byte) + word_of_nat n) = 0xC0 + n"
  "n \<le> 8 \<Longrightarrow> unat ((0xB7 :: byte) + word_of_nat n) = 0xB7 + n" "n \<le> 8 \<Longrightarrow> unat ((0xF7 :: byte) + word_of_nat n) = 0xF7 + n"
  by (simp_all add: unat_word_ariths unat_of_nat)

lemma raw_readKind_list_item:
  assumes "length p < 2 ^ 64"
  shows "raw_readKind (rlp_list p @ rest) = Inr (KList, length (puthead 0xC0 0xF7 (length p)), length p)"
proof (cases "length p < 56")
  case True
  then show ?thesis by (simp add: raw_readKind_def rlp_list_def puthead_def unat_tag Let_def)
next
  case False
  let ?n = "length p"
  have l: "putint ?n \<noteq> []" "length (putint ?n) \<le> 8" using putint_pos [of ?n] length_putint_le by auto
  have "readSize (putint ?n @ p @ rest) (length (putint ?n)) = Inr ?n" using False assms by (intro readSize_putint) auto
  then show ?thesis using False l by (simp add: raw_readKind_def rlp_list_def puthead_def unat_tag Let_def)
qed

lemma raw_readKind_string_item:
  assumes "length b < 2 ^ 64" "\<not> (length b = 1 \<and> unat (b ! 0) < 128)"
  shows "raw_readKind (rlp_string b @ rest) = Inr (KString, length (puthead 0x80 0xB7 (length b)), length b)"
proof (cases "length b < 56")
  case True
  then show ?thesis using assms
    by (auto simp: raw_readKind_def rlp_string_long puthead_def unat_tag Let_def nth_append)
next
  case False
  let ?n = "length b"
  have l: "putint ?n \<noteq> []" "length (putint ?n) \<le> 8" using putint_pos [of ?n] length_putint_le by auto
  have "readSize (putint ?n @ b @ rest) (length (putint ?n)) = Inr ?n" using False assms by (intro readSize_putint) auto
  then show ?thesis using False l by (simp add: raw_readKind_def rlp_string_long [OF assms(2)] puthead_def unat_tag Let_def)
qed

lemma Split_list_item: "length p < 2 ^ 64 \<Longrightarrow> Split (rlp_list p @ rest) = Inr (KList, p, rest)"
  by (simp add: Split_def raw_readKind_list_item) (simp add: rlp_list_def)

lemma Split_string_item:
  assumes "length b < 2 ^ 64"
  shows "Split (rlp_string b @ rest) = Inr (if length b = 1 \<and> unat (b ! 0) < 128 then KByte else KString, b, rest)"
proof (cases "length b = 1 \<and> unat (b ! 0) < 128")
  case True
  then obtain x where "b = [x]" "unat x < 128" by (cases b) auto
  then show ?thesis by (simp add: Split_def raw_readKind_def rlp_string_def Let_def)
next
  case False
  then show ?thesis
    by (simp add: Split_def raw_readKind_string_item [OF assms False] del: One_nat_def) (simp add: rlp_string_long)
qed

lemma SplitString_item: "length b < 2 ^ 64 \<Longrightarrow> SplitString (rlp_string b @ rest) = Inr (b, rest)"
  by (simp add: SplitString_def Split_string_item)

lemma SplitList_item: "length p < 2 ^ 64 \<Longrightarrow> SplitList (rlp_list p) = Inr (p, [])"
  using Split_list_item [of p "[]"] by (simp add: SplitList_def)

lemma length_rlp_string: "length b \<le> length (rlp_string b)" "rlp_string b \<noteq> []" "0 < length (rlp_string b)"
  by (auto simp: rlp_string_def puthead_def split: list.splits)

lemma length_rlp_list: "length p < length (rlp_list p)" "rlp_list p \<noteq> []"
  by (auto simp: rlp_list_def puthead_def)

text \<open>A string or a list, of a size that a header can state.\<close>

definition is_item :: "byte list \<Rightarrow> bool" where
  "is_item x \<longleftrightarrow> (\<exists>b. x = rlp_string b \<and> length b < 2 ^ 64) \<or> (\<exists>p. x = rlp_list p \<and> length p < 2 ^ 64)"

lemma is_item_string: "length b < 2 ^ 64 \<Longrightarrow> is_item (rlp_string b)"
  by (auto simp: is_item_def)

lemma is_item_list: "length p < 2 ^ 64 \<Longrightarrow> is_item (rlp_list p)"
  by (auto simp: is_item_def)

lemma Split_item: "is_item x \<Longrightarrow> \<exists>k c. \<forall>rest. Split (x @ rest) = Inr (k, c, rest)"
  by (auto simp: is_item_def Split_string_item Split_list_item)

lemma item_first:
  assumes "is_item x" "is_item y" "x @ r = y @ s" shows "x = y \<and> r = s"
proof -
  obtain k c where k: "\<forall>rest. Split (x @ rest) = Inr (k, c, rest)" using Split_item [OF assms(1)] by blast
  obtain k' c' where k': "\<forall>rest. Split (y @ rest) = Inr (k', c', rest)" using Split_item [OF assms(2)] by blast
  have "Inr (k, c, r) = (Inr (k', c', s) :: (Kind \<times> byte list \<times> byte list) rres)"
    using k [rule_format, of r] k' [rule_format, of s] assms(3) by metis
  then show ?thesis using assms(3) by simp
qed

lemma item_not_Nil: "is_item x \<Longrightarrow> x \<noteq> []"
  unfolding is_item_def by (elim disjE exE conjE) (simp_all add: length_rlp_string(2) length_rlp_list(2))

lemma items_inj: "list_all is_item xs \<Longrightarrow> list_all is_item ys \<Longrightarrow> concat xs = concat ys \<Longrightarrow> xs = ys"
proof (induction xs arbitrary: ys)
  case Nil
  then show ?case by (cases ys) (simp_all add: item_not_Nil)
next
  case (Cons x xs)
  have x: "is_item x" "list_all is_item xs" using Cons.prems(1) by simp_all
  show ?case
  proof (cases ys)
    case Nil
    then show ?thesis using Cons.prems(3) item_not_Nil [OF x(1)] by simp
  next
    case ys: (Cons y ys')
    then have y: "is_item y" "list_all is_item ys'" using Cons.prems(2) by simp_all
    have "x @ concat xs = y @ concat ys'" using Cons.prems(3) ys by simp
    from item_first [OF x(1) y(1) this] Cons.IH [OF x(2) y(2)] show ?thesis using ys by simp
  qed
qed

lemma rlp_string_inj:
  assumes "length a < 2 ^ 64" "length b < 2 ^ 64" "rlp_string a = rlp_string b" shows "a = b"
proof -
  have "Inr (a, []) = (Inr (b, []) :: (byte list \<times> byte list) rres)"
    using SplitString_item [OF assms(1), of "[]"] SplitString_item [OF assms(2), of "[]"] assms(3) by metis
  then show ?thesis by simp
qed

lemma rlp_list_inj:
  assumes "length a < 2 ^ 64" "length b < 2 ^ 64" "rlp_list a = rlp_list b" shows "a = b"
proof -
  have "Inr (a, []) = (Inr (b, []) :: (byte list \<times> byte list) rres)"
    using SplitList_item [OF assms(1)] SplitList_item [OF assms(2)] assms(3) by metis
  then show ?thesis by simp
qed

lemma string_not_list:
  assumes "length a < 2 ^ 64" "length b < 2 ^ 64" shows "rlp_string a \<noteq> rlp_list b"
proof
  assume e: "rlp_string a = rlp_list b"
  have "SplitString (rlp_list b @ []) = Inl ErrExpectedString"
    by (simp only: SplitString_def Split_list_item [OF assms(2)]) simp
  then show False using SplitString_item [OF assms(1), of "[]"] e by simp
qed

lemma CountValues_items: "list_all is_item xs \<Longrightarrow> CountValues (concat xs) = Inr (length xs)"
proof (induction xs)
  case (Cons x xs)
  obtain k c where s: "\<forall>rest. Split (x @ rest) = Inr (k, c, rest)" using Split_item Cons.prems by fastforce
  have "Split (x @ concat xs) = Inr (k, c, concat xs)" using s by blast
  then obtain ts cs where r: "raw_readKind (x @ concat xs) = Inr (k, ts, cs)" "drop (ts + cs) (x @ concat xs) = concat xs"
    unfolding Split_def by (cases "raw_readKind (x @ concat xs)") auto
  have ne: "x @ concat xs \<noteq> []" using item_not_Nil Cons.prems by auto
  have IH: "CountValues (concat xs) = Inr (length xs)" using Cons by simp
  have "concat (x # xs) = x @ concat xs" by simp
  then show ?case by (subst CountValues.simps) (simp only: ne r IH if_False sum.case prod.case list.size add_0_right add_Suc_right)
qed (simp add: CountValues.simps)

subsection \<open>The encoding of a node\<close>

text \<open>
  \<open>enc\<close> is the encoding of a node, by recursion on the tree, and \<open>ref\<close> the item by which a parent refers to it: the
  encoding itself when it is shorter than a hash, else its hash.
\<close>

definition item :: "crypto \<Rightarrow> node \<Rightarrow> byte list \<Rightarrow> byte list" where
  "item C n e =
     (case n of
        NilNode \<Rightarrow> rlp_string []
      | ValueNode v \<Rightarrow> rlp_string v
      | HashNode h \<Rightarrow> rlp_string h
      | _ \<Rightarrow> if length e < 32 then e else rlp_string (keccak256 C e))"

fun enc :: "crypto \<Rightarrow> node \<Rightarrow> byte list" where
  "enc C (ShortNode k c fl) = rlp_list (rlp_string (hexToCompact k) @ item C c (enc C c))"
| "enc C (FullNode cs fl) = rlp_list (concat (map (\<lambda>c. item C c (enc C c)) cs))"
| "enc C NilNode = []"
| "enc C (HashNode h) = []"
| "enc C (ValueNode v) = []"

definition ref :: "crypto \<Rightarrow> node \<Rightarrow> byte list" where
  "ref C n = item C n (enc C n)"

lemma enc_simps: "enc C (ShortNode k c fl) = rlp_list (rlp_string (hexToCompact k) @ ref C c)"
  "enc C (FullNode cs fl) = rlp_list (concat (map (ref C) cs))"
  by (simp_all add: ref_def [abs_def])

lemma ref_simps [simp]:
  "ref C NilNode = rlp_string []" "ref C (ValueNode v) = rlp_string v" "ref C (HashNode h) = rlp_string h"
  by (simp_all add: ref_def item_def)

lemma ref_loaded: "loaded n \<Longrightarrow> ref C n = (if length (enc C n) < 32 then enc C n else rlp_string (keccak256 C (enc C n)))"
  by (cases n) (simp_all add: ref_def item_def loaded_def)

declare enc.simps(1,2) [simp del]

lemma enc_flag: "enc C (ShortNode k c fl) = enc C (ShortNode k c fl')" "enc C (FullNode cs fl) = enc C (FullNode cs fl')"
  by (simp_all add: enc_simps)

text \<open>Every encoding in the tree has a length that a header can state.\<close>

fun fits :: "crypto \<Rightarrow> node \<Rightarrow> bool" where
  "fits C (ShortNode k c fl) = (length (enc C (ShortNode k c fl)) < 2 ^ 64 \<and> fits C c)"
| "fits C (FullNode cs fl) = (length (enc C (FullNode cs fl)) < 2 ^ 64 \<and> (\<forall>c\<in>set cs. fits C c))"
| "fits C _ = True"

lemma fits_enc: "fits C n \<Longrightarrow> length (enc C n) < 2 ^ 64"
  by (cases n) simp_all

lemma enc_Short_bounds:
  assumes "length (enc C (ShortNode k c fl)) < 2 ^ 64"
  shows "length (rlp_string (hexToCompact k) @ ref C c) < 2 ^ 64" "length (hexToCompact k) < 2 ^ 64" "length (ref C c) < 2 ^ 64"
proof -
  show a: "length (rlp_string (hexToCompact k) @ ref C c) < 2 ^ 64"
    using assms length_rlp_list(1) [of "rlp_string (hexToCompact k) @ ref C c"] by (simp add: enc_simps)
  show "length (hexToCompact k) < 2 ^ 64" "length (ref C c) < 2 ^ 64"
    using a length_rlp_string(1) [of "hexToCompact k"] by simp_all
qed

lemma length_le_concat: "x \<in> set xs \<Longrightarrow> length x \<le> length (concat xs)"
  by (induction xs) auto

lemma enc_Full_bounds:
  assumes "length (enc C (FullNode cs fl)) < 2 ^ 64"
  shows "length (concat (map (ref C) cs)) < 2 ^ 64" "c \<in> set cs \<Longrightarrow> length (ref C c) < 2 ^ 64"
proof -
  show a: "length (concat (map (ref C) cs)) < 2 ^ 64"
    using assms length_rlp_list(1) [of "concat (map (ref C) cs)"] by (simp add: enc_simps)
  show "length (ref C c) < 2 ^ 64" if "c \<in> set cs"
    using a length_le_concat [of "ref C c" "map (ref C) cs"] that by simp
qed

lemma enc_is_item: "loaded n \<Longrightarrow> fits C n \<Longrightarrow> \<exists>p. enc C n = rlp_list p \<and> length p < 2 ^ 64"
proof -
  assume n: "loaded n" "fits C n"
  obtain p where p: "enc C n = rlp_list p" using n(1) by (cases n) (auto simp: loaded_def enc_simps)
  then show ?thesis using fits_enc [OF n(2)] length_rlp_list(1) [of p] by auto
qed

text \<open>The hash has 32 bytes.\<close>

definition hash_size :: "crypto \<Rightarrow> bool" where
  "hash_size C \<longleftrightarrow> (\<forall>b. length (keccak256 C b) = HashLength)"

lemma ref_is_item:
  assumes "hash_size C" "fits C n" "length (ref C n) < 2 ^ 64" shows "is_item (ref C n)"
proof (cases "loaded n")
  case True
  then show ?thesis using enc_is_item [OF True assms(2)] assms(1)
    by (auto simp: ref_loaded is_item_list hash_size_def HashLength_def intro!: is_item_string)
next
  case False
  have s: "length b < 2 ^ 64" if "length (rlp_string b) < 2 ^ 64" for b using that length_rlp_string(1) [of b] by simp
  show ?thesis using False assms(3) s by (cases n) (auto simp: loaded_def intro!: is_item_string simp del: rlp_string_Nil)
qed

text \<open>The form of a tree, apart from what its hashes stand for.\<close>

fun shape :: "node \<Rightarrow> bool" where
  "shape (ShortNode k c fl) =
     ((\<exists>v. c = ValueNode v \<and> hexkey k \<and> v \<noteq> []) \<or> (k \<noteq> [] \<and> list_all nibble k \<and> shape c))"
| "shape (FullNode cs fl) =
     (length cs = 17 \<and> (\<forall>c\<in>set cs. c = NilNode \<or> is_value c \<or> shape c) \<and> (\<forall>i<16. \<not> is_value (cs ! i)) \<and>
      (cs ! 16 = NilNode \<or> (\<exists>v. cs ! 16 = ValueNode v \<and> v \<noteq> [])))"
| "shape (HashNode h) = (length h = 32)"
| "shape NilNode = False"
| "shape (ValueNode v) = False"

lemma is_value_simps [simp]: "is_value (ValueNode v)" "\<not> is_value NilNode" "\<not> is_value (HashNode h)"
  "\<not> is_value (ShortNode k c fl)" "\<not> is_value (FullNode cs fl)"
  by (simp_all add: is_value_def)

lemma is_value_iff: "is_value n \<longleftrightarrow> (\<exists>v. n = ValueNode v)"
  by (cases n) simp_all

lemma loaded_simps [simp]: "loaded (ShortNode k c fl)" "loaded (FullNode cs fl)" "\<not> loaded NilNode" "\<not> loaded (HashNode h)"
  "\<not> loaded (ValueNode v)"
  by (simp_all add: loaded_def)

lemma shape_not [simp]: "shape n \<Longrightarrow> n \<noteq> NilNode" "shape n \<Longrightarrow> \<not> is_value n"
  by (cases n; simp)+

lemma shape_child:
  assumes "shape (ShortNode k c fl)" shows "c \<noteq> NilNode" "is_value c \<or> shape c"
  using assms by auto

subsection \<open>The collapsed node\<close>

text \<open>What the code keeps in the node database for a node, and what it loads from there.\<close>

definition raw_item :: "crypto \<Rightarrow> node \<Rightarrow> raw_node \<Rightarrow> raw_node" where
  "raw_item C n r =
     (case n of
        NilNode \<Rightarrow> RawNil
      | ValueNode v \<Rightarrow> RawValue v
      | HashNode h \<Rightarrow> RawHash h
      | _ \<Rightarrow> if length (enc C n) < 32 then r else RawHash (keccak256 C (enc C n)))"

fun raw :: "crypto \<Rightarrow> node \<Rightarrow> raw_node" where
  "raw C (ShortNode k c fl) = RawShort (hexToCompact k) (raw_item C c (raw C c))"
| "raw C (FullNode cs fl) = RawFull (map (\<lambda>c. raw_item C c (raw C c)) cs)"
| "raw C NilNode = RawNil"
| "raw C (HashNode h) = RawHash h"
| "raw C (ValueNode v) = RawValue v"

definition raw_ref :: "crypto \<Rightarrow> node \<Rightarrow> raw_node" where
  "raw_ref C n = raw_item C n (raw C n)"

lemma raw_simps: "raw C (ShortNode k c fl) = RawShort (hexToCompact k) (raw_ref C c)"
  "raw C (FullNode cs fl) = RawFull (map (raw_ref C) cs)"
  by (simp_all add: raw_ref_def)

lemma raw_ref_simps [simp]:
  "raw_ref C NilNode = RawNil" "raw_ref C (ValueNode v) = RawValue v" "raw_ref C (HashNode h) = RawHash h"
  by (simp_all add: raw_ref_def raw_item_def)

lemma raw_ref_loaded: "loaded n \<Longrightarrow> raw_ref C n = (if length (enc C n) < 32 then raw C n else RawHash (keccak256 C (enc C n)))"
  by (cases n) (simp_all add: raw_ref_def raw_item_def loaded_def)

declare raw.simps(1,2) [simp del]

lemma raw_ref_Nil [simp]: "raw_ref C n = RawNil \<longleftrightarrow> n = NilNode"
  by (cases n) (auto simp: raw_ref_loaded loaded_def raw_simps)

lemma rlp_raw_ref: "n \<noteq> NilNode \<Longrightarrow> (loaded n \<Longrightarrow> rlp (raw_rval (raw C n)) = enc C n) \<Longrightarrow> rlp (raw_rval (raw_ref C n)) = ref C n"
  by (cases n) (auto simp: raw_ref_loaded ref_loaded)

lemma rlp_raw: "loaded n \<Longrightarrow> shape n \<Longrightarrow> rlp (raw_rval (raw C n)) = enc C n"
proof (induction n)
  case (ShortNode k c fl)
  have "loaded c \<Longrightarrow> rlp (raw_rval (raw C c)) = enc C c" using ShortNode.IH shape_child(2) [OF ShortNode.prems(2)] by (auto simp: is_value_iff)
  then have "rlp (raw_rval (raw_ref C c)) = ref C c" using shape_child(1) [OF ShortNode.prems(2)] by (intro rlp_raw_ref)
  then show ?case by (simp add: raw_simps enc_simps)
next
  case (FullNode cs fl)
  have "rlp (if raw_ref C c = RawNil then RBytes [] else raw_rval (raw_ref C c)) = ref C c" if "c \<in> set cs" for c
  proof (cases "c = NilNode")
    case False
    have "loaded c \<Longrightarrow> rlp (raw_rval (raw C c)) = enc C c" using FullNode that False by (fastforce simp: is_value_iff)
    then show ?thesis using False rlp_raw_ref [of c C] by simp
  qed simp
  then have e: "map (\<lambda>c. rlp (if raw_ref C c = RawNil then RBytes [] else raw_rval (raw_ref C c))) cs = map (ref C) cs"
    by (intro map_cong refl)
  show ?case by (simp only: raw_simps enc_simps raw_rval.simps rlp.simps map_map comp_def e)
qed simp_all

lemma raw_encodable: "encodable (raw_rval r)"
  by (induction r) (auto simp: list_all_iff)

lemma encode_raw:
  assumes "loaded n" "shape n" "fits C n" shows "EncodeToBytes (raw_rval (raw C n)) = Ok (enc C n)"
  using EncodeToBytes_rlp [OF raw_encodable, of "raw C n"] rlp_raw [OF assms(1,2)] fits_enc [OF assms(3)] by simp

text \<open>What the code collapses a node to is its raw form, flags and all apart.\<close>

lemma simplifyNode_rval:
  "simplifyNode n = Ok r \<Longrightarrow> raw_rval r = node_rval n"
  "simplify_children cs = Ok rs \<Longrightarrow> raw_rval (RawFull rs) = node_rval (FullNode cs fl)"
proof (induction n and cs arbitrary: r and rs rule: simplifyNode_simplify_children.induct)
  case (7 c cs)
  have "raw_rval x = node_rval c \<and> x \<noteq> RawNil" if "c \<noteq> NilNode" "simplifyNode c = Ok x" for x
    using 7(1) that by (cases c) (auto simp: result_bind_Ok_iff)
  then show ?case using 7 by (fastforce simp: result_bind_Ok_iff split: if_splits)
qed (auto simp: result_bind_Ok_iff)

subsection \<open>Reading a node back\<close>

text \<open>The node that is loaded for an encoding: every child that is not embedded is a hash.\<close>

definition stub :: "crypto \<Rightarrow> node \<Rightarrow> node \<Rightarrow> node" where
  "stub C c u = (if loaded c then (if length (enc C c) < 32 then u else HashNode (keccak256 C (enc C c))) else c)"

fun unload :: "crypto \<Rightarrow> nat \<Rightarrow> byte list option \<Rightarrow> node \<Rightarrow> node" where
  "unload C gen hash (ShortNode k c fl) = ShortNode k (stub C c (unload C gen None c)) (clean_flag hash gen)"
| "unload C gen hash (FullNode cs fl) = FullNode (map (\<lambda>c. stub C c (unload C gen None c)) cs) (clean_flag hash gen)"
| "unload C gen hash NilNode = NilNode"
| "unload C gen hash (HashNode h) = HashNode h"
| "unload C gen hash (ValueNode v) = ValueNode v"

abbreviation child_stub :: "crypto \<Rightarrow> nat \<Rightarrow> node \<Rightarrow> node" where
  "child_stub C gen c \<equiv> stub C c (unload C gen None c)"

lemma stub_simps [simp]: "stub C NilNode u = NilNode" "stub C (ValueNode v) u = ValueNode v" "stub C (HashNode h) u = HashNode h"
  by (simp_all add: stub_def)

lemma shape_key:
  assumes "shape (ShortNode k c fl)"
  shows "hexToCompact k \<noteq> []" "compactToHex (hexToCompact k) = k" "hasTerm k \<longleftrightarrow> is_value c"
proof -
  show "hexToCompact k \<noteq> []" by (simp add: hexToCompact_def Let_def)
  have n: "list_all nibble p \<Longrightarrow> list_all (\<lambda>b. unat b < 16) p" for p by (simp add: list_all_iff nibble_def)
  have v: "\<exists>p. k = p @ [16] \<and> list_all nibble p" if "hexkey k"
    using that by (intro exI [of _ "butlast k"]) (metis hexkey_def append_butlast_last_id)
  consider (leaf) x p where "c = ValueNode x" "k = p @ [16]" "list_all nibble p" | (ext) "list_all nibble k" "shape c"
    using assms v by auto
  note cs = this
  show "compactToHex (hexToCompact k) = k"
    by (cases rule: cs) (simp_all add: n compact_hex_round_trip)
  show "hasTerm k \<longleftrightarrow> is_value c"
    by (cases rule: cs) (auto simp: not_hasTerm)
qed

lemma expand_raw:
  "loaded n \<Longrightarrow> shape n \<Longrightarrow> expandNode hash gen (raw C n) = Ok (unload C gen hash n)"
proof (induction n arbitrary: hash)
  case (ShortNode k c fl)
  have "expandNode None gen (raw_ref C c) = Ok (child_stub C gen c)"
    using ShortNode.IH shape_child [OF ShortNode.prems(2)] by (cases c) (auto simp: raw_ref_loaded stub_def)
  then show ?case using shape_key [OF ShortNode.prems(2)] by (simp add: raw_simps)
next
  case (FullNode cs fl)
  have "expandNode None gen (raw_ref C c) = Ok (child_stub C gen c)" if "c \<in> set cs" "c \<noteq> NilNode" for c
    using FullNode that by (cases c) (auto simp: raw_ref_loaded stub_def)
  then have "expand_children gen (map (raw_ref C) cs') = Ok (map (child_stub C gen) cs')" if "set cs' \<subseteq> set cs" for cs'
    using that by (induction cs') auto
  then show ?case by (simp add: raw_simps)
qed simp_all

text \<open>\<open>decodeNode\<close> undoes the encoding.\<close>

lemma decode_ref:
  assumes "hash_size C" "fits C c" "length (ref C c) < 2 ^ 64" "c = NilNode \<or> shape c"
    and "loaded c \<Longrightarrow> length (enc C c) < 32 \<Longrightarrow> \<exists>z. dn (enc C c @ rest) = Inr (unload C gen None c)"
  shows "decodeRef dn (ref C c @ rest) = Inr (child_stub C gen c, rest)"
proof (cases "loaded c")
  case True
  obtain p where p: "enc C c = rlp_list p" "length p < 2 ^ 64" using enc_is_item [OF True assms(2)] by blast
  show ?thesis
  proof (cases "length (enc C c) < 32")
    case small: True
    have "Split (enc C c @ rest) = Inr (KList, p, rest)" using Split_list_item [OF p(2)] p(1) by simp
    then show ?thesis using small True assms(5) by (simp add: decodeRef_def ref_loaded stub_def HashLength_def)
  next
    case False
    let ?h = "keccak256 C (enc C c)"
    have h: "length ?h = 32" using assms(1) by (simp add: hash_size_def HashLength_def)
    then have ne: "?h \<noteq> []" by auto
    have "Split (rlp_string ?h @ rest) = Inr (KString, ?h, rest)" using h by (simp add: Split_string_item)
    then show ?thesis using False True h ne by (simp add: decodeRef_def ref_loaded stub_def)
  qed
next
  case False
  then consider "c = NilNode" | h where "c = HashNode h" "length h = 32" using assms(4) by (cases c) auto
  then show ?thesis
  proof cases
    case 1
    have "Split (rlp_string [] @ rest) = Inr (KString, [], rest)" by (subst Split_string_item) simp_all
    then show ?thesis using 1 by (simp add: decodeRef_def del: rlp_string_Nil)
  next
    case (2 h)
    then have "Split (rlp_string h @ rest) = Inr (KString, h, rest)" by (simp add: Split_string_item)
    moreover have "h \<noteq> []" using 2 by auto
    ultimately show ?thesis using 2 by (simp add: decodeRef_def)
  qed
qed

lemma wrapped_Inr [simp]: "wrapped ctx (Inr x) = Inr x"
  by (simp add: wrapped_def)

lemma SplitList_enc:
  assumes "enc C n = rlp_list p" "length p < 2 ^ 64"
  shows "SplitList (enc C n @ rest) = Inr (p, rest)" "enc C n @ rest \<noteq> []"
  using assms length_rlp_list(2) by (simp_all add: SplitList_def Split_list_item)

lemma shape_Full_nth: "shape (FullNode cs fl) \<Longrightarrow> cs = take 16 cs @ [cs ! 16]"
  using take_Suc_conv_app_nth [of 16 cs] by simp

lemma shape_Full_child:
  assumes "shape (FullNode cs fl)" "c \<in> set (take 16 cs)" shows "c = NilNode \<or> shape c"
proof -
  obtain i where i: "i < 16" "c = cs ! i" using assms by (auto simp: in_set_conv_nth)
  then show ?thesis using assms i by (fastforce simp: nth_mem)
qed

lemma decode_children_items:
  assumes "\<And>c rest. c \<in> set cs \<Longrightarrow> decodeRef dn (ref C c @ rest) = Inr (child_stub C gen c, rest)"
  shows "decode_children dn i (length cs) (concat (map (ref C) cs) @ rest) = Inr (map (child_stub C gen) cs, rest)"
  using assms
proof (induction cs arbitrary: i)
  case (Cons c cs)
  have "decodeRef dn (ref C c @ concat (map (ref C) cs) @ rest) = Inr (child_stub C gen c, concat (map (ref C) cs) @ rest)"
    using Cons.prems by simp
  moreover have "decode_children dn (Suc i) (length cs) (concat (map (ref C) cs) @ rest) = Inr (map (child_stub C gen) cs, rest)"
    using Cons by simp
  ultimately show ?case by simp
qed simp

lemma decode_value:
  assumes "c = NilNode \<or> (\<exists>v. c = ValueNode v \<and> v \<noteq> [])" "length (ref C c) < 2 ^ 64"
  shows "\<exists>val. SplitString (ref C c) = Inr (val, []) \<and> (if length val > 0 then ValueNode val else NilNode) = child_stub C gen c"
proof -
  have s: "length b < 2 ^ 64 \<Longrightarrow> SplitString (rlp_string b) = Inr (b, [])" for b
    using SplitString_item [of b "[]"] by simp
  from assms(1) show ?thesis
  proof (elim disjE exE conjE)
    assume "c = NilNode"
    then show ?thesis using s [of "[]"] by (simp del: rlp_string_Nil)
  next
    fix v assume v: "c = ValueNode v" "v \<noteq> []"
    then have "length v < 2 ^ 64" using assms(2) length_rlp_string(1) [of v] by simp
    then show ?thesis using s [of v] v by simp
  qed
qed

lemma decode_enc:
  assumes "hash_size C"
  shows "loaded n \<Longrightarrow> shape n \<Longrightarrow> fits C n \<Longrightarrow> decodeNode hash gen (enc C n @ rest) = Inr (unload C gen hash n)"
proof (induction n arbitrary: hash rest)
  case (ShortNode k c fl)
  let ?p = "rlp_string (hexToCompact k) @ ref C c"
  have f: "length (enc C (ShortNode k c fl)) < 2 ^ 64" "fits C c" using ShortNode.prems(3) by simp_all
  note b = enc_Short_bounds [OF f(1)] and k = shape_key [OF ShortNode.prems(2)]
  have e: "enc C (ShortNode k c fl) = rlp_list ?p" by (simp add: enc_simps)
  have "CountValues (concat [rlp_string (hexToCompact k), ref C c]) = Inr (length [rlp_string (hexToCompact k), ref C c])"
    using b ref_is_item [OF assms f(2)] by (intro CountValues_items) (simp add: is_item_string)
  then have n: "CountValues ?p = Inr 2" by simp
  have s: "SplitString ?p = Inr (hexToCompact k, ref C c)" using b by (intro SplitString_item)
  have "decodeShort (decodeNode None gen) hash gen ?p = Inr (ShortNode k (child_stub C gen c) (clean_flag hash gen))"
  proof (cases "is_value c")
    case True
    then obtain v where v: "c = ValueNode v" by (auto simp: is_value_iff)
    have "SplitString (rlp_string v) = Inr (v, [])"
      using SplitString_item [of v "[]"] b(3) length_rlp_string(1) [of v] v by simp
    then show ?thesis using k True v s by (simp add: decodeShort_def Let_def)
  next
    case False
    have "decodeRef (decodeNode None gen) (ref C c @ []) = Inr (child_stub C gen c, [])"
      using shape_child [OF ShortNode.prems(2)] False f(2) b(3) ShortNode.IH [where rest = "[]"]
      by (intro decode_ref [OF assms]) auto
    then show ?thesis using k False by (simp add: decodeShort_def s Let_def)
  qed
  then show ?case using SplitList_enc [OF e b(1)] n by (subst decodeNode.simps) (simp add: Let_def)
next
  case (FullNode cs fl)
  let ?p = "concat (map (ref C) cs)"
  have f: "length (enc C (FullNode cs fl)) < 2 ^ 64" "\<And>c. c \<in> set cs \<Longrightarrow> fits C c" using FullNode.prems(3) by simp_all
  note b = enc_Full_bounds [OF f(1)]
  have l: "length cs = 17" using FullNode.prems(2) by simp
  have e: "enc C (FullNode cs fl) = rlp_list ?p" by (simp add: enc_simps)
  have "CountValues ?p = Inr (length (map (ref C) cs))"
    using b(2) f(2) by (intro CountValues_items) (simp add: list_all_iff ref_is_item [OF assms])
  then have n: "CountValues ?p = Inr 17" using l by simp
  note cs = shape_Full_nth [OF FullNode.prems(2)]
  have "decodeRef (decodeNode None gen) (ref C c @ rest) = Inr (child_stub C gen c, rest)" if "c \<in> set (take 16 cs)" for c rest
  proof -
    have "c \<in> set cs" using that by (rule in_set_takeD)
    then show ?thesis using shape_Full_child [OF FullNode.prems(2) that] f(2) b(2) FullNode.IH
      by (intro decode_ref [OF assms]) auto
  qed
  from decode_children_items [OF this, of "take 16 cs"]
  have "decode_children (decodeNode None gen) 0 16 (concat (map (ref C) (take 16 cs)) @ ref C (cs ! 16))
      = Inr (map (child_stub C gen) (take 16 cs), ref C (cs ! 16))" using l by simp
  moreover have "?p = concat (map (ref C) (take 16 cs)) @ ref C (cs ! 16)" by (subst cs) simp
  ultimately have d: "decode_children (decodeNode None gen) 0 16 ?p
      = Inr (map (child_stub C gen) (take 16 cs), ref C (cs ! 16))" by simp
  have "cs ! 16 \<in> set cs" using l by simp
  then obtain val where val: "SplitString (ref C (cs ! 16)) = Inr (val, [])"
    "(if length val > 0 then ValueNode val else NilNode) = child_stub C gen (cs ! 16)"
    using decode_value [of "cs ! 16" C gen] FullNode.prems(2) b(2) by fastforce
  have "map (child_stub C gen) cs = map (child_stub C gen) (take 16 cs) @ [child_stub C gen (cs ! 16)]" by (subst cs) simp
  then have "decodeFull (decodeNode None gen) hash gen ?p = Inr (FullNode (map (child_stub C gen) cs) (clean_flag hash gen))"
    using val by (simp add: decodeFull_def d)
  then show ?case using SplitList_enc [OF e b(1)] n by (subst decodeNode.simps) (simp add: Let_def)
qed simp_all

subsection \<open>The cache and the disk agree\<close>

text \<open>C38. A node that the database keeps collapsed encodes without a panic, and reading it from the cache gives
  exactly the node that decoding its blob from the disk gives.\<close>

theorem cached_node_reads_as_stored:
  assumes "hash_size C" "loaded n" "shape n" "fits C n" "cn_node e = Inl (raw C n)"
  shows "\<exists>blob m. cachedNode_rlp e = Ok blob \<and> cachedNode_obj hash gen e = Ok m \<and> mustDecodeNode hash blob gen = Ok m"
  using encode_raw [OF assms(2-4)] expand_raw [OF assms(2,3)] decode_enc [OF assms(1-4), where rest = "[]"] assms(5)
  by (simp add: cachedNode_rlp_def cachedNode_obj_def mustDecodeNode_def panicking_def)

lemma flat_keccak: "keccak256 flat_crypto = BytesToHash"
  by (simp add: flat_crypto_def)

lemma flat_hash_size: "hash_size flat_crypto"
  by (simp add: hash_size_def flat_keccak BytesToHash_def fill_right_def)

lemma leaf_enc: "enc C (ShortNode (keybytesToHex [1]) (ValueNode v) fl) = rlp_list (rlp_string [32, 1] @ rlp_string v)"
  by (simp add: enc_simps keybytesToHex_def hexToCompact_def hasTerm_def Let_def)

theorem cached_node_reads_as_stored_witness:
  "\<exists>blob m. cachedNode_rlp (empty_cachedNode\<lparr>cn_node := Inl (RawShort [0x20, 1] (RawValue [7]))\<rparr>) = Ok blob \<and>
     cachedNode_obj [1] 0 (empty_cachedNode\<lparr>cn_node := Inl (RawShort [0x20, 1] (RawValue [7]))\<rparr>) = Ok m \<and>
     mustDecodeNode [1] blob 0 = Ok m"
proof -
  let ?n = "ShortNode (keybytesToHex [1]) (ValueNode [7]) (newFlag 0)"
  have "raw flat_crypto ?n = RawShort [0x20, 1] (RawValue [7])"
    by (simp add: raw_simps keybytesToHex_def hexToCompact_def hasTerm_def Let_def)
  moreover have "fits flat_crypto ?n" by (simp add: leaf_enc rlp_list_def rlp_string_def puthead_def)
  moreover have "shape ?n" by (simp add: hexkey_keybytesToHex)
  ultimately show ?thesis
    using cached_node_reads_as_stored [OF flat_hash_size, of ?n "empty_cachedNode\<lparr>cn_node := Inl (RawShort [0x20, 1] (RawValue [7]))\<rparr>" "[1]" 0]
    by simp
qed

end
