(* ===== verification/Trie_Hashing.thy ===== *)
theory Trie_Hashing
  imports Trie_Codec
begin

section \<open>The hash of a trie: dvm/ethereum/trie/hasher.go, trie.go\<close>

text \<open>
  Nodes cache their hashes. \<open>node_ok\<close> says when the caches of a tree are right, \<open>vault\<close> the same of the nodes that
  can be loaded; the operations of a trie keep both, and with them \<open>Hash\<close> computes \<open>root_hash\<close>, a function of the
  tree alone. \<open>ok_trie\<close> collects the invariant.
\<close>

subsection \<open>Cached hashes\<close>

text \<open>
  What the flags of a node may say, in a trie over the nodes \<open>D\<close> of which those with a hash in \<open>S\<close> are known to be
  stored. A cached hash is the hash of the node, below a parent only a large node has one, and a clean node is
  stored under its hash with the same values; a clean node without a hash is embedded in its parent.
\<close>

definition big :: "crypto \<Rightarrow> node_db \<Rightarrow> byte list \<Rightarrow> bool" where
  "big C D h \<longleftrightarrow> (\<exists>m. D h = Some m \<and> 32 \<le> length (enc C m))"

definition same_values :: "node_db \<Rightarrow> node \<Rightarrow> node_db \<Rightarrow> node \<Rightarrow> bool" where
  "same_values D n D' n' \<longleftrightarrow> (\<forall>k v. holds D n k v \<longleftrightarrow> holds D' n' k v)"

definition flag_ok :: "crypto \<Rightarrow> node_db \<Rightarrow> byte list set \<Rightarrow> bool \<Rightarrow> node \<Rightarrow> nodeFlag \<Rightarrow> bool" where
  "flag_ok C D S below n fl \<longleftrightarrow>
     (case nf_hash fl of
        None \<Rightarrow> \<not> nf_dirty fl \<longrightarrow> below \<and> length (enc C n) < 32
      | Some h \<Rightarrow> h = keccak256 C (enc C n) \<and> (below \<longrightarrow> 32 \<le> length (enc C n)) \<and>
          (\<not> nf_dirty fl \<longrightarrow> h \<in> S \<and> (below \<longrightarrow> big C D h) \<and> same_values D (HashNode h) D n))"

fun node_ok :: "crypto \<Rightarrow> node_db \<Rightarrow> byte list set \<Rightarrow> bool \<Rightarrow> node \<Rightarrow> bool" where
  "node_ok C D S below (ShortNode k c fl) \<longleftrightarrow> node_ok C D S True c \<and> flag_ok C D S below (ShortNode k c fl) fl"
| "node_ok C D S below (FullNode cs fl) \<longleftrightarrow>
     (\<forall>c\<in>set cs. node_ok C D S True c) \<and> flag_ok C D S below (FullNode cs fl) fl"
| "node_ok C D S below (HashNode h) \<longleftrightarrow> h \<in> S \<and> (below \<longrightarrow> big C D h)"
| "node_ok C D S below _ \<longleftrightarrow> True"

text \<open>The stored nodes are what their hashes say, in the same sense.\<close>

definition vault :: "crypto \<Rightarrow> node_db \<Rightarrow> byte list set \<Rightarrow> bool" where
  "vault C D S \<longleftrightarrow> (\<forall>h\<in>S. \<exists>m. D h = Some m \<and> loaded m \<and> wf_node D m \<and> keccak256 C (enc C m) = h \<and> node_ok C D S False m)"

lemma flag_ok_new [simp]: "flag_ok C D S below n (newFlag gen)"
  by (simp add: flag_ok_def newFlag_def)

lemma flag_ok_gen: "flag_ok C D S below n (fl\<lparr>nf_gen := gen\<rparr>) = flag_ok C D S below n fl"
  by (auto simp: flag_ok_def split: option.split)

lemma flag_ok_eq:
  "enc C n' = enc C n \<Longrightarrow> same_values D n' D n \<Longrightarrow> flag_ok C D S below n fl \<Longrightarrow> flag_ok C D S below n' fl"
  by (auto simp: flag_ok_def same_values_def split: option.splits)

lemma same_values_refl [simp]: "same_values D n D n"
  by (simp add: same_values_def)

lemma same_values_trans: "same_values D1 a D2 b \<Longrightarrow> same_values D2 b D3 c \<Longrightarrow> same_values D1 a D3 c"
  by (simp add: same_values_def)

lemma same_values_sym: "same_values D1 a D2 b \<Longrightarrow> same_values D2 b D1 a"
  by (simp add: same_values_def)

lemma unfolds_same: "unfolds D n n' \<Longrightarrow> same_values D n' D n"
  by (simp add: same_values_def unfolds_holds)

lemma flag_ok_below:
  "flag_ok C D S False n fl \<Longrightarrow> 32 \<le> length (enc C n) \<Longrightarrow> big C D (keccak256 C (enc C n)) \<Longrightarrow> flag_ok C D S True n fl"
  by (auto simp: flag_ok_def split: option.splits)

lemma node_ok_below:
  "loaded n \<Longrightarrow> node_ok C D S False n \<Longrightarrow> 32 \<le> length (enc C n) \<Longrightarrow> big C D (keccak256 C (enc C n)) \<Longrightarrow> node_ok C D S True n"
  by (cases n) (auto intro: flag_ok_below)

text \<open>A hash node, loaded.\<close>

lemma vault_load:
  assumes "vault C D S" "node_ok C D S below (HashNode h)"
  obtains m where "D h = Some m" "loaded m" "wf_node D m" "keccak256 C (enc C m) = h" "node_ok C D S below m"
    "node_ok C D S False m" "below \<Longrightarrow> ref C (HashNode h) = ref C m"
proof -
  obtain m where m: "D h = Some m" "loaded m" "wf_node D m" "keccak256 C (enc C m) = h" "node_ok C D S False m"
    using assms by (auto simp: vault_def)
  have "below \<Longrightarrow> 32 \<le> length (enc C m) \<and> big C D (keccak256 C (enc C m))" using assms(2) m(1,4) by (auto simp: big_def)
  then show ?thesis using that m node_ok_below [OF m(2,5)] by (cases below) (auto simp: ref_loaded)
qed

lemma resolveHash_ok:
  assumes "vault C D S" "node_ok C D S below (HashNode h)" "resolveHash D h prefix = Inr rn"
  shows "node_ok C D S below rn" "loaded rn" "D h = Some rn" "below \<Longrightarrow> ref C rn = ref C (HashNode h)"
  using assms(3) by (auto simp: resolveHash_def split: option.splits intro: vault_load [OF assms(1,2)])

subsection \<open>The operations keep the caches right\<close>

lemma set_child_ok: "set_child cs i c = Inr cs' \<Longrightarrow> cs' = cs[i := c] \<and> i < length cs"
  by (auto simp: set_child_def split: if_splits)

lemma node_ok_full_update:
  "\<forall>c\<in>set cs. node_ok C D S True c \<Longrightarrow> node_ok C D S True c \<Longrightarrow> \<forall>c\<in>set (cs[i := c]). node_ok C D S True c"
  using set_update_subset_insert [of cs i c] by blast

lemma full_empty_ok [simp]: "\<forall>c\<in>set full_empty. node_ok C D S True c"
  by (simp add: full_empty_def)

lemma child_at_ok: "child_at cs key pos = Inr c \<Longrightarrow> c \<in> set cs"
  by (auto simp: child_at_def split: if_splits)

lemma insert_node_ok:
  assumes "vault C D S"
  shows "insert_node D gen f n prefix key val = Inr (dirty, n') \<Longrightarrow> node_ok C D S below n \<Longrightarrow>
     node_ok C D S True val \<Longrightarrow> node_ok C D S below val \<Longrightarrow> node_ok C D S below n'"
proof (induction f arbitrary: n prefix key val dirty n' below)
  case (Suc f)
  note IH = Suc.IH [where below = True]
  show ?case
  proof (cases "key = []")
    case True
    then have eq: "insert_node D gen (Suc f) n prefix key val =
       (case n of ValueNode v \<Rightarrow>
          (case val of ValueNode w \<Rightarrow> Inr (v \<noteq> w, val) | _ \<Rightarrow> Inl (TriePanic ''interface conversion''))
        | _ \<Rightarrow> Inr (True, val))"
      by (simp only: insert_node.simps(2) list.size if_True simp_thms)
    have "n' = val" using Suc.prems(1) unfolding eq by (cases n; cases val) simp_all
    then show ?thesis using Suc.prems(4) by simp
  next
    case ne: False
    show ?thesis
    proof (cases n)
      case (ShortNode k c fl)
      have c: "node_ok C D S True c" using Suc.prems(2) ShortNode by simp
      show ?thesis
      proof (cases "prefixLen key k = length k")
        case True
        let ?i = "insert_node D gen f c (prefix @ take (length k) key) (drop (length k) key) val"
        have eq: "insert_node D gen (Suc f) n prefix key val =
           (case ?i of Inl e \<Rightarrow> Inl e | Inr (dirty, nn) \<Rightarrow>
              if \<not> dirty then Inr (False, n) else Inr (True, ShortNode k nn (newFlag gen)))"
          using ShortNode ne True by (simp only: insert_node.simps(2) node.case list.size simp_thms if_True if_False Let_def length_0_conv)
        obtain b nn where r: "?i = Inr (b, nn)" using Suc.prems(1) eq by (cases ?i) auto
        have "node_ok C D S True nn" using IH [OF r c Suc.prems(3,3)] .
        then show ?thesis using Suc.prems(1,2) eq r by (cases b) auto
      next
        case False
        let ?m = "prefixLen key k"
        let ?i1 = "insert_node D gen f NilNode (prefix @ take (?m + 1) k) (drop (?m + 1) k) c"
          and ?i2 = "insert_node D gen f NilNode (prefix @ take (?m + 1) key) (drop (?m + 1) key) val"
        have eq: "insert_node D gen (Suc f) n prefix key val =
           (case ?i1 of Inl e \<Rightarrow> Inl e | Inr (_, c1) \<Rightarrow>
             (case set_child full_empty (unat (k ! ?m)) c1 of Inl e \<Rightarrow> Inl e | Inr cs1 \<Rightarrow>
               if ?m \<ge> length key then Inl (TriePanic ''index out of range'')
               else (case ?i2 of Inl e \<Rightarrow> Inl e | Inr (_, c2) \<Rightarrow>
                 (case set_child cs1 (unat (key ! ?m)) c2 of Inl e \<Rightarrow> Inl e | Inr cs2 \<Rightarrow>
                   if ?m = 0 then Inr (True, FullNode cs2 (newFlag gen))
                   else Inr (True, ShortNode (take ?m key) (FullNode cs2 (newFlag gen)) (newFlag gen))))))"
          using ShortNode ne False by (simp only: insert_node.simps(2) node.case list.size if_False Let_def length_0_conv)
        obtain b1 c1 where r1: "?i1 = Inr (b1, c1)" using Suc.prems(1) eq by (cases ?i1) auto
        obtain cs1 where r3: "set_child full_empty (unat (k ! ?m)) c1 = Inr cs1" "\<not> ?m \<ge> length key"
          using Suc.prems(1) eq r1 by (cases "set_child full_empty (unat (k ! ?m)) c1") (auto split: if_splits)
        obtain b2 c2 where r2: "?i2 = Inr (b2, c2)" using Suc.prems(1) eq r1 r3 by (cases ?i2) auto
        obtain cs2 where r4: "set_child cs1 (unat (key ! ?m)) c2 = Inr cs2"
          using Suc.prems(1) eq r1 r2 r3 by (cases "set_child cs1 (unat (key ! ?m)) c2") auto
        have n': "n' = (if ?m = 0 then FullNode cs2 (newFlag gen) else ShortNode (take ?m key) (FullNode cs2 (newFlag gen)) (newFlag gen))"
          using Suc.prems(1) eq r1 r2 r3 r4 by (auto split: if_splits)
        have "node_ok C D S True c1" "node_ok C D S True c2"
          using IH [OF r1 _ c c] IH [OF r2 _ Suc.prems(3,3)] by simp_all
        then have "\<forall>c\<in>set cs2. node_ok C D S True c"
          using set_child_ok [OF r3(1)] set_child_ok [OF r4] node_ok_full_update full_empty_ok by metis
        then show ?thesis using n' by simp
      qed
    next
      case (FullNode cs fl)
      have eq: "insert_node D gen (Suc f) n prefix key val =
         (case child_at cs key 0 of Inl e \<Rightarrow> Inl e | Inr c \<Rightarrow>
           (case insert_node D gen f c (prefix @ [key ! 0]) (drop 1 key) val of Inl e \<Rightarrow> Inl e
            | Inr (dirty, nn) \<Rightarrow> if \<not> dirty then Inr (False, n)
                else Inr (True, FullNode (cs[unat (key ! 0) := nn]) (newFlag gen))))"
        using FullNode ne by (simp only: insert_node.simps(2) node.case list.size if_False length_0_conv)
      obtain c where r1: "child_at cs key 0 = Inr c" using Suc.prems(1) eq by (cases "child_at cs key 0") auto
      obtain b nn where r2: "insert_node D gen f c (prefix @ [key ! 0]) (drop 1 key) val = Inr (b, nn)"
        using Suc.prems(1) eq r1 by (cases "insert_node D gen f c (prefix @ [key ! 0]) (drop 1 key) val") auto
      have r3: "n' = (if b then FullNode (cs[unat (key ! 0) := nn]) (newFlag gen) else n)"
        using Suc.prems(1) eq r1 r2 by (auto split: if_splits)
      have "node_ok C D S True nn" using IH [OF r2 _ Suc.prems(3,3)] child_at_ok [OF r1] Suc.prems(2) FullNode by simp
      then have "\<forall>c\<in>set (cs[unat (key ! 0) := nn]). node_ok C D S True c"
        using Suc.prems(2) FullNode by (intro node_ok_full_update) simp_all
      then show ?thesis using r3 Suc.prems(2) by simp
    next
      case (HashNode h)
      have eq: "insert_node D gen (Suc f) n prefix key val =
         (case resolveHash D h prefix of Inl e \<Rightarrow> Inl e | Inr rn \<Rightarrow>
           (case insert_node D gen f rn prefix key val of Inl e \<Rightarrow> Inl e
            | Inr (dirty, nn) \<Rightarrow> if \<not> dirty then Inr (False, rn) else Inr (True, nn)))"
        using HashNode ne by (simp only: insert_node.simps(2) node.case list.size if_False length_0_conv)
      obtain rn where rn: "resolveHash D h prefix = Inr rn" using Suc.prems(1) eq by (cases "resolveHash D h prefix") auto
      obtain b nn where r: "insert_node D gen f rn prefix key val = Inr (b, nn)"
        using Suc.prems(1) eq rn by (cases "insert_node D gen f rn prefix key val") auto
      have "node_ok C D S below rn" using resolveHash_ok(1) [OF assms _ rn] Suc.prems(2) HashNode by simp
      moreover from Suc.IH [OF r this Suc.prems(3,4)] have "node_ok C D S below nn" .
      ultimately show ?thesis using Suc.prems(1) eq rn r by (auto split: if_splits)
    next
      case NilNode
      then have "insert_node D gen (Suc f) n prefix key val = Inr (True, ShortNode key val (newFlag gen))"
        using ne by (simp only: insert_node.simps(2) node.case list.size if_False length_0_conv)
      then show ?thesis using Suc.prems(1,3) by auto
    next
      case (ValueNode v)
      then show ?thesis using Suc.prems ne by (simp add: insert_node.simps(2))
    qed
  qed
qed simp

lemma join_ok:
  "node_ok C D S True child \<Longrightarrow> node_ok C D S below
     (case child of ShortNode ck cv cf \<Rightarrow> ShortNode (k @ ck) cv (newFlag gen) | _ \<Rightarrow> ShortNode k child (newFlag gen))"
  by (cases child) auto

lemma only_child_index: "0 \<le> only_child 0 cs (-1) \<Longrightarrow> cs ! nat (only_child 0 cs (-1)) \<in> set cs"
  using only_child_cases [of 0 cs] by auto

lemma collapse_ok:
  assumes "vault C D S" "\<forall>c\<in>set cs1. node_ok C D S True c" "collapse D gen cs1 prefix = Inr (dirty, n')"
  shows "node_ok C D S below n'"
proof (cases "only_child 0 cs1 (-1) \<ge> 0")
  case pos: True
  let ?p = "only_child 0 cs1 (-1)" and ?c = "cs1 ! nat (only_child 0 cs1 (-1))"
  have c: "node_ok C D S True ?c" using assms(2) only_child_index [OF pos] by blast
  show ?thesis
  proof (cases "?p = 16")
    case False
    then obtain cn where cn: "resolve D ?c prefix = Inr cn" using assms(3) pos by (auto simp: collapse_def Let_def split: sum.splits)
    have "node_ok C D S True cn"
      using cn c resolveHash_ok(1) [OF assms(1)] by (cases ?c) (auto simp: resolve_def)
    then show ?thesis using assms(3) pos False cn c by (cases cn) (auto simp: collapse_def Let_def)
  next
    case True
    then show ?thesis using assms(3) c by (auto simp: collapse_def Let_def)
  qed
next
  case False
  then show ?thesis using assms(2,3) by (auto simp: collapse_def Let_def)
qed

lemma delete_node_ok:
  assumes "vault C D S"
  shows "delete_node D gen f n prefix key = Inr (dirty, n') \<Longrightarrow> node_ok C D S below n \<Longrightarrow> node_ok C D S below n'"
proof (induction f arbitrary: n prefix key dirty n' below)
  case (Suc f)
  note IH = Suc.IH [where below = True]
  show ?case
  proof (cases n)
    case (ShortNode k c fl)
    show ?thesis
    proof (cases "prefixLen key k < length k \<or> prefixLen key k = length key")
      case True
      then show ?thesis using Suc.prems ShortNode by (auto simp: delete_node.simps(2) Let_def split: if_splits)
    next
      case False
      obtain b child where r: "delete_node D gen f c (prefix @ take (length k) key) (drop (length k) key) = Inr (b, child)"
        "n' = (if b then (case child of ShortNode ck cv cf \<Rightarrow> ShortNode (k @ ck) cv (newFlag gen) | _ \<Rightarrow> ShortNode k child (newFlag gen)) else n)"
        using Suc.prems(1) ShortNode False
        by (auto simp: delete_node.simps(2) Let_def split: sum.splits if_splits prod.splits node.splits)
      have "node_ok C D S True child" using IH [OF r(1)] Suc.prems(2) ShortNode by simp
      then show ?thesis using r(2) Suc.prems(2) join_ok [of C D S child below k gen] by (cases b) simp_all
    qed
  next
    case (FullNode cs fl)
    obtain c b nn where r: "child_at cs key 0 = Inr c" "delete_node D gen f c (prefix @ [key ! 0]) (drop 1 key) = Inr (b, nn)"
      using Suc.prems(1) FullNode by (auto simp: delete_node.simps(2) split: sum.splits prod.splits)
    have r3: "(if b then collapse D gen (cs[unat (key ! 0) := nn]) prefix else Inr (False, n)) = Inr (dirty, n')"
      using Suc.prems(1) FullNode r by (cases b) (simp_all add: delete_node.simps(2) collapse_def Let_def)
    have "node_ok C D S True nn" using IH [OF r(2)] child_at_ok [OF r(1)] Suc.prems(2) FullNode by simp
    then have "\<forall>c\<in>set (cs[unat (key ! 0) := nn]). node_ok C D S True c"
      using Suc.prems(2) FullNode by (intro node_ok_full_update) simp_all
    from collapse_ok [OF assms this] r3 Suc.prems(2) show ?thesis by (cases b) auto
  next
    case (HashNode h)
    obtain rn where rn: "resolveHash D h prefix = Inr rn"
      using Suc.prems(1) HashNode by (auto simp: delete_node.simps(2) split: sum.splits)
    have "node_ok C D S below rn" using resolveHash_ok(1) [OF assms _ rn] Suc.prems(2) HashNode by simp
    then show ?thesis using Suc.prems(1) HashNode rn Suc.IH by (auto simp: delete_node.simps(2) split: sum.splits if_splits)
  qed (use Suc.prems in \<open>auto simp: delete_node.simps(2)\<close>)
qed (simp add: delete_node.simps)

text \<open>A read leaves every hash as it is.\<close>

lemma enc_same:
  "ref C c' = ref C c \<Longrightarrow> enc C (ShortNode k c' fl) = enc C (ShortNode k c fl)"
  "\<forall>i<length cs. ref C (cs' ! i) = ref C (cs ! i) \<Longrightarrow> length cs' = length cs \<Longrightarrow> enc C (FullNode cs' fl) = enc C (FullNode cs fl)"
  by (auto simp: enc_simps intro!: arg_cong [of _ _ concat] arg_cong [of _ _ rlp_list] nth_equalityI)

lemma tryGet_ok:
  "vault C D S \<Longrightarrow> tryGet D gen f n key pos = Inr (v, n', r) \<Longrightarrow> node_ok C D S below n \<Longrightarrow>
     node_ok C D S below n' \<and> unfolds D n n' \<and> (below \<longrightarrow> ref C n' = ref C n) \<and>
     (loaded n \<longrightarrow> loaded n' \<and> enc C n' = enc C n)"
proof (induction D gen f n key pos arbitrary: v n' r below rule: tryGet.induct)
  case (4 D gen f k c fl key pos)
  show ?case
  proof (cases "length key - pos < length k \<or> k \<noteq> take (length k) (drop pos key)")
    case True
    then show ?thesis using 4 by (auto intro: unfolds_refl)
  next
    case False
    then obtain c' where c': "tryGet D gen f c key (pos + length k) = Inr (v, c', r)"
      "n' = (if r then ShortNode k c' (fl\<lparr>nf_gen := gen\<rparr>) else ShortNode k c fl)"
      using "4.prems"(2) by (auto split: sum.splits prod.splits)
    have c: "node_ok C D S True c" and fl: "flag_ok C D S below (ShortNode k c fl) fl" using "4.prems"(3) by simp_all
    have i: "node_ok C D S True c'" "unfolds D c c'" "ref C c' = ref C c"
      using "4.IH" [OF False "4.prems"(1) c'(1) c] by simp_all
    have e: "enc C (ShortNode k c' fl') = enc C (ShortNode k c fl)" for fl'
      using enc_same(1) [OF i(3)] enc_flag(1) by metis
    have u: "unfolds D (ShortNode k c fl) (ShortNode k c' fl')" for fl' using i(2) by (rule unfolds_short)
    show ?thesis
    proof (cases r)
      case True
      have "flag_ok C D S below n' fl" using flag_ok_eq [OF e unfolds_same [OF u] fl] c'(2) True by simp
      then show ?thesis using True c'(2) i e u by (simp add: ref_loaded flag_ok_gen)
    qed (use c'(2) "4.prems"(3) unfolds_refl in auto)
  qed
next
  case (5 D gen f cs fl key pos)
  obtain c c' where c': "child_at cs key pos = Inr c" "tryGet D gen f c key (pos + 1) = Inr (v, c', r)"
    "n' = (if r then FullNode (cs[unat (key ! pos) := c']) (fl\<lparr>nf_gen := gen\<rparr>) else FullNode cs fl)"
    using "5.prems"(2) by (auto split: sum.splits prod.splits)
  have c: "c = cs ! unat (key ! pos)" "unat (key ! pos) < length cs" using c'(1) by (auto simp: child_at_def split: if_splits)
  have ok: "\<forall>c\<in>set cs. node_ok C D S True c" and fl: "flag_ok C D S below (FullNode cs fl) fl" using "5.prems"(3) by simp_all
  have "node_ok C D S True c" using ok c by simp
  from "5.IH" [OF c'(1) "5.prems"(1) c'(2) this]
  have i: "node_ok C D S True c'" "unfolds D c c'" "ref C c' = ref C c" by simp_all
  let ?cs = "cs[unat (key ! pos) := c']"
  have "\<forall>i<length cs. ref C (?cs ! i) = ref C (cs ! i)" using i(3) c by (auto simp: nth_list_update)
  then have e: "enc C (FullNode ?cs fl') = enc C (FullNode cs fl)" for fl'
    using enc_same(2) [of cs C ?cs] enc_flag(2) length_list_update by metis
  have u: "unfolds D (FullNode cs fl) (FullNode ?cs fl')" for fl' using i(2) c by (intro unfolds_full) simp_all
  show ?case
  proof (cases r)
    case True
    have "flag_ok C D S below n' fl" using flag_ok_eq [OF e unfolds_same [OF u] fl] c'(3) True by simp
    then show ?thesis using True c'(3) i e u node_ok_full_update [OF ok i(1)] by (simp add: ref_loaded flag_ok_gen)
  qed (use c'(3) "5.prems"(3) unfolds_refl in auto)
next
  case (6 D gen f h key pos)
  obtain c where c: "resolveHash D h (take pos key) = Inr c" "tryGet D gen f c key pos = Inr (v, n', r) \<or> (\<exists>r'. tryGet D gen f c key pos = Inr (v, n', r'))"
    using "6.prems"(2) by (auto split: sum.splits prod.splits)
  then obtain r' where r': "tryGet D gen f c key pos = Inr (v, n', r')" by blast
  note l = resolveHash_ok [OF "6.prems"(1) "6.prems"(3) c(1)]
  from "6.IH" [OF c(1) "6.prems"(1) r' l(1)] l show ?case by (auto intro: unfolds_hash)
qed (auto intro: unfolds_refl)

subsection \<open>Computing the root hash\<close>

text \<open>A node without its flags: what encodings and values depend on.\<close>

fun bare :: "node \<Rightarrow> node" where
  "bare (ShortNode k c fl) = ShortNode k (bare c) (newFlag 0)"
| "bare (FullNode cs fl) = FullNode (map bare cs) (newFlag 0)"
| "bare n = n"

lemma bare_simps [simp]:
  "bare n = NilNode \<longleftrightarrow> n = NilNode" "bare n = ValueNode v \<longleftrightarrow> n = ValueNode v" "bare n = HashNode h \<longleftrightarrow> n = HashNode h"
  by (cases n; simp)+

lemma bare_loaded: "bare n = bare n' \<Longrightarrow> loaded n = loaded n'"
  by (cases n; cases n'; simp)

lemma ref_bare: "(loaded n \<Longrightarrow> enc C (bare n) = enc C n) \<Longrightarrow> ref C (bare n) = ref C n"
proof -
  assume e: "loaded n \<Longrightarrow> enc C (bare n) = enc C n"
  have "loaded (bare n) = loaded n" by (cases n) simp_all
  with e show ?thesis by (cases "loaded n") (auto simp: ref_loaded, cases n, auto)
qed

lemma enc_bare: "enc C (bare n) = enc C n"
proof (induction n)
  case (ShortNode k c fl)
  then show ?case by (simp add: enc_simps ref_bare)
next
  case (FullNode cs fl)
  have "map (ref C) (map bare cs) = map (ref C) cs" using FullNode by (simp add: ref_bare)
  then show ?case by (simp only: bare.simps enc_simps)
qed simp_all

lemma enc_bare_eq: "bare n = bare n' \<Longrightarrow> enc C n = enc C n'"
  using enc_bare by metis

lemma ref_bare_eq: "bare n = bare n' \<Longrightarrow> ref C n = ref C n'"
  using ref_bare enc_bare by metis

lemma holds_bare: "holds D (bare n) k v \<longleftrightarrow> holds D n k v"
proof (induction n arbitrary: k)
  case (FullNode cs fl)
  have "holds D (bare (cs ! i)) r v \<longleftrightarrow> holds D (cs ! i) r v" if "i < length cs" for i r
    using FullNode that by simp
  then show ?case by (auto simp: holds_Full_iff)
qed (auto simp: holds_Short_iff)

lemma bare_same: "bare n = bare n' \<Longrightarrow> same_values D n D n'"
  unfolding same_values_def using holds_bare by metis

lemma branching_bare: "branching D (bare n) = branching D n"
  by (cases n) simp_all

lemma wf_bare: "wf_node D (bare n) \<longleftrightarrow> wf_node D n"
proof (induction n)
  case (ShortNode k c fl)
  then show ?case by (auto simp: wf_Short_iff branching_bare)
next
  case (FullNode cs fl)
  have "wf_node D (bare (cs ! i)) = wf_node D (cs ! i)" if "i < length cs" for i using FullNode that by simp
  moreover have "children (map bare cs) = children cs" if "length cs = 17" using that by (auto simp: children_def)
  ultimately show ?case by (auto simp: wf_Full_iff)
qed auto

lemma wf_bare_eq: "bare n = bare n' \<Longrightarrow> wf_node D n = wf_node D n'"
  using wf_bare by metis

text \<open>The end of \<open>hash\<close>: the collapsed node has the encoding of the node.\<close>

definition cell :: "node \<Rightarrow> rval" where
  "cell c = (if c = NilNode then RBytes [] else node_rval c)"

lemma node_rval_cells: "node_rval (FullNode cs fl) = RSlice (map cell cs)"
  by (simp add: cell_def [abs_def])

lemma node_encodable: "encodable (node_rval n)"
  by (induction n) (auto simp: list_all_iff)

lemma encode_collapsed:
  "rlp (node_rval n) = e \<Longrightarrow> length e < 2 ^ 64 \<Longrightarrow> EncodeToBytes (node_rval n) = Ok e"
  using EncodeToBytes_rlp [OF node_encodable, of n] by simp

definition hashed_node :: "crypto \<Rightarrow> bool \<Rightarrow> node \<Rightarrow> byte list \<Rightarrow> node" where
  "hashed_node C force n e = (if length e < 32 \<and> \<not> force then n else HashNode (keccak256 C e))"

lemma finish_hash_none:
  assumes "loaded n" "fst (node_cache n) = None" "rlp (node_rval n) = e" "length e < 2 ^ 64"
  shows "finish_hash C h force (n, cached, None) =
     Ok (hashed_node C force n e, set_hash (hashed_node C force n e) False cached, None)"
proof -
  have "hasher_store C h n None force = Ok (hashed_node C force n e, None)"
    using assms(1,2) encode_collapsed [OF assms(3,4)]
    by (cases n) (simp_all add: hasher_store_def panicking_def makeHashNode_def hashed_node_def)
  then show ?thesis by (simp add: finish_hash_def)
qed

lemma hash_cached_none: "hash_cached h n False = (case fst (node_cache n) of None \<Rightarrow> None | Some x \<Rightarrow> Some (HashNode x, n))"
  by (auto simp: hash_cached_def split: prod.split option.split)

text \<open>The flags after it.\<close>

lemma set_hash_Short: "set_hash x False (ShortNode k c fl) =
    ShortNode k c (fl\<lparr>nf_hash := (case x of HashNode y \<Rightarrow> Some y | _ \<Rightarrow> None)\<rparr>)"
  "set_hash x False (FullNode cs fl) = FullNode cs (fl\<lparr>nf_hash := (case x of HashNode y \<Rightarrow> Some y | _ \<Rightarrow> None)\<rparr>)"
  by (simp_all add: set_hash_def Let_def)

lemma flag_ok_set:
  assumes "flag_ok C D S below n fl" "nf_hash fl = None" "enc C cached = enc C n" "loaded n'"
  shows "flag_ok C D S below cached
     (fl\<lparr>nf_hash := (case hashed_node C (\<not> below) n' (enc C n) of HashNode y \<Rightarrow> Some y | _ \<Rightarrow> None)\<rparr>)"
proof (cases "length (enc C n) < 32 \<and> below")
  case True
  then have h: "hashed_node C (\<not> below) n' (enc C n) = n'" by (simp add: hashed_node_def)
  have "(case n' of HashNode y \<Rightarrow> Some y | _ \<Rightarrow> None) = None" using assms(4) by (cases n') simp_all
  then show ?thesis using True assms(3) unfolding h flag_ok_def by simp
next
  case False
  then have h: "hashed_node C (\<not> below) n' (enc C n) = HashNode (keccak256 C (enc C n))" by (auto simp: hashed_node_def)
  have "nf_dirty fl" using assms(1,2) False by (auto simp: flag_ok_def)
  then show ?thesis using False assms(3) unfolding h flag_ok_def by auto
qed

definition hashes_to :: "crypto \<Rightarrow> node_db \<Rightarrow> byte list set \<Rightarrow> bool \<Rightarrow> node \<Rightarrow> (node \<times> node \<times> Database option) result \<Rightarrow> bool" where
  "hashes_to C D S below n r \<longleftrightarrow>
     (\<exists>hashed cached. r = Ok (hashed, cached, None) \<and> bare cached = bare n \<and> node_ok C D S below cached \<and>
        (hashed = NilNode \<longleftrightarrow> n = NilNode) \<and>
        (if below then rlp (cell hashed) = ref C n else hashed = HashNode (keccak256 C (enc C n))))"

lemma hashed_node_result:
  assumes "loaded n" "loaded n'" "rlp (node_rval n') = enc C n"
  shows "hashed_node C (\<not> below) n' (enc C n) \<noteq> NilNode" "if below then rlp (cell (hashed_node C (\<not> below) n' (enc C n))) = ref C n
     else hashed_node C (\<not> below) n' (enc C n) = HashNode (keccak256 C (enc C n))"
proof -
  have "n' \<noteq> NilNode" using assms(2) by auto
  then show "hashed_node C (\<not> below) n' (enc C n) \<noteq> NilNode" "if below then rlp (cell (hashed_node C (\<not> below) n' (enc C n))) = ref C n
     else hashed_node C (\<not> below) n' (enc C n) = HashNode (keccak256 C (enc C n))"
    using assms by (simp_all add: hashed_node_def ref_loaded cell_def)
qed

lemma hash_children_none:
  assumes "\<And>c. c \<in> set (take m cs) \<Longrightarrow> hashes_to C D S True c (if c = NilNode then Ok (NilNode, NilNode, None) else hash_node C h c None False)"
    and "\<forall>c\<in>set (drop m cs). node_ok C D S True c \<and> rlp (cell c) = ref C c"
  shows "\<exists>ccs kcs. hash_children C h m cs None = Ok (ccs, kcs, None) \<and> map bare kcs = map bare cs \<and>
     (\<forall>c\<in>set kcs. node_ok C D S True c) \<and> map (\<lambda>c. rlp (cell c)) ccs = map (ref C) cs"
  using assms
proof (induction cs arbitrary: m)
  case (Cons c cs)
  show ?case
  proof (cases m)
    case 0
    then show ?thesis using Cons.prems(2) by simp
  next
    case (Suc l)
    obtain ccs kcs where r: "hash_children C h l cs None = Ok (ccs, kcs, None)" "map bare kcs = map bare cs"
      "\<forall>c\<in>set kcs. node_ok C D S True c" "map (\<lambda>c. rlp (cell c)) ccs = map (ref C) cs"
      using Cons.IH [of l] Cons.prems Suc by auto
    obtain cc kc where c: "(if c = NilNode then Ok (NilNode, NilNode, None) else hash_node C h c None False) = Ok (cc, kc, None)"
      "bare kc = bare c" "node_ok C D S True kc" "rlp (cell cc) = ref C c"
      using Cons.prems(1) [of c] Suc by (auto simp: hashes_to_def)
    have "hash_children C h m (c # cs) None = Ok (cc # ccs, kc # kcs, None)"
      using c(1) r(1) Suc by (simp only: hash_children.simps result_bind.simps prod.case)
    then show ?thesis using r c(2-) by simp
  qed
qed simp

lemma hash_node_none:
  "loaded n \<Longrightarrow> shape n \<Longrightarrow> fits C n \<Longrightarrow> node_ok C D S below n \<Longrightarrow>
     hashes_to C D S below n (hash_node C h n None (\<not> below))"
proof (induction n arbitrary: below)
  case (ShortNode k c fl)
  have fl: "flag_ok C D S below (ShortNode k c fl) fl" and c: "node_ok C D S True c" using ShortNode.prems(4) by simp_all
  let ?n = "ShortNode k c fl"
  show ?case
  proof (cases "nf_hash fl")
    case (Some x)
    then show ?thesis using fl ShortNode.prems(4)
      by (auto simp: hash_cached_none hashes_to_def flag_ok_def cell_def ref_loaded)
  next
    case None
    have "hashes_to C D S True c (if is_value c then Ok (c, c, None) else hash_node C h c None False)"
    proof (cases "loaded c")
      case True
      then have "\<not> is_value c" "shape c" using shape_child [OF ShortNode.prems(2)] by (auto simp: is_value_iff)
      then show ?thesis using ShortNode.IH [of True] True ShortNode.prems(3) c by simp
    next
      case nl: False
      then show ?thesis
      proof (cases c)
        case (HashNode x)
        then show ?thesis using c by (simp add: hashes_to_def finish_hash_def hasher_store_def set_hash_def cell_def Let_def)
      next
        case (ValueNode v)
        then show ?thesis by (simp add: hashes_to_def cell_def)
      qed (use nl shape_child [OF ShortNode.prems(2)] in simp_all)
    qed
    then obtain cv kv where r: "(if is_value c then Ok (c, c, None) else hash_node C h c None False) = Ok (cv, kv, None)"
      "bare kv = bare c" "node_ok C D S True kv" "rlp (cell cv) = ref C c"
      and ne: "cv \<noteq> NilNode" using shape_child(1) [OF ShortNode.prems(2)] by (auto simp: hashes_to_def)
    let ?m = "ShortNode (hexToCompact k) cv fl"
    have e: "rlp (node_rval ?m) = enc C ?n" using r(4) ne by (simp add: enc_simps cell_def)
    have l: "length (enc C ?n) < 2 ^ 64" using fits_enc [OF ShortNode.prems(3)] .
    have ek: "enc C (ShortNode k kv fl') = enc C ?n" for fl' using r(2) by (intro enc_bare_eq) simp
    have "hash_node C h ?n None (\<not> below) = finish_hash C h (\<not> below) (?m, ShortNode k kv fl, None)"
      using None r(1) by (simp add: hash_cached_none)
    also have "\<dots> = Ok (hashed_node C (\<not> below) ?m (enc C ?n), set_hash (hashed_node C (\<not> below) ?m (enc C ?n)) False (ShortNode k kv fl), None)"
      using None by (intro finish_hash_none e l) simp_all
    finally have H: "hash_node C h ?n None (\<not> below) = \<dots>" .
    show ?thesis unfolding hashes_to_def H
      using r(2,3) hashed_node_result [of ?n ?m C below] e flag_ok_set [OF fl None ek, of ?m]
      by (simp add: set_hash_Short)
  qed
next
  case (FullNode cs fl)
  have fl: "flag_ok C D S below (FullNode cs fl) fl" and c: "\<forall>c\<in>set cs. node_ok C D S True c" using FullNode.prems(4) by simp_all
  let ?n = "FullNode cs fl"
  show ?case
  proof (cases "nf_hash fl")
    case (Some x)
    then show ?thesis using fl FullNode.prems(4)
      by (auto simp: hash_cached_none hashes_to_def flag_ok_def cell_def ref_loaded)
  next
    case None
    have "hashes_to C D S True c (if c = NilNode then Ok (NilNode, NilNode, None) else hash_node C h c None False)"
      if i: "c \<in> set (take 16 cs)" for c
    proof (cases "loaded c")
      case True
      have "c \<in> set cs" using i by (rule in_set_takeD)
      moreover have "shape c" using shape_Full_child [OF FullNode.prems(2) i] True by auto
      ultimately show ?thesis using FullNode.IH [of c True] True FullNode.prems(3) c by auto
    next
      case False
      then consider "c = NilNode" | x where "c = HashNode x" using shape_Full_child [OF FullNode.prems(2) i] by (cases c) auto
      then show ?thesis
      proof cases
        case 1
        then show ?thesis by (simp add: hashes_to_def cell_def)
      next
        case (2 x)
        have "node_ok C D S True c" using c in_set_takeD [OF i] by blast
        then show ?thesis using 2 by (simp add: hashes_to_def finish_hash_def hasher_store_def set_hash_def cell_def Let_def)
      qed
    qed
    moreover have "\<forall>c\<in>set (drop 16 cs). node_ok C D S True c \<and> rlp (cell c) = ref C c"
    proof -
      have "drop 16 cs = [cs ! 16]" using FullNode.prems(2) Cons_nth_drop_Suc [of 16 cs] by simp
      then show ?thesis using FullNode.prems(2) by (auto simp: cell_def)
    qed
    ultimately obtain ccs kcs where r: "hash_children C h 16 cs None = Ok (ccs, kcs, None)" "map bare kcs = map bare cs"
      "\<forall>c\<in>set kcs. node_ok C D S True c" "map (\<lambda>c. rlp (cell c)) ccs = map (ref C) cs"
      using hash_children_none by blast
    let ?m = "FullNode ccs fl"
    have e: "rlp (node_rval ?m) = enc C ?n" using r(4) by (simp add: node_rval_cells enc_simps comp_def del: node_rval.simps)
    have l: "length (enc C ?n) < 2 ^ 64" using fits_enc [OF FullNode.prems(3)] .
    have ek: "enc C (FullNode kcs fl') = enc C ?n" for fl' using r(2) by (intro enc_bare_eq) simp
    have "hash_node C h ?n None (\<not> below) = finish_hash C h (\<not> below) (?m, FullNode kcs fl, None)"
      using None r(1) by (simp add: hash_cached_none)
    also have "\<dots> = Ok (hashed_node C (\<not> below) ?m (enc C ?n), set_hash (hashed_node C (\<not> below) ?m (enc C ?n)) False (FullNode kcs fl), None)"
      using None by (intro finish_hash_none e l) simp_all
    finally have H: "hash_node C h ?n None (\<not> below) = \<dots>" .
    show ?thesis unfolding hashes_to_def H
      using r(2,3) hashed_node_result [of ?n ?m C below] e flag_ok_set [OF fl None ek, of ?m]
      by (simp add: set_hash_Short)
  qed
qed simp_all

subsection \<open>The hash of a trie\<close>

definition byte_keys :: "node_db \<Rightarrow> node \<Rightarrow> bool" where
  "byte_keys D n \<longleftrightarrow> (\<forall>k v. holds D n k v \<longrightarrow> k \<in> range keybytesToHex)"

definition ok_trie :: "crypto \<Rightarrow> node_db \<Rightarrow> byte list set \<Rightarrow> Trie \<Rightarrow> bool" where
  "ok_trie C D S t \<longleftrightarrow> wf_trie D t \<and> node_ok C D S False (t_root t) \<and> byte_keys D (t_root t)"

lemma byte_keys_same: "same_values D n D' n' \<Longrightarrow> byte_keys D n = byte_keys D' n'"
  by (simp add: byte_keys_def same_values_def)

text \<open>The root hash, from the tree alone.\<close>

definition root_hash :: "crypto \<Rightarrow> node \<Rightarrow> byte list" where
  "root_hash C n = (case n of NilNode \<Rightarrow> emptyRoot | HashNode h \<Rightarrow> h | _ \<Rightarrow> keccak256 C (enc C n))"

lemma root_hash_loaded: "loaded n \<Longrightarrow> root_hash C n = keccak256 C (enc C n)"
  by (cases n) (simp_all add: root_hash_def)

lemma wf_shape:
  assumes "hash_size C" "vault C D S"
  shows "wf_node D n \<Longrightarrow> node_ok C D S below n \<Longrightarrow> shape n"
proof (induction n arbitrary: below)
  case (ShortNode k c fl)
  have "node_ok C D S True c" using ShortNode.prems(2) by simp
  with ShortNode.IH ShortNode.prems(1) show ?case unfolding wf_Short_iff shape.simps by blast
next
  case (FullNode cs fl)
  note W = iffD1 [OF wf_Full_iff FullNode.prems(1)]
  have l: "length cs = 17" using W by (elim conjE)
  have v: "cs ! 16 = NilNode \<or> (\<exists>v. cs ! 16 = ValueNode v \<and> v \<noteq> [])" using W by (elim conjE)
  have w: "\<forall>i<16. cs ! i \<noteq> NilNode \<longrightarrow> wf_node D (cs ! i)" using W by (elim conjE)
  have sh: "shape (cs ! i)" if i: "i < 16" "cs ! i \<noteq> NilNode" for i
  proof -
    have c: "cs ! i \<in> set cs" using i(1) l by simp
    have n: "node_ok C D S True (cs ! i)" using FullNode.prems(2) c by (simp only: node_ok.simps)
    have "wf_node D (cs ! i)" using w i by blast
    from FullNode.IH [OF c this n] show ?thesis .
  qed
  have m: "c = NilNode \<or> is_value c \<or> shape c" if "c \<in> set cs" for c
  proof -
    from that obtain i where i: "i < length cs" "cs ! i = c" unfolding in_set_conv_nth by blast
    show ?thesis
    proof (cases "i < 16")
      case True
      then show ?thesis using sh [of i] i(2) by auto
    next
      case False
      then have "i = 16" using i(1) l by simp
      then show ?thesis using v i(2) by (auto simp: is_value_iff)
    qed
  qed
  have nv: "\<not> is_value (cs ! i)" if "i < 16" for i
    using sh [OF that] by (cases "cs ! i = NilNode") simp_all
  show ?case
  proof (unfold shape.simps, intro conjI ballI allI impI)
    show "c = NilNode \<or> is_value c \<or> shape c" if "c \<in> set cs" for c using that by (rule m)
    show "\<not> is_value (cs ! i)" if "i < 16" for i using that by (rule nv)
  qed (rule l, rule v)
next
  case (HashNode h)
  then have "h \<in> S" by simp
  then obtain m where "keccak256 C (enc C m) = h" using assms(2) by (meson vault_def)
  then show ?case using assms(1) by (auto simp: hash_size_def HashLength_def)
qed simp_all

lemma Trie_Hash_root:
  assumes "hash_size C" "vault C D S" "ok_trie C D S t" "fits C (t_root t)"
  shows "\<exists>n. Trie_Hash C limit t = Ok (root_hash C (t_root t), t\<lparr>t_root := n\<rparr>) \<and> bare n = bare (t_root t) \<and>
     ok_trie C D S (t\<lparr>t_root := n\<rparr>)"
proof (cases "t_root t = NilNode")
  case True
  have "length emptyRoot = HashLength" by (simp add: emptyRoot_def HashLength_def)
  then show ?thesis using True assms(3)
    by (intro exI [of _ NilNode]) (simp add: Trie_Hash_def hashRoot_def as_hash_def root_hash_def BytesToHash_id ok_trie_def wf_trie_def)
next
  case False
  then have w: "wf_node D (t_root t)" "node_ok C D S False (t_root t)" using assms(3) by (auto simp: ok_trie_def wf_trie_def)
  have sh: "shape (t_root t)" using wf_shape [OF assms(1,2) w] .
  show ?thesis
  proof (cases "loaded (t_root t)")
    case True
    let ?h = "trie_hasher limit t None"
    obtain n where n: "hash_node C ?h (t_root t) None True = Ok (HashNode (keccak256 C (enc C (t_root t))), n, None)"
      "bare n = bare (t_root t)" "node_ok C D S False n"
      using hash_node_none [OF True sh assms(4) w(2), of ?h] by (auto simp: hashes_to_def)
    have "length (keccak256 C (enc C (t_root t))) = HashLength" using assms(1) by (simp add: hash_size_def)
    then have "Trie_Hash C limit t = Ok (root_hash C (t_root t), t\<lparr>t_root := n\<rparr>)"
      using False n(1) by (simp add: Trie_Hash_def hashRoot_def as_hash_def root_hash_loaded [OF True] BytesToHash_id)
    moreover have "wf_node D n" using wf_bare_eq [OF n(2)] w(1) by simp
    moreover have "byte_keys D n" using byte_keys_same [OF bare_same [OF n(2)]] assms(3) by (auto simp: ok_trie_def)
    ultimately show ?thesis using n by (auto simp: ok_trie_def wf_trie_def)
  next
    case nl: False
    then obtain h where h: "t_root t = HashNode h" "length h = 32" using sh by (cases "t_root t") auto
    then show ?thesis using assms(3)
      by (intro exI [of _ "HashNode h"])
        (simp add: Trie_Hash_def hashRoot_def as_hash_def root_hash_def finish_hash_def hasher_store_def set_hash_def Let_def
          BytesToHash_id HashLength_def ok_trie_def wf_trie_def)
  qed
qed

subsection \<open>Operations keep the caches right\<close>

lemma ok_TryGet:
  assumes "vault C D S" "ok_trie C D S t" shows "ok_trie C D S (snd (TryGet D t key))"
proof -
  obtain v t' where g: "TryGet D t key = (Inr v, t')" "wf_trie D t'" "unfolds D (t_root t) (t_root t')"
    using TryGet_finds assms(2) by (metis ok_trie_def)
  have "node_ok C D S False (t_root t')"
  proof (cases "tryGet D (t_cachegen t) (walk_fuel (keybytesToHex key)) (t_root t) (keybytesToHex key) 0")
    case (Inl e)
    then show ?thesis using g(1) by (simp add: TryGet_def)
  next
    case (Inr x)
    obtain a n' r where x: "x = (a, n', r)" by (cases x)
    have "node_ok C D S False n'" using tryGet_ok [OF assms(1), of "t_cachegen t"] Inr x assms(2) by (auto simp: ok_trie_def)
    then show ?thesis using g(1) Inr x assms(2) by (auto simp: TryGet_def ok_trie_def split: if_splits)
  qed
  moreover have "byte_keys D (t_root t')" using byte_keys_same [OF unfolds_same [OF g(3)]] assms(2) by (simp add: ok_trie_def)
  ultimately show ?thesis using g by (simp add: ok_trie_def)
qed

lemma ok_TryDelete:
  assumes "vault C D S" "ok_trie C D S t" shows "ok_trie C D S (snd (TryDelete D t key))"
proof -
  let ?k = "keybytesToHex key" and ?n = "t_root t"
  have t: "wf_trie D t" "byte_keys D ?n" "node_ok C D S False ?n" using assms(2) by (simp_all add: ok_trie_def)
  obtain dirty n' where d: "delete_node D (t_cachegen t) (walk_fuel ?k) ?n [] ?k = Inr (dirty, n')" "deleted D ?n n' ?k"
    using delete_correct [OF wf_trie_at [OF t(1)] fuel_enough] by blast
  have "wf_trie D (t\<lparr>t_root := n'\<rparr>)" using d(2) wf_trie_node by (auto simp: deleted_def)
  moreover have "byte_keys D n'" using d(2) t(2) by (auto simp: deleted_def byte_keys_def)
  moreover have "node_ok C D S False n'" using delete_node_ok [OF assms(1) d(1) t(3)] .
  ultimately show ?thesis using d(1) by (simp add: TryDelete_def ok_trie_def)
qed

lemma ok_TryUpdate:
  assumes "vault C D S" "ok_trie C D S t" shows "ok_trie C D S (snd (TryUpdate D t key v))"
proof (cases "v = []")
  case True
  then show ?thesis using ok_TryDelete [OF assms] by (simp add: TryUpdate_def)
next
  case False
  let ?k = "keybytesToHex key" and ?n = "t_root t"
  have t: "wf_trie D t" "byte_keys D ?n" "node_ok C D S False ?n" using assms(2) by (simp_all add: ok_trie_def)
  obtain dirty n' where d: "insert_node D (t_cachegen t) (walk_fuel ?k) ?n [] ?k (ValueNode v) = Inr (dirty, n')"
    "inserted D ?n n' ?k v"
    using insert_correct [OF wf_trie_at [OF t(1)] False fuel_enough] by blast
  have "wf_trie D (t\<lparr>t_root := n'\<rparr>)" using d(2) wf_trie_node by (auto simp: inserted_def)
  moreover have "byte_keys D n'" using d(2) t(2) by (auto simp: inserted_def byte_keys_def)
  moreover have "node_ok C D S False n'" using insert_node_ok [OF assms(1) d(1) t(3)] by simp
  ultimately show ?thesis using d(1) False by (simp add: TryUpdate_def ok_trie_def)
qed

lemma ok_empty: "ok_trie C D S \<lparr>t_root = NilNode, t_cachegen = g\<rparr>"
  by (simp add: ok_trie_def wf_trie_def byte_keys_def)

end
