(* ===== verification/Trie_Merkle.thy ===== *)
theory Trie_Merkle
  imports Trie_Hashing
begin

section \<open>The root hash and the map: dvm/ethereum/trie\<close>

text \<open>
  The root hash depends on the map alone (\<open>enc_canonical\<close>: nodes with the same values have the same encoding, whatever
  is loaded or cached), and the map on the root hash alone as long as no two encodings in play collide
  (\<open>enc_values\<close>). \<open>part\<close> are the nodes of a tree with those to load.
\<close>

text \<open>The hash nodes, loaded.\<close>

definition res :: "node_db \<Rightarrow> node \<Rightarrow> node" where
  "res D n = (case n of HashNode h \<Rightarrow> the (D h) | _ \<Rightarrow> n)"

lemma res_loaded [simp]: "loaded n \<Longrightarrow> res D n = n"
  by (cases n) (simp_all add: res_def)

lemma res_facts:
  assumes "vault C D S" "wf_node D n" "node_ok C D S below n"
  shows "loaded (res D n)" "wf_node D (res D n)" "same_values D n D (res D n)"
    "node_ok C D S below (res D n)" "root_hash C n = keccak256 C (enc C (res D n))"
    "below \<Longrightarrow> ref C n = (if length (enc C (res D n)) < 32 then enc C (res D n) else rlp_string (keccak256 C (enc C (res D n))))"
proof -
  have "loaded (res D n) \<and> wf_node D (res D n) \<and> same_values D n D (res D n) \<and> node_ok C D S below (res D n) \<and>
     root_hash C n = keccak256 C (enc C (res D n)) \<and> (below \<longrightarrow> ref C n = ref C (res D n))"
  proof (cases n)
    case (HashNode h)
    then obtain m where m: "D h = Some m" "loaded m" "wf_node D m" "keccak256 C (enc C m) = h" "node_ok C D S below m"
      "below \<Longrightarrow> ref C (HashNode h) = ref C m" using vault_load [OF assms(1), of below h] assms(3) by blast
    then show ?thesis using HashNode by (simp add: res_def same_values_def holds_Hash_iff root_hash_def)
  qed (use assms in \<open>simp_all add: root_hash_def\<close>)
  then show "loaded (res D n)" "wf_node D (res D n)" "same_values D n D (res D n)" "node_ok C D S below (res D n)"
    "root_hash C n = keccak256 C (enc C (res D n))"
    "below \<Longrightarrow> ref C n = (if length (enc C (res D n)) < 32 then enc C (res D n) else rlp_string (keccak256 C (enc C (res D n))))"
    by (auto simp: ref_loaded)
qed

subsection \<open>The root hash depends on the values only\<close>

lemma wf_holds: "wf_node D n \<Longrightarrow> \<exists>k v. holds D n k v"
proof (induction rule: wf_node.induct)
  case (wf_leaf k v fl)
  then show ?case by (auto simp: holds_Short_iff)
next
  case (wf_short k c fl)
  then show ?case by (auto simp: holds_Short_iff)
next
  case (wf_full cs fl)
  have "children cs \<noteq> {}" using wf_full(4) by auto
  then obtain i where i: "i < 17" "cs ! i \<noteq> NilNode" by (auto simp: children_def)
  obtain k v where "holds D (cs ! i) k v"
  proof (cases "i < 16")
    case True
    then show ?thesis using wf_full.IH [OF True i(2)] that by blast
  next
    case False
    then have "i = 16" using i(1) by simp
    then show ?thesis using wf_full(3) i that by auto
  qed
  then have "holds D (FullNode cs fl) (word_of_nat i # k) v" using i wf_full(1) by (simp add: holds_Full_iff unat_of_nat)
  then show ?case by blast
next
  case (wf_hash h n)
  then show ?case by (auto simp: holds_Hash_iff)
qed

lemma full_child_holds:
  assumes "wf_node D (FullNode cs fl)" "i < 17" "cs ! i \<noteq> NilNode"
  shows "\<exists>k v. holds D (FullNode cs fl) (word_of_nat i # k) v"
proof -
  note W = iffD1 [OF wf_Full_iff assms(1)]
  obtain k v where "holds D (cs ! i) k v"
  proof (cases "i < 16")
    case True
    then show ?thesis using wf_holds W assms(3) that by blast
  next
    case False
    then have "i = 16" using assms(2) by simp
    then show ?thesis using W assms(3) that by auto
  qed
  moreover have "unat (word_of_nat i :: byte) = i" using assms(2) by (simp add: unat_of_nat)
  ultimately show ?thesis using assms(2) W by (auto simp: holds_Full_iff)
qed

lemma full_parts:
  assumes "wf_node D (FullNode cs fl)"
  shows "\<exists>a b k l v w. a \<noteq> b \<and> holds D (FullNode cs fl) (a # k) v \<and> holds D (FullNode cs fl) (b # l) w"
proof -
  have "2 \<le> card (children cs)" using assms by (simp only: wf_Full_iff)
  then obtain i j where ij: "i \<in> children cs" "j \<in> children cs" "i \<noteq> j"
    by (metis card_le_Suc0_iff_eq finite_children not_less_eq_eq numeral_2_eq_2)
  then have l: "i < 17" "j < 17" "cs ! i \<noteq> NilNode" "cs ! j \<noteq> NilNode" by (auto simp: children_def)
  then have "(word_of_nat i :: byte) \<noteq> word_of_nat j" using ij(3) by (simp add: word_unat_eq_iff unat_of_nat)
  then show ?thesis using full_child_holds [OF assms l(1,3)] full_child_holds [OF assms l(2,4)] by blast
qed

lemma branching_parts:
  assumes "wf_node D n" "branching D n"
  shows "\<exists>a b k l v w. a \<noteq> b \<and> holds D n (a # k) v \<and> holds D n (b # l) w"
proof (cases n)
  case (FullNode cs fl)
  then show ?thesis using full_parts assms(1) by blast
next
  case (HashNode h)
  then obtain cs fl where "D h = Some (FullNode cs fl)" using assms(2) by (auto split: option.splits node.splits)
  then show ?thesis using full_parts [of D cs fl] assms(1) HashNode by (auto simp: wf_Hash_iff holds_Hash_iff)
qed (use assms in auto)

lemma common_prefix:
  assumes "p @ a # k = q @ x" "p @ b # l = q @ y" "a \<noteq> b" shows "\<exists>r. p = q @ r"
proof (cases "length q \<le> length p")
  case True
  then show ?thesis using assms(1) by (metis append_eq_append_conv_if append_take_drop_id)
next
  case False
  then have "q ! length p = a" "q ! length p = b"
    using assms(1,2) by (metis nth_append nth_append_length not_le_imp_less)+
  then show ?thesis using assms(3) by simp
qed

lemma wf_Short_cases:
  assumes "wf_node D (ShortNode p c fl)"
  obtains (leaf) v where "c = ValueNode v" "v \<noteq> []" | (ext) "wf_node D c" "\<not> is_value c" "p \<noteq> []"
    "\<exists>a b k l v w. a \<noteq> b \<and> holds D c (a # k) v \<and> holds D c (b # l) w"
  using iffD1 [OF wf_Short_iff assms]
proof (elim disjE exE conjE)
  fix v assume "c = ValueNode v" "v \<noteq> []" then show thesis by (rule leaf)
next
  assume c: "p \<noteq> []" "branching D c" "wf_node D c"
  have "\<not> is_value c" using c(3) by (auto simp: is_value_iff)
  then show thesis using ext [OF c(3) _ c(1) branching_parts [OF c(3,2)]] by blast
qed

text \<open>Two nodes with the same values have the same form.\<close>

lemma short_key_prefix:
  assumes "wf_node D (ShortNode p c fl)" "\<not> is_value c" "same_values D (ShortNode p c fl) D' (ShortNode q d fl')"
  shows "\<exists>r. p = q @ r"
  using assms(1)
proof (cases rule: wf_Short_cases)
  case ext
  then obtain a b k l v w where p: "a \<noteq> b" "holds D c (a # k) v" "holds D c (b # l) w" by blast
  have "holds D (ShortNode p c fl) (p @ a # k) v" "holds D (ShortNode p c fl) (p @ b # l) w"
    using p by (auto simp: holds_Short_iff)
  then have "holds D' (ShortNode q d fl') (p @ a # k) v" "holds D' (ShortNode q d fl') (p @ b # l) w"
    using assms(3) by (simp_all add: same_values_def)
  then obtain x y where "p @ a # k = q @ x" "p @ b # l = q @ y" by (auto simp: holds_Short_iff)
  then show ?thesis using common_prefix p(1) by metis
qed (use assms(2) in simp)

lemma leaf_same:
  assumes "wf_node D (ShortNode p c fl)" "same_values D' (ShortNode q (ValueNode w) fl') D (ShortNode p c fl)"
  shows "p = q \<and> c = ValueNode w"
  using assms(1)
proof (cases rule: wf_Short_cases)
  case (leaf v)
  have "holds D (ShortNode p c fl) p v" using leaf by (auto simp: holds_Short_iff)
  then have "holds D' (ShortNode q (ValueNode w) fl') p v" using assms(2) by (simp add: same_values_def)
  then show ?thesis using leaf by (auto simp: holds_Short_iff)
next
  case ext
  then obtain a b k l v u where p: "a \<noteq> b" "holds D c (a # k) v" "holds D c (b # l) u" by blast
  have "holds D (ShortNode p c fl) (p @ a # k) v" "holds D (ShortNode p c fl) (p @ b # l) u"
    using p by (auto simp: holds_Short_iff)
  then have "holds D' (ShortNode q (ValueNode w) fl') (p @ a # k) v" "holds D' (ShortNode q (ValueNode w) fl') (p @ b # l) u"
    using assms(2) by (simp_all add: same_values_def)
  then have "p @ a # k = p @ b # l" by (auto simp: holds_Short_iff)
  then show ?thesis using p(1) by simp
qed

lemma same_short:
  assumes "wf_node D1 (ShortNode p c fl)" "wf_node D2 (ShortNode q d fl')"
    "same_values D1 (ShortNode p c fl) D2 (ShortNode q d fl')"
  shows "p = q" "same_values D1 c D2 d" "is_value c \<longleftrightarrow> is_value d"
proof -
  have pv: "p = q \<and> (is_value c \<longleftrightarrow> is_value d)"
  proof (cases "is_value c \<or> is_value d")
    case True
    then consider w where "c = ValueNode w" | w where "d = ValueNode w" by (auto simp: is_value_iff)
    then show ?thesis
    proof cases
      case (1 w)
      then show ?thesis using leaf_same [OF assms(2), of D1 p w fl] assms(3) by simp
    next
      case (2 w)
      then show ?thesis using leaf_same [OF assms(1), of D2 q w fl'] same_values_sym [OF assms(3)] by simp
    qed
  next
    case False
    then obtain r r' where "p = q @ r" "q = p @ r'"
      using short_key_prefix [OF assms(1)] short_key_prefix [OF assms(2)] assms(3) same_values_sym [OF assms(3)] by meson
    then show ?thesis using False by simp
  qed
  then show "p = q" "is_value c \<longleftrightarrow> is_value d" by simp_all
  show "same_values D1 c D2 d" unfolding same_values_def
  proof (intro allI)
    fix k v
    have "holds D1 (ShortNode p c fl) (p @ k) v \<longleftrightarrow> holds D2 (ShortNode q d fl') (p @ k) v"
      using assms(3) by (simp add: same_values_def)
    then show "holds D1 c k v \<longleftrightarrow> holds D2 d k v" using pv by (auto simp: holds_Short_iff)
  qed
qed

lemma short_full_differ:
  assumes "wf_node D1 (ShortNode p c fl)" "wf_node D2 (FullNode cs fl')"
  shows "\<not> same_values D1 (ShortNode p c fl) D2 (FullNode cs fl')"
proof
  assume s: "same_values D1 (ShortNode p c fl) D2 (FullNode cs fl')"
  obtain a b k l v w where p: "a \<noteq> b" "holds D2 (FullNode cs fl') (a # k) v" "holds D2 (FullNode cs fl') (b # l) w"
    using full_parts [OF assms(2)] by blast
  then have "holds D1 (ShortNode p c fl) (a # k) v" "holds D1 (ShortNode p c fl) (b # l) w"
    using s by (simp_all add: same_values_def)
  then obtain x y where "a # k = p @ x" "b # l = p @ y" by (auto simp: holds_Short_iff)
  moreover have "p \<noteq> []" using iffD1 [OF wf_Short_iff assms(1)] by auto
  ultimately show False using p(1) by (cases p) auto
qed

lemma holds_child:
  assumes "length cs = 17" "i < 17" shows "holds D (FullNode cs fl) (word_of_nat i # k) v \<longleftrightarrow> holds D (cs ! i) k v"
proof -
  have "unat (word_of_nat i :: byte) = i" using assms(2) by (simp add: unat_of_nat)
  then show ?thesis using assms by (simp add: holds_Full_iff)
qed

lemma same_full:
  assumes "length cs = 17" "length ds = 17" "same_values D1 (FullNode cs fl) D2 (FullNode ds fl')" "i < 17"
  shows "same_values D1 (cs ! i) D2 (ds ! i)"
  unfolding same_values_def
proof (intro allI)
  fix k v
  show "holds D1 (cs ! i) k v \<longleftrightarrow> holds D2 (ds ! i) k v"
    using assms(3) holds_child [OF assms(1,4), of D1 fl k v] holds_child [OF assms(2,4), of D2 fl' k v]
    by (simp add: same_values_def)
qed

lemma ok_child_same:
  assumes "ok_child D1 i c" "ok_child D2 i d" "same_values D1 c D2 d"
  shows "c = NilNode \<longleftrightarrow> d = NilNode" "c = ValueNode v \<longleftrightarrow> d = ValueNode v"
proof -
  have h: "x = NilNode \<longleftrightarrow> \<not> (\<exists>k v. holds D x k v)" if "ok_child D i x" for D x
    using that wf_holds by (auto simp: ok_child_def split: if_splits)
  show n: "c = NilNode \<longleftrightarrow> d = NilNode" using h [OF assms(1)] h [OF assms(2)] assms(3) by (simp add: same_values_def)
  have v: "x = ValueNode v \<longleftrightarrow> holds D x [] v" if "ok_child D i x" for D x
    using that holds_hexkey [of D x "[]" v] by (auto simp: ok_child_def split: if_splits)
  show "c = ValueNode v \<longleftrightarrow> d = ValueNode v" using v [OF assms(1)] v [OF assms(2)] assms(3) by (simp add: same_values_def)
qed

text \<open>The children that are no values stand in nodes of their own: their references are equal when their encodings are.\<close>

lemma ref_same:
  assumes "vault C D1 S1" "vault C D2 S2" "wf_node D1 c" "wf_node D2 d" "node_ok C D1 S1 True c" "node_ok C D2 S2 True d"
    "enc C (res D1 c) = enc C (res D2 d)"
  shows "ref C c = ref C d"
  using res_facts(6) [OF assms(1,3,5)] res_facts(6) [OF assms(2,4,6)] assms(7) by simp

lemma enc_canonical:
  assumes "vault C D1 S1" "vault C D2 S2"
  shows "wf_node D1 n1 \<Longrightarrow> wf_node D2 n2 \<Longrightarrow> node_ok C D1 S1 b1 n1 \<Longrightarrow> node_ok C D2 S2 b2 n2 \<Longrightarrow>
     same_values D1 n1 D2 n2 \<Longrightarrow> enc C (res D1 n1) = enc C (res D2 n2)"
proof (induction arbitrary: n2 b1 b2 rule: wf_node.induct)
  case (wf_hash h n)
  have "node_ok C D1 S1 False n" "same_values D1 n D2 n2"
    using wf_hash assms(1) by (auto simp: vault_def same_values_def holds_Hash_iff dest: bspec)
  then have "enc C (res D1 n) = enc C (res D2 n2)" using wf_hash by blast
  moreover have "res D1 (HashNode h) = n" using wf_hash(1) by (simp add: res_def)
  ultimately show ?case using res_loaded [OF wf_hash(2), of D1] by simp
next
  case (wf_leaf k v fl)
  note m = res_facts [OF assms(2) wf_leaf(3,5)]
  have w1: "wf_node D1 (ShortNode k (ValueNode v) fl)" using wf_leaf(1,2) by (rule wf_node.wf_leaf)
  have s: "same_values D1 (ShortNode k (ValueNode v) fl) D2 (res D2 n2)" using same_values_trans [OF wf_leaf(6) m(3)] .
  show ?case
  proof (cases "res D2 n2")
    case (ShortNode q d fl')
    then have "q = k \<and> d = ValueNode v" using leaf_same m(2) s by metis
    then show ?thesis using ShortNode by (simp add: enc_simps)
  next
    case (FullNode ds fl')
    then show ?thesis using short_full_differ [OF w1] m(2) s by metis
  qed (use m(1) in simp_all)
next
  case (wf_short k c fl)
  note m = res_facts [OF assms(2) wf_short.prems(1,3)]
  have w1: "wf_node D1 (ShortNode k c fl)" using wf_short.hyps by (intro wf_node.wf_short)
  have s: "same_values D1 (ShortNode k c fl) D2 (res D2 n2)" using same_values_trans [OF wf_short.prems(4) m(3)] .
  have nv: "\<not> is_value c" using wf_short.hyps(4) by (auto simp: is_value_iff)
  show ?case
  proof (cases "res D2 n2")
    case (ShortNode q d fl')
    have w2: "wf_node D2 (ShortNode q d fl')" and o2: "node_ok C D2 S2 b2 (ShortNode q d fl')" using m(2,4) ShortNode by simp_all
    note k = same_short [OF w1 w2 s [unfolded ShortNode]]
    have w: "wf_node D2 d" using iffD1 [OF wf_Short_iff w2] k(3) nv by (auto simp: is_value_iff)
    have o: "node_ok C D1 S1 True c" "node_ok C D2 S2 True d" using wf_short.prems(2) o2 by simp_all
    have "enc C (res D1 c) = enc C (res D2 d)" using wf_short.IH [OF w o k(2)] .
    then have "ref C c = ref C d" using ref_same [OF assms wf_short.hyps(4) w o] by simp
    then show ?thesis using ShortNode k(1) by (simp add: enc_simps)
  next
    case (FullNode ds fl')
    then show ?thesis using short_full_differ [OF w1] m(2) s by metis
  qed (use m(1) in simp_all)
next
  case (wf_full cs fl)
  note m = res_facts [OF assms(2) wf_full.prems(1,3)]
  have w1: "wf_node D1 (FullNode cs fl)" using wf_full.hyps by (intro wf_node.wf_full)
  have s: "same_values D1 (FullNode cs fl) D2 (res D2 n2)" using same_values_trans [OF wf_full.prems(4) m(3)] .
  show ?case
  proof (cases "res D2 n2")
    case (ShortNode q d fl')
    then show ?thesis using short_full_differ [of D2 q d fl' D1 cs fl] w1 m(2) same_values_sym [OF s] by metis
  next
    case (FullNode ds fl')
    have w2: "wf_node D2 (FullNode ds fl')" and o2: "node_ok C D2 S2 b2 (FullNode ds fl')" using m(2,4) FullNode by simp_all
    have l: "length cs = 17" "length ds = 17" using w1 w2 unfolding wf_Full_iff by blast+
    have "ref C (cs ! i) = ref C (ds ! i)" if i: "i < 17" for i
    proof -
      have sv: "same_values D1 (cs ! i) D2 (ds ! i)" using same_full [OF l s [unfolded FullNode] i] .
      have ok: "ok_child D1 i (cs ! i)" "ok_child D2 i (ds ! i)" using w1 w2 i by (simp_all only: wf_Full_children)
      note nv = ok_child_same [OF ok sv]
      have o: "node_ok C D1 S1 True (cs ! i)" "node_ok C D2 S2 True (ds ! i)" using wf_full.prems(2) o2 i l by simp_all
      show ?thesis
      proof (cases "cs ! i = NilNode \<or> is_value (cs ! i)")
        case True
        then consider "cs ! i = NilNode" | v where "cs ! i = ValueNode v" by (auto simp: is_value_iff)
        then have "ds ! i = cs ! i" by cases (metis nv(1), metis nv(2))
        then show ?thesis by simp
      next
        case False
        have i16: "i < 16" using ok(1) False by (auto simp: ok_child_def split: if_splits)
        then have w: "wf_node D1 (cs ! i)" "wf_node D2 (ds ! i)" using ok nv(1) False by (simp_all add: ok_child_def)
        have "cs ! i \<noteq> NilNode" using False by simp
        from wf_full.IH [OF i16 this w(2) o sv] ref_same [OF assms w o] show ?thesis by simp
      qed
    qed
    then have "map (ref C) cs = map (ref C) ds" using l by (intro nth_equalityI) simp_all
    then show ?thesis using FullNode by (simp add: enc_simps)
  qed (use m(1) in simp_all)
qed


subsection \<open>The values depend on the root hash only\<close>

text \<open>
  The nodes of a tree, with those to load. No two of them may have the same hash with different encodings.
\<close>

inductive part :: "node_db \<Rightarrow> node \<Rightarrow> node \<Rightarrow> bool" for D where
  part_self: "loaded n \<Longrightarrow> part D n n"
| part_short: "part D c m \<Longrightarrow> part D (ShortNode k c fl) m"
| part_full: "c \<in> set cs \<Longrightarrow> part D c m \<Longrightarrow> part D (FullNode cs fl) m"
| part_hash: "D h = Some n \<Longrightarrow> part D n m \<Longrightarrow> part D (HashNode h) m"

definition no_collision :: "crypto \<Rightarrow> (node \<Rightarrow> bool) \<Rightarrow> (node \<Rightarrow> bool) \<Rightarrow> bool" where
  "no_collision C P Q \<longleftrightarrow> (\<forall>m1 m2. P m1 \<longrightarrow> Q m2 \<longrightarrow> keccak256 C (enc C m1) = keccak256 C (enc C m2) \<longrightarrow> enc C m1 = enc C m2)"

definition sized :: "crypto \<Rightarrow> node_db \<Rightarrow> node \<Rightarrow> bool" where
  "sized C D n \<longleftrightarrow> (\<forall>m. part D n m \<longrightarrow> length (enc C m) < 2 ^ 64)"

lemma part_res: "loaded (res D n) \<Longrightarrow> wf_node D n \<Longrightarrow> part D n (res D n)"
proof (cases n)
  case (HashNode h)
  assume "wf_node D n"
  then obtain m where "D h = Some m" "loaded m" using HashNode by (auto simp: wf_Hash_iff)
  then show ?thesis using HashNode part_hash [OF _ part_self] by (simp add: res_def)
qed (simp_all add: part_self)

lemma part_resI: "wf_node D n \<Longrightarrow> part D (res D n) m \<Longrightarrow> part D n m"
  by (cases n) (auto simp: res_def wf_Hash_iff intro: part.intros)

lemma sized_child:
  "sized C D (ShortNode k c fl) \<Longrightarrow> sized C D c"
  "sized C D (FullNode cs fl) \<Longrightarrow> c \<in> set cs \<Longrightarrow> sized C D c"
  by (auto simp: sized_def intro: part.intros)

lemma sized_enc: "sized C D n \<Longrightarrow> loaded n \<Longrightarrow> length (enc C n) < 2 ^ 64"
  by (simp add: sized_def part_self)

lemma sized_res: "wf_node D n \<Longrightarrow> sized C D n \<Longrightarrow> sized C D (res D n)"
  by (auto simp: sized_def intro: part_resI)

lemma sized_fits: "sized C D n \<Longrightarrow> fits C n"
proof (induction n)
  case (ShortNode k c fl)
  then show ?case using sized_enc sized_child(1) by (metis fits.simps(1) loaded_simps(1))
next
  case (FullNode cs fl)
  then show ?case using sized_enc sized_child(2) by (metis fits.simps(2) loaded_simps(2))
qed simp_all

lemma no_collision_sub:
  "no_collision C P Q \<Longrightarrow> (\<And>m. P' m \<Longrightarrow> P m) \<Longrightarrow> (\<And>m. Q' m \<Longrightarrow> Q m) \<Longrightarrow> no_collision C P' Q'"
  unfolding no_collision_def by blast

lemma two_items:
  assumes "length a < 2 ^ 64" "length b < 2 ^ 64" "is_item x" "is_item y" "rlp_string a @ x = rlp_string b @ y"
  shows "a = b" "x = y"
proof -
  have "rlp_string a = rlp_string b \<and> x = y"
    using item_first [OF is_item_string is_item_string assms(5)] assms(1,2) by blast
  then show "a = b" "x = y" using rlp_string_inj assms(1,2) by blast+
qed

lemma shape_refs:
  assumes "hash_size C" "fits C (FullNode cs fl)" "c \<in> set cs" shows "is_item (ref C c)"
proof -
  have "length (enc C (FullNode cs fl)) < 2 ^ 64" "fits C c" using assms(2,3) by simp_all
  then show ?thesis using ref_is_item [OF assms(1)] enc_Full_bounds(2) assms(3) by blast
qed

lemma short_full_enc:
  assumes "hash_size C" "fits C (ShortNode k c fl)" "fits C (FullNode cs fl')" "length cs = 17"
  shows "enc C (ShortNode k c fl) \<noteq> enc C (FullNode cs fl')"
proof
  assume e: "enc C (ShortNode k c fl) = enc C (FullNode cs fl')"
  let ?p = "rlp_string (hexToCompact k) @ ref C c" and ?q = "concat (map (ref C) cs)"
  have l: "length (enc C (ShortNode k c fl)) < 2 ^ 64" "length (enc C (FullNode cs fl')) < 2 ^ 64" "fits C c"
    using assms(2,3) by simp_all
  have pq: "?p = ?q" using e rlp_list_inj [OF enc_Short_bounds(1) [OF l(1)] enc_Full_bounds(1) [OF l(2)]] by (simp add: enc_simps)
  have "CountValues (concat [rlp_string (hexToCompact k), ref C c]) = Inr (length [rlp_string (hexToCompact k), ref C c])"
    using enc_Short_bounds [OF l(1)] ref_is_item [OF assms(1) l(3)]
    by (intro CountValues_items) (simp add: is_item_string)
  moreover have "CountValues ?q = Inr (length (map (ref C) cs))"
    using shape_refs [OF assms(1,3)] by (intro CountValues_items) (simp add: list_all_iff)
  ultimately show False using pq assms(4) by simp
qed

lemma enc_list:
  assumes "loaded m" "length (enc C m) < 2 ^ 64" shows "\<exists>q. enc C m = rlp_list q \<and> length q < 2 ^ 64"
proof -
  obtain q where "enc C m = rlp_list q" using assms(1) by (cases m) (auto simp: enc_simps loaded_def)
  then show ?thesis using assms(2) length_rlp_list(1) [of q] by auto
qed

lemma ref_inj:
  assumes "hash_size C" "vault C D1 S1" "vault C D2 S2" "wf_node D1 c" "wf_node D2 d" "node_ok C D1 S1 True c"
    "node_ok C D2 S2 True d" "sized C D1 c" "sized C D2 d" "no_collision C (part D1 c) (part D2 d)" "ref C c = ref C d"
  shows "enc C (res D1 c) = enc C (res D2 d)"
proof -
  let ?e1 = "enc C (res D1 c)" and ?e2 = "enc C (res D2 d)"
  note f1 = res_facts [OF assms(2,4,6)] and f2 = res_facts [OF assms(3,5,7)]
  have p: "part D1 c (res D1 c)" "part D2 d (res D2 d)" using part_res f1(1) f2(1) assms(4,5) by blast+
  have l: "length ?e1 < 2 ^ 64" "length ?e2 < 2 ^ 64" using p assms(8,9) by (simp_all add: sized_def)
  obtain q1 q2 where q: "?e1 = rlp_list q1" "?e2 = rlp_list q2" "length q1 < 2 ^ 64" "length q2 < 2 ^ 64"
    using enc_list [OF f1(1) l(1)] enc_list [OF f2(1) l(2)] by blast
  have h: "length (keccak256 C b) < 2 ^ 64" for b using assms(1) by (simp add: hash_size_def HashLength_def)
  have r: "(if length ?e1 < 32 then ?e1 else rlp_string (keccak256 C ?e1)) = (if length ?e2 < 32 then ?e2 else rlp_string (keccak256 C ?e2))"
    using f1(6) f2(6) assms(11) by simp
  consider "?e1 = ?e2" | b where "rlp_list q1 = rlp_string (keccak256 C b)" | b where "rlp_string (keccak256 C b) = rlp_list q2"
    | "rlp_string (keccak256 C ?e1) = rlp_string (keccak256 C ?e2)"
    using r q(1,2) by metis
  then show ?thesis
  proof cases
    case (2 b)
    then show ?thesis using string_not_list [OF h q(3)] by metis
  next
    case (3 b)
    then show ?thesis using string_not_list [OF h q(4)] by metis
  next
    case 4
    then have "keccak256 C ?e1 = keccak256 C ?e2" using rlp_string_inj [OF h h] by blast
    then show ?thesis using assms(10) p unfolding no_collision_def by blast
  qed
qed

lemma ref_not_Nil:
  assumes "hash_size C" "vault C D S" "wf_node D c" "node_ok C D S True c" "sized C D c"
  shows "ref C c \<noteq> rlp_string []"
proof
  assume e: "ref C c = rlp_string []"
  note f = res_facts [OF assms(2-4)]
  have l: "length (enc C (res D c)) < 2 ^ 64" using part_res [OF f(1) assms(3)] assms(5) by (simp add: sized_def)
  obtain q where q: "enc C (res D c) = rlp_list q" and lq: "length q < 2 ^ 64" using enc_list [OF f(1) l] by blast
  have h: "length (keccak256 C b) = 32" for b using assms(1) by (simp add: hash_size_def HashLength_def)
  show False
  proof (cases "length (enc C (res D c)) < 32")
    case True
    then show False using f(6) e q string_not_list [OF _ lq, of "[]"] by simp
  next
    case False
    then have "rlp_string (keccak256 C (enc C (res D c))) = rlp_string []" using f(6) e by simp
    moreover have "length (keccak256 C (enc C (res D c))) < 2 ^ 64" "length ([] :: byte list) < 2 ^ 64" using h by simp_all
    ultimately have "keccak256 C (enc C (res D c)) = []" using rlp_string_inj by blast
    then show False using h [of "enc C (res D c)"] by simp
  qed
qed

lemma short_enc_eq:
  assumes "hash_size C" "shape (ShortNode k c fl)" "fits C (ShortNode k c fl)" "shape (ShortNode q d fl')"
    "fits C (ShortNode q d fl')" "enc C (ShortNode k c fl) = enc C (ShortNode q d fl')"
  shows "k = q \<and> (is_value c \<longleftrightarrow> is_value d) \<and> ref C c = ref C d"
proof -
  have l: "length (enc C (ShortNode k c fl)) < 2 ^ 64" "fits C c" "length (enc C (ShortNode q d fl')) < 2 ^ 64" "fits C d"
    using assms(3,5) by simp_all
  note b1 = enc_Short_bounds [OF l(1)] and b2 = enc_Short_bounds [OF l(3)]
  have "rlp_string (hexToCompact k) @ ref C c = rlp_string (hexToCompact q) @ ref C d"
    using rlp_list_inj [OF b1(1) b2(1)] assms(6) by (simp add: enc_simps)
  from two_items [OF b1(2) b2(2) ref_is_item [OF assms(1) l(2) b1(3)] ref_is_item [OF assms(1) l(4) b2(3)] this]
  have "hexToCompact k = hexToCompact q" "ref C c = ref C d" .
  then show ?thesis using shape_key(2,3) [OF assms(2)] shape_key(2,3) [OF assms(4)] by metis
qed

lemma full_enc_eq:
  assumes "hash_size C" "fits C (FullNode cs fl)" "fits C (FullNode ds fl')" "enc C (FullNode cs fl) = enc C (FullNode ds fl')"
  shows "map (ref C) cs = map (ref C) ds"
proof (rule items_inj)
  have l: "length (enc C (FullNode cs fl)) < 2 ^ 64" "length (enc C (FullNode ds fl')) < 2 ^ 64" using assms(2,3) by simp_all
  show "concat (map (ref C) cs) = concat (map (ref C) ds)"
    using rlp_list_inj [OF enc_Full_bounds(1) [OF l(1)] enc_Full_bounds(1) [OF l(2)]] assms(4) by (simp add: enc_simps)
qed (use shape_refs [OF assms(1,2)] shape_refs [OF assms(1,3)] in \<open>simp_all add: list_all_iff\<close>)

lemma value_ref_inj:
  assumes "c = NilNode \<or> (\<exists>v. c = ValueNode v \<and> v \<noteq> [])" "d = NilNode \<or> (\<exists>v. d = ValueNode v \<and> v \<noteq> [])"
    "length (ref C c) < 2 ^ 64" "length (ref C d) < 2 ^ 64" "ref C c = ref C d"
  shows "c = d"
proof -
  have r: "\<exists>b. ref C x = rlp_string b \<and> x = (if b = [] then NilNode else ValueNode b) \<and> length b < 2 ^ 64"
    if "x = NilNode \<or> (\<exists>v. x = ValueNode v \<and> v \<noteq> [])" "length (ref C x) < 2 ^ 64" for x
    using that(1)
  proof (elim disjE exE conjE)
    assume "x = NilNode"
    then show ?thesis by (intro exI [of _ "[]"]) (simp del: rlp_string_Nil)
  next
    fix v assume v: "x = ValueNode v" "v \<noteq> []"
    then show ?thesis using that(2) length_rlp_string(1) [of v] by (intro exI [of _ v]) simp
  qed
  show ?thesis using r [OF assms(1,3)] r [OF assms(2,4)] assms(5) rlp_string_inj by metis
qed

lemma full_same_values:
  assumes "length cs = 17" "length ds = 17" "\<And>i. i < 17 \<Longrightarrow> same_values D1 (cs ! i) D2 (ds ! i)"
  shows "same_values D1 (FullNode cs fl) D2 (FullNode ds fl')"
proof -
  have "holds D1 (cs ! unat b) k v \<longleftrightarrow> holds D2 (ds ! unat b) k v" if "unat b < 17" for b :: byte and k v
    using assms(3) [OF that] by (simp add: same_values_def)
  then show ?thesis using assms(1,2) by (auto simp: same_values_def holds_Full_iff)
qed

lemma enc_values:
  assumes "hash_size C" "vault C D1 S1" "vault C D2 S2"
  shows "wf_node D1 n1 \<Longrightarrow> wf_node D2 n2 \<Longrightarrow> node_ok C D1 S1 b1 n1 \<Longrightarrow> node_ok C D2 S2 b2 n2 \<Longrightarrow>
     sized C D1 n1 \<Longrightarrow> sized C D2 n2 \<Longrightarrow> no_collision C (part D1 n1) (part D2 n2) \<Longrightarrow>
     enc C (res D1 n1) = enc C (res D2 n2) \<Longrightarrow> same_values D1 n1 D2 n2"
proof (induction arbitrary: n2 b1 b2 rule: wf_node.induct)
  case (wf_hash h n)
  have o: "node_ok C D1 S1 False n" using wf_hash.prems(2) wf_hash.hyps(1) assms(2) by (auto simp: vault_def dest: bspec)
  have s: "sized C D1 n" using wf_hash.prems(4) part_hash [where D = D1, OF wf_hash.hyps(1)] by (auto simp: sized_def)
  have nc: "no_collision C (part D1 n) (part D2 n2)"
    using wf_hash.prems(6) by (rule no_collision_sub) (auto intro: part_hash [where D = D1, OF wf_hash.hyps(1)])
  have "res D1 (HashNode h) = n" using wf_hash.hyps(1) by (simp add: res_def)
  then have "enc C (res D1 n) = enc C (res D2 n2)" using wf_hash.prems(7) res_loaded [OF wf_hash.hyps(2)] by simp
  from wf_hash.IH [OF wf_hash.prems(1) o wf_hash.prems(3) s wf_hash.prems(5) nc this]
  show ?case using wf_hash.hyps(1) by (simp add: same_values_def holds_Hash_iff)
next
  case (wf_leaf k v fl)
  let ?n = "ShortNode k (ValueNode v) fl"
  note m = res_facts [OF assms(3) wf_leaf.prems(1,3)]
  have w1: "wf_node D1 ?n" using wf_leaf(1,2) by (rule wf_node.wf_leaf)
  have f1: "shape ?n" "fits C ?n" using wf_shape [OF assms(1,2) w1 wf_leaf.prems(2)] sized_fits [OF wf_leaf.prems(4)] by blast+
  have f2: "shape (res D2 n2)" "fits C (res D2 n2)"
    using wf_shape [OF assms(1,3) m(2,4)] sized_fits [OF sized_res [OF wf_leaf.prems(1,5)]] by blast+
  have e: "enc C ?n = enc C (res D2 n2)" using wf_leaf.prems(7) by simp
  have "res D2 n2 = ShortNode k (ValueNode v) (case res D2 n2 of ShortNode _ _ fl' \<Rightarrow> fl')"
  proof (cases "res D2 n2")
    case (ShortNode q d fl')
    from short_enc_eq [OF assms(1) f1 f2 [unfolded ShortNode] e [unfolded ShortNode]]
    have k: "k = q" "is_value d" "rlp_string v = ref C d" by simp_all
    then obtain w where w: "d = ValueNode w" by (auto simp: is_value_iff)
    have "length (ref C (ValueNode v)) < 2 ^ 64" "length (ref C (ValueNode w)) < 2 ^ 64"
      using enc_Short_bounds(3) fits_enc f1(2) f2(2) ShortNode w by metis+
    then have "length v < 2 ^ 64" "length w < 2 ^ 64" using length_rlp_string(1) [of v] length_rlp_string(1) [of w] by simp_all
    then have "v = w" using rlp_string_inj k(3) w by simp
    then show ?thesis using ShortNode k w by simp
  next
    case (FullNode ds fl')
    then show ?thesis using short_full_enc [OF assms(1) f1(2), of ds fl'] f2 e by simp
  qed (use m(1) in simp_all)
  then obtain fl' where "res D2 n2 = ShortNode k (ValueNode v) fl'" ..
  then show ?case using m(3) by (simp add: same_values_def holds_Short_iff)
next
  case (wf_short k c fl)
  let ?n = "ShortNode k c fl"
  note m = res_facts [OF assms(3) wf_short.prems(1,3)]
  have w1: "wf_node D1 ?n" using wf_short.hyps by (intro wf_node.wf_short)
  have f1: "shape ?n" "fits C ?n" using wf_shape [OF assms(1,2) w1 wf_short.prems(2)] sized_fits [OF wf_short.prems(4)] by blast+
  have f2: "shape (res D2 n2)" "fits C (res D2 n2)"
    using wf_shape [OF assms(1,3) m(2,4)] sized_fits [OF sized_res [OF wf_short.prems(1,5)]] by blast+
  have e: "enc C ?n = enc C (res D2 n2)" using wf_short.prems(7) by simp
  have nv: "\<not> is_value c" using wf_short.hyps(4) by (auto simp: is_value_iff)
  show ?case
  proof (cases "res D2 n2")
    case (ShortNode q d fl')
    from short_enc_eq [OF assms(1) f1 f2 [unfolded ShortNode] e [unfolded ShortNode]]
    have k: "k = q" "\<not> is_value d" "ref C c = ref C d" using nv by simp_all
    have w: "wf_node D2 d" using iffD1 [OF wf_Short_iff m(2) [unfolded ShortNode]] k(2) by (auto simp: is_value_iff)
    have o: "node_ok C D1 S1 True c" "node_ok C D2 S2 True d" using wf_short.prems(2) m(4) ShortNode by simp_all
    have s: "sized C D1 c" "sized C D2 d"
      using sized_child(1) wf_short.prems(4) sized_res [OF wf_short.prems(1,5)] ShortNode by metis+
    have nc: "no_collision C (part D1 c) (part D2 d)"
      using wf_short.prems(6) by (rule no_collision_sub)
        (use part_resI [OF wf_short.prems(1)] ShortNode in \<open>auto intro: part_short\<close>)
    have "enc C (res D1 c) = enc C (res D2 d)" using ref_inj [OF assms wf_short.hyps(4) w o s nc k(3)] .
    from wf_short.IH [OF w o s nc this] have "same_values D1 c D2 d" .
    then have "same_values D1 ?n D2 (res D2 n2)" using ShortNode k(1) by (simp add: same_values_def holds_Short_iff)
    then show ?thesis using same_values_trans same_values_sym [OF m(3)] by blast
  next
    case (FullNode ds fl')
    then show ?thesis using short_full_enc [OF assms(1) f1(2), of ds fl'] f2 e by simp
  qed (use m(1) in simp_all)
next
  case (wf_full cs fl)
  let ?n = "FullNode cs fl"
  note m = res_facts [OF assms(3) wf_full.prems(1,3)]
  have w1: "wf_node D1 ?n" using wf_full.hyps by (intro wf_node.wf_full)
  have f1: "shape ?n" "fits C ?n" using wf_shape [OF assms(1,2) w1 wf_full.prems(2)] sized_fits [OF wf_full.prems(4)] by blast+
  have f2: "shape (res D2 n2)" "fits C (res D2 n2)"
    using wf_shape [OF assms(1,3) m(2,4)] sized_fits [OF sized_res [OF wf_full.prems(1,5)]] by blast+
  have e: "enc C ?n = enc C (res D2 n2)" using wf_full.prems(7) by simp
  show ?case
  proof (cases "res D2 n2")
    case (ShortNode q d fl')
    then show ?thesis using short_full_enc [OF assms(1) _ f1(2), of q d fl'] f1(1) f2 e by simp
  next
    case (FullNode ds fl')
    have w2: "wf_node D2 (FullNode ds fl')" and o2: "node_ok C D2 S2 b2 (FullNode ds fl')" using m(2,4) FullNode by simp_all
    have l: "length cs = 17" "length ds = 17" using f1(1) f2(1) FullNode by simp_all
    note r = full_enc_eq [OF assms(1) f1(2) f2(2) [unfolded FullNode] e [unfolded FullNode]]
    have "same_values D1 (cs ! i) D2 (ds ! i)" if i: "i < 17" for i
    proof -
      have ok: "ok_child D1 i (cs ! i)" "ok_child D2 i (ds ! i)" using w1 w2 i by (simp_all only: wf_Full_children)
      have mem: "cs ! i \<in> set cs" "ds ! i \<in> set ds" using i l by simp_all
      have o: "node_ok C D1 S1 True (cs ! i)" "node_ok C D2 S2 True (ds ! i)" using wf_full.prems(2) o2 mem by simp_all
      have s: "sized C D1 (cs ! i)" "sized C D2 (ds ! i)"
        using sized_child(2) mem wf_full.prems(4) sized_res [OF wf_full.prems(1,5)] FullNode by metis+
      have ri: "ref C (cs ! i) = ref C (ds ! i)" using arg_cong [OF r, of "\<lambda>xs. xs ! i"] l i by simp
      show ?thesis
      proof (cases "i < 16")
        case False
        then have "cs ! i = NilNode \<or> (\<exists>v. cs ! i = ValueNode v \<and> v \<noteq> [])" "ds ! i = NilNode \<or> (\<exists>v. ds ! i = ValueNode v \<and> v \<noteq> [])"
          using ok by (simp_all add: ok_child_def)
        moreover have "length (ref C (cs ! i)) < 2 ^ 64" "length (ref C (ds ! i)) < 2 ^ 64"
          using enc_Full_bounds(2) fits_enc f1(2) f2(2) FullNode mem by metis+
        ultimately have "cs ! i = ds ! i" using value_ref_inj ri by blast
        moreover have "same_values D1 (cs ! i) D2 (cs ! i)"
          using \<open>cs ! i = NilNode \<or> _\<close> by (auto simp: same_values_def)
        ultimately show ?thesis by simp
      next
        case True
        have w: "cs ! i = NilNode \<or> wf_node D1 (cs ! i)" "ds ! i = NilNode \<or> wf_node D2 (ds ! i)"
          using ok True by (simp_all add: ok_child_def)
        show ?thesis
        proof (cases "cs ! i = NilNode \<or> ds ! i = NilNode")
          case nil: True
          then have "cs ! i = NilNode \<and> ds ! i = NilNode"
            using w ri ref_not_Nil [OF assms(1,2) _ o(1) s(1)] ref_not_Nil [OF assms(1,3) _ o(2) s(2)] by (metis ref_simps(1))
          then show ?thesis by (simp add: same_values_def)
        next
          case False
          then have w': "wf_node D1 (cs ! i)" "wf_node D2 (ds ! i)" using w by blast+
          have nc: "no_collision C (part D1 (cs ! i)) (part D2 (ds ! i))"
            using wf_full.prems(6) by (rule no_collision_sub)
              (use part_resI [OF wf_full.prems(1)] FullNode mem in \<open>auto intro: part_full\<close>)
          have "enc C (res D1 (cs ! i)) = enc C (res D2 (ds ! i))" using ref_inj [OF assms w' o s nc ri] .
          moreover have "cs ! i \<noteq> NilNode" using False by simp
          ultimately show ?thesis using wf_full.IH [OF True _ w'(2) o s nc] by blast
        qed
      qed
    qed
    then have "same_values D1 ?n D2 (res D2 n2)" using FullNode full_same_values [OF l] by simp
    then show ?thesis using same_values_trans same_values_sym [OF m(3)] by blast
  qed (use m(1) in simp_all)
qed


subsection \<open>Tries\<close>

lemma contents_holds:
  assumes "wf_trie D t" "v \<noteq> []" shows "contents D t key = v \<longleftrightarrow> holds D (t_root t) (keybytesToHex key) v"
proof (cases "contents D t key = []")
  case True
  then show ?thesis using contents_finds [OF assms(1), of key] assms(2) by (auto simp: finds_def)
next
  case False
  then have h: "holds D (t_root t) (keybytesToHex key) (contents D t key)"
    using contents_finds [OF assms(1), of key] by (simp add: finds_def)
  show ?thesis using h holds_unique [OF h, of v] by blast
qed

lemma wf_values: "wf_node D n \<Longrightarrow> holds D n k v \<Longrightarrow> v \<noteq> []"
proof (induction arbitrary: k v rule: wf_node.induct)
  case (wf_full cs fl)
  from wf_full.prems wf_full(1) obtain b :: byte and r where b: "holds D (cs ! unat b) r v" "unat b < 17"
    unfolding holds_Full_iff by metis
  show ?case
  proof (cases "unat b < 16")
    case True
    have "cs ! unat b \<noteq> NilNode" using b(1) by auto
    then show ?thesis using wf_full.IH [OF True] b(1) by blast
  next
    case False
    then have "unat b = 16" using b(2) by simp
    then show ?thesis using wf_full(3) b(1) by auto
  qed
qed (auto simp: holds_Short_iff holds_Hash_iff)

lemma contents_same_values:
  assumes "wf_trie D1 t1" "wf_trie D2 t2" "byte_keys D1 (t_root t1)" "byte_keys D2 (t_root t2)"
  shows "contents D1 t1 = contents D2 t2 \<longleftrightarrow> same_values D1 (t_root t1) D2 (t_root t2)"
proof
  have ne: "v \<noteq> []" if "wf_trie D t" "holds D (t_root t) k v" for D t k v
    using that wf_values by (auto simp: wf_trie_def)
  have half: "holds D' (t_root t') k v" if c: "contents D t = contents D' t'" and t: "wf_trie D t" "wf_trie D' t'"
    and b: "byte_keys D (t_root t)" and h: "holds D (t_root t) k v" for D t D' t' k v
  proof -
    obtain key where k: "k = keybytesToHex key" using b h by (auto simp: byte_keys_def)
    have "v \<noteq> []" using ne [OF t(1) h] .
    then show ?thesis using contents_holds [OF t(1)] contents_holds [OF t(2)] c h k by metis
  qed
  assume c: "contents D1 t1 = contents D2 t2"
  show "same_values D1 (t_root t1) D2 (t_root t2)"
    unfolding same_values_def using half [OF c assms(1,2,3)] half [OF c [symmetric] assms(2,1,4)] by blast
next
  assume s: "same_values D1 (t_root t1) D2 (t_root t2)"
  have "contents D1 t1 key = contents D2 t2 key" for key
  proof (cases "contents D1 t1 key = []")
    case True
    show ?thesis
    proof (rule ccontr)
      assume n: "contents D1 t1 key \<noteq> contents D2 t2 key"
      then have "holds D2 (t_root t2) (keybytesToHex key) (contents D2 t2 key)"
        using contents_holds [OF assms(2), of "contents D2 t2 key" key] True by auto
      then have "holds D1 (t_root t1) (keybytesToHex key) (contents D2 t2 key)" using s by (simp add: same_values_def)
      then show False using contents_holds [OF assms(1), of "contents D2 t2 key" key] n True by auto
    qed
  next
    case False
    then have "holds D1 (t_root t1) (keybytesToHex key) (contents D1 t1 key)" using contents_holds [OF assms(1)] by blast
    then have "holds D2 (t_root t2) (keybytesToHex key) (contents D1 t1 key)" using s by (simp add: same_values_def)
    then show ?thesis using contents_holds [OF assms(2)] False by metis
  qed
  then show "contents D1 t1 = contents D2 t2" ..
qed

lemma root_canonical:
  assumes "vault C D1 S1" "vault C D2 S2" "ok_trie C D1 S1 t1" "ok_trie C D2 S2 t2" "contents D1 t1 = contents D2 t2"
  shows "root_hash C (t_root t1) = root_hash C (t_root t2)"
proof -
  have t: "wf_trie D1 t1" "wf_trie D2 t2" "node_ok C D1 S1 False (t_root t1)" "node_ok C D2 S2 False (t_root t2)"
    using assms(3,4) by (simp_all add: ok_trie_def)
  have s: "same_values D1 (t_root t1) D2 (t_root t2)"
    using contents_same_values [OF t(1,2)] assms(3-5) by (simp add: ok_trie_def)
  show ?thesis
  proof (cases "t_root t1 = NilNode \<or> t_root t2 = NilNode")
    case True
    have "t_root t1 = NilNode \<and> t_root t2 = NilNode"
    proof (rule ccontr)
      assume "\<not> ?thesis"
      then have "(\<exists>k v. holds D1 (t_root t1) k v) \<or> (\<exists>k v. holds D2 (t_root t2) k v)"
        using t(1,2) wf_holds unfolding wf_trie_def by blast
      then have "(\<exists>k v. holds D1 (t_root t1) k v) \<and> (\<exists>k v. holds D2 (t_root t2) k v)" using s unfolding same_values_def by blast
      then show False using True by auto
    qed
    then show ?thesis by simp
  next
    case False
    then have w: "wf_node D1 (t_root t1)" "wf_node D2 (t_root t2)" using t(1,2) by (auto simp: wf_trie_def)
    show ?thesis
      using enc_canonical [OF assms(1,2) w t(3,4) s] res_facts(5) [OF assms(1) w(1) t(3)] res_facts(5) [OF assms(2) w(2) t(4)] by simp
  qed
qed

text \<open>The hash of no node is the one that stands for the empty trie.\<close>

definition never_empty :: "crypto \<Rightarrow> node_db \<Rightarrow> node \<Rightarrow> bool" where
  "never_empty C D n \<longleftrightarrow> (\<forall>m. part D n m \<longrightarrow> keccak256 C (enc C m) \<noteq> emptyRoot)"

lemma root_values:
  assumes "hash_size C" "vault C D1 S1" "vault C D2 S2" "ok_trie C D1 S1 t1" "ok_trie C D2 S2 t2"
    "sized C D1 (t_root t1)" "sized C D2 (t_root t2)" "no_collision C (part D1 (t_root t1)) (part D2 (t_root t2))"
    "never_empty C D1 (t_root t1)" "never_empty C D2 (t_root t2)"
    "root_hash C (t_root t1) = root_hash C (t_root t2)"
  shows "contents D1 t1 = contents D2 t2"
proof -
  have t: "wf_trie D1 t1" "wf_trie D2 t2" "node_ok C D1 S1 False (t_root t1)" "node_ok C D2 S2 False (t_root t2)"
    "byte_keys D1 (t_root t1)" "byte_keys D2 (t_root t2)"
    using assms(4,5) by (simp_all add: ok_trie_def)
  have r: "part D n (res D n) \<and> root_hash C n = keccak256 C (enc C (res D n))"
    if "vault C D S" "wf_node D n" "node_ok C D S False n" for D S n
    using res_facts(1,5) [OF that] part_res that(2) by blast
  have "same_values D1 (t_root t1) D2 (t_root t2)"
  proof (cases "t_root t1 = NilNode \<or> t_root t2 = NilNode")
    case True
    have "t_root t1 = NilNode \<and> t_root t2 = NilNode"
    proof (rule ccontr)
      assume n: "\<not> ?thesis"
      then consider "t_root t1 = NilNode" "wf_node D2 (t_root t2)" | "t_root t2 = NilNode" "wf_node D1 (t_root t1)"
        using True t(1,2) by (auto simp: wf_trie_def)
      then show False
      proof cases
        case 1
        then show False using r [OF assms(3) 1(2) t(4)] assms(10,11) by (auto simp: root_hash_def never_empty_def)
      next
        case 2
        then show False using r [OF assms(2) 2(2) t(3)] assms(9,11) by (auto simp: root_hash_def never_empty_def)
      qed
    qed
    then show ?thesis by (simp add: same_values_def)
  next
    case False
    then have w: "wf_node D1 (t_root t1)" "wf_node D2 (t_root t2)" using t(1,2) by (auto simp: wf_trie_def)
    have "enc C (res D1 (t_root t1)) = enc C (res D2 (t_root t2))"
      using r [OF assms(2) w(1) t(3)] r [OF assms(3) w(2) t(4)] assms(8,11) unfolding no_collision_def by metis
    from enc_values [OF assms(1-3) w t(3,4) assms(6-8) this] show ?thesis .
  qed
  then show ?thesis using contents_same_values [OF t(1,2,5,6)] by simp
qed

subsection \<open>Properties\<close>

text \<open>C12. \<open>Hash\<close> of a trie whose caches are right succeeds and returns the root hash of the tree: the hashes cached in
  nodes, which nodes are loaded and the generation do not matter. The trie it leaves, with more hashes cached, stands
  for the same map and its caches are right.\<close>

theorem Trie_Hash_of_contents:
  assumes "hash_size C" "vault C D S" "ok_trie C D S t" "fits C (t_root t)"
  shows "\<exists>t'. Trie_Hash C limit t = Ok (root_hash C (t_root t), t') \<and> contents D t' = contents D t \<and> ok_trie C D S t'"
proof -
  obtain n where n: "Trie_Hash C limit t = Ok (root_hash C (t_root t), t\<lparr>t_root := n\<rparr>)" "bare n = bare (t_root t)"
    "ok_trie C D S (t\<lparr>t_root := n\<rparr>)" using Trie_Hash_root [OF assms] by blast
  have "contents D (t\<lparr>t_root := n\<rparr>) = contents D t"
    using contents_same_values [of D "t\<lparr>t_root := n\<rparr>" D t] n(3) assms(3) bare_same [OF n(2)] by (simp add: ok_trie_def)
  with n show ?thesis by blast
qed

definition updates :: "node_db \<Rightarrow> (byte list \<times> byte list) list \<Rightarrow> Trie \<Rightarrow> Trie" where
  "updates D kvs t = fold (\<lambda>(k, v) t. Update D t k v) kvs t"

lemma ok_updates: "vault C D S \<Longrightarrow> ok_trie C D S t \<Longrightarrow> ok_trie C D S (updates D kvs t)"
  unfolding updates_def by (induction kvs arbitrary: t) (auto simp: Update_def intro: ok_TryUpdate)

text \<open>C9. The root hash does not depend on history: two runs of updates of a trie, insertions, overwritten values
  and deletions, that end with the same map end with the same root hash.\<close>

theorem root_ignores_history:
  assumes "hash_size C" "vault C D S" "ok_trie C D S t" "contents D (updates D kvs1 t) = contents D (updates D kvs2 t)"
    "fits C (t_root (updates D kvs1 t))" "fits C (t_root (updates D kvs2 t))"
  shows "\<exists>root t1 t2. Trie_Hash C limit (updates D kvs1 t) = Ok (root, t1) \<and> Trie_Hash C limit (updates D kvs2 t) = Ok (root, t2)"
  using Trie_Hash_root [OF assms(1,2) ok_updates [OF assms(2,3)] assms(5), of limit]
    Trie_Hash_root [OF assms(1,2) ok_updates [OF assms(2,3)] assms(6), of limit]
    root_canonical [OF assms(2,2) ok_updates [OF assms(2,3)] ok_updates [OF assms(2,3)] assms(4)] by fastforce

text \<open>C8. A root hash commits to a map: two tries, over whatever databases, have the same root hash exactly when they
  stand for the same map, if no two different encodings of their nodes have the same hash.\<close>

theorem equal_roots_equal_contents:
  assumes "hash_size C" "vault C D1 S1" "vault C D2 S2" "ok_trie C D1 S1 t1" "ok_trie C D2 S2 t2"
    "sized C D1 (t_root t1)" "sized C D2 (t_root t2)" "no_collision C (part D1 (t_root t1)) (part D2 (t_root t2))"
    "never_empty C D1 (t_root t1)" "never_empty C D2 (t_root t2)"
    "Trie_Hash C limit1 t1 = Ok (r1, u1)" "Trie_Hash C limit2 t2 = Ok (r2, u2)"
  shows "r1 = r2 \<longleftrightarrow> contents D1 t1 = contents D2 t2"
proof -
  have "r1 = root_hash C (t_root t1)" "r2 = root_hash C (t_root t2)"
    using Trie_Hash_root [OF assms(1,2,4) sized_fits [OF assms(6)], of limit1]
      Trie_Hash_root [OF assms(1,3,5) sized_fits [OF assms(7)], of limit2] assms(11,12) by auto
  then show ?thesis using root_values [OF assms(1-10)] root_canonical [OF assms(2-5)] by blast
qed

text \<open>C39. Reading, updating and deleting keep the caches right: every cached hash is the hash of its node, no embedded
  node has one, and every clean node is stored under its hash with the same values.\<close>

theorem caches_stay_right:
  assumes "vault C D S" "ok_trie C D S t"
  shows "ok_trie C D S (snd (TryGet D t key)) \<and> ok_trie C D S (snd (TryUpdate D t key v)) \<and> ok_trie C D S (snd (TryDelete D t key))"
  using ok_TryGet [OF assms] ok_TryUpdate [OF assms] ok_TryDelete [OF assms] by blast

subsection \<open>Examples\<close>

lemma no_vault: "vault C D {}"
  by (simp add: vault_def)

lemma ok_empty_trie: "ok_trie C D S empty_trie"
  using ok_empty [of C D S 0] by (simp add: empty_trie_def)

lemma leaf_trie:
  assumes "v \<noteq> []"
  shows "updates D [(key, v)] empty_trie = \<lparr>t_root = ShortNode (keybytesToHex key) (ValueNode v) (newFlag 0), t_cachegen = 0\<rparr>"
proof -
  have f: "walk_fuel (keybytesToHex key) = Suc (Suc (2 * length (keybytesToHex key)))" by (simp add: walk_fuel_def)
  have k: "keybytesToHex key \<noteq> []" by (simp add: keybytesToHex_def)
  show ?thesis using assms k
    by (simp add: updates_def Update_def TryUpdate_def empty_trie_def f insert_node.simps(2))
qed

theorem Trie_Hash_of_contents_witness:
  "\<exists>t'. Trie_Hash flat_crypto 0 (updates no_nodes [([1], [7])] empty_trie) =
       Ok (replicate 27 0 @ [0xC4, 0x82, 0x20, 0x01, 0x07], t') \<and> contents no_nodes t' [1] = [7]"
proof -
  let ?t = "updates no_nodes [([1], [7])] empty_trie"
  have ok: "ok_trie flat_crypto no_nodes {} ?t" using ok_updates [OF no_vault ok_empty_trie] .
  have e: "enc flat_crypto (t_root ?t) = [0xC4, 0x82, 0x20, 0x01, 0x07]"
    by (simp add: leaf_trie leaf_enc rlp_list_def rlp_string_def puthead_def)
  have f: "fits flat_crypto (t_root ?t)" using e by (simp add: leaf_trie)
  have r: "root_hash flat_crypto (t_root ?t) = replicate 27 0 @ [0xC4, 0x82, 0x20, 0x01, 0x07]"
    using e by (simp add: leaf_trie root_hash_def flat_crypto_def BytesToHash_def fill_right_def HashLength_def eval_nat_numeral)
  have "contents no_nodes ?t [1] = [7]"
    using Update_map [OF wf_empty_trie, of no_nodes "[1]" "[7]"] by (simp add: updates_def)
  then show ?thesis using Trie_Hash_of_contents [OF flat_hash_size no_vault ok f, of 0] r by auto
qed


definition sample_leaf :: "byte \<Rightarrow> node" where
  "sample_leaf v = ShortNode [16] (ValueNode [v]) (newFlag 0)"

definition sample_full :: node where
  "sample_full = FullNode ([NilNode, sample_leaf 7, sample_leaf 8] @ replicate 14 NilNode) (newFlag 0)"

lemma two_leaves:
  "t_root (updates no_nodes [([1], [7]), ([2], [8])] empty_trie) = ShortNode [0] sample_full (newFlag 0)"
  "t_root (updates no_nodes [([2], [8]), ([1], [9]), ([1], [7])] empty_trie) = ShortNode [0] sample_full (newFlag 0)"
  by code_simp+

lemma sample_tree_lengths:
  "length (enc flat_crypto (sample_leaf 7)) < 100" "length (enc flat_crypto (sample_leaf 8)) < 100"
  "length (enc flat_crypto sample_full) < 100" "length (enc flat_crypto (ShortNode [0] sample_full (newFlag 0))) < 100"
  by code_simp+

lemma two_leaves_fit: "fits flat_crypto (ShortNode [0] sample_full (newFlag 0))"
proof -
  have s: "n < 100 \<Longrightarrow> n < 2 ^ 64" for n :: nat by simp
  have "fits flat_crypto (sample_leaf 7)" "fits flat_crypto (sample_leaf 8)"
    using s [OF sample_tree_lengths(1)] s [OF sample_tree_lengths(2)] by (simp_all add: sample_leaf_def)
  then have "fits flat_crypto sample_full" using s [OF sample_tree_lengths(3)] by (simp add: sample_full_def)
  then show ?thesis using s [OF sample_tree_lengths(4)] by simp
qed

lemma two_leaves_contents:
  "contents no_nodes (updates no_nodes [([1], [7]), ([2], [8])] empty_trie) = (\<lambda>key. [])([1] := [7], [2] := [8])"
  "contents no_nodes (updates no_nodes [([2], [8]), ([1], [9]), ([1], [7])] empty_trie) = (\<lambda>key. [])([2] := [8], [1] := [9], [1] := [7])"
  by (simp_all add: updates_def Update_map contents_empty del: fun_upd_upd)

theorem root_ignores_history_witness:
  "\<exists>root t1 t2. Trie_Hash flat_crypto 0 (updates no_nodes [([1], [7]), ([2], [8])] empty_trie) = Ok (root, t1) \<and>
     Trie_Hash flat_crypto 0 (updates no_nodes [([2], [8]), ([1], [9]), ([1], [7])] empty_trie) = Ok (root, t2)"
proof (rule root_ignores_history [OF flat_hash_size no_vault ok_empty_trie])
  show "contents no_nodes (updates no_nodes [([1], [7]), ([2], [8])] empty_trie) =
      contents no_nodes (updates no_nodes [([2], [8]), ([1], [9]), ([1], [7])] empty_trie)"
    unfolding two_leaves_contents by (rule ext) simp
  show "fits flat_crypto (t_root (updates no_nodes [([1], [7]), ([2], [8])] empty_trie))"
    unfolding two_leaves(1) by (rule two_leaves_fit)
  show "fits flat_crypto (t_root (updates no_nodes [([2], [8]), ([1], [9]), ([1], [7])] empty_trie))"
    unfolding two_leaves(2) by (rule two_leaves_fit)
qed

inductive_cases part_ValueE: "part D (ValueNode v) m"
inductive_cases part_ShortE: "part D (ShortNode k c fl) m"

lemma leaf_part: "part D (ShortNode k (ValueNode v) fl) = (\<lambda>m. m = ShortNode k (ValueNode v) fl)"
  by (rule ext) (auto elim!: part_ShortE part_ValueE intro: part_self)

theorem equal_roots_equal_contents_witness:
  "\<exists>r1 u1 r2 u2. Trie_Hash flat_crypto 0 (updates no_nodes [([1], [7])] empty_trie) = Ok (r1, u1) \<and>
     Trie_Hash flat_crypto 0 (updates no_nodes [([1], [8])] empty_trie) = Ok (r2, u2) \<and>
     (r1 = r2 \<longleftrightarrow> contents no_nodes (updates no_nodes [([1], [7])] empty_trie) = contents no_nodes (updates no_nodes [([1], [8])] empty_trie))"
proof -
  let ?t = "\<lambda>v. updates no_nodes [([1], [v])] empty_trie :: Trie"
  have ok: "ok_trie flat_crypto no_nodes {} (?t v)" for v using ok_updates [OF no_vault ok_empty_trie] .
  have e: "enc flat_crypto (t_root (?t v)) = [0xC4, 0x82, 0x20, 0x01, v]" if "unat v < 128" for v
    using that by (simp add: leaf_trie leaf_enc rlp_list_def rlp_string_def puthead_def)
  have p: "part no_nodes (t_root (?t v)) m \<longleftrightarrow> m = t_root (?t v)" for v m by (simp add: leaf_trie leaf_part)
  have k: "keccak256 flat_crypto (enc flat_crypto (t_root (?t v))) = replicate 27 0 @ [0xC4, 0x82, 0x20, 0x01, v]" if "unat v < 128" for v
    unfolding flat_keccak e [OF that] by (simp add: BytesToHash_def fill_right_def HashLength_def eval_nat_numeral)
  have s: "sized flat_crypto no_nodes (t_root (?t v))" if "unat v < 128" for v using e [OF that] by (simp add: sized_def p)
  have n: "never_empty flat_crypto no_nodes (t_root (?t v))" if "unat v < 128" for v
    by (simp add: never_empty_def p k [OF that] emptyRoot_def)
  have u: "unat (7 :: byte) < 128" "unat (8 :: byte) < 128" by simp_all
  have nc: "no_collision flat_crypto (part no_nodes (t_root (?t 7))) (part no_nodes (t_root (?t 8)))"
    by (simp add: no_collision_def p k [OF u(1)] k [OF u(2)])
  obtain t1 t2 where h: "Trie_Hash flat_crypto 0 (?t 7) = Ok (root_hash flat_crypto (t_root (?t 7)), t1)"
    "Trie_Hash flat_crypto 0 (?t 8) = Ok (root_hash flat_crypto (t_root (?t 8)), t2)"
    using Trie_Hash_root [OF flat_hash_size no_vault ok sized_fits [OF s [OF u(1)]], of 0]
      Trie_Hash_root [OF flat_hash_size no_vault ok sized_fits [OF s [OF u(2)]], of 0] by blast
  show ?thesis
    using h equal_roots_equal_contents [OF flat_hash_size no_vault no_vault ok ok s [OF u(1)] s [OF u(2)] nc n [OF u(1)] n [OF u(2)] h] by blast
qed

theorem caches_stay_right_witness:
  "ok_trie flat_crypto no_nodes {} (snd (TryUpdate no_nodes empty_trie [1] [7]))"
  using caches_stay_right [OF no_vault ok_empty_trie, where C = flat_crypto and D = no_nodes and v = "[7]" and key = "[1]"] by blast

end
