(* ===== verification/Spec2Isabelle.thy ===== *)
theory Spec2Isabelle
  imports Prelude Queues Big_Math Go_Codec Types Signing Store Consensus Execution Evm_Machine Rlp_Round_Trip Trie_Map State_Snapshots Dvm Trie_Merkle
begin

section \<open>A verification library for the disgo node\<close>

text \<open>
  \<^bold>\<open>The program.\<close> disgo is the node of a delegated ledger. A client sends a signed transaction; a delegate checks it,
  gossips it with a rumor (its signed statement) among the delegates until two thirds have spoken, queues it by
  time, and a worker executes it against the accounts in a Badger database. Contracts run in a port of the
  Ethereum virtual machine (\<open>dvm/ethereum\<close>) over accounts and storage kept in Merkle Patricia tries.

  \<^bold>\<open>The theories\<close>, in the order of their dependencies.

  \<^item> \<open>Prelude\<close>: results (\<open>Ok\<close>, \<open>Err\<close>, \<open>Panic\<close>), wrap-around of \<open>int64\<close> and \<open>uint64\<close>, shared lemmas on lists.
  \<^item> \<open>Queues\<close> (\<open>commons/queue\<close>): the heap of \<open>container/heap\<close> over \<open>PriorityQueue\<close>, the set of keys, the three queues,
    the goroutine that serialises their operations. The heap is a multiset that pops in order of time; the key
    set agrees with it for every guarded sequence of operations.
  \<^item> \<open>Big_Math\<close> (\<open>dvm/ethereum/common\<close>, \<open>commons/crypto/common.go\<close>): \<open>big.Int\<close> as \<open>int\<close>, words of 256 bits by \<open>U256\<close>
    and \<open>S256\<close>, byte forms, \<open>Exp\<close>, checked arithmetic.
  \<^item> \<open>Go_Codec\<close>: the parts of Go's library that the source uses: hex, decimal numbers, JSON values with numbers as
    \<open>float64\<close>, the parameter \<open>crypto\<close> with its documented laws \<open>crypto_laws\<close>.
  \<^item> \<open>Types\<close>, \<open>Signing\<close>, \<open>Store\<close> (\<open>commons/types\<close>): the records of the ledger; their JSON forms and round trips; hashes,
    signatures and their verification; persistence, index keys, lookups and paging over Badger and the cache.
  \<^item> \<open>Consensus\<close> (\<open>dapos/dapos_handshake.go\<close>, \<open>dapos_transport_grpc.go\<close>): receiving, gossiping, synchronising and
    queueing. Shared objects (gossips, receipts) live in a heap, so aliasing with the cache is explicit. The answers
    of the network are arguments.
  \<^item> \<open>Execution\<close> (\<open>dapos/dapos_handshake.go\<close>): \<open>executeTransaction\<close> and \<open>doWork\<close> with every early return, over a
    database in which any read, write or commit may fail (\<open>faults\<close>). The virtual machine is a parameter there.
  \<^item> \<open>Rlp_Encode\<close>, \<open>Rlp_Decode\<close>, \<open>Rlp_Round_Trip\<close> (\<open>dvm/ethereum/rlp\<close>): the two-pass encoder against the recursive
    definition of the format, the stream decoder, termination of decoding, the round trip.
  \<^item> \<open>Trie\<close>, \<open>Trie_Map\<close> (\<open>dvm/ethereum/trie\<close>): key encodings, nodes, lookup, insertion and deletion; the refinement of
    a map by the trie, stated through the locale \<open>value_map\<close>.
  \<^item> \<open>Trie_Store\<close>, \<open>Trie_Codec\<close>, \<open>Trie_Hashing\<close>, \<open>Trie_Merkle\<close> (\<open>trie/hasher.go\<close>, \<open>node.go\<close>, \<open>database.go\<close>,
    \<open>badgerwrapper\<close>): the encoding of nodes, the hasher with its cached hashes and dirty flags, the node database with its
    reference counts and flush list, the writes to Badger. A collapsed node reads as its blob does; the cached hashes
    stay right under reads and updates; the root hash is a function of the contents, and without collisions it is an
    injective one, whatever the history of the trie.
  \<^item> \<open>State_DB\<close>, \<open>State_Journal\<close>, \<open>State_Snapshots\<close> (\<open>dvm/ethereum/state\<close>, \<open>trie/secure_trie.go\<close>): the accounts a
    contract sees, the journal of their changes, snapshots; undoing a journal is a simulation over what the readers
    answer (\<open>state_abs\<close>), so that reverting to a snapshot restores it.
  \<^item> \<open>Evm_Machine\<close>, \<open>Evm_Opcodes\<close>, \<open>Evm_Contracts\<close> (\<open>dvm/ethereum/vm\<close>, \<open>params\<close>): stack, memory, memory sizes, gas of
    memory and calls, jump analysis; the operations of the stack; contracts, chain rules and the built-in contracts.
  \<^item> \<open>Evm\<close>, \<open>Evm_Instructions\<close>, \<open>Evm_Interpreter\<close> (\<open>evm.go\<close>, \<open>gas_table.go\<close>, \<open>instructions.go\<close>, \<open>jump_table.go\<close>,
    \<open>interpreter.go\<close>): the four kinds of call and the creation of contracts, every instruction and gas function, the
    four instruction sets, the loop. An instruction that calls takes the interpreter as an argument.
  \<^item> \<open>Evm_Fuel\<close>, \<open>Evm_Words\<close>, \<open>Evm_Calls\<close>, \<open>Evm_Steps\<close>, \<open>Evm_Safety\<close>: more fuel gives the same outcome; the arithmetic
    instructions are those of 256-bit words; the judgement \<open>meets\<close> of total correctness and what each call and each
    instruction keeps of the machine; from these, that the interpreter never reads below its stack, returns, and that
    failed and static calls leave the accounts as they were.
  \<^item> \<open>Evm_Transition\<close> (\<open>state_transition.go\<close>, \<open>gaspool.go\<close>): the application of a message; its gas accounting.
  \<^item> \<open>Eth_Receipts\<close> (\<open>dvm/ethereum/types\<close>): blooms, logs and receipts with their stored form.
  \<^item> \<open>Dvm\<close> (\<open>dvm\<close>, \<open>vmstatehelperimplemtations\<close>): the service that deploys and executes contracts: it opens the state of a
    contract from the disk, applies a message to it and commits the state, the transactions and the receipts.

  \<^bold>\<open>How the parts meet.\<close> \<open>Execution\<close> takes the service as its parameter \<open>dvm\<close>, which sees the ledger's database and the
  service's result; \<open>Dvm\<close> defines the service over the disk of \<open>Trie_Store\<close>. The accounts of \<open>State_DB\<close> work on any
  tries with the operations \<open>tries\<close>; \<open>State_Snapshots\<close> instantiates them with the secure tries of \<open>Trie\<close>, and the
  machine's properties are about this instance (\<open>program_env\<close>). Their hashing and committing are arguments there;
  \<open>Trie_Store\<close> has the code of both, over the same nodes.

  \<^bold>\<open>Locales.\<close> \<open>Queues\<close> states the contract of a priority queue, \<open>Trie_Map\<close> that of a map of values,
  \<open>State_Journal\<close> that of the tries an account relies on, within which \<open>Evm_Calls\<close>, \<open>Evm_Steps\<close>, \<open>Evm_Safety\<close> and
  \<open>Evm_Transition\<close> follow the machine; all are interpreted on the definitions translated from the code.

  \<^bold>\<open>Fuel.\<close> \<open>decode\<close> takes two units for a byte of input, which is shown to be enough; a walk in a trie takes twice the
  length of the key and some (\<open>walk_fuel\<close>), enough by \<open>fuel_enough\<close>; the interpreter takes one unit for an
  instruction, and \<open>enough_fuel\<close>, which is linear in the gas, is enough for a run with all its nested calls.

  \<^bold>\<open>Not modelled.\<close> Text logging, the tracer (it is off), HTTP and gRPC plumbing, configuration, seeds and peer
  discovery, the key files; the primitives of hashing and of the curves (the parameters \<open>crypto\<close> and \<open>natives\<close>); the
  vendored Badger, go-cache and Kademlia code; the ABI, which works by reflection; generated code; the blocks, signers and
  transaction heaps of go-ethereum, its iterators and proofs of tries and its other databases, which the node does not use.
  Of the virtual machine: \<open>Cancel\<close> (nothing calls it), the pools of integers, the cache of jump analyses,
  \<open>NewEVMContext\<close>; of the databases: locks and statistics. They are listed in the manifest.
\<close>

end
